(* ===== verification/Prelude.thy ===== *)
theory Prelude
  imports Main "HOL-Library.Word" "HOL-Library.Monad_Syntax"
begin

text \<open>
  Shared vocabulary of the development: panics as \<open>None\<close> in the option monad, the
  truncation of stored integers to the width of the C field, tests of bit flags, and the
  generic lemmas the components use.
\<close>

unbundle bit_operations_syntax

named_theorems wf_intros \<open>introduction rules for the well-formedness invariants\<close>

section \<open>Panics\<close>

text \<open>
  \<open>VERIFY(x)\<close> of flashcache.h panics the kernel when \<open>x\<close> does not hold. Every operation that
  contains a \<open>VERIFY\<close> returns an option: \<open>None\<close> is the panic (or, for a loop, that it does
  not return), \<open>Some\<close> the state and result of a normal return.
\<close>

definition verify :: "bool \<Rightarrow> unit option" where
  "verify b = (if b then Some () else None)"

lemma verify_True [simp]: "verify True = Some ()"
  by (simp add: verify_def)

lemma verify_False [simp]: "verify False = None"
  by (simp add: verify_def)

lemma verify_eq_Some [simp]: "verify b = Some u \<longleftrightarrow> b"
  by (simp add: verify_def)

lemma verify_bind_Some [simp]:
  "Option.bind (verify b) f = Some r \<longleftrightarrow> b \<and> f () = Some r"
  by (simp add: verify_def)

lemma bind_verify_if: "Option.bind (verify b) f = (if b then f () else None)"
  by (simp add: verify_def)

lemma bind_eq_Some_E:
  assumes "Option.bind m f = Some r"
  obtains x where "m = Some x" and "f x = Some r"
  using assms by (cases m) auto

text \<open>A loop whose body may panic, over the elements of a list in order.\<close>

primrec for_each :: "('a \<Rightarrow> 's \<Rightarrow> 's option) \<Rightarrow> 'a list \<Rightarrow> 's \<Rightarrow> 's option" where
  "for_each f [] s = Some s"
| "for_each f (x # xs) s = Option.bind (f x s) (for_each f xs)"

lemma for_each_invariant:
  assumes "\<And>x s. x \<in> set xs \<Longrightarrow> I s \<Longrightarrow> \<exists>s'. f x s = Some s' \<and> I s'" and "I s"
  shows "\<exists>s'. for_each f xs s = Some s' \<and> I s'"
  using assms
proof (induction xs arbitrary: s)
  case Nil
  then show ?case by simp
next
  case (Cons x xs)
  from Cons.prems obtain s1 where "f x s = Some s1" "I s1" by fastforce
  moreover from this Cons obtain s2 where "for_each f xs s1 = Some s2" "I s2"
    by (metis list.set_intros(2))
  ultimately show ?case by simp
qed

lemma for_each_append:
  "for_each f (xs @ ys) s = Option.bind (for_each f xs s) (for_each f ys)"
  by (induction xs arbitrary: s) (simp_all split: Option.bind_split)

section \<open>Widths\<close>

text \<open>
  Indices and counters kept in 16 bit fields are natural numbers, truncated when they are
  stored; decrementing 0 wraps.
\<close>

definition to_u16 :: "nat \<Rightarrow> nat" where
  "to_u16 n = n mod 65536"

definition inc16 :: "nat \<Rightarrow> nat" where
  "inc16 n = (n + 1) mod 65536"

definition dec16 :: "nat \<Rightarrow> nat" where
  "dec16 n = (n + 65535) mod 65536"

lemma to_u16_id [simp]: "n < 65536 \<Longrightarrow> to_u16 n = n"
  by (simp add: to_u16_def)

lemma inc16_id [simp]: "n < 65535 \<Longrightarrow> inc16 n = Suc n"
  by (simp add: inc16_def)

lemma dec16_Suc [simp]: "n < 65536 \<Longrightarrow> dec16 (Suc n) = n"
  by (simp add: dec16_def)

lemma dec16_pos: "0 < n \<Longrightarrow> n \<le> 65536 \<Longrightarrow> dec16 n = n - 1"
  using dec16_Suc [of "n - 1"] by simp

section \<open>Flags\<close>

text \<open>
  The rewrite rules that bring a test \<open>s AND mask\<close> on a word built with \<open>OR flag\<close> and
  \<open>AND NOT flag\<close> to tests of the original word.
\<close>

lemmas mask_simps = bit.conj_disj_distrib2 and.assoc

lemma and_eq_disjoint_mask:
  fixes s a b :: "16 word"
  assumes "a AND b = 0"
  shows "s AND (a OR b) = a \<longleftrightarrow> s AND a = a \<and> s AND b = 0"
proof
  assume *: "s AND (a OR b) = a"
  have "s AND a = (s AND (a OR b)) AND a"
    by (rule bit_eqI) (auto simp: bit_simps)
  moreover have "s AND b = (s AND (a OR b)) AND b"
    by (rule bit_eqI) (auto simp: bit_simps)
  ultimately show "s AND a = a \<and> s AND b = 0"
    using * assms by simp
next
  assume "s AND a = a \<and> s AND b = 0"
  then show "s AND (a OR b) = a"
    by (simp add: bit.conj_disj_distrib)
qed

section \<open>Lists\<close>

definition hd_or :: "'p \<Rightarrow> 'p list \<Rightarrow> 'p" where
  "hd_or z xs = (case xs of [] \<Rightarrow> z | x # _ \<Rightarrow> x)"

definition last_or :: "'p \<Rightarrow> 'p list \<Rightarrow> 'p" where
  "last_or z xs = hd_or z (rev xs)"

lemma hd_or_simps [simp]: "hd_or z [] = z" "hd_or z (x # xs) = x"
  by (simp_all add: hd_or_def)

lemma hd_or_append [simp]: "hd_or z (xs @ ys) = hd_or (hd_or z ys) xs"
  by (cases xs) simp_all

lemma last_or_simps [simp]: "last_or z [] = z" "last_or z (xs @ [x]) = x"
  by (simp_all add: last_or_def)

lemma last_or_Cons [simp]: "last_or z (x # xs) = last_or x xs"
  by (simp add: last_or_def)

lemma hd_or_in: "xs \<noteq> [] \<Longrightarrow> hd_or z xs \<in> set xs"
  by (cases xs) simp_all

lemma last_or_in: "xs \<noteq> [] \<Longrightarrow> last_or z xs \<in> set xs"
  using hd_or_in [of "rev xs" z] by (simp add: last_or_def)

lemma hd_or_null_iff: "z \<notin> set xs \<Longrightarrow> hd_or z xs = z \<longleftrightarrow> xs = []"
  by (cases xs) auto

lemma last_or_null_iff: "z \<notin> set xs \<Longrightarrow> last_or z xs = z \<longleftrightarrow> xs = []"
  by (cases xs rule: rev_cases) auto

end
