(* ===== verification/Links.thy ===== *)
theory Links
  imports Prelude
begin

text \<open>
  Doubly linked lists threaded through the elements of an array or through pointers: the
  per-set invalid list and hash chains, the hot and warm LRU lists of a set, the flows of the
  sequential I/O detector and the queue of access statistics of the prefetcher are all of this
  shape. A list is seen through its two link fields \<open>nx\<close> and \<open>pv\<close> (functions from an element
  to the content of its next and previous field), its \<open>head\<close>, its \<open>tail\<close> and the null link.
  The abstraction is symmetric: exchanging \<open>nx\<close> with \<open>pv\<close> and head with tail reverses the
  list, so each fact is proved once and read in both directions.
\<close>

section \<open>Segments and lists\<close>

primrec seg :: "('p \<Rightarrow> 'p) \<Rightarrow> 'p \<Rightarrow> 'p list \<Rightarrow> 'p \<Rightarrow> bool" where
  "seg nx h [] e \<longleftrightarrow> h = e"
| "seg nx h (x # xs) e \<longleftrightarrow> h = x \<and> seg nx (nx x) xs e"

lemma seg_append [simp]: "seg nx h (xs @ ys) e \<longleftrightarrow> (\<exists>m. seg nx h xs m \<and> seg nx m ys e)"
  by (induction xs arbitrary: h) auto

lemma seg_frame: "(\<And>x. x \<in> set xs \<Longrightarrow> nx' x = nx x) \<Longrightarrow> seg nx' h xs e = seg nx h xs e"
  by (induction xs arbitrary: h) auto

lemma seg_upd [simp]: "x \<notin> set xs \<Longrightarrow> seg (nx(x := v)) h xs e = seg nx h xs e"
  by (rule seg_frame) auto

lemma seg_head: "seg nx h xs e \<Longrightarrow> h = hd_or e xs"
  by (cases xs) auto

lemma seg_split:
  "seg nx h (xs @ x # ys) e \<longleftrightarrow> seg nx h xs x \<and> seg nx (nx x) ys e"
  by auto

text \<open>Redirecting the link of the last element changes the end of the segment.\<close>

lemma seg_retarget:
  assumes "seg nx h xs e" and "distinct xs" and "xs \<noteq> []"
  shows "seg (nx(last_or z xs := e')) h xs e'"
proof -
  obtain ys y where xs: "xs = ys @ [y]"
    using assms(3) by (metis rev_exhaust)
  with assms show ?thesis by auto
qed

definition dll :: "'p \<Rightarrow> ('p \<Rightarrow> 'p) \<Rightarrow> ('p \<Rightarrow> 'p) \<Rightarrow> 'p \<Rightarrow> 'p \<Rightarrow> 'p list \<Rightarrow> bool" where
  "dll null nx pv h t xs \<longleftrightarrow>
     distinct xs \<and> null \<notin> set xs \<and> seg nx h xs null \<and> seg pv t (rev xs) null"

lemma dll_rev: "dll null nx pv h t xs \<longleftrightarrow> dll null pv nx t h (rev xs)"
  by (auto simp: dll_def)

lemma dll_frame:
  assumes "\<And>x. x \<in> set xs \<Longrightarrow> nx' x = nx x" and "\<And>x. x \<in> set xs \<Longrightarrow> pv' x = pv x"
  shows "dll null nx' pv' h t xs = dll null nx pv h t xs"
  using seg_frame [of xs nx' nx] seg_frame [of "rev xs" pv' pv] assms
  by (simp add: dll_def)

lemma dll_Nil [simp]: "dll null nx pv h t [] \<longleftrightarrow> h = null \<and> t = null"
  by (auto simp: dll_def)

lemma dll_head: "dll null nx pv h t xs \<Longrightarrow> h = hd_or null xs"
  by (auto simp: dll_def dest: seg_head)

lemma dll_tail: "dll null nx pv h t xs \<Longrightarrow> t = last_or null xs"
  by (auto simp: dll_def last_or_def dest: seg_head)

lemma dll_distinct: "dll null nx pv h t xs \<Longrightarrow> distinct xs"
  by (simp add: dll_def)

lemma dll_null: "dll null nx pv h t xs \<Longrightarrow> null \<notin> set xs"
  by (simp add: dll_def)

lemma dll_empty_iff: "dll null nx pv h t xs \<Longrightarrow> xs = [] \<longleftrightarrow> h = null"
  by (metis dll_head dll_null hd_or_null_iff)

lemma dll_empty_iff_tail: "dll null nx pv h t xs \<Longrightarrow> xs = [] \<longleftrightarrow> t = null"
  by (metis dll_tail dll_null last_or_null_iff)

lemma dll_nx: "dll null nx pv h t (xs @ x # ys) \<Longrightarrow> nx x = hd_or null ys"
  by (auto simp: dll_def dest: seg_head)

lemma dll_pv: "dll null nx pv h t (xs @ x # ys) \<Longrightarrow> pv x = last_or null xs"
  using dll_nx [of null pv nx t h "rev ys" x "rev xs"] dll_rev [of null nx pv h t "xs @ x # ys"]
  by (simp add: last_or_def)

text \<open>An element with neither neighbour is the only one of its list.\<close>

lemma dll_single:
  assumes "dll null nx pv h t xs" and "x \<in> set xs" and "nx x = null" and "pv x = null"
  shows "xs = [x]"
proof -
  obtain as bs where xs: "xs = as @ x # bs" using assms(2) by (meson split_list)
  with assms dll_nx dll_pv have "hd_or null bs = null" "last_or null as = null" by metis+
  with xs dll_null [OF assms(1)] show ?thesis
    by (simp add: hd_or_null_iff last_or_null_iff)
qed

lemma dll_unique:
  assumes "dll null nx pv h t xs" and "dll null nx pv' h t' ys"
  shows "xs = ys"
proof -
  have "seg nx h xs null \<Longrightarrow> seg nx h ys null \<Longrightarrow> null \<notin> set xs \<Longrightarrow> null \<notin> set ys \<Longrightarrow> xs = ys" for h
  proof (induction xs arbitrary: h ys)
    case Nil
    then show ?case by (cases ys) auto
  next
    case (Cons x xs)
    then show ?case by (cases ys) auto
  qed
  with assms show ?thesis unfolding dll_def by blast
qed

section \<open>Unlinking\<close>

text \<open>The forward half of an unlink: the predecessor, or the head, skips the element.\<close>

lemma seg_unlink:
  assumes "seg nx h (xs @ x # ys) e" and "distinct (xs @ x # ys)" and "null \<notin> set xs"
  shows "seg (if last_or null xs = null then nx else nx(last_or null xs := nx x))
            (if last_or null xs = null then nx x else h) (xs @ ys) e"
proof (cases "xs = []")
  case True
  with assms show ?thesis by simp
next
  case False
  with assms(3) have nn: "last_or null xs \<noteq> null" by (simp add: last_or_null_iff)
  from False assms(2) have notin: "last_or null xs \<notin> set ys"
    using last_or_in [of xs null] by auto
  from assms(1) have a: "seg nx h xs x" and b: "seg nx (nx x) ys e"
    by (auto simp: seg_split simp del: seg_append)
  from a assms(2) False have "seg (nx(last_or null xs := nx x)) h xs (nx x)"
    by (intro seg_retarget) auto
  with b notin nn show ?thesis by auto
qed

lemma dll_unlink:
  assumes "dll null nx pv h t (xs @ x # ys)"
  shows "dll null (if pv x = null then nx else nx(pv x := nx x))
                  (if nx x = null then pv else pv(nx x := pv x))
                  (if pv x = null then nx x else h)
                  (if nx x = null then pv x else t) (xs @ ys)"
proof -
  have p: "pv x = last_or null xs" and n: "nx x = last_or null (rev ys)"
    using dll_pv [OF assms] dll_nx [OF assms] by (simp_all add: last_or_def)
  have "seg (if pv x = null then nx else nx(pv x := nx x))
            (if pv x = null then nx x else h) (xs @ ys) null"
    unfolding p using assms by (intro seg_unlink) (auto simp: dll_def)
  moreover have "seg (if nx x = null then pv else pv(nx x := pv x))
            (if nx x = null then pv x else t) (rev ys @ rev xs) null"
    unfolding n using assms by (intro seg_unlink) (auto simp: dll_def)
  ultimately show ?thesis using assms by (simp add: dll_def)
qed

section \<open>Linking at an end\<close>

lemma dll_link_head:
  assumes "dll null nx pv h t xs" and "x \<notin> set xs" and "x \<noteq> null"
  shows "dll null (nx(x := h)) (if h = null then pv(x := null) else pv(x := null, h := x))
             x (if h = null then x else t) (x # xs)"
proof (cases xs)
  case Nil
  with assms show ?thesis by (auto simp: dll_def)
next
  case (Cons y ys)
  with assms dll_head have h: "h = y" "h \<noteq> null" "h \<noteq> x"
    using dll_null by (fastforce)+
  from assms have seg: "seg pv t (rev ys @ [y]) null" and d: "distinct (y # ys)"
    by (auto simp: dll_def Cons)
  then have "seg (pv(y := x)) t (rev ys @ [y]) x"
    using seg_retarget [of pv t "rev ys @ [y]" null null x] by simp
  then have "seg (pv(x := null, h := x)) t (rev ys @ [y]) x"
    using assms(2) h seg_upd [of x "rev ys @ [y]" "pv(y := x)" null t x]
    by (simp add: fun_upd_twist [of x] Cons del: seg_append)
  with assms h Cons show ?thesis by (auto simp: dll_def)
qed

lemma dll_link_tail:
  assumes "dll null nx pv h t xs" and "x \<notin> set xs" and "x \<noteq> null"
  shows "dll null (if t = null then nx(x := null) else nx(x := null, t := x)) (pv(x := t))
             (if t = null then x else h) x (xs @ [x])"
  using dll_link_head [of null pv nx t h "rev xs" x] assms
  by (simp add: dll_rev [of null _ _ _ _ "xs @ [x]"] dll_rev [of null nx pv h t xs])

text \<open>An unlinked element may have its own links cleared, and no other list notices.\<close>

lemma dll_unlink_clear:
  assumes "dll null nx pv h t (xs @ x # ys)"
  shows "dll null ((if pv x = null then nx else nx(pv x := nx x))(x := null))
                  ((if nx x = null then pv else pv(nx x := pv x))(x := null))
                  (if pv x = null then nx x else h)
                  (if nx x = null then pv x else t) (xs @ ys)"
  using dll_unlink [OF assms] dll_distinct [OF assms]
  by (subst dll_frame [where nx = "if pv x = null then nx else nx(pv x := nx x)"
        and pv = "if nx x = null then pv else pv(nx x := pv x)"]) auto

lemma dll_neighbours:
  assumes "dll null nx pv h t (xs @ x # ys)"
  shows "pv x \<noteq> null \<Longrightarrow> pv x \<in> set xs" and "nx x \<noteq> null \<Longrightarrow> nx x \<in> set ys"
    and "pv x \<noteq> x" and "nx x \<noteq> x"
proof -
  have p: "pv x = last_or null xs" and n: "nx x = hd_or null ys"
    using dll_pv [OF assms] dll_nx [OF assms] .
  show a: "pv x \<noteq> null \<Longrightarrow> pv x \<in> set xs"
    unfolding p by (metis last_or_in last_or_simps(1))
  show b: "nx x \<noteq> null \<Longrightarrow> nx x \<in> set ys"
    unfolding n by (metis hd_or_in hd_or_simps(1))
  show "pv x \<noteq> x" "nx x \<noteq> x"
    using a b dll_distinct [OF assms] dll_null [OF assms] by auto
qed

lemma dll_head_in: "dll null nx pv h t xs \<Longrightarrow> h \<noteq> null \<Longrightarrow> h \<in> set xs"
  by (metis dll_head hd_or_in hd_or_simps(1))

lemma dll_tail_in: "dll null nx pv h t xs \<Longrightarrow> t \<noteq> null \<Longrightarrow> t \<in> set xs"
  by (metis dll_tail last_or_in last_or_simps(1))

lemma dll_walk:
  assumes "dll null nx pv h t (xs @ x # ys)"
  shows "seg nx (nx x) ys null" and "seg nx h xs x"
  using assms by (auto simp: dll_def)

end
