(* ===== verification/Cache.thy ===== *)
theory Cache
  imports Links
begin

text \<open>
  The data model: the constants and structures of \<open>flashcache.h\<close>, \<open>pfd_stat.h\<close>,
  \<open>pfd_cache.h\<close> and the private structures of \<open>pfd_stat.c\<close> and \<open>pfd_cache.c\<close>, the state of
  the driver as one record, and the address arithmetic of the cache. Arrays are functions from
  indices, valid up to the length the C code allocates; 16 bit links are natural numbers with
  \<open>FLASHCACHE_NULL\<close> for no link; the index \<open>-1\<close> is \<open>None\<close>; pointers into the arrays of the
  prefetcher are \<open>nat option\<close>.
\<close>

section \<open>Widths and kernel vocabulary\<close>

type_synonym u64 = "64 word"
type_synonym sector = "64 word"
type_synonym timeval = "int \<times> int"

datatype device = DiskDev | CacheDev

record bio =
  bi_id :: nat
  bi_sector :: sector
  bi_size :: "32 word"
  bi_is_write :: bool
  bi_barrier :: bool

definition to_sector :: "bio \<Rightarrow> sector" where
  "to_sector b = drop_bit 9 (ucast (bi_size b))"

text \<open>\<open>time_after(a, b)\<close> of the kernel: \<open>(long)(b - a) < 0\<close>.\<close>

definition time_after :: "u64 \<Rightarrow> u64 \<Rightarrow> bool" where
  "time_after a b \<longleftrightarrow> sint (b - a) < 0"

definition HZ :: u64 where "HZ = 250"
definition EIO :: int where "EIO = 5"
definition ENOMEM :: int where "ENOMEM = 12"
definition EINVAL :: int where "EINVAL = 22"

text \<open>Signed 16 bit storage of \<open>nr_queued\<close>.\<close>

definition to_s16 :: "int \<Rightarrow> int" where
  "to_s16 n = (n + 32768) mod 65536 - 32768"

lemma to_s16_id [simp]: "- 32768 \<le> n \<Longrightarrow> n < 32768 \<Longrightarrow> to_s16 n = n"
  by (simp add: to_s16_def)

section \<open>Constants\<close>

definition FLASHCACHE_NULL :: nat where "FLASHCACHE_NULL = 0xFFFF"
definition FLASHCACHE_FIFO :: int where "FLASHCACHE_FIFO = 0"
definition FLASHCACHE_LRU :: int where "FLASHCACHE_LRU = 1"
definition FLASHCACHE_MAX_ASSOC :: nat where "FLASHCACHE_MAX_ASSOC = 8192"
definition NUM_BLOCK_HASH_BUCKETS :: nat where "NUM_BLOCK_HASH_BUCKETS = 512"
definition PENDING_JOB_HASH_SIZE :: nat where "PENDING_JOB_HASH_SIZE = 32"
definition FLASHCACHE_WRITE_CLUST_HIST_SIZE :: nat where
  "FLASHCACHE_WRITE_CLUST_HIST_SIZE = 128"
definition IO_LATENCY_GRAN_USECS :: int where "IO_LATENCY_GRAN_USECS = 250"
definition IO_LATENCY_BUCKETS :: int where "IO_LATENCY_BUCKETS = 40"
definition SEQUENTIAL_TRACKER_QUEUE_DEPTH :: nat where "SEQUENTIAL_TRACKER_QUEUE_DEPTH = 32"
definition SLOW_REMOVE :: int where "SLOW_REMOVE = 1"
definition FAST_REMOVE :: int where "FAST_REMOVE = 2"

datatype cache_mode = FLASHCACHE_WRITE_BACK | FLASHCACHE_WRITE_THROUGH | FLASHCACHE_WRITE_AROUND

text \<open>States of a cache block.\<close>

definition INVALID :: "16 word" where "INVALID = 0x0001"
definition VALID :: "16 word" where "VALID = 0x0002"
definition DISKREADINPROG :: "16 word" where "DISKREADINPROG = 0x0004"
definition DISKWRITEINPROG :: "16 word" where "DISKWRITEINPROG = 0x0008"
definition CACHEREADINPROG :: "16 word" where "CACHEREADINPROG = 0x0010"
definition CACHEWRITEINPROG :: "16 word" where "CACHEWRITEINPROG = 0x0020"
definition DIRTY :: "16 word" where "DIRTY = 0x0040"
definition DIRTY_FALLOW_1 :: "16 word" where "DIRTY_FALLOW_1 = 0x0080"
definition DIRTY_FALLOW_2 :: "16 word" where "DIRTY_FALLOW_2 = 0x0100"
definition FALLOW_DOCLEAN :: "16 word" where
  "FALLOW_DOCLEAN = DIRTY_FALLOW_1 OR DIRTY_FALLOW_2"
definition BLOCK_IO_INPROG :: "16 word" where
  "BLOCK_IO_INPROG = DISKREADINPROG OR DISKWRITEINPROG OR CACHEREADINPROG OR CACHEWRITEINPROG"

definition LRU_HOT :: "8 word" where "LRU_HOT = 0x01"
definition LRU_WARM :: "8 word" where "LRU_WARM = 0x02"

lemmas flag_defs = INVALID_def VALID_def DISKREADINPROG_def DISKWRITEINPROG_def
  CACHEREADINPROG_def CACHEWRITEINPROG_def DIRTY_def DIRTY_FALLOW_1_def DIRTY_FALLOW_2_def
  FALLOW_DOCLEAN_def BLOCK_IO_INPROG_def

lemmas flag_simps = flag_defs mask_simps

lemmas lru_flag_simps = LRU_HOT_def LRU_WARM_def mask_simps

section \<open>Blocks and sets\<close>

record cacheblock =
  cache_state :: "16 word"
  nr_queued :: int
  lru_prev :: nat
  lru_next :: nat
  use_cnt :: "8 word"
  lru_state :: "8 word"
  dbn :: sector
  hash_prev :: nat
  hash_next :: nat

record cache_set =
  set_fifo_next :: nat
  set_clean_next :: nat
  set_clean_inprog :: nat
  set_nr_dirty :: nat
  dirty_fallow :: nat
  fallow_tstamp :: u64
  fallow_next_cleaning :: u64
  hotlist_lru_head :: nat
  hotlist_lru_tail :: nat
  warmlist_lru_head :: nat
  warmlist_lru_tail :: nat
  set_lru_hot_blocks :: nat
  set_lru_warm_blocks :: nat
  hash_buckets :: "nat \<Rightarrow> nat"
  invalid_head :: nat

record flashcache_errors =
  disk_read_errors :: int
  disk_write_errors :: int
  ssd_read_errors :: int
  ssd_write_errors :: int
  memory_alloc_errors :: int

record flashcache_stats =
  reads :: u64
  writes :: u64
  read_hits :: u64
  write_hits :: u64
  dirty_write_hits :: u64
  replace :: u64
  wr_replace :: u64
  wr_invalidates :: u64
  rd_invalidates :: u64
  pending_inval :: u64
  enqueues :: u64
  cleanings :: u64
  fallow_cleanings :: u64
  noroom :: u64
  md_write_dirty :: u64
  md_write_clean :: u64
  md_write_batch :: u64
  md_ssd_writes :: u64
  pid_drops :: u64
  pid_adds :: u64
  pid_dels :: u64
  expiry :: u64
  front_merge :: u64
  back_merge :: u64
  uncached_reads :: u64
  uncached_writes :: u64
  uncached_sequential_reads :: u64
  uncached_sequential_writes :: u64
  disk_reads :: u64
  disk_writes :: u64
  ssd_reads :: u64
  ssd_writes :: u64
  uncached_io_requeue :: u64
  clean_set_ios :: u64
  force_clean_block :: u64
  lru_promotions :: u64
  lru_demotions :: u64

section \<open>Jobs and I/O requests\<close>

datatype action =
  READCACHE | WRITECACHE | READDISK | WRITEDISK | READFILL | INVALIDATE | WRITEDISK_SYNC

type_synonym region = "device \<times> sector \<times> sector"

text \<open>A slot of a metadata block on flash (\<open>struct flash_cacheblock\<close>) and the superblock.\<close>

type_synonym md_slot = "sector \<times> 32 word"

record flash_superblock =
  sb_size :: nat
  sb_block_size :: nat
  sb_assoc :: nat
  cache_sb_state :: "32 word"
  sb_cache_devname :: string
  sb_cache_devsize :: nat
  sb_disk_devname :: string
  sb_disk_devsize :: nat
  cache_version :: int
  sb_md_block_size :: nat
  sb_disk_assoc :: nat
  sb_write_only_cache :: int

record kcached_job =
  job_bio :: "bio option"
  job_disk :: region
  job_cache :: region
  job_index :: "nat option"
  job_action :: action
  job_error :: int
  job_md_block :: bool
  job_start_time :: timeval

record pending_job =
  pj_bio :: bio
  pj_action :: action
  pj_index :: nat

record cache_md_block_head =
  nr_in_prog :: nat
  queued_updates :: "kcached_job list"
  md_io_inprog :: "kcached_job list"

datatype io_notify =
  Io_callback | Md_write_callback | Uncached_io_callback | Kcopyd_callback | Kcopyd_callback_sync

record io_request =
  io_fn :: io_notify
  io_write :: bool
  io_regions :: "region list"
  io_md :: "md_slot list"
  io_job :: kcached_job

record flashcache_cachectl_pid =
  ctl_pid :: int
  ctl_expiry :: u64

record sequential_io =
  most_recent_sector :: sector
  sequential_count :: u64
  seq_prev :: "nat option"
  seq_next :: "nat option"

text \<open>The sort key and payload of the write-back lists.\<close>

type_synonym dbn_index_pair = "sector \<times> nat"

section \<open>The prefetcher's structures\<close>

record pfd_seq_stat =
  start :: sector
  count :: int

record pfd_stat =
  st_tgt :: "nat option"
  st_pid :: int
  st_stride :: int
  st_stride_count :: int
  seq_stats :: "nat \<Rightarrow> pfd_seq_stat"
  curr_seq_stat :: nat
  prev_seq_stat :: nat

record pfd_stat_elm =
  stat :: pfd_stat
  elm_next :: "nat option"
  elm_prev :: "nat option"

record pfd_stat_queue =
  stat_elms :: "nat \<Rightarrow> pfd_stat_elm"
  stat_head :: "nat option"
  stat_tail :: "nat option"

record pfd_stat_info =
  last_sect :: sector
  seq_count :: int
  seq_total_count :: int
  stride_distance_sect :: int
  stride_count :: int

datatype pfd_cache_meta_status = pfd_empty | pfd_prepare | pfd_valid

record pfd_cache_meta =
  meta_dbn :: sector
  meta_status :: pfd_cache_meta_status
  hold_count :: int
  prepare_lock :: int
  ssd_index :: int

record pfd_cache =
  pfd_dmc :: nat
  metas :: "nat \<Rightarrow> pfd_cache_meta"

datatype cache_set_init_status = set_empty | set_prepare | set_valid

record pfd_cache_set =
  pfd_count :: nat
  status_arr :: "nat \<Rightarrow> cache_set_init_status"
  dmc_arr :: "nat \<Rightarrow> nat option"
  caches :: "nat \<Rightarrow> pfd_cache option"

record pfd_request =
  req_cache :: nat
  req_meta :: nat
  req_region :: region

section \<open>The state of the driver\<close>

text \<open>
  The per device sysctls of \<open>struct cache_c\<close>, as one group.
\<close>

record sysctls =
  sysctl_io_latency_hist :: int
  sysctl_do_sync :: int
  sysctl_stop_sync :: int
  sysctl_dirty_thresh :: int
  sysctl_pid_do_expiry :: int
  sysctl_max_pids :: int
  sysctl_pid_expiry_secs :: int
  sysctl_reclaim_policy :: int
  sysctl_zerostats :: int
  sysctl_error_inject :: "32 word"
  sysctl_fast_remove :: int
  sysctl_cache_all :: int
  sysctl_fallow_clean_speed :: int
  sysctl_fallow_delay :: int
  sysctl_skip_seq_thresh_kb :: int
  sysctl_clean_on_read_miss :: int
  sysctl_clean_on_write_miss :: int
  sysctl_lru_hot_pct :: int
  sysctl_lru_promote_thresh :: int
  sysctl_new_style_write_merge :: int

text \<open>
  What the driver sees of the kernel around it: the clock and the tick counter, the current
  process, the outcomes of the coming memory allocations (an empty script means that all
  succeed), the error codes of the coming synchronous I/Os (0 when the script is empty), the
  kernel's hash \<open>jhash_1word\<close> and its \<open>sort\<close>, the content of fresh memory, which processes exist
  and the sizes of the devices. The hash and the sort are code outside the repository: they are
  arbitrary functions here, and a theorem that relies on the sort says what it needs of it.
\<close>

record kernel =
  jiffies :: u64
  wall_clock :: timeval
  current_pid :: int
  current_tgid :: int
  alloc_script :: "bool list"
  io_script :: "int list"
  jhash_1word :: "32 word \<Rightarrow> 32 word \<Rightarrow> 32 word"
  sort_dbns :: "dbn_index_pair list \<Rightarrow> dbn_index_pair list"
  heap_garbage :: flash_superblock
  task_exists :: "int \<Rightarrow> bool"
  disk_nr_sects :: nat
  ssd_nr_sects :: nat

text \<open>
  \<open>struct cache_c\<close> with the module's globals (work queues, counters, size histogram, the
  prefetcher's queue and cache set), the I/O requests handed to the block layer that have not
  completed, the log of the bios completed so far with their error codes, and the superblock and
  metadata slots as they are on the flash device.
\<close>

record cache_c =
  tgt :: nat
  csize :: nat
  assoc :: nat
  block_size :: nat
  block_shift :: nat
  md_block_size :: nat
  md_blocks :: nat
  disk_assoc :: nat
  disk_assoc_shift :: nat
  assoc_shift :: nat
  num_sets :: nat
  mode :: cache_mode
  write_only_cache :: int
  on_ssd_version :: int
  bypass_cache :: bool
  cache :: "nat \<Rightarrow> cacheblock"
  cache_sets :: "nat \<Rightarrow> cache_set"
  md_blocks_buf :: "nat \<Rightarrow> cache_md_block_head"
  nr_jobs :: int
  remove_in_prog :: int
  clean_inprog :: int
  sync_index :: nat
  nr_dirty :: int
  cached_blocks :: int
  pending_jobs_count :: int
  hot_list_pct :: int
  dirty_thresh_set :: int
  max_clean_ios_set :: int
  max_clean_ios_total :: int
  lru_hot_blocks :: int
  lru_warm_blocks :: int
  flashcache_stats :: flashcache_stats
  flashcache_errors :: flashcache_errors
  latency_hist :: "nat \<Rightarrow> u64"
  latency_hist_10ms :: u64
  write_clust_hist :: "nat \<Rightarrow> u64"
  write_clust_hist_ovf :: u64
  blacklist :: "flashcache_cachectl_pid list"
  whitelist :: "flashcache_cachectl_pid list"
  num_blacklist_pids :: int
  num_whitelist_pids :: int
  pid_expire_check :: u64
  pending_job_hashbuckets :: "nat \<Rightarrow> pending_job list"
  diskclean_bufs :: "nat list"
  sysctl :: sysctls
  seq_recent_ios :: "nat \<Rightarrow> sequential_io"
  seq_io_head :: "nat option"
  seq_io_tail :: "nat option"
  q_pending_jobs :: "kcached_job list"
  q_io_jobs :: "kcached_job list"
  q_md_io_jobs :: "kcached_job list"
  q_md_complete_jobs :: "kcached_job list"
  q_uncached_io_complete_jobs :: "kcached_job list"
  nr_cache_jobs :: int
  nr_pending_jobs :: int
  size_hist :: "nat \<Rightarrow> u64"
  delayed_clean :: bool
  io_inflight :: "io_request list"
  completed :: "(bio \<times> int) list"
  main_queue :: pfd_stat_queue
  main_cache_set :: pfd_cache_set
  pfd_inflight :: "pfd_request list"
  pfd_waiters :: "(bio \<times> pfd_stat_info \<times> nat \<times> nat) list"
  disk_devname :: string
  dm_vdevname :: string
  ssd_sb :: flash_superblock
  ssd_md :: "nat \<Rightarrow> md_slot"
  kernel :: kernel

section \<open>Access to blocks, sets, statistics and sysctls\<close>

definition upd_blk :: "nat \<Rightarrow> (cacheblock \<Rightarrow> cacheblock) \<Rightarrow> cache_c \<Rightarrow> cache_c" where
  "upd_blk i f d = d\<lparr>cache := (cache d)(i := f (cache d i))\<rparr>"

definition upd_set :: "nat \<Rightarrow> (cache_set \<Rightarrow> cache_set) \<Rightarrow> cache_c \<Rightarrow> cache_c" where
  "upd_set s f d = d\<lparr>cache_sets := (cache_sets d)(s := f (cache_sets d s))\<rparr>"

definition bump :: "((u64 \<Rightarrow> u64) \<Rightarrow> flashcache_stats \<Rightarrow> flashcache_stats) \<Rightarrow> cache_c \<Rightarrow> cache_c" where
  "bump field d = flashcache_stats_update (field (\<lambda>n. n + 1)) d"

definition bump_error :: "((int \<Rightarrow> int) \<Rightarrow> flashcache_errors \<Rightarrow> flashcache_errors) \<Rightarrow> cache_c \<Rightarrow> cache_c" where
  "bump_error field d = flashcache_errors_update (field (\<lambda>n. n + 1)) d"

abbreviation state_of :: "cache_c \<Rightarrow> nat \<Rightarrow> 16 word" where
  "state_of d i \<equiv> cache_state (cache d i)"

definition set_state :: "nat \<Rightarrow> 16 word \<Rightarrow> cache_c \<Rightarrow> cache_c" where
  "set_state i v d = upd_blk i (\<lambda>b. b\<lparr>cache_state := v\<rparr>) d"

text \<open>\<open>kernel\<close> memory allocation: the next outcome of the script.\<close>

definition alloc_ok :: "cache_c \<Rightarrow> bool" where
  "alloc_ok d = (case alloc_script (kernel d) of [] \<Rightarrow> True | b # _ \<Rightarrow> b)"

definition alloc_next :: "cache_c \<Rightarrow> cache_c" where
  "alloc_next d = kernel_update (alloc_script_update tl) d"

text \<open>Synchronous I/O: the next error code of the script.\<close>

definition sync_error :: "cache_c \<Rightarrow> int" where
  "sync_error d = (case io_script (kernel d) of [] \<Rightarrow> 0 | e # _ \<Rightarrow> e)"

definition sync_next :: "cache_c \<Rightarrow> cache_c" where
  "sync_next d = kernel_update (io_script_update tl) d"

section \<open>Address arithmetic\<close>

definition SIZEOF_FLASH_CACHEBLOCK :: nat where "SIZEOF_FLASH_CACHEBLOCK = 16"

definition MD_BLOCK_BYTES :: "cache_c \<Rightarrow> nat" where
  "MD_BLOCK_BYTES d = md_block_size d * 512"

definition MD_SLOTS_PER_BLOCK :: "cache_c \<Rightarrow> nat" where
  "MD_SLOTS_PER_BLOCK d = MD_BLOCK_BYTES d div SIZEOF_FLASH_CACHEBLOCK"

definition INDEX_TO_MD_BLOCK :: "cache_c \<Rightarrow> nat \<Rightarrow> nat" where
  "INDEX_TO_MD_BLOCK d i = i div MD_SLOTS_PER_BLOCK d"

definition INDEX_TO_MD_BLOCK_OFFSET :: "cache_c \<Rightarrow> nat \<Rightarrow> nat" where
  "INDEX_TO_MD_BLOCK_OFFSET d i = i mod MD_SLOTS_PER_BLOCK d"

definition INDEX_TO_CACHE_ADDR :: "cache_c \<Rightarrow> nat \<Rightarrow> sector" where
  "INDEX_TO_CACHE_ADDR d i =
     push_bit (block_shift d) (of_nat i) + of_nat (md_blocks d * md_block_size d)"

definition CACHE_ADDR_TO_INDEX :: "cache_c \<Rightarrow> sector \<Rightarrow> nat" where
  "CACHE_ADDR_TO_INDEX d a =
     unat (drop_bit (block_shift d) (a - of_nat (md_blocks d * md_block_size d)))"

text \<open>The geometry that the constructor establishes and nothing changes afterwards.\<close>

definition geometry :: "cache_c \<Rightarrow> bool" where
  "geometry d \<longleftrightarrow> 0 < assoc d \<and> assoc d \<le> FLASHCACHE_MAX_ASSOC \<and>
     csize d = num_sets d * assoc d \<and> assoc d = 2 ^ assoc_shift d \<and>
     block_size d = 2 ^ block_shift d"

lemma set_of_index [simp]: "x < a \<Longrightarrow> (s * a + x) div a = (s::nat)"
  by simp

lemma off_of_index [simp]: "x < a \<Longrightarrow> (s * a + x) mod a = (x::nat)"
  by simp

lemma index_split: "i div a * a + i mod a = (i::nat)"
  by simp

lemma index_less:
  assumes "s < n" and "x < a"
  shows "s * a + x < n * (a::nat)"
proof -
  have "s * a + x < s * a + a" using assms(2) by simp
  also have "\<dots> = Suc s * a" by simp
  also have "\<dots> \<le> n * a" using assms(1) by (intro mult_le_mono1) simp
  finally show ?thesis .
qed

lemma set_less: "i < n * a \<Longrightarrow> i div a < (n::nat)"
  by (simp add: less_mult_imp_div_less)

lemma upd_blk_sel [simp]:
  "cache (upd_blk i f d) = (cache d)(i := f (cache d i))"
  "cache_sets (upd_blk i f d) = cache_sets d"
  "assoc (upd_blk i f d) = assoc d"
  "csize (upd_blk i f d) = csize d"
  "num_sets (upd_blk i f d) = num_sets d"
  "kernel (upd_blk i f d) = kernel d"
  by (simp_all add: upd_blk_def)

lemma upd_set_sel [simp]:
  "cache (upd_set s f d) = cache d"
  "cache_sets (upd_set s f d) = (cache_sets d)(s := f (cache_sets d s))"
  "assoc (upd_set s f d) = assoc d"
  "csize (upd_set s f d) = csize d"
  "num_sets (upd_set s f d) = num_sets d"
  "kernel (upd_set s f d) = kernel d"
  by (simp_all add: upd_set_def)

lemma upd_blk_other [simp]: "j \<noteq> i \<Longrightarrow> cache (upd_blk i f d) j = cache d j"
  by simp

text \<open>
  Many operations write only the blocks and the sets: restoring these two arrays restores the
  state.
\<close>

definition same_but_arrays :: "cache_c \<Rightarrow> cache_c \<Rightarrow> bool" where
  "same_but_arrays d d' \<longleftrightarrow> d'\<lparr>cache := cache d, cache_sets := cache_sets d\<rparr> = d"

lemma same_but_arrays_refl [simp]: "same_but_arrays d d"
  by (simp add: same_but_arrays_def)

lemma same_but_arrays_trans:
  assumes "same_but_arrays d d'" and "same_but_arrays d' d''"
  shows "same_but_arrays d d''"
proof -
  have "d''\<lparr>cache := cache d, cache_sets := cache_sets d\<rparr> =
      (d''\<lparr>cache := cache d', cache_sets := cache_sets d'\<rparr>)\<lparr>cache := cache d, cache_sets := cache_sets d\<rparr>"
    by simp
  with assms show ?thesis by (simp add: same_but_arrays_def)
qed

lemma same_but_arrays_upd [simp]:
  "same_but_arrays d (upd_blk i f d)" "same_but_arrays d (upd_set s g d)"
  by (simp_all add: same_but_arrays_def upd_blk_def upd_set_def)

lemma same_but_arrays_D:
  assumes "same_but_arrays d d'"
  shows
    "tgt d' = tgt d"
    "csize d' = csize d"
    "assoc d' = assoc d"
    "block_size d' = block_size d"
    "block_shift d' = block_shift d"
    "md_block_size d' = md_block_size d"
    "md_blocks d' = md_blocks d"
    "disk_assoc d' = disk_assoc d"
    "disk_assoc_shift d' = disk_assoc_shift d"
    "assoc_shift d' = assoc_shift d"
    "num_sets d' = num_sets d"
    "mode d' = mode d"
    "write_only_cache d' = write_only_cache d"
    "on_ssd_version d' = on_ssd_version d"
    "bypass_cache d' = bypass_cache d"
    "md_blocks_buf d' = md_blocks_buf d"
    "nr_jobs d' = nr_jobs d"
    "remove_in_prog d' = remove_in_prog d"
    "clean_inprog d' = clean_inprog d"
    "sync_index d' = sync_index d"
    "nr_dirty d' = nr_dirty d"
    "cached_blocks d' = cached_blocks d"
    "pending_jobs_count d' = pending_jobs_count d"
    "hot_list_pct d' = hot_list_pct d"
    "dirty_thresh_set d' = dirty_thresh_set d"
    "max_clean_ios_set d' = max_clean_ios_set d"
    "max_clean_ios_total d' = max_clean_ios_total d"
    "lru_hot_blocks d' = lru_hot_blocks d"
    "lru_warm_blocks d' = lru_warm_blocks d"
    "flashcache_stats d' = flashcache_stats d"
    "flashcache_errors d' = flashcache_errors d"
    "latency_hist d' = latency_hist d"
    "latency_hist_10ms d' = latency_hist_10ms d"
    "write_clust_hist d' = write_clust_hist d"
    "write_clust_hist_ovf d' = write_clust_hist_ovf d"
    "blacklist d' = blacklist d"
    "whitelist d' = whitelist d"
    "num_blacklist_pids d' = num_blacklist_pids d"
    "num_whitelist_pids d' = num_whitelist_pids d"
    "pid_expire_check d' = pid_expire_check d"
    "pending_job_hashbuckets d' = pending_job_hashbuckets d"
    "diskclean_bufs d' = diskclean_bufs d"
    "sysctl d' = sysctl d"
    "seq_recent_ios d' = seq_recent_ios d"
    "seq_io_head d' = seq_io_head d"
    "seq_io_tail d' = seq_io_tail d"
    "q_pending_jobs d' = q_pending_jobs d"
    "q_io_jobs d' = q_io_jobs d"
    "q_md_io_jobs d' = q_md_io_jobs d"
    "q_md_complete_jobs d' = q_md_complete_jobs d"
    "q_uncached_io_complete_jobs d' = q_uncached_io_complete_jobs d"
    "nr_cache_jobs d' = nr_cache_jobs d"
    "nr_pending_jobs d' = nr_pending_jobs d"
    "size_hist d' = size_hist d"
    "delayed_clean d' = delayed_clean d"
    "io_inflight d' = io_inflight d"
    "completed d' = completed d"
    "main_queue d' = main_queue d"
    "main_cache_set d' = main_cache_set d"
    "pfd_inflight d' = pfd_inflight d"
    "pfd_waiters d' = pfd_waiters d"
    "disk_devname d' = disk_devname d"
    "dm_vdevname d' = dm_vdevname d"
    "ssd_sb d' = ssd_sb d"
    "ssd_md d' = ssd_md d"
    "kernel d' = kernel d"
  by (subst assms [unfolded same_but_arrays_def, symmetric], simp)+

lemmas upd_blk_same [simp] = same_but_arrays_D [OF same_but_arrays_upd(1)]

lemmas upd_set_same [simp] = same_but_arrays_D [OF same_but_arrays_upd(2)]

lemmas set_state_sel [simp] = upd_blk_sel [where f = "\<lambda>b. b\<lparr>cache_state := v\<rparr>" for v, folded set_state_def]

lemmas set_state_same [simp] = upd_blk_same [where f = "\<lambda>b. b\<lparr>cache_state := v\<rparr>" for v, folded set_state_def]

lemma bump_same [simp]:
  "tgt (bump f d) = tgt d"
  "csize (bump f d) = csize d"
  "assoc (bump f d) = assoc d"
  "block_size (bump f d) = block_size d"
  "block_shift (bump f d) = block_shift d"
  "md_block_size (bump f d) = md_block_size d"
  "md_blocks (bump f d) = md_blocks d"
  "disk_assoc (bump f d) = disk_assoc d"
  "disk_assoc_shift (bump f d) = disk_assoc_shift d"
  "assoc_shift (bump f d) = assoc_shift d"
  "num_sets (bump f d) = num_sets d"
  "mode (bump f d) = mode d"
  "write_only_cache (bump f d) = write_only_cache d"
  "on_ssd_version (bump f d) = on_ssd_version d"
  "bypass_cache (bump f d) = bypass_cache d"
  "cache (bump f d) = cache d"
  "cache_sets (bump f d) = cache_sets d"
  "md_blocks_buf (bump f d) = md_blocks_buf d"
  "nr_jobs (bump f d) = nr_jobs d"
  "remove_in_prog (bump f d) = remove_in_prog d"
  "clean_inprog (bump f d) = clean_inprog d"
  "sync_index (bump f d) = sync_index d"
  "nr_dirty (bump f d) = nr_dirty d"
  "cached_blocks (bump f d) = cached_blocks d"
  "pending_jobs_count (bump f d) = pending_jobs_count d"
  "hot_list_pct (bump f d) = hot_list_pct d"
  "dirty_thresh_set (bump f d) = dirty_thresh_set d"
  "max_clean_ios_set (bump f d) = max_clean_ios_set d"
  "max_clean_ios_total (bump f d) = max_clean_ios_total d"
  "lru_hot_blocks (bump f d) = lru_hot_blocks d"
  "lru_warm_blocks (bump f d) = lru_warm_blocks d"
  "flashcache_errors (bump f d) = flashcache_errors d"
  "latency_hist (bump f d) = latency_hist d"
  "latency_hist_10ms (bump f d) = latency_hist_10ms d"
  "write_clust_hist (bump f d) = write_clust_hist d"
  "write_clust_hist_ovf (bump f d) = write_clust_hist_ovf d"
  "blacklist (bump f d) = blacklist d"
  "whitelist (bump f d) = whitelist d"
  "num_blacklist_pids (bump f d) = num_blacklist_pids d"
  "num_whitelist_pids (bump f d) = num_whitelist_pids d"
  "pid_expire_check (bump f d) = pid_expire_check d"
  "pending_job_hashbuckets (bump f d) = pending_job_hashbuckets d"
  "diskclean_bufs (bump f d) = diskclean_bufs d"
  "sysctl (bump f d) = sysctl d"
  "seq_recent_ios (bump f d) = seq_recent_ios d"
  "seq_io_head (bump f d) = seq_io_head d"
  "seq_io_tail (bump f d) = seq_io_tail d"
  "q_pending_jobs (bump f d) = q_pending_jobs d"
  "q_io_jobs (bump f d) = q_io_jobs d"
  "q_md_io_jobs (bump f d) = q_md_io_jobs d"
  "q_md_complete_jobs (bump f d) = q_md_complete_jobs d"
  "q_uncached_io_complete_jobs (bump f d) = q_uncached_io_complete_jobs d"
  "nr_cache_jobs (bump f d) = nr_cache_jobs d"
  "nr_pending_jobs (bump f d) = nr_pending_jobs d"
  "size_hist (bump f d) = size_hist d"
  "delayed_clean (bump f d) = delayed_clean d"
  "io_inflight (bump f d) = io_inflight d"
  "completed (bump f d) = completed d"
  "main_queue (bump f d) = main_queue d"
  "main_cache_set (bump f d) = main_cache_set d"
  "pfd_inflight (bump f d) = pfd_inflight d"
  "pfd_waiters (bump f d) = pfd_waiters d"
  "disk_devname (bump f d) = disk_devname d"
  "dm_vdevname (bump f d) = dm_vdevname d"
  "ssd_sb (bump f d) = ssd_sb d"
  "ssd_md (bump f d) = ssd_md d"
  "kernel (bump f d) = kernel d"
  by (simp_all add: bump_def)

lemma bump_error_same [simp]:
  "tgt (bump_error f d) = tgt d"
  "csize (bump_error f d) = csize d"
  "assoc (bump_error f d) = assoc d"
  "block_size (bump_error f d) = block_size d"
  "block_shift (bump_error f d) = block_shift d"
  "md_block_size (bump_error f d) = md_block_size d"
  "md_blocks (bump_error f d) = md_blocks d"
  "disk_assoc (bump_error f d) = disk_assoc d"
  "disk_assoc_shift (bump_error f d) = disk_assoc_shift d"
  "assoc_shift (bump_error f d) = assoc_shift d"
  "num_sets (bump_error f d) = num_sets d"
  "mode (bump_error f d) = mode d"
  "write_only_cache (bump_error f d) = write_only_cache d"
  "on_ssd_version (bump_error f d) = on_ssd_version d"
  "bypass_cache (bump_error f d) = bypass_cache d"
  "cache (bump_error f d) = cache d"
  "cache_sets (bump_error f d) = cache_sets d"
  "md_blocks_buf (bump_error f d) = md_blocks_buf d"
  "nr_jobs (bump_error f d) = nr_jobs d"
  "remove_in_prog (bump_error f d) = remove_in_prog d"
  "clean_inprog (bump_error f d) = clean_inprog d"
  "sync_index (bump_error f d) = sync_index d"
  "nr_dirty (bump_error f d) = nr_dirty d"
  "cached_blocks (bump_error f d) = cached_blocks d"
  "pending_jobs_count (bump_error f d) = pending_jobs_count d"
  "hot_list_pct (bump_error f d) = hot_list_pct d"
  "dirty_thresh_set (bump_error f d) = dirty_thresh_set d"
  "max_clean_ios_set (bump_error f d) = max_clean_ios_set d"
  "max_clean_ios_total (bump_error f d) = max_clean_ios_total d"
  "lru_hot_blocks (bump_error f d) = lru_hot_blocks d"
  "lru_warm_blocks (bump_error f d) = lru_warm_blocks d"
  "flashcache_stats (bump_error f d) = flashcache_stats d"
  "latency_hist (bump_error f d) = latency_hist d"
  "latency_hist_10ms (bump_error f d) = latency_hist_10ms d"
  "write_clust_hist (bump_error f d) = write_clust_hist d"
  "write_clust_hist_ovf (bump_error f d) = write_clust_hist_ovf d"
  "blacklist (bump_error f d) = blacklist d"
  "whitelist (bump_error f d) = whitelist d"
  "num_blacklist_pids (bump_error f d) = num_blacklist_pids d"
  "num_whitelist_pids (bump_error f d) = num_whitelist_pids d"
  "pid_expire_check (bump_error f d) = pid_expire_check d"
  "pending_job_hashbuckets (bump_error f d) = pending_job_hashbuckets d"
  "diskclean_bufs (bump_error f d) = diskclean_bufs d"
  "sysctl (bump_error f d) = sysctl d"
  "seq_recent_ios (bump_error f d) = seq_recent_ios d"
  "seq_io_head (bump_error f d) = seq_io_head d"
  "seq_io_tail (bump_error f d) = seq_io_tail d"
  "q_pending_jobs (bump_error f d) = q_pending_jobs d"
  "q_io_jobs (bump_error f d) = q_io_jobs d"
  "q_md_io_jobs (bump_error f d) = q_md_io_jobs d"
  "q_md_complete_jobs (bump_error f d) = q_md_complete_jobs d"
  "q_uncached_io_complete_jobs (bump_error f d) = q_uncached_io_complete_jobs d"
  "nr_cache_jobs (bump_error f d) = nr_cache_jobs d"
  "nr_pending_jobs (bump_error f d) = nr_pending_jobs d"
  "size_hist (bump_error f d) = size_hist d"
  "delayed_clean (bump_error f d) = delayed_clean d"
  "io_inflight (bump_error f d) = io_inflight d"
  "completed (bump_error f d) = completed d"
  "main_queue (bump_error f d) = main_queue d"
  "main_cache_set (bump_error f d) = main_cache_set d"
  "pfd_inflight (bump_error f d) = pfd_inflight d"
  "pfd_waiters (bump_error f d) = pfd_waiters d"
  "disk_devname (bump_error f d) = disk_devname d"
  "dm_vdevname (bump_error f d) = dm_vdevname d"
  "ssd_sb (bump_error f d) = ssd_sb d"
  "ssd_md (bump_error f d) = ssd_md d"
  "kernel (bump_error f d) = kernel d"
  by (simp_all add: bump_error_def)

lemma alloc_next_same [simp]:
  "tgt (alloc_next d) = tgt d"
  "csize (alloc_next d) = csize d"
  "assoc (alloc_next d) = assoc d"
  "block_size (alloc_next d) = block_size d"
  "block_shift (alloc_next d) = block_shift d"
  "md_block_size (alloc_next d) = md_block_size d"
  "md_blocks (alloc_next d) = md_blocks d"
  "disk_assoc (alloc_next d) = disk_assoc d"
  "disk_assoc_shift (alloc_next d) = disk_assoc_shift d"
  "assoc_shift (alloc_next d) = assoc_shift d"
  "num_sets (alloc_next d) = num_sets d"
  "mode (alloc_next d) = mode d"
  "write_only_cache (alloc_next d) = write_only_cache d"
  "on_ssd_version (alloc_next d) = on_ssd_version d"
  "bypass_cache (alloc_next d) = bypass_cache d"
  "cache (alloc_next d) = cache d"
  "cache_sets (alloc_next d) = cache_sets d"
  "md_blocks_buf (alloc_next d) = md_blocks_buf d"
  "nr_jobs (alloc_next d) = nr_jobs d"
  "remove_in_prog (alloc_next d) = remove_in_prog d"
  "clean_inprog (alloc_next d) = clean_inprog d"
  "sync_index (alloc_next d) = sync_index d"
  "nr_dirty (alloc_next d) = nr_dirty d"
  "cached_blocks (alloc_next d) = cached_blocks d"
  "pending_jobs_count (alloc_next d) = pending_jobs_count d"
  "hot_list_pct (alloc_next d) = hot_list_pct d"
  "dirty_thresh_set (alloc_next d) = dirty_thresh_set d"
  "max_clean_ios_set (alloc_next d) = max_clean_ios_set d"
  "max_clean_ios_total (alloc_next d) = max_clean_ios_total d"
  "lru_hot_blocks (alloc_next d) = lru_hot_blocks d"
  "lru_warm_blocks (alloc_next d) = lru_warm_blocks d"
  "flashcache_stats (alloc_next d) = flashcache_stats d"
  "flashcache_errors (alloc_next d) = flashcache_errors d"
  "latency_hist (alloc_next d) = latency_hist d"
  "latency_hist_10ms (alloc_next d) = latency_hist_10ms d"
  "write_clust_hist (alloc_next d) = write_clust_hist d"
  "write_clust_hist_ovf (alloc_next d) = write_clust_hist_ovf d"
  "blacklist (alloc_next d) = blacklist d"
  "whitelist (alloc_next d) = whitelist d"
  "num_blacklist_pids (alloc_next d) = num_blacklist_pids d"
  "num_whitelist_pids (alloc_next d) = num_whitelist_pids d"
  "pid_expire_check (alloc_next d) = pid_expire_check d"
  "pending_job_hashbuckets (alloc_next d) = pending_job_hashbuckets d"
  "diskclean_bufs (alloc_next d) = diskclean_bufs d"
  "sysctl (alloc_next d) = sysctl d"
  "seq_recent_ios (alloc_next d) = seq_recent_ios d"
  "seq_io_head (alloc_next d) = seq_io_head d"
  "seq_io_tail (alloc_next d) = seq_io_tail d"
  "q_pending_jobs (alloc_next d) = q_pending_jobs d"
  "q_io_jobs (alloc_next d) = q_io_jobs d"
  "q_md_io_jobs (alloc_next d) = q_md_io_jobs d"
  "q_md_complete_jobs (alloc_next d) = q_md_complete_jobs d"
  "q_uncached_io_complete_jobs (alloc_next d) = q_uncached_io_complete_jobs d"
  "nr_cache_jobs (alloc_next d) = nr_cache_jobs d"
  "nr_pending_jobs (alloc_next d) = nr_pending_jobs d"
  "size_hist (alloc_next d) = size_hist d"
  "delayed_clean (alloc_next d) = delayed_clean d"
  "io_inflight (alloc_next d) = io_inflight d"
  "completed (alloc_next d) = completed d"
  "main_queue (alloc_next d) = main_queue d"
  "main_cache_set (alloc_next d) = main_cache_set d"
  "pfd_inflight (alloc_next d) = pfd_inflight d"
  "pfd_waiters (alloc_next d) = pfd_waiters d"
  "disk_devname (alloc_next d) = disk_devname d"
  "dm_vdevname (alloc_next d) = dm_vdevname d"
  "ssd_sb (alloc_next d) = ssd_sb d"
  "ssd_md (alloc_next d) = ssd_md d"
  by (simp_all add: alloc_next_def)

lemma sync_next_same [simp]:
  "tgt (sync_next d) = tgt d"
  "csize (sync_next d) = csize d"
  "assoc (sync_next d) = assoc d"
  "block_size (sync_next d) = block_size d"
  "block_shift (sync_next d) = block_shift d"
  "md_block_size (sync_next d) = md_block_size d"
  "md_blocks (sync_next d) = md_blocks d"
  "disk_assoc (sync_next d) = disk_assoc d"
  "disk_assoc_shift (sync_next d) = disk_assoc_shift d"
  "assoc_shift (sync_next d) = assoc_shift d"
  "num_sets (sync_next d) = num_sets d"
  "mode (sync_next d) = mode d"
  "write_only_cache (sync_next d) = write_only_cache d"
  "on_ssd_version (sync_next d) = on_ssd_version d"
  "bypass_cache (sync_next d) = bypass_cache d"
  "cache (sync_next d) = cache d"
  "cache_sets (sync_next d) = cache_sets d"
  "md_blocks_buf (sync_next d) = md_blocks_buf d"
  "nr_jobs (sync_next d) = nr_jobs d"
  "remove_in_prog (sync_next d) = remove_in_prog d"
  "clean_inprog (sync_next d) = clean_inprog d"
  "sync_index (sync_next d) = sync_index d"
  "nr_dirty (sync_next d) = nr_dirty d"
  "cached_blocks (sync_next d) = cached_blocks d"
  "pending_jobs_count (sync_next d) = pending_jobs_count d"
  "hot_list_pct (sync_next d) = hot_list_pct d"
  "dirty_thresh_set (sync_next d) = dirty_thresh_set d"
  "max_clean_ios_set (sync_next d) = max_clean_ios_set d"
  "max_clean_ios_total (sync_next d) = max_clean_ios_total d"
  "lru_hot_blocks (sync_next d) = lru_hot_blocks d"
  "lru_warm_blocks (sync_next d) = lru_warm_blocks d"
  "flashcache_stats (sync_next d) = flashcache_stats d"
  "flashcache_errors (sync_next d) = flashcache_errors d"
  "latency_hist (sync_next d) = latency_hist d"
  "latency_hist_10ms (sync_next d) = latency_hist_10ms d"
  "write_clust_hist (sync_next d) = write_clust_hist d"
  "write_clust_hist_ovf (sync_next d) = write_clust_hist_ovf d"
  "blacklist (sync_next d) = blacklist d"
  "whitelist (sync_next d) = whitelist d"
  "num_blacklist_pids (sync_next d) = num_blacklist_pids d"
  "num_whitelist_pids (sync_next d) = num_whitelist_pids d"
  "pid_expire_check (sync_next d) = pid_expire_check d"
  "pending_job_hashbuckets (sync_next d) = pending_job_hashbuckets d"
  "diskclean_bufs (sync_next d) = diskclean_bufs d"
  "sysctl (sync_next d) = sysctl d"
  "seq_recent_ios (sync_next d) = seq_recent_ios d"
  "seq_io_head (sync_next d) = seq_io_head d"
  "seq_io_tail (sync_next d) = seq_io_tail d"
  "q_pending_jobs (sync_next d) = q_pending_jobs d"
  "q_io_jobs (sync_next d) = q_io_jobs d"
  "q_md_io_jobs (sync_next d) = q_md_io_jobs d"
  "q_md_complete_jobs (sync_next d) = q_md_complete_jobs d"
  "q_uncached_io_complete_jobs (sync_next d) = q_uncached_io_complete_jobs d"
  "nr_cache_jobs (sync_next d) = nr_cache_jobs d"
  "nr_pending_jobs (sync_next d) = nr_pending_jobs d"
  "size_hist (sync_next d) = size_hist d"
  "delayed_clean (sync_next d) = delayed_clean d"
  "io_inflight (sync_next d) = io_inflight d"
  "completed (sync_next d) = completed d"
  "main_queue (sync_next d) = main_queue d"
  "main_cache_set (sync_next d) = main_cache_set d"
  "pfd_inflight (sync_next d) = pfd_inflight d"
  "pfd_waiters (sync_next d) = pfd_waiters d"
  "disk_devname (sync_next d) = disk_devname d"
  "dm_vdevname (sync_next d) = dm_vdevname d"
  "ssd_sb (sync_next d) = ssd_sb d"
  "ssd_md (sync_next d) = ssd_md d"
  by (simp_all add: sync_next_def)

end
