(* ===== verification/Hash.thy ===== *)
theory Hash
  imports Cache
begin

text \<open>
  The per set invalid list and the per set hash of \<open>flashcache_subr.c\<close>, and the placement of
  disk blocks into sets (\<open>hash_block\<close> of \<open>flashcache_main.c\<close>). Both structures are threaded
  through the \<open>hash_prev\<close> and \<open>hash_next\<close> fields of the blocks of a set. The invariant
  \<open>hash_inv\<close> relates them to abstract lists, and the operations are shown to implement
  insertion, removal and search on these lists without failing a \<open>VERIFY\<close>.
\<close>

section \<open>Operations\<close>

definition flashcache_invalid_insert :: "nat \<Rightarrow> cache_c \<Rightarrow> cache_c option" where
  "flashcache_invalid_insert index d = do {
     let cset = index div assoc d;
     let start_index = cset * assoc d;
     let set_ix = index mod assoc d;
     verify (index < csize d);
     verify (state_of d index = INVALID);
     verify (hash_prev (cache d index) = FLASHCACHE_NULL);
     verify (hash_next (cache d index) = FLASHCACHE_NULL);
     let d = upd_blk index (\<lambda>b. b\<lparr>hash_next := invalid_head (cache_sets d cset)\<rparr>) d;
     let d = (if invalid_head (cache_sets d cset) \<noteq> FLASHCACHE_NULL
              then upd_blk (start_index + invalid_head (cache_sets d cset))
                     (\<lambda>b. b\<lparr>hash_prev := to_u16 set_ix\<rparr>) d
              else d);
     Some (upd_set cset (\<lambda>s. s\<lparr>invalid_head := to_u16 set_ix\<rparr>) d)
   }"

definition flashcache_invalid_remove :: "nat \<Rightarrow> cache_c \<Rightarrow> cache_c option" where
  "flashcache_invalid_remove index d = do {
     verify (index < csize d);
     verify (state_of d index = INVALID);
     let cset = index div assoc d;
     let start_index = cset * assoc d;
     let d = (if hash_prev (cache d index) \<noteq> FLASHCACHE_NULL
              then upd_blk (start_index + hash_prev (cache d index))
                     (\<lambda>b. b\<lparr>hash_next := hash_next (cache d index)\<rparr>) d
              else upd_set cset (\<lambda>s. s\<lparr>invalid_head := hash_next (cache d index)\<rparr>) d);
     let d = (if hash_next (cache d index) \<noteq> FLASHCACHE_NULL
              then upd_blk (start_index + hash_next (cache d index))
                     (\<lambda>b. b\<lparr>hash_prev := hash_prev (cache d index)\<rparr>) d
              else d);
     Some (upd_blk index
             (\<lambda>b. b\<lparr>hash_prev := FLASHCACHE_NULL, hash_next := FLASHCACHE_NULL\<rparr>) d)
   }"

text \<open>The result \<open>None\<close> of \<open>flashcache_invalid_get\<close> is the return value \<open>-1\<close>.\<close>

definition flashcache_invalid_get :: "nat \<Rightarrow> cache_c \<Rightarrow> (nat option \<times> cache_c) option" where
  "flashcache_invalid_get cset d = do {
     let index = invalid_head (cache_sets d cset);
     if index = FLASHCACHE_NULL then Some (None, d)
     else do {
       let index = index + cset * assoc d;
       verify (state_of d index = INVALID);
       d \<leftarrow> flashcache_invalid_remove index d;
       Some (Some index, d)
     }
   }"

definition flashcache_hash_init :: "cache_c \<Rightarrow> cache_c" where
  "flashcache_hash_init d = fold
     (\<lambda>i. upd_set i (\<lambda>s. s\<lparr>invalid_head := FLASHCACHE_NULL,
        hash_buckets := (\<lambda>j. if j < NUM_BLOCK_HASH_BUCKETS then FLASHCACHE_NULL
                              else hash_buckets s j)\<rparr>))
     [0..<csize d div 2 ^ assoc_shift d] d"

text \<open>The bucket a disk block hashes to; the argument of the kernel's hash is 32 bits wide.\<close>

definition flashcache_get_hash_bucket :: "cache_c \<Rightarrow> sector \<Rightarrow> nat" where
  "flashcache_get_hash_bucket d s =
     unat (jhash_1word (kernel d) (ucast s) 0xfeed) mod NUM_BLOCK_HASH_BUCKETS"

definition upd_bucket :: "nat \<Rightarrow> nat \<Rightarrow> nat \<Rightarrow> cache_c \<Rightarrow> cache_c" where
  "upd_bucket cset b v = upd_set cset (\<lambda>s. s\<lparr>hash_buckets := (hash_buckets s)(b := v)\<rparr>)"

definition flashcache_hash_remove :: "nat option \<Rightarrow> cache_c \<Rightarrow> cache_c option" where
  "flashcache_hash_remove ix d = (case ix of None \<Rightarrow> Some d | Some index \<Rightarrow> do {
     let cset = index div assoc d;
     verify (state_of d index AND VALID \<noteq> 0);
     let start_index = cset * assoc d;
     let bucket = flashcache_get_hash_bucket d (dbn (cache d index));
     let d = (if hash_prev (cache d index) \<noteq> FLASHCACHE_NULL
              then upd_blk (start_index + hash_prev (cache d index))
                     (\<lambda>b. b\<lparr>hash_next := hash_next (cache d index)\<rparr>) d
              else upd_bucket cset bucket (hash_next (cache d index)) d);
     let d = (if hash_next (cache d index) \<noteq> FLASHCACHE_NULL
              then upd_blk (start_index + hash_next (cache d index))
                     (\<lambda>b. b\<lparr>hash_prev := hash_prev (cache d index)\<rparr>) d
              else d);
     Some (upd_blk index
             (\<lambda>b. b\<lparr>hash_prev := FLASHCACHE_NULL, hash_next := FLASHCACHE_NULL\<rparr>) d)
   })"

text \<open>
  The loop of \<open>flashcache_hash_lookup\<close>. It only returns when the chain is finite, so it is a
  partial function; \<open>Some None\<close> is the return value \<open>-1\<close>.
\<close>

partial_function (option) hash_lookup_loop ::
  "cache_c \<Rightarrow> nat \<Rightarrow> sector \<Rightarrow> nat \<Rightarrow> nat option option" where
  "hash_lookup_loop d cset blk set_ix =
     (if set_ix = FLASHCACHE_NULL then Some None
      else if state_of d (cset * assoc d + set_ix) AND VALID = 0 then None
      else if state_of d (cset * assoc d + set_ix) AND INVALID \<noteq> 0 then None
      else if blk = dbn (cache d (cset * assoc d + set_ix)) then Some (Some (cset * assoc d + set_ix))
      else hash_lookup_loop d cset blk (hash_next (cache d (cset * assoc d + set_ix))))"

declare hash_lookup_loop.simps [code]

definition flashcache_hash_lookup :: "cache_c \<Rightarrow> nat \<Rightarrow> sector \<Rightarrow> nat option option" where
  "flashcache_hash_lookup d cset blk =
     hash_lookup_loop d cset blk (hash_buckets (cache_sets d cset) (flashcache_get_hash_bucket d blk))"

definition flashcache_hash_insert :: "nat \<Rightarrow> cache_c \<Rightarrow> cache_c option" where
  "flashcache_hash_insert index d = do {
     let cset = index div assoc d;
     let set_ix = to_u16 (index mod assoc d);
     let start_index = cset * assoc d;
     verify (state_of d index AND VALID \<noteq> 0);
     let bucket = flashcache_get_hash_bucket d (dbn (cache d index));
     verify (hash_prev (cache d index) = FLASHCACHE_NULL);
     verify (hash_next (cache d index) = FLASHCACHE_NULL);
     let d = upd_blk index
       (\<lambda>b. b\<lparr>hash_prev := FLASHCACHE_NULL, hash_next := hash_buckets (cache_sets d cset) bucket\<rparr>) d;
     let d = (if hash_buckets (cache_sets d cset) bucket \<noteq> FLASHCACHE_NULL
              then upd_blk (start_index + hash_buckets (cache_sets d cset) bucket)
                     (\<lambda>b. b\<lparr>hash_prev := set_ix\<rparr>) d
              else d);
     Some (upd_bucket cset bucket set_ix d)
   }"

text \<open>
  Mapping a block of the source device to a set (\<open>hash_block\<close>). Before on-flash version 3, or
  with no disk associativity, consecutive runs of \<open>assoc\<close> blocks share a set; otherwise runs of
  \<open>disk_assoc\<close> sectors do, each placed by the kernel's hash.
\<close>

definition hash_block :: "cache_c \<Rightarrow> sector \<Rightarrow> nat" where
  "hash_block d s =
     (let num_cache_sets = csize d div 2 ^ assoc_shift d;
          value = (if on_ssd_version d < 3 \<or> disk_assoc d = 0
                   then drop_bit (block_shift d + assoc_shift d) s
                   else ucast (jhash_1word (kernel d) (ucast (drop_bit (disk_assoc_shift d) s)) 0xbeef))
      in unat value mod num_cache_sets)"

section \<open>The invariant\<close>

text \<open>
  \<open>ch s b\<close> is the chain of bucket \<open>b\<close> of set \<open>s\<close> and \<open>iv s\<close> the invalid list of set \<open>s\<close>, as
  lists of set-relative offsets. A block on neither has null links. The links of different lists
  cannot interfere, because membership is determined by the state and the \<open>dbn\<close> of a block.
\<close>

abbreviation blk :: "cache_c \<Rightarrow> nat \<Rightarrow> nat \<Rightarrow> cacheblock" where
  "blk d s x \<equiv> cache d (s * assoc d + x)"

abbreviation hnx :: "cache_c \<Rightarrow> nat \<Rightarrow> nat \<Rightarrow> nat" where
  "hnx d s \<equiv> \<lambda>x. hash_next (blk d s x)"

abbreviation hpv :: "cache_c \<Rightarrow> nat \<Rightarrow> nat \<Rightarrow> nat" where
  "hpv d s \<equiv> \<lambda>x. hash_prev (blk d s x)"

abbreviation bucket_of :: "cache_c \<Rightarrow> nat \<Rightarrow> nat \<Rightarrow> nat" where
  "bucket_of d s x \<equiv> flashcache_get_hash_bucket d (dbn (blk d s x))"

definition linked :: "cache_c \<Rightarrow> nat \<Rightarrow> nat \<Rightarrow> nat list \<Rightarrow> bool" where
  "linked d s h xs \<longleftrightarrow> dll FLASHCACHE_NULL (hnx d s) (hpv d s) h (last_or FLASHCACHE_NULL xs) xs"

definition hashed :: "cacheblock \<Rightarrow> bool" where
  "hashed b \<longleftrightarrow> cache_state b AND VALID \<noteq> 0 \<and> cache_state b AND INVALID = 0"

definition set_hash_inv :: "cache_c \<Rightarrow> nat \<Rightarrow> (nat \<Rightarrow> nat list) \<Rightarrow> nat list \<Rightarrow> bool" where
  "set_hash_inv d s ch iv \<longleftrightarrow>
     (\<forall>b < NUM_BLOCK_HASH_BUCKETS. linked d s (hash_buckets (cache_sets d s) b) (ch b)) \<and>
     linked d s (invalid_head (cache_sets d s)) iv \<and>
     (\<forall>b < NUM_BLOCK_HASH_BUCKETS. \<forall>x \<in> set (ch b).
        x < assoc d \<and> hashed (blk d s x) \<and> bucket_of d s x = b) \<and>
     (\<forall>x \<in> set iv. x < assoc d \<and> cache_state (blk d s x) = INVALID) \<and>
     (\<forall>x < assoc d. x \<notin> set (ch (bucket_of d s x)) \<longrightarrow> x \<notin> set iv \<longrightarrow>
        hnx d s x = FLASHCACHE_NULL \<and> hpv d s x = FLASHCACHE_NULL)"

definition hash_inv :: "cache_c \<Rightarrow> (nat \<Rightarrow> nat \<Rightarrow> nat list) \<Rightarrow> (nat \<Rightarrow> nat list) \<Rightarrow> bool" where
  "hash_inv d ch iv \<longleftrightarrow> (\<forall>s < num_sets d. set_hash_inv d s (ch s) (iv s))"

section \<open>Frame rules\<close>

lemma fields_upd: "(\<lambda>x. F ((c(s * a + y := v)) (s * a + x))) = (\<lambda>x. F (c (s * a + x)))(y := F v)"
  for s a y :: nat
  by (auto simp: fun_eq_iff)

lemma linked_D:
  assumes "linked d s h xs"
  shows "distinct xs" and "FLASHCACHE_NULL \<notin> set xs" and "h = hd_or FLASHCACHE_NULL xs"
  using assms unfolding linked_def by (auto dest: dll_distinct dll_null dll_head)

lemma linked_frame:
  assumes "assoc d' = assoc d"
    and "\<And>x. x \<in> set xs \<Longrightarrow> hnx d' s x = hnx d s x \<and> hpv d' s x = hpv d s x"
  shows "linked d' s h xs = linked d s h xs"
  unfolding linked_def using assms by (intro dll_frame) auto

lemma linked_intro: "dll FLASHCACHE_NULL (hnx d s) (hpv d s) h t xs \<Longrightarrow> linked d s h xs"
  unfolding linked_def by (metis dll_tail)

lemma bucket_less [simp]: "flashcache_get_hash_bucket d s < NUM_BLOCK_HASH_BUCKETS"
  by (simp add: flashcache_get_hash_bucket_def NUM_BLOCK_HASH_BUCKETS_def)

lemma hashed_not_INVALID: "hashed b \<Longrightarrow> cache_state b \<noteq> INVALID"
  unfolding hashed_def by (auto simp: flag_defs)

lemma set_hash_invI:
  assumes "\<And>b. b < NUM_BLOCK_HASH_BUCKETS \<Longrightarrow> linked d s (hash_buckets (cache_sets d s) b) (ch b)"
    and "linked d s (invalid_head (cache_sets d s)) iv"
    and "\<And>b x. b < NUM_BLOCK_HASH_BUCKETS \<Longrightarrow> x \<in> set (ch b) \<Longrightarrow>
        x < assoc d \<and> hashed (blk d s x) \<and> bucket_of d s x = b"
    and "\<And>x. x \<in> set iv \<Longrightarrow> x < assoc d \<and> cache_state (blk d s x) = INVALID"
    and "\<And>x. x < assoc d \<Longrightarrow> x \<notin> set (ch (bucket_of d s x)) \<Longrightarrow> x \<notin> set iv \<Longrightarrow>
        hnx d s x = FLASHCACHE_NULL \<and> hpv d s x = FLASHCACHE_NULL"
  shows "set_hash_inv d s ch iv"
  unfolding set_hash_inv_def using assms by blast

lemma set_hash_invD:
  assumes "set_hash_inv d s ch iv"
  shows "b < NUM_BLOCK_HASH_BUCKETS \<Longrightarrow> linked d s (hash_buckets (cache_sets d s) b) (ch b)"
    and "linked d s (invalid_head (cache_sets d s)) iv"
    and "b < NUM_BLOCK_HASH_BUCKETS \<Longrightarrow> x \<in> set (ch b) \<Longrightarrow>
        x < assoc d \<and> hashed (blk d s x) \<and> bucket_of d s x = b"
    and "x \<in> set iv \<Longrightarrow> x < assoc d \<and> cache_state (blk d s x) = INVALID"
    and "x < assoc d \<Longrightarrow> x \<notin> set (ch (bucket_of d s x)) \<Longrightarrow> x \<notin> set iv \<Longrightarrow>
        hnx d s x = FLASHCACHE_NULL \<and> hpv d s x = FLASHCACHE_NULL"
  using assms unfolding set_hash_inv_def by blast+

lemma chain_not_invalid:
  assumes "set_hash_inv d s ch iv" and "b < NUM_BLOCK_HASH_BUCKETS" and "x \<in> set (ch b)"
  shows "x \<notin> set iv"
  using set_hash_invD(3) [OF assms] set_hash_invD(4) [OF assms(1), of x] hashed_not_INVALID
  by blast

lemma set_hash_inv_frame:
  assumes "assoc d' = assoc d" and "kernel d' = kernel d"
    and "hash_buckets (cache_sets d' s) = hash_buckets (cache_sets d s)"
    and "invalid_head (cache_sets d' s) = invalid_head (cache_sets d s)"
    and "\<And>x. x < assoc d \<Longrightarrow>
      hash_next (blk d' s x) = hash_next (blk d s x) \<and> hash_prev (blk d' s x) = hash_prev (blk d s x) \<and>
      dbn (blk d' s x) = dbn (blk d s x)"
    and "\<And>x. x < assoc d \<Longrightarrow> hashed (blk d s x) \<Longrightarrow> hashed (blk d' s x)"
    and "\<And>x. x < assoc d \<Longrightarrow> cache_state (blk d s x) = INVALID \<Longrightarrow> cache_state (blk d' s x) = INVALID"
    and inv: "set_hash_inv d s ch iv"
  shows "set_hash_inv d' s ch iv"
proof -
  have b: "bucket_of d' s x = bucket_of d s x" if "x < assoc d" for x
    using that assms by (simp add: flashcache_get_hash_bucket_def)
  have l: "linked d' s h xs = linked d s h xs" if "\<And>x. x \<in> set xs \<Longrightarrow> x < assoc d" for h xs
    using that assms by (intro linked_frame) auto
  show ?thesis
    using assms(1-7) b l set_hash_invD [OF inv] by (intro set_hash_invI) auto
qed

text \<open>A change of the links of one list of a set, all else equal, keeps the other lists.\<close>

lemma relink_invalid:
  assumes inv: "set_hash_inv d s ch iv"
    and same: "assoc d' = assoc d" "kernel d' = kernel d"
      "hash_buckets (cache_sets d' s) = hash_buckets (cache_sets d s)"
      "\<And>x. x < assoc d \<Longrightarrow> dbn (blk d' s x) = dbn (blk d s x) \<and>
         cache_state (blk d' s x) = cache_state (blk d s x)"
    and new: "linked d' s (invalid_head (cache_sets d' s)) iv'"
      "\<And>x. x \<in> set iv' \<Longrightarrow> x < assoc d \<and> cache_state (blk d s x) = INVALID"
    and others: "\<And>x. x < assoc d \<Longrightarrow> x \<notin> set iv \<Longrightarrow> x \<notin> set iv' \<Longrightarrow>
         hnx d' s x = hnx d s x \<and> hpv d' s x = hpv d s x"
    and gone: "\<And>x. x \<in> set iv \<Longrightarrow> x \<notin> set iv' \<Longrightarrow>
         hnx d' s x = FLASHCACHE_NULL \<and> hpv d' s x = FLASHCACHE_NULL"
  shows "set_hash_inv d' s ch iv'"
proof -
  have b: "bucket_of d' s x = bucket_of d s x" if "x < assoc d" for x
    using that same by (simp add: flashcache_get_hash_bucket_def)
  have no: "x < assoc d \<and> x \<notin> set iv \<and> x \<notin> set iv'"
    if "b < NUM_BLOCK_HASH_BUCKETS" "x \<in> set (ch b)" for x b
    using chain_not_invalid [OF inv that] set_hash_invD(3) [OF inv that] new(2) hashed_not_INVALID
    by blast
  have c: "linked d' s (hash_buckets (cache_sets d' s) b) (ch b)"
    if b: "b < NUM_BLOCK_HASH_BUCKETS" for b
    using set_hash_invD(1) [OF inv b] others no [OF b] same by (subst linked_frame) auto
  show ?thesis
  proof (rule set_hash_invI)
    fix b x assume "b < NUM_BLOCK_HASH_BUCKETS" "x \<in> set (ch b)"
    then show "x < assoc d' \<and> hashed (blk d' s x) \<and> bucket_of d' s x = b"
      using set_hash_invD(3) [OF inv] same b unfolding hashed_def by auto
  next
    fix x assume "x < assoc d'" "x \<notin> set (ch (bucket_of d' s x))" "x \<notin> set iv'"
    then show "hnx d' s x = FLASHCACHE_NULL \<and> hpv d' s x = FLASHCACHE_NULL"
      using set_hash_invD(5) [OF inv, of x] others gone same b by (cases "x \<in> set iv") simp_all
  qed (use c new same in auto)
qed

lemma relink_chain:
  assumes inv: "set_hash_inv d s ch iv" and c: "c < NUM_BLOCK_HASH_BUCKETS"
    and same: "assoc d' = assoc d" "kernel d' = kernel d"
      "invalid_head (cache_sets d' s) = invalid_head (cache_sets d s)"
      "\<And>b. b \<noteq> c \<Longrightarrow> hash_buckets (cache_sets d' s) b = hash_buckets (cache_sets d s) b"
      "\<And>x. x < assoc d \<Longrightarrow> dbn (blk d' s x) = dbn (blk d s x) \<and>
         cache_state (blk d' s x) = cache_state (blk d s x)"
    and new: "linked d' s (hash_buckets (cache_sets d' s) c) cs"
      "\<And>x. x \<in> set cs \<Longrightarrow> x < assoc d \<and> hashed (blk d s x) \<and> bucket_of d s x = c"
    and others: "\<And>x. x < assoc d \<Longrightarrow> x \<notin> set (ch c) \<Longrightarrow> x \<notin> set cs \<Longrightarrow>
         hnx d' s x = hnx d s x \<and> hpv d' s x = hpv d s x"
    and gone: "\<And>x. x \<in> set (ch c) \<Longrightarrow> x \<notin> set cs \<Longrightarrow>
         hnx d' s x = FLASHCACHE_NULL \<and> hpv d' s x = FLASHCACHE_NULL"
  shows "set_hash_inv d' s (ch(c := cs)) iv"
proof -
  have b: "bucket_of d' s x = bucket_of d s x" if "x < assoc d" for x
    using that same by (simp add: flashcache_get_hash_bucket_def)
  have in_c: "hashed (blk d s x) \<and> bucket_of d s x = c" if "x \<in> set (ch c) \<or> x \<in> set cs" for x
    using that set_hash_invD(3) [OF inv c] new(2) by blast
  have chains: "linked d' s (hash_buckets (cache_sets d' s) b) ((ch(c := cs)) b)"
    if bb: "b < NUM_BLOCK_HASH_BUCKETS" for b
  proof (cases "b = c")
    case True
    with new show ?thesis by simp
  next
    case False
    then have "x < assoc d \<and> x \<notin> set (ch c) \<and> x \<notin> set cs" if "x \<in> set (ch b)" for x
      using set_hash_invD(3) [OF inv bb that] in_c by metis
    with set_hash_invD(1) [OF inv bb] others same False show ?thesis
      by (subst linked_frame [of d' d]) auto
  qed
  have "x < assoc d \<and> x \<notin> set (ch c) \<and> x \<notin> set cs" if "x \<in> set iv" for x
    using set_hash_invD(4) [OF inv that] in_c hashed_not_INVALID by blast
  then have "linked d' s (invalid_head (cache_sets d' s)) iv"
    using set_hash_invD(2) [OF inv] others same by (subst linked_frame [of d' d]) auto
  then show ?thesis
  proof (rule set_hash_invI [rotated])
    fix b x assume "b < NUM_BLOCK_HASH_BUCKETS" "x \<in> set ((ch(c := cs)) b)"
    then show "x < assoc d' \<and> hashed (blk d' s x) \<and> bucket_of d' s x = b"
      using set_hash_invD(3) [OF inv] new(2) same b unfolding hashed_def
      by (cases "b = c") auto
  next
    fix x assume x: "x < assoc d'" "x \<notin> set ((ch(c := cs)) (bucket_of d' s x))" "x \<notin> set iv"
    show "hnx d' s x = FLASHCACHE_NULL \<and> hpv d' s x = FLASHCACHE_NULL"
    proof (cases "x \<in> set (ch c)")
      case True
      with x b same in_c show ?thesis by (intro gone) auto
    next
      case False
      with x b same in_c set_hash_invD(5) [OF inv, of x] others [of x] show ?thesis
        by (cases "bucket_of d s x = c") auto
    qed
  qed (use chains same set_hash_invD(4) [OF inv] in auto)
qed

section \<open>What the operations change\<close>

text \<open>
  Every operation of this theory changes only the hash links of the blocks of one set, and the
  bucket heads and the invalid head of that set.
\<close>

definition blk_links_only :: "cacheblock \<Rightarrow> cacheblock \<Rightarrow> bool" where
  "blk_links_only b b' \<longleftrightarrow> b'\<lparr>hash_prev := hash_prev b, hash_next := hash_next b\<rparr> = b"

definition set_heads_only :: "cache_set \<Rightarrow> cache_set \<Rightarrow> bool" where
  "set_heads_only b b' \<longleftrightarrow>
     b'\<lparr>hash_buckets := hash_buckets b, invalid_head := invalid_head b\<rparr> = b"

definition hash_frame :: "nat \<Rightarrow> cache_c \<Rightarrow> cache_c \<Rightarrow> bool" where
  "hash_frame s d d' \<longleftrightarrow> same_but_arrays d d' \<and>
     (\<forall>i. blk_links_only (cache d i) (cache d' i)) \<and>
     (\<forall>i. i div assoc d \<noteq> s \<longrightarrow> cache d' i = cache d i) \<and>
     (\<forall>t. set_heads_only (cache_sets d t) (cache_sets d' t)) \<and>
     (\<forall>t. t \<noteq> s \<longrightarrow> cache_sets d' t = cache_sets d t)"

lemma blk_links_only_refl [simp]: "blk_links_only b b"
  by (simp add: blk_links_only_def)

lemma set_heads_only_refl [simp]: "set_heads_only b b"
  by (simp add: set_heads_only_def)

lemma blk_links_only_trans: "blk_links_only a b \<Longrightarrow> blk_links_only b c \<Longrightarrow> blk_links_only a c"
  by (cases a, cases b, cases c) (simp add: blk_links_only_def)

lemma set_heads_only_trans: "set_heads_only a b \<Longrightarrow> set_heads_only b c \<Longrightarrow> set_heads_only a c"
  by (cases a, cases b, cases c) (simp add: set_heads_only_def)

lemma blk_links_only_D:
  assumes "blk_links_only b b'"
  shows "cache_state b' = cache_state b" "dbn b' = dbn b" "nr_queued b' = nr_queued b"
    "lru_prev b' = lru_prev b" "lru_next b' = lru_next b" "use_cnt b' = use_cnt b"
    "lru_state b' = lru_state b"
  by (subst assms [unfolded blk_links_only_def, symmetric], simp)+

lemma hash_frame_refl [simp]: "hash_frame s d d"
  by (simp add: hash_frame_def)

lemma hash_frame_same:
  assumes "hash_frame s d d'"
  shows "assoc d' = assoc d" "csize d' = csize d" "num_sets d' = num_sets d" "kernel d' = kernel d"
    "assoc_shift d' = assoc_shift d" "block_shift d' = block_shift d" "block_size d' = block_size d"
    "on_ssd_version d' = on_ssd_version d" "disk_assoc d' = disk_assoc d"
    "disk_assoc_shift d' = disk_assoc_shift d" "same_but_arrays d d'"
  using assms unfolding hash_frame_def by (auto dest: same_but_arrays_D)

lemma hash_frame_trans:
  assumes "hash_frame s d d'" and "hash_frame s d' d''"
  shows "hash_frame s d d''"
  using assms hash_frame_same(1) [OF assms(1)] unfolding hash_frame_def
  by (metis same_but_arrays_trans blk_links_only_trans set_heads_only_trans)

lemma hash_frame_upd_blk:
  assumes "blk_links_only (cache d (s * assoc d + x)) (f (cache d (s * assoc d + x)))" and "x < assoc d"
  shows "hash_frame s d (upd_blk (s * assoc d + x) f d)"
  using assms unfolding hash_frame_def by auto

lemma hash_frame_upd_set:
  assumes "set_heads_only (cache_sets d s) (f (cache_sets d s))"
  shows "hash_frame s d (upd_set s f d)"
  using assms unfolding hash_frame_def by auto

lemma hash_frame_links:
  "x < assoc d \<Longrightarrow> hash_frame s d (upd_blk (s * assoc d + x) (\<lambda>b. b\<lparr>hash_next := v\<rparr>) d)"
  "x < assoc d \<Longrightarrow> hash_frame s d (upd_blk (s * assoc d + x) (\<lambda>b. b\<lparr>hash_prev := v\<rparr>) d)"
  "x < assoc d \<Longrightarrow>
    hash_frame s d (upd_blk (s * assoc d + x) (\<lambda>b. b\<lparr>hash_prev := v, hash_next := w\<rparr>) d)"
  by (simp_all add: hash_frame_upd_blk blk_links_only_def)

lemma hash_frame_heads:
  "hash_frame s d (upd_set s (\<lambda>c. c\<lparr>invalid_head := v\<rparr>) d)"
  "hash_frame s d (upd_bucket s b v d)"
  by (simp_all add: hash_frame_upd_set set_heads_only_def upd_bucket_def)

lemma upd_bucket_sel [simp]:
  "cache (upd_bucket s b v d) = cache d"
  "assoc (upd_bucket s b v d) = assoc d"
  by (simp_all add: upd_bucket_def)

lemma hash_frame_blk:
  assumes "hash_frame s d d'"
  shows "cache_state (cache d' i) = cache_state (cache d i)" "dbn (cache d' i) = dbn (cache d i)"
    "nr_queued (cache d' i) = nr_queued (cache d i)" "lru_prev (cache d' i) = lru_prev (cache d i)"
    "lru_next (cache d' i) = lru_next (cache d i)" "use_cnt (cache d' i) = use_cnt (cache d i)"
    "lru_state (cache d' i) = lru_state (cache d i)"
  using assms unfolding hash_frame_def by (simp_all add: blk_links_only_D)

lemma hash_frame_other:
  assumes "hash_frame s d d'" and "t \<noteq> s" and "set_hash_inv d t ch iv"
  shows "set_hash_inv d' t ch iv"
proof -
  have "cache d' (t * assoc d + x) = cache d (t * assoc d + x)" if "x < assoc d" for x
    using that assms unfolding hash_frame_def by simp
  moreover have "cache_sets d' t = cache_sets d t"
    using assms unfolding hash_frame_def by simp
  ultimately show ?thesis
    using hash_frame_same [OF assms(1)] by (intro set_hash_inv_frame [OF _ _ _ _ _ _ _ assms(3)]) simp_all
qed

lemma hash_inv_lift:
  assumes "hash_inv d ch iv" and "hash_frame s d d'" and "set_hash_inv d' s ch' iv'"
  shows "hash_inv d' (ch(s := ch')) (iv(s := iv'))"
proof -
  have "set_hash_inv d' t ((ch(s := ch')) t) ((iv(s := iv')) t)" if "t < num_sets d" for t
    using assms that hash_frame_other [OF assms(2), of t "ch t" "iv t"]
    unfolding hash_inv_def by (cases "t = s") auto
  then show ?thesis
    unfolding hash_inv_def by (simp add: hash_frame_same(3) [OF assms(2)])
qed

lemma hash_block_frame: "hash_frame s d d' \<Longrightarrow> hash_block d' k = hash_block d k"
  by (simp add: hash_block_def hash_frame_same)

lemma get_hash_bucket_frame: "hash_frame s d d' \<Longrightarrow>
    flashcache_get_hash_bucket d' k = flashcache_get_hash_bucket d k"
  by (simp add: flashcache_get_hash_bucket_def hash_frame_same)

section \<open>Correctness of the operations\<close>

lemma assoc_u16: "geometry d \<Longrightarrow> x < assoc d \<Longrightarrow> x < 65536 \<and> x \<noteq> FLASHCACHE_NULL \<and> to_u16 x = x"
  by (simp add: geometry_def FLASHCACHE_MAX_ASSOC_def FLASHCACHE_NULL_def)

lemma geometry_index: "geometry d \<Longrightarrow> s < num_sets d \<Longrightarrow> x < assoc d \<Longrightarrow> s * assoc d + x < csize d"
  by (simp add: geometry_def index_less)

lemma head_in_list:
  assumes "linked d s h xs" and "h \<noteq> FLASHCACHE_NULL"
  shows "h \<in> set xs"
  using assms unfolding linked_def by (rule dll_head_in)

lemma off_chain:
  assumes "set_hash_inv d s ch iv" and "\<not> hashed (blk d s x)"
  shows "x \<notin> set (ch (bucket_of d s x))"
  using assms set_hash_invD(3) [OF assms(1) bucket_less] by blast

lemma set_links_free:
  assumes "set_hash_inv d s ch iv" and "x < assoc d" and "\<not> hashed (blk d s x)" and "x \<notin> set iv"
  shows "hnx d s x = FLASHCACHE_NULL" "hpv d s x = FLASHCACHE_NULL"
  using set_hash_invD(5) [OF assms(1,2) off_chain [OF assms(1,3)] assms(4)] by simp_all

lemma INVALID_not_hashed: "cache_state b = INVALID \<Longrightarrow> \<not> hashed b"
  using hashed_not_INVALID by blast

lemma link_head_linked:
  assumes l: "linked d s h xs" and x: "x \<notin> set xs" "x \<noteq> FLASHCACHE_NULL"
    and n: "hnx d' s = (hnx d s)(x := h)"
    and p: "hpv d' s = (if h = FLASHCACHE_NULL then hpv d s else (hpv d s)(h := x))"
    and free: "hpv d s x = FLASHCACHE_NULL"
  shows "linked d' s x (x # xs)"
proof -
  have "(hpv d s)(x := FLASHCACHE_NULL) = hpv d s" using free by auto
  then have p': "hpv d' s = (if h = FLASHCACHE_NULL then (hpv d s)(x := FLASHCACHE_NULL)
      else (hpv d s)(x := FLASHCACHE_NULL, h := x))"
    by (simp only: p) 
  show ?thesis
    by (rule linked_intro)
      (use dll_link_head [OF l [unfolded linked_def] x] in \<open>simp only: n p'\<close>)
qed

lemma invalid_insert_set:
  assumes g: "geometry d" and s: "s < num_sets d" and x: "x < assoc d"
    and inv: "set_hash_inv d s ch iv" and st: "cache_state (blk d s x) = INVALID" and new: "x \<notin> set iv"
  shows "\<exists>d'. flashcache_invalid_insert (s * assoc d + x) d = Some d' \<and> hash_frame s d d' \<and>
             set_hash_inv d' s ch (x # iv)"
proof -
  let ?i = "s * assoc d + x" and ?h = "invalid_head (cache_sets d s)"
  note free = set_links_free [OF inv x INVALID_not_hashed [OF st] new]
  note l = set_hash_invD(2) [OF inv]
  have hx: "?h < assoc d" "?h \<noteq> x" if "?h \<noteq> FLASHCACHE_NULL"
    using head_in_list [OF l that] set_hash_invD(4) [OF inv] new by auto
  define d1 where "d1 = upd_blk ?i (\<lambda>b. b\<lparr>hash_next := ?h\<rparr>) d"
  define d2 where "d2 = (if ?h \<noteq> FLASHCACHE_NULL
    then upd_blk (s * assoc d + ?h) (\<lambda>b. b\<lparr>hash_prev := x\<rparr>) d1 else d1)"
  define d3 where "d3 = upd_set s (\<lambda>c. c\<lparr>invalid_head := x\<rparr>) d2"
  have run: "flashcache_invalid_insert ?i d = Some d3"
    using free st x assoc_u16 [OF g x] geometry_index [OF g s x]
    by (simp add: flashcache_invalid_insert_def Let_def d1_def d2_def d3_def)
  have fr: "hash_frame s d d3"
    unfolding d1_def d2_def d3_def hash_frame_def using x hx
    by (auto simp: blk_links_only_def set_heads_only_def same_but_arrays_def upd_blk_def upd_set_def)
  have n: "hnx d3 s = (hnx d s)(x := ?h)"
    and p: "hpv d3 s = (if ?h = FLASHCACHE_NULL then hpv d s else (hpv d s)(?h := x))"
    and hd: "invalid_head (cache_sets d3 s) = x"
      "hash_buckets (cache_sets d3 s) = hash_buckets (cache_sets d s)"
    using hx by (auto simp: d1_def d2_def d3_def fun_eq_iff)
  have "linked d3 s x (x # iv)"
    using l new assoc_u16 [OF g x] n p free by (intro link_head_linked) auto
  moreover have "hnx d3 s y = hnx d s y \<and> hpv d3 s y = hpv d s y"
    if "y \<noteq> x" "y \<notin> set iv" for y
  proof -
    have "?h = FLASHCACHE_NULL \<or> y \<noteq> ?h" using that head_in_list [OF l] by auto
    then show ?thesis using that by (auto simp: fun_cong [OF n] fun_cong [OF p])
  qed
  ultimately have "set_hash_inv d3 s ch (x # iv)"
    using hash_frame_same [OF fr] hash_frame_blk [OF fr] hd x st set_hash_invD(4) [OF inv]
    by (intro relink_invalid [OF inv]) auto
  with run fr show ?thesis by blast
qed

text \<open>Both removals unlink a block in the same way.\<close>

definition unlinked :: "(nat \<Rightarrow> nat) \<Rightarrow> (nat \<Rightarrow> nat) \<Rightarrow> nat \<Rightarrow> nat \<Rightarrow> nat" where
  "unlinked n p x = (if p x = FLASHCACHE_NULL then n else n(p x := n x))(x := FLASHCACHE_NULL)"

lemma unlink_linked:
  assumes l: "linked d s h xs" and x: "x \<in> set xs"
    and n: "hnx d' s = unlinked (hnx d s) (hpv d s) x"
    and p: "hpv d' s = unlinked (hpv d s) (hnx d s) x"
    and h: "h' = (if hpv d s x = FLASHCACHE_NULL then hnx d s x else h)"
  shows "linked d' s h' (remove1 x xs)"
proof -
  obtain as bs where xs: "xs = as @ x # bs" and "x \<notin> set as"
    using split_list_first [OF x] by blast
  then have r: "remove1 x xs = as @ bs" by (simp add: remove1_append)
  from l xs have "dll FLASHCACHE_NULL (hnx d s) (hpv d s) h (last_or FLASHCACHE_NULL xs) (as @ x # bs)"
    by (simp add: linked_def)
  from dll_unlink_clear [OF this] show ?thesis
    unfolding r by (intro linked_intro) (simp only: n p h unlinked_def)
qed

lemma linked_neighbours:
  assumes "linked d s h xs" and "x \<in> set xs"
  shows "hpv d s x \<noteq> FLASHCACHE_NULL \<Longrightarrow> hpv d s x \<in> set xs"
    and "hnx d s x \<noteq> FLASHCACHE_NULL \<Longrightarrow> hnx d s x \<in> set xs"
    and "hpv d s x \<noteq> x" and "hnx d s x \<noteq> x"
proof -
  obtain as bs where xs: "xs = as @ x # bs" using assms(2) by (meson split_list)
  have "dll FLASHCACHE_NULL (hnx d s) (hpv d s) h (last_or FLASHCACHE_NULL xs) (as @ x # bs)"
    using assms(1) xs by (simp add: linked_def)
  from dll_neighbours [OF this] xs
  show "hpv d s x \<noteq> FLASHCACHE_NULL \<Longrightarrow> hpv d s x \<in> set xs"
    "hnx d s x \<noteq> FLASHCACHE_NULL \<Longrightarrow> hnx d s x \<in> set xs" "hpv d s x \<noteq> x" "hnx d s x \<noteq> x"
    by auto
qed

lemma unlinked_other:
  "y \<noteq> x \<Longrightarrow> (p x \<noteq> FLASHCACHE_NULL \<Longrightarrow> y \<noteq> p x) \<Longrightarrow> unlinked n p x y = n y"
  by (simp add: unlinked_def)

lemma unlinked_same [simp]: "unlinked n p x x = FLASHCACHE_NULL"
  by (simp add: unlinked_def)

lemma unlink_frame:
  assumes "x < assoc d" and "p \<noteq> FLASHCACHE_NULL \<Longrightarrow> p < assoc d" and "n \<noteq> FLASHCACHE_NULL \<Longrightarrow> n < assoc d"
    and "hash_frame s d e"
  defines "d1 \<equiv> if p \<noteq> FLASHCACHE_NULL
      then upd_blk (s * assoc d + p) (\<lambda>b. b\<lparr>hash_next := n\<rparr>) d else e"
  defines "d2 \<equiv> if n \<noteq> FLASHCACHE_NULL
      then upd_blk (s * assoc d + n) (\<lambda>b. b\<lparr>hash_prev := p\<rparr>) d1 else d1"
  shows "hash_frame s d (upd_blk (s * assoc d + x)
      (\<lambda>b. b\<lparr>hash_prev := FLASHCACHE_NULL, hash_next := FLASHCACHE_NULL\<rparr>) d2)"
proof -
  have 1: "hash_frame s d d1"
    using assms(2,4) by (simp add: d1_def hash_frame_links)
  then have "assoc d1 = assoc d" by (rule hash_frame_same)
  with assms(3) have 2: "hash_frame s d1 d2"
    using hash_frame_links(2) [of n d1 s] by (simp add: d2_def)
  then have "assoc d2 = assoc d"
    using \<open>assoc d1 = assoc d\<close> by (simp add: hash_frame_same)
  with assms(1) show ?thesis
    using hash_frame_links(3) [of x d2 s] by (simp add: hash_frame_trans [OF hash_frame_trans [OF 1 2]])
qed

lemma invalid_remove_set:
  assumes g: "geometry d" and s: "s < num_sets d"
    and inv: "set_hash_inv d s ch iv" and x: "x \<in> set iv"
  shows "\<exists>d'. flashcache_invalid_remove (s * assoc d + x) d = Some d' \<and> hash_frame s d d' \<and>
             set_hash_inv d' s ch (remove1 x iv)"
proof -
  let ?i = "s * assoc d + x" and ?n = "hnx d s" and ?p = "hpv d s"
  note l = set_hash_invD(2) [OF inv] and xs = set_hash_invD(4) [OF inv x]
  note nb = linked_neighbours [OF l x]
  have pb: "?p x < assoc d" if "?p x \<noteq> FLASHCACHE_NULL" using nb(1) [OF that] set_hash_invD(4) [OF inv] by blast
  have nbb: "?n x < assoc d" if "?n x \<noteq> FLASHCACHE_NULL" using nb(2) [OF that] set_hash_invD(4) [OF inv] by blast
  define d1 where "d1 = (if ?p x \<noteq> FLASHCACHE_NULL
    then upd_blk (s * assoc d + ?p x) (\<lambda>b. b\<lparr>hash_next := ?n x\<rparr>) d
    else upd_set s (\<lambda>c. c\<lparr>invalid_head := ?n x\<rparr>) d)"
  define d2 where "d2 = (if ?n x \<noteq> FLASHCACHE_NULL
    then upd_blk (s * assoc d + ?n x) (\<lambda>b. b\<lparr>hash_prev := ?p x\<rparr>) d1 else d1)"
  define d3 where "d3 = upd_blk ?i
    (\<lambda>b. b\<lparr>hash_prev := FLASHCACHE_NULL, hash_next := FLASHCACHE_NULL\<rparr>) d2"
  have same1: "hash_next (cache d1 ?i) = ?n x" "hash_prev (cache d1 ?i) = ?p x"
    using nb by (auto simp: d1_def)
  have run: "flashcache_invalid_remove ?i d = Some d3"
    using xs geometry_index [OF g s, of x] same1
    by (simp add: flashcache_invalid_remove_def Let_def d1_def [symmetric] d2_def d3_def)
  have fr: "hash_frame s d d3"
    unfolding d1_def d2_def d3_def using xs pb nbb hash_frame_heads(1) by (intro unlink_frame) simp_all
  have n: "hnx d3 s = unlinked ?n ?p x" and p: "hpv d3 s = unlinked ?p ?n x"
    and hd: "invalid_head (cache_sets d3 s) =
        (if ?p x = FLASHCACHE_NULL then ?n x else invalid_head (cache_sets d s))"
      "hash_buckets (cache_sets d3 s) = hash_buckets (cache_sets d s)"
    using nb by (auto simp: d1_def d2_def d3_def fun_eq_iff unlinked_def)
  have "linked d3 s (invalid_head (cache_sets d3 s)) (remove1 x iv)"
    by (rule unlink_linked [OF l x n p hd(1)])
  moreover have "hnx d3 s y = hnx d s y \<and> hpv d3 s y = hpv d s y"
    if "y \<notin> set iv" for y
    using that nb x by (auto simp: fun_cong [OF n] fun_cong [OF p] intro!: unlinked_other)
  ultimately have "set_hash_inv d3 s ch (remove1 x iv)"
    using hash_frame_same [OF fr] hash_frame_blk [OF fr] hd set_hash_invD(4) [OF inv]
      linked_D(1) [OF l] fun_cong [OF n] fun_cong [OF p]
    by (intro relink_invalid [OF inv]) (auto dest: notin_set_remove1)
  with run fr show ?thesis by blast
qed

lemma remove1_not_in: "distinct xs \<Longrightarrow> y \<in> set xs \<Longrightarrow> y \<notin> set (remove1 x xs) \<Longrightarrow> y = x"
  by (cases "y = x") simp_all

lemma hash_remove_set:
  assumes g: "geometry d" and s: "s < num_sets d"
    and inv: "set_hash_inv d s ch iv" and x: "x < assoc d" "x \<in> set (ch (bucket_of d s x))"
  shows "\<exists>d'. flashcache_hash_remove (Some (s * assoc d + x)) d = Some d' \<and> hash_frame s d d' \<and>
             set_hash_inv d' s (ch(bucket_of d s x := remove1 x (ch (bucket_of d s x)))) iv"
proof -
  let ?i = "s * assoc d + x" and ?n = "hnx d s" and ?p = "hpv d s" and ?b = "bucket_of d s x"
  note l = set_hash_invD(1) [OF inv bucket_less, of d "dbn (blk d s x)"]
  note xs = set_hash_invD(3) [OF inv bucket_less x(2)]
  note nb = linked_neighbours [OF l x(2)]
  have in_chain: "y < assoc d \<and> hashed (blk d s y) \<and> bucket_of d s y = ?b" if "y \<in> set (ch ?b)" for y
    using set_hash_invD(3) [OF inv bucket_less that] .
  have pb: "?p x < assoc d" if "?p x \<noteq> FLASHCACHE_NULL" using nb(1) [OF that] in_chain by blast
  have nbb: "?n x < assoc d" if "?n x \<noteq> FLASHCACHE_NULL" using nb(2) [OF that] in_chain by blast
  define d1 where "d1 = (if ?p x \<noteq> FLASHCACHE_NULL
    then upd_blk (s * assoc d + ?p x) (\<lambda>b. b\<lparr>hash_next := ?n x\<rparr>) d
    else upd_bucket s ?b (?n x) d)"
  define d2 where "d2 = (if ?n x \<noteq> FLASHCACHE_NULL
    then upd_blk (s * assoc d + ?n x) (\<lambda>b. b\<lparr>hash_prev := ?p x\<rparr>) d1 else d1)"
  define d3 where "d3 = upd_blk ?i
    (\<lambda>b. b\<lparr>hash_prev := FLASHCACHE_NULL, hash_next := FLASHCACHE_NULL\<rparr>) d2"
  have same1: "hash_next (cache d1 ?i) = ?n x" "hash_prev (cache d1 ?i) = ?p x"
    using nb by (auto simp: d1_def upd_bucket_def)
  have run: "flashcache_hash_remove (Some ?i) d = Some d3"
    using xs same1
    by (simp add: flashcache_hash_remove_def hashed_def Let_def d1_def [symmetric] d2_def d3_def)
  have fr: "hash_frame s d d3"
    unfolding d1_def d2_def d3_def using x(1) pb nbb hash_frame_heads(2) by (intro unlink_frame) simp_all
  have n: "hnx d3 s = unlinked ?n ?p x" and p: "hpv d3 s = unlinked ?p ?n x"
    and hd: "hash_buckets (cache_sets d3 s) ?b =
        (if ?p x = FLASHCACHE_NULL then ?n x else hash_buckets (cache_sets d s) ?b)"
      "invalid_head (cache_sets d3 s) = invalid_head (cache_sets d s)"
    and ob: "\<And>b. b \<noteq> ?b \<Longrightarrow> hash_buckets (cache_sets d3 s) b = hash_buckets (cache_sets d s) b"
    using nb by (auto simp: d1_def d2_def d3_def fun_eq_iff unlinked_def upd_bucket_def)
  have lk: "linked d3 s (hash_buckets (cache_sets d3 s) ?b) (remove1 x (ch ?b))"
    by (rule unlink_linked [OF l x(2) n p hd(1)])
  have oth: "hnx d3 s y = hnx d s y \<and> hpv d3 s y = hpv d s y" if "y \<notin> set (ch ?b)" for y
    using that nb x by (auto simp: fun_cong [OF n] fun_cong [OF p] intro!: unlinked_other)
  have gone: "hnx d3 s y = FLASHCACHE_NULL \<and> hpv d3 s y = FLASHCACHE_NULL"
    if "y \<in> set (ch ?b)" "y \<notin> set (remove1 x (ch ?b))" for y
    using remove1_not_in [OF linked_D(1) [OF l] that] by (simp add: fun_cong [OF n] fun_cong [OF p])
  have "set_hash_inv d3 s (ch(?b := remove1 x (ch ?b))) iv"
  proof (rule relink_chain [OF inv bucket_less _ _ _ _ _ lk])
    fix y assume "y \<in> set (remove1 x (ch ?b))"
    then show "y < assoc d \<and> hashed (blk d s y) \<and> bucket_of d s y = ?b"
      using in_chain set_remove1_subset [of x "ch ?b"] by blast
  qed (use hash_frame_same [OF fr] hash_frame_blk [OF fr] hd ob oth gone in auto)
  with run fr show ?thesis by blast
qed

lemma hash_insert_set:
  assumes g: "geometry d" and s: "s < num_sets d" and x: "x < assoc d"
    and inv: "set_hash_inv d s ch iv" and st: "hashed (blk d s x)"
    and new: "x \<notin> set (ch (bucket_of d s x))"
  shows "\<exists>d'. flashcache_hash_insert (s * assoc d + x) d = Some d' \<and> hash_frame s d d' \<and>
             set_hash_inv d' s (ch(bucket_of d s x := x # ch (bucket_of d s x))) iv"
proof -
  let ?i = "s * assoc d + x" and ?b = "bucket_of d s x"
  let ?h = "hash_buckets (cache_sets d s) ?b"
  have "x \<notin> set iv" using set_hash_invD(4) [OF inv] st hashed_not_INVALID by blast
  note free = set_hash_invD(5) [OF inv x new this]
  note l = set_hash_invD(1) [OF inv bucket_less, of d "dbn (blk d s x)"]
  have in_chain: "y < assoc d \<and> hashed (blk d s y) \<and> bucket_of d s y = ?b" if "y \<in> set (ch ?b)" for y
    using set_hash_invD(3) [OF inv bucket_less that] .
  have hx: "?h < assoc d" "?h \<noteq> x" if "?h \<noteq> FLASHCACHE_NULL"
    using in_chain [OF head_in_list [OF l that]] head_in_list [OF l that] new by (blast, metis)
  define d1 where "d1 = upd_blk ?i (\<lambda>b. b\<lparr>hash_prev := FLASHCACHE_NULL, hash_next := ?h\<rparr>) d"
  define d2 where "d2 = (if ?h \<noteq> FLASHCACHE_NULL
    then upd_blk (s * assoc d + ?h) (\<lambda>b. b\<lparr>hash_prev := x\<rparr>) d1 else d1)"
  define d3 where "d3 = upd_bucket s ?b x d2"
  have run: "flashcache_hash_insert ?i d = Some d3"
    using free st x assoc_u16 [OF g x]
    by (simp add: flashcache_hash_insert_def hashed_def Let_def d1_def d2_def d3_def)
  have fr: "hash_frame s d d3"
    unfolding d1_def d2_def d3_def hash_frame_def using x hx
    by (auto simp: blk_links_only_def set_heads_only_def same_but_arrays_def upd_blk_def upd_set_def
        upd_bucket_def)
  have n: "hnx d3 s = (hnx d s)(x := ?h)"
    and p: "hpv d3 s = (if ?h = FLASHCACHE_NULL then hpv d s else (hpv d s)(?h := x))"
    and hd: "hash_buckets (cache_sets d3 s) ?b = x"
      "invalid_head (cache_sets d3 s) = invalid_head (cache_sets d s)"
    and ob: "\<And>b. b \<noteq> ?b \<Longrightarrow> hash_buckets (cache_sets d3 s) b = hash_buckets (cache_sets d s) b"
    using hx free by (auto simp: d1_def d2_def d3_def fun_eq_iff upd_bucket_def)
  have "linked d3 s x (x # ch ?b)"
    using l new assoc_u16 [OF g x] n p free by (intro link_head_linked) auto
  moreover have "hnx d3 s y = hnx d s y \<and> hpv d3 s y = hpv d s y"
    if "y \<noteq> x" "y \<notin> set (ch ?b)" for y
  proof -
    have "?h = FLASHCACHE_NULL \<or> y \<noteq> ?h" using that head_in_list [OF l] by auto
    then show ?thesis using that by (auto simp: fun_cong [OF n] fun_cong [OF p])
  qed
  ultimately have "set_hash_inv d3 s (ch(?b := x # ch ?b)) iv"
    using hash_frame_same [OF fr] hash_frame_blk [OF fr] hd ob x st in_chain
    by (intro relink_chain [OF inv bucket_less]) auto
  with run fr show ?thesis by blast
qed

lemma invalid_get_set:
  assumes g: "geometry d" and s: "s < num_sets d" and inv: "set_hash_inv d s ch iv"
  shows "case iv of
      [] \<Rightarrow> flashcache_invalid_get s d = Some (None, d)
    | x # iv' \<Rightarrow> \<exists>d'. flashcache_invalid_get s d = Some (Some (s * assoc d + x), d') \<and>
        hash_frame s d d' \<and> set_hash_inv d' s ch iv'"
proof (cases iv)
  case Nil
  then show ?thesis
    using linked_D(3) [OF set_hash_invD(2) [OF inv]] by (simp add: flashcache_invalid_get_def Let_def)
next
  case (Cons x iv')
  then have h: "invalid_head (cache_sets d s) = x" and n: "x \<noteq> FLASHCACHE_NULL"
    using linked_D(2,3) [OF set_hash_invD(2) [OF inv]] by auto
  from Cons have x: "x \<in> set iv" by simp
  from invalid_remove_set [OF g s inv x] obtain d' where d':
    "flashcache_invalid_remove (s * assoc d + x) d = Some d'" "hash_frame s d d'"
    "set_hash_inv d' s ch iv'"
    using Cons by auto
  have "flashcache_invalid_get s d = Some (Some (s * assoc d + x), d')"
    using d'(1) h n set_hash_invD(4) [OF inv x]
    by (simp add: flashcache_invalid_get_def Let_def add.commute)
  with d' Cons show ?thesis by auto
qed

section \<open>Lookup\<close>

lemma hash_lookup_loop_seg:
  assumes "seg (hnx d s) h xs FLASHCACHE_NULL" and "FLASHCACHE_NULL \<notin> set xs"
    and "\<forall>x \<in> set xs. hashed (blk d s x)"
  shows "hash_lookup_loop d s k h =
    Some (map_option (\<lambda>x. s * assoc d + x) (find (\<lambda>x. k = dbn (blk d s x)) xs))"
  using assms
proof (induction xs arbitrary: h)
  case Nil
  then show ?case by (subst hash_lookup_loop.simps) simp
next
  case (Cons x xs)
  then have "h = x" "x \<noteq> FLASHCACHE_NULL" "hashed (blk d s x)" by auto
  with Cons show ?case
    by (subst hash_lookup_loop.simps) (auto simp: hashed_def)
qed

definition index_map :: "cache_c \<Rightarrow> nat \<Rightarrow> (nat \<Rightarrow> nat list) \<Rightarrow> sector \<Rightarrow> nat option" where
  "index_map d s ch k = map_option (\<lambda>x. s * assoc d + x)
     (find (\<lambda>x. k = dbn (blk d s x)) (ch (flashcache_get_hash_bucket d k)))"

lemma hash_lookup_set:
  assumes "set_hash_inv d s ch iv"
  shows "flashcache_hash_lookup d s k = Some (index_map d s ch k)"
proof -
  have "seg (hnx d s) (hash_buckets (cache_sets d s) (flashcache_get_hash_bucket d k))
      (ch (flashcache_get_hash_bucket d k)) FLASHCACHE_NULL"
    using set_hash_invD(1) [OF assms bucket_less] by (simp add: linked_def dll_def)
  moreover have "FLASHCACHE_NULL \<notin> set (ch (flashcache_get_hash_bucket d k))"
    using set_hash_invD(1) [OF assms bucket_less] linked_D(2) by blast
  ultimately show ?thesis
    using set_hash_invD(3) [OF assms bucket_less]
    by (simp add: flashcache_hash_lookup_def index_map_def hash_lookup_loop_seg)
qed

text \<open>A set holds at most one copy of a disk block, and every valid block is on its chain.\<close>

definition unique_dbns :: "cache_c \<Rightarrow> nat \<Rightarrow> (nat \<Rightarrow> nat list) \<Rightarrow> bool" where
  "unique_dbns d s ch \<longleftrightarrow>
     (\<forall>b < NUM_BLOCK_HASH_BUCKETS. inj_on (\<lambda>x. dbn (blk d s x)) (set (ch b)))"

definition all_indexed :: "cache_c \<Rightarrow> nat \<Rightarrow> (nat \<Rightarrow> nat list) \<Rightarrow> bool" where
  "all_indexed d s ch \<longleftrightarrow>
     (\<forall>x < assoc d. hashed (blk d s x) \<longrightarrow> x \<in> set (ch (bucket_of d s x)))"

lemma index_map_SomeD:
  assumes "set_hash_inv d s ch iv" and "index_map d s ch k = Some i"
  obtains x where "i = s * assoc d + x" "x < assoc d" "hashed (blk d s x)" "dbn (blk d s x) = k"
    "x \<in> set (ch (flashcache_get_hash_bucket d k))"
proof -
  from assms(2) obtain x where x: "i = s * assoc d + x"
    "find (\<lambda>x. k = dbn (blk d s x)) (ch (flashcache_get_hash_bucket d k)) = Some x"
    by (auto simp: index_map_def)
  then have "x \<in> set (ch (flashcache_get_hash_bucket d k))" "k = dbn (blk d s x)"
    by (auto simp: find_Some_iff)
  with x(1) set_hash_invD(3) [OF assms(1) bucket_less] that show thesis by blast
qed

lemma index_map_None_iff:
  "index_map d s ch k = None \<longleftrightarrow>
     (\<forall>x \<in> set (ch (flashcache_get_hash_bucket d k)). dbn (blk d s x) \<noteq> k)"
  by (auto simp: index_map_def find_None_iff)

lemma index_map_Some_iff:
  assumes "unique_dbns d s ch"
  shows "index_map d s ch k = Some (s * assoc d + x) \<longleftrightarrow>
    x \<in> set (ch (flashcache_get_hash_bucket d k)) \<and> dbn (blk d s x) = k"
proof
  assume "index_map d s ch k = Some (s * assoc d + x)"
  then have "find (\<lambda>x. k = dbn (blk d s x)) (ch (flashcache_get_hash_bucket d k)) = Some x"
    by (auto simp: index_map_def)
  then show "x \<in> set (ch (flashcache_get_hash_bucket d k)) \<and> dbn (blk d s x) = k"
    by (auto simp: find_Some_iff)
next
  assume x: "x \<in> set (ch (flashcache_get_hash_bucket d k)) \<and> dbn (blk d s x) = k"
  then obtain y where y: "index_map d s ch k = Some (s * assoc d + y)"
    by (metis (mono_tags, lifting) index_map_None_iff index_map_def not_None_eq map_option_eq_Some)
  then have "y \<in> set (ch (flashcache_get_hash_bucket d k)) \<and> dbn (blk d s y) = k"
    by (auto simp: index_map_def find_Some_iff)
  with x assms have "x = y"
    unfolding unique_dbns_def using bucket_less by (metis inj_onD)
  with y show "index_map d s ch k = Some (s * assoc d + x)" by simp
qed

lemma index_map_all:
  assumes "set_hash_inv d s ch iv" and "unique_dbns d s ch" and "all_indexed d s ch"
  shows "index_map d s ch k = Some i \<longleftrightarrow>
    i div assoc d = s \<and> assoc d > 0 \<and> hashed (cache d i) \<and> dbn (cache d i) = k"
proof
  assume "index_map d s ch k = Some i"
  from index_map_SomeD [OF assms(1) this]
  show "i div assoc d = s \<and> assoc d > 0 \<and> hashed (cache d i) \<and> dbn (cache d i) = k"
    by (metis gr_implies_not0 neq0_conv set_of_index)
next
  assume i: "i div assoc d = s \<and> assoc d > 0 \<and> hashed (cache d i) \<and> dbn (cache d i) = k"
  then have "i = s * assoc d + i mod assoc d" "i mod assoc d < assoc d"
    using index_split [of i "assoc d"] by auto
  with i assms(3) have "index_map d s ch k = Some (s * assoc d + i mod assoc d)"
    unfolding index_map_Some_iff [OF assms(2)] all_indexed_def by (metis)
  with \<open>i = _\<close> show "index_map d s ch k = Some i" by simp
qed

section \<open>The index of a set as a map\<close>

text \<open>
  What the clients of the hash rely on: a state represents a finite map from keys to block
  indices, lookup reads it, insertion of a block that is ready and whose key is absent adds it,
  and removal of an indexed block deletes its key.
\<close>

locale hash_index =
  fixes represents :: "'s \<Rightarrow> ('k \<Rightarrow> 'i option) \<Rightarrow> bool"
    and ready :: "'s \<Rightarrow> 'i \<Rightarrow> bool"
    and key :: "'s \<Rightarrow> 'i \<Rightarrow> 'k"
    and lookup :: "'s \<Rightarrow> 'k \<Rightarrow> 'i option option"
    and insert_ix :: "'i \<Rightarrow> 's \<Rightarrow> 's option"
    and remove_ix :: "'i \<Rightarrow> 's \<Rightarrow> 's option"
  assumes lookup_law: "represents d m \<Longrightarrow> lookup d k = Some (m k)"
    and insert_law: "represents d m \<Longrightarrow> ready d i \<Longrightarrow> m (key d i) = None \<Longrightarrow>
      \<exists>d'. insert_ix i d = Some d' \<and> represents d' (m(key d i \<mapsto> i)) \<and> key d' = key d"
    and remove_law: "represents d m \<Longrightarrow> m (key d i) = Some i \<Longrightarrow>
      \<exists>d'. remove_ix i d = Some d' \<and> represents d' (m(key d i := None)) \<and> key d' = key d"
begin

lemma lookup_inserted:
  assumes "represents d m" and "ready d i" and "lookup d (key d i) = Some None"
  shows "\<exists>d'. insert_ix i d = Some d' \<and> lookup d' (key d i) = Some (Some i) \<and>
    (\<forall>k. k \<noteq> key d i \<longrightarrow> lookup d' k = lookup d k)"
proof -
  have "m (key d i) = None" using lookup_law [OF assms(1)] assms(3) by simp
  from insert_law [OF assms(1,2) this] obtain d' where
    "insert_ix i d = Some d'" "represents d' (m(key d i \<mapsto> i))" by blast
  then show ?thesis using lookup_law assms(1) by fastforce
qed

lemma lookup_removed:
  assumes "represents d m" and "lookup d (key d i) = Some (Some i)"
  shows "\<exists>d'. remove_ix i d = Some d' \<and> lookup d' (key d i) = Some None \<and>
    (\<forall>k. k \<noteq> key d i \<longrightarrow> lookup d' k = lookup d k)"
proof -
  have "m (key d i) = Some i" using lookup_law [OF assms(1)] assms(2) by simp
  from remove_law [OF assms(1) this] obtain d' where
    "remove_ix i d = Some d'" "represents d' (m(key d i := None))" by blast
  then show ?thesis using lookup_law assms(1) by fastforce
qed

text \<open>Recycling a block: it leaves the index under its old key and returns under a new one.\<close>

lemma recycle:
  assumes "represents d m" and "m (key d i) = Some i"
    and rekey: "\<And>e n. represents e n \<Longrightarrow> n (key d i) = None \<Longrightarrow> key e = key d \<Longrightarrow>
       represents (f e) n \<and> ready (f e) i \<and> key (f e) i = k"
    and "m k = None"
  shows "\<exists>d1 d2. remove_ix i d = Some d1 \<and> insert_ix i (f d1) = Some d2 \<and>
    represents d2 (m(key d i := None, k \<mapsto> i))"
proof -
  from remove_law [OF assms(1,2)] obtain d1 where
    1: "remove_ix i d = Some d1" "represents d1 (m(key d i := None))" "key d1 = key d" by blast
  from rekey [OF 1(2) _ 1(3)] have
    2: "represents (f d1) (m(key d i := None))" "ready (f d1) i" "key (f d1) i = k" by simp_all
  have "(m(key d i := None)) k = None" using assms(4) by simp
  with insert_law [OF 2(1,2)] 2(3) obtain d2 where
    "insert_ix i (f d1) = Some d2" "represents d2 (m(key d i := None, k \<mapsto> i))" by auto
  with 1 show ?thesis by blast
qed

end

definition set_index :: "nat \<Rightarrow> cache_c \<Rightarrow> (sector \<Rightarrow> nat option) \<Rightarrow> bool" where
  "set_index s d m \<longleftrightarrow> geometry d \<and> s < num_sets d \<and>
     (\<exists>ch iv. set_hash_inv d s ch iv \<and> unique_dbns d s ch \<and> m = index_map d s ch)"

definition index_ready :: "nat \<Rightarrow> cache_c \<Rightarrow> nat \<Rightarrow> bool" where
  "index_ready s d i \<longleftrightarrow> i div assoc d = s \<and> hashed (cache d i)"

definition index_key :: "cache_c \<Rightarrow> nat \<Rightarrow> sector" where
  "index_key d i = dbn (cache d i)"

lemma geometry_frame: "hash_frame s d d' \<Longrightarrow> geometry d' = geometry d"
  by (simp add: geometry_def hash_frame_same)

lemma index_map_frame: "hash_frame s d d' \<Longrightarrow> index_map d' s ch = index_map d s ch"
  by (simp add: index_map_def fun_eq_iff hash_frame_same hash_frame_blk get_hash_bucket_frame)

lemma unique_dbns_frame: "hash_frame s d d' \<Longrightarrow> unique_dbns d' s ch = unique_dbns d s ch"
  by (simp add: unique_dbns_def hash_frame_same hash_frame_blk)

lemma index_key_frame: "hash_frame s d d' \<Longrightarrow> index_key d' = index_key d"
  by (simp add: index_key_def fun_eq_iff hash_frame_blk)

lemma index_map_insert:
  assumes "index_map d s ch (dbn (blk d s x)) = None"
  shows "index_map d s (ch(bucket_of d s x := x # ch (bucket_of d s x))) =
    (index_map d s ch)(dbn (blk d s x) \<mapsto> s * assoc d + x)"
  using assms by (auto simp: fun_eq_iff index_map_def)

lemma unique_dbns_insert:
  assumes "unique_dbns d s ch" and "index_map d s ch (dbn (blk d s x)) = None"
  shows "unique_dbns d s (ch(bucket_of d s x := x # ch (bucket_of d s x)))"
proof -
  have "inj_on (\<lambda>x. dbn (blk d s x)) (insert x (set (ch (bucket_of d s x))))"
    using assms bucket_less unfolding unique_dbns_def index_map_None_iff
    by (auto simp only: inj_on_insert)
  with assms(1) show ?thesis unfolding unique_dbns_def by simp
qed

lemma index_map_remove:
  assumes inv: "set_hash_inv d s ch iv" and u: "unique_dbns d s ch"
    and x: "x \<in> set (ch (bucket_of d s x))"
  shows "index_map d s (ch(bucket_of d s x := remove1 x (ch (bucket_of d s x)))) =
    (index_map d s ch)(dbn (blk d s x) := None)" (is "?m' = _")
    and "unique_dbns d s (ch(bucket_of d s x := remove1 x (ch (bucket_of d s x))))"
proof -
  let ?b = "bucket_of d s x" and ?k = "dbn (blk d s x)"
  have dist: "distinct (ch ?b)"
    using linked_D(1) [OF set_hash_invD(1) [OF inv bucket_less]] .
  have inj: "dbn (blk d s y) \<noteq> ?k" if "y \<in> set (ch ?b)" "y \<noteq> x" for y
    using that x u inj_onD [of "\<lambda>x. dbn (blk d s x)" "set (ch ?b)" y x] unfolding unique_dbns_def
    by auto
  show uq: "unique_dbns d s (ch(?b := remove1 x (ch ?b)))"
    using u unfolding unique_dbns_def
    by (auto intro: inj_on_subset [OF _ set_remove1_subset])
  show "?m' = (index_map d s ch)(?k := None)"
  proof (rule ext)
    fix k
    show "?m' k = ((index_map d s ch)(?k := None)) k"
    proof (cases "k = ?k")
      case True
      then show ?thesis using inj dist by (auto simp: index_map_None_iff set_remove1_eq)
    next
      case False
      have "?m' k = Some (s * assoc d + y) \<longleftrightarrow> index_map d s ch k = Some (s * assoc d + y)" for y
        unfolding index_map_Some_iff [OF uq] index_map_Some_iff [OF u]
        using False dist by (cases "flashcache_get_hash_bucket d k = ?b") (auto simp: set_remove1_eq)
      moreover have "\<And>c i. index_map d s c k = Some i \<Longrightarrow> \<exists>y. i = s * assoc d + y"
        by (auto simp: index_map_def)
      ultimately have "?m' k = index_map d s ch k"
        by (metis not_None_eq)
      with False show ?thesis by simp
    qed
  qed
qed

interpretation set_hash: hash_index "set_index s" "index_ready s" index_key
    "\<lambda>d k. flashcache_hash_lookup d s k" flashcache_hash_insert
    "\<lambda>i. flashcache_hash_remove (Some i)" for s
proof (standard, goal_cases)
  case (1 d m k)
  then show ?case by (auto simp: set_index_def hash_lookup_set)
next
  case (2 d m i)
  then obtain ch iv where g: "geometry d" "s < num_sets d" and inv: "set_hash_inv d s ch iv"
    and u: "unique_dbns d s ch" and m: "m = index_map d s ch" by (auto simp: set_index_def)
  define x where "x = i mod assoc d"
  have i: "i = s * assoc d + x" and x: "x < assoc d"
    using 2(2) g(1) index_split [of i "assoc d"] by (auto simp: x_def index_ready_def geometry_def)
  have none: "index_map d s ch (dbn (blk d s x)) = None" using 2(3) m i by (simp add: index_key_def)
  then have "x \<notin> set (ch (bucket_of d s x))" by (auto simp: index_map_None_iff)
  from hash_insert_set [OF g x inv _ this] 2(2) i obtain d' where d':
    "flashcache_hash_insert i d = Some d'" "hash_frame s d d'"
    "set_hash_inv d' s (ch(bucket_of d s x := x # ch (bucket_of d s x))) iv"
    by (auto simp: index_ready_def)
  then have "set_index s d' (m(index_key d i \<mapsto> i))"
    unfolding set_index_def using g none u m i index_map_insert [OF none]
    by (auto simp: geometry_frame hash_frame_same index_map_frame unique_dbns_frame index_key_def
        intro!: exI unique_dbns_insert)
  with d' show ?case by (auto simp: index_key_frame)
next
  case (3 d m i)
  then obtain ch iv where g: "geometry d" "s < num_sets d" and inv: "set_hash_inv d s ch iv"
    and u: "unique_dbns d s ch" and m: "m = index_map d s ch" by (auto simp: set_index_def)
  from index_map_SomeD [OF inv 3(2) [unfolded m]] obtain x where
    i: "i = s * assoc d + x" and x: "x < assoc d" "x \<in> set (ch (bucket_of d s x))"
    by (metis index_key_def)
  from hash_remove_set [OF g inv x] obtain d' where d':
    "flashcache_hash_remove (Some i) d = Some d'" "hash_frame s d d'"
    "set_hash_inv d' s (ch(bucket_of d s x := remove1 x (ch (bucket_of d s x)))) iv"
    using i by auto
  then have "set_index s d' (m(index_key d i := None))"
    unfolding set_index_def using g m i index_map_remove [OF inv u x(2)]
    by (auto simp: geometry_frame hash_frame_same index_map_frame unique_dbns_frame index_key_def
        intro!: exI)
  with d' show ?case by (auto simp: index_key_frame)
qed

section \<open>Initialisation and placement\<close>

lemma hash_block_less:
  assumes "geometry d" and "0 < num_sets d"
  shows "hash_block d k < num_sets d"
proof -
  have "csize d div 2 ^ assoc_shift d = num_sets d"
    using assms by (simp add: geometry_def)
  then show ?thesis using assms(2) by (simp add: hash_block_def Let_def)
qed

text \<open>Consecutive sectors of one run of blocks are placed in the same set.\<close>

lemma hash_block_run:
  assumes "on_ssd_version d < 3 \<or> disk_assoc d = 0"
    and "drop_bit (block_shift d + assoc_shift d) k = drop_bit (block_shift d + assoc_shift d) k'"
  shows "hash_block d k = hash_block d k'"
  using assms by (simp add: hash_block_def)

lemma hash_init_fold:
  defines "f \<equiv> \<lambda>i. upd_set i (\<lambda>s. s\<lparr>invalid_head := FLASHCACHE_NULL,
        hash_buckets := (\<lambda>j. if j < NUM_BLOCK_HASH_BUCKETS then FLASHCACHE_NULL
                              else hash_buckets s j)\<rparr>)"
  shows "same_but_arrays d (fold f xs d) \<and> cache (fold f xs d) = cache d \<and>
    (\<forall>i \<in> set xs. invalid_head (cache_sets (fold f xs d) i) = FLASHCACHE_NULL \<and>
       (\<forall>j < NUM_BLOCK_HASH_BUCKETS. hash_buckets (cache_sets (fold f xs d) i) j = FLASHCACHE_NULL))"
proof (induction xs rule: rev_induct)
  case Nil
  then show ?case by simp
next
  case (snoc x xs)
  then show ?case
    using same_but_arrays_trans [OF _ same_but_arrays_upd(2)] by (simp add: f_def)
qed

lemma hash_init_set:
  assumes g: "geometry d" and s: "s < num_sets d"
    and fresh: "\<And>x. x < assoc d \<Longrightarrow> hnx d s x = FLASHCACHE_NULL \<and> hpv d s x = FLASHCACHE_NULL"
  shows "set_hash_inv (flashcache_hash_init d) s (\<lambda>_. []) []"
proof -
  have n: "csize d div 2 ^ assoc_shift d = num_sets d"
    using g by (simp add: geometry_def)
  let ?d = "flashcache_hash_init d"
  have same: "same_but_arrays d ?d" and c: "cache ?d = cache d"
    and h: "invalid_head (cache_sets ?d s) = FLASHCACHE_NULL"
      "\<And>j. j < NUM_BLOCK_HASH_BUCKETS \<Longrightarrow> hash_buckets (cache_sets ?d s) j = FLASHCACHE_NULL"
    using hash_init_fold [of d "[0..<num_sets d]"] s unfolding flashcache_hash_init_def n by auto
  show ?thesis
    by (rule set_hash_invI)
      (use same_but_arrays_D [OF same] c h fresh in \<open>auto simp: linked_def\<close>)
qed

end
