(* ===== verification/Reclaim.thy ===== *)
theory Reclaim
  imports Hash
begin

text \<open>
  The replacement policies of \<open>flashcache_reclaim.c\<close>: FIFO, and LRU with a hot and a warm list
  per set. The lists are threaded through \<open>lru_prev\<close> and \<open>lru_next\<close>, with the LRU block at the
  head and the MRU block at the tail. The invariant \<open>lru_inv\<close> relates them to two abstract
  lists; the operations are shown to implement moves on these lists without failing a
  \<open>VERIFY\<close>, and to touch nothing but the lists.
\<close>

section \<open>Operations\<close>

text \<open>
  The code treats the warm and the hot list alike, in two branches on \<open>lru_state & LRU_WARM\<close>.
  The branch is the argument \<open>warm\<close> of the accessors.
\<close>

definition list_head :: "bool \<Rightarrow> cache_set \<Rightarrow> nat" where
  "list_head warm c = (if warm then warmlist_lru_head c else hotlist_lru_head c)"

definition list_tail :: "bool \<Rightarrow> cache_set \<Rightarrow> nat" where
  "list_tail warm c = (if warm then warmlist_lru_tail c else hotlist_lru_tail c)"

definition list_blocks :: "bool \<Rightarrow> cache_set \<Rightarrow> nat" where
  "list_blocks warm c = (if warm then set_lru_warm_blocks c else set_lru_hot_blocks c)"

definition set_list_head :: "bool \<Rightarrow> nat \<Rightarrow> cache_set \<Rightarrow> cache_set" where
  "set_list_head warm v c = (if warm then c\<lparr>warmlist_lru_head := v\<rparr> else c\<lparr>hotlist_lru_head := v\<rparr>)"

definition set_list_tail :: "bool \<Rightarrow> nat \<Rightarrow> cache_set \<Rightarrow> cache_set" where
  "set_list_tail warm v c = (if warm then c\<lparr>warmlist_lru_tail := v\<rparr> else c\<lparr>hotlist_lru_tail := v\<rparr>)"

definition dec_list_blocks :: "bool \<Rightarrow> nat \<Rightarrow> cache_c \<Rightarrow> cache_c" where
  "dec_list_blocks warm cset d =
     (if warm
      then upd_set cset (\<lambda>c. c\<lparr>set_lru_warm_blocks := dec16 (set_lru_warm_blocks c)\<rparr>)
             (d\<lparr>lru_warm_blocks := lru_warm_blocks d - 1\<rparr>)
      else upd_set cset (\<lambda>c. c\<lparr>set_lru_hot_blocks := dec16 (set_lru_hot_blocks c)\<rparr>)
             (d\<lparr>lru_hot_blocks := lru_hot_blocks d - 1\<rparr>))"

definition inc_list_blocks :: "bool \<Rightarrow> nat \<Rightarrow> cache_c \<Rightarrow> cache_c" where
  "inc_list_blocks warm cset d =
     (if warm
      then upd_set cset (\<lambda>c. c\<lparr>set_lru_warm_blocks := inc16 (set_lru_warm_blocks c)\<rparr>)
             (d\<lparr>lru_warm_blocks := lru_warm_blocks d + 1\<rparr>)
      else upd_set cset (\<lambda>c. c\<lparr>set_lru_hot_blocks := inc16 (set_lru_hot_blocks c)\<rparr>)
             (d\<lparr>lru_hot_blocks := lru_hot_blocks d + 1\<rparr>))"

text \<open>The two checks at the start of every list operation: exactly one of the flags is set.\<close>

definition verify_lru_state :: "nat \<Rightarrow> cache_c \<Rightarrow> unit option" where
  "verify_lru_state index d = do {
     verify (lru_state (cache d index) AND (LRU_WARM OR LRU_HOT) \<noteq> 0);
     verify (lru_state (cache d index) AND (LRU_WARM OR LRU_HOT) \<noteq> LRU_HOT OR LRU_WARM)
   }"

definition on_warm :: "nat \<Rightarrow> cache_c \<Rightarrow> bool" where
  "on_warm index d \<longleftrightarrow> lru_state (cache d index) AND LRU_WARM \<noteq> 0"

definition lru_unlink :: "bool \<Rightarrow> nat \<Rightarrow> cache_c \<Rightarrow> cache_c" where
  "lru_unlink warm index d =
     (let cset = index div assoc d;
          start_index = cset * assoc d;
          d = (if lru_prev (cache d index) \<noteq> FLASHCACHE_NULL
               then upd_blk (lru_prev (cache d index) + start_index)
                      (\<lambda>b. b\<lparr>lru_next := lru_next (cache d index)\<rparr>) d
               else upd_set cset (set_list_head warm (lru_next (cache d index))) d)
      in if lru_next (cache d index) \<noteq> FLASHCACHE_NULL
         then upd_blk (lru_next (cache d index) + start_index)
                (\<lambda>b. b\<lparr>lru_prev := lru_prev (cache d index)\<rparr>) d
         else upd_set cset (set_list_tail warm (lru_prev (cache d index))) d)"

definition flashcache_reclaim_remove_block_from_list :: "nat \<Rightarrow> cache_c \<Rightarrow> cache_c option" where
  "flashcache_reclaim_remove_block_from_list index d = do {
     let cset = index div assoc d;
     let start_index = cset * assoc d;
     verify_lru_state index d;
     let warm = on_warm index d;
     if lru_prev (cache d index) = FLASHCACHE_NULL \<and> lru_next (cache d index) = FLASHCACHE_NULL \<and>
        list_head warm (cache_sets d cset) = FLASHCACHE_NULL \<and>
        list_tail warm (cache_sets d cset) = FLASHCACHE_NULL
     then Some d
     else do {
       let d = lru_unlink warm index d;
       let d = dec_list_blocks warm cset d;
       let c = cache_sets d cset;
       verify (list_blocks warm c = 0 \<longrightarrow> list_head warm c = FLASHCACHE_NULL);
       verify (list_blocks warm c = 0 \<longrightarrow> list_tail warm c = FLASHCACHE_NULL);
       verify (list_head warm c \<noteq> FLASHCACHE_NULL \<longrightarrow> list_blocks warm c > 0);
       verify (list_tail warm c \<noteq> FLASHCACHE_NULL \<longrightarrow> list_blocks warm c > 0);
       Some d
     }
   }"

definition flashcache_reclaim_add_block_to_list_mru :: "nat \<Rightarrow> cache_c \<Rightarrow> cache_c option" where
  "flashcache_reclaim_add_block_to_list_mru index d = do {
     let cset = index div assoc d;
     let start_index = cset * assoc d;
     let my_index = index - start_index;
     verify_lru_state index d;
     let warm = on_warm index d;
     let tail = list_tail warm (cache_sets d cset);
     let d = upd_blk index (\<lambda>b. b\<lparr>lru_next := FLASHCACHE_NULL, lru_prev := tail\<rparr>) d;
     let d = (if tail = FLASHCACHE_NULL
              then upd_set cset (set_list_head warm (to_u16 my_index)) d
              else upd_blk (tail + start_index) (\<lambda>b. b\<lparr>lru_next := to_u16 my_index\<rparr>) d);
     let d = upd_set cset (set_list_tail warm (to_u16 my_index)) d;
     Some (inc_list_blocks warm cset d)
   }"

definition flashcache_reclaim_add_block_to_list_lru :: "nat \<Rightarrow> cache_c \<Rightarrow> cache_c option" where
  "flashcache_reclaim_add_block_to_list_lru index d = do {
     let cset = index div assoc d;
     let start_index = cset * assoc d;
     let my_index = index - start_index;
     verify_lru_state index d;
     let warm = on_warm index d;
     let head = list_head warm (cache_sets d cset);
     let d = upd_blk index (\<lambda>b. b\<lparr>lru_prev := FLASHCACHE_NULL, lru_next := head\<rparr>) d;
     let d = (if head = FLASHCACHE_NULL
              then upd_set cset (set_list_tail warm (to_u16 my_index)) d
              else upd_blk (head + start_index) (\<lambda>b. b\<lparr>lru_prev := to_u16 my_index\<rparr>) d);
     let d = upd_set cset (set_list_head warm (to_u16 my_index)) d;
     Some (inc_list_blocks warm cset d)
   }"

definition flashcache_reclaim_move_to_mru :: "nat \<Rightarrow> cache_c \<Rightarrow> cache_c option" where
  "flashcache_reclaim_move_to_mru index d = do {
     verify_lru_state index d;
     d \<leftarrow> flashcache_reclaim_remove_block_from_list index d;
     flashcache_reclaim_add_block_to_list_mru index d
   }"

definition to_hot :: "cacheblock \<Rightarrow> cacheblock" where
  "to_hot b = b\<lparr>lru_state := (lru_state b AND NOT LRU_WARM) OR LRU_HOT, use_cnt := 0\<rparr>"

definition to_warm :: "cacheblock \<Rightarrow> cacheblock" where
  "to_warm b = b\<lparr>lru_state := (lru_state b AND NOT LRU_HOT) OR LRU_WARM, use_cnt := 0\<rparr>"

definition flashcache_reclaim_promote_block :: "nat \<Rightarrow> cache_c \<Rightarrow> (bool \<times> cache_c) option" where
  "flashcache_reclaim_promote_block index d = do {
     let cset = index div assoc d;
     let start_index = cset * assoc d;
     verify (lru_state (cache d index) AND LRU_WARM \<noteq> 0);
     let hot_block = hotlist_lru_head (cache_sets d cset);
     if hot_block = FLASHCACHE_NULL then Some (False, d)
     else do {
       let hot_block = hot_block + start_index;
       d \<leftarrow> flashcache_reclaim_remove_block_from_list index d;
       d \<leftarrow> flashcache_reclaim_remove_block_from_list hot_block d;
       d \<leftarrow> flashcache_reclaim_add_block_to_list_lru index (upd_blk index to_hot d);
       verify (lru_state (cache d hot_block) AND LRU_HOT \<noteq> 0);
       d \<leftarrow> flashcache_reclaim_add_block_to_list_mru hot_block (upd_blk hot_block to_warm d);
       Some (True, bump lru_promotions_update d)
     }
   }"

definition flashcache_reclaim_demote_block :: "nat \<Rightarrow> cache_c \<Rightarrow> (bool \<times> cache_c) option" where
  "flashcache_reclaim_demote_block index d = do {
     let cset = index div assoc d;
     let start_index = cset * assoc d;
     verify (lru_state (cache d index) AND LRU_HOT \<noteq> 0);
     let warm_block = warmlist_lru_tail (cache_sets d cset);
     if warm_block = FLASHCACHE_NULL then Some (False, d)
     else do {
       let warm_block = warm_block + start_index;
       d \<leftarrow> flashcache_reclaim_remove_block_from_list index d;
       d \<leftarrow> flashcache_reclaim_remove_block_from_list warm_block d;
       d \<leftarrow> flashcache_reclaim_add_block_to_list_mru index (upd_blk index to_warm d);
       verify (lru_state (cache d warm_block) AND LRU_WARM \<noteq> 0);
       d \<leftarrow> flashcache_reclaim_add_block_to_list_lru warm_block (upd_blk warm_block to_hot d);
       Some (True, bump lru_demotions_update d)
     }
   }"

text \<open>The walks of \<open>flashcache_reclaim_lru_get_old_block\<close> along a list, to the first \<open>VALID\<close> block.\<close>

partial_function (option) lru_find_valid :: "cache_c \<Rightarrow> nat \<Rightarrow> nat \<Rightarrow> nat option option" where
  "lru_find_valid d start_index rel =
     (if rel = FLASHCACHE_NULL then Some None
      else if state_of d (rel + start_index) = VALID then Some (Some (rel + start_index))
      else lru_find_valid d start_index (lru_next (cache d (rel + start_index))))"

declare lru_find_valid.simps [code]

definition flashcache_reclaim_lru_get_old_block ::
  "nat \<Rightarrow> cache_c \<Rightarrow> (nat option \<times> cache_c) option" where
  "flashcache_reclaim_lru_get_old_block start_index d = do {
     let cset = start_index div assoc d;
     found \<leftarrow> lru_find_valid d start_index (warmlist_lru_head (cache_sets d cset));
     case found of
       Some index \<Rightarrow> do {
         verify (state_of d index AND FALLOW_DOCLEAN = 0);
         verify (lru_state (cache d index) AND LRU_WARM \<noteq> 0);
         verify (lru_state (cache d index) AND LRU_HOT = 0);
         d \<leftarrow> flashcache_reclaim_move_to_mru index (upd_blk index (\<lambda>b. b\<lparr>use_cnt := 0\<rparr>) d);
         Some (Some index, d)
       }
     | None \<Rightarrow> do {
         found \<leftarrow> lru_find_valid d start_index (hotlist_lru_head (cache_sets d cset));
         case found of
           Some index \<Rightarrow> do {
             verify (state_of d index AND FALLOW_DOCLEAN = 0);
             verify (lru_state (cache d index) AND LRU_HOT \<noteq> 0);
             verify (lru_state (cache d index) AND LRU_WARM = 0);
             verify (use_cnt (cache d index) = 0);
             (demoted, d) \<leftarrow> flashcache_reclaim_demote_block index d;
             d \<leftarrow> (if demoted then Some d else flashcache_reclaim_move_to_mru index d);
             Some (Some index, d)
           }
         | None \<Rightarrow> Some (None, d)
       }
   }"

text \<open>The FIFO search, with the number of slots still to search.\<close>

primrec fifo_search :: "cache_c \<Rightarrow> nat \<Rightarrow> nat \<Rightarrow> nat \<Rightarrow> nat \<Rightarrow> (nat option \<times> nat) option" where
  "fifo_search d start_index end_index 0 i = Some (None, i)"
| "fifo_search d start_index end_index (Suc slots) i = do {
     verify (i \<ge> start_index);
     verify (i < end_index);
     if state_of d i = VALID
     then do {
       verify (state_of d i AND FALLOW_DOCLEAN = 0);
       Some (Some i, i)
     }
     else fifo_search d start_index end_index slots (if i + 1 = end_index then start_index else i + 1)
   }"

definition flashcache_reclaim_fifo_get_old_block ::
  "nat \<Rightarrow> cache_c \<Rightarrow> (nat option \<times> cache_c) option" where
  "flashcache_reclaim_fifo_get_old_block start_index d = do {
     let cset = start_index div assoc d;
     let end_index = start_index + assoc d;
     (found, i) \<leftarrow> fifo_search d start_index end_index (assoc d) (set_fifo_next (cache_sets d cset));
     let i = (if i + 1 = end_index then start_index else i + 1);
     Some (found, upd_set cset (\<lambda>c. c\<lparr>set_fifo_next := i\<rparr>) d)
   }"

definition flashcache_lru_accessed :: "nat \<Rightarrow> cache_c \<Rightarrow> cache_c option" where
  "flashcache_lru_accessed index d =
     (if lru_state (cache d index) AND LRU_HOT \<noteq> 0
      then flashcache_reclaim_move_to_mru index d
      else do {
        verify (lru_state (cache d index) AND LRU_WARM \<noteq> 0);
        if state_of d index = INVALID
        then flashcache_reclaim_move_to_mru index d
        else do {
          let d = upd_blk index (\<lambda>b. b\<lparr>use_cnt := use_cnt b + 1\<rparr>) d;
          if uint (use_cnt (cache d index)) < sysctl_lru_promote_thresh (sysctl d)
          then flashcache_reclaim_move_to_mru index d
          else do {
            (promoted, d) \<leftarrow> flashcache_reclaim_promote_block index d;
            if promoted then Some d else flashcache_reclaim_move_to_mru index d
          }
        }
      })"

text \<open>One set of \<open>flashcache_reclaim_rebalance_lru\<close>: move up to \<open>n\<close> blocks between the lists.\<close>

primrec rebalance_set :: "bool \<Rightarrow> nat \<Rightarrow> nat \<Rightarrow> cache_c \<Rightarrow> cache_c option" where
  "rebalance_set warm 0 cset d = Some d"
| "rebalance_set warm (Suc n) cset d =
     (if list_head warm (cache_sets d cset) = FLASHCACHE_NULL then Some d
      else do {
        let index = list_head warm (cache_sets d cset) + cset * assoc d;
        d \<leftarrow> flashcache_reclaim_remove_block_from_list index d;
        d \<leftarrow> flashcache_reclaim_add_block_to_list_lru index
               (upd_blk index (if warm then to_hot else to_warm) d);
        rebalance_set warm n cset d
      })"

definition flashcache_reclaim_rebalance_lru :: "int \<Rightarrow> cache_c \<Rightarrow> cache_c option" where
  "flashcache_reclaim_rebalance_lru new_lru_hot_pct d =
     (if new_lru_hot_pct > 100 \<or> new_lru_hot_pct < 0 then Some d
      else do {
        let new_hot_blocks = assoc d * nat new_lru_hot_pct div 100;
        let old_hot_blocks = assoc d * nat (hot_list_pct d) div 100;
        let sets = [0..<csize d div 2 ^ assoc_shift d];
        d \<leftarrow> (if new_hot_blocks > old_hot_blocks
              then for_each (rebalance_set True (new_hot_blocks - old_hot_blocks)) sets d
              else for_each (rebalance_set False (old_hot_blocks - new_hot_blocks)) sets d);
        Some (d\<lparr>hot_list_pct := new_lru_hot_pct\<rparr>)
      })"

definition lru_init_block :: "8 word \<Rightarrow> nat \<Rightarrow> cache_c \<Rightarrow> cache_c option" where
  "lru_init_block state block_index d =
     flashcache_reclaim_add_block_to_list_lru block_index
       (upd_blk block_index (\<lambda>b. b\<lparr>lru_prev := FLASHCACHE_NULL, lru_next := FLASHCACHE_NULL,
          lru_state := state\<rparr>) d)"

definition lru_init_set :: "nat \<Rightarrow> nat \<Rightarrow> cache_c \<Rightarrow> cache_c option" where
  "lru_init_set hot_blocks_set cset d = do {
     let start_index = cset * assoc d;
     d \<leftarrow> for_each (\<lambda>j. lru_init_block LRU_HOT (start_index + j)) [0..<hot_blocks_set] d;
     for_each (\<lambda>j. lru_init_block LRU_WARM (start_index + j)) [hot_blocks_set..<assoc d] d
   }"

definition flashcache_reclaim_init_lru_lists :: "cache_c \<Rightarrow> cache_c option" where
  "flashcache_reclaim_init_lru_lists d =
     for_each (lru_init_set (assoc d * nat (hot_list_pct d) div 100))
       [0..<csize d div 2 ^ assoc_shift d] d"

section \<open>The invariant\<close>

text \<open>
  \<open>q warm\<close> is the abstract list of the set-relative offsets on the warm (\<open>True\<close>) or hot
  (\<open>False\<close>) list, from the LRU to the MRU end.
\<close>

abbreviation lnx :: "cache_c \<Rightarrow> nat \<Rightarrow> nat \<Rightarrow> nat" where
  "lnx d s \<equiv> \<lambda>x. lru_next (blk d s x)"

abbreviation lpv :: "cache_c \<Rightarrow> nat \<Rightarrow> nat \<Rightarrow> nat" where
  "lpv d s \<equiv> \<lambda>x. lru_prev (blk d s x)"

definition flag_of :: "bool \<Rightarrow> 8 word" where
  "flag_of warm = (if warm then LRU_WARM else LRU_HOT)"

definition lru_list :: "cache_c \<Rightarrow> nat \<Rightarrow> bool \<Rightarrow> nat list \<Rightarrow> bool" where
  "lru_list d s warm xs \<longleftrightarrow>
     dll FLASHCACHE_NULL (lnx d s) (lpv d s)
       (list_head warm (cache_sets d s)) (list_tail warm (cache_sets d s)) xs \<and>
     list_blocks warm (cache_sets d s) = length xs \<and>
     (\<forall>x \<in> set xs. x < assoc d \<and> lru_state (blk d s x) = flag_of warm)"

definition lru_inv :: "cache_c \<Rightarrow> nat \<Rightarrow> (bool \<Rightarrow> nat list) \<Rightarrow> bool" where
  "lru_inv d s q \<longleftrightarrow> (\<forall>warm. lru_list d s warm (q warm)) \<and>
     (\<forall>x \<in> set (q False). use_cnt (blk d s x) = 0)"

text \<open>What the operations leave alone.\<close>

definition blk_lru_only :: "cacheblock \<Rightarrow> cacheblock \<Rightarrow> bool" where
  "blk_lru_only b b' \<longleftrightarrow>
     b'\<lparr>lru_prev := lru_prev b, lru_next := lru_next b, lru_state := lru_state b, use_cnt := use_cnt b\<rparr> = b"

definition set_lru_only :: "cache_set \<Rightarrow> cache_set \<Rightarrow> bool" where
  "set_lru_only c c' \<longleftrightarrow>
     c'\<lparr>hotlist_lru_head := hotlist_lru_head c, hotlist_lru_tail := hotlist_lru_tail c,
        warmlist_lru_head := warmlist_lru_head c, warmlist_lru_tail := warmlist_lru_tail c,
        set_lru_hot_blocks := set_lru_hot_blocks c, set_lru_warm_blocks := set_lru_warm_blocks c\<rparr> = c"

definition same_but_lru :: "cache_c \<Rightarrow> cache_c \<Rightarrow> bool" where
  "same_but_lru d d' \<longleftrightarrow>
     d'\<lparr>cache := cache d, cache_sets := cache_sets d, lru_hot_blocks := lru_hot_blocks d,
        lru_warm_blocks := lru_warm_blocks d, flashcache_stats := flashcache_stats d\<rparr> = d"

definition lru_frame :: "nat \<Rightarrow> cache_c \<Rightarrow> cache_c \<Rightarrow> bool" where
  "lru_frame s d d' \<longleftrightarrow> same_but_lru d d' \<and>
     (\<forall>i. blk_lru_only (cache d i) (cache d' i)) \<and>
     (\<forall>i. i div assoc d \<noteq> s \<longrightarrow> cache d' i = cache d i) \<and>
     (\<forall>t. set_lru_only (cache_sets d t) (cache_sets d' t)) \<and>
     (\<forall>t. t \<noteq> s \<longrightarrow> cache_sets d' t = cache_sets d t)"

lemma blk_lru_only_refl [simp]: "blk_lru_only b b"
  by (simp add: blk_lru_only_def)

lemma set_lru_only_refl [simp]: "set_lru_only b b"
  by (simp add: set_lru_only_def)

lemma same_but_lru_refl [simp]: "same_but_lru d d"
  by (simp add: same_but_lru_def)

lemma blk_lru_only_trans: "blk_lru_only a b \<Longrightarrow> blk_lru_only b c \<Longrightarrow> blk_lru_only a c"
  by (cases a, cases b, cases c) (simp add: blk_lru_only_def)

lemma set_lru_only_trans: "set_lru_only a b \<Longrightarrow> set_lru_only b c \<Longrightarrow> set_lru_only a c"
  by (cases a, cases b, cases c) (simp add: set_lru_only_def)

lemma same_but_lru_trans:
  assumes "same_but_lru d d'" and "same_but_lru d' d''"
  shows "same_but_lru d d''"
proof -
  define r where "r = (\<lambda>(d :: cache_c) (e :: cache_c). e\<lparr>cache := cache d, cache_sets := cache_sets d,
    lru_hot_blocks := lru_hot_blocks d, lru_warm_blocks := lru_warm_blocks d,
    flashcache_stats := flashcache_stats d\<rparr>)"
  have "r d d'' = r d (r d' d'')" by (simp add: r_def)
  with assms show ?thesis by (simp add: same_but_lru_def r_def)
qed

lemma same_but_lru_D:
  assumes "same_but_lru d d'"
  shows "assoc d' = assoc d" "csize d' = csize d" "num_sets d' = num_sets d" "kernel d' = kernel d"
    "assoc_shift d' = assoc_shift d" "block_shift d' = block_shift d" "block_size d' = block_size d"
    "on_ssd_version d' = on_ssd_version d" "disk_assoc d' = disk_assoc d"
    "disk_assoc_shift d' = disk_assoc_shift d" "sysctl d' = sysctl d" "nr_dirty d' = nr_dirty d"
    "cached_blocks d' = cached_blocks d" "mode d' = mode d" "hot_list_pct d' = hot_list_pct d"
  by (subst assms [unfolded same_but_lru_def, symmetric], simp)+

lemma lru_frame_refl [simp]: "lru_frame s d d"
  by (simp add: lru_frame_def)

lemma lru_frame_same:
  assumes "lru_frame s d d'"
  shows "assoc d' = assoc d" "csize d' = csize d" "num_sets d' = num_sets d" "kernel d' = kernel d"
    "assoc_shift d' = assoc_shift d" "block_shift d' = block_shift d" "block_size d' = block_size d"
    "on_ssd_version d' = on_ssd_version d" "disk_assoc d' = disk_assoc d"
    "disk_assoc_shift d' = disk_assoc_shift d" "sysctl d' = sysctl d" "nr_dirty d' = nr_dirty d"
    "cached_blocks d' = cached_blocks d" "mode d' = mode d" "hot_list_pct d' = hot_list_pct d"
  using assms unfolding lru_frame_def by (auto dest: same_but_lru_D)

lemma lru_frame_trans:
  assumes "lru_frame s d d'" and "lru_frame s d' d''"
  shows "lru_frame s d d''"
  using assms lru_frame_same(1) [OF assms(1)] unfolding lru_frame_def
  by (metis same_but_lru_trans blk_lru_only_trans set_lru_only_trans)

lemma blk_lru_only_D:
  assumes "blk_lru_only b b'"
  shows "cache_state b' = cache_state b" "dbn b' = dbn b" "nr_queued b' = nr_queued b"
    "hash_prev b' = hash_prev b" "hash_next b' = hash_next b"
  by (subst assms [unfolded blk_lru_only_def, symmetric], simp)+

lemma set_lru_only_D:
  assumes "set_lru_only c c'"
  shows "set_fifo_next c' = set_fifo_next c" "set_clean_next c' = set_clean_next c"
    "set_clean_inprog c' = set_clean_inprog c" "set_nr_dirty c' = set_nr_dirty c"
    "dirty_fallow c' = dirty_fallow c" "hash_buckets c' = hash_buckets c"
    "invalid_head c' = invalid_head c"
  by (subst assms [unfolded set_lru_only_def, symmetric], simp)+

lemma lru_frame_blk:
  assumes "lru_frame s d d'"
  shows "cache_state (cache d' i) = cache_state (cache d i)" "dbn (cache d' i) = dbn (cache d i)"
    "nr_queued (cache d' i) = nr_queued (cache d i)" "hash_prev (cache d' i) = hash_prev (cache d i)"
    "hash_next (cache d' i) = hash_next (cache d i)"
  using assms unfolding lru_frame_def by (simp_all add: blk_lru_only_D)

lemma lru_frame_sets:
  assumes "lru_frame s d d'"
  shows "set_nr_dirty (cache_sets d' t) = set_nr_dirty (cache_sets d t)"
    "set_clean_inprog (cache_sets d' t) = set_clean_inprog (cache_sets d t)"
    "set_fifo_next (cache_sets d' t) = set_fifo_next (cache_sets d t)"
    "set_clean_next (cache_sets d' t) = set_clean_next (cache_sets d t)"
    "hash_buckets (cache_sets d' t) = hash_buckets (cache_sets d t)"
    "invalid_head (cache_sets d' t) = invalid_head (cache_sets d t)"
  using assms unfolding lru_frame_def by (simp_all add: set_lru_only_D)

lemma lru_frame_geometry: "lru_frame s d d' \<Longrightarrow> geometry d' = geometry d"
  by (simp add: geometry_def lru_frame_same)

text \<open>The hash and the invalid list of every set survive.\<close>

lemma lru_frame_hash:
  assumes "lru_frame s d d'" and "set_hash_inv d t ch iv"
  shows "set_hash_inv d' t ch iv"
  using lru_frame_same [OF assms(1)] lru_frame_blk [OF assms(1)] lru_frame_sets [OF assms(1)]
  by (intro set_hash_inv_frame [OF _ _ _ _ _ _ _ assms(2)]) (simp_all add: hashed_def)

section \<open>Accessors\<close>

definition list_total :: "bool \<Rightarrow> cache_c \<Rightarrow> int" where
  "list_total warm d = (if warm then lru_warm_blocks d else lru_hot_blocks d)"

lemma list_sel [simp]:
  "list_head w (set_list_head w' v c) = (if w = w' then v else list_head w c)"
  "list_tail w (set_list_head w' v c) = list_tail w c"
  "list_blocks w (set_list_head w' v c) = list_blocks w c"
  "list_tail w (set_list_tail w' v c) = (if w = w' then v else list_tail w c)"
  "list_head w (set_list_tail w' v c) = list_head w c"
  "list_blocks w (set_list_tail w' v c) = list_blocks w c"
  by (auto simp: list_head_def list_tail_def list_blocks_def set_list_head_def set_list_tail_def)

lemma set_lru_only_list [simp]:
  "set_lru_only c (set_list_head w v c)" "set_lru_only c (set_list_tail w v c)"
  by (auto simp: set_lru_only_def set_list_head_def set_list_tail_def)

lemma list_blocks_upd [simp]:
  "cache (dec_list_blocks w s d) = cache d" "cache (inc_list_blocks w s d) = cache d"
  "assoc (dec_list_blocks w s d) = assoc d" "assoc (inc_list_blocks w s d) = assoc d"
  "list_head w' (cache_sets (dec_list_blocks w s d) t) = list_head w' (cache_sets d t)"
  "list_tail w' (cache_sets (dec_list_blocks w s d) t) = list_tail w' (cache_sets d t)"
  "list_head w' (cache_sets (inc_list_blocks w s d) t) = list_head w' (cache_sets d t)"
  "list_tail w' (cache_sets (inc_list_blocks w s d) t) = list_tail w' (cache_sets d t)"
  "list_blocks w' (cache_sets (dec_list_blocks w s d) s) =
     (if w' = w then dec16 (list_blocks w' (cache_sets d s)) else list_blocks w' (cache_sets d s))"
  "list_blocks w' (cache_sets (inc_list_blocks w s d) s) =
     (if w' = w then inc16 (list_blocks w' (cache_sets d s)) else list_blocks w' (cache_sets d s))"
  "list_total w' (dec_list_blocks w s d) = list_total w' d - (if w' = w then 1 else 0)"
  "list_total w' (inc_list_blocks w s d) = list_total w' d + (if w' = w then 1 else 0)"
  by (auto simp: dec_list_blocks_def inc_list_blocks_def list_head_def list_tail_def
      list_blocks_def list_total_def)

lemma list_total_upd [simp]:
  "list_total w (upd_blk i f d) = list_total w d" "list_total w (upd_set s g d) = list_total w d"
  "list_total w (bump h d) = list_total w d"
  by (simp_all add: list_total_def)

lemma flag_of_simps [simp]:
  "flag_of w AND (LRU_WARM OR LRU_HOT) \<noteq> 0"
  "flag_of w AND (LRU_WARM OR LRU_HOT) \<noteq> LRU_HOT OR LRU_WARM"
  "flag_of w AND LRU_WARM \<noteq> 0 \<longleftrightarrow> w" "flag_of w AND LRU_HOT \<noteq> 0 \<longleftrightarrow> \<not> w"
  "flag_of w = flag_of w' \<longleftrightarrow> w = w'"
  "(flag_of w AND NOT LRU_WARM) OR LRU_HOT = flag_of False"
  "(flag_of w AND NOT LRU_HOT) OR LRU_WARM = flag_of True"
  by (auto simp: flag_of_def lru_flag_simps)

lemma flag_of_zero [simp]: "flag_of w AND LRU_WARM = 0 \<longleftrightarrow> \<not> w" "flag_of w AND LRU_HOT = 0 \<longleftrightarrow> w"
  using flag_of_simps(3,4) [of w] by blast+

lemma lru_frame_upd:
  "x < assoc d \<Longrightarrow> blk_lru_only (blk d s x) (f (blk d s x)) \<Longrightarrow> lru_frame s d (upd_blk (s * assoc d + x) f d)"
  "set_lru_only (cache_sets d s) (g (cache_sets d s)) \<Longrightarrow> lru_frame s d (upd_set s g d)"
  by (auto simp: lru_frame_def same_but_lru_def upd_blk_def upd_set_def)

lemma set_lru_only_counts [simp]:
  "set_lru_only c (c\<lparr>set_lru_warm_blocks := n\<rparr>)" "set_lru_only c (c\<lparr>set_lru_hot_blocks := n\<rparr>)"
  by (simp_all add: set_lru_only_def)

lemma lru_frame_counts:
  "lru_frame s d (dec_list_blocks w s d)" "lru_frame s d (inc_list_blocks w s d)"
proof -
  have t: "lru_frame s d (d\<lparr>lru_warm_blocks := n\<rparr>)" "lru_frame s d (d\<lparr>lru_hot_blocks := n\<rparr>)" for n
    by (simp_all add: lru_frame_def same_but_lru_def)
  have u: "lru_frame s e (upd_set s (\<lambda>c. c\<lparr>set_lru_warm_blocks := f c\<rparr>) e)"
    "lru_frame s e (upd_set s (\<lambda>c. c\<lparr>set_lru_hot_blocks := f c\<rparr>) e)" for f e
    by (rule lru_frame_upd(2), rule set_lru_only_counts)+
  show "lru_frame s d (dec_list_blocks w s d)"
    by (cases w) (simp_all only: dec_list_blocks_def if_True if_False lru_frame_trans [OF t(1) u(1)] lru_frame_trans [OF t(2) u(2)])
  show "lru_frame s d (inc_list_blocks w s d)"
    by (cases w) (simp_all only: inc_list_blocks_def if_True if_False lru_frame_trans [OF t(1) u(1)] lru_frame_trans [OF t(2) u(2)])
qed

lemma lru_frame_bump:
  "lru_frame s d (bump lru_promotions_update d)" "lru_frame s d (bump lru_demotions_update d)"
  by (simp_all add: lru_frame_def same_but_lru_def bump_def)

section \<open>Moving one block\<close>

lemma lru_listD:
  assumes "lru_inv d s q"
  shows "dll FLASHCACHE_NULL (lnx d s) (lpv d s)
       (list_head w (cache_sets d s)) (list_tail w (cache_sets d s)) (q w)"
    and "list_blocks w (cache_sets d s) = length (q w)"
    and "x \<in> set (q w) \<Longrightarrow> x < assoc d" and "x \<in> set (q w) \<Longrightarrow> lru_state (blk d s x) = flag_of w"
    and "x \<in> set (q False) \<Longrightarrow> use_cnt (blk d s x) = 0" and "distinct (q w)"
  using assms unfolding lru_inv_def lru_list_def by (blast dest: dll_distinct)+

lemma lru_other_list:
  assumes "lru_inv d s q" and "x \<in> set (q w)"
  shows "x \<in> set (q w') \<longleftrightarrow> w' = w"
proof
  assume "x \<in> set (q w')"
  from lru_listD(4) [OF assms(1) this] lru_listD(4) [OF assms]
  show "w' = w" by simp
qed (use assms in simp)

lemma lru_length:
  assumes "lru_inv d s q"
  shows "length (q w) \<le> assoc d"
proof -
  have "set (q w) \<subseteq> {..<assoc d}" using lru_listD(3) [OF assms] by auto
  then have "card (set (q w)) \<le> assoc d" using card_mono [of "{..<assoc d}"] by fastforce
  then show ?thesis using lru_listD(6) [OF assms] by (simp add: distinct_card)
qed

lemma lru_relink:
  assumes inv: "lru_inv d s q" and "assoc d' = assoc d" and "lru_list d' s w xs"
    and "\<And>y. y \<in> set (q (\<not> w)) \<Longrightarrow> lnx d' s y = lnx d s y \<and> lpv d' s y = lpv d s y \<and>
      lru_state (blk d' s y) = lru_state (blk d s y)"
    and "list_head (\<not> w) (cache_sets d' s) = list_head (\<not> w) (cache_sets d s)"
      "list_tail (\<not> w) (cache_sets d' s) = list_tail (\<not> w) (cache_sets d s)"
      "list_blocks (\<not> w) (cache_sets d' s) = list_blocks (\<not> w) (cache_sets d s)"
    and "\<And>y. y \<in> set (if w then q False else xs) \<Longrightarrow> use_cnt (blk d' s y) = 0"
  shows "lru_inv d' s (q(w := xs))"
proof -
  have "dll FLASHCACHE_NULL (lnx d' s) (lpv d' s) (list_head (\<not> w) (cache_sets d s))
      (list_tail (\<not> w) (cache_sets d s)) (q (\<not> w))"
    using lru_listD(1) [OF inv] assms(4) by (subst dll_frame [of "q (\<not> w)"]) auto
  then have "lru_list d' s (\<not> w) (q (\<not> w))"
    unfolding lru_list_def using assms lru_listD(2) [OF inv, of "\<not> w"] lru_listD(3,4) [OF inv, of _ "\<not> w"] by simp
  with assms(3,8) show ?thesis
    unfolding lru_inv_def by (cases w) (auto split: if_splits)
qed

text \<open>
  \<open>balanced\<close>: the totals over all sets follow the lengths of the lists of the one set.
\<close>

definition balanced :: "cache_c \<Rightarrow> (bool \<Rightarrow> nat list) \<Rightarrow> cache_c \<Rightarrow> (bool \<Rightarrow> nat list) \<Rightarrow> bool" where
  "balanced d q d' q' \<longleftrightarrow>
     (\<forall>w. list_total w d' - int (length (q' w)) = list_total w d - int (length (q w)))"

definition same_flags :: "cache_c \<Rightarrow> cache_c \<Rightarrow> bool" where
  "same_flags d d' \<longleftrightarrow> (\<forall>i. lru_state (cache d' i) = lru_state (cache d i) \<and>
     use_cnt (cache d' i) = use_cnt (cache d i))"

lemma balanced_refl [simp]: "balanced d q d q"
  by (simp add: balanced_def)

lemma balanced_trans: "balanced d q d' q' \<Longrightarrow> balanced d' q' d'' q'' \<Longrightarrow> balanced d q d'' q''"
  by (simp add: balanced_def)

lemma lru_verified:
  assumes "lru_state (cache d i) = flag_of w"
  shows "verify_lru_state i d = Some ()" and "on_warm i d = w"
  using assms by (simp_all add: verify_lru_state_def on_warm_def)

lemma lru_remove:
  assumes inv: "lru_inv d s q" and g: "geometry d" and x: "x \<in> set (q w)"
  shows "\<exists>d'. flashcache_reclaim_remove_block_from_list (s * assoc d + x) d = Some d' \<and>
    lru_frame s d d' \<and> lru_inv d' s (q(w := remove1 x (q w))) \<and>
    balanced d q d' (q(w := remove1 x (q w))) \<and> same_flags d d'"
proof -
  let ?i = "s * assoc d + x" and ?n = "lnx d s" and ?p = "lpv d s" and ?N = FLASHCACHE_NULL
  let ?h = "list_head w (cache_sets d s)" and ?t = "list_tail w (cache_sets d s)"
  note l = lru_listD [OF inv]
  obtain as bs where q: "q w = as @ x # bs" and "x \<notin> set as" using split_list_first [OF x] by blast
  then have r: "remove1 x (q w) = as @ bs" by (simp add: remove1_append)
  have dl: "dll ?N ?n ?p ?h ?t (as @ x # bs)" using l(1) [of w] q by simp
  note nb = dll_neighbours [OF dl]
  have off: "?n x \<noteq> ?N \<Longrightarrow> ?n x < assoc d" "?p x \<noteq> ?N \<Longrightarrow> ?p x < assoc d"
    and inq: "?n x \<noteq> ?N \<Longrightarrow> ?n x \<in> set (q w)" "?p x \<noteq> ?N \<Longrightarrow> ?p x \<in> set (q w)"
    using nb q l(3) [of _ w] by auto
  have pos: "0 < length (q w)" "length (q w) \<le> 65536"
    using x lru_length [OF inv, of w] g by (auto simp: geometry_def FLASHCACHE_MAX_ASSOC_def)
  have ht: "?h \<noteq> ?N" using dll_empty_iff [OF dl] by simp
  define d1 where "d1 = (if ?p x \<noteq> ?N then upd_blk (s * assoc d + ?p x) (\<lambda>b. b\<lparr>lru_next := ?n x\<rparr>) d
    else upd_set s (set_list_head w (?n x)) d)"
  define d2 where "d2 = (if ?n x \<noteq> ?N then upd_blk (s * assoc d + ?n x) (\<lambda>b. b\<lparr>lru_prev := ?p x\<rparr>) d1
    else upd_set s (set_list_tail w (?p x)) d1)"
  define d3 where "d3 = dec_list_blocks w s d2"
  have a: "assoc d1 = assoc d" "assoc d2 = assoc d" "assoc d3 = assoc d"
    by (simp_all add: d1_def d2_def d3_def)
  have same1: "lru_next (cache d1 ?i) = ?n x" "lru_prev (cache d1 ?i) = ?p x"
    using nb by (auto simp: d1_def)
  have hd: "list_head w (cache_sets d3 s) = (if ?p x = ?N then ?n x else ?h)"
    "list_tail w (cache_sets d3 s) = (if ?n x = ?N then ?p x else ?t)"
    "list_blocks w (cache_sets d3 s) = length (as @ bs)"
    "list_head (\<not> w) (cache_sets d3 s) = list_head (\<not> w) (cache_sets d s)"
    "list_tail (\<not> w) (cache_sets d3 s) = list_tail (\<not> w) (cache_sets d s)"
    "list_blocks (\<not> w) (cache_sets d3 s) = list_blocks (\<not> w) (cache_sets d s)"
    using pos q by (auto simp: d1_def d2_def d3_def l(2) [of w] dec16_pos)
  have n: "lnx d3 s = (if ?p x = ?N then ?n else ?n(?p x := ?n x))"
    and p: "lpv d3 s = (if ?n x = ?N then ?p else ?p(?n x := ?p x))"
    by (auto simp: d1_def d2_def d3_def fun_eq_iff)
  have dl': "dll ?N (lnx d3 s) (lpv d3 s) (list_head w (cache_sets d3 s)) (list_tail w (cache_sets d3 s)) (as @ bs)"
    using dll_unlink [OF dl] by (simp only: n p hd)
  have fl: "same_flags d d3"
    by (auto simp: d1_def d2_def d3_def same_flags_def)
  have ul: "lru_unlink w ?i d = d2"
    using l(3) [OF x] same1 by (simp add: lru_unlink_def Let_def add.commute [of _ "s * assoc d"] d1_def d2_def)
  have run: "flashcache_reclaim_remove_block_from_list ?i d = Some d3"
    using lru_verified [OF l(4) [OF x]] l(3) [OF x] ht dll_empty_iff [OF dl'] dll_empty_iff_tail [OF dl'] hd(3)
    by (auto simp: flashcache_reclaim_remove_block_from_list_def Let_def ul d3_def [symmetric]
        simp del: list_blocks_upd)
  have "lru_frame s d d1" "lru_frame s d1 d2" "lru_frame s d2 d3"
    using off a lru_frame_upd(1) [of "?p x" d s] lru_frame_upd(1) [of "?n x" d1 s]
    by (auto simp: d1_def d2_def d3_def blk_lru_only_def intro!: lru_frame_upd lru_frame_counts)
  then have fr: "lru_frame s d d3" by (blast intro: lru_frame_trans)
  have ll: "lru_list d3 s w (remove1 x (q w))"
    unfolding lru_list_def r using dl' hd(3) a l(3,4) [of _ w] q fl by (simp add: same_flags_def)
  have "lru_inv d3 s (q(w := remove1 x (q w)))"
  proof (rule lru_relink [OF inv a(3) ll])
    fix y assume y: "y \<in> set (q (\<not> w))"
    then have "?p x = ?N \<or> y \<noteq> ?p x" "?n x = ?N \<or> y \<noteq> ?n x"
      using inq lru_other_list [OF inv y] by blast+
    then show "lnx d3 s y = lnx d s y \<and> lpv d3 s y = lpv d s y \<and>
      lru_state (blk d3 s y) = lru_state (blk d s y)"
      using fl a by (auto simp: fun_cong [OF n, unfolded a] fun_cong [OF p, unfolded a] same_flags_def)
  next
    fix y assume "y \<in> set (if w then q False else remove1 x (q w))"
    then have "y \<in> set (q False)" using set_remove1_subset [of x "q w"] by (auto split: if_splits)
    then show "use_cnt (blk d3 s y) = 0" using l(5) fl a by (simp add: same_flags_def)
  qed (use hd in simp_all)
  moreover have "int (length (remove1 x (q w))) = int (length (q w)) - 1"
    using x pos by (simp add: length_remove1 of_nat_diff Suc_le_eq)
  then have "balanced d q d3 (q(w := remove1 x (q w)))"
    by (auto simp: balanced_def d1_def d2_def d3_def)
  ultimately show ?thesis using run fr fl by blast
qed

text \<open>
  Both additions: the block is linked at an end (\<open>xs\<close> is the new list) and the other list keeps
  its links.
\<close>

lemma lru_added:
  assumes inv: "lru_inv d s q" and g: "geometry d" and x: "x < assoc d" "x \<notin> set (q w)"
    and st: "lru_state (blk d s x) = flag_of w" "\<not> w \<Longrightarrow> use_cnt (blk d s x) = 0"
    and fr: "lru_frame s d d'" and fl: "same_flags d d'"
    and xs: "set xs = insert x (set (q w))" "length xs = Suc (length (q w))"
    and dl: "dll FLASHCACHE_NULL (lnx d' s) (lpv d' s) (list_head w (cache_sets d' s))
        (list_tail w (cache_sets d' s)) xs"
    and n: "\<And>y. y \<noteq> x \<Longrightarrow> y \<notin> set (q w) \<Longrightarrow> lnx d' s y = lnx d s y \<and> lpv d' s y = lpv d s y"
    and b: "list_blocks w (cache_sets d' s) = inc16 (list_blocks w (cache_sets d s))"
    and o: "list_head (\<not> w) (cache_sets d' s) = list_head (\<not> w) (cache_sets d s)"
      "list_tail (\<not> w) (cache_sets d' s) = list_tail (\<not> w) (cache_sets d s)"
      "list_blocks (\<not> w) (cache_sets d' s) = list_blocks (\<not> w) (cache_sets d s)"
    and t: "\<And>w'. list_total w' d' = list_total w' d + (if w' = w then 1 else 0)"
  shows "lru_inv d' s (q(w := xs)) \<and> balanced d q d' (q(w := xs))"
proof
  note l = lru_listD [OF inv] and a = lru_frame_same(1) [OF fr]
  have "length (q w) < 65535"
    using lru_length [OF inv, of w] g by (simp add: geometry_def FLASHCACHE_MAX_ASSOC_def)
  then have "list_blocks w (cache_sets d' s) = length xs"
    using b xs l(2) [of w] by simp
  moreover have "y < assoc d \<and> lru_state (blk d s y) = flag_of w" if "y \<in> set xs" for y
    using that xs(1) x st l(3,4) [of y w] by auto
  ultimately have ll: "lru_list d' s w xs"
    using dl fl a unfolding lru_list_def same_flags_def by simp
  show "lru_inv d' s (q(w := xs))"
  proof (rule lru_relink [OF inv a ll])
    fix y assume y: "y \<in> set (q (\<not> w))"
    then have "y \<noteq> x" using l(4) [OF y] st by auto
    moreover have "y \<notin> set (q w)" using lru_other_list [OF inv y] by simp
    ultimately show "lnx d' s y = lnx d s y \<and> lpv d' s y = lpv d s y \<and>
      lru_state (blk d' s y) = lru_state (blk d s y)"
      using n fl a by (simp add: same_flags_def)
  next
    fix y assume "y \<in> set (if w then q False else xs)"
    then show "use_cnt (blk d' s y) = 0"
      using xs(1) st(2) l(5) fl a by (auto simp: same_flags_def split: if_splits)
  qed (use o in simp_all)
  show "balanced d q d' (q(w := xs))"
    using t xs(2) by (simp add: balanced_def)
qed

lemma lru_add_mru:
  assumes inv: "lru_inv d s q" and g: "geometry d" and x: "x < assoc d" "x \<notin> set (q w)"
    and st: "lru_state (blk d s x) = flag_of w" "\<not> w \<Longrightarrow> use_cnt (blk d s x) = 0"
  shows "\<exists>d'. flashcache_reclaim_add_block_to_list_mru (s * assoc d + x) d = Some d' \<and>
    lru_frame s d d' \<and> lru_inv d' s (q(w := q w @ [x])) \<and>
    balanced d q d' (q(w := q w @ [x])) \<and> same_flags d d'"
proof -
  let ?i = "s * assoc d + x" and ?t = "list_tail w (cache_sets d s)" and ?N = FLASHCACHE_NULL
  note l = lru_listD [OF inv]
  have tl: "?t < assoc d" "?t \<in> set (q w)" "?t \<noteq> x" if "?t \<noteq> ?N"
    using dll_tail_in [OF l(1) that] l(3) x by auto
  define d1 where "d1 = upd_blk ?i (\<lambda>b. b\<lparr>lru_next := ?N, lru_prev := ?t\<rparr>) d"
  define d2 where "d2 = (if ?t = ?N then upd_set s (set_list_head w x) d1
    else upd_blk (s * assoc d + ?t) (\<lambda>b. b\<lparr>lru_next := x\<rparr>) d1)"
  define d3 where "d3 = inc_list_blocks w s (upd_set s (set_list_tail w x) d2)"
  have run: "flashcache_reclaim_add_block_to_list_mru ?i d = Some d3"
    using lru_verified [OF st(1)] x assoc_u16 [OF g x(1)]
    by (simp add: flashcache_reclaim_add_block_to_list_mru_def Let_def add.commute [of _ "s * assoc d"]
        d1_def d2_def d3_def)
  have a: "assoc d1 = assoc d" "assoc d2 = assoc d" "assoc d3 = assoc d"
    by (simp_all add: d1_def d2_def d3_def)
  have "lru_frame s d d1" "lru_frame s d1 d2" "lru_frame s d2 d3"
    using x tl a lru_frame_upd(1) [of ?t d1 s] lru_frame_trans [OF lru_frame_upd(2) lru_frame_counts(2)]
    by (auto simp: d1_def d2_def d3_def blk_lru_only_def intro!: lru_frame_upd)
  then have fr: "lru_frame s d d3" by (blast intro: lru_frame_trans)
  have n: "lnx d3 s = (if ?t = ?N then (lnx d s)(x := ?N) else (lnx d s)(x := ?N, ?t := x))"
    and p: "lpv d3 s = (lpv d s)(x := ?t)"
    and hd: "list_head w (cache_sets d3 s) = (if ?t = ?N then x else list_head w (cache_sets d s))"
      "list_tail w (cache_sets d3 s) = x"
    using tl by (auto simp: d1_def d2_def d3_def fun_eq_iff)
  have dl: "dll ?N (lnx d3 s) (lpv d3 s) (list_head w (cache_sets d3 s)) (list_tail w (cache_sets d3 s)) (q w @ [x])"
    unfolding n p hd
    by (rule dll_link_tail [OF l(1) x(2)]) (simp add: assoc_u16 [OF g x(1)])
  have fl: "same_flags d d3"
    by (auto simp: d1_def d2_def d3_def same_flags_def)
  have "lru_inv d3 s (q(w := q w @ [x])) \<and> balanced d q d3 (q(w := q w @ [x]))"
    by (rule lru_added [OF inv g x st fr fl _ _ dl])
      (use tl in \<open>auto simp: d1_def d2_def d3_def\<close>)
  with run fr fl show ?thesis by blast
qed

lemma lru_add_lru:
  assumes inv: "lru_inv d s q" and g: "geometry d" and x: "x < assoc d" "x \<notin> set (q w)"
    and st: "lru_state (blk d s x) = flag_of w" "\<not> w \<Longrightarrow> use_cnt (blk d s x) = 0"
  shows "\<exists>d'. flashcache_reclaim_add_block_to_list_lru (s * assoc d + x) d = Some d' \<and>
    lru_frame s d d' \<and> lru_inv d' s (q(w := x # q w)) \<and>
    balanced d q d' (q(w := x # q w)) \<and> same_flags d d'"
proof -
  let ?i = "s * assoc d + x" and ?t = "list_head w (cache_sets d s)" and ?N = FLASHCACHE_NULL
  note l = lru_listD [OF inv]
  have tl: "?t < assoc d" "?t \<in> set (q w)" "?t \<noteq> x" if "?t \<noteq> ?N"
    using dll_head_in [OF l(1) that] l(3) x by auto
  define d1 where "d1 = upd_blk ?i (\<lambda>b. b\<lparr>lru_prev := ?N, lru_next := ?t\<rparr>) d"
  define d2 where "d2 = (if ?t = ?N then upd_set s (set_list_tail w x) d1
    else upd_blk (s * assoc d + ?t) (\<lambda>b. b\<lparr>lru_prev := x\<rparr>) d1)"
  define d3 where "d3 = inc_list_blocks w s (upd_set s (set_list_head w x) d2)"
  have run: "flashcache_reclaim_add_block_to_list_lru ?i d = Some d3"
    using lru_verified [OF st(1)] x assoc_u16 [OF g x(1)]
    by (simp add: flashcache_reclaim_add_block_to_list_lru_def Let_def add.commute [of _ "s * assoc d"]
        d1_def d2_def d3_def)
  have a: "assoc d1 = assoc d" "assoc d2 = assoc d" "assoc d3 = assoc d"
    by (simp_all add: d1_def d2_def d3_def)
  have "lru_frame s d d1" "lru_frame s d1 d2" "lru_frame s d2 d3"
    using x tl a lru_frame_upd(1) [of ?t d1 s] lru_frame_trans [OF lru_frame_upd(2) lru_frame_counts(2)]
    by (auto simp: d1_def d2_def d3_def blk_lru_only_def intro!: lru_frame_upd)
  then have fr: "lru_frame s d d3" by (blast intro: lru_frame_trans)
  have n: "lpv d3 s = (if ?t = ?N then (lpv d s)(x := ?N) else (lpv d s)(x := ?N, ?t := x))"
    and p: "lnx d3 s = (lnx d s)(x := ?t)"
    and hd: "list_tail w (cache_sets d3 s) = (if ?t = ?N then x else list_tail w (cache_sets d s))"
      "list_head w (cache_sets d3 s) = x"
    using tl by (auto simp: d1_def d2_def d3_def fun_eq_iff)
  have dl: "dll ?N (lnx d3 s) (lpv d3 s) (list_head w (cache_sets d3 s)) (list_tail w (cache_sets d3 s)) (x # q w)"
    unfolding n p hd
    by (rule dll_link_head [OF l(1) x(2)]) (simp add: assoc_u16 [OF g x(1)])
  have fl: "same_flags d d3"
    by (auto simp: d1_def d2_def d3_def same_flags_def)
  have "lru_inv d3 s (q(w := x # q w)) \<and> balanced d q d3 (q(w := x # q w))"
    by (rule lru_added [OF inv g x st fr fl _ _ dl])
      (use tl in \<open>auto simp: d1_def d2_def d3_def\<close>)
  with run fr fl show ?thesis by blast
qed

section \<open>Compound operations\<close>

text \<open>
  \<open>lru_step\<close> collects what every operation guarantees: the frame, the invariant for the new
  abstract lists, and the totals.
\<close>

definition lru_step :: "nat \<Rightarrow> cache_c \<Rightarrow> (bool \<Rightarrow> nat list) \<Rightarrow> cache_c \<Rightarrow> (bool \<Rightarrow> nat list) \<Rightarrow> bool" where
  "lru_step s d q d' q' \<longleftrightarrow> lru_frame s d d' \<and> lru_inv d' s q' \<and> balanced d q d' q'"

lemma lru_stepD:
  assumes "lru_step s d q d' q'"
  shows "lru_frame s d d'" "lru_inv d' s q'" "balanced d q d' q'" "assoc d' = assoc d"
    "geometry d \<Longrightarrow> geometry d'"
  using assms lru_frame_same(1) lru_frame_geometry unfolding lru_step_def by blast+

lemma lru_step_trans:
  "lru_step s d q d1 q1 \<Longrightarrow> lru_step s d1 q1 d2 q2 \<Longrightarrow> lru_step s d q d2 q2"
  unfolding lru_step_def by (blast intro: lru_frame_trans balanced_trans)

lemma lru_step_refl: "lru_inv d s q \<Longrightarrow> lru_step s d q d q"
  by (simp add: lru_step_def)

lemma lru_remove_step:
  assumes "lru_inv d s q" and "geometry d" and "x \<in> set (q w)"
  shows "\<exists>d'. flashcache_reclaim_remove_block_from_list (s * assoc d + x) d = Some d' \<and>
    lru_step s d q d' (q(w := remove1 x (q w))) \<and> same_flags d d'"
  using lru_remove [OF assms] by (auto simp: lru_step_def)

lemma lru_add_mru_step:
  assumes "lru_inv d s q" and "geometry d" and "x < assoc d" "x \<notin> set (q w)"
    and "lru_state (blk d s x) = flag_of w" "\<not> w \<Longrightarrow> use_cnt (blk d s x) = 0"
  shows "\<exists>d'. flashcache_reclaim_add_block_to_list_mru (s * assoc d + x) d = Some d' \<and>
    lru_step s d q d' (q(w := q w @ [x])) \<and> same_flags d d'"
  using lru_add_mru [OF assms] by (auto simp: lru_step_def)

lemma lru_add_lru_step:
  assumes "lru_inv d s q" and "geometry d" and "x < assoc d" "x \<notin> set (q w)"
    and "lru_state (blk d s x) = flag_of w" "\<not> w \<Longrightarrow> use_cnt (blk d s x) = 0"
  shows "\<exists>d'. flashcache_reclaim_add_block_to_list_lru (s * assoc d + x) d = Some d' \<and>
    lru_step s d q d' (q(w := x # q w)) \<and> same_flags d d'"
  using lru_add_lru [OF assms] by (auto simp: lru_step_def)

lemma not_in_removed:
  assumes "lru_inv d s q"
  shows "x \<notin> set (remove1 x (q w))"
  using lru_listD(6) [OF assms] by (simp add: set_remove1_eq)

text \<open>Changing the flags of a block off the lists, or the use count of one on the warm list.\<close>

lemma lru_reflag_step:
  assumes inv: "lru_inv d s q" and x: "x < assoc d" "\<And>w. x \<notin> set (q w)"
    and f: "blk_lru_only (blk d s x) (f (blk d s x))" 
  shows "lru_step s d q (upd_blk (s * assoc d + x) f d) q"
proof -
  have ne: "y \<noteq> x" if "y \<in> set (q w)" for y w using that x(2) by auto
  have "lru_list (upd_blk (s * assoc d + x) f d) s w (q w)" for w
    using inv ne unfolding lru_inv_def lru_list_def
    by (subst dll_frame [where nx = "lnx d s" and pv = "lpv d s"]) auto
  then show ?thesis
    using inv ne lru_frame_upd(1) [OF x(1), of s f, OF f]
    unfolding lru_step_def lru_inv_def balanced_def by auto
qed

lemma lru_use_cnt_step:
  assumes inv: "lru_inv d s q" and x: "x \<in> set (q True)"
  shows "lru_step s d q (upd_blk (s * assoc d + x) (\<lambda>b. b\<lparr>use_cnt := f b\<rparr>) d) q" (is "lru_step s d q ?d q")
proof -
  have ne: "y \<noteq> x" if "y \<in> set (q False)" for y
    using that x lru_other_list [OF inv x, of False] by auto
  have lk: "lnx ?d s = lnx d s" "lpv ?d s = lpv d s" by (auto simp: fun_eq_iff)
  have "lru_list ?d s w (q w)" for w
    using inv unfolding lru_inv_def lru_list_def lk by auto
  moreover have "lru_frame s d ?d"
    using lru_listD(3) [OF inv x] by (intro lru_frame_upd(1)) (simp_all add: blk_lru_only_def)
  ultimately show ?thesis
    using inv ne unfolding lru_step_def lru_inv_def balanced_def by auto
qed

lemma same_flags_D:
  "same_flags d d' \<Longrightarrow> lru_state (cache d' i) = lru_state (cache d i) \<and> use_cnt (cache d' i) = use_cnt (cache d i)"
  by (simp add: same_flags_def)

lemma lru_move_to_mru:
  assumes inv: "lru_inv d s q" and g: "geometry d" and x: "x \<in> set (q w)"
  shows "\<exists>d'. flashcache_reclaim_move_to_mru (s * assoc d + x) d = Some d' \<and>
    lru_step s d q d' (q(w := remove1 x (q w) @ [x])) \<and> same_flags d d'"
proof -
  note l = lru_listD [OF inv]
  define q1 where "q1 = q(w := remove1 x (q w))"
  from lru_remove_step [OF inv g x] obtain d1 where
    1: "flashcache_reclaim_remove_block_from_list (s * assoc d + x) d = Some d1"
      "lru_step s d q d1 q1" "same_flags d d1" unfolding q1_def by blast
  note s1 = lru_stepD [OF 1(2)]
  have q1w: "q1 w = remove1 x (q w)" and q1u: "q1(w := remove1 x (q w) @ [x]) = q(w := remove1 x (q w) @ [x])"
    by (simp_all add: q1_def)
  have x1: "x < assoc d1" "x \<notin> set (q1 w)" "lru_state (blk d1 s x) = flag_of w"
    "\<not> w \<Longrightarrow> use_cnt (blk d1 s x) = 0"
    using l(3,4) [OF x] l(5) [of x] x s1(4) same_flags_D [OF 1(3)] not_in_removed [OF inv]
    by (auto simp: q1w)
  from lru_add_mru_step [OF s1(2) s1(5) [OF g] x1] obtain d2 where
    2: "flashcache_reclaim_add_block_to_list_mru (s * assoc d + x) d1 = Some d2"
      "lru_step s d1 q1 d2 (q(w := remove1 x (q w) @ [x]))" "same_flags d1 d2"
    by (auto simp: q1w q1u s1(4))
  have "flashcache_reclaim_move_to_mru (s * assoc d + x) d = Some d2"
    using 1(1) 2(1) lru_verified(1) [OF l(4) [OF x]] by (simp add: flashcache_reclaim_move_to_mru_def)
  then show ?thesis
    using lru_step_trans [OF 1(2) 2(2)] 1(3) 2(3) by (auto simp: same_flags_def)
qed

lemma blk_lru_only_swap [simp]: "blk_lru_only b (to_hot b)" "blk_lru_only b (to_warm b)"
  by (simp_all add: blk_lru_only_def to_hot_def to_warm_def)

lemma swap_flags:
  assumes "lru_state b = flag_of w"
  shows "lru_state (to_hot b) = flag_of False" "use_cnt (to_hot b) = 0"
    "lru_state (to_warm b) = flag_of True" "use_cnt (to_warm b) = 0"
  using assms by (simp_all add: to_hot_def to_warm_def)

text \<open>
  The exchange of a block \<open>x\<close> of one list with a block \<open>y\<close> of the other, as promotion and
  demotion do it: both leave their lists before the flags are swapped.
\<close>

lemma lru_take_two:
  assumes inv: "lru_inv d s q" and g: "geometry d" and x: "x \<in> set (q w)" and y: "y \<in> set (q (\<not> w))"
  shows "\<exists>d1 d2. flashcache_reclaim_remove_block_from_list (s * assoc d + x) d = Some d1 \<and>
    flashcache_reclaim_remove_block_from_list (s * assoc d + y) d1 = Some d2 \<and>
    lru_step s d q d2 (q(w := remove1 x (q w), \<not> w := remove1 y (q (\<not> w)))) \<and> same_flags d d2"
proof -
  define q1 where "q1 = q(w := remove1 x (q w))"
  from lru_remove_step [OF inv g x] obtain d1 where
    1: "flashcache_reclaim_remove_block_from_list (s * assoc d + x) d = Some d1"
      "lru_step s d q d1 q1" "same_flags d d1" unfolding q1_def by blast
  note s1 = lru_stepD [OF 1(2)]
  have q1: "q1 (\<not> w) = q (\<not> w)" by (simp add: q1_def)
  from lru_remove_step [OF s1(2) s1(5) [OF g], of y "\<not> w"] y obtain d2 where
    2: "flashcache_reclaim_remove_block_from_list (s * assoc d + y) d1 = Some d2"
      "lru_step s d1 q1 d2 (q1(\<not> w := remove1 y (q (\<not> w))))" "same_flags d1 d2"
    by (auto simp: s1(4) q1)
  then show ?thesis
    using 1 lru_step_trans [OF 1(2) 2(2)] unfolding q1_def by (auto simp: same_flags_def)
qed

text \<open>A block off the lists is given the flag \<open>flag_of v\<close> and put on the list of that flag.\<close>

lemma lru_reflag_add:
  assumes inv: "lru_inv d s q" and g: "geometry d" and x: "x < assoc d" "\<And>w. x \<notin> set (q w)"
    and f: "blk_lru_only (blk d s x) (f (blk d s x))"
      "lru_state (f (blk d s x)) = flag_of v" "use_cnt (f (blk d s x)) = 0"
  shows "\<exists>d'. flashcache_reclaim_add_block_to_list_lru (s * assoc d + x) (upd_blk (s * assoc d + x) f d) = Some d' \<and>
      lru_step s d q d' (q(v := x # q v)) \<and> (\<forall>i. i \<noteq> s * assoc d + x \<longrightarrow> lru_state (cache d' i) = lru_state (cache d i))"
    and "\<exists>d'. flashcache_reclaim_add_block_to_list_mru (s * assoc d + x) (upd_blk (s * assoc d + x) f d) = Some d' \<and>
      lru_step s d q d' (q(v := q v @ [x])) \<and> (\<forall>i. i \<noteq> s * assoc d + x \<longrightarrow> lru_state (cache d' i) = lru_state (cache d i))"
proof -
  let ?d = "upd_blk (s * assoc d + x) f d"
  note u = lru_reflag_step [OF inv x, of f, OF f(1)]
  note su = lru_stepD [OF u]
  have pre: "x < assoc ?d" "x \<notin> set (q v)" "lru_state (blk ?d s x) = flag_of v"
    "\<not> v \<Longrightarrow> use_cnt (blk ?d s x) = 0"
    using x f by simp_all
  show "\<exists>d'. flashcache_reclaim_add_block_to_list_lru (s * assoc d + x) ?d = Some d' \<and>
      lru_step s d q d' (q(v := x # q v)) \<and> (\<forall>i. i \<noteq> s * assoc d + x \<longrightarrow> lru_state (cache d' i) = lru_state (cache d i))"
    using lru_add_lru_step [OF su(2) su(5) [OF g] pre] lru_step_trans [OF u] by (force simp: same_flags_def)
  show "\<exists>d'. flashcache_reclaim_add_block_to_list_mru (s * assoc d + x) ?d = Some d' \<and>
      lru_step s d q d' (q(v := q v @ [x])) \<and> (\<forall>i. i \<noteq> s * assoc d + x \<longrightarrow> lru_state (cache d' i) = lru_state (cache d i))"
    using lru_add_mru_step [OF su(2) su(5) [OF g] pre] lru_step_trans [OF u] by (force simp: same_flags_def)
qed

lemma lru_step_bump:
  assumes "lru_step s d q d' q'"
  shows "lru_step s d q (bump lru_promotions_update d') q'" "lru_step s d q (bump lru_demotions_update d') q'"
proof -
  have "lru_inv (bump f d') s q'" "balanced d q (bump f d') q'" for f
    using assms unfolding lru_step_def lru_inv_def lru_list_def balanced_def by simp_all
  then show "lru_step s d q (bump lru_promotions_update d') q'" "lru_step s d q (bump lru_demotions_update d') q'"
    using assms lru_frame_trans [OF _ lru_frame_bump(1)] lru_frame_trans [OF _ lru_frame_bump(2)]
    unfolding lru_step_def by blast+
qed

lemma lru_promote:
  assumes inv: "lru_inv d s q" and g: "geometry d" and x: "x \<in> set (q True)"
  shows "q False = [] \<Longrightarrow> flashcache_reclaim_promote_block (s * assoc d + x) d = Some (False, d)"
    and "q False = h # hs \<Longrightarrow>
      \<exists>d'. flashcache_reclaim_promote_block (s * assoc d + x) d = Some (True, d') \<and>
        lru_step s d q d' (q(True := remove1 x (q True) @ [h], False := x # hs))"
proof -
  note l = lru_listD [OF inv]
  have hd: "hotlist_lru_head (cache_sets d s) = hd_or FLASHCACHE_NULL (q False)"
    and nn: "FLASHCACHE_NULL \<notin> set (q False)"
    using dll_head [OF l(1) [of False]] dll_null [OF l(1) [of False]] by (simp_all add: list_head_def)
  have xw: "x < assoc d" "lru_state (blk d s x) = flag_of True" using l(3,4) [OF x] .
  show "flashcache_reclaim_promote_block (s * assoc d + x) d = Some (False, d)" if "q False = []"
    using that hd xw by (simp add: flashcache_reclaim_promote_block_def Let_def)
  show "\<exists>d'. flashcache_reclaim_promote_block (s * assoc d + x) d = Some (True, d') \<and>
        lru_step s d q d' (q(True := remove1 x (q True) @ [h], False := x # hs))" if qf: "q False = h # hs"
  proof -
    have h: "h \<in> set (q (\<not> True))" "h < assoc d" "h \<noteq> x"
      using qf l(3) [of h False] lru_other_list [OF inv x, of False] by auto
    have dist: "h \<notin> set hs" using l(6) [of False] qf by simp
    define q2 where "q2 = q(True := remove1 x (q True), False := hs)"
    from lru_take_two [OF inv g x h(1)] qf obtain d1 d2 where
      1: "flashcache_reclaim_remove_block_from_list (s * assoc d + x) d = Some d1"
        "flashcache_reclaim_remove_block_from_list (s * assoc d + h) d1 = Some d2"
        "lru_step s d q d2 q2" "same_flags d d2" unfolding q2_def by auto
    note s2 = lru_stepD [OF 1(3)] and fl = same_flags_D [OF 1(4)]
    have off: "x \<notin> set (q2 w)" "h \<notin> set (q2 w)" for w
      using not_in_removed [OF inv, of x True] lru_other_list [OF inv x, of False] qf h dist
        lru_other_list [OF inv h(1), of True] set_remove1_subset [of x "q True"]
      by (cases w; auto simp: q2_def)+
    have x2: "x < assoc d2" "lru_state (blk d2 s x) = flag_of True"
      and h2: "h < assoc d2" "lru_state (blk d2 s h) = flag_of False"
      using xw h l(4) [OF h(1)] s2(4) fl by simp_all
    define q3 where "q3 = q2(False := x # hs)"
    have q2f: "q2 False = hs" by (simp add: q2_def)
    from lru_reflag_add(1) [OF s2(2) s2(5) [OF g] x2(1) off(1), of to_hot False] swap_flags [OF x2(2)]
    obtain d3 where
      3: "flashcache_reclaim_add_block_to_list_lru (s * assoc d + x) (upd_blk (s * assoc d + x) to_hot d2) = Some d3"
        "lru_step s d2 q2 d3 q3"
        "\<And>i. i \<noteq> s * assoc d + x \<Longrightarrow> lru_state (cache d3 i) = lru_state (cache d2 i)"
      unfolding q3_def by (auto simp: s2(4) q2f)
    note s3 = lru_stepD [OF 3(2)]
    have off3: "h \<notin> set (q3 w)" for w
      using off(2) [of w] h(3) q2f by (auto simp: q3_def)
    have h3: "h < assoc d3" "lru_state (blk d3 s h) = flag_of False"
      using h h2 s2(4) s3(4) 3(3) [of "s * assoc d + h"] by simp_all
    from lru_reflag_add(2) [OF s3(2) s3(5) [OF s2(5) [OF g]] h3(1) off3, of to_warm True] swap_flags [OF h3(2)]
    obtain d4 where
      4: "flashcache_reclaim_add_block_to_list_mru (s * assoc d + h) (upd_blk (s * assoc d + h) to_warm d3) = Some d4"
        "lru_step s d3 q3 d4 (q3(True := q3 True @ [h]))"
      by (auto simp: s3(4) s2(4))
    have q4: "q3(True := q3 True @ [h]) = q(True := remove1 x (q True) @ [h], False := x # hs)"
      by (auto simp: q3_def q2_def fun_eq_iff)
    have "flashcache_reclaim_promote_block (s * assoc d + x) d = Some (True, bump lru_promotions_update d4)"
      using 1(1,2) 3(1) 4(1) xw h3(2) hd qf nn s2(4) s3(4)
      by (simp add: flashcache_reclaim_promote_block_def Let_def add.commute [of _ "s * assoc d"])
    then show ?thesis
      using lru_step_bump(1) [OF lru_step_trans [OF lru_step_trans [OF 1(3) 3(2)] 4(2)]] q4 by auto
  qed
qed

lemma lru_demote:
  assumes inv: "lru_inv d s q" and g: "geometry d" and x: "x \<in> set (q False)"
  shows "q True = [] \<Longrightarrow> flashcache_reclaim_demote_block (s * assoc d + x) d = Some (False, d)"
    and "q True = ws @ [t] \<Longrightarrow>
      \<exists>d'. flashcache_reclaim_demote_block (s * assoc d + x) d = Some (True, d') \<and>
        lru_step s d q d' (q(True := ws @ [x], False := t # remove1 x (q False)))"
proof -
  note l = lru_listD [OF inv]
  have hd: "warmlist_lru_tail (cache_sets d s) = last_or FLASHCACHE_NULL (q True)"
    and nn: "FLASHCACHE_NULL \<notin> set (q True)"
    using dll_tail [OF l(1) [of True]] dll_null [OF l(1) [of True]] by (simp_all add: list_tail_def)
  have xw: "x < assoc d" "lru_state (blk d s x) = flag_of False" using l(3,4) [OF x] .
  show "flashcache_reclaim_demote_block (s * assoc d + x) d = Some (False, d)" if "q True = []"
    using that hd xw by (simp add: flashcache_reclaim_demote_block_def Let_def)
  show "\<exists>d'. flashcache_reclaim_demote_block (s * assoc d + x) d = Some (True, d') \<and>
        lru_step s d q d' (q(True := ws @ [x], False := t # remove1 x (q False)))" if qt: "q True = ws @ [t]"
  proof -
    have h: "t \<in> set (q (\<not> False))" "t < assoc d" "t \<noteq> x"
      using qt l(3) [of t True] lru_other_list [OF inv x, of True] by auto
    have dist: "t \<notin> set ws" using l(6) [of True] qt by simp
    define q2 where "q2 = q(False := remove1 x (q False), True := ws)"
    from lru_take_two [OF inv g x h(1)] qt dist obtain d1 d2 where
      1: "flashcache_reclaim_remove_block_from_list (s * assoc d + x) d = Some d1"
        "flashcache_reclaim_remove_block_from_list (s * assoc d + t) d1 = Some d2"
        "lru_step s d q d2 q2" "same_flags d d2" unfolding q2_def by (auto simp: remove1_append)
    note s2 = lru_stepD [OF 1(3)] and fl = same_flags_D [OF 1(4)]
    have off: "x \<notin> set (q2 w)" "t \<notin> set (q2 w)" for w
      using not_in_removed [OF inv, of x False] lru_other_list [OF inv x, of True] qt h dist
        lru_other_list [OF inv h(1), of False] set_remove1_subset [of x "q False"]
      by (cases w; auto simp: q2_def)+
    have x2: "x < assoc d2" "lru_state (blk d2 s x) = flag_of False"
      and h2: "t < assoc d2" "lru_state (blk d2 s t) = flag_of True"
      using xw h l(4) [OF h(1)] s2(4) fl by simp_all
    define q3 where "q3 = q2(True := ws @ [x])"
    have q2f: "q2 True = ws" by (simp add: q2_def)
    from lru_reflag_add(2) [OF s2(2) s2(5) [OF g] x2(1) off(1), of to_warm True] swap_flags [OF x2(2)]
    obtain d3 where
      3: "flashcache_reclaim_add_block_to_list_mru (s * assoc d + x) (upd_blk (s * assoc d + x) to_warm d2) = Some d3"
        "lru_step s d2 q2 d3 q3"
        "\<And>i. i \<noteq> s * assoc d + x \<Longrightarrow> lru_state (cache d3 i) = lru_state (cache d2 i)"
      unfolding q3_def by (auto simp: s2(4) q2f)
    note s3 = lru_stepD [OF 3(2)]
    have off3: "t \<notin> set (q3 w)" for w
      using off(2) [of w] h(3) q2f by (auto simp: q3_def)
    have h3: "t < assoc d3" "lru_state (blk d3 s t) = flag_of True"
      using h h2 s2(4) s3(4) 3(3) [of "s * assoc d + t"] by simp_all
    from lru_reflag_add(1) [OF s3(2) s3(5) [OF s2(5) [OF g]] h3(1) off3, of to_hot False] swap_flags [OF h3(2)]
    obtain d4 where
      4: "flashcache_reclaim_add_block_to_list_lru (s * assoc d + t) (upd_blk (s * assoc d + t) to_hot d3) = Some d4"
        "lru_step s d3 q3 d4 (q3(False := t # q3 False))"
      by (auto simp: s3(4) s2(4))
    have q4: "q3(False := t # q3 False) = q(True := ws @ [x], False := t # remove1 x (q False))"
      by (auto simp: q3_def q2_def fun_eq_iff)
    have "flashcache_reclaim_demote_block (s * assoc d + x) d = Some (True, bump lru_demotions_update d4)"
      using 1(1,2) 3(1) 4(1) xw h3(2) hd qt nn s2(4) s3(4)
      by (simp add: flashcache_reclaim_demote_block_def Let_def add.commute [of _ "s * assoc d"])
    then show ?thesis
      using lru_step_bump(2) [OF lru_step_trans [OF lru_step_trans [OF 1(3) 3(2)] 4(2)]] q4 by auto
  qed
qed

section \<open>Choosing a victim\<close>

text \<open>The abstract policy: which block is taken, and how the two lists change.\<close>

definition old_block_spec ::
  "(nat \<Rightarrow> bool) \<Rightarrow> (bool \<Rightarrow> nat list) \<Rightarrow> nat option \<times> (bool \<Rightarrow> nat list)" where
  "old_block_spec valid q =
     (case find valid (q True) of
        Some x \<Rightarrow> (Some x, q(True := remove1 x (q True) @ [x]))
      | None \<Rightarrow>
         (case find valid (q False) of
            None \<Rightarrow> (None, q)
          | Some x \<Rightarrow>
              if q True = [] then (Some x, q(False := remove1 x (q False) @ [x]))
              else (Some x, q(True := butlast (q True) @ [x],
                              False := last (q True) # remove1 x (q False)))))"

lemma Suc_length_pred: "xs \<noteq> [] \<Longrightarrow> Suc (length xs - Suc 0) = length xs"
  by (cases xs) simp_all

lemma find_SomeD: "find P xs = Some x \<Longrightarrow> x \<in> set xs \<and> P x"
  by (auto simp: find_Some_iff)

lemma lru_find_valid_seg:
  assumes "seg (lnx d s) h xs FLASHCACHE_NULL" and "FLASHCACHE_NULL \<notin> set xs"
  shows "lru_find_valid d (s * assoc d) h =
    Some (map_option (\<lambda>x. s * assoc d + x) (find (\<lambda>x. cache_state (blk d s x) = VALID) xs))"
  using assms
proof (induction xs arbitrary: h)
  case Nil
  then show ?case by (subst lru_find_valid.simps) simp
next
  case (Cons x xs)
  then have "h = x" "x \<noteq> FLASHCACHE_NULL" by auto
  with Cons show ?case
    by (subst lru_find_valid.simps) (auto simp: add.commute [of _ "s * assoc d"])
qed

lemma lru_find_valid_list:
  assumes "lru_inv d s q"
  shows "lru_find_valid d (s * assoc d) (list_head w (cache_sets d s)) =
    Some (map_option (\<lambda>x. s * assoc d + x) (find (\<lambda>x. cache_state (blk d s x) = VALID) (q w)))"
  using lru_listD(1) [OF assms, of w] by (intro lru_find_valid_seg) (auto simp: dll_def)

lemma VALID_not_fallow: "VALID AND FALLOW_DOCLEAN = 0"
  by (simp add: flag_defs)

lemma lru_get_old_block:
  assumes inv: "lru_inv d s q" and g: "geometry d"
  defines "r \<equiv> old_block_spec (\<lambda>x. cache_state (blk d s x) = VALID) q"
  shows "\<exists>d'. flashcache_reclaim_lru_get_old_block (s * assoc d) d =
      Some (map_option (\<lambda>x. s * assoc d + x) (fst r), d') \<and> lru_step s d q d' (snd r)"
proof -
  let ?v = "\<lambda>x. cache_state (blk d s x) = VALID"
  note l = lru_listD [OF inv]
  have a: "0 < assoc d" using g by (simp add: geometry_def)
  have fw: "lru_find_valid d (s * assoc d) (warmlist_lru_head (cache_sets d s)) =
      Some (map_option (\<lambda>x. s * assoc d + x) (find ?v (q True)))"
    and fh: "lru_find_valid d (s * assoc d) (hotlist_lru_head (cache_sets d s)) =
      Some (map_option (\<lambda>x. s * assoc d + x) (find ?v (q False)))"
    using lru_find_valid_list [OF inv, of True] lru_find_valid_list [OF inv, of False]
    by (simp_all add: list_head_def)
  note defs = flashcache_reclaim_lru_get_old_block_def Let_def fw fh r_def old_block_spec_def
  show ?thesis
  proof (cases "find ?v (q True)")
    case (Some x)
    note x = find_SomeD [OF Some]
    note u = lru_use_cnt_step [OF inv conjunct1 [OF x], of "\<lambda>_. 0"]
    note su = lru_stepD [OF u]
    from lru_move_to_mru [OF su(2) su(5) [OF g] conjunct1 [OF x]] obtain d1 where
      1: "flashcache_reclaim_move_to_mru (s * assoc d + x) (upd_blk (s * assoc d + x) (\<lambda>b. b\<lparr>use_cnt := 0\<rparr>) d) = Some d1"
        "lru_step s (upd_blk (s * assoc d + x) (\<lambda>b. b\<lparr>use_cnt := 0\<rparr>) d) q d1 (q(True := remove1 x (q True) @ [x]))"
      by (auto simp: su(4))
    from lru_step_trans [OF u 1(2)] show ?thesis
      using 1(1) Some x a l(4) [of x True] by (simp add: defs VALID_not_fallow)
  next
    case None
    note warm_none = None
    show ?thesis
    proof (cases "find ?v (q False)")
      case None
      with warm_none a inv show ?thesis by (simp add: defs lru_step_refl)
    next
      case (Some x)
      note x = find_SomeD [OF Some]
      have xw: "lru_state (blk d s x) = flag_of False" "use_cnt (blk d s x) = 0"
        using l(4) [of x False] l(5) x by auto
      show ?thesis
      proof (cases "q True = []")
        case True
        from lru_move_to_mru [OF inv g conjunct1 [OF x]] lru_demote(1) [OF inv g conjunct1 [OF x] True]
        show ?thesis using Some warm_none x a xw True by (auto simp: defs VALID_not_fallow)
      next
        case False
        then have "q True = butlast (q True) @ [last (q True)]" by simp
        from lru_demote(2) [OF inv g conjunct1 [OF x] this] False
        show ?thesis using Some warm_none x a xw by (auto simp: defs VALID_not_fallow)
      qed
    qed
  qed
qed

text \<open>The chosen block is valid and clean, and no block leaves the lists.\<close>

lemma old_block_spec_sound:
  assumes "distinct (q True)" "distinct (q False)" "set (q True) \<inter> set (q False) = {}"
  shows "fst (old_block_spec P q) = Some x \<Longrightarrow> P x \<and> x \<in> set (q True) \<union> set (q False)"
    and "fst (old_block_spec P q) = None \<longleftrightarrow> (\<forall>x \<in> set (q True) \<union> set (q False). \<not> P x)"
    and "set (snd (old_block_spec P q) True) \<union> set (snd (old_block_spec P q) False) =
      set (q True) \<union> set (q False)"
    and "length (snd (old_block_spec P q) w) = length (q w)"
proof -
  show "P x \<and> x \<in> set (q True) \<union> set (q False)" if "fst (old_block_spec P q) = Some x"
    using that unfolding old_block_spec_def
    by (auto split: option.splits if_splits dest: find_SomeD)
  show "fst (old_block_spec P q) = None \<longleftrightarrow> (\<forall>x \<in> set (q True) \<union> set (q False). \<not> P x)"
    unfolding old_block_spec_def by (auto split: option.splits dest: find_SomeD simp: find_None_iff)
  have "set (q True) = insert (last (q True)) (set (butlast (q True)))" if "q True \<noteq> []"
    using append_butlast_last_id [OF that] by (metis list.simps(15) rotate1.simps(2) set_rotate1)
  then show "set (snd (old_block_spec P q) True) \<union> set (snd (old_block_spec P q) False) =
      set (q True) \<union> set (q False)"
    unfolding old_block_spec_def using assms
    by (auto split: option.splits dest!: find_SomeD simp: set_remove1_eq)
  show "length (snd (old_block_spec P q) w) = length (q w)"
    unfolding old_block_spec_def
    by (auto split: option.splits dest!: find_SomeD simp: length_remove1 Suc_pred Suc_length_pred length_pos_if_in_set
        simp del: length_greater_0_conv)
qed

section \<open>Accesses\<close>

definition access_spec ::
  "cache_c \<Rightarrow> nat \<Rightarrow> nat \<Rightarrow> (bool \<Rightarrow> nat list) \<Rightarrow> (bool \<Rightarrow> nat list)" where
  "access_spec d s x q =
     (if x \<in> set (q False) then q(False := remove1 x (q False) @ [x])
      else if cache_state (blk d s x) = INVALID \<or>
              uint (use_cnt (blk d s x) + 1) < sysctl_lru_promote_thresh (sysctl d) \<or> q False = []
      then q(True := remove1 x (q True) @ [x])
      else q(True := remove1 x (q True) @ [hd (q False)], False := x # tl (q False)))"

lemma lru_accessed:
  assumes inv: "lru_inv d s q" and g: "geometry d" and x: "x \<in> set (q True) \<union> set (q False)"
  shows "\<exists>d'. flashcache_lru_accessed (s * assoc d + x) d = Some d' \<and>
    lru_step s d q d' (access_spec d s x q)"
proof (cases "x \<in> set (q False)")
  case True
  from lru_move_to_mru [OF inv g True] lru_listD(4) [OF inv True] True show ?thesis
    by (auto simp: flashcache_lru_accessed_def access_spec_def)
next
  case False
  with x have xw: "x \<in> set (q True)" by blast
  note st = lru_listD(4) [OF inv xw]
  let ?f = "\<lambda>b. b\<lparr>use_cnt := use_cnt b + 1\<rparr>"
  let ?d = "upd_blk (s * assoc d + x) ?f d"
  note u = lru_use_cnt_step [OF inv xw, of "\<lambda>b. use_cnt b + 1"]
  note su = lru_stepD [OF u]
  have st': "lru_state (blk ?d s x) = flag_of True" using st by simp
  show ?thesis
  proof (cases "cache_state (blk d s x) = INVALID")
    case True
    from lru_move_to_mru [OF inv g xw] st True False show ?thesis
      by (auto simp: flashcache_lru_accessed_def access_spec_def)
  next
    case not_inv: False
    from lru_move_to_mru [OF su(2) su(5) [OF g] xw] obtain d1 where
      1: "flashcache_reclaim_move_to_mru (s * assoc d + x) ?d = Some d1"
        "lru_step s ?d q d1 (q(True := remove1 x (q True) @ [x]))" by (auto simp: su(4))
    note mru = lru_step_trans [OF u 1(2)]
    show ?thesis
    proof (cases "uint (use_cnt (blk d s x) + 1) < sysctl_lru_promote_thresh (sysctl d)")
      case True
      with 1(1) mru st not_inv False show ?thesis
        by (auto simp: flashcache_lru_accessed_def access_spec_def Let_def)
    next
      case thresh: False
      show ?thesis
      proof (cases "q False")
        case Nil
        from lru_promote(1) [OF su(2) su(5) [OF g] xw Nil] 1(1) mru st not_inv thresh Nil show ?thesis
          by (auto simp: flashcache_lru_accessed_def access_spec_def Let_def)
      next
        case (Cons h hs)
        from lru_promote(2) [OF su(2) su(5) [OF g] xw Cons] obtain d2 where
          2: "flashcache_reclaim_promote_block (s * assoc d + x) ?d = Some (True, d2)"
            "lru_step s ?d q d2 (q(True := remove1 x (q True) @ [h], False := x # hs))"
          by (auto simp: su(4))
        from lru_step_trans [OF u 2(2)] 2(1) st not_inv thresh False Cons show ?thesis
          by (auto simp: flashcache_lru_accessed_def access_spec_def Let_def)
      qed
    qed
  qed
qed

lemma access_spec_blocks:
  assumes "x \<in> set (q True) \<union> set (q False)" "distinct (q True)" "distinct (q False)"
    "set (q True) \<inter> set (q False) = {}"
  shows "set (access_spec d s x q True) \<union> set (access_spec d s x q False) = set (q True) \<union> set (q False)"
    and "length (access_spec d s x q w) = length (q w)"
proof -
  have "q False \<noteq> [] \<Longrightarrow> set (q False) = insert (hd (q False)) (set (tl (q False)))"
    by (metis hd_Cons_tl list.simps(15))
  then show "set (access_spec d s x q True) \<union> set (access_spec d s x q False) = set (q True) \<union> set (q False)"
    using assms unfolding access_spec_def by (auto simp: set_remove1_eq)
  show "length (access_spec d s x q w) = length (q w)"
    using assms unfolding access_spec_def
    by (auto simp: length_remove1 Suc_pred Suc_length_pred length_pos_if_in_set simp del: length_greater_0_conv)
qed

section \<open>The FIFO policy\<close>

text \<open>The search visits the slots of the set once, cyclically from \<open>i\<close>.\<close>

lemma fifo_search_sound:
  assumes "lo \<le> i" "i < lo + a"
  shows "\<exists>found j. fifo_search d lo (lo + a) n i = Some (found, j) \<and> lo \<le> j \<and> j < lo + a \<and>
    (case found of Some k \<Rightarrow> k = j \<and> state_of d k = VALID
     | None \<Rightarrow> \<forall>m < n. state_of d (lo + (i - lo + m) mod a) \<noteq> VALID)"
  using assms
proof (induction n arbitrary: i)
  case 0
  then show ?case by simp
next
  case (Suc n)
  define i' where "i' = (if i + 1 = lo + a then lo else i + 1)"
  have i': "lo \<le> i'" "i' < lo + a" using Suc.prems by (auto simp: i'_def)
  have wrap: "(i' - lo + m) mod a = (i - lo + Suc m) mod a" for m
  proof (cases "i + 1 = lo + a")
    case True
    then have "i - lo + Suc m = m + a" using Suc.prems by simp
    with True show ?thesis by (simp only: i'_def) simp
  next
    case False
    then have "i' - lo + m = i - lo + Suc m" using Suc.prems by (simp add: i'_def Suc_diff_le)
    then show ?thesis by simp
  qed
  show ?case
  proof (cases "state_of d i = VALID")
    case True
    with Suc.prems show ?thesis by (simp add: VALID_not_fallow)
  next
    case False
    from Suc.IH [OF i'] obtain found j where
      r: "fifo_search d lo (lo + a) n i' = Some (found, j)" "lo \<le> j" "j < lo + a"
        "case found of Some k \<Rightarrow> k = j \<and> state_of d k = VALID
         | None \<Rightarrow> \<forall>m < n. state_of d (lo + (i' - lo + m) mod a) \<noteq> VALID" by blast
    have "\<forall>m < Suc n. state_of d (lo + (i - lo + m) mod a) \<noteq> VALID"
      if "\<forall>m < n. state_of d (lo + (i' - lo + m) mod a) \<noteq> VALID"
    proof (intro allI impI)
      fix m assume "m < Suc n"
      then show "state_of d (lo + (i - lo + m) mod a) \<noteq> VALID"
        using that False Suc.prems wrap by (cases m) (auto simp: less_diff_conv2)
    qed
    moreover have "fifo_search d lo (lo + a) (Suc n) i = fifo_search d lo (lo + a) n i'"
      using False Suc.prems by (simp add: i'_def)
    ultimately show ?thesis
      using r by (intro exI [of _ found] exI [of _ j]) (auto split: option.splits)
  qed
qed

lemma fifo_get_old_block:
  assumes g: "geometry d" and n: "set_fifo_next (cache_sets d s) div assoc d = s"
  shows "\<exists>found d'. flashcache_reclaim_fifo_get_old_block (s * assoc d) d = Some (found, d') \<and>
    set_fifo_next (cache_sets d' s) div assoc d = s \<and>
    d' = upd_set s (\<lambda>c. c\<lparr>set_fifo_next := set_fifo_next (cache_sets d' s)\<rparr>) d \<and>
    (case found of Some i \<Rightarrow> state_of d i = VALID \<and> i div assoc d = s
     | None \<Rightarrow> \<forall>x < assoc d. state_of d (s * assoc d + x) \<noteq> VALID)"
proof -
  let ?a = "assoc d" and ?i = "set_fifo_next (cache_sets d s)"
  have a: "0 < ?a" using g by (simp add: geometry_def)
  have i: "s * ?a \<le> ?i" "?i < s * ?a + ?a"
    using n a index_split [of ?i ?a] mod_less_divisor [OF a, of ?i] by (metis le_add1, metis add_less_cancel_left)
  from fifo_search_sound [OF i, of d ?a] obtain found j where
    r: "fifo_search d (s * ?a) (s * ?a + ?a) ?a ?i = Some (found, j)" "s * ?a \<le> j" "j < s * ?a + ?a"
      "case found of Some k \<Rightarrow> k = j \<and> state_of d k = VALID
       | None \<Rightarrow> \<forall>m < ?a. state_of d (s * ?a + (?i - s * ?a + m) mod ?a) \<noteq> VALID" by blast
  have in_set: "k div ?a = s" if "s * ?a \<le> k" "k < s * ?a + ?a" for k
    using that a by (metis add.commute div_nat_eqI mult.commute mult_Suc_right)
  define j' where "j' = (if j + 1 = s * ?a + ?a then s * ?a else j + 1)"
  have j': "j' div ?a = s" using r(2,3) a by (intro in_set) (auto simp: j'_def)
  have all: "\<forall>x < ?a. state_of d (s * ?a + x) \<noteq> VALID"
    if "\<forall>m < ?a. state_of d (s * ?a + (?i - s * ?a + m) mod ?a) \<noteq> VALID"
  proof (intro allI impI)
    fix x assume x: "x < ?a"
    define k where "k = ?i - s * ?a"
    have k: "k < ?a" using i by (simp add: k_def less_diff_conv2)
    have "(k + (x + ?a - k) mod ?a) mod ?a = (k + (x + ?a - k)) mod ?a" by (simp add: mod_simps)
    also have "\<dots> = x" using k x by simp
    finally show "state_of d (s * ?a + x) \<noteq> VALID"
      using that [rule_format, of "(x + ?a - k) mod ?a"] a by (simp add: k_def)
  qed
  have "flashcache_reclaim_fifo_get_old_block (s * ?a) d =
      Some (found, upd_set s (\<lambda>c. c\<lparr>set_fifo_next := j'\<rparr>) d)"
    using r(1) a by (simp add: flashcache_reclaim_fifo_get_old_block_def Let_def j'_def)
  then show ?thesis
    using r j' all in_set by (auto split: option.splits)
qed

section \<open>Other sets\<close>

lemma lru_frame_other:
  assumes fr: "lru_frame s d d'" and ne: "t \<noteq> s" and inv: "lru_inv d t q"
  shows "lru_inv d' t q"
proof -
  have b: "cache d' (t * assoc d + x) = cache d (t * assoc d + x)" if "x < assoc d" for x
    using that fr ne unfolding lru_frame_def by simp
  have "lru_list d' t w (q w)" for w
    using inv b lru_listD(3) [OF inv, of _ w] lru_frame_same(1) [OF fr] fr ne
    unfolding lru_inv_def lru_list_def lru_frame_def
    by (subst dll_frame [where nx = "lnx d t" and pv = "lpv d t"]) auto
  then show ?thesis
    using inv b lru_listD(3) [OF inv, of _ False] lru_frame_same(1) [OF fr] unfolding lru_inv_def by simp
qed

text \<open>A loop over the sets, each iteration changing the lists of its own set only.\<close>

definition lru_only :: "cache_c \<Rightarrow> cache_c \<Rightarrow> bool" where
  "lru_only d d' \<longleftrightarrow> same_but_lru d d' \<and> (\<forall>i. blk_lru_only (cache d i) (cache d' i)) \<and>
     (\<forall>t. set_lru_only (cache_sets d t) (cache_sets d' t))"

lemma lru_only_refl [simp]: "lru_only d d"
  by (simp add: lru_only_def)

lemma lru_only_trans: "lru_only a b \<Longrightarrow> lru_only b c \<Longrightarrow> lru_only a c"
  unfolding lru_only_def by (blast intro: same_but_lru_trans blk_lru_only_trans set_lru_only_trans)

lemma lru_frame_only: "lru_frame s d d' \<Longrightarrow> lru_only d d'"
  by (simp add: lru_frame_def lru_only_def)

lemma lru_for_each_set:
  assumes step: "\<And>s e. s \<in> set ss \<Longrightarrow> geometry e \<Longrightarrow> P s e \<Longrightarrow>
      \<exists>e'. f s e = Some e' \<and> lru_frame s e e' \<and> Q s e'"
    and keepP: "\<And>s t e e'. t \<noteq> s \<Longrightarrow> lru_frame s e e' \<Longrightarrow> P t e \<Longrightarrow> P t e'"
    and keepQ: "\<And>s t e e'. t \<noteq> s \<Longrightarrow> lru_frame s e e' \<Longrightarrow> Q t e \<Longrightarrow> Q t e'"
    and "geometry d" "distinct ss" "\<forall>s \<in> set ss. P s d" "\<forall>s \<in> don. Q s d" "don \<inter> set ss = {}"
  shows "\<exists>d'. for_each f ss d = Some d' \<and> (\<forall>s \<in> don \<union> set ss. Q s d') \<and> lru_only d d'"
  using assms(1,4-8)
proof (induction ss arbitrary: d don)
  case Nil
  then show ?case by simp
next
  case (Cons s ss)
  from Cons.prems(1) [of s d] Cons.prems(2,4) obtain d1 where
    1: "f s d = Some d1" "lru_frame s d d1" "Q s d1" by auto
  have P1: "\<forall>t \<in> set ss. P t d1"
    using keepP [OF _ 1(2)] Cons.prems(3,4) by (metis distinct.simps(2) list.set_intros(2))
  have Q1: "\<forall>t \<in> insert s don. Q t d1"
    using keepQ [OF _ 1(2)] Cons.prems(5,6) 1(3) by (metis disjoint_iff insert_iff list.set_intros(1))
  have "\<exists>d'. for_each f ss d1 = Some d' \<and> (\<forall>t \<in> insert s don \<union> set ss. Q t d') \<and> lru_only d1 d'"
    using Cons.prems lru_frame_geometry [OF 1(2)] P1 Q1 by (intro Cons.IH) auto
  then show ?case
    using 1(1) lru_only_trans [OF lru_frame_only [OF 1(2)]] by auto
qed

section \<open>Rebalancing and initialisation\<close>

definition rebalanced :: "bool \<Rightarrow> nat \<Rightarrow> (bool \<Rightarrow> nat list) \<Rightarrow> (bool \<Rightarrow> nat list)" where
  "rebalanced w n q = q(w := drop n (q w), \<not> w := rev (take n (q w)) @ q (\<not> w))"

lemma rebalance_set_step:
  assumes "lru_inv d s q" and "geometry d"
  shows "\<exists>d'. rebalance_set w n s d = Some d' \<and> lru_step s d q d' (rebalanced w n q)"
  using assms
proof (induction n arbitrary: d q)
  case 0
  then show ?case by (simp add: rebalanced_def lru_step_refl)
next
  case (Suc n)
  note inv = Suc.prems(1) and g = Suc.prems(2)
  note l = lru_listD [OF inv]
  show ?case
  proof (cases "q w")
    case Nil
    then have "rebalanced w (Suc n) q = q" by (auto simp: rebalanced_def fun_eq_iff)
    with Nil show ?thesis
      using dll_head [OF l(1) [of w]] lru_step_refl [OF inv] by simp
  next
    case (Cons x xs)
    then have x: "x \<in> set (q w)" and hd: "list_head w (cache_sets d s) = x" "x \<noteq> FLASHCACHE_NULL"
      using dll_head [OF l(1) [of w]] dll_null [OF l(1) [of w]] by auto
    define q1 where "q1 = q(w := xs)"
    from lru_remove_step [OF inv g x] Cons obtain d1 where
      1: "flashcache_reclaim_remove_block_from_list (s * assoc d + x) d = Some d1"
        "lru_step s d q d1 q1" "same_flags d d1" unfolding q1_def by auto
    note s1 = lru_stepD [OF 1(2)]
    have off: "x \<notin> set (q1 v)" for v
      using l(6) [of w] Cons lru_other_list [OF inv x, of v] by (auto simp: q1_def)
    have x1: "x < assoc d1" "lru_state (blk d1 s x) = flag_of w"
      using l(3,4) [OF x] s1(4) same_flags_D [OF 1(3)] by simp_all
    let ?f = "if w then to_hot else to_warm"
    have fl: "blk_lru_only (blk d1 s x) (?f (blk d1 s x))" "lru_state (?f (blk d1 s x)) = flag_of (\<not> w)"
      "use_cnt (?f (blk d1 s x)) = 0"
      using swap_flags [OF x1(2)] by (cases w; simp)+
    define q2 where "q2 = q1(\<not> w := x # q1 (\<not> w))"
    from lru_reflag_add(1) [where q = q1 and f = ?f and v = "\<not> w", OF s1(2) s1(5) [OF g] x1(1) off fl] obtain d2 where
      2: "flashcache_reclaim_add_block_to_list_lru (s * assoc d + x) (upd_blk (s * assoc d + x) ?f d1) = Some d2"
        "lru_step s d1 q1 d2 q2" unfolding q2_def by (auto simp: s1(4))
    note s2 = lru_stepD [OF 2(2)]
    from Suc.IH [OF s2(2) s2(5) [OF s1(5) [OF g]]] obtain d3 where
      3: "rebalance_set w n s d2 = Some d3" "lru_step s d2 q2 d3 (rebalanced w n q2)" by blast
    have "rebalanced w n q2 = rebalanced w (Suc n) q"
      using Cons by (auto simp: rebalanced_def q2_def q1_def fun_eq_iff)
    then show ?thesis
      using 1(1) 2(1) 3(1) hd lru_step_trans [OF lru_step_trans [OF 1(2) 2(2)] 3(2)]
      by (simp add: Let_def add.commute [of _ "s * assoc d"])
  qed
qed

lemma geometry_sets: "geometry d \<Longrightarrow> csize d div 2 ^ assoc_shift d = num_sets d"
  by (simp add: geometry_def)

lemma lru_rebalance:
  assumes g: "geometry d" and inv: "\<forall>s < num_sets d. lru_inv d s (q s)" and pct: "0 \<le> pct" "pct \<le> 100"
  defines "new \<equiv> assoc d * nat pct div 100" and "old \<equiv> assoc d * nat (hot_list_pct d) div 100"
  shows "\<exists>d'. flashcache_reclaim_rebalance_lru pct d = Some (d'\<lparr>hot_list_pct := pct\<rparr>) \<and> lru_only d d' \<and>
    (\<forall>s < num_sets d. lru_inv d' s (rebalanced (old < new) (if old < new then new - old else old - new) (q s)))"
proof -
  let ?w = "old < new" and ?n = "if old < new then new - old else old - new"
  have "\<exists>d'. for_each (rebalance_set ?w ?n) [0..<num_sets d] d = Some d' \<and>
    (\<forall>s \<in> {} \<union> set [0..<num_sets d]. lru_inv d' s (rebalanced ?w ?n (q s))) \<and> lru_only d d'"
  proof (rule lru_for_each_set [where P = "\<lambda>s e. lru_inv e s (q s)"])
    fix s e assume "geometry e" "lru_inv e s (q s)"
    then show "\<exists>e'. rebalance_set ?w ?n s e = Some e' \<and> lru_frame s e e' \<and> lru_inv e' s (rebalanced ?w ?n (q s))"
      using rebalance_set_step [of e s "q s" ?w ?n] unfolding lru_step_def by blast
  qed (use g inv in \<open>auto intro: lru_frame_other\<close>)
  then obtain d' where
    "for_each (rebalance_set ?w ?n) [0..<num_sets d] d = Some d'" "lru_only d d'"
    "\<forall>s < num_sets d. lru_inv d' s (rebalanced ?w ?n (q s))" by auto
  then show ?thesis
    using pct unfolding flashcache_reclaim_rebalance_lru_def geometry_sets [OF g] new_def [symmetric] old_def [symmetric] Let_def
    by (cases ?w) auto
qed

text \<open>Initialisation splits the blocks of a set between the two empty lists.\<close>

definition lru_empty :: "cache_c \<Rightarrow> nat \<Rightarrow> bool" where
  "lru_empty d s \<longleftrightarrow> lru_inv d s (\<lambda>_. []) \<and> (\<forall>x < assoc d. use_cnt (blk d s x) = 0)"

lemma lru_empty_other:
  assumes fr: "lru_frame s d d'" and ne: "t \<noteq> s" and e: "lru_empty d t"
  shows "lru_empty d' t"
proof -
  have "cache d' (t * assoc d + x) = cache d (t * assoc d + x)" if "x < assoc d" for x
    using that fr ne unfolding lru_frame_def by simp
  then show ?thesis
    using e lru_frame_other [OF fr ne] unfolding lru_empty_def lru_frame_same(1) [OF fr] by simp
qed

definition init_lists :: "nat \<Rightarrow> nat \<Rightarrow> bool \<Rightarrow> nat list" where
  "init_lists hot n w = (if w then rev [hot..<n] else rev [0..<hot])"

lemma lru_init_blocks:
  assumes "lru_inv d s q" and "geometry d" and "distinct xs" and "\<forall>x \<in> set xs. x < assoc d"
    and "\<forall>x \<in> set xs. \<forall>v. x \<notin> set (q v)" and "\<forall>x \<in> set xs. use_cnt (blk d s x) = 0"
  shows "\<exists>d'. for_each (\<lambda>j. lru_init_block (flag_of w) (s * assoc d + j)) xs d = Some d' \<and>
    lru_step s d q d' (q(w := rev xs @ q w)) \<and>
    (\<forall>x. x \<notin> set xs \<longrightarrow> use_cnt (blk d' s x) = use_cnt (blk d s x))"
  using assms
proof (induction xs arbitrary: d q)
  case Nil
  then show ?case by (simp add: lru_step_refl)
next
  case (Cons x xs)
  let ?f = "\<lambda>b. b\<lparr>lru_prev := FLASHCACHE_NULL, lru_next := FLASHCACHE_NULL, lru_state := flag_of w\<rparr>"
  let ?d = "upd_blk (s * assoc d + x) ?f d"
  have off: "\<And>v. x \<notin> set (q v)" and x: "x < assoc d" using Cons.prems by auto
  have "blk_lru_only (blk d s x) (?f (blk d s x))" by (simp add: blk_lru_only_def)
  note u = lru_reflag_step [OF Cons.prems(1) x off, of ?f, OF this]
  note su = lru_stepD [OF u]
  have pre: "x < assoc ?d" "x \<notin> set (q w)" "lru_state (blk ?d s x) = flag_of w"
    "\<not> w \<Longrightarrow> use_cnt (blk ?d s x) = 0" using Cons.prems by auto
  define q1 where "q1 = q(w := x # q w)"
  from lru_add_lru_step [OF su(2) su(5) [OF Cons.prems(2)] pre] obtain d1 where
    1: "lru_init_block (flag_of w) (s * assoc d + x) d = Some d1" "lru_step s ?d q d1 q1" "same_flags ?d d1"
    by (auto simp: q1_def lru_init_block_def su(4))
  note s1 = lru_stepD [OF lru_step_trans [OF u 1(2)]]
  have uc: "use_cnt (blk d1 s y) = use_cnt (blk d s y)" for y
    using same_flags_D [OF 1(3)] s1(4) by (simp add: su(4))
  have "\<exists>d'. for_each (\<lambda>j. lru_init_block (flag_of w) (s * assoc d1 + j)) xs d1 = Some d' \<and>
    lru_step s d1 q1 d' (q1(w := rev xs @ q1 w)) \<and>
    (\<forall>y. y \<notin> set xs \<longrightarrow> use_cnt (blk d' s y) = use_cnt (blk d1 s y))"
  proof (rule Cons.IH [OF s1(2) s1(5) [OF Cons.prems(2)]])
    show "\<forall>y \<in> set xs. \<forall>v. y \<notin> set (q1 v)" using Cons.prems by (auto simp: q1_def)
  qed (use s1(4) Cons.prems uc in auto)
  then obtain d' where
    2: "for_each (\<lambda>j. lru_init_block (flag_of w) (s * assoc d + j)) xs d1 = Some d'"
      "lru_step s d1 q1 d' (q(w := rev (x # xs) @ q w))"
      "\<forall>y. y \<notin> set xs \<longrightarrow> use_cnt (blk d' s y) = use_cnt (blk d1 s y)"
    by (auto simp: q1_def s1(4))
  have "lru_step s d q d' (q(w := rev (x # xs) @ q w))"
    by (rule lru_step_trans [OF lru_step_trans [OF u 1(2)] 2(2)])
  moreover have "for_each (\<lambda>j. lru_init_block (flag_of w) (s * assoc d + j)) (x # xs) d = Some d'"
    using 1(1) 2(1) by simp
  moreover have "\<forall>y. y \<notin> set (x # xs) \<longrightarrow> use_cnt (blk d' s y) = use_cnt (blk d s y)"
    using 2(3) uc by simp
  ultimately show ?case by blast
qed

lemma lru_init_set_step:
  assumes e: "lru_empty d s" and g: "geometry d" and hot: "hot \<le> assoc d"
  shows "\<exists>d'. lru_init_set hot s d = Some d' \<and> lru_step s d (\<lambda>_. []) d' (init_lists hot (assoc d))"
proof -
  have inv: "lru_inv d s (\<lambda>_. [])" and uc: "\<forall>x < assoc d. use_cnt (blk d s x) = 0"
    using e by (auto simp: lru_empty_def)
  define q1 where "q1 = (\<lambda>_ :: bool. [] :: nat list)(False := rev [0..<hot])"
  from lru_init_blocks [OF inv g, of "[0..<hot]" False] hot uc obtain d1 where
    1: "for_each (\<lambda>j. lru_init_block LRU_HOT (s * assoc d + j)) [0..<hot] d = Some d1"
      "lru_step s d (\<lambda>_. []) d1 q1"
      "\<And>x. hot \<le> x \<Longrightarrow> use_cnt (blk d1 s x) = use_cnt (blk d s x)"
    by (auto simp: q1_def flag_of_def)
  note s1 = lru_stepD [OF 1(2)]
  from lru_init_blocks [OF s1(2) s1(5) [OF g], of "[hot..<assoc d]" True] uc 1(3) s1(4) obtain d2 where
    2: "for_each (\<lambda>j. lru_init_block LRU_WARM (s * assoc d + j)) [hot..<assoc d] d1 = Some d2"
      "lru_step s d1 q1 d2 (q1(True := rev [hot..<assoc d] @ q1 True))"
    by (auto simp: flag_of_def q1_def)
  have "q1(True := rev [hot..<assoc d] @ q1 True) = init_lists hot (assoc d)"
    by (auto simp: q1_def init_lists_def fun_eq_iff)
  with 1(1) 2 lru_step_trans [OF 1(2) 2(2)] s1(4) show ?thesis
    by (auto simp: lru_init_set_def Let_def)
qed

lemma lru_init_lists:
  assumes g: "geometry d" and e: "\<forall>s < num_sets d. lru_empty d s" and pct: "0 \<le> hot_list_pct d" "hot_list_pct d \<le> 100"
  shows "\<exists>d'. flashcache_reclaim_init_lru_lists d = Some d' \<and> lru_only d d' \<and>
    (\<forall>s < num_sets d. lru_inv d' s (init_lists (assoc d * nat (hot_list_pct d) div 100) (assoc d)))"
proof -
  let ?hot = "assoc d * nat (hot_list_pct d) div 100"
  have "assoc d * nat (hot_list_pct d) \<le> assoc d * 100" using pct by (intro mult_le_mono2) simp
  from div_le_mono [OF this, of 100] have hot: "?hot \<le> assoc d" by simp
  let ?P = "\<lambda>s e. lru_empty e s \<and> assoc e = assoc d"
  have keep: "?P t e'" if "t \<noteq> s" "lru_frame s e e'" "?P t e" for s t e e'
    using that(3) lru_empty_other [OF that(2,1)] lru_frame_same(1) [OF that(2)] by simp
  have "\<exists>d'. for_each (lru_init_set ?hot) [0..<num_sets d] d = Some d' \<and>
    (\<forall>s \<in> {} \<union> set [0..<num_sets d]. lru_inv d' s (init_lists ?hot (assoc d))) \<and> lru_only d d'"
  proof (rule lru_for_each_set [where P = ?P])
    fix s e assume "geometry e" "?P s e"
    then show "\<exists>e'. lru_init_set ?hot s e = Some e' \<and> lru_frame s e e' \<and> lru_inv e' s (init_lists ?hot (assoc d))"
      using lru_init_set_step [of e s ?hot] hot unfolding lru_step_def by auto
  qed (use g e keep in \<open>auto intro: lru_frame_other\<close>)
  then show ?thesis
    unfolding flashcache_reclaim_init_lru_lists_def geometry_sets [OF g] by auto
qed

end
