(* ===== verification/Pending.thy ===== *)
theory Pending
  imports Cache
begin

text \<open>
  The rest of the shared services of \<open>flashcache_subr.c\<close>: job allocation, the queues of I/O
  requests that wait for a busy block, the work queues, new jobs, the latency histogram, the
  completion of a bio and the buffers of the cleaner. Kernel lists that are only pushed, popped
  and walked are HOL lists; allocations take the next outcome of \<open>alloc_script\<close>.
\<close>

section \<open>Operations\<close>

definition flashcache_alloc_cache_job :: "cache_c \<Rightarrow> bool \<times> cache_c" where
  "flashcache_alloc_cache_job d =
     (let ok = alloc_ok d; d = alloc_next d
      in (ok, if ok then d\<lparr>nr_cache_jobs := nr_cache_jobs d + 1\<rparr> else d))"

definition flashcache_free_cache_job :: "cache_c \<Rightarrow> cache_c" where
  "flashcache_free_cache_job d = d\<lparr>nr_cache_jobs := nr_cache_jobs d - 1\<rparr>"

definition flashcache_alloc_pending_job :: "cache_c \<Rightarrow> bool \<times> cache_c" where
  "flashcache_alloc_pending_job d =
     (let ok = alloc_ok d; d = alloc_next d
      in (ok, if ok then d\<lparr>nr_pending_jobs := nr_pending_jobs d + 1\<rparr>
              else bump_error memory_alloc_errors_update d))"

definition flashcache_free_pending_job :: "cache_c \<Rightarrow> cache_c" where
  "flashcache_free_pending_job d = d\<lparr>nr_pending_jobs := nr_pending_jobs d - 1\<rparr>"

definition FLASHCACHE_PENDING_JOB_HASH :: "nat \<Rightarrow> nat" where
  "FLASHCACHE_PENDING_JOB_HASH index = index mod PENDING_JOB_HASH_SIZE"

text \<open>\<open>job\<close> says whether the caller's job pointer is not null. The job goes to the head.\<close>

definition flashcache_enq_pending ::
  "bio \<Rightarrow> nat \<Rightarrow> action \<Rightarrow> bool \<Rightarrow> cache_c \<Rightarrow> cache_c option" where
  "flashcache_enq_pending b index act job d = do {
     let head = FLASHCACHE_PENDING_JOB_HASH index;
     verify job;
     let d = d\<lparr>pending_job_hashbuckets := (pending_job_hashbuckets d)
                 (head := \<lparr>pj_bio = b, pj_action = act, pj_index = index\<rparr> #
                          pending_job_hashbuckets d head),
               pending_jobs_count := pending_jobs_count d + 1\<rparr>;
     let d = upd_blk index (\<lambda>c. c\<lparr>nr_queued := to_s16 (nr_queued c + 1)\<rparr>) d;
     Some (bump enqueues_update d)
   }"

text \<open>
  The loop of \<open>flashcache_deq_pending\<close>: the jobs of the index leave the bucket and are pushed,
  one by one, on the list that is returned.
\<close>

fun deq_loop ::
  "nat \<Rightarrow> pending_job list \<Rightarrow> pending_job list \<Rightarrow> nat \<Rightarrow> pending_job list \<times> pending_job list \<times> nat" where
  "deq_loop index [] movelist moved = ([], movelist, moved)"
| "deq_loop index (node # next) movelist moved =
     (if pj_index node = index then deq_loop index next (node # movelist) (moved + 1)
      else (let (rest, movelist, moved) = deq_loop index next movelist moved
            in (node # rest, movelist, moved)))"

definition flashcache_deq_pending :: "nat \<Rightarrow> cache_c \<Rightarrow> (pending_job list \<times> cache_c) option" where
  "flashcache_deq_pending index d = do {
     let head = FLASHCACHE_PENDING_JOB_HASH index;
     let (rest, movelist, moved) = deq_loop index (pending_job_hashbuckets d head) [] 0;
     verify (pending_jobs_count d \<ge> int moved);
     Some (movelist, d\<lparr>pending_job_hashbuckets := (pending_job_hashbuckets d)(head := rest),
                       pending_jobs_count := pending_jobs_count d - int moved\<rparr>)
   }"

text \<open>The work queues: jobs are added at the tail and taken from the head.\<close>

definition push_pending :: "kcached_job \<Rightarrow> cache_c \<Rightarrow> cache_c" where
  "push_pending job d = d\<lparr>q_pending_jobs := q_pending_jobs d @ [job]\<rparr>"

definition push_io :: "kcached_job \<Rightarrow> cache_c \<Rightarrow> cache_c" where
  "push_io job d = d\<lparr>q_io_jobs := q_io_jobs d @ [job]\<rparr>"

definition push_uncached_io_complete :: "kcached_job \<Rightarrow> cache_c \<Rightarrow> cache_c" where
  "push_uncached_io_complete job d =
     d\<lparr>q_uncached_io_complete_jobs := q_uncached_io_complete_jobs d @ [job]\<rparr>"

definition push_md_io :: "kcached_job \<Rightarrow> cache_c \<Rightarrow> cache_c" where
  "push_md_io job d = d\<lparr>q_md_io_jobs := q_md_io_jobs d @ [job]\<rparr>"

definition push_md_complete :: "kcached_job \<Rightarrow> cache_c \<Rightarrow> cache_c" where
  "push_md_complete job d = d\<lparr>q_md_complete_jobs := q_md_complete_jobs d @ [job]\<rparr>"

definition new_kcached_job :: "bio option \<Rightarrow> nat option \<Rightarrow> cache_c \<Rightarrow> kcached_job option \<times> cache_c" where
  "new_kcached_job b index d =
     (let (ok, d) = flashcache_alloc_cache_job d
      in if \<not> ok then (None, bump_error memory_alloc_errors_update d)
         else (Some
           \<lparr>job_bio = b,
            job_disk = (case index of
                Some i \<Rightarrow> (DiskDev, dbn (cache d i), of_nat (block_size d))
              | None \<Rightarrow> (case b of Some x \<Rightarrow> (DiskDev, bi_sector x, to_sector x) | None \<Rightarrow> (DiskDev, 0, 0))),
            job_cache = (case index of
                Some i \<Rightarrow> (CacheDev, INDEX_TO_CACHE_ADDR d i, of_nat (block_size d))
              | None \<Rightarrow> (CacheDev, 0, 0)),
            job_index = index, job_action = READCACHE, job_error = 0, job_md_block = False,
            job_start_time = (if sysctl_io_latency_hist (sysctl d) \<noteq> 0 then wall_clock (kernel d)
                              else (0, 0))\<rparr>, d))"

text \<open>
  The latency histogram. The quotient of C truncates towards zero; a negative bucket would be
  written outside the array, which the model gives no result (\<open>None\<close>).
\<close>

definition flashcache_record_latency :: "timeval \<Rightarrow> cache_c \<Rightarrow> cache_c option" where
  "flashcache_record_latency start_tv d =
     (let us = (fst (wall_clock (kernel d)) - fst start_tv) * 1000000 +
               (snd (wall_clock (kernel d)) - snd start_tv);
          us = (if us \<ge> 0 then us div IO_LATENCY_GRAN_USECS else - ((- us) div IO_LATENCY_GRAN_USECS))
      in if us < 0 then None
         else if us < IO_LATENCY_BUCKETS
         then Some (d\<lparr>latency_hist := (latency_hist d)(nat us := latency_hist d (nat us) + 1)\<rparr>)
         else Some (d\<lparr>latency_hist_10ms := latency_hist_10ms d + 1\<rparr>))"

definition flashcache_bio_endio :: "bio \<Rightarrow> int \<Rightarrow> timeval option \<Rightarrow> cache_c \<Rightarrow> cache_c option" where
  "flashcache_bio_endio b err start_time d = do {
     d \<leftarrow> (case start_time of
             Some tv \<Rightarrow> if sysctl_io_latency_hist (sysctl d) \<noteq> 0 \<and> fst tv \<noteq> 0
                         then flashcache_record_latency tv d else Some d
           | None \<Rightarrow> Some d);
     Some (d\<lparr>completed := completed d @ [(b, err)]\<rparr>)
   }"

text \<open>The preallocated buffers of the cleaner, by number.\<close>

definition NUM_DISKCLEAN_BLOCKS :: nat where "NUM_DISKCLEAN_BLOCKS = 32"

primrec diskclean_init_loop :: "nat list \<Rightarrow> cache_c \<Rightarrow> bool \<times> cache_c" where
  "diskclean_init_loop [] d = (True, d)"
| "diskclean_init_loop (i # is) d =
     (if alloc_ok d
      then diskclean_init_loop is ((alloc_next d)\<lparr>diskclean_bufs := i # diskclean_bufs d\<rparr>)
      else (False, (alloc_next d)\<lparr>diskclean_bufs := []\<rparr>))"

definition flashcache_diskclean_init :: "cache_c \<Rightarrow> int \<times> cache_c" where
  "flashcache_diskclean_init d =
     (let (ok, d) = diskclean_init_loop [0..<NUM_DISKCLEAN_BLOCKS] (d\<lparr>diskclean_bufs := []\<rparr>)
      in (if ok then 0 else 1, d))"

definition flashcache_diskclean_destroy :: "cache_c \<Rightarrow> cache_c" where
  "flashcache_diskclean_destroy d = d\<lparr>diskclean_bufs := []\<rparr>"

definition flashcache_diskclean_alloc :: "cache_c \<Rightarrow> (nat \<times> nat) option \<times> cache_c" where
  "flashcache_diskclean_alloc d =
     (case diskclean_bufs d of
        b1 # b2 # bs \<Rightarrow> (Some (b1, b2), d\<lparr>diskclean_bufs := bs\<rparr>)
      | _ \<Rightarrow> (None, d))"

definition flashcache_diskclean_free :: "nat \<Rightarrow> nat \<Rightarrow> cache_c \<Rightarrow> cache_c" where
  "flashcache_diskclean_free buf1 buf2 d = d\<lparr>diskclean_bufs := buf2 # buf1 # diskclean_bufs d\<rparr>"

section \<open>The pending queues\<close>

text \<open>
  The requests that wait for a block, oldest first, and the invariant: a job is in the bucket of
  its index, and the counter is the number of queued jobs.
\<close>

definition pending_of :: "cache_c \<Rightarrow> nat \<Rightarrow> pending_job list" where
  "pending_of d i =
     rev (filter (\<lambda>j. pj_index j = i) (pending_job_hashbuckets d (FLASHCACHE_PENDING_JOB_HASH i)))"

definition pending_inv :: "cache_c \<Rightarrow> bool" where
  "pending_inv d \<longleftrightarrow>
     (\<forall>b. \<forall>j \<in> set (pending_job_hashbuckets d b). FLASHCACHE_PENDING_JOB_HASH (pj_index j) = b) \<and>
     pending_jobs_count d = (\<Sum>b < PENDING_JOB_HASH_SIZE. int (length (pending_job_hashbuckets d b)))"

lemma deq_loop_eq:
  "deq_loop i q ml n =
     (filter (\<lambda>j. pj_index j \<noteq> i) q, rev (filter (\<lambda>j. pj_index j = i) q) @ ml,
      n + length (filter (\<lambda>j. pj_index j = i) q))"
  by (induction i q ml n rule: deq_loop.induct) auto

lemma pending_hash_less [simp]: "FLASHCACHE_PENDING_JOB_HASH i < PENDING_JOB_HASH_SIZE"
  by (simp add: FLASHCACHE_PENDING_JOB_HASH_def PENDING_JOB_HASH_SIZE_def)

definition total_pending :: "(nat \<Rightarrow> pending_job list) \<Rightarrow> int" where
  "total_pending q = (\<Sum>b < PENDING_JOB_HASH_SIZE. int (length (q b)))"

lemma total_pending_upd:
  assumes "h < PENDING_JOB_HASH_SIZE"
  shows "total_pending (q(h := xs)) = total_pending q - int (length (q h)) + int (length xs)"
  unfolding total_pending_def using assms
  by (subst (1 2) sum.remove [of _ h]) (auto intro: sum.cong)

lemma pending_inv_alt:
  "pending_inv d \<longleftrightarrow>
     (\<forall>b. \<forall>j \<in> set (pending_job_hashbuckets d b). FLASHCACHE_PENDING_JOB_HASH (pj_index j) = b) \<and>
     pending_jobs_count d = total_pending (pending_job_hashbuckets d)"
  by (simp add: pending_inv_def total_pending_def)

lemma enq_pending:
  assumes "pending_inv d"
  shows "\<exists>d'. flashcache_enq_pending b i act True d = Some d' \<and> pending_inv d' \<and>
    pending_of d' i = pending_of d i @ [\<lparr>pj_bio = b, pj_action = act, pj_index = i\<rparr>] \<and>
    (\<forall>k. k \<noteq> i \<longrightarrow> pending_of d' k = pending_of d k) \<and>
    cache d' = (cache d)(i := (cache d i)\<lparr>nr_queued := to_s16 (nr_queued (cache d i) + 1)\<rparr>)"
proof -
  let ?h = "FLASHCACHE_PENDING_JOB_HASH i" and ?j = "\<lparr>pj_bio = b, pj_action = act, pj_index = i\<rparr>"
  let ?q = "pending_job_hashbuckets d"
  define d1 where "d1 = d\<lparr>pending_job_hashbuckets := ?q(?h := ?j # ?q ?h),
    pending_jobs_count := pending_jobs_count d + 1\<rparr>"
  define d' where "d' = bump enqueues_update
    (upd_blk i (\<lambda>c. c\<lparr>nr_queued := to_s16 (nr_queued c + 1)\<rparr>) d1)"
  have "flashcache_enq_pending b i act True d = Some d'"
    by (simp add: flashcache_enq_pending_def Let_def d1_def d'_def)
  moreover have "pending_inv d'"
    using assms unfolding pending_inv_alt
    by (auto simp: d'_def d1_def total_pending_upd)
  moreover have "pending_of d' k = (if k = i then pending_of d i @ [?j] else pending_of d k)" for k
    by (auto simp: pending_of_def d'_def d1_def)
  ultimately show ?thesis by (auto simp: d'_def d1_def)
qed

lemma deq_pending:
  assumes "pending_inv d"
  shows "\<exists>d'. flashcache_deq_pending i d = Some (pending_of d i, d') \<and> pending_inv d' \<and>
    pending_of d' i = [] \<and> (\<forall>k. k \<noteq> i \<longrightarrow> pending_of d' k = pending_of d k) \<and> cache d' = cache d"
proof -
  let ?h = "FLASHCACHE_PENDING_JOB_HASH i" and ?q = "pending_job_hashbuckets d"
  let ?m = "filter (\<lambda>j. pj_index j = i) (?q ?h)" and ?r = "filter (\<lambda>j. pj_index j \<noteq> i) (?q ?h)"
  have len: "length (?q ?h) = length ?m + length ?r"
    using sum_length_filter_compl [of "\<lambda>j. pj_index j = i" "?q ?h"] by simp
  have "int (length (?q ?h)) \<le> total_pending ?q"
    unfolding total_pending_def by (rule member_le_sum) auto
  with len assms have le: "int (length ?m) \<le> pending_jobs_count d"
    by (simp add: pending_inv_alt)
  define d' where "d' = d\<lparr>pending_job_hashbuckets := ?q(?h := ?r),
    pending_jobs_count := pending_jobs_count d - int (length ?m)\<rparr>"
  have "flashcache_deq_pending i d = Some (pending_of d i, d')"
    using le by (simp add: flashcache_deq_pending_def Let_def deq_loop_eq pending_of_def d'_def)
  moreover have "pending_inv d'"
    using assms len unfolding pending_inv_alt by (auto simp: d'_def total_pending_upd)
  moreover have "pending_of d' k = (if k = i then [] else pending_of d k)" for k
    by (auto simp: pending_of_def d'_def filter_empty_conv intro: filter_cong)
  ultimately show ?thesis by (auto simp: d'_def)
qed

end
