(* ===== verification/Lookup.thy ===== *)
theory Lookup
  imports Reclaim Pending
begin

text \<open>
  The search for a block in \<open>flashcache_main.c\<close>: the two bits that mark dirty blocks lying
  fallow, the search of the hash, of the invalid list and of the replacement policy, and
  \<open>flashcache_lookup\<close>, which combines them.
\<close>

section \<open>Operations\<close>

text \<open>Fault injection: a set flag of \<open>sysctl_error_inject\<close> fires once.\<close>

definition READDISK_ERROR :: "32 word" where "READDISK_ERROR = 0x00000001"
definition READCACHE_ERROR :: "32 word" where "READCACHE_ERROR = 0x00000002"
definition READFILL_ERROR :: "32 word" where "READFILL_ERROR = 0x00000004"
definition WRITECACHE_ERROR :: "32 word" where "WRITECACHE_ERROR = 0x00000008"
definition WRITECACHE_MD_ERROR :: "32 word" where "WRITECACHE_MD_ERROR = 0x00000010"
definition WRITEDISK_MD_ERROR :: "32 word" where "WRITEDISK_MD_ERROR = 0x00000020"
definition KCOPYD_CALLBACK_ERROR :: "32 word" where "KCOPYD_CALLBACK_ERROR = 0x00000040"
definition DIRTY_WRITEBACK_JOB_ALLOC_FAIL :: "32 word" where
  "DIRTY_WRITEBACK_JOB_ALLOC_FAIL = 0x00000080"
definition READ_MISS_JOB_ALLOC_FAIL :: "32 word" where "READ_MISS_JOB_ALLOC_FAIL = 0x00000100"
definition READ_HIT_JOB_ALLOC_FAIL :: "32 word" where "READ_HIT_JOB_ALLOC_FAIL = 0x00000200"
definition READ_HIT_PENDING_JOB_ALLOC_FAIL :: "32 word" where
  "READ_HIT_PENDING_JOB_ALLOC_FAIL = 0x00000400"
definition INVAL_PENDING_JOB_ALLOC_FAIL :: "32 word" where
  "INVAL_PENDING_JOB_ALLOC_FAIL = 0x00000800"
definition WRITE_HIT_JOB_ALLOC_FAIL :: "32 word" where "WRITE_HIT_JOB_ALLOC_FAIL = 0x00001000"
definition WRITE_HIT_PENDING_JOB_ALLOC_FAIL :: "32 word" where
  "WRITE_HIT_PENDING_JOB_ALLOC_FAIL = 0x00002000"
definition WRITE_MISS_JOB_ALLOC_FAIL :: "32 word" where "WRITE_MISS_JOB_ALLOC_FAIL = 0x00004000"
definition MD_ALLOC_SECTOR_ERROR :: "32 word" where "MD_ALLOC_SECTOR_ERROR = 0x00010000"

definition inject :: "32 word \<Rightarrow> cache_c \<Rightarrow> bool \<times> cache_c" where
  "inject flag d =
     (if sysctl_error_inject (sysctl d) AND flag \<noteq> 0
      then (True, sysctl_update (sysctl_error_inject_update (\<lambda>v. v AND NOT flag)) d)
      else (False, d))"

text \<open>Dirty blocks that lie fallow.\<close>

definition flashcache_detect_fallow :: "nat \<Rightarrow> cache_c \<Rightarrow> cache_c" where
  "flashcache_detect_fallow index d =
     (if mode d \<noteq> FLASHCACHE_WRITE_BACK then d
      else if state_of d index AND DIRTY \<noteq> 0 \<and> state_of d index AND BLOCK_IO_INPROG = 0
      then (if state_of d index AND DIRTY_FALLOW_1 = 0
            then set_state index (state_of d index OR DIRTY_FALLOW_1) d
            else if state_of d index AND DIRTY_FALLOW_2 = 0
            then set_state index (state_of d index OR DIRTY_FALLOW_2)
                   (upd_set (index div assoc d) (\<lambda>c. c\<lparr>dirty_fallow := inc16 (dirty_fallow c)\<rparr>) d)
            else d)
      else d)"

definition flashcache_clear_fallow :: "nat \<Rightarrow> cache_c \<Rightarrow> cache_c option" where
  "flashcache_clear_fallow index d =
     (if mode d \<noteq> FLASHCACHE_WRITE_BACK then Some d
      else if state_of d index AND FALLOW_DOCLEAN \<noteq> 0
      then do {
        let cset = index div assoc d;
        d \<leftarrow> (if state_of d index AND DIRTY_FALLOW_2 \<noteq> 0
              then do {
                verify (dirty_fallow (cache_sets d cset) > 0);
                Some (upd_set cset (\<lambda>c. c\<lparr>dirty_fallow := dirty_fallow c - 1\<rparr>) d)
              }
              else Some d);
        Some (set_state index (state_of d index AND NOT FALLOW_DOCLEAN) d)
      }
      else Some d)"

definition find_valid_dbn :: "sector \<Rightarrow> nat \<Rightarrow> cache_c \<Rightarrow> (nat option \<times> cache_c) option" where
  "find_valid_dbn k start_index d = do {
     index \<leftarrow> flashcache_hash_lookup d (start_index div assoc d) k;
     case index of
       None \<Rightarrow> Some (None, d)
     | Some i \<Rightarrow> do {
         d \<leftarrow> (if sysctl_reclaim_policy (sysctl d) = FLASHCACHE_LRU \<and>
                  state_of d i AND BLOCK_IO_INPROG = 0
               then flashcache_lru_accessed i d else Some d);
         d \<leftarrow> flashcache_clear_fallow i d;
         Some (Some i, d)
       }
   }"

definition find_invalid_dbn :: "nat \<Rightarrow> cache_c \<Rightarrow> (nat option \<times> cache_c) option" where
  "find_invalid_dbn cset d = do {
     (index, d) \<leftarrow> flashcache_invalid_get cset d;
     case index of
       None \<Rightarrow> Some (None, d)
     | Some i \<Rightarrow> do {
         d \<leftarrow> (if sysctl_reclaim_policy (sysctl d) = FLASHCACHE_LRU
               then flashcache_lru_accessed i d else Some d);
         verify (state_of d i AND FALLOW_DOCLEAN = 0);
         Some (Some i, d)
       }
   }"

definition find_reclaim_dbn :: "nat \<Rightarrow> cache_c \<Rightarrow> (nat option \<times> cache_c) option" where
  "find_reclaim_dbn start_index d =
     (if sysctl_reclaim_policy (sysctl d) = FLASHCACHE_FIFO
      then flashcache_reclaim_fifo_get_old_block start_index d
      else flashcache_reclaim_lru_get_old_block start_index d)"

text \<open>
  The result of \<open>flashcache_lookup\<close>: \<open>Hit i\<close> for the return value \<open>VALID\<close>, \<open>Victim i\<close> for
  \<open>INVALID\<close> (a block to recycle) and \<open>Noroom\<close> for \<open>-1\<close>.
\<close>

datatype lookup_result = Hit nat | Victim nat | Noroom

definition flashcache_lookup :: "bio \<Rightarrow> cache_c \<Rightarrow> (lookup_result \<times> cache_c) option" where
  "flashcache_lookup b d = do {
     let k = bi_sector b;
     let set_number = hash_block d k;
     let start_index = assoc d * set_number;
     (index, d) \<leftarrow> find_valid_dbn k start_index d;
     case index of
       Some i \<Rightarrow> Some (Hit i, d)
     | None \<Rightarrow> do {
         (invalid, d) \<leftarrow> find_invalid_dbn set_number d;
         case invalid of
           Some i \<Rightarrow> Some (Victim i, d)
         | None \<Rightarrow> do {
             (oldest_clean, d) \<leftarrow> find_reclaim_dbn start_index d;
             case oldest_clean of
               Some i \<Rightarrow> Some (Victim i, d)
             | None \<Rightarrow> Some (Noroom, bump noroom_update d)
           }
       }
   }"

end
