(* ===== verification/Clean.thy ===== *)
theory Clean
  imports Lookup
begin

text \<open>
  Cleaning: failing the requests queued on a block, writing a dirty block back to disk, merging
  the writes of contiguous dirty blocks, cleaning a set and syncing the whole cache
  (\<open>flashcache_main.c\<close>, \<open>flashcache_merge_writes\<close> of \<open>flashcache_subr.c\<close>). An asynchronous
  I/O is a request appended to \<open>io_inflight\<close>. The code drops the set locks around some calls;
  here an operation runs without interleaving.
\<close>

definition submit_io ::
  "io_notify \<Rightarrow> bool \<Rightarrow> region list \<Rightarrow> md_slot list \<Rightarrow> kcached_job \<Rightarrow> cache_c \<Rightarrow> cache_c" where
  "submit_io fn write regions md job d =
     d\<lparr>io_inflight := io_inflight d @
         [\<lparr>io_fn = fn, io_write = write, io_regions = regions, io_md = md, io_job = job\<rparr>]\<rparr>"

section \<open>Failing the queued requests of a block\<close>

definition free_pending_one :: "nat \<Rightarrow> int \<Rightarrow> pending_job \<Rightarrow> cache_c \<Rightarrow> cache_c option" where
  "free_pending_one index err pending_job d = do {
     verify (nr_queued (cache d index) > 0);
     let d = upd_blk index (\<lambda>b. b\<lparr>nr_queued := nr_queued b - 1\<rparr>) d;
     d \<leftarrow> flashcache_bio_endio (pj_bio pending_job) err None d;
     Some (flashcache_free_pending_job d)
   }"

definition flashcache_free_pending_jobs :: "nat \<Rightarrow> int \<Rightarrow> cache_c \<Rightarrow> cache_c option" where
  "flashcache_free_pending_jobs index err d = do {
     (freelist, d) \<leftarrow> flashcache_deq_pending index d;
     d \<leftarrow> for_each (free_pending_one index err) freelist d;
     verify (nr_queued (cache d index) = 0);
     Some d
   }"

section \<open>Writing a dirty block back\<close>

text \<open>The failure path shared by both forms of the write back.\<close>

definition writeback_failed :: "nat \<Rightarrow> cache_c \<Rightarrow> cache_c option" where
  "writeback_failed index d = do {
     let cset = index div assoc d;
     let d = upd_set cset (\<lambda>c. c\<lparr>set_clean_inprog := dec16 (set_clean_inprog c)\<rparr>) d;
     let d = d\<lparr>clean_inprog := clean_inprog d - 1\<rparr>;
     d \<leftarrow> flashcache_free_pending_jobs index (- EIO) d;
     Some (set_state index (state_of d index AND NOT BLOCK_IO_INPROG) d)
   }"

definition start_writeback :: "nat \<Rightarrow> cache_c \<Rightarrow> cache_c option" where
  "start_writeback index d = do {
     let cset = index div assoc d;
     verify (state_of d index AND BLOCK_IO_INPROG = DISKWRITEINPROG);
     verify (state_of d index AND DIRTY \<noteq> 0);
     let d = upd_set cset (\<lambda>c. c\<lparr>set_clean_inprog := inc16 (set_clean_inprog c)\<rparr>) d;
     Some (d\<lparr>clean_inprog := clean_inprog d + 1\<rparr>)
   }"

definition launch_writeback :: "io_notify \<Rightarrow> action \<Rightarrow> kcached_job \<Rightarrow> cache_c \<Rightarrow> cache_c" where
  "launch_writeback fn act job d =
     (let job = job\<lparr>job_bio := None, job_action := act\<rparr>;
          d = d\<lparr>nr_jobs := nr_jobs d + 1\<rparr>;
          d = bump ssd_reads_update d;
          d = bump disk_writes_update d
      in submit_io fn True [job_cache job, job_disk job] [] job d)"

definition flashcache_dirty_writeback :: "nat \<Rightarrow> cache_c \<Rightarrow> cache_c option" where
  "flashcache_dirty_writeback index d = do {
     d \<leftarrow> start_writeback index d;
     let (job, d) = new_kcached_job None (Some index) d;
     let (injected, d) = inject DIRTY_WRITEBACK_JOB_ALLOC_FAIL d;
     let (job, d) = (if injected
        then (None, if job \<noteq> None then flashcache_free_cache_job d else d) else (job, d));
     let (job, d) = (if remove_in_prog d \<noteq> 0
        then (None, if job \<noteq> None then flashcache_free_cache_job d else d) else (job, d));
     case job of
       None \<Rightarrow> writeback_failed index d
     | Some job \<Rightarrow> Some (launch_writeback Kcopyd_callback WRITEDISK job d)
   }"

definition flashcache_dirty_writeback_sync :: "nat \<Rightarrow> cache_c \<Rightarrow> cache_c option" where
  "flashcache_dirty_writeback_sync index d = do {
     verify (state_of d index AND FALLOW_DOCLEAN = 0);
     d \<leftarrow> start_writeback index d;
     let (job, d) = new_kcached_job None (Some index) d;
     let (job, d) = (if remove_in_prog d = FAST_REMOVE
        then (None, if job \<noteq> None then flashcache_free_cache_job d else d) else (job, d));
     case job of
       None \<Rightarrow> writeback_failed index d
     | Some job \<Rightarrow> Some (launch_writeback Kcopyd_callback_sync WRITEDISK_SYNC job d)
   }"

section \<open>Merging contiguous writes\<close>

text \<open>
  A dirty block that is idle is claimed for a write: marked, made young and added to the list.
\<close>

definition dirty_idle :: "nat \<Rightarrow> cache_c \<Rightarrow> bool" where
  "dirty_idle index d \<longleftrightarrow> state_of d index AND (DIRTY OR BLOCK_IO_INPROG) = DIRTY"

definition claim_block :: "nat \<Rightarrow> cache_c \<Rightarrow> cache_c option" where
  "claim_block index d =
     flashcache_clear_fallow index (set_state index (state_of d index OR DISKWRITEINPROG) d)"

text \<open>The inner loops: look behind (\<open>back\<close>) or ahead as long as there is a dirty neighbour.\<close>

definition neighbor_dbn :: "bool \<Rightarrow> cache_c \<Rightarrow> sector \<Rightarrow> sector" where
  "neighbor_dbn back d k = (if back then k - of_nat (block_size d) else k + of_nat (block_size d))"

partial_function (option) merge_neighbors ::
  "bool \<Rightarrow> nat \<Rightarrow> nat option \<Rightarrow> dbn_index_pair list \<Rightarrow> cache_c \<Rightarrow> (dbn_index_pair list \<times> cache_c) option" where
  "merge_neighbors back cset neighbor wl d =
     (case neighbor of
        None \<Rightarrow> Some (wl, d)
      | Some i \<Rightarrow> do {
          verify (state_of d i AND VALID \<noteq> 0);
          if dirty_idle i d
          then do {
            d \<leftarrow> claim_block i d;
            verify (length wl < assoc d);
            let wl = wl @ [(dbn (cache d i), i)];
            let d = bump (if back then back_merge_update else front_merge_update) d;
            n \<leftarrow> flashcache_hash_lookup d cset (neighbor_dbn back d (dbn (cache d i)));
            merge_neighbors back cset n wl d
          }
          else Some (wl, d)
        })"

declare merge_neighbors.simps [code]

definition merge_one ::
  "nat \<Rightarrow> dbn_index_pair \<Rightarrow> dbn_index_pair list \<times> cache_c \<Rightarrow> (dbn_index_pair list \<times> cache_c) option" where
  "merge_one cset p = (\<lambda>(wl, d). do {
     n \<leftarrow> flashcache_hash_lookup d cset (neighbor_dbn True d (fst p));
     (wl, d) \<leftarrow> merge_neighbors True cset n wl d;
     n \<leftarrow> flashcache_hash_lookup d cset (neighbor_dbn False d (fst p));
     merge_neighbors False cset n wl d
   })"

definition flashcache_merge_writes ::
  "dbn_index_pair list \<Rightarrow> nat \<Rightarrow> cache_c \<Rightarrow> (dbn_index_pair list \<times> cache_c) option" where
  "flashcache_merge_writes wl cset d =
     (if wl = [] then Some (wl, d)
      else do {
        (wl, d) \<leftarrow> for_each (merge_one cset) wl (wl, d);
        Some (sort_dbns (kernel d) wl, d)
      })"

section \<open>Cleaning a set\<close>

definition flashcache_can_clean :: "nat \<Rightarrow> nat \<Rightarrow> cache_c \<Rightarrow> bool" where
  "flashcache_can_clean cset nr_writes d \<longleftrightarrow>
     int (set_clean_inprog (cache_sets d cset)) + int nr_writes < max_clean_ios_set d \<and>
     int nr_writes + clean_inprog d < max_clean_ios_total d"

text \<open>
  The sweep over the fallow blocks. The first component of the result is the \<open>goto out\<close> taken
  when the limits do not allow more writes.
\<close>

primrec clean_fallow ::
  "nat list \<Rightarrow> nat \<Rightarrow> dbn_index_pair list \<Rightarrow> cache_c \<Rightarrow> (bool \<times> dbn_index_pair list \<times> cache_c) option" where
  "clean_fallow [] cset wl d = Some (False, wl, d)"
| "clean_fallow (i # is) cset wl d =
     (if \<not> (sysctl_fallow_delay (sysctl d) > 0 \<and> dirty_fallow (cache_sets d cset) > 0 \<and>
             time_after (jiffies (kernel d)) (fallow_next_cleaning (cache_sets d cset)))
      then Some (False, wl, d)
      else if state_of d i AND DIRTY_FALLOW_2 = 0 then clean_fallow is cset wl d
      else if \<not> flashcache_can_clean cset (length wl) d then Some (True, wl, d)
      else do {
        verify (state_of d i AND DIRTY \<noteq> 0);
        verify (state_of d i AND BLOCK_IO_INPROG = 0);
        d \<leftarrow> claim_block i d;
        clean_fallow is cset (wl @ [(dbn (cache d i), i)]) (bump fallow_cleanings_update d)
      })"

text \<open>The loop of the FIFO policy, with the number of slots still to scan.\<close>

primrec clean_fifo ::
  "nat \<Rightarrow> nat \<Rightarrow> nat \<Rightarrow> nat \<Rightarrow> int \<Rightarrow> dbn_index_pair list \<Rightarrow> cache_c \<Rightarrow>
   (nat \<times> dbn_index_pair list \<times> cache_c) option" where
  "clean_fifo 0 i cset start_index threshold wl d = Some (i, wl, d)"
| "clean_fifo (Suc n) i cset start_index threshold wl d =
     (if \<not> (flashcache_can_clean cset (length wl) d \<and> int (length wl) < threshold)
      then Some (i, wl, d)
      else do {
        (wl, d) \<leftarrow> (if dirty_idle i d
           then do {
             d \<leftarrow> claim_block i d;
             Some (wl @ [(dbn (cache d i), i)], d)
           }
           else Some (wl, d));
        clean_fifo n (if i + 1 = start_index + assoc d then start_index else i + 1)
          cset start_index threshold wl d
      })"

text \<open>One walk of the LRU policy; the first component of the result is its \<open>goto out\<close>.\<close>

partial_function (option) clean_lru ::
  "nat \<Rightarrow> nat \<Rightarrow> nat \<Rightarrow> int \<Rightarrow> int \<Rightarrow> int \<Rightarrow> dbn_index_pair list \<Rightarrow> cache_c \<Rightarrow>
   (bool \<times> int \<times> dbn_index_pair list \<times> cache_c) option" where
  "clean_lru rel cset start_index threshold force scanned wl d =
     (if \<not> (rel \<noteq> FLASHCACHE_NULL \<and> flashcache_can_clean cset (length wl) d \<and>
             int (length wl) < threshold)
      then Some (False, scanned, wl, d)
      else do {
        let i = rel + start_index;
        (wl, d) \<leftarrow> (if dirty_idle i d
           then do {
             d \<leftarrow> claim_block i d;
             Some (wl @ [(dbn (cache d i), i)], d)
           }
           else Some (wl, d));
        if force > 0 \<and> scanned + 1 = force then Some (True, scanned + 1, wl, d)
        else clean_lru (lru_next (cache d i)) cset start_index threshold force (scanned + 1) wl d
      })"

declare clean_lru.simps [code]

text \<open>
  How many blocks to clean beyond the fallow ones: \<open>None\<close> is the \<open>goto out\<close>, otherwise the
  threshold and the remaining forced count.
\<close>

definition clean_target :: "nat \<Rightarrow> int \<Rightarrow> nat \<Rightarrow> cache_c \<Rightarrow> (int \<times> int) option \<times> cache_c" where
  "clean_target cset force nr_writes d =
     (let dirty = int (set_nr_dirty (cache_sets d cset)); thresh = dirty_thresh_set d
      in if force = 0
         then (if dirty < thresh \<or> \<not> flashcache_can_clean cset nr_writes d then (None, d)
               else (Some (dirty - thresh, force), d))
         else if dirty > 0
         then (if dirty > thresh then (Some (dirty - thresh, 0), d)
               else if nr_writes = 0 then (Some (force, force), bump force_clean_block_update d)
               else (Some (0, force), d))
         else (Some (0, force), d))"

text \<open>The part of \<open>flashcache_clean_set\<close> before the label \<open>out\<close>.\<close>

definition clean_select ::
  "nat \<Rightarrow> int \<Rightarrow> cache_c \<Rightarrow> (bool \<times> dbn_index_pair list \<times> cache_c) option" where
  "clean_select cset force d = do {
     let start_index = cset * assoc d;
     let end_index = start_index + assoc d;
     let d = (if sysctl_fallow_delay (sysctl d) \<noteq> 0 \<and>
                 time_after (jiffies (kernel d)) (fallow_tstamp (cache_sets d cset))
              then upd_set cset (\<lambda>c. c\<lparr>fallow_tstamp := jiffies (kernel d) +
                       of_int (sysctl_fallow_delay (sysctl d) * uint HZ)\<rparr>)
                     (fold flashcache_detect_fallow [start_index..<end_index] d)
              else d);
     (delayed, wl, d) \<leftarrow> clean_fallow [start_index..<end_index] cset [] d;
     if delayed then Some (True, wl, d)
     else do {
       d \<leftarrow> (if wl \<noteq> []
             then do {
               verify (sysctl_fallow_clean_speed (sysctl d) \<noteq> 0);
               Some (upd_set cset (\<lambda>c. c\<lparr>fallow_next_cleaning := jiffies (kernel d) +
                       of_int (uint HZ div sysctl_fallow_clean_speed (sysctl d))\<rparr>) d)
             }
             else Some d);
       let (target, d) = clean_target cset force (length wl) d;
       case target of
         None \<Rightarrow> Some (False, wl, d)
       | Some (threshold, force) \<Rightarrow>
           if sysctl_reclaim_policy (sysctl d) = FLASHCACHE_FIFO
           then do {
             (i, wl, d) \<leftarrow> clean_fifo (assoc d) (set_clean_next (cache_sets d cset))
               cset start_index threshold wl d;
             Some (False, wl, upd_set cset (\<lambda>c. c\<lparr>set_clean_next := i\<rparr>) d)
           }
           else do {
             (out, scanned, wl, d) \<leftarrow> clean_lru (warmlist_lru_head (cache_sets d cset))
               cset start_index threshold force 0 wl d;
             if out then Some (False, wl, d)
             else do {
               (out, scanned, wl, d) \<leftarrow> clean_lru (hotlist_lru_head (cache_sets d cset))
                 cset start_index threshold force scanned wl d;
               Some (False, wl, d)
             }
           }
     }
   }"

definition write_clust_account :: "nat \<Rightarrow> cache_c \<Rightarrow> cache_c" where
  "write_clust_account nr_writes d =
     (let d = flashcache_stats_update (clean_set_ios_update (\<lambda>n. n + of_nat nr_writes)) d
      in if nr_writes < FLASHCACHE_WRITE_CLUST_HIST_SIZE
         then d\<lparr>write_clust_hist := (write_clust_hist d)(nr_writes := write_clust_hist d nr_writes + 1)\<rparr>
         else d\<lparr>write_clust_hist_ovf := write_clust_hist_ovf d + 1\<rparr>)"

definition flashcache_clean_set :: "nat \<Rightarrow> int \<Rightarrow> cache_c \<Rightarrow> cache_c option" where
  "flashcache_clean_set cset force_clean_blocks d =
     (if mode d \<noteq> FLASHCACHE_WRITE_BACK then Some d
      else let force = (if sysctl_reclaim_policy (sysctl d) = FLASHCACHE_FIFO then 0
                        else force_clean_blocks)
      in if remove_in_prog d \<noteq> 0 then Some d
      else case flashcache_diskclean_alloc d of
        (None, d) \<Rightarrow> Some (bump_error memory_alloc_errors_update d)
      | (Some (buf1, buf2), d) \<Rightarrow> do {
          (delayed, wl, d) \<leftarrow> clean_select cset force d;
          d \<leftarrow> (if wl \<noteq> []
                then do {
                  (wl, d) \<leftarrow> flashcache_merge_writes wl cset d;
                  for_each (\<lambda>p. flashcache_dirty_writeback (snd p)) wl
                    (write_clust_account (length wl) d)
                }
                else Some (if delayed \<or> int (set_nr_dirty (cache_sets d cset)) > dirty_thresh_set d
                           then d\<lparr>delayed_clean := True\<rparr> else d));
          Some (flashcache_diskclean_free buf1 buf2 d)
        })"

section \<open>Syncing all dirty blocks\<close>

definition sync_flush :: "dbn_index_pair list \<Rightarrow> nat \<Rightarrow> cache_c \<Rightarrow> cache_c option" where
  "sync_flush wl cset d =
     (if wl \<noteq> []
      then do {
        (wl, d) \<leftarrow> flashcache_merge_writes wl cset d;
        for_each (\<lambda>p. flashcache_dirty_writeback_sync (snd p)) wl d
      }
      else Some d)"

text \<open>The loop over the blocks from \<open>sync_index\<close> on, with the number of blocks left.\<close>

primrec sync_loop ::
  "nat \<Rightarrow> nat \<Rightarrow> nat \<Rightarrow> dbn_index_pair list \<Rightarrow> cache_c \<Rightarrow>
   (nat \<times> nat \<times> dbn_index_pair list \<times> cache_c) option" where
  "sync_loop 0 index cset wl d = Some (index, cset, wl, d)"
| "sync_loop (Suc n) index cset wl d =
     (if \<not> int (length wl) + clean_inprog d < max_clean_ios_total d
      then Some (index, cset, wl, d)
      else do {
        verify (length wl \<le> assoc d);
        (cset, wl, d) \<leftarrow> (if index mod assoc d = 0
           then do {
             d \<leftarrow> sync_flush wl cset d;
             Some (index div assoc d, [], d)
           }
           else Some (cset, wl, d));
        (wl, d) \<leftarrow> (if dirty_idle index d
           then do {
             d \<leftarrow> claim_block index d;
             Some (wl @ [(dbn (cache d index), index)], d)
           }
           else Some (wl, d));
        sync_loop n (index + 1) cset wl d
      })"

definition flashcache_sync_blocks :: "cache_c \<Rightarrow> cache_c option" where
  "flashcache_sync_blocks d =
     (if remove_in_prog d = FAST_REMOVE \<or> sysctl_stop_sync (sysctl d) \<noteq> 0 then Some d
      else if nr_dirty d = 0 \<or> \<not> sync_index d < csize d then Some d
      else case flashcache_diskclean_alloc d of
        (None, d) \<Rightarrow> Some (bump_error memory_alloc_errors_update d)
      | (Some (buf1, buf2), d) \<Rightarrow> do {
          let index = sync_index d;
          (index, cset, wl, d) \<leftarrow>
            sync_loop (csize d - index) index (index div assoc d) [] d;
          let d = d\<lparr>sync_index := index\<rparr>;
          d \<leftarrow> sync_flush wl cset d;
          Some (flashcache_diskclean_free buf1 buf2 d)
        })"

definition flashcache_sync_all :: "cache_c \<Rightarrow> cache_c option" where
  "flashcache_sync_all d =
     (if mode d \<noteq> FLASHCACHE_WRITE_BACK then Some d
      else flashcache_sync_blocks
             ((sysctl_update (sysctl_stop_sync_update (\<lambda>_. 0)) d)\<lparr>sync_index := 0\<rparr>))"

end
