(* ===== verification/Inval.thy ===== *)
theory Inval
  imports Clean
begin

text \<open>
  Requests that bypass the cache, and the invalidation of cached blocks a request overlaps
  (\<open>flashcache_start_uncached_io\<close>, \<open>flashcache_inval_block_set\<close>,
  \<open>flashcache_inval_block_set_v3\<close>, \<open>flashcache_inval_blocks\<close> of \<open>flashcache_main.c\<close>). The
  result of an invalidation is the C result: 0 when nothing stands in the way, 1 when the request
  was queued on a block, \<open>- ENOMEM\<close> when no job could be allocated.
\<close>

definition flashcache_start_uncached_io :: "bio \<Rightarrow> cache_c \<Rightarrow> cache_c option" where
  "flashcache_start_uncached_io b d =
     (let is_write = bi_is_write b;
          d = (if is_write then bump disk_writes_update (bump uncached_writes_update d)
               else bump disk_reads_update (bump uncached_reads_update d));
          (job, d) = new_kcached_job (Some b) None d
      in case job of
        None \<Rightarrow> flashcache_bio_endio b (- EIO) None d
      | Some job \<Rightarrow>
          Some (submit_io Uncached_io_callback is_write [job_disk job] [] job
                 (d\<lparr>nr_jobs := nr_jobs d + 1\<rparr>)))"

definition io_end_sector :: "bio \<Rightarrow> sector" where
  "io_end_sector b = bi_sector b + (to_sector b - 1)"

definition bump_inval :: "bool \<Rightarrow> cache_c \<Rightarrow> cache_c" where
  "bump_inval is_write = bump (if is_write then wr_invalidates_update else rd_invalidates_update)"

text \<open>A clean, idle block without queued requests leaves the cache.\<close>

definition inval_idle :: "nat \<Rightarrow> cache_c \<Rightarrow> bool" where
  "inval_idle i d \<longleftrightarrow>
     state_of d i AND (BLOCK_IO_INPROG OR DIRTY) = 0 \<and> nr_queued (cache d i) = 0"

definition inval_now :: "nat \<Rightarrow> cache_c \<Rightarrow> cache_c option" where
  "inval_now i d = do {
     let d = d\<lparr>cached_blocks := cached_blocks d - 1\<rparr>;
     d \<leftarrow> flashcache_hash_remove (Some i) d;
     flashcache_invalid_insert i (set_state i INVALID d)
   }"

text \<open>A block that is busy or dirty: the request waits for it, and a dirty idle block is cleaned.\<close>

definition inval_later :: "nat \<Rightarrow> bio \<Rightarrow> cache_c \<Rightarrow> cache_c option" where
  "inval_later i b d = do {
     d \<leftarrow> flashcache_enq_pending b i INVALIDATE True d;
     if dirty_idle i d
     then do {
       d \<leftarrow> claim_block i d;
       flashcache_dirty_writeback i d
     }
     else Some d
   }"

definition overlaps :: "bio \<Rightarrow> nat \<Rightarrow> cache_c \<Rightarrow> bool" where
  "overlaps b i d \<longleftrightarrow>
     (let start_dbn = dbn (cache d i); end_dbn = start_dbn + of_nat (block_size d);
          io_start = bi_sector b; io_end = io_end_sector b
      in (io_start \<ge> start_dbn \<and> io_start < end_dbn) \<or> (io_end \<ge> start_dbn \<and> io_end < end_dbn))"

primrec inval_block_loop :: "nat list \<Rightarrow> bio \<Rightarrow> cache_c \<Rightarrow> (int \<times> cache_c) option" where
  "inval_block_loop [] b d = Some (0, d)"
| "inval_block_loop (i # is) b d =
     (if state_of d i AND INVALID \<noteq> 0 \<or> \<not> overlaps b i d then inval_block_loop is b d
      else let d = bump_inval (bi_is_write b) d
      in if inval_idle i d
         then do {
           d \<leftarrow> inval_now i d;
           inval_block_loop is b d
         }
         else do {
           d \<leftarrow> inval_later i b d;
           Some (1, d)
         })"

definition flashcache_inval_block_set :: "nat \<Rightarrow> bio \<Rightarrow> cache_c \<Rightarrow> (int \<times> cache_c) option" where
  "flashcache_inval_block_set cset b d =
     (let start_index = assoc d * cset
      in inval_block_loop [start_index..<start_index + assoc d] b d)"

definition block_mask :: "cache_c \<Rightarrow> sector" where
  "block_mask d = NOT (push_bit (block_shift d) 1 - 1)"

definition flashcache_inval_block_set_v3 :: "nat \<Rightarrow> bio \<Rightarrow> cache_c \<Rightarrow> (int \<times> cache_c) option" where
  "flashcache_inval_block_set_v3 cset b d = do {
     index \<leftarrow> flashcache_hash_lookup d cset (bi_sector b AND block_mask d);
     case index of
       None \<Rightarrow> Some (0, d)
     | Some i \<Rightarrow> do {
         verify (state_of d i AND VALID \<noteq> 0);
         let d = bump_inval (bi_is_write b) d;
         if inval_idle i d
         then do {
           d \<leftarrow> inval_now i d;
           Some (0, d)
         }
         else do {
           d \<leftarrow> inval_later i b d;
           Some (1, d)
         }
       }
   }"

definition flashcache_inval_blocks :: "bio \<Rightarrow> cache_c \<Rightarrow> (int \<times> cache_c) option" where
  "flashcache_inval_blocks b d =
     (let (pjob1, d) = flashcache_alloc_pending_job d;
          (injected, d) = inject INVAL_PENDING_JOB_ALLOC_FAIL d;
          (pjob1, d) = (if injected
             then (False, if pjob1 then flashcache_free_pending_job d else d) else (pjob1, d))
      in if \<not> pjob1 then Some (- ENOMEM, d)
      else if on_ssd_version d < 3
      then (let (pjob2, d) = flashcache_alloc_pending_job d
            in if \<not> pjob2 then Some (- ENOMEM, flashcache_free_pending_job d)
            else do {
              let start_set = hash_block d (bi_sector b);
              let end_set = hash_block d (io_end_sector b);
              (queued, d) \<leftarrow> flashcache_inval_block_set start_set b d;
              if queued \<noteq> 0 then Some (queued, flashcache_free_pending_job d)
              else let d = flashcache_free_pending_job d
                in if start_set \<noteq> end_set
                then do {
                  (queued, d) \<leftarrow> flashcache_inval_block_set end_set b d;
                  Some (queued, if queued = 0 then flashcache_free_pending_job d else d)
                }
                else Some (queued, flashcache_free_pending_job d)
            })
      else do {
        let start_set = hash_block d (bi_sector b AND block_mask d);
        (queued, d) \<leftarrow> flashcache_inval_block_set_v3 start_set b d;
        Some (queued, if queued = 0 then flashcache_free_pending_job d else d)
      })"

end
