(* ===== verification/Metadata.thy ===== *)
theory Metadata
  imports Inval
begin

text \<open>
  The updates of the block table on the flash device in write back mode (\<open>flashcache_main.c\<close>).
  A metadata block holds the slots of consecutive cache blocks. At most one write of a metadata
  block is in progress; the updates that arrive meanwhile wait in \<open>queued_updates\<close> and go out
  together with the next write (\<open>md_io_inprog\<close>).
\<close>

section \<open>Operations\<close>

definition upd_md :: "nat \<Rightarrow> (cache_md_block_head \<Rightarrow> cache_md_block_head) \<Rightarrow> cache_c \<Rightarrow> cache_c" where
  "upd_md b f d = d\<lparr>md_blocks_buf := (md_blocks_buf d)(b := f (md_blocks_buf d b))\<rparr>"

definition flashcache_md_write_callback :: "bool \<Rightarrow> kcached_job \<Rightarrow> cache_c \<Rightarrow> cache_c" where
  "flashcache_md_write_callback err job d =
     push_md_complete (job\<lparr>job_error := (if err then - EIO else 0)\<rparr>) d"

definition flashcache_alloc_md_sector :: "kcached_job \<Rightarrow> cache_c \<Rightarrow> bool \<times> kcached_job \<times> cache_c" where
  "flashcache_alloc_md_sector job d =
     (let (injected, d) = inject MD_ALLOC_SECTOR_ERROR d;
          (page, d) = (if injected then (False, d) else (alloc_ok d, alloc_next d))
      in if page then (True, job\<lparr>job_md_block := True\<rparr>, d)
         else (False, job, bump_error memory_alloc_errors_update d))"

definition flashcache_free_md_sector :: "kcached_job \<Rightarrow> kcached_job" where
  "flashcache_free_md_sector job = job\<lparr>job_md_block := False\<rparr>"

text \<open>The slot of a block as it stands in memory, and the state that a job gives to its slot.\<close>

definition md_slot_of :: "cache_c \<Rightarrow> nat \<Rightarrow> md_slot" where
  "md_slot_of d i = (dbn (cache d i), ucast (state_of d i AND (VALID OR INVALID OR DIRTY)))"

definition md_job_state :: "kcached_job \<Rightarrow> 32 word" where
  "md_job_state job = ucast (if job_action job = WRITECACHE then VALID OR DIRTY else VALID)"

definition md_first :: "cache_c \<Rightarrow> nat \<Rightarrow> nat" where
  "md_first d b = b * MD_SLOTS_PER_BLOCK d"

definition mark_md_job :: "cache_c \<Rightarrow> kcached_job \<Rightarrow> md_slot list \<Rightarrow> md_slot list" where
  "mark_md_job d job slots =
     (case job_index job of
        None \<Rightarrow> slots
      | Some i \<Rightarrow> let j = INDEX_TO_MD_BLOCK_OFFSET d i
                  in slots[j := (fst (slots ! j), md_job_state job)])"

definition md_block_image :: "cache_c \<Rightarrow> nat \<Rightarrow> kcached_job list \<Rightarrow> md_slot list" where
  "md_block_image d b jobs =
     fold (mark_md_job d) jobs
       (map (md_slot_of d) [md_first d b..<min (md_first d b + MD_SLOTS_PER_BLOCK d) (csize d)])"

definition flashcache_md_write_kickoff :: "kcached_job \<Rightarrow> cache_c \<Rightarrow> cache_c option" where
  "flashcache_md_write_kickoff job d = do {
     index \<leftarrow> job_index job;
     let (ok, job, d) = flashcache_alloc_md_sector job d;
     if \<not> ok then Some (flashcache_md_write_callback True job d)
     else do {
       let b = INDEX_TO_MD_BLOCK d index;
       let batch = queued_updates (md_blocks_buf d b);
       let d = upd_md b (\<lambda>h. h\<lparr>md_io_inprog := batch, queued_updates := []\<rparr>) d;
       let image = md_block_image d b (job # batch);
       let d = fold (\<lambda>_. bump md_write_batch_update) batch d;
       let d = bump md_ssd_writes_update (bump ssd_writes_update d);
       Some (submit_io Md_write_callback True
               [(CacheDev, of_nat ((1 + b) * md_block_size d), of_nat (md_block_size d))] image job d)
     }
   }"

definition md_action :: "action \<Rightarrow> bool" where
  "md_action act \<longleftrightarrow> act = WRITEDISK \<or> act = WRITECACHE \<or> act = WRITEDISK_SYNC"

definition flashcache_md_write :: "kcached_job \<Rightarrow> cache_c \<Rightarrow> cache_c option" where
  "flashcache_md_write job d = do {
     verify (md_action (job_action job));
     index \<leftarrow> job_index job;
     let b = INDEX_TO_MD_BLOCK d index;
     if nr_in_prog (md_blocks_buf d b) \<noteq> 0
     then Some (upd_md b (\<lambda>h. h\<lparr>queued_updates := queued_updates h @ [job]\<rparr>) d)
     else Some (push_md_io job (upd_md b (\<lambda>h. h\<lparr>nr_in_prog := 1\<rparr>) d))
   }"

text \<open>The effect of a completed metadata write on the flash device.\<close>

definition store_md_block :: "nat \<Rightarrow> md_slot list \<Rightarrow> (nat \<Rightarrow> md_slot) \<Rightarrow> nat \<Rightarrow> md_slot" where
  "store_md_block first slots md i =
     (if first \<le> i \<and> i < first + length slots then slots ! (i - first) else md i)"

end
