(* ===== verification/Complete.thy ===== *)
theory Complete
  imports Metadata
begin

text \<open>
  The completion side of \<open>flashcache_main.c\<close>: what happens to the requests queued on a block when
  its I/O is done, the callbacks of the block layer and the workers that they wake.
\<close>

section \<open>The requests queued on a block\<close>

text \<open>The end of a job.\<close>

definition finish_job :: "cache_c \<Rightarrow> cache_c" where
  "finish_job d = (flashcache_free_cache_job d)\<lparr>nr_jobs := nr_jobs d - 1\<rparr>"

text \<open>A block loses its identity: it leaves the hash and is marked invalid.\<close>

definition drop_identity :: "nat \<Rightarrow> cache_c \<Rightarrow> cache_c option" where
  "drop_identity index d = do {
     let d = bump pending_inval_update (d\<lparr>cached_blocks := cached_blocks d - 1\<rparr>);
     d \<leftarrow> flashcache_hash_remove (Some index) d;
     Some (set_state index ((state_of d index AND NOT VALID) OR INVALID) d)
   }"

definition unqueue_one :: "nat \<Rightarrow> pending_job \<Rightarrow> cache_c \<Rightarrow> cache_c option" where
  "unqueue_one index pjob d = do {
     verify (nr_queued (cache d index) > 0);
     Some (upd_blk index (\<lambda>b. b\<lparr>nr_queued := nr_queued b - 1\<rparr>) d)
   }"

definition relaunch_one :: "pending_job \<Rightarrow> cache_c \<Rightarrow> cache_c option" where
  "relaunch_one pjob d = do {
     d \<leftarrow> flashcache_start_uncached_io (pj_bio pjob) d;
     Some (flashcache_free_pending_job d)
   }"

definition flashcache_do_pending_error :: "kcached_job \<Rightarrow> cache_c \<Rightarrow> cache_c option" where
  "flashcache_do_pending_error job d = do {
     index \<leftarrow> job_index job;
     verify (state_of d index AND VALID \<noteq> 0);
     d \<leftarrow> (if state_of d index AND DIRTY = 0 then drop_identity index d
           else do {
             verify (mode d = FLASHCACHE_WRITE_BACK);
             Some d
           });
     let d = set_state index (state_of d index AND NOT BLOCK_IO_INPROG) d;
     d \<leftarrow> (if state_of d index AND DIRTY = 0 then flashcache_invalid_insert index d else Some d);
     d \<leftarrow> (case job_bio job of
         Some b \<Rightarrow> do {
           verify (mode d \<noteq> FLASHCACHE_WRITE_BACK);
           (pjob_list, d) \<leftarrow> flashcache_deq_pending index d;
           d \<leftarrow> for_each (unqueue_one index) pjob_list d;
           verify (nr_queued (cache d index) = 0);
           d \<leftarrow> flashcache_start_uncached_io b d;
           for_each relaunch_one pjob_list d
         }
       | None \<Rightarrow> flashcache_free_pending_jobs index (job_error job) d);
     Some (finish_job d)
   }"

definition noerror_one :: "nat \<Rightarrow> pending_job \<Rightarrow> cache_c \<Rightarrow> cache_c option" where
  "noerror_one index pjob d = do {
     verify (state_of d index AND DIRTY = 0);
     verify (nr_queued (cache d index) > 0);
     let d = upd_blk index (\<lambda>b. b\<lparr>nr_queued := nr_queued b - 1\<rparr>) d;
     (queued, d) \<leftarrow> (if pj_action pjob = INVALIDATE
                      then flashcache_inval_blocks (pj_bio pjob) d else Some (0, d));
     if queued \<noteq> 0
     then do {
       d \<leftarrow> (if queued < 0 then flashcache_bio_endio (pj_bio pjob) (- EIO) None d else Some d);
       Some (flashcache_free_pending_job d)
     }
     else relaunch_one pjob d
   }"

definition flashcache_do_pending_noerror :: "kcached_job \<Rightarrow> cache_c \<Rightarrow> cache_c option" where
  "flashcache_do_pending_noerror job d = do {
     index \<leftarrow> job_index job;
     d \<leftarrow> (if state_of d index AND DIRTY \<noteq> 0
       then do {
         verify (mode d = FLASHCACHE_WRITE_BACK);
         d \<leftarrow> flashcache_clear_fallow index (set_state index
                ((state_of d index AND NOT BLOCK_IO_INPROG) OR DISKWRITEINPROG) d);
         flashcache_dirty_writeback index d
       }
       else do {
         verify (state_of d index AND VALID \<noteq> 0);
         d \<leftarrow> drop_identity index d;
         (freelist, d) \<leftarrow> flashcache_deq_pending index d;
         d \<leftarrow> for_each (noerror_one index) freelist d;
         verify (nr_queued (cache d index) = 0);
         flashcache_invalid_insert index (set_state index (state_of d index AND NOT BLOCK_IO_INPROG) d)
       });
     Some (finish_job d)
   }"

definition flashcache_do_pending :: "kcached_job \<Rightarrow> cache_c \<Rightarrow> cache_c option" where
  "flashcache_do_pending job d =
     (if job_error job \<noteq> 0 then flashcache_do_pending_error job d
      else flashcache_do_pending_noerror job d)"

text \<open>The end shared by the callbacks: the queued requests are handled, or the block is idle again.\<close>

definition pending_or_idle :: "kcached_job \<Rightarrow> nat \<Rightarrow> cache_c \<Rightarrow> cache_c option" where
  "pending_or_idle job index d =
     (if job_error job \<noteq> 0 \<or> nr_queued (cache d index) > 0 then flashcache_do_pending job d
      else Some (finish_job (set_state index (state_of d index AND NOT BLOCK_IO_INPROG) d)))"

section \<open>The callback of data I/O\<close>

definition flashcache_do_io :: "kcached_job \<Rightarrow> cache_c \<Rightarrow> cache_c option" where
  "flashcache_do_io job d = do {
     verify (job_action job = READFILL);
     Some (submit_io Io_callback True [job_cache job] [] job (bump ssd_writes_update d))
   }"

text \<open>The part of \<open>flashcache_io_callback\<close> after the switch.\<close>

definition io_callback_end :: "kcached_job \<Rightarrow> nat \<Rightarrow> bio \<Rightarrow> int \<Rightarrow> bool \<Rightarrow> cache_c \<Rightarrow> cache_c option" where
  "io_callback_end job index b err disk_error d = do {
     let ended = (err = 0 \<or> mode d = FLASHCACHE_WRITE_BACK \<or> disk_error);
     d \<leftarrow> (if ended then flashcache_bio_endio b err (Some (job_start_time job)) d else Some d);
     let job = (if ended then job\<lparr>job_bio := None\<rparr> else job);
     if err \<noteq> 0 \<or> nr_queued (cache d index) > 0 then Some (push_pending job d)
     else Some (finish_job (set_state index (state_of d index AND NOT BLOCK_IO_INPROG) d))
   }"

text \<open>An injected error replaces the error of the device.\<close>

definition inject_error :: "32 word \<Rightarrow> int \<Rightarrow> cache_c \<Rightarrow> int \<times> cache_c" where
  "inject_error flag err d = (let (injected, d) = inject flag d in (if injected then - EIO else err, d))"

definition io_callback_error :: "bool \<Rightarrow> cache_c \<Rightarrow> cache_c" where
  "io_callback_error err d =
     (if err \<and> \<not> bypass_cache d \<and> mode d \<noteq> FLASHCACHE_WRITE_BACK then d\<lparr>bypass_cache := True\<rparr> else d)"

definition flashcache_io_callback :: "bool \<Rightarrow> kcached_job \<Rightarrow> cache_c \<Rightarrow> cache_c option" where
  "flashcache_io_callback io_error job d = do {
     index \<leftarrow> job_index job;
     b \<leftarrow> job_bio job;
     let d = io_callback_error io_error d;
     let err = (if io_error then - EIO else 0);
     case job_action job of
       READDISK \<Rightarrow> do {
         let (err, d) = inject_error READDISK_ERROR err d;
         let job = job\<lparr>job_error := err\<rparr>;
         verify (state_of d index AND DISKREADINPROG \<noteq> 0);
         if err = 0 then Some (push_io (job\<lparr>job_action := READFILL\<rparr>) d)
         else io_callback_end job index b err True (bump_error disk_read_errors_update d)
       }
     | READCACHE \<Rightarrow> do {
         let (err, d) = inject_error READCACHE_ERROR err d;
         let job = job\<lparr>job_error := err\<rparr>;
         verify (state_of d index AND CACHEREADINPROG \<noteq> 0);
         io_callback_end job index b err False
           (if err \<noteq> 0 then bump_error ssd_read_errors_update d else d)
       }
     | READFILL \<Rightarrow> do {
         let (err, d) = inject_error READFILL_ERROR err d;
         let job = job\<lparr>job_error := err\<rparr>;
         let d = (if err \<noteq> 0 then bump_error ssd_write_errors_update d else d);
         verify (state_of d index AND DISKREADINPROG \<noteq> 0);
         io_callback_end job index b err False d
       }
     | WRITECACHE \<Rightarrow> do {
         let (err, d) = inject_error WRITECACHE_ERROR err d;
         let job = job\<lparr>job_error := err\<rparr>;
         verify (state_of d index AND CACHEWRITEINPROG \<noteq> 0);
         if err = 0
         then (if mode d = FLASHCACHE_WRITE_BACK
               then (if state_of d index AND DIRTY = 0 then flashcache_md_write job d
                     else io_callback_end job index b err False d)
               else do {
                 verify (mode d = FLASHCACHE_WRITE_THROUGH);
                 io_callback_end job index b err False d
               })
         else (let d = bump_error ssd_write_errors_update d
               in if mode d = FLASHCACHE_WRITE_THROUGH
                  then io_callback_end job index b err True (bump_error disk_write_errors_update d)
                  else io_callback_end job index b err False d)
       }
     | _ \<Rightarrow> io_callback_end (job\<lparr>job_error := err\<rparr>) index b err False d
   }"

section \<open>The end of a metadata write\<close>

text \<open>
  One job of the batch. \<open>flashcache_update_sync_progress\<close>, which only prints, is left out.
\<close>

definition md_done_writecache :: "kcached_job \<Rightarrow> nat \<Rightarrow> cache_c \<Rightarrow> cache_c option" where
  "md_done_writecache job index d = do {
     let cset = index div assoc d;
     let (err, d) = inject_error WRITECACHE_MD_ERROR (job_error job) d;
     let job = job\<lparr>job_error := err\<rparr>;
     let d = (if err = 0
       then let d = (if state_of d index AND DIRTY = 0
                     then (upd_set cset (\<lambda>c. c\<lparr>set_nr_dirty := inc16 (set_nr_dirty c)\<rparr>) d)
                            \<lparr>nr_dirty := nr_dirty d + 1\<rparr>
                     else d)
            in set_state index (state_of d index OR DIRTY) (bump md_write_dirty_update d)
       else bump_error ssd_write_errors_update d);
     b \<leftarrow> job_bio job;
     d \<leftarrow> flashcache_bio_endio b err (Some (job_start_time job)) d;
     pending_or_idle job index d
   }"

definition md_done_writedisk :: "kcached_job \<Rightarrow> nat \<Rightarrow> cache_c \<Rightarrow> cache_c option" where
  "md_done_writedisk job index d = do {
     let cset = index div assoc d;
     let (err, d) = inject_error WRITEDISK_MD_ERROR (job_error job) d;
     let job = job\<lparr>job_error := err\<rparr>;
     d \<leftarrow> (if err = 0
       then do {
         let d = set_state index (state_of d index AND NOT DIRTY) (bump md_write_clean_update d);
         verify (set_nr_dirty (cache_sets d cset) > 0);
         verify (nr_dirty d > 0);
         let d = upd_set cset (\<lambda>c. c\<lparr>set_nr_dirty := set_nr_dirty c - 1\<rparr>) d;
         Some (d\<lparr>nr_dirty := nr_dirty d - 1\<rparr>)
       }
       else Some (bump_error ssd_write_errors_update d));
     verify (set_clean_inprog (cache_sets d cset) > 0);
     verify (clean_inprog d > 0);
     let d = upd_set cset (\<lambda>c. c\<lparr>set_clean_inprog := set_clean_inprog c - 1\<rparr>) d;
     let d = d\<lparr>clean_inprog := clean_inprog d - 1\<rparr>;
     d \<leftarrow> pending_or_idle job index d;
     d \<leftarrow> (if job_action job = WRITEDISK then flashcache_clean_set cset 0 d
           else flashcache_sync_blocks d);
     Some (bump cleanings_update d)
   }"

definition md_done_one :: "int \<Rightarrow> kcached_job \<Rightarrow> cache_c \<Rightarrow> cache_c option" where
  "md_done_one err job d = do {
     index \<leftarrow> job_index job;
     let job = job\<lparr>job_error := err\<rparr>;
     if job_action job = WRITECACHE then md_done_writecache job index d
     else md_done_writedisk job index d
   }"

definition flashcache_md_write_done :: "kcached_job \<Rightarrow> cache_c \<Rightarrow> cache_c option" where
  "flashcache_md_write_done job d = do {
     verify (md_action (job_action job));
     index \<leftarrow> job_index job;
     let job = flashcache_free_md_sector job;
     let b = INDEX_TO_MD_BLOCK d index;
     let job_list = job # md_io_inprog (md_blocks_buf d b);
     let d = upd_md b (\<lambda>h. h\<lparr>md_io_inprog := []\<rparr>) d;
     d \<leftarrow> for_each (md_done_one (job_error job)) job_list d;
     case queued_updates (md_blocks_buf d b) of
       next # rest \<Rightarrow> do {
         let d = upd_md b (\<lambda>h. h\<lparr>queued_updates := rest\<rparr>) d;
         verify (md_action (job_action next));
         flashcache_md_write_kickoff next d
       }
     | [] \<Rightarrow> Some (upd_md b (\<lambda>h. h\<lparr>nr_in_prog := 0\<rparr>) d)
   }"

section \<open>The callbacks of write backs\<close>

text \<open>A failed write back: the copy in flash is kept and the job is handled as an error.\<close>

definition kcopyd_failed :: "bool \<Rightarrow> kcached_job \<Rightarrow> nat \<Rightarrow> cache_c \<Rightarrow> cache_c option" where
  "kcopyd_failed read_err job index d = do {
     let cset = index div assoc d;
     verify (set_clean_inprog (cache_sets d cset) > 0);
     let d = upd_set cset (\<lambda>c. c\<lparr>set_clean_inprog := set_clean_inprog c - 1\<rparr>) d;
     verify (clean_inprog d > 0);
     let d = d\<lparr>clean_inprog := clean_inprog d - 1\<rparr>;
     let d = bump_error (if read_err then ssd_read_errors_update else disk_write_errors_update) d;
     flashcache_do_pending (job\<lparr>job_error := - EIO\<rparr>) d
   }"

definition flashcache_kcopyd_callback :: "bool \<Rightarrow> bool \<Rightarrow> kcached_job \<Rightarrow> cache_c \<Rightarrow> cache_c option" where
  "flashcache_kcopyd_callback read_err write_err job d = do {
     index \<leftarrow> job_index job;
     verify (job_bio job = None);
     verify (state_of d index AND (DISKWRITEINPROG OR VALID OR DIRTY) \<noteq> 0);
     let (injected, d) = inject KCOPYD_CALLBACK_ERROR d;
     let read_err = (read_err \<or> injected);
     if \<not> read_err \<and> \<not> write_err then flashcache_md_write job d
     else do {
       d \<leftarrow> kcopyd_failed read_err job index d;
       d \<leftarrow> flashcache_clean_set (index div assoc d) 0 d;
       Some (bump cleanings_update d)
     }
   }"

definition flashcache_kcopyd_callback_sync :: "bool \<Rightarrow> bool \<Rightarrow> kcached_job \<Rightarrow> cache_c \<Rightarrow> cache_c option" where
  "flashcache_kcopyd_callback_sync read_err write_err job d = do {
     index \<leftarrow> job_index job;
     verify (job_bio job = None);
     verify (state_of d index AND (DISKWRITEINPROG OR VALID OR DIRTY) \<noteq> 0);
     if \<not> read_err \<and> \<not> write_err then flashcache_md_write job d
     else do {
       d \<leftarrow> kcopyd_failed read_err job index d;
       d \<leftarrow> flashcache_sync_blocks d;
       Some (bump cleanings_update d)
     }
   }"

section \<open>Uncached I/O\<close>

definition flashcache_uncached_io_complete :: "kcached_job \<Rightarrow> cache_c \<Rightarrow> cache_c option" where
  "flashcache_uncached_io_complete job d = do {
     b \<leftarrow> job_bio job;
     let d = (if job_error job \<noteq> 0
              then bump_error (if bi_is_write b then disk_write_errors_update
                               else disk_read_errors_update) d
              else d);
     (queued, d) \<leftarrow> flashcache_inval_blocks b d;
     d \<leftarrow> (if queued \<noteq> 0
       then do {
         d \<leftarrow> (if queued < 0 then flashcache_bio_endio b (- EIO) None d else Some d);
         Some (bump uncached_io_requeue_update d)
       }
       else flashcache_bio_endio b (job_error job) (Some (job_start_time job)) d);
     Some (finish_job d)
   }"

definition flashcache_uncached_io_callback :: "bool \<Rightarrow> kcached_job \<Rightarrow> cache_c \<Rightarrow> cache_c option" where
  "flashcache_uncached_io_callback err job d = do {
     verify (job_index job = None);
     Some (push_uncached_io_complete (job\<lparr>job_error := (if err then - EIO else 0)\<rparr>) d)
   }"

end
