(* ===== verification/Ioctl.thy ===== *)
theory Ioctl
  imports Clean
begin

text \<open>
  \<open>flashcache_ioctl.c\<close>: the white and black lists of processes, their expiry, the control
  messages, the decision whether a request may be cached, and the detector of sequential I/O.
  A pid list is a HOL list from head to tail; the flows of the detector are linked through the
  array \<open>seq_recent_ios\<close>.
\<close>

section \<open>Pid lists\<close>

datatype pid_list = FLASHCACHE_WHITELIST | FLASHCACHE_BLACKLIST

definition pids :: "pid_list \<Rightarrow> cache_c \<Rightarrow> flashcache_cachectl_pid list" where
  "pids l d = (case l of FLASHCACHE_WHITELIST \<Rightarrow> whitelist d | FLASHCACHE_BLACKLIST \<Rightarrow> blacklist d)"

definition num_pids :: "pid_list \<Rightarrow> cache_c \<Rightarrow> int" where
  "num_pids l d =
     (case l of FLASHCACHE_WHITELIST \<Rightarrow> num_whitelist_pids d | FLASHCACHE_BLACKLIST \<Rightarrow> num_blacklist_pids d)"

definition set_pids :: "pid_list \<Rightarrow> flashcache_cachectl_pid list \<Rightarrow> int \<Rightarrow> cache_c \<Rightarrow> cache_c" where
  "set_pids l xs n d =
     (case l of FLASHCACHE_WHITELIST \<Rightarrow> d\<lparr>whitelist := xs, num_whitelist_pids := n\<rparr>
      | FLASHCACHE_BLACKLIST \<Rightarrow> d\<lparr>blacklist := xs, num_blacklist_pids := n\<rparr>)"

definition flashcache_find_pid_locked :: "int \<Rightarrow> pid_list \<Rightarrow> cache_c \<Rightarrow> bool" where
  "flashcache_find_pid_locked p l d = list_ex (\<lambda>n. ctl_pid n = p) (pids l d)"

text \<open>The nodes are visited from the tail, and the first with the pid is unlinked.\<close>

primrec unlink_pid :: "int \<Rightarrow> flashcache_cachectl_pid list \<Rightarrow> flashcache_cachectl_pid list option" where
  "unlink_pid p [] = None"
| "unlink_pid p (n # ns) = (if ctl_pid n = p then Some ns else map_option (Cons n) (unlink_pid p ns))"

definition flashcache_del_pid_locked :: "int \<Rightarrow> pid_list \<Rightarrow> cache_c \<Rightarrow> cache_c option" where
  "flashcache_del_pid_locked p l d = do {
     verify (pids l d \<noteq> [] \<longrightarrow> num_pids l d > 0);
     case unlink_pid p (rev (pids l d)) of
       None \<Rightarrow> Some d
     | Some ns \<Rightarrow> Some (set_pids l (rev ns) (num_pids l d - 1) (bump pid_dels_update d))
   }"

partial_function (option) flashcache_drop_pids :: "pid_list \<Rightarrow> cache_c \<Rightarrow> cache_c option" where
  "flashcache_drop_pids l d =
     (if num_pids l d \<ge> sysctl_max_pids (sysctl d)
      then do {
        verify (pids l d \<noteq> []);
        d \<leftarrow> flashcache_del_pid_locked (ctl_pid (last (pids l d))) l d;
        flashcache_drop_pids l (bump pid_drops_update d)
      }
      else Some d)"

declare flashcache_drop_pids.simps [code]

text \<open>The result of \<open>kmalloc\<close> is used without a check: \<open>None\<close> when it fails.\<close>

definition flashcache_add_pid :: "int \<Rightarrow> pid_list \<Rightarrow> cache_c \<Rightarrow> cache_c option" where
  "flashcache_add_pid p l d = do {
     verify (alloc_ok d);
     let d = alloc_next d;
     let new = \<lparr>ctl_pid = p,
                ctl_expiry = jiffies (kernel d) + of_int (sysctl_pid_expiry_secs (sysctl d)) * HZ\<rparr>;
     d \<leftarrow> (if num_pids l d > sysctl_max_pids (sysctl d) then flashcache_drop_pids l d else Some d);
     if flashcache_find_pid_locked p l d then Some d
     else do {
       let first = (pids l d = []);
       let d = set_pids l (pids l d @ [new]) (num_pids l d + 1) d;
       let d = bump pid_adds_update d;
       Some (if first
             then d\<lparr>pid_expire_check := jiffies (kernel d) +
                      of_int (sysctl_pid_expiry_secs (sysctl d) + 1) * HZ\<rparr>
             else d)
     }
   }"

definition flashcache_del_pid :: "int \<Rightarrow> pid_list \<Rightarrow> cache_c \<Rightarrow> cache_c option" where
  "flashcache_del_pid p l d = flashcache_del_pid_locked p l d"

text \<open>
  The loop from the tail: \<open>kept\<close> are the nodes already passed (their process exists); a
  deletion starts again at the tail.
\<close>

partial_function (option) del_all_loop ::
  "pid_list \<Rightarrow> bool \<Rightarrow> flashcache_cachectl_pid list \<Rightarrow> cache_c \<Rightarrow> cache_c option" where
  "del_all_loop l force todo d =
     (case todo of
        [] \<Rightarrow> Some d
      | node # prevs \<Rightarrow>
          if \<not> force \<and> task_exists (kernel d) (ctl_pid node) then del_all_loop l force prevs d
          else do {
            d \<leftarrow> flashcache_del_pid_locked (ctl_pid node) l d;
            del_all_loop l force (rev (pids l d)) d
          })"

declare del_all_loop.simps [code]

definition flashcache_del_all_pids :: "pid_list \<Rightarrow> bool \<Rightarrow> cache_c \<Rightarrow> cache_c option" where
  "flashcache_del_all_pids l force d = del_all_loop l force (rev (pids l d)) d"

text \<open>
  The expiry of one list, from the head. The code reads the link of the node it has just freed;
  the model takes it to be still intact.
\<close>

primrec pid_expiry_loop ::
  "flashcache_cachectl_pid list \<Rightarrow> flashcache_cachectl_pid list \<Rightarrow> pid_list \<Rightarrow> cache_c \<Rightarrow> cache_c option" where
  "pid_expiry_loop [] kept l d = Some d"
| "pid_expiry_loop (n # ns) kept l d = do {
     verify (num_pids l d > 0);
     if time_after (ctl_expiry n) (jiffies (kernel d))
     then pid_expiry_loop ns (kept @ [n]) l d
     else pid_expiry_loop ns kept l
            (bump expiry_update (set_pids l (kept @ ns) (num_pids l d - 1) d))
   }"

definition flashcache_pid_expiry_list_locked :: "pid_list \<Rightarrow> cache_c \<Rightarrow> cache_c option" where
  "flashcache_pid_expiry_list_locked l d = pid_expiry_loop (pids l d) [] l d"

definition flashcache_pid_expiry_all_locked :: "cache_c \<Rightarrow> cache_c option" where
  "flashcache_pid_expiry_all_locked d =
     (if time_after (pid_expire_check d) (jiffies (kernel d)) then Some d
      else do {
        d \<leftarrow> flashcache_pid_expiry_list_locked FLASHCACHE_WHITELIST d;
        d \<leftarrow> flashcache_pid_expiry_list_locked FLASHCACHE_BLACKLIST d;
        Some (d\<lparr>pid_expire_check := jiffies (kernel d) +
                  of_int (sysctl_pid_expiry_secs (sysctl d) + 1) * HZ\<rparr>)
      })"

section \<open>Sequential I/O\<close>

definition upd_seq :: "nat \<Rightarrow> (sequential_io \<Rightarrow> sequential_io) \<Rightarrow> cache_c \<Rightarrow> cache_c" where
  "upd_seq i f d = d\<lparr>seq_recent_ios := (seq_recent_ios d)(i := f (seq_recent_ios d i))\<rparr>"

definition seq_io_remove_from_lru :: "nat \<Rightarrow> cache_c \<Rightarrow> cache_c option" where
  "seq_io_remove_from_lru i d = do {
     d \<leftarrow> (case seq_prev (seq_recent_ios d i) of
             Some p \<Rightarrow> Some (upd_seq p (\<lambda>s. s\<lparr>seq_next := seq_next (seq_recent_ios d i)\<rparr>) d)
           | None \<Rightarrow> do {
               verify (seq_io_head d = Some i);
               Some (d\<lparr>seq_io_head := seq_next (seq_recent_ios d i)\<rparr>)
             });
     (case seq_next (seq_recent_ios d i) of
        Some n \<Rightarrow> Some (upd_seq n (\<lambda>s. s\<lparr>seq_prev := seq_prev (seq_recent_ios d i)\<rparr>) d)
      | None \<Rightarrow> do {
          verify (seq_io_tail d = Some i);
          Some (d\<lparr>seq_io_tail := seq_prev (seq_recent_ios d i)\<rparr>)
        })
   }"

definition seq_io_move_to_lruhead :: "nat \<Rightarrow> cache_c \<Rightarrow> cache_c option" where
  "seq_io_move_to_lruhead i d = do {
     d \<leftarrow> (if seq_prev (seq_recent_ios d i) \<noteq> None \<or> seq_next (seq_recent_ios d i) \<noteq> None
           then seq_io_remove_from_lru i d else Some d);
     let d = (case seq_io_head d of
                Some h \<Rightarrow> upd_seq h (\<lambda>s. s\<lparr>seq_prev := Some i\<rparr>) d
              | None \<Rightarrow> d);
     let d = upd_seq i (\<lambda>s. s\<lparr>seq_next := seq_io_head d, seq_prev := None\<rparr>) d;
     Some (d\<lparr>seq_io_head := Some i\<rparr>)
   }"

text \<open>
  The search along the flows: the first whose last sector is repeated (\<open>True\<close>) or continued
  (\<open>False\<close>) by the request.
\<close>

partial_function (option) seq_find ::
  "cache_c \<Rightarrow> sector \<Rightarrow> nat option \<Rightarrow> (nat \<times> bool) option option" where
  "seq_find d k ptr =
     (case ptr of
        None \<Rightarrow> Some None
      | Some i \<Rightarrow>
          if k = most_recent_sector (seq_recent_ios d i) then Some (Some (i, True))
          else if k = most_recent_sector (seq_recent_ios d i) + of_nat (block_size d)
          then Some (Some (i, False))
          else seq_find d k (seq_next (seq_recent_ios d i)))"

declare seq_find.simps [code]

definition move_if_not_head :: "nat \<Rightarrow> cache_c \<Rightarrow> cache_c option" where
  "move_if_not_head i d = (if seq_io_head d \<noteq> Some i then seq_io_move_to_lruhead i d else Some d)"

definition sequential_enough :: "nat \<Rightarrow> cache_c \<Rightarrow> bool" where
  "sequential_enough i d \<longleftrightarrow>
     push_bit 9 (sequential_count (seq_recent_ios d i) * of_nat (block_size d)) >
     (scast (of_int (sysctl_skip_seq_thresh_kb (sysctl d) * 1024) :: 32 word) :: u64)"

definition skip_sequential_io :: "bio \<Rightarrow> cache_c \<Rightarrow> (bool \<times> cache_c) option" where
  "skip_sequential_io b d =
     (if sysctl_skip_seq_thresh_kb (sysctl d) = 0 then Some (False, d)
      else do {
        found \<leftarrow> seq_find d (bi_sector b) (seq_io_head d);
        (skip, d) \<leftarrow> (case found of
            Some (i, True) \<Rightarrow> do {
              d \<leftarrow> move_if_not_head i d;
              Some (False, d)
            }
          | Some (i, False) \<Rightarrow> do {
              let d = upd_seq i (\<lambda>s. s\<lparr>most_recent_sector := bi_sector b,
                                     sequential_count := sequential_count s + 1\<rparr>) d;
              d \<leftarrow> move_if_not_head i d;
              Some (sequential_enough i d, d)
            }
          | None \<Rightarrow> do {
              i \<leftarrow> seq_io_tail d;
              d \<leftarrow> seq_io_move_to_lruhead i d;
              Some (False, upd_seq i (\<lambda>s. s\<lparr>most_recent_sector := bi_sector b,
                                          sequential_count := 1\<rparr>) d)
            });
        Some (skip, if \<not> skip then d
                    else if bi_is_write b then bump uncached_sequential_writes_update d
                    else bump uncached_sequential_reads_update d)
      })"

section \<open>Cacheability\<close>

definition flashcache_uncacheable :: "bio \<Rightarrow> cache_c \<Rightarrow> (bool \<times> cache_c) option" where
  "flashcache_uncacheable b d =
     (let pid = current_pid (kernel d); tgid = current_tgid (kernel d);
          find = (\<lambda>p l. flashcache_find_pid_locked p l d)
      in if bypass_cache d then Some (True, d)
      else if sysctl_cache_all (sysctl d) \<noteq> 0
      then (if find pid FLASHCACHE_BLACKLIST then Some (True, d)
            else let dontcache = find tgid FLASHCACHE_BLACKLIST
            in if dontcache \<and> find pid FLASHCACHE_WHITELIST then Some (False, d)
            else if \<not> dontcache then skip_sequential_io b d
            else Some (True, d))
      else (if find pid FLASHCACHE_WHITELIST then Some (False, d)
            else let dontcache = \<not> find tgid FLASHCACHE_WHITELIST
            in Some (if \<not> dontcache then find pid FLASHCACHE_BLACKLIST else True, d)))"

section \<open>Messages\<close>

text \<open>
  The kernel's parser of decimal numbers is the parameter \<open>kstrtoull\<close>; a pid is 32 bits wide.
\<close>

definition flashcache_message ::
  "(string \<Rightarrow> int option) \<Rightarrow> string list \<Rightarrow> cache_c \<Rightarrow> (int \<times> cache_c) option" where
  "flashcache_message kstrtoull argv d =
     (case argv of
        list_name # command # args \<Rightarrow>
          (let l = (if list_name = ''whitelist'' then Some FLASHCACHE_WHITELIST
                    else if list_name = ''blacklist'' then Some FLASHCACHE_BLACKLIST else None)
           in case l of
             None \<Rightarrow> Some (- EINVAL, d)
           | Some l \<Rightarrow>
               if command = ''add'' \<or> command = ''del''
               then (case args of
                   [arg] \<Rightarrow>
                     (case kstrtoull arg of
                        None \<Rightarrow> Some (- EINVAL, d)
                      | Some upid \<Rightarrow> do {
                          let pid = sint (of_int upid :: 32 word);
                          d \<leftarrow> (if command = ''add'' then flashcache_add_pid pid l d
                                else flashcache_del_pid pid l d);
                          Some (0, d)
                        })
                 | _ \<Rightarrow> Some (- EINVAL, d))
               else if command = ''delall''
               then (case args of
                   [] \<Rightarrow> do {
                     d \<leftarrow> flashcache_del_all_pids l False d;
                     Some (0, d)
                   }
                 | _ \<Rightarrow> Some (- EINVAL, d))
               else Some (- EINVAL, d))
      | _ \<Rightarrow> Some (- EINVAL, d))"

end
