(* ===== verification/Pfd_Stat.thy ===== *)
theory Pfd_Stat
  imports Cache
begin

text \<open>
  The access statistics of the prefetcher (\<open>pfd_stat.c\<close>): per process and device the current
  and the previous run of sequential reads and the stride between runs, kept in a queue of 64
  elements with the most recently used first, and the list of blocks to prefetch that follows
  from them. C \<open>long\<close> values are integers.
\<close>

definition PFD_STAT_COUNT :: nat where "PFD_STAT_COUNT = 64"
definition PFD_CACHE_BLOCK_COUNT :: int where "PFD_CACHE_BLOCK_COUNT = 16384"
definition PFD_CACHE_MAX_STEP :: int where "PFD_CACHE_MAX_STEP = 256"
definition PFD_CACHE_THRESHOLD_STEP :: int where "PFD_CACHE_THRESHOLD_STEP = 4"

section \<open>Runs and strides\<close>

definition reset_pfd_seq_stat :: "pfd_seq_stat \<Rightarrow> pfd_seq_stat" where
  "reset_pfd_seq_stat t = t\<lparr>count := 0\<rparr>"

definition is_bio_fit_seq_stat :: "nat \<Rightarrow> pfd_seq_stat \<Rightarrow> sector \<Rightarrow> bool" where
  "is_bio_fit_seq_stat bsize seq_stat k \<longleftrightarrow> start seq_stat + of_int (count seq_stat) * of_nat bsize = k"

definition upd_seq_stat :: "nat \<Rightarrow> (pfd_seq_stat \<Rightarrow> pfd_seq_stat) \<Rightarrow> pfd_stat \<Rightarrow> pfd_stat" where
  "upd_seq_stat i f t = t\<lparr>seq_stats := (seq_stats t)(i := f (seq_stats t i))\<rparr>"

definition reset_pfd_stat :: "pfd_stat \<Rightarrow> pfd_stat" where
  "reset_pfd_stat t =
     (upd_seq_stat 1 reset_pfd_seq_stat (upd_seq_stat 0 reset_pfd_seq_stat
        (t\<lparr>st_tgt := None, st_pid := - 1, st_stride := 0, st_stride_count := 0\<rparr>)))
       \<lparr>curr_seq_stat := 0, prev_seq_stat := 1\<rparr>"

definition swap_pfd_stat_curr_prev :: "pfd_stat \<Rightarrow> pfd_stat" where
  "swap_pfd_stat_curr_prev t = t\<lparr>prev_seq_stat := curr_seq_stat t, curr_seq_stat := prev_seq_stat t\<rparr>"

abbreviation curr_run :: "pfd_stat \<Rightarrow> pfd_seq_stat" where
  "curr_run t \<equiv> seq_stats t (curr_seq_stat t)"

abbreviation prev_run :: "pfd_stat \<Rightarrow> pfd_seq_stat" where
  "prev_run t \<equiv> seq_stats t (prev_seq_stat t)"

text \<open>The current run starts anew at a sector.\<close>

definition restart_run :: "sector \<Rightarrow> pfd_stat \<Rightarrow> pfd_stat" where
  "restart_run k t = upd_seq_stat (curr_seq_stat t) (\<lambda>_. \<lparr>start = k, count = 1\<rparr>) t"

definition no_stride :: "pfd_stat \<Rightarrow> pfd_stat" where
  "no_stride t = t\<lparr>st_stride := 0, st_stride_count := 0\<rparr>"

text \<open>The state machine of \<open>pfd_stat_update\<close> on the entry of the process.\<close>

definition pfd_stat_step :: "nat \<Rightarrow> nat \<Rightarrow> sector \<Rightarrow> pfd_stat \<Rightarrow> pfd_stat" where
  "pfd_stat_step bsize bshift k t =
     (let curr = curr_run t; prev = prev_run t in
      if count curr = 0
      then upd_seq_stat (curr_seq_stat t) (\<lambda>s. s\<lparr>count := count s + 1, start := k\<rparr>) t
      else if is_bio_fit_seq_stat bsize curr k
      then let t = upd_seq_stat (curr_seq_stat t) (\<lambda>s. s\<lparr>count := count s + 1\<rparr>) t
        in if count prev = 0 \<or> count curr + 1 \<le> count prev then t
           else no_stride (upd_seq_stat (prev_seq_stat t) reset_pfd_seq_stat t)
      else let delta = sint k - sint (start curr) in
        if count prev = 0
        then (if \<bar>delta\<bar> div 2 ^ bshift < count curr
              then no_stride (restart_run k t)
              else (restart_run k (swap_pfd_stat_curr_prev t))
                     \<lparr>st_stride := delta, st_stride_count := 1\<rparr>)
        else if count prev = count curr \<and> delta = st_stride t
        then (restart_run k (swap_pfd_stat_curr_prev t))\<lparr>st_stride_count := st_stride_count t + 1\<rparr>
        else let t = swap_pfd_stat_curr_prev t
          in no_stride (restart_run k (upd_seq_stat (prev_seq_stat t) reset_pfd_seq_stat t)))"

definition stat_info :: "sector \<Rightarrow> pfd_stat \<Rightarrow> pfd_stat_info" where
  "stat_info k t = \<lparr>last_sect = k, seq_count = count (curr_run t), seq_total_count = count (prev_run t),
     stride_distance_sect = st_stride t, stride_count = st_stride_count t\<rparr>"

section \<open>The queue\<close>

definition upd_elm :: "nat \<Rightarrow> (pfd_stat_elm \<Rightarrow> pfd_stat_elm) \<Rightarrow> pfd_stat_queue \<Rightarrow> pfd_stat_queue" where
  "upd_elm i f q = q\<lparr>stat_elms := (stat_elms q)(i := f (stat_elms q i))\<rparr>"

definition reset_pfd_stat_elm :: "pfd_stat_elm \<Rightarrow> pfd_stat_elm" where
  "reset_pfd_stat_elm e = e\<lparr>stat := reset_pfd_stat (stat e), elm_next := None, elm_prev := None\<rparr>"

definition reset_queue_elm :: "nat \<Rightarrow> pfd_stat_queue \<Rightarrow> pfd_stat_queue" where
  "reset_queue_elm i = upd_elm i (\<lambda>e. (reset_pfd_stat_elm e)
     \<lparr>elm_prev := (if i \<noteq> 0 then Some (i - 1) else None),
      elm_next := (if i \<noteq> PFD_STAT_COUNT - 1 then Some (i + 1) else None)\<rparr>)"

definition reset_pfd_stat_queue :: "pfd_stat_queue \<Rightarrow> pfd_stat_queue" where
  "reset_pfd_stat_queue q =
     (fold reset_queue_elm [0..<PFD_STAT_COUNT] q)
       \<lparr>stat_head := Some 0, stat_tail := Some (PFD_STAT_COUNT - 1)\<rparr>"

definition pfd_stat_elm_to_head :: "nat \<Rightarrow> pfd_stat_queue \<Rightarrow> pfd_stat_queue option" where
  "pfd_stat_elm_to_head elm q =
     (if stat_head q = Some elm then Some q
      else do {
        let q = (case elm_next (stat_elms q elm) of
                   Some n \<Rightarrow> upd_elm n (\<lambda>e. e\<lparr>elm_prev := elm_prev (stat_elms q elm)\<rparr>) q
                 | None \<Rightarrow> q);
        let q = (case elm_prev (stat_elms q elm) of
                   Some p \<Rightarrow> upd_elm p (\<lambda>e. e\<lparr>elm_next := elm_next (stat_elms q elm)\<rparr>) q
                 | None \<Rightarrow> q);
        let q = (if stat_tail q = Some elm then q\<lparr>stat_tail := elm_prev (stat_elms q elm)\<rparr> else q);
        h \<leftarrow> stat_head q;
        let q = upd_elm h (\<lambda>e. e\<lparr>elm_prev := Some elm\<rparr>) q;
        let q = upd_elm elm (\<lambda>e. e\<lparr>elm_next := Some h, elm_prev := None\<rparr>) q;
        Some (q\<lparr>stat_head := Some elm\<rparr>)
      })"

partial_function (option) queue_search_loop ::
  "pfd_stat_queue \<Rightarrow> nat \<Rightarrow> int \<Rightarrow> nat option \<Rightarrow> nat option option" where
  "queue_search_loop q dev pid ptr =
     (if ptr = None then Some None
      else if st_tgt (stat (stat_elms q (the ptr))) = Some dev \<and> st_pid (stat (stat_elms q (the ptr))) = pid
      then Some ptr
      else if st_tgt (stat (stat_elms q (the ptr))) = None then Some None
      else queue_search_loop q dev pid (elm_next (stat_elms q (the ptr))))"

declare queue_search_loop.simps [code]

definition pfd_stat_queue_search :: "pfd_stat_queue \<Rightarrow> nat \<Rightarrow> int \<Rightarrow> nat option option" where
  "pfd_stat_queue_search q dev pid = queue_search_loop q dev pid (stat_head q)"

definition pfd_stat_init :: "cache_c \<Rightarrow> cache_c" where
  "pfd_stat_init d = d\<lparr>main_queue := reset_pfd_stat_queue (main_queue d)\<rparr>"

definition pfd_stat_update :: "bio \<Rightarrow> cache_c \<Rightarrow> (pfd_stat_info \<times> cache_c) option" where
  "pfd_stat_update b d = do {
     let pid = current_pid (kernel d);
     let q = main_queue d;
     found \<leftarrow> pfd_stat_queue_search q (tgt d) pid;
     (e, q) \<leftarrow> (case found of
         Some e \<Rightarrow> Some (e, q)
       | None \<Rightarrow> do {
           e \<leftarrow> stat_tail q;
           Some (e, upd_elm e (\<lambda>x. x\<lparr>stat := (reset_pfd_stat (stat x))
                                     \<lparr>st_pid := pid, st_tgt := Some (tgt d)\<rparr>\<rparr>) q)
         });
     q \<leftarrow> pfd_stat_elm_to_head e q;
     let q = upd_elm e (\<lambda>x. x\<lparr>stat := pfd_stat_step (block_size d) (block_shift d) (bi_sector b) (stat x)\<rparr>) q;
     Some (stat_info (bi_sector b) (stat (stat_elms q e)), d\<lparr>main_queue := q\<rparr>)
   }"

section \<open>What to prefetch\<close>

definition prefetch_max_step :: "pfd_stat_info \<Rightarrow> int" where
  "prefetch_max_step info =
     (let max_step = min PFD_CACHE_MAX_STEP
            (stride_count info * seq_total_count info + seq_count info)
      in if stride_distance_sect info \<noteq> 0
         then min max_step (PFD_CACHE_BLOCK_COUNT div \<bar>stride_distance_sect info\<bar> * seq_total_count info)
         else max_step)"

text \<open>
  The three loops. Each returns the count of the C function and the blocks stored in the array,
  in the order of their indices.
\<close>

primrec prefetch_seq :: "nat \<Rightarrow> int \<Rightarrow> int \<Rightarrow> int \<Rightarrow> int list" where
  "prefetch_seq 0 k bsize disk_sects = []"
| "prefetch_seq (Suc n) k bsize disk_sects =
     (let k = k + bsize in if k \<ge> disk_sects then [] else k # prefetch_seq n k bsize disk_sects)"

partial_function (option) prefetch_forward ::
  "int \<Rightarrow> int \<Rightarrow> int \<Rightarrow> int \<Rightarrow> int \<Rightarrow> int \<Rightarrow> int \<Rightarrow> int list \<Rightarrow> (int \<times> int list) option" where
  "prefetch_forward max_step tot stride bsize disk_sects k j arr =
     (if j < tot
      then if int (length arr) \<ge> max_step then Some (max_step, arr)
        else if k + bsize \<ge> disk_sects then Some (int (length arr), arr)
        else prefetch_forward max_step tot stride bsize disk_sects (k + bsize) (j + 1) (arr @ [k + bsize])
      else prefetch_forward max_step tot stride bsize disk_sects (k + (stride - tot * bsize)) 0 arr)"

declare prefetch_forward.simps [code]

partial_function (option) prefetch_backward ::
  "int \<Rightarrow> int \<Rightarrow> int \<Rightarrow> int \<Rightarrow> int \<Rightarrow> int \<Rightarrow> int \<Rightarrow> int list \<Rightarrow> (int \<times> int list) option" where
  "prefetch_backward max_step tot stride bsize tmp1 k j arr =
     (if j < tot
      then if int (length arr) \<ge> max_step then Some (- max_step, arr)
        else if k - bsize < 0 then Some (- max (int (length arr) - j) 0, arr)
        else prefetch_backward max_step tot stride bsize tmp1 (k - bsize) (j + 1) (arr @ [k - bsize])
      else prefetch_backward max_step tot stride bsize 0
             (k + stride + tot * bsize - tmp1 * bsize) 0 arr)"

declare prefetch_backward.simps [code]

definition pfd_stat_get_prefetch_dbns :: "cache_c \<Rightarrow> pfd_stat_info \<Rightarrow> (int \<times> int list) option" where
  "pfd_stat_get_prefetch_dbns d info =
     (let tot = seq_total_count info; stride = stride_distance_sect info;
          bsize = 2 ^ block_shift d; max_step = prefetch_max_step info;
          disk_sects = int (disk_nr_sects (kernel d)); k = sint (last_sect info)
      in if stride_count info * tot + seq_count info < PFD_CACHE_THRESHOLD_STEP then Some (0, [])
         else if tot = 0
         then (let arr = prefetch_seq (nat max_step) k (int (block_size d)) disk_sects
               in Some (if int (length arr) < max_step then int (length arr) else max_step, arr))
         else if stride > 0
         then prefetch_forward max_step tot stride bsize disk_sects k (seq_count info) []
         else if stride < 0
         then (if tot = seq_count info
               then prefetch_backward max_step tot stride bsize 0
                      (k + stride + int (block_size d)) 0 []
               else prefetch_backward max_step tot stride bsize (seq_count info)
                      (k + (tot - seq_count info + 1) * bsize) (seq_count info) [])
         else Some (0, []))"

end
