(* ===== verification/Pfd_Cache.thy ===== *)
theory Pfd_Cache
  imports Pfd_Stat Lookup
begin

text \<open>
  The read ahead cache in memory (\<open>pfd_cache.c\<close>): a direct mapped cache of 16384 blocks per
  device, filled by the prefetcher from the disk or from the flash device and consulted by every
  request before the flash cache. A device is identified by its \<open>tgt\<close>. A reader that finds a
  block under preparation sleeps on the semaphore \<open>prepare_lock\<close>: the model suspends it and
  resumes it with \<open>pfd_cache_resume_bio\<close>. The reads issued are the requests of \<open>pfd_inflight\<close>;
  the content of the buffers is not modelled.
\<close>

definition PFD_CACHE_COUNT_PER_SET :: nat where "PFD_CACHE_COUNT_PER_SET = 4"
definition PFD_CACHE_BLOCKS :: nat where "PFD_CACHE_BLOCKS = 16384"
definition PFD_CACHE_MAX_SSD_SHIFT :: nat where "PFD_CACHE_MAX_SSD_SHIFT = 3"

section \<open>Access\<close>

definition get_meta :: "cache_c \<Rightarrow> nat \<Rightarrow> nat \<Rightarrow> pfd_cache_meta" where
  "get_meta d c i = metas (the (caches (main_cache_set d) c)) i"

definition upd_meta :: "nat \<Rightarrow> nat \<Rightarrow> (pfd_cache_meta \<Rightarrow> pfd_cache_meta) \<Rightarrow> cache_c \<Rightarrow> cache_c" where
  "upd_meta c i f d =
     d\<lparr>main_cache_set := (main_cache_set d)\<lparr>caches := (caches (main_cache_set d))
         (c := map_option (\<lambda>pc. pc\<lparr>metas := (metas pc)(i := f (metas pc i))\<rparr>)
                 (caches (main_cache_set d) c))\<rparr>\<rparr>"

definition dbn_to_cache_index :: "cache_c \<Rightarrow> sector \<Rightarrow> nat" where
  "dbn_to_cache_index d k = unat (drop_bit (block_shift d) k) mod PFD_CACHE_BLOCKS"

definition find_cache_in_cache_set :: "cache_c \<Rightarrow> nat option" where
  "find_cache_in_cache_set d =
     find (\<lambda>i. status_arr (main_cache_set d) i = set_valid \<and> dmc_arr (main_cache_set d) i = Some (tgt d))
       [0..<PFD_CACHE_COUNT_PER_SET]"

section \<open>Creation\<close>

text \<open>\<open>fresh\<close> is the content of the memory that \<open>vmalloc\<close> returns.\<close>

definition init_pfd_cache ::
  "(nat \<Rightarrow> pfd_cache_meta) \<Rightarrow> nat \<Rightarrow> cache_c \<Rightarrow> bool \<times> cache_c" where
  "init_pfd_cache fresh idx d =
     (let ok = alloc_ok d; d = alloc_next d
      in if \<not> ok then (False, d)
         else let ok = alloc_ok d; d = alloc_next d
         in if \<not> ok then (False, d)
            else (True, d\<lparr>main_cache_set := (main_cache_set d)\<lparr>caches := (caches (main_cache_set d))
                   (idx := Some \<lparr>pfd_dmc = tgt d,
                      metas = (\<lambda>i. (fresh i)\<lparr>meta_status := pfd_empty, hold_count := 0\<rparr>)\<rparr>)\<rparr>\<rparr>))"

definition pfd_cache_init :: "cache_c \<Rightarrow> int \<times> cache_c" where
  "pfd_cache_init d =
     (let ok = alloc_ok d; d = alloc_next d
      in if \<not> ok then (- 1, d)
         else let ok = alloc_ok d; d = alloc_next d
         in if \<not> ok then (- 1, d)
            else (0, d\<lparr>main_cache_set :=
                   \<lparr>pfd_count = 0, status_arr = (\<lambda>_. set_empty), dmc_arr = (\<lambda>_. None),
                    caches = (\<lambda>_. None)\<rparr>\<rparr>))"

definition pfd_cache_add :: "(nat \<Rightarrow> pfd_cache_meta) \<Rightarrow> cache_c \<Rightarrow> cache_c" where
  "pfd_cache_add fresh d =
     (let s = main_cache_set d in
      if \<exists>i \<in> {..<PFD_CACHE_COUNT_PER_SET}. status_arr s i \<noteq> set_empty \<and> dmc_arr s i = Some (tgt d)
      then d
      else if pfd_count s = PFD_CACHE_COUNT_PER_SET then d
      else case find (\<lambda>i. status_arr s i = set_empty) [0..<PFD_CACHE_COUNT_PER_SET] of
        None \<Rightarrow> d
      | Some i \<Rightarrow>
          let d = d\<lparr>main_cache_set := s\<lparr>status_arr := (status_arr s)(i := set_prepare),
                      dmc_arr := (dmc_arr s)(i := Some (tgt d)), pfd_count := pfd_count s + 1\<rparr>\<rparr>;
              (ok, d) = init_pfd_cache fresh i d; s = main_cache_set d
          in if \<not> ok
             then d\<lparr>main_cache_set := s\<lparr>status_arr := (status_arr s)(i := set_empty),
                      dmc_arr := (dmc_arr s)(i := None), pfd_count := pfd_count s - 1\<rparr>\<rparr>
             else d\<lparr>main_cache_set := s\<lparr>status_arr := (status_arr s)(i := set_valid)\<rparr>\<rparr>)"

section \<open>Reading\<close>

text \<open>
  The answer of \<open>pfd_cache_handle_bio\<close>: \<open>true\<close>, \<open>false\<close>, or asleep on the semaphore of the
  entry \<open>i\<close> of cache \<open>c\<close>.
\<close>

datatype handle_result = Served | Missed | Sleeps nat nat

text \<open>The part after the wait, for a holder of the entry.\<close>

definition pfd_finish_bio :: "bio \<Rightarrow> nat \<Rightarrow> nat \<Rightarrow> cache_c \<Rightarrow> handle_result \<times> cache_c" where
  "pfd_finish_bio b c i d =
     (if meta_status (get_meta d c i) \<noteq> pfd_valid
      then (Missed, upd_meta c i (\<lambda>m. m\<lparr>hold_count := hold_count m - 1\<rparr>) d)
      else (Served, upd_meta c i (\<lambda>m. m\<lparr>hold_count := hold_count m - 1\<rparr>)
                      (d\<lparr>completed := completed d @ [(b, 0)]\<rparr>)))"

definition pfd_cache_handle_bio :: "bio \<Rightarrow> cache_c \<Rightarrow> handle_result \<times> cache_c" where
  "pfd_cache_handle_bio b d =
     (case find_cache_in_cache_set d of
        None \<Rightarrow> (Missed, d)
      | Some c \<Rightarrow>
          let k = bi_sector b; i = dbn_to_cache_index d k; m = get_meta d c i
          in if meta_status m = pfd_empty \<or> meta_dbn m \<noteq> k then (Missed, d)
             else let d = upd_meta c i (\<lambda>m. m\<lparr>hold_count := hold_count m + 1\<rparr>) d
             in if meta_status m = pfd_prepare then (Sleeps c i, d)
                else pfd_finish_bio b c i d)"

text \<open>
  A sleeper goes on when it can take the semaphore, which it gives back at once, or when a signal
  interrupts \<open>down_interruptible\<close>, whose result the code ignores. \<open>None\<close>: it stays asleep.
\<close>

definition pfd_cache_resume_bio ::
  "bool \<Rightarrow> bio \<Rightarrow> nat \<Rightarrow> nat \<Rightarrow> cache_c \<Rightarrow> (handle_result \<times> cache_c) option" where
  "pfd_cache_resume_bio interrupted b c i d =
     (if interrupted
      then Some (pfd_finish_bio b c i (upd_meta c i (\<lambda>m. m\<lparr>prepare_lock := prepare_lock m + 1\<rparr>) d))
      else if prepare_lock (get_meta d c i) > 0
      then Some (pfd_finish_bio b c i d)
      else None)"

section \<open>Filling\<close>

definition pfd_up :: "pfd_cache_meta_status \<Rightarrow> nat \<Rightarrow> nat \<Rightarrow> cache_c \<Rightarrow> cache_c" where
  "pfd_up st c i = upd_meta c i (\<lambda>m. m\<lparr>meta_status := st, prepare_lock := prepare_lock m + 1\<rparr>)"

definition pfd_io_callback :: "bool \<Rightarrow> nat \<Rightarrow> nat \<Rightarrow> cache_c \<Rightarrow> cache_c" where
  "pfd_io_callback err c i d =
     (let d = pfd_up (if err then pfd_empty else pfd_valid) c i d;
          ssd = ssd_index (get_meta d c i)
      in if ssd \<ge> 0 then set_state (nat ssd) (state_of d (nat ssd) AND NOT BLOCK_IO_INPROG) d else d)"

definition dispatch_io_request :: "nat \<Rightarrow> nat \<Rightarrow> cache_c \<Rightarrow> cache_c" where
  "dispatch_io_request c i d =
     (let m = get_meta d c i; ssd = ssd_index m;
          region = (if ssd < 0 then (DiskDev, meta_dbn m, of_nat (block_size d))
                    else (CacheDev, INDEX_TO_CACHE_ADDR d (nat ssd), of_nat (block_size d)));
          ret = sync_error d; d = sync_next d
      in if ret \<noteq> 0 then pfd_up pfd_empty c i d
         else d\<lparr>pfd_inflight := pfd_inflight d @
                  [\<lparr>req_cache = c, req_meta = i, req_region = region\<rparr>]\<rparr>)"

definition get_ssd_cache_index :: "sector \<Rightarrow> cache_c \<Rightarrow> (int \<times> cache_c) option" where
  "get_ssd_cache_index k d = do {
     let tmp_bio = \<lparr>bi_id = 0, bi_sector = k, bi_size = push_bit 9 (of_nat (block_size d)),
                    bi_is_write = False, bi_barrier = False\<rparr>;
     (res, d) \<leftarrow> flashcache_lookup tmp_bio d;
     let found = (case res of Hit i \<Rightarrow> Some i | Victim i \<Rightarrow> Some i | Noroom \<Rightarrow> None);
     case found of
       None \<Rightarrow> Some (- 1, d)
     | Some i \<Rightarrow>
         if state_of d i AND VALID \<noteq> 0 \<and> dbn (cache d i) = k \<and>
            state_of d i AND BLOCK_IO_INPROG = 0 \<and> nr_queued (cache d i) = 0
         then Some (int i, set_state i (state_of d i OR CACHEREADINPROG) d)
         else Some (- 1, d)
   }"

text \<open>\<open>seq\<close> is the pair of \<open>*start\<close> and \<open>*count\<close>.\<close>

definition update_seq_status :: "cache_c \<Rightarrow> sector \<Rightarrow> int \<times> int \<Rightarrow> bool \<times> int \<times> int" where
  "update_seq_status d k seq =
     (let a = sint (push_bit (block_shift d) k + of_nat (md_blocks d * md_block_size d));
          (s, n) = seq
      in if s < 0 then (False, a, 1)
         else if s - a = int (block_size d) then (False, a, n + 1)
         else if a - s = n * 2 ^ block_shift d then (False, s, n + 1)
         else (True, a, 1))"

text \<open>One turn of the loop of \<open>pfd_cache_prefetch\<close>.\<close>

definition prefetch_one ::
  "nat \<Rightarrow> int \<Rightarrow> sector \<Rightarrow> (int \<times> int) \<times> int \<times> cache_c \<Rightarrow> ((int \<times> int) \<times> int \<times> cache_c) option" where
  "prefetch_one c ssd_max k = (\<lambda>(seq, ssd_count, d).
     let i = dbn_to_cache_index d k; m = get_meta d c i
     in if meta_status m \<noteq> pfd_empty \<and> meta_dbn m = k then Some (seq, ssd_count, d)
        else if meta_status m = pfd_prepare \<or> hold_count m > 0 then Some (seq, ssd_count, d)
        else do {
          let d = upd_meta c i
            (\<lambda>m. m\<lparr>meta_dbn := k, meta_status := pfd_prepare, prepare_lock := 0\<rparr>) d;
          (ssd, d) \<leftarrow> (if ssd_count < ssd_max then get_ssd_cache_index k d else Some (- 1, d));
          let d = dispatch_io_request c i (upd_meta c i (\<lambda>m. m\<lparr>ssd_index := ssd\<rparr>) d);
          if ssd \<ge> 0
          then (let (jump, seq) = update_seq_status d k seq
                in Some (seq, if jump then ssd_count + 1 else ssd_count, d))
          else Some (seq, ssd_count, d)
        })"

definition pfd_cache_prefetch :: "pfd_stat_info \<Rightarrow> cache_c \<Rightarrow> cache_c option" where
  "pfd_cache_prefetch info d = do {
     (n, arr) \<leftarrow> pfd_stat_get_prefetch_dbns d info;
     if n = 0 then Some d
     else case find_cache_in_cache_set d of
       None \<Rightarrow> Some d
     | Some c \<Rightarrow> do {
         let order = (if n > 0 then take (nat n) arr else rev (take (nat (- n)) arr));
         (seq, ssd_count, d) \<leftarrow> for_each (prefetch_one c (n div 2 ^ PFD_CACHE_MAX_SSD_SHIFT))
           (map of_int order) ((- 1, 0), 0, d);
         Some d
       }
   }"

section \<open>Reset\<close>

text \<open>The loops stop at the first entry in use; the entries before it are already emptied.\<close>

primrec reset_metas :: "nat \<Rightarrow> nat list \<Rightarrow> cache_c \<Rightarrow> bool \<times> cache_c" where
  "reset_metas c [] d = (True, d)"
| "reset_metas c (j # js) d =
     (if meta_status (get_meta d c j) = pfd_prepare \<or> hold_count (get_meta d c j) > 0
      then (False, d)
      else reset_metas c js (upd_meta c j (\<lambda>m. m\<lparr>meta_status := pfd_empty\<rparr>) d))"

primrec reset_caches :: "nat list \<Rightarrow> cache_c \<Rightarrow> bool \<times> cache_c" where
  "reset_caches [] d = (True, d)"
| "reset_caches (c # cs) d =
     (if status_arr (main_cache_set d) c = set_prepare then (False, d)
      else case caches (main_cache_set d) c of
        None \<Rightarrow> reset_caches cs d
      | Some _ \<Rightarrow>
          let (ok, d) = reset_metas c [0..<PFD_CACHE_BLOCKS] d
          in if ok then reset_caches cs d else (False, d))"

definition pfd_cache_reset :: "cache_c \<Rightarrow> int \<times> cache_c" where
  "pfd_cache_reset d =
     (let (ok, d) = reset_caches [0..<PFD_CACHE_COUNT_PER_SET] d in (if ok then 0 else - 1, d))"

text \<open>Writing to \<open>/proc/prefetchd_reset\<close> (\<open>prefetchd_reset.c\<close>).\<close>

definition prefetchd_reset :: "cache_c \<Rightarrow> cache_c" where
  "prefetchd_reset d = snd (pfd_cache_reset (pfd_stat_init d))"

end
