(* ===== verification/Requests.thy ===== *)
theory Requests
  imports Complete Ioctl Pfd_Cache
begin

text \<open>
  The request side of \<open>flashcache_main.c\<close>: reads and writes that hit or miss, the entry point
  \<open>flashcache_map\<close>, and the worker \<open>do_work\<close> of \<open>flashcache_subr.c\<close> that runs the queued jobs. The
  macro \<open>PREFETCHD_ON\<close> is defined: every cacheable read first asks the prefetcher's cache and
  afterwards triggers a prefetch.
\<close>

section \<open>Helpers\<close>

text \<open>A job for a block, unless memory is short or the failure is injected.\<close>

definition new_job_or_inject :: "32 word \<Rightarrow> bio \<Rightarrow> nat \<Rightarrow> cache_c \<Rightarrow> kcached_job option \<times> cache_c" where
  "new_job_or_inject flag b index d =
     (let (job, d) = new_kcached_job (Some b) (Some index) d;
          (injected, d) = inject flag d
      in if injected then (None, if job \<noteq> None then flashcache_free_cache_job d else d)
         else (job, d))"

text \<open>The request waits for a busy block, or fails when there is no memory for that.\<close>

definition enqueue_or_fail :: "32 word \<Rightarrow> bio \<Rightarrow> nat \<Rightarrow> action \<Rightarrow> cache_c \<Rightarrow> cache_c option" where
  "enqueue_or_fail flag b index act d =
     (let (pjob, d) = flashcache_alloc_pending_job d;
          (injected, d) = inject flag d;
          (pjob, d) = (if injected then (False, if pjob then flashcache_free_pending_job d else d)
                       else (pjob, d))
      in if \<not> pjob then flashcache_bio_endio b (- EIO) None d
         else flashcache_enq_pending b index act pjob d)"

definition block_idle :: "nat \<Rightarrow> cache_c \<Rightarrow> bool" where
  "block_idle i d \<longleftrightarrow> state_of d i AND BLOCK_IO_INPROG = 0 \<and> nr_queued (cache d i) = 0"

text \<open>No job for a hit: the request and those that queued meanwhile fail.\<close>

definition hit_failed :: "bio \<Rightarrow> nat \<Rightarrow> cache_c \<Rightarrow> cache_c option" where
  "hit_failed b index d = do {
     d \<leftarrow> flashcache_bio_endio b (- EIO) None d;
     d \<leftarrow> flashcache_free_pending_jobs index (- EIO) d;
     Some (set_state index (state_of d index AND NOT BLOCK_IO_INPROG) d)
   }"

text \<open>No job for a miss: the block moreover becomes invalid again.\<close>

definition miss_failed :: "bio \<Rightarrow> nat \<Rightarrow> cache_c \<Rightarrow> cache_c option" where
  "miss_failed b index d = do {
     d \<leftarrow> flashcache_bio_endio b (- EIO) None d;
     let d = d\<lparr>cached_blocks := cached_blocks d - 1\<rparr>;
     d \<leftarrow> flashcache_hash_remove (Some index) d;
     let d = set_state index ((state_of d index AND NOT VALID) OR INVALID) d;
     d \<leftarrow> flashcache_free_pending_jobs index (- EIO) d;
     flashcache_invalid_insert index (set_state index (state_of d index AND NOT BLOCK_IO_INPROG) d)
   }"

text \<open>A block takes the identity of the request.\<close>

definition claim_identity ::
  "((u64 \<Rightarrow> u64) \<Rightarrow> flashcache_stats \<Rightarrow> flashcache_stats) \<Rightarrow> 16 word \<Rightarrow> bio \<Rightarrow> nat \<Rightarrow> cache_c \<Rightarrow> cache_c option" where
  "claim_identity replaced busy b index d = do {
     d \<leftarrow> (if state_of d index AND VALID \<noteq> 0
           then flashcache_hash_remove (Some index) (bump replaced d)
           else Some (d\<lparr>cached_blocks := cached_blocks d + 1\<rparr>));
     let d = upd_blk index (\<lambda>c. c\<lparr>cache_state := VALID OR busy, dbn := bi_sector b\<rparr>) d;
     flashcache_hash_insert index d
   }"

text \<open>A picked invalid block that is not used goes back to the list of its set.\<close>

definition put_back :: "nat \<Rightarrow> cache_c \<Rightarrow> cache_c option" where
  "put_back index d =
     (if state_of d index = INVALID then flashcache_invalid_insert index d else Some d)"

section \<open>Reads\<close>

definition flashcache_read_hit :: "bio \<Rightarrow> nat \<Rightarrow> cache_c \<Rightarrow> cache_c option" where
  "flashcache_read_hit b index d =
     (if block_idle index d
      then let d = bump read_hits_update (set_state index (state_of d index OR CACHEREADINPROG) d);
               (job, d) = new_job_or_inject READ_HIT_JOB_ALLOC_FAIL b index d
           in case job of
                None \<Rightarrow> hit_failed b index d
              | Some job \<Rightarrow>
                  let job = job\<lparr>job_action := READCACHE\<rparr>;
                      d = bump ssd_reads_update (d\<lparr>nr_jobs := nr_jobs d + 1\<rparr>)
                  in Some (submit_io Io_callback False [job_cache job] [] job d)
      else enqueue_or_fail READ_HIT_PENDING_JOB_ALLOC_FAIL b index READCACHE d)"

definition flashcache_read_miss :: "bio \<Rightarrow> nat \<Rightarrow> cache_c \<Rightarrow> cache_c option" where
  "flashcache_read_miss b index d =
     (let (job, d) = new_job_or_inject READ_MISS_JOB_ALLOC_FAIL b index d
      in case job of
        None \<Rightarrow> miss_failed b index d
      | Some job \<Rightarrow>
          let job = job\<lparr>job_action := READDISK\<rparr>;
              d = bump disk_reads_update (d\<lparr>nr_jobs := nr_jobs d + 1\<rparr>);
              d = submit_io Io_callback False [job_disk job] [] job d
          in flashcache_clean_set (index div assoc d) (sysctl_clean_on_read_miss (sysctl d)) d)"

text \<open>The index of a lookup result (\<open>res > 0\<close>).\<close>

definition found_index :: "lookup_result \<Rightarrow> nat option" where
  "found_index res = (case res of Hit i \<Rightarrow> Some i | Victim i \<Rightarrow> Some i | Noroom \<Rightarrow> None)"

definition is_hit :: "bio \<Rightarrow> lookup_result \<Rightarrow> cache_c \<Rightarrow> bool" where
  "is_hit b res d \<longleftrightarrow>
     (case found_index res of
        None \<Rightarrow> False
      | Some i \<Rightarrow> state_of d i AND VALID \<noteq> 0 \<and> dbn (cache d i) = bi_sector b)"

definition put_back_found :: "lookup_result \<Rightarrow> cache_c \<Rightarrow> cache_c option" where
  "put_back_found res d = (case found_index res of None \<Rightarrow> Some d | Some i \<Rightarrow> put_back i d)"

text \<open>\<open>flashcache_read\<close> from the lookup on, with the statistics gathered before.\<close>

definition read_from_cache :: "bio \<Rightarrow> pfd_stat_info \<Rightarrow> cache_c \<Rightarrow> cache_c option" where
  "read_from_cache b info d = do {
     (res, d) \<leftarrow> flashcache_lookup b d;
     if is_hit b res d
     then do {
       index \<leftarrow> found_index res;
       d \<leftarrow> flashcache_read_hit b index d;
       pfd_cache_prefetch info d
     }
     else do {
       (queued, d) \<leftarrow> flashcache_inval_blocks b d;
       if queued \<noteq> 0
       then do {
         d \<leftarrow> (if queued < 0 then flashcache_bio_endio b (- EIO) None d else Some d);
         put_back_found res d
       }
       else do {
         (uncached, d) \<leftarrow> (if res = Noroom \<or> write_only_cache d \<noteq> 0 then Some (True, d)
                           else flashcache_uncacheable b d);
         if uncached
         then do {
           d \<leftarrow> put_back_found res d;
           d \<leftarrow> (if res = Noroom then flashcache_clean_set (hash_block d (bi_sector b)) 0 d
                 else Some d);
           d \<leftarrow> flashcache_start_uncached_io b d;
           pfd_cache_prefetch info d
         }
         else do {
           index \<leftarrow> found_index res;
           d \<leftarrow> claim_identity replace_update DISKREADINPROG b index d;
           d \<leftarrow> flashcache_read_miss b index d;
           pfd_cache_prefetch info d
         }
       }
     }
   }"

text \<open>The reader goes on, is served by the prefetcher's cache, or sleeps in it.\<close>

definition read_after_pfd ::
  "bio \<Rightarrow> pfd_stat_info \<Rightarrow> handle_result \<Rightarrow> cache_c \<Rightarrow> cache_c option" where
  "read_after_pfd b info res d =
     (case res of
        Served \<Rightarrow> Some d
      | Sleeps c i \<Rightarrow> Some (d\<lparr>pfd_waiters := pfd_waiters d @ [(b, info, c, i)]\<rparr>)
      | Missed \<Rightarrow> read_from_cache b info d)"

definition flashcache_read :: "bio \<Rightarrow> cache_c \<Rightarrow> cache_c option" where
  "flashcache_read b d = do {
     (info, d) \<leftarrow> pfd_stat_update b d;
     let (res, d) = pfd_cache_handle_bio b d;
     read_after_pfd b info res d
   }"

section \<open>Writes\<close>

definition launch_cache_write :: "kcached_job \<Rightarrow> cache_c \<Rightarrow> cache_c option" where
  "launch_cache_write job d =
     (if mode d = FLASHCACHE_WRITE_BACK
      then Some (submit_io Io_callback True [job_cache job] [] job d)
      else do {
        verify (mode d = FLASHCACHE_WRITE_THROUGH);
        Some (submit_io Io_callback True [job_disk job, job_cache job] [] job d)
      })"

definition flashcache_write_miss :: "bio \<Rightarrow> nat \<Rightarrow> cache_c \<Rightarrow> cache_c option" where
  "flashcache_write_miss b index d = do {
     (queued, d) \<leftarrow> flashcache_inval_blocks b d;
     if queued \<noteq> 0
     then do {
       d \<leftarrow> put_back index d;
       if queued < 0 then flashcache_bio_endio b (- EIO) None d else Some d
     }
     else do {
       d \<leftarrow> claim_identity wr_replace_update CACHEWRITEINPROG b index d;
       let (job, d) = new_job_or_inject WRITE_MISS_JOB_ALLOC_FAIL b index d;
       case job of
         None \<Rightarrow> miss_failed b index d
       | Some job \<Rightarrow> do {
           let d = bump ssd_writes_update (d\<lparr>nr_jobs := nr_jobs d + 1\<rparr>);
           let job = job\<lparr>job_action := WRITECACHE\<rparr>;
           d \<leftarrow> launch_cache_write job d;
           flashcache_clean_set (index div assoc d) (sysctl_clean_on_write_miss (sysctl d)) d
         }
     }
   }"

definition flashcache_write_hit :: "bio \<Rightarrow> nat \<Rightarrow> cache_c \<Rightarrow> cache_c option" where
  "flashcache_write_hit b index d =
     (if block_idle index d
      then (let d = (if state_of d index AND DIRTY \<noteq> 0 then bump dirty_write_hits_update d else d);
                d = bump write_hits_update d;
                d = set_state index (state_of d index OR CACHEWRITEINPROG) d;
                (job, d) = new_job_or_inject WRITE_HIT_JOB_ALLOC_FAIL b index d
            in case job of
                 None \<Rightarrow> hit_failed b index d
               | Some job \<Rightarrow> do {
                   let d = bump ssd_writes_update (d\<lparr>nr_jobs := nr_jobs d + 1\<rparr>);
                   let job = job\<lparr>job_action := WRITECACHE\<rparr>;
                   let d = (if mode d = FLASHCACHE_WRITE_BACK then d else bump disk_writes_update d);
                   d \<leftarrow> launch_cache_write job d;
                   if mode d = FLASHCACHE_WRITE_BACK then flashcache_clean_set (index div assoc d) 0 d
                   else Some d
                 })
      else enqueue_or_fail WRITE_HIT_PENDING_JOB_ALLOC_FAIL b index WRITECACHE d)"

definition flashcache_write :: "bio \<Rightarrow> cache_c \<Rightarrow> cache_c option" where
  "flashcache_write b d = do {
     (res, d) \<leftarrow> flashcache_lookup b d;
     case found_index res of
       Some index \<Rightarrow>
         if is_hit b res d then flashcache_write_hit b index d else flashcache_write_miss b index d
     | None \<Rightarrow> do {
         (queued, d) \<leftarrow> flashcache_inval_blocks b d;
         if queued \<noteq> 0
         then (if queued < 0 then flashcache_bio_endio b (- EIO) None d else Some d)
         else do {
           d \<leftarrow> flashcache_start_uncached_io b d;
           flashcache_clean_set (hash_block d (bi_sector b)) 0 d
         }
       }
   }"

section \<open>The entry point\<close>

definition EOPNOTSUPP :: int where "EOPNOTSUPP = 95"
definition DM_MAPIO_SUBMITTED :: int where "DM_MAPIO_SUBMITTED = 0"

definition flashcache_do_block_checks :: "bio \<Rightarrow> cache_c \<Rightarrow> bool" where
  "flashcache_do_block_checks b d \<longleftrightarrow>
     to_sector b \<le> of_nat (block_size d) \<and>
     bi_sector b AND block_mask d = io_end_sector b AND block_mask d"

definition map_uncacheable :: "bio \<Rightarrow> cache_c \<Rightarrow> (bool \<times> cache_c) option" where
  "map_uncacheable b d =
     (if bypass_cache d \<or> to_sector b \<noteq> of_nat (block_size d) then Some (True, d)
      else if bi_is_write b
      then (if mode d = FLASHCACHE_WRITE_AROUND then Some (True, d) else flashcache_uncacheable b d)
      else Some (False, d))"

definition flashcache_map :: "bio \<Rightarrow> cache_c \<Rightarrow> (int \<times> cache_c) option" where
  "flashcache_map b d = do {
     let sectors = unat (to_sector b);
     let d = (if sectors \<le> 32 then d\<lparr>size_hist := (size_hist d)(sectors := size_hist d sectors + 1)\<rparr>
              else d);
     if bi_barrier b then Some (- EOPNOTSUPP, d)
     else do {
       verify (flashcache_do_block_checks b d);
       let d = (if bi_is_write b then bump writes_update d else bump reads_update d);
       d \<leftarrow> (if sysctl_pid_do_expiry (sysctl d) \<noteq> 0 \<and> (whitelist d \<noteq> [] \<or> blacklist d \<noteq> [])
             then flashcache_pid_expiry_all_locked d else Some d);
       (uncacheable, d) \<leftarrow> map_uncacheable b d;
       d \<leftarrow> (if uncacheable
         then do {
           (queued, d) \<leftarrow> flashcache_inval_blocks b d;
           if queued \<noteq> 0
           then (if queued < 0 then flashcache_bio_endio b (- EIO) None d else Some d)
           else flashcache_start_uncached_io b d
         }
         else if bi_is_write b then flashcache_write b d else flashcache_read b d);
       Some (DM_MAPIO_SUBMITTED, d)
     }
   }"

section \<open>The worker\<close>

text \<open>
  \<open>process_jobs\<close> takes jobs from the head of a queue until it is empty. A job that is handled
  while the others wait may add to the queue, so the loop is a partial function.
\<close>

datatype work_queue = Md_complete | Pending_q | Md_io | Io_q | Uncached_complete

definition queue_of :: "work_queue \<Rightarrow> cache_c \<Rightarrow> kcached_job list" where
  "queue_of q d =
     (case q of
        Md_complete \<Rightarrow> q_md_complete_jobs d
      | Pending_q \<Rightarrow> q_pending_jobs d
      | Md_io \<Rightarrow> q_md_io_jobs d
      | Io_q \<Rightarrow> q_io_jobs d
      | Uncached_complete \<Rightarrow> q_uncached_io_complete_jobs d)"

definition pop_queue :: "work_queue \<Rightarrow> cache_c \<Rightarrow> cache_c" where
  "pop_queue q d =
     (case q of
        Md_complete \<Rightarrow> q_md_complete_jobs_update tl d
      | Pending_q \<Rightarrow> q_pending_jobs_update tl d
      | Md_io \<Rightarrow> q_md_io_jobs_update tl d
      | Io_q \<Rightarrow> q_io_jobs_update tl d
      | Uncached_complete \<Rightarrow> q_uncached_io_complete_jobs_update tl d)"

definition run_job :: "work_queue \<Rightarrow> kcached_job \<Rightarrow> cache_c \<Rightarrow> cache_c option" where
  "run_job q =
     (case q of
        Md_complete \<Rightarrow> flashcache_md_write_done
      | Pending_q \<Rightarrow> flashcache_do_pending
      | Md_io \<Rightarrow> flashcache_md_write_kickoff
      | Io_q \<Rightarrow> flashcache_do_io
      | Uncached_complete \<Rightarrow> flashcache_uncached_io_complete)"

partial_function (option) process_jobs :: "work_queue \<Rightarrow> cache_c \<Rightarrow> cache_c option" where
  "process_jobs q d =
     (if queue_of q d = [] then Some d
      else Option.bind (run_job q (hd (queue_of q d)) (pop_queue q d)) (process_jobs q))"

declare process_jobs.simps [code]

definition do_work :: "cache_c \<Rightarrow> cache_c option" where
  "do_work d = do {
     d \<leftarrow> process_jobs Md_complete d;
     d \<leftarrow> process_jobs Pending_q d;
     d \<leftarrow> process_jobs Md_io d;
     d \<leftarrow> process_jobs Io_q d;
     process_jobs Uncached_complete d
   }"

section \<open>Completions\<close>

text \<open>
  The block layer completes one of the requests in flight, with an error or without; \<open>err2\<close> is
  the write error of a copy. A metadata write that succeeds has reached the flash device.
\<close>

definition complete_io :: "nat \<Rightarrow> bool \<Rightarrow> bool \<Rightarrow> cache_c \<Rightarrow> cache_c option" where
  "complete_io n err err2 d = do {
     verify (n < length (io_inflight d));
     let r = io_inflight d ! n;
     let d = d\<lparr>io_inflight := take n (io_inflight d) @ drop (n + 1) (io_inflight d)\<rparr>;
     case io_fn r of
       Io_callback \<Rightarrow> flashcache_io_callback err (io_job r) d
     | Md_write_callback \<Rightarrow> do {
         index \<leftarrow> job_index (io_job r);
         let first = md_first d (INDEX_TO_MD_BLOCK d index);
         let d = (if err then d else d\<lparr>ssd_md := store_md_block first (io_md r) (ssd_md d)\<rparr>);
         Some (flashcache_md_write_callback err (io_job r) d)
       }
     | Uncached_io_callback \<Rightarrow> flashcache_uncached_io_callback err (io_job r) d
     | Kcopyd_callback \<Rightarrow> flashcache_kcopyd_callback err err2 (io_job r) d
     | Kcopyd_callback_sync \<Rightarrow> flashcache_kcopyd_callback_sync err err2 (io_job r) d
   }"

definition complete_pfd_io :: "nat \<Rightarrow> bool \<Rightarrow> cache_c \<Rightarrow> cache_c option" where
  "complete_pfd_io n err d = do {
     verify (n < length (pfd_inflight d));
     let r = pfd_inflight d ! n;
     let d = d\<lparr>pfd_inflight := take n (pfd_inflight d) @ drop (n + 1) (pfd_inflight d)\<rparr>;
     Some (pfd_io_callback err (req_cache r) (req_meta r) d)
   }"

text \<open>A sleeper of the prefetcher's cache wakes up.\<close>

definition resume_reader :: "nat \<Rightarrow> bool \<Rightarrow> cache_c \<Rightarrow> cache_c option" where
  "resume_reader n interrupted d = do {
     verify (n < length (pfd_waiters d));
     let (b, info, c, i) = pfd_waiters d ! n;
     let d = d\<lparr>pfd_waiters := take n (pfd_waiters d) @ drop (n + 1) (pfd_waiters d)\<rparr>;
     (res, d) \<leftarrow> pfd_cache_resume_bio interrupted b c i d;
     read_after_pfd b info res d
   }"

end
