(* ===== verification/Frame.thy ===== *)
theory Frame
  imports Requests
begin

text \<open>
  What an operation leaves alone, once for every observer. The locale \<open>block_frame\<close> takes an observer of the
  driver that does not look at blocks, sets, counters, statistics, sysctls and the pid and sequential I/O tables:
  the lookup, the replacement policies and the selection of dirty blocks keep its value. Its extension
  \<open>driver_frame\<close> (theory \<open>Write_Frame\<close>) does not look at jobs, queues and requests either: then the whole write path, the completions
  and the worker keep it.
\<close>

lemmas bindE = bind_eq_Some_E

locale block_frame =
  fixes v :: "cache_c \<Rightarrow> 'a"
  assumes blocks [simp]: "v (cache_update c1 d) = v d" "v (cache_sets_update c2 d) = v d"
    and fields [simp]:
  "v (sysctl_update f1 d) = v d" "v (cached_blocks_update f2 d) = v d"
  "v (nr_dirty_update f2 d) = v d" "v (clean_inprog_update f2 d) = v d"
  "v (lru_hot_blocks_update f2 d) = v d" "v (lru_warm_blocks_update f2 d) = v d"
  "v (delayed_clean_update f3 d) = v d" "v (diskclean_bufs_update f4 d) = v d"
  "v (sync_index_update f5 d) = v d"
  "v (flashcache_stats_update f6 d) = v d" "v (flashcache_errors_update f22 d) = v d"
  "v (latency_hist_update f7 d) = v d" "v (latency_hist_10ms_update f8 d) = v d"
  "v (write_clust_hist_update f9 d) = v d" "v (write_clust_hist_ovf_update f10 d) = v d"
  "v (size_hist_update f11 d) = v d" "v (bypass_cache_update f12 d) = v d"
  "v (hot_list_pct_update f2 d) = v d"
  "v (whitelist_update f16 d) = v d" "v (blacklist_update f16 d) = v d"
  "v (num_whitelist_pids_update f2 d) = v d" "v (num_blacklist_pids_update f2 d) = v d"
  "v (pid_expire_check_update f17 d) = v d" "v (seq_recent_ios_update f18 d) = v d"
  "v (seq_io_head_update f19 d) = v d" "v (seq_io_tail_update f19 d) = v d"
  "v (ssd_md_update f20 d) = v d" "v (kernel_update f21 d) = v d"
begin

lemma updates [simp]:
  "v (upd_blk i f d) = v d" "v (upd_set s g d) = v d" "v (set_state i x d) = v d"
  "v (bump h d) = v d" "v (bump_error h' d) = v d" "v (alloc_next d) = v d" "v (sync_next d) = v d"
  by (simp_all add: upd_blk_def upd_set_def set_state_def bump_def bump_error_def alloc_next_def sync_next_def Let_def)

section \<open>Hash and invalid list\<close>

lemma upd_bucket_kept [simp]: "v (upd_bucket s b x d) = v d"
  by (simp add: upd_bucket_def)

lemma invalid_insert_kept: "flashcache_invalid_insert i d = Some d' \<Longrightarrow> v d' = v d"
  by (auto simp: flashcache_invalid_insert_def Let_def split: if_splits)

lemma invalid_remove_kept: "flashcache_invalid_remove i d = Some d' \<Longrightarrow> v d' = v d"
  by (auto simp: flashcache_invalid_remove_def Let_def split: if_splits)

lemma invalid_get_kept: "flashcache_invalid_get s d = Some (r, d') \<Longrightarrow> v d' = v d"
  by (auto simp: flashcache_invalid_get_def Let_def split: if_splits dest: invalid_remove_kept elim!: bindE)

lemma hash_remove_kept: "flashcache_hash_remove oi d = Some d' \<Longrightarrow> v d' = v d"
  by (auto simp: flashcache_hash_remove_def Let_def split: if_splits option.splits elim!: bindE)

lemma hash_insert_kept: "flashcache_hash_insert i d = Some d' \<Longrightarrow> v d' = v d"
  by (auto simp: flashcache_hash_insert_def Let_def split: if_splits elim!: bindE)

section \<open>Replacement\<close>

lemma lru_lists_kept [simp]:
  "v (dec_list_blocks w s d) = v d" "v (inc_list_blocks w s d) = v d"
  "v (lru_unlink w i d) = v d"
  by (simp_all add: dec_list_blocks_def inc_list_blocks_def lru_unlink_def Let_def)

lemma reclaim_remove_kept: "flashcache_reclaim_remove_block_from_list i d = Some d' \<Longrightarrow> v d' = v d"
  by (auto simp: flashcache_reclaim_remove_block_from_list_def Let_def split: if_splits elim!: bindE)

lemma reclaim_mru_kept: "flashcache_reclaim_add_block_to_list_mru i d = Some d' \<Longrightarrow> v d' = v d"
  by (auto simp: flashcache_reclaim_add_block_to_list_mru_def Let_def split: if_splits elim!: bindE)

lemma reclaim_lru_kept: "flashcache_reclaim_add_block_to_list_lru i d = Some d' \<Longrightarrow> v d' = v d"
  by (auto simp: flashcache_reclaim_add_block_to_list_lru_def Let_def split: if_splits elim!: bindE)

lemmas reclaim_list_kepts = reclaim_remove_kept reclaim_mru_kept reclaim_lru_kept

lemma move_to_mru_kept: "flashcache_reclaim_move_to_mru i d = Some d' \<Longrightarrow> v d' = v d"
  by (auto simp: flashcache_reclaim_move_to_mru_def elim!: bindE dest!: reclaim_list_kepts)

lemma promote_kept: "flashcache_reclaim_promote_block i d = Some (r, d') \<Longrightarrow> v d' = v d"
  by (auto simp: flashcache_reclaim_promote_block_def Let_def split: if_splits elim!: bindE
      dest!: reclaim_list_kepts)

lemma demote_kept: "flashcache_reclaim_demote_block i d = Some (r, d') \<Longrightarrow> v d' = v d"
  by (auto simp: flashcache_reclaim_demote_block_def Let_def split: if_splits elim!: bindE
      dest!: reclaim_list_kepts)

lemma lru_accessed_kept: "flashcache_lru_accessed i d = Some d' \<Longrightarrow> v d' = v d"
  by (auto simp: flashcache_lru_accessed_def Let_def split: if_splits elim!: bindE
      dest!: move_to_mru_kept promote_kept)

lemma lru_old_block_kept:
  "flashcache_reclaim_lru_get_old_block s d = Some (r, d') \<Longrightarrow> v d' = v d"
  by (auto simp: flashcache_reclaim_lru_get_old_block_def Let_def split: if_splits option.splits
      elim!: bindE dest!: move_to_mru_kept demote_kept)

lemma fifo_old_block_kept:
  "flashcache_reclaim_fifo_get_old_block s d = Some (r, d') \<Longrightarrow> v d' = v d"
  by (auto simp: flashcache_reclaim_fifo_get_old_block_def Let_def elim!: bindE)

lemma for_each_kept:
  assumes "for_each f xs d = Some d'" and "\<And>x d d'. f x d = Some d' \<Longrightarrow> v d' = v d"
  shows "v d' = v d"
  using assms(1) by (induction xs arbitrary: d) (auto elim!: bindE dest!: assms(2))

lemma rebalance_set_kept: "rebalance_set w n s d = Some d' \<Longrightarrow> v d' = v d"
  by (induction n arbitrary: d) (auto simp: Let_def split: if_splits elim!: bindE dest!: reclaim_list_kepts)

lemma rebalance_kept: "flashcache_reclaim_rebalance_lru p d = Some d' \<Longrightarrow> v d' = v d"
  by (auto simp: flashcache_reclaim_rebalance_lru_def Let_def split: if_splits elim!: bindE
      dest!: for_each_kept intro: rebalance_set_kept)

section \<open>Lookup\<close>

lemma inject_kept [simp]: "v (snd (inject flag d)) = v d"
  by (simp add: inject_def)

lemma inject_keptD: "inject flag d = (r, d') \<Longrightarrow> v d' = v d"
  using inject_kept [of flag d] by simp

lemma detect_fallow_kept [simp]: "v (flashcache_detect_fallow i d) = v d"
  by (simp add: flashcache_detect_fallow_def)

lemma detect_fallow_fold_kept [simp]: "v (fold flashcache_detect_fallow is d) = v d"
  by (induction "is" arbitrary: d) simp_all

lemma clear_fallow_kept: "flashcache_clear_fallow i d = Some d' \<Longrightarrow> v d' = v d"
  by (auto simp: flashcache_clear_fallow_def Let_def split: if_splits elim!: bindE)

lemma find_valid_kept: "find_valid_dbn k s d = Some (r, d') \<Longrightarrow> v d' = v d"
  by (auto simp: find_valid_dbn_def split: if_splits option.splits elim!: bindE
      dest!: lru_accessed_kept clear_fallow_kept)

lemma find_invalid_kept: "find_invalid_dbn s d = Some (r, d') \<Longrightarrow> v d' = v d"
  by (auto simp: find_invalid_dbn_def split: if_splits option.splits elim!: bindE
      dest!: lru_accessed_kept invalid_get_kept)

lemma find_reclaim_kept: "find_reclaim_dbn s d = Some (r, d') \<Longrightarrow> v d' = v d"
  by (auto simp: find_reclaim_dbn_def split: if_splits dest!: fifo_old_block_kept lru_old_block_kept)

lemma lookup_kept: "flashcache_lookup b d = Some (r, d') \<Longrightarrow> v d' = v d"
  by (auto simp: flashcache_lookup_def Let_def split: option.splits elim!: bindE
      dest!: find_valid_kept find_invalid_kept find_reclaim_kept)

section \<open>Selection of blocks to clean\<close>

lemma claim_kept: "claim_block i d = Some d' \<Longrightarrow> v d' = v d"
  by (auto simp: claim_block_def dest!: clear_fallow_kept)

lemma merge_neighbors_kept:
  assumes "merge_neighbors back s n wl d = Some (wl', d')"
  shows "v d' = v d"
proof -
  have "v (snd (wl', d')) = v d"
    by (rule merge_neighbors.raw_induct [where P = "\<lambda>_ _ _ _ d r. v (snd r) = v d", OF _ assms])
      (auto split: option.splits if_splits simp: Let_def elim!: bindE dest!: claim_kept; fastforce)
  then show ?thesis by simp
qed

lemma merge_one_kept: "merge_one s p (wl, d) = Some (wl', d') \<Longrightarrow> v d' = v d"
  by (auto simp: merge_one_def elim!: bindE dest!: merge_neighbors_kept)

lemma merge_all_kept: "for_each (merge_one s) ps (wl, d) = Some (wl', d') \<Longrightarrow> v d' = v d"
proof (induction ps arbitrary: wl d)
  case (Cons p ps)
  then obtain wl1 d1 where "merge_one s p (wl, d) = Some (wl1, d1)"
    "for_each (merge_one s) ps (wl1, d1) = Some (wl', d')" by (auto elim!: bindE)
  with Cons.IH merge_one_kept show ?case by metis
qed simp

lemma merge_writes_kept: "flashcache_merge_writes wl s d = Some (wl', d') \<Longrightarrow> v d' = v d"
  by (auto simp: flashcache_merge_writes_def split: if_splits elim!: bindE dest!: merge_all_kept)

lemma clean_fallow_kept: "clean_fallow is s wl d = Some (r, wl', d') \<Longrightarrow> v d' = v d"
  by (induction "is" arbitrary: wl d) (auto split: if_splits elim!: bindE dest!: claim_kept)

lemma clean_fifo_kept: "clean_fifo n i s st th wl d = Some (r, wl', d') \<Longrightarrow> v d' = v d"
  by (induction n arbitrary: i wl d) (auto split: if_splits elim!: bindE dest!: claim_kept)

lemma clean_lru_kept:
  assumes "clean_lru rel s st th f sc wl d = Some (r, sc', wl', d')"
  shows "v d' = v d"
proof -
  have "v (snd (snd (snd (r, sc', wl', d')))) = v d"
    by (rule clean_lru.raw_induct
        [where P = "\<lambda>_ _ _ _ _ _ _ d r. v (snd (snd (snd r))) = v d", OF _ assms])
      (auto split: if_splits simp: Let_def elim!: bindE dest!: claim_kept; fastforce)
  then show ?thesis by simp
qed

lemma clean_target_kept: "clean_target s f n d = (r, d') \<Longrightarrow> v d' = v d"
  by (auto simp: clean_target_def Let_def split: if_splits)

lemma clean_select_kept: "clean_select s f d = Some (r, wl, d') \<Longrightarrow> v d' = v d"
  by (auto simp: clean_select_def Let_def split: if_splits option.splits prod.splits elim!: bindE
      dest!: clean_fallow_kept clean_fifo_kept clean_lru_kept clean_target_kept)

section \<open>Processes and sequential I/O\<close>

lemma set_pids_kept [simp]: "v (set_pids l xs n d) = v d"
  by (simp add: set_pids_def split: pid_list.splits)

lemma upd_seq_kept [simp]: "v (upd_seq i f d) = v d"
  by (simp add: upd_seq_def)

lemma del_pid_kept: "flashcache_del_pid_locked p l d = Some d' \<Longrightarrow> v d' = v d"
  by (auto simp: flashcache_del_pid_locked_def split: option.splits elim!: bindE)

lemma drop_pids_kept:
  assumes "flashcache_drop_pids l d = Some d'"
  shows "v d' = v d"
  by (rule flashcache_drop_pids.raw_induct [where P = "\<lambda>_ d d'. v d' = v d", OF _ assms])
    (auto split: if_splits elim!: bindE dest!: del_pid_kept; fastforce)

lemma add_pid_kept: "flashcache_add_pid p l d = Some d' \<Longrightarrow> v d' = v d"
  by (auto simp: flashcache_add_pid_def Let_def split: if_splits elim!: bindE dest!: drop_pids_kept)

lemma del_all_loop_kept:
  assumes "del_all_loop l f todo d = Some d'"
  shows "v d' = v d"
  by (rule del_all_loop.raw_induct [where P = "\<lambda>_ _ _ d d'. v d' = v d", OF _ assms])
    (auto split: if_splits list.splits elim!: bindE dest!: del_pid_kept; fastforce)

lemma del_all_kept: "flashcache_del_all_pids l f d = Some d' \<Longrightarrow> v d' = v d"
  by (simp add: flashcache_del_all_pids_def del_all_loop_kept)

lemma expiry_loop_kept: "pid_expiry_loop ns kept l d = Some d' \<Longrightarrow> v d' = v d"
  by (induction ns arbitrary: kept d) (auto split: if_splits elim!: bindE)

lemma expiry_kept: "flashcache_pid_expiry_all_locked d = Some d' \<Longrightarrow> v d' = v d"
  by (auto simp: flashcache_pid_expiry_all_locked_def flashcache_pid_expiry_list_locked_def
      split: if_splits elim!: bindE dest!: expiry_loop_kept)

lemma seq_remove_kept: "seq_io_remove_from_lru i d = Some d' \<Longrightarrow> v d' = v d"
  by (auto simp: seq_io_remove_from_lru_def split: option.splits if_splits elim!: bindE)

lemma seq_move_kept: "seq_io_move_to_lruhead i d = Some d' \<Longrightarrow> v d' = v d"
  by (auto simp: seq_io_move_to_lruhead_def Let_def split: option.splits if_splits elim!: bindE
      dest!: seq_remove_kept)

lemma move_if_not_head_kept: "move_if_not_head i d = Some d' \<Longrightarrow> v d' = v d"
  by (auto simp: move_if_not_head_def split: if_splits dest!: seq_move_kept)

lemma skip_sequential_kept: "skip_sequential_io b d = Some (r, d') \<Longrightarrow> v d' = v d"
  by (auto simp: skip_sequential_io_def split: if_splits option.splits bool.splits elim!: bindE
      dest!: seq_move_kept move_if_not_head_kept)

lemma uncacheable_kept: "flashcache_uncacheable b d = Some (r, d') \<Longrightarrow> v d' = v d"
  by (auto simp: flashcache_uncacheable_def Let_def split: if_splits dest!: skip_sequential_kept)

lemma message_kept: "flashcache_message k argv d = Some (r, d') \<Longrightarrow> v d' = v d"
  by (auto simp: flashcache_message_def flashcache_del_pid_def Let_def
      split: if_splits option.splits list.splits elim!: bindE
      dest!: add_pid_kept del_pid_kept del_all_kept)

end

text \<open>The prefetcher works on its cache and its requests.\<close>

locale prefetch_frame = block_frame v for v :: "cache_c \<Rightarrow> 'a" +
  assumes prefetches [simp]: "v (main_cache_set_update p1 d) = v d" "v (pfd_inflight_update p2 d) = v d"
begin

section \<open>The prefetcher\<close>

lemma upd_meta_kept [simp]: "v (upd_meta c i f d) = v d"
  by (simp add: upd_meta_def)

lemma pfd_io_callback_kept [simp]: "v (pfd_io_callback e c i d) = v d"
  by (simp add: pfd_io_callback_def pfd_up_def Let_def)

lemma dispatch_kept [simp]: "v (dispatch_io_request c i d) = v d"
  by (simp add: dispatch_io_request_def pfd_up_def Let_def)

lemma ssd_index_kept: "get_ssd_cache_index k d = Some (r, d') \<Longrightarrow> v d' = v d"
  by (auto simp: get_ssd_cache_index_def Let_def split: lookup_result.splits if_splits
      elim!: bindE dest!: lookup_kept)

lemma prefetch_one_kept: "prefetch_one c m k (sq, n, d) = Some (sq', n', d') \<Longrightarrow> v d' = v d"
  by (auto simp: prefetch_one_def Let_def split: if_splits prod.splits elim!: bindE
      dest!: ssd_index_kept)

lemma prefetch_all_kept:
  "for_each (prefetch_one c m) ks (sq, n, d) = Some (sq', n', d') \<Longrightarrow> v d' = v d"
proof (induction ks arbitrary: sq n d)
  case (Cons k ks)
  then obtain r where "prefetch_one c m k (sq, n, d) = Some r"
    "for_each (prefetch_one c m) ks r = Some (sq', n', d')" by (auto elim!: bindE)
  with Cons.IH prefetch_one_kept show ?case by (metis prod.exhaust)
qed simp

lemma prefetch_kept: "pfd_cache_prefetch info d = Some d' \<Longrightarrow> v d' = v d"
  by (auto simp: pfd_cache_prefetch_def Let_def split: if_splits option.splits elim!: bindE
      dest!: prefetch_all_kept)

end

end
