(* ===== verification/View.thy ===== *)
theory View
  imports Frame
begin

text \<open>
  What the lower operations leave alone: the shape of the cache (its geometry and mode) and the
  flow of work (jobs, queues, requests in flight and completed). The two are one tuple, \<open>view\<close>;
  an operation that touches blocks, sets, counters or statistics only keeps it.
\<close>

definition shape :: "cache_c \<Rightarrow> (nat \<times> nat \<times> nat \<times> nat \<times> nat \<times> nat) \<times> nat \<times> nat \<times> cache_mode \<times> int" where
  "shape d = ((csize d, assoc d, assoc_shift d, num_sets d, block_size d, block_shift d),
     md_block_size d, md_blocks d, mode d, on_ssd_version d)"

definition flow where
  "flow d = ((nr_jobs d, nr_cache_jobs d, nr_pending_jobs d, pending_jobs_count d),
     (pending_job_hashbuckets d, io_inflight d, md_blocks_buf d, completed d, pfd_waiters d),
     q_pending_jobs d, q_io_jobs d, q_md_io_jobs d, q_md_complete_jobs d,
     q_uncached_io_complete_jobs d)"

definition view where "view d = (shape d, flow d)"

lemmas view_defs = view_def shape_def flow_def

text \<open>The lower operations keep it, by the lemmas of \<open>block_frame\<close>.\<close>

interpretation seen: prefetch_frame view
  by unfold_locales (simp_all add: view_defs)

lemma main_queue_view [simp]: "view (main_queue_update h d) = view d"
  by (simp add: view_defs)

lemmas view_upd = seen.updates
lemmas view_fields = seen.blocks seen.fields seen.prefetches main_queue_view
lemmas invalid_insert_view = seen.invalid_insert_kept
lemmas hash_remove_view = seen.hash_remove_kept
lemmas hash_insert_view = seen.hash_insert_kept
lemmas reclaim_lru_view = seen.reclaim_lru_kept
lemmas for_each_view = seen.for_each_kept
lemmas rebalance_view = seen.rebalance_kept
lemmas inject_viewD = seen.inject_keptD
lemmas clear_fallow_view = seen.clear_fallow_kept
lemmas lookup_view = seen.lookup_kept
lemmas claim_view = seen.claim_kept
lemmas merge_writes_view = seen.merge_writes_kept
lemmas clean_select_view = seen.clean_select_kept
lemmas expiry_view = seen.expiry_kept
lemmas seq_move_view = seen.seq_move_kept
lemmas uncacheable_view = seen.uncacheable_kept
lemmas message_view = seen.message_kept
lemmas upd_meta_view = seen.upd_meta_kept
lemmas prefetch_view = seen.prefetch_kept

lemma stat_update_view: "pfd_stat_update b d = Some (r, d') \<Longrightarrow> view d' = view d"
  by (auto simp: pfd_stat_update_def Let_def elim!: bindE)

end
