(* ===== verification/Ledger.thy ===== *)
theory Ledger
  imports View
begin

text \<open>
  Bookkeeping of the work in the driver. A request (bio) that the driver has accepted is at any
  time in exactly one place: carried by a job, queued on a block, asleep in the prefetcher's
  cache, or completed. The counters \<open>nr_jobs\<close>, \<open>nr_cache_jobs\<close>, \<open>nr_pending_jobs\<close> and
  \<open>pending_jobs_count\<close> follow the jobs and the queued requests. This theory states what each
  operation does to these accounts; \<open>eff\<close> says it as differences, so that operations compose by
  addition.
\<close>

section \<open>The accounts\<close>

definition job_weight :: "(bio \<Rightarrow> int) \<Rightarrow> kcached_job \<Rightarrow> int" where
  "job_weight g job = (case job_bio job of None \<Rightarrow> 0 | Some b \<Rightarrow> g b)"

definition active_jobs :: "cache_c \<Rightarrow> kcached_job list" where
  "active_jobs d = map io_job (io_inflight d) @ q_pending_jobs d @ q_io_jobs d @ q_md_io_jobs d @
     q_md_complete_jobs d @ q_uncached_io_complete_jobs d"

definition pend_weight :: "(pending_job \<Rightarrow> int) \<Rightarrow> (nat \<Rightarrow> pending_job list) \<Rightarrow> int" where
  "pend_weight w q = (\<Sum>b < PENDING_JOB_HASH_SIZE. sum_list (map w (q b)))"

definition nr_pend :: "cache_c \<Rightarrow> int" where
  "nr_pend d = pend_weight (\<lambda>_. 1) (pending_job_hashbuckets d)"

definition bios :: "(bio \<Rightarrow> int) \<Rightarrow> cache_c \<Rightarrow> int" where
  "bios g d = sum_list (map (job_weight g) (active_jobs d)) +
     pend_weight (\<lambda>p. g (pj_bio p)) (pending_job_hashbuckets d) +
     sum_list (map (\<lambda>w. g (fst w)) (pfd_waiters d)) + sum_list (map (\<lambda>c. g (fst c)) (completed d))"

definition jgap :: "cache_c \<Rightarrow> int" where "jgap d = nr_jobs d - int (length (active_jobs d))"
definition cgap :: "cache_c \<Rightarrow> int" where "cgap d = nr_cache_jobs d - int (length (active_jobs d))"
definition pgap :: "cache_c \<Rightarrow> int" where "pgap d = nr_pending_jobs d - nr_pend d"
definition qgap :: "cache_c \<Rightarrow> int" where "qgap d = pending_jobs_count d - nr_pend d"

text \<open>What only the metadata path and the queue of pending jobs change.\<close>

definition md_request :: "io_request \<Rightarrow> bool" where
  "md_request r \<longleftrightarrow> io_fn r = Md_write_callback"

definition quview where
  "quview d = (shape d, md_blocks_buf d, q_pending_jobs d, q_md_io_jobs d, q_md_complete_jobs d,
     filter md_request (io_inflight d))"

lemmas gap_defs = jgap_def cgap_def pgap_def qgap_def bios_def nr_pend_def active_jobs_def

lemma view_gaps:
  assumes "view d' = view d"
  shows "jgap d' = jgap d" "cgap d' = cgap d" "pgap d' = pgap d" "qgap d' = qgap d"
    "bios g d' = bios g d" "quview d' = quview d"
  using assms by (simp_all add: gap_defs view_def flow_def quview_def)

lemmas gaps_upd [simp] = view_upd [THEN view_gaps(1)] view_upd [THEN view_gaps(2)]
  view_upd [THEN view_gaps(3)] view_upd [THEN view_gaps(4)] view_upd [THEN view_gaps(5)]
  view_upd [THEN view_gaps(6)]

lemmas gaps_fields [simp] = view_fields [THEN view_gaps(1)] view_fields [THEN view_gaps(2)]
  view_fields [THEN view_gaps(3)] view_fields [THEN view_gaps(4)] view_fields [THEN view_gaps(5)]
  view_fields [THEN view_gaps(6)]

lemma gaps_counters [simp]:
  "jgap (nr_jobs_update f d) = jgap d + f (nr_jobs d) - nr_jobs d"
  "cgap (nr_jobs_update f d) = cgap d" "pgap (nr_jobs_update f d) = pgap d"
  "qgap (nr_jobs_update f d) = qgap d" "bios g (nr_jobs_update f d) = bios g d"
  "quview (nr_jobs_update f d) = quview d"
  by (simp_all add: gap_defs quview_def shape_def)

lemma gaps_completed [simp]:
  "jgap (completed_update h d) = jgap d" "cgap (completed_update h d) = cgap d"
  "pgap (completed_update h d) = pgap d" "qgap (completed_update h d) = qgap d"
  "quview (completed_update h d) = quview d"
  "bios g (d\<lparr>completed := completed d @ [c]\<rparr>) = bios g d + g (fst c)"
  by (simp_all add: gap_defs quview_def shape_def)

lemma gaps_submit [simp]:
  "jgap (submit_io fn w r m job d) = jgap d - 1" "cgap (submit_io fn w r m job d) = cgap d - 1"
  "pgap (submit_io fn w r m job d) = pgap d" "qgap (submit_io fn w r m job d) = qgap d"
  "bios g (submit_io fn w r m job d) = bios g d + job_weight g job"
  "fn \<noteq> Md_write_callback \<Longrightarrow> quview (submit_io fn w r m job d) = quview d"
  by (simp_all add: gap_defs quview_def shape_def submit_io_def md_request_def)

lemma gaps_free [simp]:
  "jgap (flashcache_free_cache_job d) = jgap d" "cgap (flashcache_free_cache_job d) = cgap d - 1"
  "pgap (flashcache_free_cache_job d) = pgap d" "qgap (flashcache_free_cache_job d) = qgap d"
  "bios g (flashcache_free_cache_job d) = bios g d" "quview (flashcache_free_cache_job d) = quview d"
  "jgap (flashcache_free_pending_job d) = jgap d" "cgap (flashcache_free_pending_job d) = cgap d"
  "pgap (flashcache_free_pending_job d) = pgap d - 1" "qgap (flashcache_free_pending_job d) = qgap d"
  "bios g (flashcache_free_pending_job d) = bios g d"
  "quview (flashcache_free_pending_job d) = quview d"
  by (simp_all add: gap_defs quview_def shape_def flashcache_free_cache_job_def
      flashcache_free_pending_job_def)

section \<open>Effects\<close>

definition eff ::
  "cache_c \<Rightarrow> cache_c \<Rightarrow> int \<Rightarrow> int \<Rightarrow> int \<Rightarrow> int \<Rightarrow> ((bio \<Rightarrow> int) \<Rightarrow> int) \<Rightarrow> bool" where
  "eff d d' j c p q f \<longleftrightarrow> quview d' = quview d \<and> jgap d' = jgap d + j \<and> cgap d' = cgap d + c \<and>
     pgap d' = pgap d + p \<and> qgap d' = qgap d + q \<and> (\<forall>g. bios g d' = bios g d + f g)"

abbreviation neutral :: "cache_c \<Rightarrow> cache_c \<Rightarrow> bool" where
  "neutral d d' \<equiv> eff d d' 0 0 0 0 (\<lambda>_. 0)"

text \<open>An operation that takes a request in hand and puts it somewhere.\<close>

abbreviation places :: "bio \<Rightarrow> cache_c \<Rightarrow> cache_c \<Rightarrow> bool" where
  "places b d d' \<equiv> eff d d' 0 0 0 0 (\<lambda>g. g b)"

lemma eff_view: "view d' = view d \<Longrightarrow> neutral d d'"
  using view_gaps [of d' d] by (simp add: eff_def)

lemma neutral_refl [simp]: "neutral d d"
  by (simp add: eff_def)

lemma eff_trans:
  "eff d e j c p q f \<Longrightarrow> eff e d' j' c' p' q' f' \<Longrightarrow>
     eff d d' (j + j') (c + c') (p + p') (q + q') (\<lambda>g. f g + f' g)"
  by (simp add: eff_def)

lemma for_each_eff:
  assumes "for_each h xs d = Some d'"
    and "\<And>x d d'. h x d = Some d' \<Longrightarrow> eff d d' 0 0 p 0 (\<lambda>g. w g x)"
  shows "eff d d' 0 0 (int (length xs) * p) 0 (\<lambda>g. sum_list (map (w g) xs))"
  using assms(1)
proof (induction xs arbitrary: d)
  case Nil
  then show ?case by (simp add: eff_def)
next
  case (Cons x xs)
  then obtain e where "h x d = Some e" "for_each h xs e = Some d'" by (auto elim!: bindE)
  from eff_trans [OF assms(2) [OF this(1)] Cons.IH [OF this(2)]] show ?case
    by (simp add: algebra_simps)
qed

section \<open>Requests, jobs and queues\<close>

lemma record_latency_view: "flashcache_record_latency tv d = Some d' \<Longrightarrow> view d' = view d"
  by (auto simp: flashcache_record_latency_def Let_def split: if_splits)

lemma endio_eff:
  assumes "flashcache_bio_endio b e t d = Some d'"
  shows "places b d d'"
proof -
  from assms obtain d1 where d': "d' = d1\<lparr>completed := completed d1 @ [(b, e)]\<rparr>" and "view d1 = view d"
    by (auto simp: flashcache_bio_endio_def split: option.splits if_splits elim!: bindE
        dest!: record_latency_view)
  from view_gaps [OF this(2)] show ?thesis by (simp add: eff_def d')
qed

lemma new_job_eff:
  assumes "new_kcached_job b i d = (r, d')"
  shows "eff d d' 0 (if r = None then 0 else 1) 0 0 (\<lambda>_. 0)"
    and "r = Some job \<Longrightarrow> job_bio job = b"
proof -
  have c: "cgap (nr_cache_jobs_update f e) = cgap e + f (nr_cache_jobs e) - nr_cache_jobs e"
    "jgap (nr_cache_jobs_update f e) = jgap e" "pgap (nr_cache_jobs_update f e) = pgap e"
    "qgap (nr_cache_jobs_update f e) = qgap e" "bios g (nr_cache_jobs_update f e) = bios g e"
    "quview (nr_cache_jobs_update f e) = quview e" for f e g
    by (simp_all add: gap_defs quview_def shape_def)
  show "eff d d' 0 (if r = None then 0 else 1) 0 0 (\<lambda>_. 0)"
    using assms by (auto simp: new_kcached_job_def flashcache_alloc_cache_job_def Let_def eff_def c
        split: if_splits)
  show "r = Some job \<Longrightarrow> job_bio job = b"
    using assms by (auto simp: new_kcached_job_def Let_def split: prod.splits if_splits)
qed

lemma alloc_pending_eff:
  assumes "flashcache_alloc_pending_job d = (ok, d')"
  shows "eff d d' 0 0 (if ok then 1 else 0) 0 (\<lambda>_. 0)"
proof -
  have c: "pgap (nr_pending_jobs_update f e) = pgap e + f (nr_pending_jobs e) - nr_pending_jobs e"
    "jgap (nr_pending_jobs_update f e) = jgap e" "cgap (nr_pending_jobs_update f e) = cgap e"
    "qgap (nr_pending_jobs_update f e) = qgap e" "bios g (nr_pending_jobs_update f e) = bios g e"
    "quview (nr_pending_jobs_update f e) = quview e" for f e g
    by (simp_all add: gap_defs quview_def shape_def)
  show ?thesis
    using assms by (auto simp: flashcache_alloc_pending_job_def Let_def eff_def c)
qed

lemma pend_weight_upd:
  assumes "h < PENDING_JOB_HASH_SIZE"
  shows "pend_weight w (q(h := xs)) =
    pend_weight w q - sum_list (map w (q h)) + sum_list (map w xs)"
  unfolding pend_weight_def using assms
  by (subst (1 2) sum.remove [of _ h]) (auto intro: sum.cong)

lemma enq_eff: "flashcache_enq_pending b i act ok d = Some d' \<Longrightarrow> eff d d' 0 0 (- 1) 0 (\<lambda>g. g b)"
  by (auto simp: flashcache_enq_pending_def Let_def eff_def gap_defs quview_def shape_def
      pend_weight_upd)

lemma sum_list_split:
  "sum_list (map w xs) = sum_list (map w (filter P xs)) + (sum_list (map w (filter (\<lambda>x. \<not> P x) xs)) :: int)"
  by (induction xs) auto

lemma deq_eff:
  assumes "flashcache_deq_pending i d = Some (js, d')"
  shows "eff d d' 0 0 (int (length js)) 0 (\<lambda>g. - sum_list (map (\<lambda>p. g (pj_bio p)) js))"
proof -
  let ?h = "FLASHCACHE_PENDING_JOB_HASH i" and ?q = "pending_job_hashbuckets d"
  let ?m = "filter (\<lambda>j. pj_index j = i) (?q ?h)" and ?r = "filter (\<lambda>j. pj_index j \<noteq> i) (?q ?h)"
  have js: "js = rev ?m" and d': "d' = d\<lparr>pending_job_hashbuckets := ?q(?h := ?r),
      pending_jobs_count := pending_jobs_count d - int (length ?m)\<rparr>"
    using assms by (auto simp: flashcache_deq_pending_def Let_def deq_loop_eq)
  have w: "pend_weight w (?q(?h := ?r)) = pend_weight w ?q - sum_list (map w js)" for w
    using sum_list_split [of w "?q ?h" "\<lambda>j. pj_index j = i"] js
    by (simp add: pend_weight_upd rev_map [symmetric])
  show ?thesis
    unfolding eff_def d' gap_defs using w js
    by (simp add: quview_def shape_def sum_list_triv)
qed

section \<open>Failing, cleaning and syncing\<close>

lemma free_pending_one_eff:
  "free_pending_one i e pj d = Some d' \<Longrightarrow> eff d d' 0 0 (- 1) 0 (\<lambda>g. g (pj_bio pj))"
  by (auto simp: free_pending_one_def Let_def eff_def elim!: bindE dest!: endio_eff)

lemma free_pending_jobs_eff:
  assumes "flashcache_free_pending_jobs i e d = Some d'"
  shows "neutral d d'"
proof -
  from assms obtain js d1 where 1: "flashcache_deq_pending i d = Some (js, d1)"
    and 2: "for_each (free_pending_one i e) js d1 = Some d'"
    by (auto simp: flashcache_free_pending_jobs_def elim!: bindE)
  from eff_trans [OF deq_eff [OF 1]
      for_each_eff [OF 2, where w = "\<lambda>g pj. g (pj_bio pj)", OF free_pending_one_eff]]
  show ?thesis by simp
qed

lemma neutral_for_each:
  assumes "for_each h xs d = Some d'" and "\<And>x d d'. h x d = Some d' \<Longrightarrow> neutral d d'"
  shows "neutral d d'"
  using for_each_eff [OF assms(1), of 0 "\<lambda>_ _. 0"] assms(2) by simp

lemma neutral_trans: "neutral d e \<Longrightarrow> neutral e d' \<Longrightarrow> neutral d d'"
  using eff_trans [of d e 0 0 0 0 "\<lambda>_. 0" d' 0 0 0 0 "\<lambda>_. 0"] by simp

lemma writeback_failed_eff: "writeback_failed i d = Some d' \<Longrightarrow> neutral d d'"
  by (auto simp: writeback_failed_def Let_def eff_def elim!: bindE dest!: free_pending_jobs_eff)

lemma start_writeback_view: "start_writeback i d = Some d' \<Longrightarrow> view d' = view d"
  by (auto simp: start_writeback_def Let_def)

lemma launch_writeback_eff:
  "fn \<noteq> Md_write_callback \<Longrightarrow> eff d (launch_writeback fn act job d) 0 (- 1) 0 0 (\<lambda>_. 0)"
  by (simp add: launch_writeback_def Let_def eff_def job_weight_def)

lemma dirty_writeback_eff:
  assumes "flashcache_dirty_writeback i d = Some d'"
  shows "neutral d d'"
proof -
  from assms obtain d1 job d2 inj d3 where 1: "start_writeback i d = Some d1"
    and 2: "new_kcached_job None (Some i) d1 = (job, d2)"
    and 3: "inject DIRTY_WRITEBACK_JOB_ALLOC_FAIL d2 = (inj, d3)"
    and 4: "(let (job, d) = (if inj then (None, if job \<noteq> None then flashcache_free_cache_job d3 else d3)
                             else (job, d3));
                 (job, d) = (if remove_in_prog d \<noteq> 0
                             then (None, if job \<noteq> None then flashcache_free_cache_job d else d) else (job, d))
             in case job of None \<Rightarrow> writeback_failed i d
                | Some job \<Rightarrow> Some (launch_writeback Kcopyd_callback WRITEDISK job d)) = Some d'"
    by (auto simp: flashcache_dirty_writeback_def Let_def split: prod.splits elim!: bindE)
  note e = eff_view [OF start_writeback_view [OF 1]] new_job_eff(1) [OF 2]
    eff_view [OF inject_viewD [OF 3]]
  from 4 e show ?thesis
    by (auto simp: Let_def eff_def split: if_splits option.splits dest!: writeback_failed_eff
        simp: launch_writeback_eff [unfolded eff_def])
qed

lemma dirty_writeback_sync_eff:
  assumes "flashcache_dirty_writeback_sync i d = Some d'"
  shows "neutral d d'"
proof -
  from assms obtain d1 job d2 where 1: "start_writeback i d = Some d1"
    and 2: "new_kcached_job None (Some i) d1 = (job, d2)"
    and 4: "(let (job, d) = (if remove_in_prog d2 = FAST_REMOVE
                             then (None, if job \<noteq> None then flashcache_free_cache_job d2 else d2) else (job, d2))
             in case job of None \<Rightarrow> writeback_failed i d
                | Some job \<Rightarrow> Some (launch_writeback Kcopyd_callback_sync WRITEDISK_SYNC job d)) = Some d'"
    by (auto simp: flashcache_dirty_writeback_sync_def Let_def split: prod.splits elim!: bindE)
  note e = eff_view [OF start_writeback_view [OF 1]] new_job_eff(1) [OF 2]
  from 4 e show ?thesis
    by (auto simp: Let_def eff_def split: if_splits option.splits dest!: writeback_failed_eff
        simp: launch_writeback_eff [unfolded eff_def])
qed

lemma writeback_each_eff:
  assumes "for_each (\<lambda>p. flashcache_dirty_writeback (snd p)) wl d = Some d'"
  shows "neutral d d'"
  by (rule neutral_for_each [OF assms]) (rule dirty_writeback_eff)

lemma writeback_sync_each_eff:
  assumes "for_each (\<lambda>p. flashcache_dirty_writeback_sync (snd p)) wl d = Some d'"
  shows "neutral d d'"
  by (rule neutral_for_each [OF assms]) (rule dirty_writeback_sync_eff)

lemma diskclean_alloc_view: "flashcache_diskclean_alloc d = (r, d') \<Longrightarrow> view d' = view d"
  by (auto simp: flashcache_diskclean_alloc_def split: list.splits)

lemma clean_view [simp]:
  "view (write_clust_account n d) = view d" "view (flashcache_diskclean_free b1 b2 d) = view d"
  by (simp_all add: write_clust_account_def flashcache_diskclean_free_def Let_def)

lemmas gaps_clean [simp] = clean_view [THEN view_gaps(1)] clean_view [THEN view_gaps(2)]
  clean_view [THEN view_gaps(3)] clean_view [THEN view_gaps(4)] clean_view [THEN view_gaps(5)]
  clean_view [THEN view_gaps(6)]

lemma clean_set_eff:
  assumes "flashcache_clean_set s f d = Some d'"
  shows "neutral d d'"
proof -
  consider "view d' = view d"
    | d1 wl wl' d2 d3 d4 x1 x2 where "view d1 = view d" "view d2 = view d1"
      "flashcache_merge_writes wl s d2 = Some (wl', d3)"
      "for_each (\<lambda>p. flashcache_dirty_writeback (snd p)) wl' (write_clust_account (length wl') d3) = Some d4"
      "d' = flashcache_diskclean_free x1 x2 d4"
    using assms
    by (auto simp: flashcache_clean_set_def Let_def split: if_splits prod.splits option.splits
        elim!: bindE dest!: clean_select_view diskclean_alloc_view)
  then show ?thesis
  proof cases
    case 1
    then show ?thesis by (rule eff_view)
  next
    case 2
    have 3: "view (write_clust_account (length wl') d3) = view d"
      using 2(1,2) merge_writes_view [OF 2(3)] by simp
    have 4: "view d' = view d4" using 2(5) by simp
    show ?thesis
      by (rule neutral_trans [OF neutral_trans [OF eff_view [OF 3] writeback_each_eff [OF 2(4)]] eff_view [OF 4]])
  qed
qed

lemma sync_flush_eff:
  assumes "sync_flush wl s d = Some d'"
  shows "neutral d d'"
proof (cases "wl = []")
  case True
  with assms show ?thesis by (simp add: sync_flush_def eff_def)
next
  case False
  with assms obtain wl1 d1 where 1: "flashcache_merge_writes wl s d = Some (wl1, d1)"
    and 2: "for_each (\<lambda>p. flashcache_dirty_writeback_sync (snd p)) wl1 d1 = Some d'"
    by (auto simp: sync_flush_def elim!: bindE)
  show ?thesis
    by (rule neutral_trans [OF eff_view [OF merge_writes_view [OF 1]] writeback_sync_each_eff [OF 2]])
qed

lemma sync_loop_eff: "sync_loop n i s wl d = Some (i', s', wl', d') \<Longrightarrow> neutral d d'"
proof (induction n arbitrary: i s wl d)
  case 0
  then show ?case by (simp add: eff_def)
next
  case (Suc n)
  show ?case
  proof (cases "int (length wl) + clean_inprog d < max_clean_ios_total d")
    case False
    with Suc.prems show ?thesis by (simp add: eff_def)
  next
    case True
    with Suc.prems obtain s1 wl1 d1 wl2 d2 where
      1: "neutral d d1" and 2: "view d2 = view d1" and
      3: "sync_loop n (i + 1) s1 wl2 d2 = Some (i', s', wl', d')"
      by (auto split: if_splits elim!: bindE dest!: claim_view sync_flush_eff; blast intro: neutral_refl)
    from neutral_trans [OF neutral_trans [OF 1 eff_view [OF 2]] Suc.IH [OF 3]] show ?thesis .
  qed
qed

lemma sync_blocks_eff: "flashcache_sync_blocks d = Some d' \<Longrightarrow> neutral d d'"
  by (auto simp: flashcache_sync_blocks_def Let_def eff_def split: if_splits option.splits prod.splits
      elim!: bindE dest!: sync_loop_eff sync_flush_eff diskclean_alloc_view [THEN eff_view])

lemma sync_all_eff: "flashcache_sync_all d = Some d' \<Longrightarrow> neutral d d'"
  by (auto simp: flashcache_sync_all_def eff_def split: if_splits dest!: sync_blocks_eff)

section \<open>Uncached requests and invalidation\<close>

lemma new_job_effs:
  "new_kcached_job b i d = (r, d') \<Longrightarrow>
     eff d d' 0 (if r = None then 0 else 1) 0 0 (\<lambda>_. 0) \<and> (\<forall>job. r = Some job \<longrightarrow> job_bio job = b)"
  using new_job_eff by blast

lemma start_uncached_eff: "flashcache_start_uncached_io b d = Some d' \<Longrightarrow> places b d d'"
  by (auto simp: flashcache_start_uncached_io_def Let_def eff_def job_weight_def
      split: prod.splits option.splits if_splits
      dest!: endio_eff new_job_effs)

lemma bump_inval_view [simp]: "view (bump_inval w d) = view d"
  by (simp add: bump_inval_def)

lemma inval_now_view: "inval_now i d = Some d' \<Longrightarrow> view d' = view d"
  by (auto simp: inval_now_def Let_def elim!: bindE dest!: hash_remove_view invalid_insert_view)

lemma inval_later_eff: "inval_later i b d = Some d' \<Longrightarrow> eff d d' 0 0 (- 1) 0 (\<lambda>g. g b)"
  by (auto simp: inval_later_def eff_def split: if_splits elim!: bindE
      dest!: enq_eff claim_view [THEN eff_view] dirty_writeback_eff)

text \<open>The answer of an invalidation: 1 when the request was queued, and otherwise 0.\<close>

definition inval_eff :: "bio \<Rightarrow> cache_c \<Rightarrow> int \<Rightarrow> cache_c \<Rightarrow> bool" where
  "inval_eff b d r d' \<longleftrightarrow>
     r = 0 \<and> neutral d d' \<or> r = 1 \<and> eff d d' 0 0 (- 1) 0 (\<lambda>g. g b)"

lemma inval_eff_after: "neutral d e \<Longrightarrow> inval_eff b e r d' \<Longrightarrow> inval_eff b d r d'"
  by (auto simp: inval_eff_def eff_def)

lemma inval_block_loop_eff: "inval_block_loop is b d = Some (r, d') \<Longrightarrow> inval_eff b d r d'"
proof (induction "is" arbitrary: d)
  case Nil
  then show ?case by (simp add: inval_eff_def)
next
  case (Cons i "is")
  let ?d = "bump_inval (bi_is_write b) d"
  have n: "neutral d ?d" by (rule eff_view) simp
  consider "inval_block_loop is b d = Some (r, d')"
    | d1 where "inval_now i ?d = Some d1" "inval_block_loop is b d1 = Some (r, d')"
    | "inval_later i b ?d = Some d'" "r = 1"
    using Cons.prems by (auto simp: Let_def split: if_splits elim!: bindE)
  then show ?case
  proof cases
    case 1
    then show ?thesis by (rule Cons.IH)
  next
    case 2
    show ?thesis
      by (rule inval_eff_after [OF neutral_trans [OF n eff_view [OF inval_now_view [OF 2(1)]]] Cons.IH [OF 2(2)]])
  next
    case 3
    have "inval_eff b ?d r d'" using inval_later_eff [OF 3(1)] 3(2) by (simp add: inval_eff_def)
    then show ?thesis by (rule inval_eff_after [OF n])
  qed
qed

lemma inval_set_eff: "flashcache_inval_block_set s b d = Some (r, d') \<Longrightarrow> inval_eff b d r d'"
  by (auto simp: flashcache_inval_block_set_def Let_def dest!: inval_block_loop_eff)

lemma inval_set_v3_eff:
  assumes "flashcache_inval_block_set_v3 s b d = Some (r, d')"
  shows "inval_eff b d r d'"
proof -
  let ?d = "bump_inval (bi_is_write b) d"
  have n: "neutral d ?d" by (rule eff_view) simp
  consider "r = 0" "d' = d" | i where "r = 0" "inval_now i ?d = Some d'"
    | i where "r = 1" "inval_later i b ?d = Some d'"
    using assms by (auto simp: flashcache_inval_block_set_v3_def Let_def split: option.splits if_splits
        elim!: bindE)
  then show ?thesis
  proof cases
    case 1
    then show ?thesis by (simp add: inval_eff_def)
  next
    case 2
    with neutral_trans [OF n eff_view [OF inval_now_view [OF 2(2)]]] show ?thesis
      by (simp add: inval_eff_def)
  next
    case 3
    with inval_later_eff [OF 3(2)] have "inval_eff b ?d r d'" by (simp add: inval_eff_def)
    then show ?thesis by (rule inval_eff_after [OF n])
  qed
qed

text \<open>
  The whole invalidation takes its own pending job: the request is queued (a positive answer), or
  it is still in the hands of the caller (0, or a negative answer when there is no memory).
\<close>

definition inval_result :: "bio \<Rightarrow> cache_c \<Rightarrow> int \<Rightarrow> cache_c \<Rightarrow> bool" where
  "inval_result b d r d' \<longleftrightarrow> (if r > 0 then places b d d' else neutral d d')"

lemma inval_blocks_eff:
  assumes "flashcache_inval_blocks b d = Some (r, d')"
  shows "inval_result b d r d'"
proof -
  obtain ok1 d1 where 1: "flashcache_alloc_pending_job d = (ok1, d1)" by force
  obtain inj d2 where 2: "inject INVAL_PENDING_JOB_ALLOC_FAIL d1 = (inj, d2)" by force
  define d3 where "d3 = (if inj \<and> ok1 then flashcache_free_pending_job d2 else d2)"
  have e3: "eff d d3 0 0 (if ok1 \<and> \<not> inj then 1 else 0) 0 (\<lambda>_. 0)"
    using alloc_pending_eff [OF 1] inject_viewD [OF 2, THEN eff_view] by (auto simp: d3_def eff_def)
  obtain ok2 d4 where 4: "flashcache_alloc_pending_job d3 = (ok2, d4)" by force
  note e4 = alloc_pending_eff [OF 4]
  show ?thesis
  proof (cases "ok1 \<and> \<not> inj")
    case False
    then have "r = - ENOMEM" "d' = d3"
      using assms by (auto simp: flashcache_inval_blocks_def 1 2 d3_def split: if_splits)
    with e3 False show ?thesis by (auto simp: inval_result_def ENOMEM_def)
  next
    case True
    then have d3: "d3 = d2" and e: "eff d d3 0 0 1 0 (\<lambda>_. 0)"
      using e3 by (simp_all add: d3_def)
    show ?thesis
    proof (cases "on_ssd_version d3 < 3")
      case old: True
      show ?thesis
      proof (cases ok2)
        case False
        with assms e e4 old show ?thesis
          using True by (auto simp: flashcache_inval_blocks_def 1 2 4 [unfolded d3] d3 Let_def inval_result_def ENOMEM_def eff_def)
      next
        case ok2: True
        let ?s = "hash_block d4 (bi_sector b)" and ?e = "hash_block d4 (io_end_sector b)"
        from assms True old ok2 obtain r1 d5 where 5: "flashcache_inval_block_set ?s b d4 = Some (r1, d5)"
          and rest: "(if r1 \<noteq> 0 then Some (r1, flashcache_free_pending_job d5)
            else if ?s \<noteq> ?e
            then Option.bind (flashcache_inval_block_set ?e b (flashcache_free_pending_job d5))
              (\<lambda>(q, d). Some (q, if q = 0 then flashcache_free_pending_job d else d))
            else Some (r1, flashcache_free_pending_job (flashcache_free_pending_job d5))) = Some (r, d')"
          by (auto simp: flashcache_inval_blocks_def 1 2 4 [unfolded d3] d3 Let_def elim!: bindE cong: if_cong)
        from inval_set_eff [OF 5] rest e e4 ok2 show ?thesis
          by (auto simp: inval_eff_def inval_result_def eff_def split: if_splits elim!: bindE
              dest!: inval_set_eff)
      qed
    next
      case False
      then obtain d5 where "flashcache_inval_block_set_v3 (hash_block d3 (bi_sector b AND block_mask d3)) b d3 = Some (r, d5)"
        and "d' = (if r = 0 then flashcache_free_pending_job d5 else d5)"
        using assms True by (auto simp: flashcache_inval_blocks_def 1 2 d3 Let_def elim!: bindE)
      with e inval_set_v3_eff [OF this(1)] show ?thesis
        by (auto simp: inval_eff_def inval_result_def eff_def)
    qed
  qed
qed

end
