(* ===== verification/Flow.thy ===== *)
theory Flow
  imports Ledger
begin

text \<open>
  The accounts of the handlers: a handler of a completed job disposes of the job, of its place in
  the counters and of the request that it carries; a handler of a request puts it in one place.
\<close>

section \<open>Completions\<close>

text \<open>A handler that disposes of a job in hand; \<open>f\<close> is the weight of the request it still owes.\<close>

abbreviation disposes :: "((bio \<Rightarrow> int) \<Rightarrow> int) \<Rightarrow> cache_c \<Rightarrow> cache_c \<Rightarrow> bool" where
  "disposes f d d' \<equiv> eff d d' (- 1) (- 1) 0 0 f"

lemma finish_job_eff: "disposes (\<lambda>_. 0) d (finish_job d)"
  by (simp add: finish_job_def eff_def) (simp add: flashcache_free_cache_job_def)

lemma finish_job_gaps [simp]:
  "jgap (finish_job d) = jgap d - 1" "cgap (finish_job d) = cgap d - 1" "pgap (finish_job d) = pgap d"
  "qgap (finish_job d) = qgap d" "bios g (finish_job d) = bios g d" "quview (finish_job d) = quview d"
  using finish_job_eff [of d] by (simp_all add: eff_def)

lemma drop_identity_view: "drop_identity i d = Some d' \<Longrightarrow> view d' = view d"
  by (auto simp: drop_identity_def Let_def elim!: bindE dest!: hash_remove_view)

lemma unqueue_view: "for_each (unqueue_one i) js d = Some d' \<Longrightarrow> view d' = view d"
  by (erule for_each_view) (auto simp: unqueue_one_def)

lemma relaunch_eff: "relaunch_one pj d = Some d' \<Longrightarrow> eff d d' 0 0 (- 1) 0 (\<lambda>g. g (pj_bio pj))"
  by (auto simp: relaunch_one_def eff_def elim!: bindE dest!: start_uncached_eff)

lemmas relaunch_each_eff =
  for_each_eff [where h = relaunch_one and w = "\<lambda>g pj. g (pj_bio pj)" and p = "- 1", OF _ relaunch_eff]

lemma do_pending_error_eff:
  assumes "flashcache_do_pending_error job d = Some d'"
  shows "disposes (\<lambda>g. job_weight g job) d d'"
    and "mode d = FLASHCACHE_WRITE_BACK \<Longrightarrow> job_bio job = None"
proof -
  define F where "F i e = (case job_bio job of
       Some b \<Rightarrow> do {
         verify (mode e \<noteq> FLASHCACHE_WRITE_BACK);
         (pjob_list, d) \<leftarrow> flashcache_deq_pending i e;
         d \<leftarrow> for_each (unqueue_one i) pjob_list d;
         verify (nr_queued (cache d i) = 0);
         d \<leftarrow> flashcache_start_uncached_io b d;
         for_each relaunch_one pjob_list d
       }
     | None \<Rightarrow> flashcache_free_pending_jobs i (job_error job) e)" for i e
  from assms obtain i d1 d2 d3 where
    a: "(if state_of d i AND DIRTY = 0 then drop_identity i d
         else Option.bind (verify (mode d = FLASHCACHE_WRITE_BACK)) (\<lambda>_. Some d)) = Some d1" and
    b: "(if state_of (set_state i (state_of d1 i AND NOT BLOCK_IO_INPROG) d1) i AND DIRTY = 0
         then flashcache_invalid_insert i (set_state i (state_of d1 i AND NOT BLOCK_IO_INPROG) d1)
         else Some (set_state i (state_of d1 i AND NOT BLOCK_IO_INPROG) d1)) = Some d2" and
    3: "F i d2 = Some d3" and 4: "d' = finish_job d3"
    unfolding flashcache_do_pending_error_def F_def [symmetric] Let_def
    by (blast elim!: bindE)
  have 1: "view d1 = view d" using a by (auto split: if_splits dest!: drop_identity_view)
  have 2: "view d2 = view d1" using b by (auto split: if_splits dest!: invalid_insert_view)
  note 3 = 3 [unfolded F_def]
  have e2: "neutral d d2" by (rule eff_view) (simp add: 1 2)
  have m: "mode d2 = mode d" using 1 2 by (simp add: view_defs)
  have "eff d2 d3 0 0 0 0 (\<lambda>g. job_weight g job)"
  proof (cases "job_bio job")
    case None
    with 3 free_pending_jobs_eff show ?thesis by (simp add: job_weight_def)
  next
    case (Some b)
    from 3 [unfolded Some option.case, simplified] obtain js e1 e2 e3 where
      a: "flashcache_deq_pending i d2 = Some (js, e1)" and b: "for_each (unqueue_one i) js e1 = Some e2"
      and c: "flashcache_start_uncached_io b e2 = Some e3" and r: "for_each relaunch_one js e3 = Some d3"
      by (auto elim!: bindE)
    from deq_eff [OF a] eff_view [OF unqueue_view [OF b]] start_uncached_eff [OF c] relaunch_each_eff [OF r]
    show ?thesis using Some by (simp add: eff_def job_weight_def)
  qed
  with e2 show "disposes (\<lambda>g. job_weight g job) d d'" by (simp add: eff_def 4)
  show "job_bio job = None" if "mode d = FLASHCACHE_WRITE_BACK"
    using 3 m that by (auto split: option.splits)
qed

lemma noerror_one_eff: "noerror_one i pj d = Some d' \<Longrightarrow> eff d d' 0 0 (- 1) 0 (\<lambda>g. g (pj_bio pj))"
  by (auto simp: noerror_one_def Let_def eff_def inval_result_def split: if_splits elim!: bindE
      dest!: relaunch_eff endio_eff inval_blocks_eff)

lemmas noerror_each_eff =
  for_each_eff [where h = "noerror_one i" and w = "\<lambda>g pj. g (pj_bio pj)" and p = "- 1", OF _ noerror_one_eff]
  for i

lemma do_pending_noerror_eff:
  assumes "flashcache_do_pending_noerror job d = Some d'"
  shows "disposes (\<lambda>_. 0) d d'"
proof -
  from assms obtain i d1 where d': "d' = finish_job d1" and
    1: "(if state_of d i AND DIRTY \<noteq> 0
       then do {
         verify (mode d = FLASHCACHE_WRITE_BACK);
         d \<leftarrow> flashcache_clear_fallow i (set_state i
                ((state_of d i AND NOT BLOCK_IO_INPROG) OR DISKWRITEINPROG) d);
         flashcache_dirty_writeback i d
       }
       else do {
         verify (state_of d i AND VALID \<noteq> 0);
         d \<leftarrow> drop_identity i d;
         (freelist, d) \<leftarrow> flashcache_deq_pending i d;
         d \<leftarrow> for_each (noerror_one i) freelist d;
         verify (nr_queued (cache d i) = 0);
         flashcache_invalid_insert i (set_state i (state_of d i AND NOT BLOCK_IO_INPROG) d)
       }) = Some d1"
    by (auto simp: flashcache_do_pending_noerror_def elim!: bindE)
  have "neutral d d1"
  proof (cases "state_of d i AND DIRTY = 0")
    case False
    with 1 obtain e where "flashcache_clear_fallow i (set_state i
        ((state_of d i AND NOT BLOCK_IO_INPROG) OR DISKWRITEINPROG) d) = Some e"
      and "flashcache_dirty_writeback i e = Some d1" by (auto elim!: bindE)
    with clear_fallow_view [OF this(1)] dirty_writeback_eff show ?thesis
      by (metis eff_view neutral_trans view_upd(3))
  next
    case True
    with 1 obtain e1 js e2 e3 where a: "drop_identity i d = Some e1"
      and b: "flashcache_deq_pending i e1 = Some (js, e2)" and c: "for_each (noerror_one i) js e2 = Some e3"
      and r: "flashcache_invalid_insert i (set_state i (state_of e3 i AND NOT BLOCK_IO_INPROG) e3) = Some d1"
      by (auto elim!: bindE)
    have "view d1 = view e3" using invalid_insert_view [OF r] by simp
    from eff_view [OF drop_identity_view [OF a]] deq_eff [OF b] noerror_each_eff [OF c] eff_view [OF this]
    show ?thesis by (simp add: eff_def)
  qed
  then show ?thesis by (simp add: d' eff_def)
qed

lemma pending_or_idle_eff:
  assumes "pending_or_idle job i d = Some d'" and "job_bio job = None \<or> mode d = FLASHCACHE_WRITE_BACK"
  shows "disposes (\<lambda>_. 0) d d'"
proof -
  have "disposes (\<lambda>_. 0) d d'" if "flashcache_do_pending job d = Some d'"
    using that assms(2) do_pending_error_eff [of job d d'] do_pending_noerror_eff [of job d d']
    by (auto simp: flashcache_do_pending_def job_weight_def split: if_splits)
  then show ?thesis
    using assms(1) by (auto simp: pending_or_idle_def eff_def split: if_splits)
qed

lemma do_pending_eff:
  assumes "flashcache_do_pending job d = Some d'" and "job_error job = 0 \<longrightarrow> job_bio job = None"
  shows "disposes (\<lambda>g. job_weight g job) d d'"
  using assms do_pending_error_eff(1) [of job d d'] do_pending_noerror_eff [of job d d']
  by (auto simp: flashcache_do_pending_def job_weight_def split: if_splits)

lemma do_io_eff: "flashcache_do_io job d = Some d' \<Longrightarrow> disposes (\<lambda>g. job_weight g job) d d'"
  by (auto simp: flashcache_do_io_def eff_def)

lemma inject_error_view: "inject_error flag e d = (r, d') \<Longrightarrow> view d' = view d"
  by (auto simp: inject_error_def split: prod.splits dest!: inject_viewD)

lemma uncached_complete_eff:
  "flashcache_uncached_io_complete job d = Some d' \<Longrightarrow> disposes (\<lambda>g. job_weight g job) d d'"
  by (auto simp: flashcache_uncached_io_complete_def Let_def eff_def job_weight_def inval_result_def
      split: if_splits elim!: bindE dest!: endio_eff inval_blocks_eff)

lemma kcopyd_failed_eff:
  assumes "kcopyd_failed re job i d = Some d'" and "job_bio job = None"
  shows "disposes (\<lambda>_. 0) d d'"
  using assms
  by (auto simp: kcopyd_failed_def Let_def flashcache_do_pending_def EIO_def eff_def job_weight_def
      elim!: bindE dest!: do_pending_error_eff(1))

section \<open>The jobs of a completed metadata write\<close>

text \<open>What holds of a job on its way through the metadata path.\<close>

definition md_ok :: "cache_c \<Rightarrow> kcached_job \<Rightarrow> bool" where
  "md_ok d job \<longleftrightarrow> job_bio job = None \<or> job_action job = WRITECACHE \<and> mode d = FLASHCACHE_WRITE_BACK"

lemma view_mode: "view d' = view d \<Longrightarrow> mode d' = mode d"
  by (simp add: view_defs)

lemma eff_mode: "eff d d' j c p q f \<Longrightarrow> mode d' = mode d"
  by (simp add: eff_def quview_def shape_def)

lemma md_done_writecache_eff:
  assumes "md_done_writecache job i d = Some d'" and "md_ok d job"
  shows "disposes (\<lambda>g. job_weight g job) d d'"
proof -
  obtain err d1 where 1: "inject_error WRITECACHE_MD_ERROR (job_error job) d = (err, d1)" by force
  define d2 where "d2 = (if err = 0
    then set_state i (state_of (if state_of d1 i AND DIRTY = 0
        then (upd_set (i div assoc d) (\<lambda>c. c\<lparr>set_nr_dirty := inc16 (set_nr_dirty c)\<rparr>) d1)
               \<lparr>nr_dirty := nr_dirty d1 + 1\<rparr> else d1) i OR DIRTY)
      (bump md_write_dirty_update (if state_of d1 i AND DIRTY = 0
        then (upd_set (i div assoc d) (\<lambda>c. c\<lparr>set_nr_dirty := inc16 (set_nr_dirty c)\<rparr>) d1)
               \<lparr>nr_dirty := nr_dirty d1 + 1\<rparr> else d1))
    else bump_error ssd_write_errors_update d1)"
  have v: "view d2 = view d1" by (simp add: d2_def)
  from assms(1) obtain b d3 where j: "job_bio job = Some b"
    and a: "flashcache_bio_endio b err (Some (job_start_time job)) d2 = Some d3"
    and r: "pending_or_idle (job\<lparr>job_error := err\<rparr>) i d3 = Some d'"
    unfolding md_done_writecache_def 1 Let_def prod.case d2_def [symmetric]
    by (auto elim!: bindE)
  have n: "neutral d d2" by (rule eff_view) (simp add: v inject_error_view [OF 1])
  have "mode d3 = FLASHCACHE_WRITE_BACK"
    using assms(2) j eff_mode [OF n] eff_mode [OF endio_eff [OF a]] by (simp add: md_ok_def)
  with pending_or_idle_eff [OF r] have "disposes (\<lambda>_. 0) d3 d'" by simp
  with n endio_eff [OF a] j show ?thesis by (simp add: eff_def job_weight_def)
qed

lemma md_done_writedisk_eff:
  assumes "md_done_writedisk job i d = Some d'" and "job_bio job = None"
  shows "disposes (\<lambda>_. 0) d d'"
proof -
  obtain err d1 where 1: "inject_error WRITEDISK_MD_ERROR (job_error job) d = (err, d1)" by force
  let ?c = "i div assoc d"
  define m where "m = (if err = 0
       then do {
         verify (set_nr_dirty (cache_sets (set_state i (state_of d1 i AND NOT DIRTY)
                                  (bump md_write_clean_update d1)) ?c) > 0);
         verify (nr_dirty (set_state i (state_of d1 i AND NOT DIRTY) (bump md_write_clean_update d1)) > 0);
         Some ((upd_set ?c (\<lambda>c. c\<lparr>set_nr_dirty := set_nr_dirty c - 1\<rparr>)
                 (set_state i (state_of d1 i AND NOT DIRTY) (bump md_write_clean_update d1)))
               \<lparr>nr_dirty := nr_dirty (upd_set ?c (\<lambda>c. c\<lparr>set_nr_dirty := set_nr_dirty c - 1\<rparr>)
                 (set_state i (state_of d1 i AND NOT DIRTY) (bump md_write_clean_update d1))) - 1\<rparr>)
       }
       else Some (bump_error ssd_write_errors_update d1))"
  from assms(1) obtain e d2 d3 d4 where m: "m = Some e"
    and d2: "d2 = (upd_set ?c (\<lambda>c. c\<lparr>set_clean_inprog := set_clean_inprog c - 1\<rparr>) e)
      \<lparr>clean_inprog := clean_inprog e - 1\<rparr>"
    and r: "pending_or_idle (job\<lparr>job_error := err\<rparr>) i d2 = Some d3"
    and c: "(if job_action job = WRITEDISK then flashcache_clean_set ?c 0 d3
             else flashcache_sync_blocks d3) = Some d4"
    and d': "d' = bump cleanings_update d4"
    unfolding md_done_writedisk_def 1 Let_def prod.case m_def [symmetric]
    by (auto elim!: bindE)
  have v: "view d2 = view d1" using m by (auto simp: d2 m_def split: if_splits)
  have n: "neutral d d2" by (rule eff_view) (simp add: v inject_error_view [OF 1])
  have "neutral d3 d4" using c by (auto split: if_splits dest!: clean_set_eff sync_blocks_eff)
  with n pending_or_idle_eff [OF r] assms(2) show ?thesis by (simp add: eff_def d')
qed

lemma md_done_one_eff:
  assumes "md_done_one err job d = Some d'" and "md_ok d job"
  shows "disposes (\<lambda>g. job_weight g job) d d'"
proof (cases "job_action job = WRITECACHE")
  case True
  with assms obtain i where "md_done_writecache (job\<lparr>job_error := err\<rparr>) i d = Some d'"
    by (auto simp: md_done_one_def elim!: bindE)
  from md_done_writecache_eff [OF this] assms(2) show ?thesis by (simp add: md_ok_def job_weight_def)
next
  case False
  with assms obtain i where "md_done_writedisk (job\<lparr>job_error := err\<rparr>) i d = Some d'"
    and "job_bio job = None" by (auto simp: md_done_one_def md_ok_def elim!: bindE)
  from md_done_writedisk_eff [OF this(1)] this(2) show ?thesis by (simp add: job_weight_def)
qed

lemma md_done_each_eff:
  assumes "for_each (md_done_one err) js d = Some d'" and "\<forall>j \<in> set js. md_ok d j"
  shows "eff d d' (- int (length js)) (- int (length js)) 0 0 (\<lambda>g. sum_list (map (job_weight g) js))"
  using assms
proof (induction js arbitrary: d)
  case Nil
  then show ?case by simp
next
  case (Cons j js)
  then obtain e where 1: "md_done_one err j d = Some e" "for_each (md_done_one err) js e = Some d'"
    by (auto elim!: bindE)
  have e: "disposes (\<lambda>g. job_weight g j) d e" using md_done_one_eff [OF 1(1)] Cons.prems by simp
  with Cons.prems have "\<forall>k \<in> set js. md_ok e k" by (simp add: md_ok_def eff_mode [OF e])
  from Cons.IH [OF 1(2) this] e show ?case by (simp add: eff_def)
qed

section \<open>Requests\<close>

lemma places_after: "neutral d e \<Longrightarrow> places b e d' \<Longrightarrow> places b d d'"
  by (simp add: eff_def)

lemma places_then: "places b d e \<Longrightarrow> neutral e d' \<Longrightarrow> places b d d'"
  by (simp add: eff_def)

lemma new_job_or_inject_eff:
  assumes "new_job_or_inject flag b i d = (r, d')"
  shows "eff d d' 0 (if r = None then 0 else 1) 0 0 (\<lambda>_. 0)"
    and "r = Some job \<Longrightarrow> job_bio job = Some b"
proof -
  obtain r1 d1 where 1: "new_kcached_job (Some b) (Some i) d = (r1, d1)" by force
  obtain inj d2 where 2: "inject flag d1 = (inj, d2)" by force
  have s: "(r, d') = (if inj then (None, if r1 \<noteq> None then flashcache_free_cache_job d2 else d2) else (r1, d2))"
    using assms by (simp add: new_job_or_inject_def 1 2)
  from s new_job_effs [OF 1] eff_view [OF inject_viewD [OF 2]]
  show "eff d d' 0 (if r = None then 0 else 1) 0 0 (\<lambda>_. 0)"
    by (auto simp: eff_def split: if_splits)
  show "r = Some job \<Longrightarrow> job_bio job = Some b"
    using s new_job_effs [OF 1] by (auto split: if_splits)
qed

lemma enqueue_or_fail_eff:
  assumes "enqueue_or_fail flag b i act d = Some d'"
  shows "places b d d'"
proof -
  obtain ok d1 where 1: "flashcache_alloc_pending_job d = (ok, d1)" by force
  obtain inj d2 where 2: "inject flag d1 = (inj, d2)" by force
  from assms alloc_pending_eff [OF 1] eff_view [OF inject_viewD [OF 2]] show ?thesis
    by (auto simp: enqueue_or_fail_def 1 2 eff_def split: if_splits dest!: endio_eff enq_eff)
qed

lemma hit_failed_eff: "hit_failed b i d = Some d' \<Longrightarrow> places b d d'"
  by (auto simp: hit_failed_def eff_def elim!: bindE dest!: endio_eff free_pending_jobs_eff)

lemma miss_failed_eff: "miss_failed b i d = Some d' \<Longrightarrow> places b d d'"
  by (auto simp: miss_failed_def Let_def eff_def elim!: bindE dest!: endio_eff free_pending_jobs_eff
      hash_remove_view [THEN eff_view] invalid_insert_view [THEN eff_view])

lemma claim_identity_view: "claim_identity r bs b i d = Some d' \<Longrightarrow> view d' = view d"
  by (auto simp: claim_identity_def Let_def split: if_splits elim!: bindE
      dest!: hash_remove_view hash_insert_view)

lemma put_back_view: "put_back i d = Some d' \<Longrightarrow> view d' = view d"
  by (auto simp: put_back_def split: if_splits dest!: invalid_insert_view)

lemma put_back_found_view: "put_back_found r d = Some d' \<Longrightarrow> view d' = view d"
  by (auto simp: put_back_found_def split: option.splits dest!: put_back_view)

lemma read_hit_eff:
  assumes "flashcache_read_hit b i d = Some d'"
  shows "places b d d'"
proof (cases "block_idle i d")
  case False
  with assms show ?thesis by (simp add: flashcache_read_hit_def enqueue_or_fail_eff)
next
  case True
  let ?d = "bump read_hits_update (set_state i (state_of d i OR CACHEREADINPROG) d)"
  obtain r e where 1: "new_job_or_inject READ_HIT_JOB_ALLOC_FAIL b i ?d = (r, e)" by force
  from assms True new_job_or_inject_eff [OF 1] show ?thesis
    by (auto simp: flashcache_read_hit_def 1 Let_def eff_def job_weight_def split: option.splits
        dest!: hit_failed_eff)
qed

lemma read_miss_eff:
  assumes "flashcache_read_miss b i d = Some d'"
  shows "places b d d'"
proof -
  obtain r e where 1: "new_job_or_inject READ_MISS_JOB_ALLOC_FAIL b i d = (r, e)" by force
  from assms new_job_or_inject_eff [OF 1] show ?thesis
    by (auto simp: flashcache_read_miss_def 1 Let_def eff_def job_weight_def split: option.splits
        dest!: miss_failed_eff clean_set_eff)
qed

lemma launch_cache_write_eff:
  assumes "launch_cache_write job d = Some d'" and "job_bio job = Some b"
  shows "eff d d' (- 1) (- 1) 0 0 (\<lambda>g. g b)"
  using assms by (auto simp: launch_cache_write_def eff_def job_weight_def split: if_splits)

lemma write_miss_rest_eff:
  assumes "(case r of None \<Rightarrow> miss_failed b i e
     | Some job \<Rightarrow> do {
         d \<leftarrow> launch_cache_write (job\<lparr>job_action := WRITECACHE\<rparr>)
           (bump ssd_writes_update (e\<lparr>nr_jobs := nr_jobs e + 1\<rparr>));
         flashcache_clean_set (i div assoc d) (sysctl_clean_on_write_miss (sysctl d)) d
       }) = Some d'"
    and "new_job_or_inject WRITE_MISS_JOB_ALLOC_FAIL b i d = (r, e)"
  shows "places b d d'"
proof (cases r)
  case None
  with assms(1) new_job_or_inject_eff [OF assms(2)] show ?thesis
    by (auto simp: eff_def dest!: miss_failed_eff)
next
  case (Some job)
  with assms(1) obtain e1 where 1: "launch_cache_write (job\<lparr>job_action := WRITECACHE\<rparr>)
      (bump ssd_writes_update (e\<lparr>nr_jobs := nr_jobs e + 1\<rparr>)) = Some e1"
    and 2: "flashcache_clean_set (i div assoc e1) (sysctl_clean_on_write_miss (sysctl e1)) e1 = Some d'"
    by (auto elim!: bindE)
  from launch_cache_write_eff [OF 1, of b] clean_set_eff [OF 2] new_job_or_inject_eff [OF assms(2)] Some
  show ?thesis by (simp add: eff_def)
qed

lemma write_miss_eff:
  assumes "flashcache_write_miss b i d = Some d'"
  shows "places b d d'"
proof -
  from assms obtain q e where 1: "flashcache_inval_blocks b d = Some (q, e)"
    and 2: "(if q \<noteq> 0
       then do {
         d \<leftarrow> put_back i e;
         if q < 0 then flashcache_bio_endio b (- EIO) None d else Some d
       }
       else do {
         d \<leftarrow> claim_identity wr_replace_update CACHEWRITEINPROG b i e;
         let (job, d) = new_job_or_inject WRITE_MISS_JOB_ALLOC_FAIL b i d;
         case job of
           None \<Rightarrow> miss_failed b i d
         | Some job \<Rightarrow> do {
             d \<leftarrow> launch_cache_write (job\<lparr>job_action := WRITECACHE\<rparr>)
               (bump ssd_writes_update (d\<lparr>nr_jobs := nr_jobs d + 1\<rparr>));
             flashcache_clean_set (i div assoc d) (sysctl_clean_on_write_miss (sysctl d)) d
           }
       }) = Some d'"
    by (auto simp: flashcache_write_miss_def Let_def elim!: bindE cong: if_cong option.case_cong)
  note iv = inval_blocks_eff [OF 1]
  show ?thesis
  proof (cases "q = 0")
    case False
    with 2 obtain e1 where "put_back i e = Some e1"
      and "(if q < 0 then flashcache_bio_endio b (- EIO) None e1 else Some e1) = Some d'"
      by (auto elim!: bindE)
    with iv False show ?thesis
      by (auto simp: inval_result_def eff_def split: if_splits dest!: put_back_view [THEN eff_view] endio_eff)
  next
    case True
    with 2 obtain e1 r e2 where c: "claim_identity wr_replace_update CACHEWRITEINPROG b i e = Some e1"
      and n: "new_job_or_inject WRITE_MISS_JOB_ALLOC_FAIL b i e1 = (r, e2)"
      and r: "(case r of None \<Rightarrow> miss_failed b i e2
         | Some job \<Rightarrow> do {
             d \<leftarrow> launch_cache_write (job\<lparr>job_action := WRITECACHE\<rparr>)
               (bump ssd_writes_update (e2\<lparr>nr_jobs := nr_jobs e2 + 1\<rparr>));
             flashcache_clean_set (i div assoc d) (sysctl_clean_on_write_miss (sysctl d)) d
           }) = Some d'"
      by (auto elim!: bindE split: prod.splits)
    have "neutral d e1" using iv True eff_view [OF claim_identity_view [OF c]]
      by (simp add: inval_result_def eff_def)
    then show ?thesis by (rule places_after) (rule write_miss_rest_eff [OF r n])
  qed
qed

lemma write_hit_eff:
  assumes "flashcache_write_hit b i d = Some d'"
  shows "places b d d'"
proof (cases "block_idle i d")
  case False
  with assms show ?thesis by (simp add: flashcache_write_hit_def enqueue_or_fail_eff)
next
  case True
  define d1 where "d1 = set_state i (state_of (bump write_hits_update
      (if state_of d i AND DIRTY \<noteq> 0 then bump dirty_write_hits_update d else d)) i OR CACHEWRITEINPROG)
    (bump write_hits_update (if state_of d i AND DIRTY \<noteq> 0 then bump dirty_write_hits_update d else d))"
  have v: "neutral d d1" by (rule eff_view) (simp add: d1_def)
  obtain r e where 1: "new_job_or_inject WRITE_HIT_JOB_ALLOC_FAIL b i d1 = (r, e)" by force
  show ?thesis
  proof (cases r)
    case None
    with assms True 1 [unfolded d1_def] have "hit_failed b i e = Some d'"
      by (simp add: flashcache_write_hit_def Let_def)
    from hit_failed_eff [OF this] v new_job_or_inject_eff [OF 1] None show ?thesis by (simp add: eff_def)
  next
    case (Some job)
    let ?e = "bump ssd_writes_update (e\<lparr>nr_jobs := nr_jobs e + 1\<rparr>)"
    let ?e' = "if mode ?e = FLASHCACHE_WRITE_BACK then ?e else bump disk_writes_update ?e"
    from assms True 1 [unfolded d1_def] Some obtain e1 where l: "launch_cache_write (job\<lparr>job_action := WRITECACHE\<rparr>) ?e' = Some e1"
      and c: "(if mode e1 = FLASHCACHE_WRITE_BACK then flashcache_clean_set (i div assoc e1) 0 e1 else Some e1) = Some d'"
      by (auto simp: flashcache_write_hit_def Let_def elim!: bindE cong: if_cong)
    have j: "job_bio (job\<lparr>job_action := WRITECACHE\<rparr>) = Some b"
      using new_job_or_inject_eff(2) [OF 1 Some] by simp
    have "eff e ?e' 1 0 0 0 (\<lambda>_. 0)" by (simp add: eff_def)
    moreover have "neutral e1 d'" using c clean_set_eff by (auto split: if_splits)
    ultimately show ?thesis
      using v new_job_or_inject_eff(1) [OF 1] launch_cache_write_eff [OF l j] Some by (simp add: eff_def)
  qed
qed

lemma inval_or_fail_eff:
  assumes "flashcache_inval_blocks b d = Some (q, e)" and "q \<noteq> 0"
    and "(if q < 0 then flashcache_bio_endio b (- EIO) None e else Some e) = Some d'"
  shows "places b d d'"
  using inval_blocks_eff [OF assms(1)] assms(2,3)
  by (auto simp: inval_result_def eff_def split: if_splits dest!: endio_eff)

lemma inval_free_eff: "flashcache_inval_blocks b d = Some (0, e) \<Longrightarrow> neutral d e"
  using inval_blocks_eff [of b d 0 e] by (simp add: inval_result_def)

lemma write_eff:
  assumes "flashcache_write b d = Some d'"
  shows "places b d d'"
proof -
  from assms obtain res e where l: "flashcache_lookup b d = Some (res, e)"
    and r: "(case found_index res of
       Some index \<Rightarrow>
         if is_hit b res e then flashcache_write_hit b index e else flashcache_write_miss b index e
     | None \<Rightarrow> do {
         (queued, d) \<leftarrow> flashcache_inval_blocks b e;
         if queued \<noteq> 0
         then (if queued < 0 then flashcache_bio_endio b (- EIO) None d else Some d)
         else do {
           d \<leftarrow> flashcache_start_uncached_io b d;
           flashcache_clean_set (hash_block d (bi_sector b)) 0 d
         }
       }) = Some d'"
    by (auto simp: flashcache_write_def elim!: bindE)
  have "places b e d'"
  proof (cases "found_index res")
    case (Some i)
    with r show ?thesis by (auto split: if_splits dest!: write_hit_eff write_miss_eff)
  next
    case None
    with r obtain q e1 where q: "flashcache_inval_blocks b e = Some (q, e1)"
      and t: "(if q \<noteq> 0
         then (if q < 0 then flashcache_bio_endio b (- EIO) None e1 else Some e1)
         else do {
           d \<leftarrow> flashcache_start_uncached_io b e1;
           flashcache_clean_set (hash_block d (bi_sector b)) 0 d
         }) = Some d'" by (auto elim!: bindE)
    show ?thesis
    proof (cases "q = 0")
      case False
      with t show ?thesis by (intro inval_or_fail_eff [OF q]) simp_all
    next
      case True
      with t obtain e2 where "flashcache_start_uncached_io b e1 = Some e2"
        and "flashcache_clean_set (hash_block e2 (bi_sector b)) 0 e2 = Some d'" by (auto elim!: bindE)
      from places_after [OF inval_free_eff [OF q [unfolded True]]
          places_then [OF start_uncached_eff [OF this(1)] clean_set_eff [OF this(2)]]]
      show ?thesis .
    qed
  qed
  with eff_view [OF lookup_view [OF l]] show ?thesis by (rule places_after)
qed

text \<open>The three ways of a read that missed the prefetcher's cache.\<close>

lemma read_miss_path_eff:
  assumes "(do {
         (uncached, d) \<leftarrow> (if res = Noroom \<or> write_only_cache e \<noteq> 0 then Some (True, e)
                           else flashcache_uncacheable b e);
         if uncached
         then do {
           d \<leftarrow> put_back_found res d;
           d \<leftarrow> (if res = Noroom then flashcache_clean_set (hash_block d (bi_sector b)) 0 d
                 else Some d);
           d \<leftarrow> flashcache_start_uncached_io b d;
           pfd_cache_prefetch info d
         }
         else do {
           index \<leftarrow> found_index res;
           d \<leftarrow> claim_identity replace_update DISKREADINPROG b index d;
           d \<leftarrow> flashcache_read_miss b index d;
           pfd_cache_prefetch info d
         }
       }) = Some d'"
  shows "places b e d'"
proof -
  from assms obtain u e1 where u: "(if res = Noroom \<or> write_only_cache e \<noteq> 0 then Some (True, e)
      else flashcache_uncacheable b e) = Some (u, e1)"
    and r: "(if u
         then do {
           d \<leftarrow> put_back_found res e1;
           d \<leftarrow> (if res = Noroom then flashcache_clean_set (hash_block d (bi_sector b)) 0 d
                 else Some d);
           d \<leftarrow> flashcache_start_uncached_io b d;
           pfd_cache_prefetch info d
         }
         else do {
           index \<leftarrow> found_index res;
           d \<leftarrow> claim_identity replace_update DISKREADINPROG b index e1;
           d \<leftarrow> flashcache_read_miss b index d;
           pfd_cache_prefetch info d
         }) = Some d'" by (auto elim!: bindE)
  have n: "neutral e e1" using u by (intro eff_view) (auto split: if_splits dest!: uncacheable_view)
  have "places b e1 d'"
  proof (cases u)
    case True
    with r obtain f1 f2 f3 where a: "put_back_found res e1 = Some f1"
      and c: "(if res = Noroom then flashcache_clean_set (hash_block f1 (bi_sector b)) 0 f1 else Some f1) = Some f2"
      and s: "flashcache_start_uncached_io b f2 = Some f3" and p: "pfd_cache_prefetch info f3 = Some d'"
      by (auto elim!: bindE)
    have "neutral f1 f2" using c by (auto split: if_splits dest!: clean_set_eff)
    from places_after [OF neutral_trans [OF eff_view [OF put_back_found_view [OF a]] this]
        places_then [OF start_uncached_eff [OF s] eff_view [OF prefetch_view [OF p]]]]
    show ?thesis .
  next
    case False
    with r obtain i f1 f2 where a: "claim_identity replace_update DISKREADINPROG b i e1 = Some f1"
      and m: "flashcache_read_miss b i f1 = Some f2" and p: "pfd_cache_prefetch info f2 = Some d'"
      by (auto elim!: bindE)
    from places_after [OF eff_view [OF claim_identity_view [OF a]]
        places_then [OF read_miss_eff [OF m] eff_view [OF prefetch_view [OF p]]]]
    show ?thesis .
  qed
  with n show ?thesis by (rule places_after)
qed

lemma read_from_cache_eff:
  assumes "read_from_cache b info d = Some d'"
  shows "places b d d'"
proof -
  from assms obtain res e where l: "flashcache_lookup b d = Some (res, e)"
    by (auto simp: read_from_cache_def elim!: bindE)
  have "places b e d'"
  proof (cases "is_hit b res e")
    case True
    with assms l obtain i e1 where "flashcache_read_hit b i e = Some e1" "pfd_cache_prefetch info e1 = Some d'"
      by (auto simp: read_from_cache_def elim!: bindE)
    from places_then [OF read_hit_eff [OF this(1)] eff_view [OF prefetch_view [OF this(2)]]] show ?thesis .
  next
    case False
    with assms l obtain q e1 where q: "flashcache_inval_blocks b e = Some (q, e1)"
      by (auto simp: read_from_cache_def elim!: bindE)
    note r = assms [unfolded read_from_cache_def l, simplified, simplified False q, simplified]
    show ?thesis
    proof (cases "q = 0")
      case True
      with r have "places b e1 d'" by (intro read_miss_path_eff) simp
      with inval_free_eff [OF q [unfolded True]] show ?thesis by (rule places_after)
    next
      case False
      with r obtain e2 where "(if q < 0 then flashcache_bio_endio b (- EIO) None e1 else Some e1) = Some e2"
        and "put_back_found res e2 = Some d'" by (auto elim!: bindE)
      from places_then [OF inval_or_fail_eff [OF q False this(1)] eff_view [OF put_back_found_view [OF this(2)]]]
      show ?thesis .
    qed
  qed
  with eff_view [OF lookup_view [OF l]] show ?thesis by (rule places_after)
qed

lemma read_after_pfd_eff:
  assumes "read_after_pfd b info res d = Some d'"
  shows "if res = Served then d' = d else places b d d'"
proof -
  have w: "jgap (pfd_waiters_update f e) = jgap e" "cgap (pfd_waiters_update f e) = cgap e"
    "pgap (pfd_waiters_update f e) = pgap e" "qgap (pfd_waiters_update f e) = qgap e"
    "quview (pfd_waiters_update f e) = quview e" for f e
    by (simp_all add: gap_defs quview_def shape_def)
  show ?thesis
    using assms read_from_cache_eff [of b info d d']
    by (auto simp: read_after_pfd_def eff_def w split: handle_result.splits)
      (simp_all add: bios_def active_jobs_def)
qed

lemmas gaps_meta [simp] = upd_meta_view [THEN view_gaps(1)] upd_meta_view [THEN view_gaps(2)]
  upd_meta_view [THEN view_gaps(3)] upd_meta_view [THEN view_gaps(4)]
  upd_meta_view [THEN view_gaps(5)] upd_meta_view [THEN view_gaps(6)]

lemma pfd_finish_eff:
  assumes "pfd_finish_bio b c i d = (res, d')"
  shows "if res = Served then places b d d' else neutral d d'" and "res \<noteq> Sleeps c' i'"
  using assms by (auto simp: pfd_finish_bio_def eff_def split: if_splits)

lemma pfd_handle_eff:
  assumes "pfd_cache_handle_bio b d = (res, d')"
  shows "if res = Served then places b d d' else neutral d d'"
  using assms
  by (auto simp: pfd_cache_handle_bio_def Let_def eff_def split: option.splits if_splits
      dest!: pfd_finish_eff(1))

lemma read_eff:
  assumes "flashcache_read b d = Some d'"
  shows "places b d d'"
proof -
  from assms obtain info e res e1 where 1: "pfd_stat_update b d = Some (info, e)"
    and 2: "pfd_cache_handle_bio b e = (res, e1)" and 3: "read_after_pfd b info res e1 = Some d'"
    by (auto simp: flashcache_read_def elim!: bindE split: prod.splits)
  have "places b e d'"
    using pfd_handle_eff [OF 2] read_after_pfd_eff [OF 3] by (auto simp: eff_def split: if_splits)
  with eff_view [OF stat_update_view [OF 1]] show ?thesis by (rule places_after)
qed

lemma map_uncacheable_view: "map_uncacheable b d = Some (r, d') \<Longrightarrow> view d' = view d"
  by (auto simp: map_uncacheable_def split: if_splits dest!: uncacheable_view)

lemma map_eff:
  assumes "flashcache_map b d = Some (r, d')"
  shows "if bi_barrier b then r = - EOPNOTSUPP \<and> neutral d d' else r = DM_MAPIO_SUBMITTED \<and> places b d d'"
proof -
  define d1 where "d1 = (if unat (to_sector b) \<le> 32
    then d\<lparr>size_hist := (size_hist d)(unat (to_sector b) := size_hist d (unat (to_sector b)) + 1)\<rparr> else d)"
  have v: "view d1 = view d" by (simp add: d1_def view_defs)
  show ?thesis
  proof (cases "bi_barrier b")
    case True
    with assms eff_view [OF v] show ?thesis
      by (auto simp: flashcache_map_def Let_def d1_def [symmetric])
  next
    case False
    define d2 where "d2 = (if bi_is_write b then bump writes_update d1 else bump reads_update d1)"
    have v2: "view d2 = view d" using v by (simp add: d2_def)
    from assms False obtain d3 u d4 d5 where
      e: "(if sysctl_pid_do_expiry (sysctl d2) \<noteq> 0 \<and> (whitelist d2 \<noteq> [] \<or> blacklist d2 \<noteq> [])
           then flashcache_pid_expiry_all_locked d2 else Some d2) = Some d3"
      and m: "map_uncacheable b d3 = Some (u, d4)"
      and r: "(if u
         then do {
           (queued, d) \<leftarrow> flashcache_inval_blocks b d4;
           if queued \<noteq> 0
           then (if queued < 0 then flashcache_bio_endio b (- EIO) None d else Some d)
           else flashcache_start_uncached_io b d
         }
         else if bi_is_write b then flashcache_write b d4 else flashcache_read b d4) = Some d5"
      and d': "r = DM_MAPIO_SUBMITTED" "d' = d5"
      unfolding flashcache_map_def Let_def d1_def [symmetric] d2_def [symmetric]
      by (auto elim!: bindE)
    have v3: "view d3 = view d2" using e by (auto split: if_splits dest!: expiry_view)
    have n: "neutral d d4"
      by (rule eff_view) (simp add: map_uncacheable_view [OF m] v3 v2)
    have "places b d4 d5"
    proof (cases u)
      case False
      with r show ?thesis by (auto split: if_splits dest!: write_eff read_eff)
    next
      case True
      with r obtain q e1 where q: "flashcache_inval_blocks b d4 = Some (q, e1)"
        and t: "(if q \<noteq> 0 then (if q < 0 then flashcache_bio_endio b (- EIO) None e1 else Some e1)
           else flashcache_start_uncached_io b e1) = Some d5" by (auto elim!: bindE)
      show ?thesis
      proof (cases "q = 0")
        case False
        with t show ?thesis by (intro inval_or_fail_eff [OF q]) simp_all
      next
        case True
        with t have "flashcache_start_uncached_io b e1 = Some d5" by simp
        from places_after [OF inval_free_eff [OF q [unfolded True]] start_uncached_eff [OF this]]
        show ?thesis .
      qed
    qed
    with n d' False show ?thesis by (simp add: places_after)
  qed
qed

end
