(* ===== verification/Serial.thy ===== *)
theory Serial
  imports Flow
begin

text \<open>
  The metadata path: at most one write of a metadata block is on its way, the updates that arrive
  meanwhile wait at the block, and no job is lost or duplicated. The jobs on their way are those
  of the queue of metadata writes, of the requests in flight and of the queue of completed
  metadata writes; a job that a handler has just taken from a queue is in hand (\<open>xs\<close> below).
\<close>

section \<open>The invariant\<close>

definition md_block_of :: "cache_c \<Rightarrow> kcached_job \<Rightarrow> nat" where
  "md_block_of d job = INDEX_TO_MD_BLOCK d (the (job_index job))"

definition md_pipeline :: "cache_c \<Rightarrow> kcached_job list" where
  "md_pipeline d = q_md_io_jobs d @ map io_job (filter md_request (io_inflight d)) @ q_md_complete_jobs d"

definition waiting :: "cache_md_block_head \<Rightarrow> kcached_job list" where
  "waiting h = queued_updates h @ md_io_inprog h"

definition md_inv :: "kcached_job list \<Rightarrow> cache_c \<Rightarrow> bool" where
  "md_inv xs d \<longleftrightarrow>
     (\<forall>b. length (filter (\<lambda>j. md_block_of d j = b) (xs @ md_pipeline d)) = nr_in_prog (md_blocks_buf d b)) \<and>
     (\<forall>b. nr_in_prog (md_blocks_buf d b) \<le> 1) \<and>
     (\<forall>b. nr_in_prog (md_blocks_buf d b) = 0 \<longrightarrow> waiting (md_blocks_buf d b) = []) \<and>
     (\<forall>j \<in> set (q_md_io_jobs d). md_io_inprog (md_blocks_buf d (md_block_of d j)) = []) \<and>
     (\<forall>j \<in> set (xs @ md_pipeline d). md_ok d j) \<and>
     (\<forall>b. \<forall>j \<in> set (waiting (md_blocks_buf d b)). md_ok d j \<and> md_block_of d j = b)"

definition pend_ok :: "cache_c \<Rightarrow> bool" where
  "pend_ok d \<longleftrightarrow> (\<forall>j \<in> set (q_pending_jobs d). job_error j = 0 \<longrightarrow> job_bio j = None)"

lemma md_invD:
  assumes "md_inv xs d"
  shows "length (filter (\<lambda>j. md_block_of d j = b) (xs @ md_pipeline d)) = nr_in_prog (md_blocks_buf d b)"
    "nr_in_prog (md_blocks_buf d b) \<le> 1"
    "nr_in_prog (md_blocks_buf d b) = 0 \<Longrightarrow> waiting (md_blocks_buf d b) = []"
    "j \<in> set (q_md_io_jobs d) \<Longrightarrow> md_io_inprog (md_blocks_buf d (md_block_of d j)) = []"
    "j \<in> set (xs @ md_pipeline d) \<Longrightarrow> md_ok d j"
    "j \<in> set (waiting (md_blocks_buf d b)) \<Longrightarrow> md_ok d j \<and> md_block_of d j = b"
  using assms unfolding md_inv_def by blast+

lemma md_block_of_shape: "shape d' = shape d \<Longrightarrow> md_block_of d' = md_block_of d"
  by (simp add: fun_eq_iff md_block_of_def INDEX_TO_MD_BLOCK_def MD_SLOTS_PER_BLOCK_def
      MD_BLOCK_BYTES_def shape_def)

lemma md_ok_shape: "shape d' = shape d \<Longrightarrow> md_ok d' = md_ok d"
  by (simp add: fun_eq_iff md_ok_def shape_def)

lemma quview_inv:
  assumes "quview d' = quview d"
  shows "md_inv xs d' = md_inv xs d" "pend_ok d' = pend_ok d" "md_blocks_buf d' = md_blocks_buf d"
    "md_pipeline d' = md_pipeline d" "shape d' = shape d"
  using assms md_block_of_shape [of d' d] md_ok_shape [of d' d]
  by (simp_all add: quview_def md_inv_def pend_ok_def md_pipeline_def)

section \<open>The weight of the waiting updates\<close>

definition md_busy :: "(nat \<Rightarrow> cache_md_block_head) \<Rightarrow> nat set" where
  "md_busy m = {b. nr_in_prog (m b) \<noteq> 0}"

definition md_weight :: "(kcached_job \<Rightarrow> int) \<Rightarrow> (nat \<Rightarrow> cache_md_block_head) \<Rightarrow> int" where
  "md_weight w m = (\<Sum>b \<in> md_busy m. sum_list (map w (waiting (m b))))"

lemma md_inv_finite: "md_inv xs d \<Longrightarrow> finite (md_busy (md_blocks_buf d))"
proof (rule finite_subset)
  assume inv: "md_inv xs d"
  show "md_busy (md_blocks_buf d) \<subseteq> md_block_of d ` set (xs @ md_pipeline d)"
  proof
    fix b assume "b \<in> md_busy (md_blocks_buf d)"
    then have "filter (\<lambda>j. md_block_of d j = b) (xs @ md_pipeline d) \<noteq> []"
      using md_invD(1) [OF inv, of b] by (auto simp only: md_busy_def mem_Collect_eq list.size)
    then show "b \<in> md_block_of d ` set (xs @ md_pipeline d)"
      unfolding filter_empty_conv by blast
  qed
qed simp

lemma md_weight_upd:
  assumes "finite (md_busy m)" and "nr_in_prog (m b) = 0 \<longrightarrow> waiting (m b) = []"
    and "nr_in_prog h = 0 \<longrightarrow> waiting h = []"
  shows "md_weight w (m(b := h)) =
    md_weight w m - sum_list (map w (waiting (m b))) + sum_list (map w (waiting h))"
proof -
  let ?S = "insert b (md_busy m)"
  have 1: "md_weight w m = (\<Sum>b \<in> ?S. sum_list (map w (waiting (m b))))"
    unfolding md_weight_def by (rule sum.mono_neutral_left) (use assms in \<open>auto simp: md_busy_def\<close>)
  have 2: "md_weight w (m(b := h)) = (\<Sum>c \<in> ?S. sum_list (map w (waiting ((m(b := h)) c))))"
    unfolding md_weight_def by (rule sum.mono_neutral_left) (use assms in \<open>auto simp: md_busy_def\<close>)
  have "(\<Sum>c \<in> ?S - {b}. sum_list (map w (waiting ((m(b := h)) c)))) =
      (\<Sum>c \<in> ?S - {b}. sum_list (map w (waiting (m c))))" by (rule sum.cong) auto
  then show ?thesis
    unfolding 1 2 using assms(1) by (simp add: sum.remove [of ?S b])
qed

section \<open>The accounts with the waiting updates\<close>

definition jtot :: "cache_c \<Rightarrow> int" where "jtot d = jgap d - md_weight (\<lambda>_. 1) (md_blocks_buf d)"
definition ctot :: "cache_c \<Rightarrow> int" where "ctot d = cgap d - md_weight (\<lambda>_. 1) (md_blocks_buf d)"

definition btot :: "(bio \<Rightarrow> int) \<Rightarrow> cache_c \<Rightarrow> int" where
  "btot g d = bios g d + md_weight (job_weight g) (md_blocks_buf d)"

text \<open>The effect on the full accounts, and what is kept.\<close>

definition teff :: "cache_c \<Rightarrow> cache_c \<Rightarrow> int \<Rightarrow> ((bio \<Rightarrow> int) \<Rightarrow> int) \<Rightarrow> bool" where
  "teff d d' j f \<longleftrightarrow> shape d' = shape d \<and> jtot d' = jtot d + j \<and> ctot d' = ctot d + j \<and>
     pgap d' = pgap d \<and> qgap d' = qgap d \<and> (\<forall>g. btot g d' = btot g d + f g)"

definition keeps :: "cache_c \<Rightarrow> cache_c \<Rightarrow> bool" where
  "keeps d d' \<longleftrightarrow> (md_inv [] d \<longrightarrow> md_inv [] d') \<and> (pend_ok d \<longrightarrow> pend_ok d')"

lemma eff_teff:
  assumes "eff d d' j j 0 0 f"
  shows "teff d d' j f" and "keeps d d'"
  using assms quview_inv [of d' d] by (auto simp: eff_def teff_def keeps_def jtot_def ctot_def btot_def)

lemma teff_trans:
  "teff d e j f \<Longrightarrow> teff e d' j' f' \<Longrightarrow> teff d d' (j + j') (\<lambda>g. f g + f' g)"
  by (simp add: teff_def)

lemma keeps_trans: "keeps d e \<Longrightarrow> keeps e d' \<Longrightarrow> keeps d d'"
  by (simp add: keeps_def)

text \<open>A change of one metadata block that leaves the rest alone.\<close>

lemma teff_md_upd:
  assumes "finite (md_busy (md_blocks_buf d))"
    and "nr_in_prog (md_blocks_buf d b) = 0 \<longrightarrow> waiting (md_blocks_buf d b) = []"
    and "nr_in_prog (f (md_blocks_buf d b)) = 0 \<longrightarrow> waiting (f (md_blocks_buf d b)) = []"
  shows "teff d (upd_md b f d)
    (int (length (waiting (md_blocks_buf d b))) - int (length (waiting (f (md_blocks_buf d b)))))
    (\<lambda>g. sum_list (map (job_weight g) (waiting (f (md_blocks_buf d b)))) -
         sum_list (map (job_weight g) (waiting (md_blocks_buf d b))))"
proof -
  have "jgap (upd_md b f d) = jgap d" "cgap (upd_md b f d) = cgap d" "pgap (upd_md b f d) = pgap d"
    "qgap (upd_md b f d) = qgap d" "bios g (upd_md b f d) = bios g d" "shape (upd_md b f d) = shape d"
    "md_blocks_buf (upd_md b f d) = (md_blocks_buf d)(b := f (md_blocks_buf d b))" for g
    by (simp_all add: gap_defs upd_md_def shape_def)
  then show ?thesis
    using md_weight_upd [OF assms(1), of b "f (md_blocks_buf d b)"] assms(2,3)
    by (simp add: teff_def jtot_def ctot_def btot_def sum_list_triv)
qed

section \<open>Queues\<close>

lemma gaps_push [simp]:
  "jgap (push_md_io job d) = jgap d - 1" "cgap (push_md_io job d) = cgap d - 1"
  "pgap (push_md_io job d) = pgap d" "qgap (push_md_io job d) = qgap d"
  "bios g (push_md_io job d) = bios g d + job_weight g job"
  "shape (push_md_io job d) = shape d" "md_blocks_buf (push_md_io job d) = md_blocks_buf d"
  "jgap (push_md_complete job d) = jgap d - 1" "cgap (push_md_complete job d) = cgap d - 1"
  "pgap (push_md_complete job d) = pgap d" "qgap (push_md_complete job d) = qgap d"
  "bios g (push_md_complete job d) = bios g d + job_weight g job"
  "shape (push_md_complete job d) = shape d" "md_blocks_buf (push_md_complete job d) = md_blocks_buf d"
  "jgap (push_pending job d) = jgap d - 1" "cgap (push_pending job d) = cgap d - 1"
  "pgap (push_pending job d) = pgap d" "qgap (push_pending job d) = qgap d"
  "bios g (push_pending job d) = bios g d + job_weight g job"
  "shape (push_pending job d) = shape d" "md_blocks_buf (push_pending job d) = md_blocks_buf d"
  "jgap (push_io job d) = jgap d - 1" "cgap (push_io job d) = cgap d - 1"
  "pgap (push_io job d) = pgap d" "qgap (push_io job d) = qgap d"
  "bios g (push_io job d) = bios g d + job_weight g job" "quview (push_io job d) = quview d"
  "jgap (push_uncached_io_complete job d) = jgap d - 1"
  "cgap (push_uncached_io_complete job d) = cgap d - 1"
  "pgap (push_uncached_io_complete job d) = pgap d" "qgap (push_uncached_io_complete job d) = qgap d"
  "bios g (push_uncached_io_complete job d) = bios g d + job_weight g job"
  "quview (push_uncached_io_complete job d) = quview d"
  by (simp_all add: gap_defs quview_def shape_def push_md_io_def push_md_complete_def
      push_pending_def push_io_def push_uncached_io_complete_def)

lemma pipeline_push [simp]:
  "md_pipeline (push_md_io job d) = q_md_io_jobs d @ job # map io_job (filter md_request (io_inflight d)) @ q_md_complete_jobs d"
  "md_pipeline (push_md_complete job d) = md_pipeline d @ [job]"
  "md_pipeline (push_pending job d) = md_pipeline d"
  "md_pipeline (upd_md b f d) = md_pipeline d"
  "q_md_io_jobs (upd_md b f d) = q_md_io_jobs d"
  "q_md_io_jobs (push_md_io job d) = q_md_io_jobs d @ [job]"
  "q_md_io_jobs (push_md_complete job d) = q_md_io_jobs d"
  "q_pending_jobs (push_md_io job d) = q_pending_jobs d"
  "q_pending_jobs (push_md_complete job d) = q_pending_jobs d"
  "q_pending_jobs (upd_md b f d) = q_pending_jobs d"
  "q_pending_jobs (push_pending job d) = q_pending_jobs d @ [job]"
  "q_md_io_jobs (push_pending job d) = q_md_io_jobs d"
  "md_blocks_buf (upd_md b f d) = (md_blocks_buf d)(b := f (md_blocks_buf d b))"
  "shape (upd_md b f d) = shape d" "io_inflight (upd_md b f d) = io_inflight d"
  "q_md_complete_jobs (upd_md b f d) = q_md_complete_jobs d"
  by (simp_all add: md_pipeline_def push_md_io_def push_md_complete_def push_pending_def upd_md_def
      shape_def)

lemma md_of_same [simp]:
  "md_block_of (push_md_io job d) = md_block_of d" "md_ok (push_md_io job d) = md_ok d"
  "md_block_of (push_md_complete job d) = md_block_of d" "md_ok (push_md_complete job d) = md_ok d"
  "md_block_of (push_pending job d) = md_block_of d" "md_ok (push_pending job d) = md_ok d"
  "md_block_of (upd_md b f d) = md_block_of d" "md_ok (upd_md b f d) = md_ok d"
  by (rule md_block_of_shape md_ok_shape, simp)+

lemma teff_push:
  "teff d (push_md_io job d) (- 1) (\<lambda>g. job_weight g job)"
  "teff d (push_md_complete job d) (- 1) (\<lambda>g. job_weight g job)"
  "teff d (push_pending job d) (- 1) (\<lambda>g. job_weight g job)"
  by (simp_all add: teff_def jtot_def ctot_def btot_def)

lemma submit_same [simp]:
  "shape (submit_io fn w r m job d) = shape d" "md_blocks_buf (submit_io fn w r m job d) = md_blocks_buf d"
  "q_md_io_jobs (submit_io fn w r m job d) = q_md_io_jobs d"
  "q_pending_jobs (submit_io fn w r m job d) = q_pending_jobs d"
  "md_pipeline (submit_io Md_write_callback w r m job d) =
     q_md_io_jobs d @ map io_job (filter md_request (io_inflight d)) @ job # q_md_complete_jobs d"
  by (simp_all add: submit_io_def shape_def md_pipeline_def md_request_def)

lemma teff_submit: "teff d (submit_io fn w r m job d) (- 1) (\<lambda>g. job_weight g job)"
  by (simp add: teff_def jtot_def ctot_def btot_def)

lemma quview_queues:
  assumes "quview d' = quview d"
  shows "q_md_io_jobs d' = q_md_io_jobs d" "q_md_complete_jobs d' = q_md_complete_jobs d"
    "filter md_request (io_inflight d') = filter md_request (io_inflight d)"
    "q_pending_jobs d' = q_pending_jobs d"
  using assms by (simp_all add: quview_def)

section \<open>The operations of the metadata path\<close>

text \<open>A job may change its buffer and its error on the way.\<close>

definition same_job :: "kcached_job \<Rightarrow> kcached_job \<Rightarrow> bool" where
  "same_job j j' \<longleftrightarrow> job_bio j' = job_bio j \<and> job_index j' = job_index j \<and> job_action j' = job_action j"

lemma same_job_D:
  assumes "same_job j j'"
  shows "job_weight g j' = job_weight g j" "md_ok d j' = md_ok d j" "md_block_of d j' = md_block_of d j"
  using assms by (simp_all add: same_job_def job_weight_def md_ok_def md_block_of_def)

lemma md_write_full:
  assumes "flashcache_md_write job d = Some d'" and inv: "md_inv [] d" and ok: "md_ok d job"
  shows "md_inv [] d'" and "teff d d' (- 1) (\<lambda>g. job_weight g job)" and "pend_ok d' = pend_ok d"
proof -
  let ?b = "md_block_of d job" and ?m = "md_blocks_buf d"
  note i = md_invD [OF inv] and fin = md_inv_finite [OF inv]
  have "md_inv [] d' \<and> teff d d' (- 1) (\<lambda>g. job_weight g job) \<and> pend_ok d' = pend_ok d"
  proof (cases "nr_in_prog (?m ?b) = 0")
    case False
    let ?f = "\<lambda>h. h\<lparr>queued_updates := queued_updates h @ [job]\<rparr>"
    have d': "d' = upd_md ?b ?f d"
      using assms(1) False by (auto simp: flashcache_md_write_def md_block_of_def Let_def elim!: bindE)
    have "md_inv [] d'"
      unfolding d' md_inv_def using i False ok by (auto simp: waiting_def) (metis i(4))
    moreover have "teff d d' (- 1) (\<lambda>g. job_weight g job)"
      using teff_md_upd [OF fin, of ?b ?f] False by (simp add: d' waiting_def)
    ultimately show ?thesis by (simp add: d' pend_ok_def)
  next
    case True
    let ?f = "\<lambda>h. h\<lparr>nr_in_prog := 1\<rparr>"
    have d': "d' = push_md_io job (upd_md ?b ?f d)"
      using assms(1) True by (auto simp: flashcache_md_write_def md_block_of_def Let_def elim!: bindE)
    have w: "waiting (?m ?b) = []" using i(3) True by simp
    have "length (filter (\<lambda>j. md_block_of d j = b) (md_pipeline d')) =
        (if b = ?b then 1 else nr_in_prog (?m b))" for b
      using i(1) [of b] i(1) [of ?b] True by (auto simp: d' md_pipeline_def [of d])
    moreover have "set (md_pipeline d') = insert job (set (md_pipeline d))"
      by (auto simp: d' md_pipeline_def [of d])
    ultimately have "md_inv [] d'"
      unfolding md_inv_def using i ok w by (auto simp: d' waiting_def)
    moreover have "teff d d' (- 1) (\<lambda>g. job_weight g job)"
      using teff_trans [OF teff_md_upd [OF fin, of ?b ?f] teff_push(1) [of "upd_md ?b ?f d" job]] w True
      by (simp add: d' waiting_def)
    ultimately show ?thesis by (simp add: d' pend_ok_def)
  qed
  then show "md_inv [] d'" "teff d d' (- 1) (\<lambda>g. job_weight g job)" "pend_ok d' = pend_ok d" by blast+
qed

lemma alloc_sector_view:
  assumes "flashcache_alloc_md_sector job d = (ok, job', d')"
  shows "view d' = view d" "same_job job job'"
  using assms by (auto simp: flashcache_alloc_md_sector_def same_job_def split: prod.splits if_splits
      dest!: inject_viewD)

lemma md_inv_pipeline:
  assumes "md_inv xs d" and "shape d' = shape d" and "md_blocks_buf d' = md_blocks_buf d"
    and "q_md_io_jobs d' = q_md_io_jobs d"
    and "\<And>b. length (filter (\<lambda>j. md_block_of d j = b) (ys @ md_pipeline d')) =
      length (filter (\<lambda>j. md_block_of d j = b) (xs @ md_pipeline d))"
    and "\<And>j. j \<in> set (ys @ md_pipeline d') \<Longrightarrow> md_ok d j"
  shows "md_inv ys d'"
  using assms(1) unfolding md_inv_def assms(3,4) md_block_of_shape [OF assms(2)] md_ok_shape [OF assms(2)]
  using assms(5,6) by simp

lemma view_quview: "view d' = view d \<Longrightarrow> quview d' = quview d"
  using view_gaps [of d' d] by simp

lemma bump_fold_view [simp]: "view (fold (\<lambda>_. bump h) xs d) = view d"
  by (induction xs arbitrary: d) simp_all

lemma kickoff_full:
  assumes "flashcache_md_write_kickoff job d = Some d'" and inv: "md_inv [job] d"
    and none: "md_io_inprog (md_blocks_buf d (md_block_of d job)) = []"
  shows "md_inv [] d'" and "teff d d' (- 1) (\<lambda>g. job_weight g job)" and "pend_ok d' = pend_ok d"
proof -
  let ?b = "md_block_of d job" and ?m = "md_blocks_buf d"
  obtain ok job1 d1 where a: "flashcache_alloc_md_sector job d = (ok, job1, d1)"
    by (metis prod.exhaust)
  note v = alloc_sector_view [OF a]
  note q = quview_inv [OF view_quview [OF v(1)]]
  note sj = same_job_D [OF v(2)]
  have "md_inv [job1] d"
    by (rule md_inv_pipeline [OF inv refl refl refl]) (use md_invD(5) [OF inv] in \<open>auto simp: sj\<close>)
  then have inv1: "md_inv [job1] d1" by (simp add: q(1))
  note fin = md_inv_finite [OF inv1] and i = md_invD [OF inv1]
  have t1: "teff d d1 0 (\<lambda>_. 0)" by (rule eff_teff(1) [OF eff_view [OF v(1)]])
  have b1: "md_block_of d1 job1 = ?b" by (simp add: sj md_block_of_shape [OF q(5)])
  have "md_inv [] d' \<and> teff d1 d' (- 1) (\<lambda>g. job_weight g job) \<and> pend_ok d' = pend_ok d1"
  proof (cases ok)
    case False
    let ?j = "job1\<lparr>job_error := - EIO\<rparr>"
    have d': "d' = push_md_complete ?j d1"
      using assms(1) False a
      by (auto simp: flashcache_md_write_kickoff_def flashcache_md_write_callback_def elim!: bindE)
    have s2: "same_job job1 ?j" by (simp add: same_job_def)
    have "md_inv [] d'"
      by (rule md_inv_pipeline [OF inv1])
        (use i(5) in \<open>auto simp: d' same_job_D [OF s2]\<close>)
    then show ?thesis
      using teff_push(2) [of d1 ?j] by (simp add: d' same_job_D [OF s2] sj pend_ok_def)
  next
    case True
    let ?f = "\<lambda>h. h\<lparr>md_io_inprog := queued_updates (?m ?b), queued_updates := []\<rparr>"
    define u where "u = upd_md ?b ?f d1"
    obtain ix where ix: "job_index job = Some ix"
      using assms(1) by (auto simp: flashcache_md_write_kickoff_def elim!: bindE)
    have bb: "INDEX_TO_MD_BLOCK d1 ix = ?b"
      using b1 sj(3) [of d1] ix by (simp add: md_block_of_def)
    define v where "v = bump md_ssd_writes_update (bump ssd_writes_update
        (fold (\<lambda>_. bump md_write_batch_update) (queued_updates (?m ?b)) u))"
    from assms(1) True a obtain rg img where d': "d' = submit_io Md_write_callback True rg img job1 v"
      by (simp add: flashcache_md_write_kickoff_def ix Let_def bb q(3) v_def u_def) blast
    have vv: "view v = view u" by (simp add: v_def)
    note q2 = quview_inv [OF view_quview [OF vv]]
    have w: "waiting (?f (md_blocks_buf d1 ?b)) = waiting (md_blocks_buf d1 ?b)"
      using none by (simp add: waiting_def q(3))
    note q3 = quview_queues [OF view_quview [OF vv]]
    have uq: "q_md_complete_jobs u = q_md_complete_jobs d1" "io_inflight u = io_inflight d1"
      by (simp_all add: u_def)
    have p: "length (filter (\<lambda>j. md_block_of d1 j = b) (md_pipeline d')) =
        length (filter (\<lambda>j. md_block_of d1 j = b) ([job1] @ md_pipeline d1))" for b
      by (simp add: d' q3 uq u_def md_pipeline_def [of d1])
    have sp: "set (md_pipeline d') = insert job1 (set (md_pipeline d1))"
      by (auto simp: d' q3 uq u_def md_pipeline_def [of d1])
    have free: "md_block_of d1 j \<noteq> ?b" if "j \<in> set (q_md_io_jobs d1)" for j
    proof
      assume "md_block_of d1 j = ?b"
      with that have "filter (\<lambda>j. md_block_of d1 j = ?b) (md_pipeline d1) \<noteq> []"
        by (auto simp: filter_empty_conv md_pipeline_def)
      with i(1,2) [of ?b] b1 show False
        by (cases "filter (\<lambda>j. md_block_of d1 j = ?b) (md_pipeline d1)") auto
    qed
    have m': "md_blocks_buf d' = (md_blocks_buf d1)(?b := ?f (md_blocks_buf d1 ?b))"
      by (simp add: d' q2(3) u_def)
    have qi: "q_md_io_jobs d' = q_md_io_jobs d1" by (simp add: d' q3 u_def)
    have sh: "shape d' = shape d1" by (simp add: d' q2(5) u_def)
    have "md_inv [] d'"
      unfolding md_inv_def m' md_block_of_shape [OF sh] md_ok_shape [OF sh] qi append_Nil p sp
      using i free w by auto
    moreover have "teff d1 d' (- 1) (\<lambda>g. job_weight g job)"
      unfolding d'
      using teff_trans [OF teff_trans [OF teff_md_upd [OF fin, of ?b ?f] eff_teff(1) [OF eff_view [OF vv [unfolded u_def]]]]
          teff_submit [of v Md_write_callback True rg img job1]] w i(3) [of ?b]
      by (simp add: sj)
    moreover have "pend_ok d' = pend_ok d1" by (simp add: pend_ok_def d' q3 u_def)
    ultimately show ?thesis by blast
  qed
  then show "md_inv [] d'" "teff d d' (- 1) (\<lambda>g. job_weight g job)" "pend_ok d' = pend_ok d"
    using teff_trans [OF t1, of d' "- 1" "\<lambda>g. job_weight g job"] q(2) by simp_all
qed

lemma md_write_done_full:
  assumes "flashcache_md_write_done job d = Some d'" and inv: "md_inv [job] d"
  shows "md_inv [] d'" and "teff d d' (- 1) (\<lambda>g. job_weight g job)" and "pend_ok d' = pend_ok d"
proof -
  let ?b = "md_block_of d job" and ?m = "md_blocks_buf d"
  let ?f = "\<lambda>h. h\<lparr>md_io_inprog := []\<rparr>"
  define in_prog where "in_prog = md_io_inprog (?m ?b)"
  define job1 where "job1 = flashcache_free_md_sector job"
  define d0 where "d0 = upd_md ?b ?f d"
  have s1: "same_job job job1" by (simp add: same_job_def job1_def flashcache_free_md_sector_def)
  note i = md_invD [OF inv] and fin = md_inv_finite [OF inv]
  obtain ix where ix: "job_index job = Some ix"
    using assms(1) by (auto simp: flashcache_md_write_done_def elim!: bindE)
  have bb: "INDEX_TO_MD_BLOCK d ix = ?b" by (simp add: md_block_of_def ix)
  from assms(1) obtain d1 where
    each: "for_each (md_done_one (job_error job1)) (job1 # in_prog) d0 = Some d1"
    and rest: "(case queued_updates (md_blocks_buf d1 ?b) of
       next # rest \<Rightarrow> do {
         let d = upd_md ?b (\<lambda>h. h\<lparr>queued_updates := rest\<rparr>) d1;
         verify (md_action (job_action next));
         flashcache_md_write_kickoff next d
       }
     | [] \<Rightarrow> Some (upd_md ?b (\<lambda>h. h\<lparr>nr_in_prog := 0\<rparr>) d1)) = Some d'"
    by (auto simp: flashcache_md_write_done_def Let_def ix bb d0_def in_prog_def job1_def
        simp del: for_each.simps elim!: bindE cong: list.case_cong)
  have nz: "nr_in_prog (?m ?b) = 1"
    using i(1) [of ?b] i(2) [of ?b] by simp
  have okw: "md_ok d j" if "j \<in> set (queued_updates (?m b))" for j b
    using i(6) [of j b] that by (simp add: waiting_def)
  have m0: "md_blocks_buf d0 = ?m(?b := ?f (?m ?b))" by (simp add: d0_def)
  have inv0: "md_inv [job] d0"
    unfolding md_inv_def using i nz by (auto simp: d0_def waiting_def) (blast intro: okw)
  have t0: "teff d d0 (int (length in_prog)) (\<lambda>g. - sum_list (map (job_weight g) in_prog))"
    using teff_md_upd [OF fin, of ?b ?f] nz by (simp add: d0_def waiting_def in_prog_def)
  have "md_ok d j" if "j \<in> set in_prog" for j
    using i(6) [of j ?b] that by (simp add: waiting_def in_prog_def)
  then have "\<forall>j \<in> set (job1 # in_prog). md_ok d0 j"
    using i(5) [of job] by (auto simp: d0_def same_job_D [OF s1])
  note e1 = md_done_each_eff [OF each this]
  note t1 = teff_trans [OF t0 eff_teff(1) [OF e1]]
  have q1: "quview d1 = quview d0" using e1 by (simp add: eff_def)
  note q = quview_inv [OF q1]
  have inv1: "md_inv [job] d1" using inv0 by (simp add: q(1))
  note j = md_invD [OF inv1] and fin1 = md_inv_finite [OF inv1]
  have b1: "md_block_of d1 job = ?b" using md_block_of_shape [OF q(5)] by (simp add: d0_def)
  have p1: "pend_ok d1 = pend_ok d" by (simp add: q(2)) (simp add: pend_ok_def d0_def)
  have in1: "md_io_inprog (md_blocks_buf d1 ?b) = []" "nr_in_prog (md_blocks_buf d1 ?b) = 1"
    using nz by (simp_all add: q(3) m0)
  have "md_inv [] d' \<and> teff d1 d' 0 (\<lambda>_. 0) \<and> pend_ok d' = pend_ok d1"
  proof (cases "queued_updates (md_blocks_buf d1 ?b)")
    case Nil
    let ?g = "\<lambda>h. h\<lparr>nr_in_prog := 0\<rparr>"
    from rest Nil have d': "d' = upd_md ?b ?g d1" by simp
    have w: "waiting (md_blocks_buf d1 ?b) = []" using Nil in1 by (simp add: waiting_def)
    have "length (filter (\<lambda>j. md_block_of d1 j = b) (md_pipeline d1)) =
        (if b = ?b then 0 else nr_in_prog (md_blocks_buf d1 b))" for b
      using j(1) [of b] b1 in1 by auto
    then have "md_inv [] d'"
      unfolding md_inv_def d' using j w by (auto simp: waiting_def)
    moreover have "teff d1 d' 0 (\<lambda>_. 0)"
      using teff_md_upd [OF fin1, of ?b ?g] w by (simp add: d' waiting_def)
    ultimately show ?thesis by (simp add: d' pend_ok_def)
  next
    case (Cons nx rs)
    let ?g = "\<lambda>h. h\<lparr>queued_updates := rs\<rparr>"
    define d2 where "d2 = upd_md ?b ?g d1"
    from rest Cons have k: "flashcache_md_write_kickoff nx d2 = Some d'"
      by (auto simp: d2_def Let_def)
    have nx: "md_ok d1 nx" "md_block_of d1 nx = ?b"
      using j(6) [of nx ?b] Cons by (simp_all add: waiting_def)
    have okr: "md_ok d1 x" if "x \<in> set rs" for x
      using j(6) [of x ?b] Cons that by (simp add: waiting_def)
    have t2: "teff d1 d2 1 (\<lambda>g. - job_weight g nx)"
      using teff_md_upd [OF fin1, of ?b ?g] in1 Cons by (simp add: d2_def waiting_def)
    have c: "length (filter (\<lambda>j. md_block_of d1 j = b) ([nx] @ md_pipeline d1)) =
        length (filter (\<lambda>j. md_block_of d1 j = b) ([job] @ md_pipeline d1))" for b
      using nx b1 by simp
    have w2: "waiting (md_blocks_buf d2 b) = (if b = ?b then rs else waiting (md_blocks_buf d1 b))" for b
      by (simp add: d2_def waiting_def in1)
    have "md_inv [nx] d2"
      unfolding md_inv_def w2
      using j(1,2,3,4,5,6) nx in1 Cons
      by (auto simp: d2_def waiting_def c [simplified]) (simp add: okr)
    moreover have "md_io_inprog (md_blocks_buf d2 (md_block_of d2 nx)) = []"
      using nx in1 by (simp add: d2_def)
    ultimately have "md_inv [] d'" "teff d2 d' (- 1) (\<lambda>g. job_weight g nx)" "pend_ok d' = pend_ok d2"
      using kickoff_full [OF k] by blast+
    with teff_trans [OF t2 this(2)] show ?thesis by (simp add: pend_ok_def d2_def)
  qed
  then show "md_inv [] d'" "teff d d' (- 1) (\<lambda>g. job_weight g job)" "pend_ok d' = pend_ok d"
    using teff_trans [OF t1, of d' 0 "\<lambda>_. 0"] p1 by (simp_all add: same_job_D [OF s1])
qed

section \<open>The callback of data I/O\<close>

lemma io_callback_end_full:
  assumes "io_callback_end job i b err de d = Some d'" and "job_bio job = Some b" "job_error job = err"
  shows "teff d d' (- 1) (\<lambda>g. g b)" and "keeps d d'"
proof -
  let ?ended = "err = 0 \<or> mode d = FLASHCACHE_WRITE_BACK \<or> de"
  from assms(1) obtain d1 where
    1: "(if ?ended then flashcache_bio_endio b err (Some (job_start_time job)) d else Some d) = Some d1"
    and 2: "(if err \<noteq> 0 \<or> nr_queued (cache d1 i) > 0
       then push_pending (if ?ended then job\<lparr>job_bio := None\<rparr> else job) d1
       else finish_job (set_state i (state_of d1 i AND NOT BLOCK_IO_INPROG) d1)) = d'"
    by (auto simp: io_callback_end_def Let_def elim!: bindE split: if_splits)
  have e1: "eff d d1 0 0 0 0 (\<lambda>g. if ?ended then g b else 0)"
    using 1 endio_eff by (auto split: if_splits)
  note t1 = eff_teff [OF e1]
  have "teff d d' (- 1) (\<lambda>g. g b) \<and> keeps d d'"
  proof (cases "err \<noteq> 0 \<or> nr_queued (cache d1 i) > 0")
    case True
    let ?j = "if ?ended then job\<lparr>job_bio := None\<rparr> else job"
    have d': "d' = push_pending ?j d1" using 2 True by simp
    have "md_inv [] d1 \<longrightarrow> md_inv [] d'"
      unfolding d' md_inv_def by simp
    moreover have "pend_ok d1 \<longrightarrow> pend_ok d'"
      using assms(3) by (auto simp: d' pend_ok_def)
    ultimately have k: "keeps d1 d'" by (simp add: keeps_def)
    have w: "job_weight g ?j = (if ?ended then 0 else g b)" for g
      using assms(2) by (simp add: job_weight_def)
    have "teff d1 d' (- 1) (\<lambda>g. if ?ended then 0 else g b)"
      using teff_push(3) [of d1 ?j] unfolding d' w .
    from teff_trans [OF t1(1) this] have "teff d d' (- 1) (\<lambda>g. g b)"
      by (simp add: if_distrib cong: if_cong)
    with keeps_trans [OF t1(2) k] show ?thesis by blast
  next
    case False
    let ?e = "set_state i (state_of d1 i AND NOT BLOCK_IO_INPROG) d1"
    have d': "d' = finish_job ?e" and ended: ?ended using 2 False by auto
    have "disposes (\<lambda>g. g b) d d'"
      using e1 ended by (simp add: d' eff_def)
    from eff_teff [OF this] show ?thesis by blast
  qed
  then show "teff d d' (- 1) (\<lambda>g. g b)" "keeps d d'" by blast+
qed

end
