(* ===== verification/Zero.thy ===== *)
theory Zero
  imports Cache
begin

text \<open>
  What \<open>kzalloc\<close> and \<open>memset\<close> leave: every counter and link 0, every list empty, every pointer
  null. The state of the kernel around the driver is the argument of \<open>zero_cache_c\<close>.
\<close>

definition zero_cacheblock :: "cacheblock" where
  "zero_cacheblock =
     \<lparr>cache_state = 0, nr_queued = 0, lru_prev = 0, lru_next = 0, use_cnt = 0,
      lru_state = 0, dbn = 0, hash_prev = 0, hash_next = 0\<rparr>"

definition zero_cache_set :: "cache_set" where
  "zero_cache_set =
     \<lparr>set_fifo_next = 0, set_clean_next = 0, set_clean_inprog = 0, set_nr_dirty = 0,
      dirty_fallow = 0, fallow_tstamp = 0, fallow_next_cleaning = 0, hotlist_lru_head = 0,
      hotlist_lru_tail = 0, warmlist_lru_head = 0, warmlist_lru_tail = 0,
      set_lru_hot_blocks = 0, set_lru_warm_blocks = 0, hash_buckets = (\<lambda>_. 0),
      invalid_head = 0\<rparr>"

definition zero_flashcache_errors :: "flashcache_errors" where
  "zero_flashcache_errors =
     \<lparr>disk_read_errors = 0, disk_write_errors = 0, ssd_read_errors = 0,
      ssd_write_errors = 0, memory_alloc_errors = 0\<rparr>"

definition zero_flashcache_stats :: "flashcache_stats" where
  "zero_flashcache_stats =
     \<lparr>reads = 0, writes = 0, read_hits = 0, write_hits = 0, dirty_write_hits = 0,
      replace = 0, wr_replace = 0, wr_invalidates = 0, rd_invalidates = 0, pending_inval = 0,
      enqueues = 0, cleanings = 0, fallow_cleanings = 0, noroom = 0, md_write_dirty = 0,
      md_write_clean = 0, md_write_batch = 0, md_ssd_writes = 0, pid_drops = 0, pid_adds = 0,
      pid_dels = 0, expiry = 0, front_merge = 0, back_merge = 0, uncached_reads = 0,
      uncached_writes = 0, uncached_sequential_reads = 0, uncached_sequential_writes = 0,
      disk_reads = 0, disk_writes = 0, ssd_reads = 0, ssd_writes = 0, uncached_io_requeue = 0,
      clean_set_ios = 0, force_clean_block = 0, lru_promotions = 0, lru_demotions = 0\<rparr>"

definition zero_cache_md_block_head :: "cache_md_block_head" where
  "zero_cache_md_block_head =
     \<lparr>nr_in_prog = 0, queued_updates = [], md_io_inprog = []\<rparr>"

definition zero_sequential_io :: "sequential_io" where
  "zero_sequential_io =
     \<lparr>most_recent_sector = 0, sequential_count = 0, seq_prev = None,
      seq_next = None\<rparr>"

definition zero_sysctls :: "sysctls" where
  "zero_sysctls =
     \<lparr>sysctl_io_latency_hist = 0, sysctl_do_sync = 0, sysctl_stop_sync = 0,
      sysctl_dirty_thresh = 0, sysctl_pid_do_expiry = 0, sysctl_max_pids = 0,
      sysctl_pid_expiry_secs = 0, sysctl_reclaim_policy = 0, sysctl_zerostats = 0,
      sysctl_error_inject = 0, sysctl_fast_remove = 0, sysctl_cache_all = 0,
      sysctl_fallow_clean_speed = 0, sysctl_fallow_delay = 0, sysctl_skip_seq_thresh_kb = 0,
      sysctl_clean_on_read_miss = 0, sysctl_clean_on_write_miss = 0, sysctl_lru_hot_pct = 0,
      sysctl_lru_promote_thresh = 0, sysctl_new_style_write_merge = 0\<rparr>"

definition zero_flash_superblock :: "flash_superblock" where
  "zero_flash_superblock =
     \<lparr>sb_size = 0, sb_block_size = 0, sb_assoc = 0, cache_sb_state = 0,
      sb_cache_devname = '''', sb_cache_devsize = 0, sb_disk_devname = '''',
      sb_disk_devsize = 0, cache_version = 0, sb_md_block_size = 0, sb_disk_assoc = 0,
      sb_write_only_cache = 0\<rparr>"

definition zero_pfd_seq_stat :: "pfd_seq_stat" where
  "zero_pfd_seq_stat =
     \<lparr>start = 0, count = 0\<rparr>"

definition zero_pfd_stat :: "pfd_stat" where
  "zero_pfd_stat =
     \<lparr>st_tgt = None, st_pid = 0, st_stride = 0, st_stride_count = 0,
      seq_stats = (\<lambda>_. zero_pfd_seq_stat), curr_seq_stat = 0, prev_seq_stat = 0\<rparr>"

definition zero_pfd_stat_elm :: "pfd_stat_elm" where
  "zero_pfd_stat_elm =
     \<lparr>stat = zero_pfd_stat, elm_next = None, elm_prev = None\<rparr>"

definition zero_pfd_stat_queue :: "pfd_stat_queue" where
  "zero_pfd_stat_queue =
     \<lparr>stat_elms = (\<lambda>_. zero_pfd_stat_elm), stat_head = None,
      stat_tail = None\<rparr>"

definition zero_pfd_cache_set :: "pfd_cache_set" where
  "zero_pfd_cache_set =
     \<lparr>pfd_count = 0, status_arr = (\<lambda>_. set_empty), dmc_arr = (\<lambda>_. None),
      caches = (\<lambda>_. None)\<rparr>"

definition zero_cache_c :: "kernel \<Rightarrow> cache_c" where
  "zero_cache_c k =
     \<lparr>tgt = 0, csize = 0, assoc = 0, block_size = 0, block_shift = 0, md_block_size = 0,
      md_blocks = 0, disk_assoc = 0, disk_assoc_shift = 0, assoc_shift = 0, num_sets = 0,
      mode = FLASHCACHE_WRITE_BACK, write_only_cache = 0, on_ssd_version = 0,
      bypass_cache = False, cache = (\<lambda>_. zero_cacheblock),
      cache_sets = (\<lambda>_. zero_cache_set),
      md_blocks_buf = (\<lambda>_. zero_cache_md_block_head), nr_jobs = 0, remove_in_prog = 0,
      clean_inprog = 0, sync_index = 0, nr_dirty = 0, cached_blocks = 0,
      pending_jobs_count = 0, hot_list_pct = 0, dirty_thresh_set = 0, max_clean_ios_set = 0,
      max_clean_ios_total = 0, lru_hot_blocks = 0, lru_warm_blocks = 0,
      flashcache_stats = zero_flashcache_stats, flashcache_errors = zero_flashcache_errors,
      latency_hist = (\<lambda>_. 0), latency_hist_10ms = 0,
      write_clust_hist = (\<lambda>_. 0), write_clust_hist_ovf = 0, blacklist = [],
      whitelist = [], num_blacklist_pids = 0, num_whitelist_pids = 0, pid_expire_check = 0,
      pending_job_hashbuckets = (\<lambda>_. []), diskclean_bufs = [], sysctl = zero_sysctls,
      seq_recent_ios = (\<lambda>_. zero_sequential_io), seq_io_head = None,
      seq_io_tail = None, q_pending_jobs = [], q_io_jobs = [], q_md_io_jobs = [],
      q_md_complete_jobs = [], q_uncached_io_complete_jobs = [], nr_cache_jobs = 0,
      nr_pending_jobs = 0, size_hist = (\<lambda>_. 0), delayed_clean = False,
      io_inflight = [], completed = [], main_queue = zero_pfd_stat_queue,
      main_cache_set = zero_pfd_cache_set, pfd_inflight = [], pfd_waiters = [],
      disk_devname = '''', dm_vdevname = '''', ssd_sb = zero_flash_superblock,
      ssd_md = (\<lambda>_. (0, 0)), kernel = k\<rparr>"

end
