(* ===== verification/Conf.thy ===== *)
theory Conf
  imports Requests Zero
begin

text \<open>
  Configuration (\<open>flashcache_conf.c\<close>): writing the block table and the superblock to the flash
  device, creating a cache, loading one, and the constructor and destructor of the target. A
  synchronous I/O takes its error code from \<open>io_script\<close>; a write that fails leaves the device
  as it was. The metadata slots of the flash device are \<open>ssd_md\<close>, its superblock \<open>ssd_sb\<close>.
\<close>

definition CACHE_MD_STATE_DIRTY :: "32 word" where "CACHE_MD_STATE_DIRTY = 0xdeadbeef"
definition CACHE_MD_STATE_CLEAN :: "32 word" where "CACHE_MD_STATE_CLEAN = 0xfacecafe"
definition CACHE_MD_STATE_FASTCLEAN :: "32 word" where "CACHE_MD_STATE_FASTCLEAN = 0xcafefeed"
definition CACHE_MD_STATE_UNSTABLE :: "32 word" where "CACHE_MD_STATE_UNSTABLE = 0xc8249756"
definition FLASHCACHE_VERSION :: int where "FLASHCACHE_VERSION = 4"
definition DEV_PATHLEN :: nat where "DEV_PATHLEN = 128"
definition DEFAULT_MD_BLOCK_SIZE :: nat where "DEFAULT_MD_BLOCK_SIZE = 8"
definition METADATA_IO_BLOCKSIZE :: nat where "METADATA_IO_BLOCKSIZE = 256 * 1024"

definition METADATA_IO_NUM_BLOCKS :: "cache_c \<Rightarrow> nat" where
  "METADATA_IO_NUM_BLOCKS d = METADATA_IO_BLOCKSIZE div MD_BLOCK_BYTES d"

text \<open>Arithmetic on the unsigned 64 bit \<open>size\<close>, and \<open>ffs(x) - 1\<close> for \<open>x > 0\<close>.\<close>

definition sub64 :: "nat \<Rightarrow> nat \<Rightarrow> nat" where
  "sub64 a b = (a + 2 ^ 64 - b mod 2 ^ 64) mod 2 ^ 64"

fun lowest_bit :: "nat \<Rightarrow> nat" where
  "lowest_bit n = (if n = 0 \<or> odd n then 0 else Suc (lowest_bit (n div 2)))"

declare lowest_bit.simps [simp del]

section \<open>Writing the block table\<close>

text \<open>
  The loop that \<open>flashcache_writeback_md_store\<close> and \<open>flashcache_writeback_create\<close> share. Its
  state: the next sector, the sectors written, the number of errors and the driver.
\<close>

record md_io =
  io_sector :: nat
  io_sectors :: nat
  io_errors :: nat
  io_dmc :: cache_c

definition md_sector_slot :: "cache_c \<Rightarrow> nat \<Rightarrow> nat" where
  "md_sector_slot d sect = (sect div md_block_size d - 1) * MD_SLOTS_PER_BLOCK d"

definition md_io_slots :: "cache_c \<Rightarrow> nat" where
  "md_io_slots d = MD_SLOTS_PER_BLOCK d * METADATA_IO_NUM_BLOCKS d"

definition md_flush :: "nat \<Rightarrow> md_slot list \<Rightarrow> md_io \<Rightarrow> md_io" where
  "md_flush cnt buf s =
     (let d = io_dmc s; err = sync_error d; d = sync_next d;
          d = (if err = 0
               then d\<lparr>ssd_md := store_md_block (md_sector_slot d (io_sector s)) buf (ssd_md d)\<rparr>
               else d)
      in \<lparr>io_sector = io_sector s + cnt, io_sectors = io_sectors s + cnt,
          io_errors = (if err = 0 then io_errors s else io_errors s + 1), io_dmc = d\<rparr>)"

text \<open>With \<open>abort\<close> the first error ends the loop.\<close>

primrec md_store_loop :: "bool \<Rightarrow> nat list \<Rightarrow> md_slot list \<Rightarrow> md_io \<Rightarrow> md_slot list \<times> md_io" where
  "md_store_loop abort [] buf s = (buf, s)"
| "md_store_loop abort (i # is) buf s =
     (if abort \<and> io_errors s > 0 then (buf, s)
      else let d = io_dmc s; buf = buf @ [md_slot_of d i]
        in if length buf = md_io_slots d
           then md_store_loop abort is []
                  (md_flush (length buf div MD_SLOTS_PER_BLOCK d * md_block_size d) buf s)
           else md_store_loop abort is buf s)"

definition md_blocks_sectors :: "cache_c \<Rightarrow> nat \<Rightarrow> nat" where
  "md_blocks_sectors d n =
     n div MD_SLOTS_PER_BLOCK d * md_block_size d +
     (if n mod MD_SLOTS_PER_BLOCK d \<noteq> 0 then md_block_size d else 0)"

text \<open>The loop, the rest of the last buffer and the final check, which panics.\<close>

definition md_store_all :: "bool \<Rightarrow> cache_c \<Rightarrow> (nat \<times> cache_c) option" where
  "md_store_all abort d =
     (let (buf, s) = md_store_loop abort [0..<csize d] []
            \<lparr>io_sector = md_block_size d, io_sectors = 0, io_errors = 0, io_dmc = d\<rparr>;
          s = (if buf \<noteq> [] \<and> \<not> (abort \<and> io_errors s > 0)
               then md_flush (md_blocks_sectors d (length buf)) buf s else s)
      in if abort \<and> io_errors s > 0 then Some (io_errors s, io_dmc s)
         else do {
           verify (md_blocks_sectors d (csize d) = io_sectors s);
           Some (io_errors s, io_dmc s)
         })"

text \<open>The fields of the superblock that all writers fill in; \<open>strncpy\<close> pads with zeros.\<close>

definition strncpy :: "string \<Rightarrow> string" where
  "strncpy src = take DEV_PATHLEN src"

definition fill_header :: "cache_c \<Rightarrow> 32 word \<Rightarrow> flash_superblock \<Rightarrow> flash_superblock" where
  "fill_header d st h =
     h\<lparr>cache_sb_state := st, sb_block_size := block_size d, sb_md_block_size := md_block_size d,
       sb_size := csize d, sb_assoc := assoc d, sb_disk_assoc := disk_assoc d,
       sb_disk_devname := strncpy (disk_devname d), sb_cache_devname := strncpy (dm_vdevname d),
       sb_cache_devsize := ssd_nr_sects (kernel d), sb_disk_devsize := disk_nr_sects (kernel d),
       cache_version := on_ssd_version d\<rparr>"

definition write_header :: "flash_superblock \<Rightarrow> cache_c \<Rightarrow> int \<times> cache_c" where
  "write_header h d =
     (let err = sync_error d; d = sync_next d in (err, if err = 0 then d\<lparr>ssd_sb := h\<rparr> else d))"

definition num_dirty_blocks :: "cache_c \<Rightarrow> nat" where
  "num_dirty_blocks d = length (filter (\<lambda>i. state_of d i AND DIRTY \<noteq> 0) [0..<csize d])"

definition flashcache_writeback_md_store :: "cache_c \<Rightarrow> (int \<times> cache_c) option" where
  "flashcache_writeback_md_store d =
     (let ok = alloc_ok d; d = alloc_next d
      in if \<not> ok then Some (1, d)
         else do {
           (write_errors, d) \<leftarrow> md_store_all False d;
           let ok = alloc_ok d;
           let d = alloc_next d;
           if \<not> ok then Some (1, d)
           else do {
             let st = (if write_errors = 0
               then (if num_dirty_blocks d = 0 then CACHE_MD_STATE_CLEAN else CACHE_MD_STATE_FASTCLEAN)
               else CACHE_MD_STATE_UNSTABLE);
             let header = (fill_header d st zero_flash_superblock)
                            \<lparr>sb_write_only_cache := write_only_cache d\<rparr>;
             let (err, d) = write_header header d;
             Some (0, d)
           }
         })"

section \<open>Creating a cache\<close>

definition invalid_cacheblock :: cacheblock where
  "invalid_cacheblock = zero_cacheblock\<lparr>cache_state := INVALID\<rparr>"

definition flashcache_writethrough_create :: "cache_c \<Rightarrow> int \<times> cache_c" where
  "flashcache_writethrough_create d =
     (let d = d\<lparr>csize := csize d div block_size d div assoc d * assoc d\<rparr>
      in if csize d * block_size d > ssd_nr_sects (kernel d) then (1, d)
         else let ok = alloc_ok d; d = alloc_next d
         in if \<not> ok then (1, d)
            else (0, d\<lparr>cache := (\<lambda>_. invalid_cacheblock), md_blocks := 0\<rparr>))"

definition valid_sb_state :: "32 word \<Rightarrow> bool" where
  "valid_sb_state st \<longleftrightarrow>
     st = CACHE_MD_STATE_DIRTY \<or> st = CACHE_MD_STATE_CLEAN \<or> st = CACHE_MD_STATE_FASTCLEAN"

text \<open>The sizes: \<open>csize\<close> comes in as raw sectors and becomes blocks.\<close>

definition size_cache :: "cache_c \<Rightarrow> cache_c" where
  "size_cache d =
     (let d = d\<lparr>md_blocks := INDEX_TO_MD_BLOCK d (csize d div block_size d) + 2\<rparr>;
          d = d\<lparr>csize := sub64 (csize d) (md_blocks d * md_block_size d)\<rparr>;
          d = d\<lparr>csize := csize d div block_size d div assoc d * assoc d\<rparr>
      in d\<lparr>md_blocks := INDEX_TO_MD_BLOCK d (csize d) + 2\<rparr>)"

text \<open>The table and then the superblock \<open>header\<close> are written.\<close>

definition create_on_ssd :: "flash_superblock \<Rightarrow> cache_c \<Rightarrow> (int \<times> cache_c) option" where
  "create_on_ssd header d = do {
     (write_errors, d) \<leftarrow> md_store_all True d;
     if write_errors > 0 then Some (1, d)
     else do {
       let d = d\<lparr>on_ssd_version := FLASHCACHE_VERSION\<rparr>;
       let header = (fill_header d CACHE_MD_STATE_DIRTY header)
                      \<lparr>sb_write_only_cache := write_only_cache d\<rparr>;
       let (err, d) = write_header header d;
       Some (if err \<noteq> 0 then 1 else 0, d)
     }
   }"

definition flashcache_writeback_create :: "bool \<Rightarrow> cache_c \<Rightarrow> (int \<times> cache_c) option" where
  "flashcache_writeback_create force d =
     (let ok = alloc_ok d; d = alloc_next d
      in if \<not> ok then Some (1, d)
      else let err = sync_error d; header = ssd_sb d; d = sync_next d
      in if err \<noteq> 0 then Some (1, d)
      else if \<not> force \<and> valid_sb_state (cache_sb_state header) then Some (1, d)
      else let d = size_cache d
      in if md_blocks d * md_block_size d + csize d * block_size d > ssd_nr_sects (kernel d)
         then Some (1, d)
      else let ok = alloc_ok d; d = alloc_next d
      in if \<not> ok then Some (1, d)
      else let d = d\<lparr>cache := (\<lambda>_. invalid_cacheblock)\<rparr>; ok = alloc_ok d; d = alloc_next d
      in if \<not> ok then Some (1, d)
      else create_on_ssd header d)"

section \<open>Loading a cache\<close>

definition load_slot :: "bool \<Rightarrow> nat \<Rightarrow> md_slot \<Rightarrow> cache_c \<Rightarrow> cache_c option" where
  "load_slot clean_shutdown i slot d = do {
     let d = upd_blk i (\<lambda>b. b\<lparr>nr_queued := 0\<rparr>) d;
     if clean_shutdown \<or> snd slot AND ucast DIRTY \<noteq> 0
     then do {
       let st = (ucast (snd slot) :: 16 word);
       verify (st AND (VALID OR INVALID) \<noteq> (VALID OR INVALID));
       Some (upd_blk i (\<lambda>b. b\<lparr>cache_state := st, dbn := fst slot\<rparr>) d)
     }
     else Some (upd_blk i (\<lambda>b. b\<lparr>cache_state := INVALID, dbn := 0\<rparr>) d)
   }"

text \<open>One read of metadata: \<open>slots_read\<close> slots from block index \<open>i\<close> on.\<close>

definition load_chunk :: "bool \<Rightarrow> nat \<Rightarrow> nat \<Rightarrow> nat \<Rightarrow> cache_c \<Rightarrow> cache_c option" where
  "load_chunk clean_shutdown sect slots_read i d =
     for_each (\<lambda>j d. load_slot clean_shutdown (i + j) (ssd_md d (md_sector_slot d sect + j)) d)
       [0..<slots_read] d"

text \<open>The loop; the result is \<open>None\<close> in the first component after a read error.\<close>

partial_function (option) load_loop ::
  "bool \<Rightarrow> nat \<Rightarrow> nat \<Rightarrow> nat \<Rightarrow> nat \<Rightarrow> cache_c \<Rightarrow> (nat option \<times> cache_c) option" where
  "load_loop clean_shutdown left i sect sectors_read d =
     (if left = 0 then Some (Some sectors_read, d)
      else if sync_error d \<noteq> 0 then Some (None, sync_next d)
      else do {
        d' \<leftarrow> load_chunk clean_shutdown sect (min left (md_io_slots d)) i (sync_next d);
        load_loop clean_shutdown (left - min left (md_io_slots d)) (i + min left (md_io_slots d))
          (sect + md_blocks_sectors d (min left (md_io_slots d)))
          (sectors_read + md_blocks_sectors d (min left (md_io_slots d))) d'
      })"

declare load_loop.simps [code]

text \<open>What the superblock determines, before its state is looked at and after.\<close>

definition load_header1 :: "flash_superblock \<Rightarrow> cache_c \<Rightarrow> cache_c" where
  "load_header1 h d =
     (let d = d\<lparr>disk_assoc := sb_disk_assoc h, write_only_cache := sb_write_only_cache h\<rparr>;
          d = (if cache_version h < 3 then d\<lparr>disk_assoc := 0\<rparr> else d);
          d = (if disk_assoc d \<noteq> 0 then d\<lparr>disk_assoc_shift := lowest_bit (disk_assoc d)\<rparr> else d);
          d = (if cache_version h < 4 then d\<lparr>write_only_cache := 0\<rparr> else d)
      in d\<lparr>on_ssd_version := cache_version h\<rparr>)"

definition load_header2 :: "flash_superblock \<Rightarrow> cache_c \<Rightarrow> cache_c" where
  "load_header2 h d =
     (let d = d\<lparr>block_size := sb_block_size h, md_block_size := sb_md_block_size h,
                block_shift := lowest_bit (sb_block_size h), csize := sb_size h,
                assoc := sb_assoc h, assoc_shift := lowest_bit (sb_assoc h)\<rparr>
      in d\<lparr>md_blocks := INDEX_TO_MD_BLOCK d (csize d) + 2\<rparr>)"

definition flashcache_writeback_load :: "cache_c \<Rightarrow> (int \<times> cache_c) option" where
  "flashcache_writeback_load d =
     (let ok = alloc_ok d; d = alloc_next d
      in if \<not> ok then Some (1, d)
      else let err = sync_error d; header = ssd_sb d; d = sync_next d
      in if err \<noteq> 0 then Some (1, d)
      else if cache_version header \<noteq> 1 \<and> cache_version header > FLASHCACHE_VERSION then Some (1, d)
      else let header = (if cache_version header = 1 then header\<lparr>sb_md_block_size := 1\<rparr> else header);
               d = load_header1 header d
      in if \<not> valid_sb_state (cache_sb_state header) then Some (1, d)
      else let clean_shutdown = (cache_sb_state header \<noteq> CACHE_MD_STATE_DIRTY);
               d = load_header2 header d; ok = alloc_ok d; d = alloc_next d
      in if \<not> ok then Some (1, d)
      else let d = d\<lparr>cache := (\<lambda>_. zero_cacheblock)\<rparr>; ok = alloc_ok d; d = alloc_next d
      in if \<not> ok then Some (1, d)
      else do {
        (sectors, d) \<leftarrow> load_loop clean_shutdown (csize d) 0 (md_block_size d) 0 d;
        case sectors of
          None \<Rightarrow> Some (1, d)
        | Some sectors_read \<Rightarrow> do {
            verify (md_blocks_sectors d (csize d) = sectors_read);
            let fresh = (DEFAULT_MD_BLOCK_SIZE \<noteq> md_block_size d);
            let ok = (fresh \<longrightarrow> alloc_ok d);
            let d = (if fresh then alloc_next d else d);
            if \<not> ok then Some (1, d)
            else do {
              let header = fill_header d CACHE_MD_STATE_DIRTY
                             (if fresh then heap_garbage (kernel d) else header);
              let (err, d) = write_header header d;
              Some (if err \<noteq> 0 then 1 else 0, d)
            }
          }
      })"

end
