(* ===== verification/Target.thy ===== *)
theory Target
  imports Conf
begin

text \<open>
  The device-mapper target: the constructor with its parameters, the destructor
  (\<open>flashcache_conf.c\<close>) and the handlers of the sysctls (\<open>flashcache_procfs.c\<close>). The parsers of
  \<open>sscanf\<close> are parameters; opening the two devices is not modelled and taken
  to succeed, as \<open>flashcache_kcopy_init\<close> does (theory \<open>Kcopy\<close>).
\<close>

definition FLASHCACHE_MIN_ASSOC :: nat where "FLASHCACHE_MIN_ASSOC = 256"
definition FLASHCACHE_MIN_DISK_ASSOC :: nat where "FLASHCACHE_MIN_DISK_ASSOC = 256"
definition FLASHCACHE_MAX_DISK_ASSOC :: nat where "FLASHCACHE_MAX_DISK_ASSOC = 2048"
definition FLASHCACHE_MAX_MD_BLOCK_SIZE :: nat where "FLASHCACHE_MAX_MD_BLOCK_SIZE = 128"
definition DEFAULT_BLOCK_SIZE :: nat where "DEFAULT_BLOCK_SIZE = 8"
definition DEFAULT_CACHE_ASSOC :: nat where "DEFAULT_CACHE_ASSOC = 512"
definition CACHE_RELOAD :: nat where "CACHE_RELOAD = 1"
definition CACHE_CREATE :: nat where "CACHE_CREATE = 2"
definition CACHE_FORCECREATE :: nat where "CACHE_FORCECREATE = 3"
definition DIRTY_THRESH_MIN :: int where "DIRTY_THRESH_MIN = 10"
definition DIRTY_THRESH_MAX :: int where "DIRTY_THRESH_MAX = 95"
definition DIRTY_THRESH_DEF :: int where "DIRTY_THRESH_DEF = 20"
definition MAX_CLEAN_IOS_SET :: int where "MAX_CLEAN_IOS_SET = 2"
definition MAX_CLEAN_IOS_TOTAL :: int where "MAX_CLEAN_IOS_TOTAL = 4"
definition MAX_PIDS :: int where "MAX_PIDS = 100"
definition PID_EXPIRY_SECS :: int where "PID_EXPIRY_SECS = 60"
definition FALLOW_DELAY :: int where "FALLOW_DELAY = 60 * 15"
definition FALLOW_SPEED_MIN :: int where "FALLOW_SPEED_MIN = 1"
definition FALLOW_SPEED_MAX :: int where "FALLOW_SPEED_MAX = 100"
definition FALLOW_CLEAN_SPEED :: int where "FALLOW_CLEAN_SPEED = 2"
definition SKIP_SEQUENTIAL_THRESHOLD :: int where "SKIP_SEQUENTIAL_THRESHOLD = 0"
definition FLASHCACHE_LRU_HOT_PCT_DEFAULT :: int where "FLASHCACHE_LRU_HOT_PCT_DEFAULT = 50"

section \<open>The parameters of the constructor\<close>

text \<open>
  A step on the parameters is a function from the driver to an error code (\<open>Inl\<close>) or the driver
  (\<open>Inr\<close>); the steps run one after the other and the first error ends the constructor.
\<close>

type_synonym ctr_step = "cache_c \<Rightarrow> int + cache_c"

primrec run_steps :: "ctr_step list \<Rightarrow> ctr_step" where
  "run_steps [] d = Inr d"
| "run_steps (f # fs) d = (case f d of Inl e \<Rightarrow> Inl e | Inr d \<Rightarrow> run_steps fs d)"

text \<open>
  Argument \<open>n\<close>, when it is given, is parsed and checked; the check sees the driver with the new
  value.
\<close>

definition numeric_arg ::
  "(string \<Rightarrow> nat option) \<Rightarrow> string list \<Rightarrow> nat \<Rightarrow> (nat \<Rightarrow> cache_c \<Rightarrow> cache_c) \<Rightarrow> (cache_c \<Rightarrow> bool) \<Rightarrow> ctr_step" where
  "numeric_arg scan argv n store ok d =
     (if n < length argv
      then (case scan (argv ! n) of
              None \<Rightarrow> Inl (- EINVAL)
            | Some v \<Rightarrow> if ok (store v d) then Inr (store v d) else Inl (- EINVAL))
      else Inr d)"

definition power_of_two :: "nat \<Rightarrow> bool" where
  "power_of_two n \<longleftrightarrow> n \<noteq> 0 \<and> n AND (n - 1) = 0"

definition block_size_step :: "(string \<Rightarrow> nat option) \<Rightarrow> string list \<Rightarrow> ctr_step" where
  "block_size_step scan argv = run_steps
     [numeric_arg scan argv 5 (\<lambda>v d. d\<lparr>block_size := v\<rparr>) (\<lambda>d. power_of_two (block_size d)),
      \<lambda>d. let d = (if block_size d = 0 then d\<lparr>block_size := DEFAULT_BLOCK_SIZE\<rparr> else d)
          in Inr (d\<lparr>block_shift := lowest_bit (block_size d)\<rparr>)]"

definition size_step :: "(string \<Rightarrow> nat option) \<Rightarrow> string list \<Rightarrow> ctr_step" where
  "size_step scan argv = run_steps
     [numeric_arg scan argv 6 (\<lambda>v d. d\<lparr>csize := v\<rparr>) (\<lambda>d. True),
      \<lambda>d. Inr (if csize d = 0 then d\<lparr>csize := ssd_nr_sects (kernel d)\<rparr> else d)]"

definition assoc_step :: "(string \<Rightarrow> nat option) \<Rightarrow> string list \<Rightarrow> ctr_step" where
  "assoc_step scan argv = run_steps
     [numeric_arg scan argv 7 (\<lambda>v d. d\<lparr>assoc := v\<rparr>)
        (\<lambda>d. power_of_two (assoc d) \<and> assoc d \<le> FLASHCACHE_MAX_ASSOC \<and>
             FLASHCACHE_MIN_ASSOC \<le> assoc d \<and> assoc d \<le> csize d),
      \<lambda>d. let d = (if assoc d = 0 then d\<lparr>assoc := DEFAULT_CACHE_ASSOC\<rparr> else d)
          in Inr (d\<lparr>assoc_shift := lowest_bit (assoc d)\<rparr>)]"

definition disk_assoc_step :: "(string \<Rightarrow> nat option) \<Rightarrow> string list \<Rightarrow> ctr_step" where
  "disk_assoc_step scan argv = run_steps
     [numeric_arg scan argv 8 (\<lambda>v d. d\<lparr>disk_assoc := v\<rparr>)
        (\<lambda>d. disk_assoc d > 0 \<longrightarrow>
             power_of_two (disk_assoc d) \<and> disk_assoc d \<le> FLASHCACHE_MAX_DISK_ASSOC \<and>
             FLASHCACHE_MIN_DISK_ASSOC \<le> disk_assoc d \<and> disk_assoc d \<le> csize d \<and>
             disk_assoc d \<le> assoc d * block_shift d),
      \<lambda>d. Inr (if disk_assoc d \<noteq> 0 then d\<lparr>disk_assoc_shift := lowest_bit (disk_assoc d)\<rparr> else d)]"

definition write_only_step :: "(string \<Rightarrow> nat option) \<Rightarrow> string list \<Rightarrow> ctr_step" where
  "write_only_step scan argv =
     numeric_arg scan argv 9 (\<lambda>v d. d\<lparr>write_only_cache := sint (of_nat v :: 32 word)\<rparr>)
       (\<lambda>d. \<not> (write_only_cache d = 1 \<and> mode d \<noteq> FLASHCACHE_WRITE_BACK) \<and>
            0 \<le> write_only_cache d \<and> write_only_cache d \<le> 1)"

text \<open>\<open>dev_block_size\<close> is the block size of the cache device.\<close>

definition md_block_size_step :: "nat \<Rightarrow> (string \<Rightarrow> nat option) \<Rightarrow> string list \<Rightarrow> ctr_step" where
  "md_block_size_step dev_block_size scan argv d =
     (if mode d \<noteq> FLASHCACHE_WRITE_BACK then Inr d
      else run_steps
        [numeric_arg scan argv 10 (\<lambda>v d. d\<lparr>md_block_size := v\<rparr>)
           (\<lambda>d. power_of_two (md_block_size d) \<and> md_block_size d \<le> FLASHCACHE_MAX_MD_BLOCK_SIZE \<and>
                md_block_size d * 512 div SIZEOF_FLASH_CACHEBLOCK \<le> assoc d),
         \<lambda>d. Inr (if md_block_size d = 0 then d\<lparr>md_block_size := DEFAULT_MD_BLOCK_SIZE\<rparr> else d),
         \<lambda>d. if md_block_size d * 512 < dev_block_size then Inl (- EINVAL) else Inr d] d)"

definition ctr_params :: "nat \<Rightarrow> (string \<Rightarrow> nat option) \<Rightarrow> string list \<Rightarrow> ctr_step" where
  "ctr_params dev_block_size scan argv = run_steps
     [block_size_step scan argv, size_step scan argv, assoc_step scan argv,
      disk_assoc_step scan argv, write_only_step scan argv,
      md_block_size_step dev_block_size scan argv]"

section \<open>The constructor\<close>

definition init_set :: "nat \<Rightarrow> cache_c \<Rightarrow> cache_c" where
  "init_set i d = upd_set i (\<lambda>_. zero_cache_set
     \<lparr>set_fifo_next := i * assoc d, set_clean_next := i * assoc d,
      fallow_tstamp := jiffies (kernel d), fallow_next_cleaning := jiffies (kernel d),
      hotlist_lru_tail := FLASHCACHE_NULL, hotlist_lru_head := FLASHCACHE_NULL,
      warmlist_lru_tail := FLASHCACHE_NULL, warmlist_lru_head := FLASHCACHE_NULL\<rparr>) d"

definition default_sysctls :: "int \<Rightarrow> sysctls \<Rightarrow> sysctls" where
  "default_sysctls write_only s =
     s\<lparr>sysctl_dirty_thresh := DIRTY_THRESH_DEF, sysctl_io_latency_hist := 0, sysctl_do_sync := 0,
       sysctl_stop_sync := 0, sysctl_pid_do_expiry := 0, sysctl_max_pids := MAX_PIDS,
       sysctl_pid_expiry_secs := PID_EXPIRY_SECS, sysctl_reclaim_policy := FLASHCACHE_FIFO,
       sysctl_zerostats := 0, sysctl_error_inject := 0, sysctl_fast_remove := 0,
       sysctl_cache_all := 1, sysctl_fallow_clean_speed := FALLOW_CLEAN_SPEED,
       sysctl_fallow_delay := (if write_only = 0 then FALLOW_DELAY else sysctl_fallow_delay s),
       sysctl_skip_seq_thresh_kb := SKIP_SEQUENTIAL_THRESHOLD, sysctl_clean_on_read_miss := 0,
       sysctl_clean_on_write_miss := 0, sysctl_lru_hot_pct := 75,
       sysctl_lru_promote_thresh := 2, sysctl_new_style_write_merge := 0\<rparr>"

definition init_counters :: "cache_c \<Rightarrow> cache_c" where
  "init_counters d =
     (let d = d\<lparr>sync_index := 0, clean_inprog := 0, nr_dirty := 0, cached_blocks := 0,
                pending_jobs_count := 0, max_clean_ios_total := MAX_CLEAN_IOS_TOTAL,
                max_clean_ios_set := MAX_CLEAN_IOS_SET,
                dirty_thresh_set := int (assoc d) * DIRTY_THRESH_DEF div 100\<rparr>
      in sysctl_update (default_sysctls (write_only_cache d)) d)"

definition init_seq_io :: "nat \<Rightarrow> cache_c \<Rightarrow> cache_c option" where
  "init_seq_io i d =
     seq_io_move_to_lruhead i (upd_seq i (\<lambda>s. s\<lparr>most_recent_sector := 0, sequential_count := 0,
       seq_prev := None, seq_next := None\<rparr>) d)"

text \<open>A block as found in the table enters the hash, the dirty count or the invalid list.\<close>

definition init_block :: "nat \<Rightarrow> cache_c \<Rightarrow> cache_c option" where
  "init_block i d = do {
     let d = upd_blk i (\<lambda>b. b\<lparr>hash_prev := FLASHCACHE_NULL, hash_next := FLASHCACHE_NULL\<rparr>) d;
     d \<leftarrow> (if state_of d i AND VALID \<noteq> 0
           then do {
             d \<leftarrow> flashcache_hash_insert i d;
             Some (d\<lparr>cached_blocks := cached_blocks d + 1\<rparr>)
           }
           else Some d);
     let d = (if state_of d i AND DIRTY \<noteq> 0
              then (upd_set (i div assoc d) (\<lambda>c. c\<lparr>set_nr_dirty := inc16 (set_nr_dirty c)\<rparr>) d)
                     \<lparr>nr_dirty := nr_dirty d + 1\<rparr>
              else d);
     if state_of d i AND INVALID \<noteq> 0 then flashcache_invalid_insert i d else Some d
   }"

definition init_tables :: "cache_c \<Rightarrow> cache_c option" where
  "init_tables d = do {
     d \<leftarrow> for_each init_seq_io [0..<SEQUENTIAL_TRACKER_QUEUE_DEPTH] d;
     for_each init_block [0..<csize d] (d\<lparr>seq_io_tail := Some 0\<rparr>)
   }"

text \<open>
  The constructor from the label \<open>init\<close> on; the first component is the result code. \<open>table\<close> tells
  whether the array of blocks was allocated; without it the first access to a block faults.
\<close>

definition ctr_init :: "bool \<Rightarrow> (nat \<Rightarrow> pfd_cache_meta) \<Rightarrow> cache_c \<Rightarrow> (int \<times> cache_c) option" where
  "ctr_init table fresh d =
     (let d = d\<lparr>num_sets := csize d div 2 ^ assoc_shift d\<rparr>; ok = alloc_ok d; d = alloc_next d
      in if \<not> ok then Some (- ENOMEM, d)
      else do {
        let d = fold init_set [0..<num_sets d] d;
        verify (table \<or> csize d = 0);
        d \<leftarrow> flashcache_reclaim_init_lru_lists (d\<lparr>hot_list_pct := FLASHCACHE_LRU_HOT_PCT_DEFAULT\<rparr>);
        let d = flashcache_hash_init d;
        let (r, d) = flashcache_diskclean_init d;
        if r \<noteq> 0 then Some (- ENOMEM, d)
        else let ok = (mode d = FLASHCACHE_WRITE_BACK \<longrightarrow> alloc_ok d);
                 d = (if mode d = FLASHCACHE_WRITE_BACK then alloc_next d else d)
        in if \<not> ok then Some (- ENOMEM, flashcache_diskclean_destroy d)
        else do {
          let d = (if mode d = FLASHCACHE_WRITE_BACK
                   then d\<lparr>md_blocks_buf := (\<lambda>i. if i < md_blocks d - 1 then zero_cache_md_block_head
                                               else md_blocks_buf d i)\<rparr>
                   else d);
          d \<leftarrow> init_tables (init_counters d);
          Some (0, pfd_cache_add fresh (d\<lparr>whitelist := [], blacklist := [],
                     num_whitelist_pids := 0, num_blacklist_pids := 0\<rparr>))
        }
      })"

text \<open>
  The constructor: the mode and the persistence decide between loading and creating. The result
  of \<open>flashcache_writethrough_create\<close> is not looked at; it only tells whether the table of blocks
  exists (the second component). \<open>d\<close> is the zeroed structure. With three
  arguments, which the check lets pass, the code reads a fourth that is not there (\<open>None\<close>).
\<close>

definition mode_arg :: "nat \<Rightarrow> cache_mode option" where
  "mode_arg n = (if n = 1 then Some FLASHCACHE_WRITE_BACK else if n = 2 then Some FLASHCACHE_WRITE_THROUGH
     else if n = 3 then Some FLASHCACHE_WRITE_AROUND else None)"

definition ctr_create :: "nat \<Rightarrow> cache_c \<Rightarrow> (int \<times> bool \<times> cache_c) option" where
  "ctr_create persistence d =
     (if mode d = FLASHCACHE_WRITE_BACK
      then do {
        (r, d) \<leftarrow> flashcache_writeback_create (persistence \<noteq> CACHE_CREATE) d;
        Some (if r \<noteq> 0 then - EINVAL else 0, r = 0, d)
      }
      else let (r, d) = flashcache_writethrough_create d in Some (0, r = 0, d))"

definition persistence_arg :: "(string \<Rightarrow> nat option) \<Rightarrow> string list \<Rightarrow> cache_mode \<Rightarrow> nat option" where
  "persistence_arg scan argv m =
     (if m \<noteq> FLASHCACHE_WRITE_BACK then Some CACHE_CREATE
      else if 4 < length argv
      then (case scan (argv ! 4) of
              None \<Rightarrow> None
            | Some p \<Rightarrow> if CACHE_RELOAD \<le> p \<and> p \<le> CACHE_FORCECREATE then Some p else None)
      else Some 0)"

definition flashcache_ctr ::
  "nat \<Rightarrow> (string \<Rightarrow> nat option) \<Rightarrow> (nat \<Rightarrow> pfd_cache_meta) \<Rightarrow> string list \<Rightarrow> cache_c \<Rightarrow> (int \<times> cache_c) option" where
  "flashcache_ctr dev_block_size scan fresh argv d =
     (if length argv < 3 then Some (- EINVAL, d)
      else if length argv = 3 then None
      else let d = d\<lparr>disk_devname := strncpy (argv ! 0), dm_vdevname := argv ! 2, nr_jobs := 0,
                      remove_in_prog := 0\<rparr>
      in case Option.bind (scan (argv ! 3)) mode_arg of
        None \<Rightarrow> Some (- EINVAL, d)
      | Some m \<Rightarrow>
        let d = d\<lparr>mode := m\<rparr>
        in case persistence_arg scan argv m of
          None \<Rightarrow> Some (- EINVAL, d)
        | Some persistence \<Rightarrow>
          if m = FLASHCACHE_WRITE_BACK \<and> persistence = CACHE_RELOAD
          then do {
            (r, d) \<leftarrow> flashcache_writeback_load d;
            if r \<noteq> 0 then Some (- EINVAL, d) else ctr_init True fresh d
          }
          else (case ctr_params dev_block_size scan argv d of
              Inl e \<Rightarrow> Some (e, d)
            | Inr d \<Rightarrow> do {
                (r, table, d) \<leftarrow> ctr_create persistence d;
                if r \<noteq> 0 then Some (r, d) else ctr_init table fresh d
              }))"

section \<open>The destructor\<close>

text \<open>
  One turn of the loop of \<open>flashcache_sync_for_remove\<close> up to the wait for the jobs, and the
  condition to go round again.
\<close>

definition sync_for_remove_turn :: "cache_c \<Rightarrow> cache_c option" where
  "sync_for_remove_turn d =
     (let d = d\<lparr>remove_in_prog := SLOW_REMOVE\<rparr>
      in if sysctl_fast_remove (sysctl d) = 0
         then flashcache_sync_all (d\<lparr>max_clean_ios_total := 20, max_clean_ios_set := 10\<rparr>)
         else Some (d\<lparr>remove_in_prog := FAST_REMOVE\<rparr>))"

definition sync_for_remove_again :: "cache_c \<Rightarrow> bool" where
  "sync_for_remove_again d \<longleftrightarrow> sysctl_fast_remove (sysctl d) = 0 \<and> nr_dirty d > 0"

text \<open>The destructor after the wait: the metadata is stored and the pid lists are emptied.\<close>

definition flashcache_dtr_end :: "cache_c \<Rightarrow> cache_c option" where
  "flashcache_dtr_end d = do {
     (r, d) \<leftarrow> (if mode d = FLASHCACHE_WRITE_BACK then flashcache_writeback_md_store d else Some (0, d));
     d \<leftarrow> flashcache_del_all_pids FLASHCACHE_WHITELIST True (flashcache_diskclean_destroy d);
     d \<leftarrow> flashcache_del_all_pids FLASHCACHE_BLACKLIST True d;
     verify (num_whitelist_pids d = 0);
     verify (num_blacklist_pids d = 0);
     Some d
   }"

definition flashcache_clean_all_sets :: "cache_c \<Rightarrow> cache_c option" where
  "flashcache_clean_all_sets d = for_each (\<lambda>i. flashcache_clean_set i 0) [0..<num_sets d] d"

section \<open>Sysctls\<close>

text \<open>The handlers, called after \<open>proc_dointvec\<close> has stored the new value (\<open>write\<close>).\<close>

definition zero_latency :: "cache_c \<Rightarrow> cache_c" where
  "zero_latency d = d\<lparr>latency_hist := (\<lambda>i. if int i < IO_LATENCY_BUCKETS then 0 else latency_hist d i),
                      latency_hist_10ms := 0\<rparr>"

definition flashcache_io_latency_init :: "bool \<Rightarrow> cache_c \<Rightarrow> cache_c" where
  "flashcache_io_latency_init write d =
     (if write \<and> sysctl_io_latency_hist (sysctl d) \<noteq> 0 then zero_latency d else d)"

definition flashcache_sync_sysctl :: "bool \<Rightarrow> cache_c \<Rightarrow> cache_c option" where
  "flashcache_sync_sysctl write d =
     (if write \<and> sysctl_do_sync (sysctl d) \<noteq> 0
      then flashcache_sync_all ((sysctl_update (sysctl_stop_sync_update (\<lambda>_. 0)) d)\<lparr>delayed_clean := False\<rparr>)
      else Some d)"

definition flashcache_zerostats_sysctl :: "bool \<Rightarrow> cache_c \<Rightarrow> cache_c" where
  "flashcache_zerostats_sysctl write d =
     (if write \<and> sysctl_zerostats (sysctl d) \<noteq> 0
      then zero_latency (d\<lparr>flashcache_stats := zero_flashcache_stats\<rparr>) else d)"

definition flashcache_fallow_clean_speed_sysctl :: "bool \<Rightarrow> cache_c \<Rightarrow> cache_c" where
  "flashcache_fallow_clean_speed_sysctl write d =
     (if write
      then sysctl_update (sysctl_fallow_clean_speed_update
             (\<lambda>v. let v = (if v < FALLOW_SPEED_MIN then FALLOW_SPEED_MIN else v)
                  in if v > FALLOW_SPEED_MAX then FALLOW_SPEED_MAX else v)) d
      else d)"

definition flashcache_dirty_thresh_sysctl :: "bool \<Rightarrow> cache_c \<Rightarrow> cache_c" where
  "flashcache_dirty_thresh_sysctl write d =
     (if write
      then (let d = sysctl_update (sysctl_dirty_thresh_update
              (\<lambda>v. let v = (if v > DIRTY_THRESH_MAX then DIRTY_THRESH_MAX else v)
                   in if v < DIRTY_THRESH_MIN then DIRTY_THRESH_MIN else v)) d
            in d\<lparr>dirty_thresh_set := int (assoc d) * sysctl_dirty_thresh (sysctl d) div 100\<rparr>)
      else d)"

definition flashcache_lru_hot_pct_sysctl :: "bool \<Rightarrow> cache_c \<Rightarrow> cache_c option" where
  "flashcache_lru_hot_pct_sysctl write d =
     (if write then flashcache_reclaim_rebalance_lru (sysctl_lru_hot_pct (sysctl d)) d else Some d)"

end
