(* ===== verification/System.thy ===== *)
theory System
  imports Serial Target "HOL-Library.Multiset"
begin

text \<open>
  The driver as a transition system. A step is a request that arrives, a job that the worker runs,
  a completion by the block layer, a sleeping reader that wakes up, an administrator's message,
  sysctl or sync, or a change of the kernel around the driver. The label of a step is the list of
  the requests that it accepts. The invariant: every accepted request is in one place, the job
  counters are the numbers of jobs, and metadata writes are serialised.
\<close>

section \<open>Steps\<close>

inductive driver_step :: "bio list \<Rightarrow> cache_c \<Rightarrow> cache_c \<Rightarrow> bool" where
  Map: "flashcache_map b d = Some (r, d') \<Longrightarrow>
    driver_step (if r = DM_MAPIO_SUBMITTED then [b] else []) d d'"
| Work: "queue_of q d = job # rest \<Longrightarrow> run_job q job (pop_queue q d) = Some d' \<Longrightarrow> driver_step [] d d'"
| Io_done: "complete_io n err err2 d = Some d' \<Longrightarrow> driver_step [] d d'"
| Pfd_done: "complete_pfd_io n err d = Some d' \<Longrightarrow> driver_step [] d d'"
| Wake: "resume_reader n interrupted d = Some d' \<Longrightarrow> driver_step [] d d'"
| Message: "flashcache_message kstrtoull argv d = Some (r, d') \<Longrightarrow> driver_step [] d d'"
| Sync: "flashcache_sync_sysctl wr d = Some d' \<Longrightarrow> driver_step [] d d'"
| Clean_all: "flashcache_clean_all_sets d = Some d' \<Longrightarrow> driver_step [] d d'"
| Hot_pct: "flashcache_lru_hot_pct_sysctl wr d = Some d' \<Longrightarrow> driver_step [] d d'"
| Dirty_thresh: "driver_step [] d (flashcache_dirty_thresh_sysctl wr d)"
| Fallow_speed: "driver_step [] d (flashcache_fallow_clean_speed_sysctl wr d)"
| Zero_stats: "driver_step [] d (flashcache_zerostats_sysctl wr d)"
| Latency_hist: "driver_step [] d (flashcache_io_latency_init wr d)"
| Tunable: "driver_step [] d (sysctl_update f d)"
| Clean_total: "driver_step [] d (max_clean_ios_total_update f d)"
| Clean_set: "driver_step [] d (max_clean_ios_set_update f d)"
| Timer: "driver_step [] d (delayed_clean_update f d)"
| Environment: "driver_step [] d (kernel_update h d)"
| Remove: "sync_for_remove_turn d = Some d' \<Longrightarrow> driver_step [] d d'"
| Reset: "driver_step [] d (prefetchd_reset d)"

inductive driver_reach :: "cache_c \<Rightarrow> bio list \<Rightarrow> cache_c \<Rightarrow> bool" for d0 where
  start: "driver_reach d0 [] d0"
| step: "driver_reach d0 acc d \<Longrightarrow> driver_step new d d' \<Longrightarrow> driver_reach d0 (acc @ new) d'"

section \<open>The callbacks\<close>

text \<open>A handler of a job in hand that was not a metadata write.\<close>

definition settles :: "kcached_job \<Rightarrow> cache_c \<Rightarrow> cache_c \<Rightarrow> bool" where
  "settles job d d' \<longleftrightarrow> teff d d' (- 1) (\<lambda>g. job_weight g job) \<and> keeps d d'"

lemma eff_settles: "disposes (\<lambda>g. job_weight g job) d d' \<Longrightarrow> settles job d d'"
  by (simp add: settles_def eff_teff)

lemma settles_after: "neutral d e \<Longrightarrow> settles job e d' \<Longrightarrow> settles job d d'"
  using eff_teff [of d e 0 "\<lambda>_. 0"] teff_trans [of d e 0 "\<lambda>_. 0" d' "- 1" "\<lambda>g. job_weight g job"]
    keeps_trans [of d e d'] by (simp add: settles_def)

lemma settles_then: "settles job d e \<Longrightarrow> neutral e d' \<Longrightarrow> settles job d d'"
  using eff_teff [of e d' 0 "\<lambda>_. 0"] teff_trans [of d e "- 1" "\<lambda>g. job_weight g job" d' 0 "\<lambda>_. 0"]
    keeps_trans [of d e d'] by (simp add: settles_def)

lemma io_callback_end_settles:
  assumes "io_callback_end job i b err de d = Some d'" and "job_bio job = Some b" "job_error job = err"
  shows "settles job d d'"
  using io_callback_end_full [OF assms] assms(2) by (simp add: settles_def job_weight_def)

lemma md_write_keeps:
  assumes "flashcache_md_write job d = Some d'" and "md_ok d job" and "md_inv [] d"
  shows "settles job d d'"
  using md_write_full [OF assms(1,3,2)] by (simp add: settles_def keeps_def)

lemma io_callback_settles:
  assumes "flashcache_io_callback err job d = Some d'" and inv: "md_inv [] d"
  shows "settles job d d'"
proof -
  from assms(1) obtain i b where ib: "job_index job = Some i" "job_bio job = Some b"
    by (auto simp: flashcache_io_callback_def elim!: bindE)
  define d1 where "d1 = io_callback_error err d"
  define e where "e = (if err then - EIO else 0)"
  have v1: "view d1 = view d" by (simp add: d1_def io_callback_error_def)
  have n1: "neutral d d1" by (rule eff_view [OF v1])
  note main = assms(1) [unfolded flashcache_io_callback_def ib Option.bind.simps Let_def,
    folded d1_def e_def]
  have w: "settles job d d'" if "settles (job\<lparr>job_error := x\<rparr>) d2 d'" "neutral d1 d2" for x d2
  proof -
    have "settles job d2 d'" using that(1) by (simp add: settles_def job_weight_def)
    with neutral_trans [OF n1 that(2)] show ?thesis by (rule settles_after)
  qed
  show ?thesis
  proof (cases "job_action job")
    case READDISK
    obtain e2 d2 where 2: "inject_error READDISK_ERROR e d1 = (e2, d2)" by force
    note n2 = eff_view [OF inject_error_view [OF 2]]
    show ?thesis
    proof (cases "e2 = 0")
      case True
      with main READDISK have "d' = push_io (job\<lparr>job_error := e2, job_action := READFILL\<rparr>) d2"
        by (auto simp: 2)
      then have "disposes (\<lambda>g. job_weight g (job\<lparr>job_error := e2\<rparr>)) d2 d'"
        by (simp add: eff_def job_weight_def)
      from w [OF eff_settles [OF this] n2] show ?thesis .
    next
      case False
      with main READDISK have "io_callback_end (job\<lparr>job_error := e2\<rparr>) i b e2 True
          (bump_error disk_read_errors_update d2) = Some d'" by (simp add: 2)
      from settles_after [OF _ io_callback_end_settles [OF this], of d2] ib w [OF _ n2]
      show ?thesis by (simp add: eff_def)
    qed
  next
    case READCACHE
    obtain e2 d2 where 2: "inject_error READCACHE_ERROR e d1 = (e2, d2)" by force
    note n2 = eff_view [OF inject_error_view [OF 2]]
    from main READCACHE have "io_callback_end (job\<lparr>job_error := e2\<rparr>) i b e2 False
        (if e2 \<noteq> 0 then bump_error ssd_read_errors_update d2 else d2) = Some d'" by (simp add: 2)
    from settles_after [OF _ io_callback_end_settles [OF this], of d2] ib w [OF _ n2]
    show ?thesis by (cases "e2 = 0") (simp_all add: eff_def)
  next
    case READFILL
    obtain e2 d2 where 2: "inject_error READFILL_ERROR e d1 = (e2, d2)" by force
    note n2 = eff_view [OF inject_error_view [OF 2]]
    from main READFILL have "io_callback_end (job\<lparr>job_error := e2\<rparr>) i b e2 False
        (if e2 \<noteq> 0 then bump_error ssd_write_errors_update d2 else d2) = Some d'" by (simp add: 2)
    from settles_after [OF _ io_callback_end_settles [OF this], of d2] ib w [OF _ n2]
    show ?thesis by (cases "e2 = 0") (simp_all add: eff_def)
  next
    case WRITECACHE
    obtain e2 d2 where 2: "inject_error WRITECACHE_ERROR e d1 = (e2, d2)" by force
    note n2 = eff_view [OF inject_error_view [OF 2]]
    have q: "quview d2 = quview d" using n1 n2 by (simp add: eff_def)
    show ?thesis
    proof (cases "e2 = 0 \<and> mode d2 = FLASHCACHE_WRITE_BACK \<and> state_of d2 i AND DIRTY = 0")
      case True
      with main WRITECACHE have m: "flashcache_md_write (job\<lparr>job_error := e2\<rparr>) d2 = Some d'"
        by (simp add: 2)
      have "md_inv [] d2" using inv quview_inv(1) [OF q] by simp
      moreover have "md_ok d2 (job\<lparr>job_error := e2\<rparr>)" using True WRITECACHE by (simp add: md_ok_def)
      ultimately show ?thesis using w [OF md_write_keeps [OF m] n2] by blast
    next
      case False
      let ?j = "job\<lparr>job_error := e2\<rparr>" and ?d = "bump_error ssd_write_errors_update d2"
      from False main WRITECACHE have "io_callback_end ?j i b e2 False d2 = Some d' \<or>
          io_callback_end ?j i b e2 True (bump_error disk_write_errors_update ?d) = Some d' \<or>
          io_callback_end ?j i b e2 False ?d = Some d'"
        by (auto simp: 2 split: if_splits)
      moreover have "view d2 = view d2" "view ?d = view d2"
        "view (bump_error disk_write_errors_update ?d) = view d2" by simp_all
      ultimately obtain de d3 where "view d3 = view d2" and "io_callback_end ?j i b e2 de d3 = Some d'"
        by blast
      from settles_after [OF eff_view [OF this(1)] io_callback_end_settles [OF this(2)]] ib w [OF _ n2]
      show ?thesis by simp
    qed
  next
    case WRITEDISK
    with main have "io_callback_end (job\<lparr>job_error := e\<rparr>) i b e False d1 = Some d'" by simp
    from io_callback_end_settles [OF this] ib w [of e d1] show ?thesis by simp
  next
    case INVALIDATE
    with main have "io_callback_end (job\<lparr>job_error := e\<rparr>) i b e False d1 = Some d'" by simp
    from io_callback_end_settles [OF this] ib w [of e d1] show ?thesis by simp
  next
    case WRITEDISK_SYNC
    with main have "io_callback_end (job\<lparr>job_error := e\<rparr>) i b e False d1 = Some d'" by simp
    from io_callback_end_settles [OF this] ib w [of e d1] show ?thesis by simp
  qed
qed

lemma kcopyd_settles:
  assumes "flashcache_kcopyd_callback re we job d = Some d'" and inv: "md_inv [] d"
  shows "settles job d d'"
proof -
  obtain inj d1 where 1: "inject KCOPYD_CALLBACK_ERROR d = (inj, d1)" by force
  note v = inject_viewD [OF 1]
  from assms(1) obtain i where ix: "job_index job = Some i" and j: "job_bio job = None"
    and r: "(if \<not> (re \<or> inj) \<and> \<not> we then flashcache_md_write job d1
       else do {
         d \<leftarrow> kcopyd_failed (re \<or> inj) job i d1;
         d \<leftarrow> flashcache_clean_set (i div assoc d) 0 d;
         Some (bump cleanings_update d)
       }) = Some d'"
    by (auto simp: flashcache_kcopyd_callback_def 1 Let_def elim!: bindE split: if_splits)
  have "settles job d1 d'"
  proof (cases "\<not> (re \<or> inj) \<and> \<not> we")
    case True
    have "md_inv [] d1" using inv quview_inv(1) [OF view_quview [OF v]] by simp
    with r True show ?thesis by (intro md_write_keeps) (simp_all add: md_ok_def j)
  next
    case False
    with r obtain d2 d3 where a: "kcopyd_failed (re \<or> inj) job i d1 = Some d2"
      and c: "flashcache_clean_set (i div assoc d2) 0 d2 = Some d3" and d': "d' = bump cleanings_update d3"
      by (auto elim!: bindE)
    have "settles job d1 d2"
      using kcopyd_failed_eff [OF a j] by (intro eff_settles) (simp add: job_weight_def j)
    moreover have "neutral d2 d'" using clean_set_eff [OF c] by (simp add: eff_def d')
    ultimately show ?thesis by (rule settles_then)
  qed
  with eff_view [OF v] show ?thesis by (rule settles_after)
qed

lemma kcopyd_sync_settles:
  assumes "flashcache_kcopyd_callback_sync re we job d = Some d'" and inv: "md_inv [] d"
  shows "settles job d d'"
proof -
  from assms(1) obtain i where ix: "job_index job = Some i" and j: "job_bio job = None"
    and r: "(if \<not> re \<and> \<not> we then flashcache_md_write job d
       else do {
         d \<leftarrow> kcopyd_failed re job i d;
         d \<leftarrow> flashcache_sync_blocks d;
         Some (bump cleanings_update d)
       }) = Some d'"
    by (auto simp: flashcache_kcopyd_callback_sync_def Let_def elim!: bindE split: if_splits)
  show "settles job d d'"
  proof (cases "\<not> re \<and> \<not> we")
    case True
    with r inv show ?thesis by (intro md_write_keeps) (simp_all add: md_ok_def j)
  next
    case False
    with r obtain d2 d3 where a: "kcopyd_failed re job i d = Some d2"
      and c: "flashcache_sync_blocks d2 = Some d3" and d': "d' = bump cleanings_update d3"
      by (auto elim!: bindE)
    have "settles job d d2"
      using kcopyd_failed_eff [OF a j] by (intro eff_settles) (simp add: job_weight_def j)
    moreover have "neutral d2 d'" using sync_blocks_eff [OF c] by (simp add: eff_def d')
    ultimately show ?thesis by (rule settles_then)
  qed
qed

section \<open>Taking a job\<close>

text \<open>A job taken from a place other than the metadata path.\<close>

definition taken :: "kcached_job \<Rightarrow> cache_c \<Rightarrow> cache_c \<Rightarrow> bool" where
  "taken job d e \<longleftrightarrow> teff d e 1 (\<lambda>g. - job_weight g job)"

definition conserves :: "((bio \<Rightarrow> int) \<Rightarrow> int) \<Rightarrow> cache_c \<Rightarrow> cache_c \<Rightarrow> bool" where
  "conserves f d d' \<longleftrightarrow>
     (md_inv [] d \<and> pend_ok d \<longrightarrow> md_inv [] d' \<and> pend_ok d' \<and> teff d d' 0 f)"

lemma eff_conserves: "eff d d' 0 0 0 0 f \<Longrightarrow> conserves f d d'"
  using eff_teff [of d d' 0 f] by (simp add: conserves_def keeps_def)

lemma view_conserves: "view d' = view d \<Longrightarrow> conserves (\<lambda>_. 0) d d'"
  by (rule eff_conserves) (rule eff_view)

lemma taken_settled:
  assumes "taken job d e" and "teff e d' (- 1) (\<lambda>g. job_weight g job)"
  shows "teff d d' 0 (\<lambda>_. 0)"
  using teff_trans [OF assms(1) [unfolded taken_def] assms(2)] by simp

lemma taken_other:
  assumes "jgap e = jgap d + 1" "cgap e = cgap d + 1" "pgap e = pgap d" "qgap e = qgap d"
    "\<And>g. bios g e = bios g d - job_weight g job" "md_blocks_buf e = md_blocks_buf d" "shape e = shape d"
  shows "taken job d e"
  using assms by (simp add: taken_def teff_def jtot_def ctot_def btot_def)

lemma pop_taken:
  assumes "queue_of q d = job # rest"
  shows "taken job d (pop_queue q d)"
  by (rule taken_other)
    (use assms in \<open>cases q; simp add: queue_of_def pop_queue_def gap_defs shape_def\<close>)+

lemma run_job_conserves:
  assumes q: "queue_of q d = job # rest" and r: "run_job q job (pop_queue q d) = Some d'"
  shows "conserves (\<lambda>_. 0) d d'"
  unfolding conserves_def
proof (intro impI, elim conjE)
  assume inv: "md_inv [] d" and pend: "pend_ok d"
  let ?e = "pop_queue q d"
  note t = pop_taken [OF q] and i = md_invD [OF inv]
  have sh: "shape ?e = shape d" by (cases q) (simp_all add: pop_queue_def shape_def)
  have m: "md_blocks_buf ?e = md_blocks_buf d" by (cases q) (simp_all add: pop_queue_def)
  note mb = md_block_of_shape [OF sh] md_ok_shape [OF sh]
  have other: "md_inv [] d' \<and> pend_ok d' \<and> teff d d' 0 (\<lambda>_. 0)"
    if "disposes (\<lambda>g. job_weight g job) ?e d'" "md_inv [] ?e" "pend_ok ?e"
    using eff_teff [OF that(1)] taken_settled [OF t] that(2,3) by (simp add: keeps_def)
  show "md_inv [] d' \<and> pend_ok d' \<and> teff d d' 0 (\<lambda>_. 0)"
  proof (cases q)
    case Md_complete
    then have qs: "q_md_complete_jobs d = job # rest" "?e = d\<lparr>q_md_complete_jobs := rest\<rparr>"
      using q by (simp_all add: queue_of_def pop_queue_def)
    have "md_inv [job] ?e"
      by (rule md_inv_pipeline [OF inv sh m]) (use i(5) in \<open>auto simp: qs md_pipeline_def\<close>)
    moreover have "pend_ok ?e" using pend by (simp add: pend_ok_def qs(2))
    ultimately show ?thesis
      using md_write_done_full [of job ?e d'] r Md_complete taken_settled [OF t]
      by (simp add: run_job_def)
  next
    case Md_io
    then have qs: "q_md_io_jobs d = job # rest" "?e = d\<lparr>q_md_io_jobs := rest\<rparr>"
      using q by (simp_all add: queue_of_def pop_queue_def)
    have "md_inv [job] ?e"
      unfolding md_inv_def mb m using i by (auto simp: qs md_pipeline_def)
    moreover have "md_io_inprog (md_blocks_buf ?e (md_block_of ?e job)) = []"
      using i(4) [of job] by (simp add: qs(1) mb m)
    moreover have "pend_ok ?e" using pend by (simp add: pend_ok_def qs(2))
    ultimately show ?thesis
      using kickoff_full [of job ?e d'] r Md_io taken_settled [OF t] by (simp add: run_job_def)
  next
    case Pending_q
    then have qs: "q_pending_jobs d = job # rest" "?e = d\<lparr>q_pending_jobs := rest\<rparr>"
      using q by (simp_all add: queue_of_def pop_queue_def)
    have "md_inv [] ?e"
      by (rule md_inv_pipeline [OF inv sh m]) (use i(5) in \<open>auto simp: qs md_pipeline_def\<close>)
    moreover have "pend_ok ?e" using pend by (simp add: pend_ok_def qs)
    moreover have "flashcache_do_pending job ?e = Some d'" using r Pending_q by (simp add: run_job_def)
    then have "disposes (\<lambda>g. job_weight g job) ?e d'"
      using pend by (intro do_pending_eff) (auto simp: pend_ok_def qs)
    ultimately show ?thesis by (intro other)
  next
    case Io_q
    then have "quview ?e = quview d" by (simp add: pop_queue_def quview_def shape_def)
    from quview_inv(1,2) [OF this] have "md_inv [] ?e" "pend_ok ?e" using inv pend by simp_all
    then show ?thesis using r Io_q by (intro other do_io_eff) (simp_all add: run_job_def)
  next
    case Uncached_complete
    then have "quview ?e = quview d" by (simp add: pop_queue_def quview_def shape_def)
    from quview_inv(1,2) [OF this] have "md_inv [] ?e" "pend_ok ?e" using inv pend by simp_all
    then show ?thesis using r Uncached_complete by (intro other uncached_complete_eff) (simp_all add: run_job_def)
  qed
qed

text \<open>A completion by the block layer.\<close>

lemma complete_io_conserves:
  assumes "complete_io n err err2 d = Some d'"
  shows "conserves (\<lambda>_. 0) d d'"
  unfolding conserves_def
proof (intro impI, elim conjE)
  assume inv: "md_inv [] d" and pend: "pend_ok d"
  have n: "n < length (io_inflight d)" using assms by (simp add: complete_io_def)
  define r where "r = io_inflight d ! n"
  define e where "e = d\<lparr>io_inflight := take n (io_inflight d) @ drop (n + 1) (io_inflight d)\<rparr>"
  let ?job = "io_job r"
  have split: "io_inflight d = take n (io_inflight d) @ r # drop (n + 1) (io_inflight d)"
    using id_take_nth_drop [OF n] by (simp add: r_def)
  have sh: "shape e = shape d" and m: "md_blocks_buf e = md_blocks_buf d" by (simp_all add: e_def shape_def)
  have t: "taken ?job d e"
  proof (rule taken_other)
    have "length (io_inflight d) = Suc (length (io_inflight e))"
      by (subst split) (simp add: e_def)
    then show "jgap e = jgap d + 1" "cgap e = cgap d + 1" by (simp_all add: gap_defs e_def)
    have "sum_list (map w (io_inflight d)) = sum_list (map w (io_inflight e)) + w r" for w :: "_ \<Rightarrow> int"
      by (subst split) (simp add: e_def)
    then show "bios g e = bios g d - job_weight g ?job" for g by (simp add: gap_defs e_def comp_def)
  qed (simp_all add: gap_defs e_def shape_def)
  note main = assms [unfolded complete_io_def Let_def, folded r_def e_def]
  have flt: "filter md_request (io_inflight d) =
      filter md_request (take n (io_inflight d)) @ (if md_request r then [r] else []) @
      filter md_request (drop (n + 1) (io_inflight d))" by (subst split) simp
  show "md_inv [] d' \<and> pend_ok d' \<and> teff d d' 0 (\<lambda>_. 0)"
  proof (cases "md_request r")
    case False
    have qv: "quview e = quview d" using flt False by (simp add: quview_def sh) (simp add: e_def)
    have ie: "md_inv [] e" "pend_ok e" using inv pend quview_inv(1,2) [OF qv] by simp_all
    have "settles ?job e d'"
    proof (cases "io_fn r")
      case Io_callback
      with main n ie show ?thesis by (intro io_callback_settles) simp_all
    next
      case Md_write_callback
      with False show ?thesis by (simp add: md_request_def)
    next
      case Uncached_io_callback
      with main n have "d' = push_uncached_io_complete (?job\<lparr>job_error := if err then - EIO else 0\<rparr>) e"
        by (simp add: flashcache_uncached_io_callback_def)
      then show ?thesis by (intro eff_settles) (simp add: eff_def job_weight_def)
    next
      case Kcopyd_callback
      with main n ie show ?thesis by (intro kcopyd_settles) simp_all
    next
      case Kcopyd_callback_sync
      with main n ie show ?thesis by (intro kcopyd_sync_settles) simp_all
    qed
    with ie taken_settled [OF t] show ?thesis by (simp add: settles_def keeps_def)
  next
    case True
    then have fn: "io_fn r = Md_write_callback" by (simp add: md_request_def)
    have inv1: "md_inv [?job] e"
      by (rule md_inv_pipeline [OF inv sh m])
        (use md_invD(5) [OF inv] flt True in \<open>auto simp: md_pipeline_def e_def\<close>)
    let ?j = "?job\<lparr>job_error := if err then - EIO else 0\<rparr>"
    from main n fn obtain e2 where d': "d' = push_md_complete ?j e2" and ve: "view e2 = view e"
      by (cases err) (auto simp: flashcache_md_write_callback_def Let_def elim!: bindE)
    have inv2: "md_inv [?job] e2" using inv1 quview_inv(1) [OF view_quview [OF ve]] by simp
    have sj: "same_job ?job ?j" by (simp add: same_job_def)
    have "md_inv [] d'"
      unfolding d'
      by (rule md_inv_pipeline [OF inv2])
        (use md_invD(5) [OF inv2] in \<open>auto simp: same_job_D [OF sj]\<close>)
    moreover have "pend_ok d'"
    proof -
      have "pend_ok e" using pend by (simp add: pend_ok_def e_def)
      then have "pend_ok e2" using quview_inv(2) [OF view_quview [OF ve]] by simp
      then show ?thesis by (simp add: d' pend_ok_def)
    qed
    moreover have "teff e d' (- 1) (\<lambda>g. job_weight g ?job)"
      unfolding d'
      using teff_trans [OF eff_teff(1) [OF eff_view [OF ve]] teff_push(2) [of e2 ?j]]
      by (simp add: same_job_D [OF sj])
    ultimately show ?thesis using taken_settled [OF t] by blast
  qed
qed

section \<open>The other steps\<close>

lemma pfd_done_view: "complete_pfd_io n err d = Some d' \<Longrightarrow> view d' = view d"
  by (auto simp: complete_pfd_io_def Let_def)

lemma resume_bio_eff:
  assumes "pfd_cache_resume_bio intr b c i d = Some (res, d')"
  shows "if res = Served then places b d d' else neutral d d'"
  using assms by (auto simp: pfd_cache_resume_bio_def eff_def split: if_splits dest!: pfd_finish_eff(1))

lemma resume_reader_conserves:
  assumes "resume_reader n intr d = Some d'"
  shows "conserves (\<lambda>_. 0) d d'"
proof -
  have n: "n < length (pfd_waiters d)" using assms by (simp add: resume_reader_def)
  obtain b info c i where w: "pfd_waiters d ! n = (b, info, c, i)" by (metis prod_cases4)
  define e where "e = d\<lparr>pfd_waiters := take n (pfd_waiters d) @ drop (n + 1) (pfd_waiters d)\<rparr>"
  from assms w n obtain res e1 where 1: "pfd_cache_resume_bio intr b c i e = Some (res, e1)"
    and 2: "read_after_pfd b info res e1 = Some d'"
    by (auto simp: resume_reader_def e_def Let_def elim!: bindE)
  have split: "pfd_waiters d = take n (pfd_waiters d) @ (b, info, c, i) # drop (n + 1) (pfd_waiters d)"
    using id_take_nth_drop [OF n] by (simp add: w)
  have "sum_list (map (\<lambda>w. g (fst w)) (pfd_waiters d)) =
      sum_list (map (\<lambda>w. g (fst w)) (pfd_waiters e)) + g b" for g :: "bio \<Rightarrow> int"
    by (subst split) (simp add: e_def)
  then have "eff d e 0 0 0 0 (\<lambda>g. - g b)"
    by (simp add: eff_def gap_defs quview_def) (simp add: e_def shape_def)
  with resume_bio_eff [OF 1] read_after_pfd_eff [OF 2] have "neutral d d'"
    by (auto simp: eff_def split: if_splits)
  then show ?thesis by (rule eff_conserves)
qed

lemma sysctl_views [simp]:
  "view (flashcache_dirty_thresh_sysctl wr d) = view d"
  "view (flashcache_fallow_clean_speed_sysctl wr d) = view d"
  "view (flashcache_zerostats_sysctl wr d) = view d"
  "view (flashcache_io_latency_init wr d) = view d"
  by (simp_all add: flashcache_dirty_thresh_sysctl_def flashcache_fallow_clean_speed_sysctl_def
      flashcache_zerostats_sysctl_def flashcache_io_latency_init_def zero_latency_def view_defs Let_def)

lemma pfd_fields_view [simp]:
  "view (main_cache_set_update f d) = view d" "view (main_queue_update g d) = view d"
  by (simp_all add: view_defs)

lemma reset_metas_view: "reset_metas c js d = (r, d') \<Longrightarrow> view d' = view d"
  by (induction js arbitrary: d) (auto split: if_splits)

lemma reset_caches_view: "reset_caches cs d = (r, d') \<Longrightarrow> view d' = view d"
  by (induction cs arbitrary: d)
    (auto simp: Let_def split: if_splits option.splits prod.splits dest!: reset_metas_view)

lemma prefetchd_reset_view [simp]: "view (prefetchd_reset d) = view d"
  by (auto simp: prefetchd_reset_def pfd_cache_reset_def pfd_stat_init_def split: prod.splits
      dest!: reset_caches_view)

lemma clean_limit_views [simp]:
  "view (max_clean_ios_total_update f d) = view d" "view (max_clean_ios_set_update f d) = view d"
  by (simp_all add: view_defs)

lemma sync_sysctl_eff: "flashcache_sync_sysctl wr d = Some d' \<Longrightarrow> neutral d d'"
  by (auto simp: flashcache_sync_sysctl_def eff_def split: if_splits dest!: sync_all_eff)

lemma clean_all_eff:
  assumes "flashcache_clean_all_sets d = Some d'"
  shows "neutral d d'"
  by (rule neutral_for_each [OF assms [unfolded flashcache_clean_all_sets_def]]) (rule clean_set_eff)

lemma hot_pct_view: "flashcache_lru_hot_pct_sysctl wr d = Some d' \<Longrightarrow> view d' = view d"
  by (auto simp: flashcache_lru_hot_pct_sysctl_def split: if_splits dest!: rebalance_view)

lemma remove_turn_eff: "sync_for_remove_turn d = Some d' \<Longrightarrow> neutral d d'"
proof -
  have r: "view (remove_in_prog_update f e) = view e" "view (max_clean_ios_total_update f e) = view e"
    "view (max_clean_ios_set_update f e) = view e" for f e by (simp_all add: view_defs)
  have slow: "neutral d (d\<lparr>remove_in_prog := SLOW_REMOVE, max_clean_ios_total := 20, max_clean_ios_set := 10\<rparr>)"
    and fast: "neutral d (d\<lparr>remove_in_prog := SLOW_REMOVE, remove_in_prog := FAST_REMOVE\<rparr>)"
    by (rule eff_view, simp only: r)+
  show "neutral d d'" if "sync_for_remove_turn d = Some d'"
    using that neutral_trans [OF slow] fast unfolding sync_for_remove_turn_def Let_def
    by (auto split: if_splits dest!: sync_all_eff)
qed

lemma step_conserves:
  assumes "driver_step new d d'"
  shows "conserves (\<lambda>g. sum_list (map g new)) d d'"
  using assms
proof cases
  case (Map b r)
  from map_eff [OF Map(2)] Map(1) show ?thesis
    by (auto simp: EOPNOTSUPP_def DM_MAPIO_SUBMITTED_def split: if_splits intro: eff_conserves)
next
  case (Work q job rest)
  with run_job_conserves [OF Work(2,3)] show ?thesis by simp
next
  case Io_done
  with complete_io_conserves [OF Io_done(2)] show ?thesis by simp
next
  case Pfd_done
  with view_conserves [OF pfd_done_view [OF Pfd_done(2)]] show ?thesis by simp
next
  case Wake
  with resume_reader_conserves [OF Wake(2)] show ?thesis by simp
next
  case Message
  with view_conserves [OF message_view [OF Message(2)]] show ?thesis by simp
next
  case Sync
  with eff_conserves [OF sync_sysctl_eff [OF Sync(2)]] show ?thesis by simp
next
  case Clean_all
  with eff_conserves [OF clean_all_eff [OF Clean_all(2)]] show ?thesis by simp
next
  case Hot_pct
  with view_conserves [OF hot_pct_view [OF Hot_pct(2)]] show ?thesis by simp
next
  case Remove
  with eff_conserves [OF remove_turn_eff [OF Remove(2)]] show ?thesis by simp
qed (simp_all add: view_conserves)

section \<open>Reachable states\<close>

text \<open>A driver without work, as the constructor leaves it.\<close>

definition idle :: "cache_c \<Rightarrow> bool" where
  "idle d \<longleftrightarrow> active_jobs d = [] \<and> (\<forall>b. pending_job_hashbuckets d b = []) \<and> pfd_waiters d = [] \<and>
     completed d = [] \<and> nr_jobs d = 0 \<and> nr_cache_jobs d = 0 \<and> nr_pending_jobs d = 0 \<and>
     pending_jobs_count d = 0 \<and> (\<forall>b. nr_in_prog (md_blocks_buf d b) = 0 \<and> waiting (md_blocks_buf d b) = [])"

definition system_inv :: "bio list \<Rightarrow> cache_c \<Rightarrow> bool" where
  "system_inv acc d \<longleftrightarrow> md_inv [] d \<and> pend_ok d \<and> jtot d = 0 \<and> ctot d = 0 \<and> pgap d = 0 \<and> qgap d = 0 \<and>
     (\<forall>g. btot g d = sum_list (map g acc))"

lemma idle_inv: "idle d \<Longrightarrow> system_inv [] d"
  by (simp add: idle_def system_inv_def md_inv_def pend_ok_def md_pipeline_def jtot_def ctot_def
      btot_def gap_defs md_weight_def md_busy_def pend_weight_def)

lemma step_inv: "driver_step new d d' \<Longrightarrow> system_inv acc d \<Longrightarrow> system_inv (acc @ new) d'"
  by (drule step_conserves) (simp add: conserves_def system_inv_def teff_def)

lemma reach_inv: "driver_reach d0 acc d \<Longrightarrow> idle d0 \<Longrightarrow> system_inv acc d"
  by (induction rule: driver_reach.induct) (auto intro: idle_inv step_inv)

lemma reach_shape: "driver_reach d0 acc d \<Longrightarrow> idle d0 \<Longrightarrow> shape d = shape d0"
proof (induction rule: driver_reach.induct)
  case (step acc d new d')
  from reach_inv [OF step.hyps(1) step.prems] step_conserves [OF step.hyps(2)]
  have "shape d' = shape d" by (simp add: conserves_def system_inv_def teff_def)
  with step show ?case by simp
qed simp

text \<open>What is under way, as a bag of requests and as a number of jobs.\<close>

definition job_bios :: "kcached_job list \<Rightarrow> bio multiset" where
  "job_bios js = mset (List.map_filter job_bio js)"

definition outstanding :: "cache_c \<Rightarrow> bio multiset" where
  "outstanding d = job_bios (active_jobs d) +
     (\<Sum>b < PENDING_JOB_HASH_SIZE. mset (map pj_bio (pending_job_hashbuckets d b))) +
     mset (map fst (pfd_waiters d)) +
     (\<Sum>b \<in> md_busy (md_blocks_buf d). job_bios (waiting (md_blocks_buf d b)))"

definition nr_waiting :: "cache_c \<Rightarrow> nat" where
  "nr_waiting d = (\<Sum>b \<in> md_busy (md_blocks_buf d). length (waiting (md_blocks_buf d b)))"

definition is_bio :: "bio \<Rightarrow> bio \<Rightarrow> int" where
  "is_bio b x = (if x = b then 1 else 0)"

lemma count_job_bios: "int (count (job_bios js) b) = sum_list (map (job_weight (is_bio b)) js)"
  by (induction js)
    (auto simp: job_bios_def map_filter_simps job_weight_def is_bio_def split: option.splits)

lemma count_bios: "int (count (mset (map f xs)) b) = sum_list (map (\<lambda>x. is_bio b (f x)) xs)"
  by (induction xs) (auto simp: is_bio_def)

lemma count_sum_mset: "int (count (\<Sum>i \<in> A. M i) b) = (\<Sum>i \<in> A. int (count (M i) b))"
  by (induction A rule: infinite_finite_induct) auto

lemma btot_outstanding:
  "btot (is_bio b) d = int (count (outstanding d + mset (map fst (completed d))) b)"
  by (simp add: btot_def bios_def outstanding_def count_job_bios count_bios count_sum_mset
      pend_weight_def md_weight_def del: mset_map)

lemma jtot_jobs: "jtot d = nr_jobs d - int (length (active_jobs d) + nr_waiting d)"
  "ctot d = nr_cache_jobs d - int (length (active_jobs d) + nr_waiting d)"
  by (simp_all add: jtot_def ctot_def jgap_def cgap_def md_weight_def nr_waiting_def sum_list_triv)

lemma nr_pend_length: "nr_pend d = int (\<Sum>b < PENDING_JOB_HASH_SIZE. length (pending_job_hashbuckets d b))"
  by (simp add: nr_pend_def pend_weight_def sum_list_triv)

lemma accepted_requests:
  assumes "driver_reach d0 acc d" and "idle d0"
  shows "mset acc = outstanding d + mset (map fst (completed d))"
proof (rule multiset_eqI)
  fix b
  have "int (count (mset acc) b) = sum_list (map (is_bio b) acc)"
    using count_bios [of id acc b] by simp
  also have "\<dots> = int (count (outstanding d + mset (map fst (completed d))) b)"
    using reach_inv [OF assms] by (simp only: system_inv_def flip: btot_outstanding)
  finally show "count (mset acc) b = count (outstanding d + mset (map fst (completed d))) b" by simp
qed

text \<open>The counters in reachable states, and what follows once they are zero.\<close>

lemma counters:
  assumes "idle d0" and "driver_reach d0 acc d"
  shows "nr_jobs d = int (length (active_jobs d) + nr_waiting d) \<and> nr_cache_jobs d = nr_jobs d \<and>
    pending_jobs_count d = int (\<Sum>b < PENDING_JOB_HASH_SIZE. length (pending_job_hashbuckets d b)) \<and>
    nr_pending_jobs d = pending_jobs_count d"
  using reach_inv [OF assms(2,1)] by (simp add: system_inv_def jtot_jobs pgap_def qgap_def nr_pend_length)

text \<open>No job is left anywhere when the counter is 0.\<close>

lemma no_jobs:
  assumes "idle d0" and "driver_reach d0 acc d" and "nr_jobs d = 0"
  shows "active_jobs d = []" and "\<forall>b. waiting (md_blocks_buf d b) = []"
proof -
  have inv: "md_inv [] d" using reach_inv [OF assms(2,1)] by (simp add: system_inv_def)
  from counters [OF assms(1,2)] assms(3) have "length (active_jobs d) + nr_waiting d = 0" by linarith
  then show "active_jobs d = []" and "\<forall>b. waiting (md_blocks_buf d b) = []"
    using md_invD(3) [OF inv] by (simp_all add: nr_waiting_def md_inv_finite [OF inv]) (auto simp: md_busy_def)
qed

lemma drained:
  assumes "idle d0" and "driver_reach d0 acc d"
    and "nr_jobs d = 0" and "pending_jobs_count d = 0" and "pfd_waiters d = []"
  shows "active_jobs d = [] \<and> (\<forall>b < PENDING_JOB_HASH_SIZE. pending_job_hashbuckets d b = []) \<and>
    (\<forall>b. waiting (md_blocks_buf d b) = []) \<and> mset (map fst (completed d)) = mset acc"
proof -
  note jobs = no_jobs [OF assms(1-3)]
  from counters [OF assms(1,2)] assms(4)
  have "(\<Sum>b < PENDING_JOB_HASH_SIZE. length (pending_job_hashbuckets d b)) = 0" by linarith
  then have pend: "\<forall>b < PENDING_JOB_HASH_SIZE. pending_job_hashbuckets d b = []" by simp
  have "outstanding d = {#}"
    using jobs pend assms(5) by (simp add: outstanding_def job_bios_def map_filter_simps)
  with accepted_requests [OF assms(2,1)] jobs pend show ?thesis by simp
qed

lemma md_serial:
  assumes "idle d0" and "driver_reach d0 acc d"
  shows "length (filter (\<lambda>j. md_block_of d j = b) (md_pipeline d)) = nr_in_prog (md_blocks_buf d b) \<and>
    nr_in_prog (md_blocks_buf d b) \<le> 1 \<and>
    (waiting (md_blocks_buf d b) \<noteq> [] \<longrightarrow> nr_in_prog (md_blocks_buf d b) = 1) \<and>
    (\<forall>j \<in> set (waiting (md_blocks_buf d b)). md_block_of d j = b)"
proof -
  have inv: "md_inv [] d" using reach_inv [OF assms(2,1)] by (simp add: system_inv_def)
  show ?thesis using md_invD(1-3) [OF inv, of b] md_invD(6) [OF inv]
    by (cases "nr_in_prog (md_blocks_buf d b) = 0") auto
qed

text \<open>The worker runs as a sequence of steps.\<close>

lemma reach_trans: "driver_reach d e d' \<Longrightarrow> driver_reach d0 acc d \<Longrightarrow> driver_reach d0 (acc @ e) d'"
  by (induction rule: driver_reach.induct) (auto simp flip: append_assoc intro: driver_reach.step)

lemma reach_Nil_trans: "driver_reach d [] e \<Longrightarrow> driver_reach e [] d' \<Longrightarrow> driver_reach d [] d'"
  using reach_trans [of e "[]" d' d "[]"] by simp

lemma process_jobs_reach:
  assumes "process_jobs q d = Some d'"
  shows "driver_reach d [] d' \<and> queue_of q d' = []"
proof (rule process_jobs.raw_induct [where P = "\<lambda>q d d'. driver_reach d [] d' \<and> queue_of q d' = []", OF _ assms])
  fix f q d d'
  assume IH: "\<And>q d y. f q d = Some y \<Longrightarrow> driver_reach d [] y \<and> queue_of q y = []"
    and eq: "(if queue_of q d = [] then Some d
      else Option.bind (run_job q (hd (queue_of q d)) (pop_queue q d)) (f q)) = Some d'"
  show "driver_reach d [] d' \<and> queue_of q d' = []"
  proof (cases "queue_of q d")
    case Nil
    with eq show ?thesis by (auto intro: driver_reach.start)
  next
    case (Cons job rest)
    with eq obtain e where 1: "run_job q job (pop_queue q d) = Some e" and 2: "f q e = Some d'"
      by (auto elim!: bindE)
    have "driver_reach d [] e"
      using driver_reach.step [OF driver_reach.start Work [OF Cons 1]] by simp
    with IH [OF 2] show ?thesis by (blast intro: reach_Nil_trans)
  qed
qed

lemma do_work_reach:
  assumes "do_work d = Some d'"
  shows "driver_reach d [] d'"
proof -
  from assms obtain d1 d2 d3 d4 where "process_jobs Md_complete d = Some d1" "process_jobs Pending_q d1 = Some d2"
    "process_jobs Md_io d2 = Some d3" "process_jobs Io_q d3 = Some d4" "process_jobs Uncached_complete d4 = Some d'"
    by (auto simp: do_work_def elim!: bindE)
  then have "driver_reach d [] d1" "driver_reach d1 [] d2" "driver_reach d2 [] d3" "driver_reach d3 [] d4"
    "driver_reach d4 [] d'" using process_jobs_reach by blast+
  then show ?thesis by (blast intro: reach_Nil_trans)
qed

end
