(* ===== verification/Persist.thy ===== *)
theory Persist
  imports Target
begin

text \<open>
  The block table on the flash device: writing it never fails its final check and, when no write
  fails, leaves the slot of every block on the device; loading it brings the table back.
\<close>

section \<open>Writing the table\<close>

lemma sync_next_sel [simp]:
  "md_block_size (sync_next d) = md_block_size d" "cache (sync_next d) = cache d"
  "csize (sync_next d) = csize d" "ssd_md (sync_next d) = ssd_md d"
  by (simp_all add: sync_next_def)

text \<open>The state of the loop after \<open>n\<close> blocks of \<open>d\<close>.\<close>

definition stored :: "cache_c \<Rightarrow> nat \<Rightarrow> md_slot list \<Rightarrow> md_io \<Rightarrow> bool" where
  "stored d n buf s \<longleftrightarrow>
     buf = map (md_slot_of d) [n - n mod md_io_slots d..<n] \<and>
     io_sectors s = n div md_io_slots d * (METADATA_IO_NUM_BLOCKS d * md_block_size d) \<and>
     io_sector s = md_block_size d + io_sectors s \<and>
     md_block_size (io_dmc s) = md_block_size d \<and> cache (io_dmc s) = cache d \<and>
     (io_errors s = 0 \<longrightarrow> (\<forall>i < n - n mod md_io_slots d. ssd_md (io_dmc s) i = md_slot_of d i))"

definition md_size_ok :: "cache_c \<Rightarrow> bool" where
  "md_size_ok d \<longleftrightarrow> 0 < md_block_size d \<and> md_block_size d \<le> FLASHCACHE_MAX_MD_BLOCK_SIZE"

lemma md_size_pos:
  assumes "md_size_ok d"
  shows "0 < MD_SLOTS_PER_BLOCK d" "0 < METADATA_IO_NUM_BLOCKS d" "0 < md_io_slots d"
proof -
  have "512 * md_block_size d \<le> 512 * 128" "16 \<le> 512 * md_block_size d"
    using assms by (simp_all add: md_size_ok_def FLASHCACHE_MAX_MD_BLOCK_SIZE_def)
  then show "0 < MD_SLOTS_PER_BLOCK d" "0 < METADATA_IO_NUM_BLOCKS d"
    by (simp_all add: MD_SLOTS_PER_BLOCK_def MD_BLOCK_BYTES_def SIZEOF_FLASH_CACHEBLOCK_def
        METADATA_IO_NUM_BLOCKS_def METADATA_IO_BLOCKSIZE_def div_greater_zero_iff)
  then show "0 < md_io_slots d" by (simp add: md_io_slots_def)
qed

lemma same_md:
  assumes "md_block_size e = md_block_size d"
  shows "MD_SLOTS_PER_BLOCK e = MD_SLOTS_PER_BLOCK d" "md_io_slots e = md_io_slots d"
    "METADATA_IO_NUM_BLOCKS e = METADATA_IO_NUM_BLOCKS d" "md_blocks_sectors e = md_blocks_sectors d"
    "md_sector_slot e = md_sector_slot d"
  by (simp_all add: fun_eq_iff MD_SLOTS_PER_BLOCK_def MD_BLOCK_BYTES_def METADATA_IO_NUM_BLOCKS_def
      md_io_slots_def md_blocks_sectors_def md_sector_slot_def assms)

lemma md_slot_of_cache: "cache e = cache d \<Longrightarrow> md_slot_of e i = md_slot_of d i"
  by (simp add: md_slot_of_def)

text \<open>A full buffer.\<close>

lemma mod_Suc_full: "0 < t \<Longrightarrow> Suc (n mod t) = t \<Longrightarrow> Suc n mod t = 0 \<and> Suc n div t = Suc (n div t)"
  for n t :: nat
  by (simp add: mod_Suc div_Suc)

lemma mod_Suc_more: "Suc (n mod t) \<noteq> t \<Longrightarrow> Suc n mod t = Suc (n mod t) \<and> Suc n div t = n div t"
  for n t :: nat
  by (simp add: mod_Suc div_Suc)

lemma io_slot:
  assumes "0 < md_block_size d"
  shows "md_sector_slot d (md_block_size d + q * (METADATA_IO_NUM_BLOCKS d * md_block_size d)) = q * md_io_slots d"
proof -
  have "(md_block_size d + q * (METADATA_IO_NUM_BLOCKS d * md_block_size d)) =
      (1 + q * METADATA_IO_NUM_BLOCKS d) * md_block_size d" by algebra
  then have "(md_block_size d + q * (METADATA_IO_NUM_BLOCKS d * md_block_size d)) div md_block_size d =
      1 + q * METADATA_IO_NUM_BLOCKS d" using assms by (simp only: nonzero_mult_div_cancel_right)
  then show ?thesis by (simp add: md_sector_slot_def md_io_slots_def)
qed

lemma md_flush_written:
  assumes "md_block_size (io_dmc s) = md_block_size d" and "cache (io_dmc s) = cache d"
    and "0 < md_block_size d"
    and "io_sector s = md_block_size d + q * (METADATA_IO_NUM_BLOCKS d * md_block_size d)"
    and "buf = map (md_slot_of d) [q * md_io_slots d..<m]"
    and "io_errors s = 0 \<longrightarrow> (\<forall>i < q * md_io_slots d. ssd_md (io_dmc s) i = md_slot_of d i)"
    and s'_def: "s' = md_flush cnt buf s"
  shows "io_errors s' = 0 \<longrightarrow> (\<forall>i < m. ssd_md (io_dmc s') i = md_slot_of d i)"
    and "md_block_size (io_dmc s') = md_block_size d" and "cache (io_dmc s') = cache d"
    and "io_sectors s' = io_sectors s + cnt" and "io_sector s' = io_sector s + cnt"
proof -
  have slot: "md_sector_slot (sync_next (io_dmc s)) (io_sector s) = q * md_io_slots d"
    using same_md(5) [of "sync_next (io_dmc s)" d] assms(1) io_slot [OF assms(3), of q] assms(4) by simp
  show "io_errors s' = 0 \<longrightarrow> (\<forall>i < m. ssd_md (io_dmc s') i = md_slot_of d i)"
    using assms(6)
    unfolding s'_def md_flush_def Let_def store_md_block_def slot assms(5)
    by auto
qed (simp_all add: s'_def md_flush_def Let_def assms(1,2))

lemma stored_loop:
  assumes "md_store_loop abort [n..<N] buf s = (buf', s')" and "stored d n buf s" and "n \<le> N"
    and ok: "md_size_ok d"
  shows "abort \<and> io_errors s' > 0 \<or> stored d N buf' s'"
  using assms(1-3)
proof (induction "N - n" arbitrary: n buf s)
  case 0
  then show ?case by simp
next
  case (Suc k)
  let ?T = "md_io_slots d" and ?buf = "buf @ [md_slot_of (io_dmc s) n]"
  let ?q = "n div ?T"
  have T: "0 < ?T" "0 < md_block_size d" using md_size_pos [OF ok] ok by (simp_all add: md_size_ok_def)
  have mul: "n - n mod ?T = ?q * ?T" by (simp add: minus_mod_eq_div_mult)
  have st: "buf = map (md_slot_of d) [?q * ?T..<n]" "md_block_size (io_dmc s) = md_block_size d"
    "cache (io_dmc s) = cache d" "io_sectors s = ?q * (METADATA_IO_NUM_BLOCKS d * md_block_size d)"
    "io_sector s = md_block_size d + ?q * (METADATA_IO_NUM_BLOCKS d * md_block_size d)"
    "io_errors s = 0 \<longrightarrow> (\<forall>i < ?q * ?T. ssd_md (io_dmc s) i = md_slot_of d i)"
    using Suc.prems(2) by (simp_all add: stored_def mul)
  have le: "?q * ?T \<le> n" using mul by simp
  have buf: "?buf = map (md_slot_of d) [?q * ?T..<Suc n]"
    using st(1) le by (simp add: md_slot_of_cache [OF st(3)])
  have len: "length ?buf = Suc (n mod ?T)" using buf le by (simp add: minus_div_mult_eq_mod Suc_diff_le)
  note sm = same_md [OF st(2)]
  from Suc.hyps(2) have n: "[n..<N] = n # [Suc n..<N]" "n < N" by (simp_all add: upt_conv_Cons)
  show ?case
  proof (cases "abort \<and> io_errors s > 0")
    case True
    with Suc.prems(1) n show ?thesis by simp
  next
    case False
    show ?thesis
    proof (cases "Suc (n mod ?T) = ?T")
      case True
      note d = mod_Suc_full [OF T(1) True]
      have c: "?T div MD_SLOTS_PER_BLOCK d = METADATA_IO_NUM_BLOCKS d"
        using md_size_pos(1) [OF ok] by (simp add: md_io_slots_def)
      define s1 where "s1 = md_flush (METADATA_IO_NUM_BLOCKS d * md_block_size d) ?buf s"
      note w = md_flush_written [OF st(2,3) T(2) st(5) buf st(6) s1_def]
      have "stored d (Suc n) [] s1"
        using w(1-3) d by (simp add: stored_def w(4,5) st(4,5))
      moreover have "md_store_loop abort [Suc n..<N] [] s1 = (buf', s')"
        using Suc.prems(1) False n len True by (simp add: Let_def sm st(2) s1_def c del: length_append) 
      ultimately show ?thesis using Suc.hyps(1) [of "Suc n"] Suc.hyps(2) n(2) by simp
    next
      case more: False
      note d = mod_Suc_more [OF more]
      have "stored d (Suc n) ?buf s"
        using st buf d by (simp add: stored_def mul minus_mod_eq_div_mult [of "Suc n", unfolded d])
      moreover have "md_store_loop abort [Suc n..<N] ?buf s = (buf', s')"
        using Suc.prems(1) False n len more by (auto simp add: Let_def sm del: length_append split: if_splits)
      ultimately show ?thesis using Suc.hyps(1) [of "Suc n"] Suc.hyps(2) n(2) by simp
    qed
  qed
qed

lemma md_blocks_sectors_split:
  assumes "md_size_ok d"
  shows "md_blocks_sectors d n =
    n div md_io_slots d * (METADATA_IO_NUM_BLOCKS d * md_block_size d) + md_blocks_sectors d (n mod md_io_slots d)"
proof -
  let ?S = "MD_SLOTS_PER_BLOCK d" and ?B = "METADATA_IO_NUM_BLOCKS d"
  have T: "md_io_slots d = ?S * ?B" by (simp add: md_io_slots_def)
  have "n div ?S = n div (?S * ?B) * ?B + n mod (?S * ?B) div ?S"
    using md_size_pos [OF assms]
    by (simp add: div_mult2_eq mod_mult2_eq minus_mod_eq_mult_div [symmetric])
  moreover have "n mod (?S * ?B) mod ?S = n mod ?S" by (simp add: mod_mult2_eq)
  ultimately show ?thesis by (simp add: md_blocks_sectors_def T algebra_simps)
qed

text \<open>What the loop may change of the driver.\<close>

definition io_only :: "cache_c \<Rightarrow> cache_c \<Rightarrow> bool" where
  "io_only d d' \<longleftrightarrow> (\<exists>m sc. d' = d\<lparr>ssd_md := m, kernel := (kernel d)\<lparr>io_script := sc\<rparr>\<rparr> \<and>
     (io_script (kernel d) = [] \<longrightarrow> sc = []))"

lemma io_only_refl [simp]: "io_only d d"
  unfolding io_only_def by (intro exI [of _ "ssd_md d"] exI [of _ "io_script (kernel d)"]) simp

lemma io_only_trans:
  assumes "io_only a b" and "io_only b c"
  shows "io_only a c"
proof -
  from assms obtain m sc m' sc' where b: "b = a\<lparr>ssd_md := m, kernel := (kernel a)\<lparr>io_script := sc\<rparr>\<rparr>"
    and c: "c = b\<lparr>ssd_md := m', kernel := (kernel b)\<lparr>io_script := sc'\<rparr>\<rparr>"
    and e: "io_script (kernel a) = [] \<longrightarrow> sc = []" "io_script (kernel b) = [] \<longrightarrow> sc' = []"
    unfolding io_only_def by blast
  have "c = a\<lparr>ssd_md := m', kernel := (kernel a)\<lparr>io_script := sc'\<rparr>\<rparr>" unfolding c b by simp
  moreover have "io_script (kernel a) = [] \<longrightarrow> sc' = []" using e unfolding b by simp
  ultimately show ?thesis unfolding io_only_def by blast
qed

lemma io_only_D:
  assumes "io_only d d'"
  shows "cache d' = cache d" "csize d' = csize d" "alloc_script (kernel d') = alloc_script (kernel d)"
    "io_script (kernel d) = [] \<Longrightarrow> io_script (kernel d') = []"
  using assms by (auto simp: io_only_def)

lemma sync_next_io: "io_only d (sync_next d)"
  unfolding io_only_def sync_next_def
  by (intro exI [of _ "ssd_md d"] exI [of _ "tl (io_script (kernel d))"]) simp

lemma md_flush_io:
  "io_only (io_dmc s) (io_dmc (md_flush cnt buf s))"
  "io_script (kernel (io_dmc s)) = [] \<Longrightarrow> io_errors (md_flush cnt buf s) = io_errors s"
proof -
  have "io_only d (d\<lparr>ssd_md := m\<rparr>)" for d m
    unfolding io_only_def by (intro exI [of _ m] exI [of _ "io_script (kernel d)"]) simp
  then show "io_only (io_dmc s) (io_dmc (md_flush cnt buf s))"
    using sync_next_io io_only_trans by (simp add: md_flush_def Let_def) blast
qed (simp add: md_flush_def Let_def sync_error_def)

lemma md_store_loop_io:
  assumes "md_store_loop abort xs buf s = (buf', s')"
  shows "io_only (io_dmc s) (io_dmc s')"
    and "io_script (kernel (io_dmc s)) = [] \<Longrightarrow> io_errors s' = io_errors s"
  using assms
proof (induction xs arbitrary: buf s)
  case (Cons x xs)
  { case 1 with Cons.IH(1) show ?case
      by (auto simp: Let_def split: if_splits intro: io_only_trans [OF md_flush_io(1)]) }
  { case 2
    have "io_script (kernel (io_dmc (md_flush c b s))) = []" for c b
      using 2(1) by (rule io_only_D(4) [OF md_flush_io(1)])
    with 2 Cons.IH(2) md_flush_io(2) [OF 2(1)] show ?case
      by (fastforce simp: Let_def split: if_split_asm) }
qed simp_all

text \<open>
  The whole table: the check at the end holds, and without write errors every slot on the device is
  that of its block.
\<close>

lemma md_store_all_ok:
  assumes "md_size_ok d"
  shows "\<exists>e d'. md_store_all abort d = Some (e, d') \<and> io_only d d' \<and>
    (io_script (kernel d) = [] \<longrightarrow> e = 0) \<and>
    (e = 0 \<longrightarrow> (\<forall>i < csize d. ssd_md d' i = md_slot_of d i))"
proof -
  let ?T = "md_io_slots d" and ?N = "csize d"
  let ?s0 = "\<lparr>io_sector = md_block_size d, io_sectors = 0, io_errors = 0, io_dmc = d\<rparr>"
  obtain buf s where l: "md_store_loop abort [0..<?N] [] ?s0 = (buf, s)" by force
  have "stored d 0 [] ?s0" by (simp add: stored_def)
  note io = md_store_loop_io [OF l, simplified]
  from stored_loop [OF l \<open>stored d 0 [] ?s0\<close> _ assms]
  consider "abort \<and> io_errors s > 0" | "\<not> (abort \<and> io_errors s > 0)" "stored d ?N buf s" by blast
  then show ?thesis
  proof cases
    case 1
    moreover from this have "io_script (kernel d) \<noteq> []" using io(2) by auto
    ultimately show ?thesis using l io(1) by (simp add: md_store_all_def)
  next
    case 2
    define s1 where "s1 = (if buf \<noteq> [] then md_flush (md_blocks_sectors d (?N mod ?T)) buf s else s)"
    have len: "length buf = ?N mod ?T" using 2(2) by (simp add: stored_def)
    have mul: "?N - ?N mod ?T = ?N div ?T * ?T" by (simp add: minus_mod_eq_div_mult)
    have st: "md_block_size (io_dmc s) = md_block_size d" "cache (io_dmc s) = cache d" "0 < md_block_size d"
      "io_sector s = md_block_size d + ?N div ?T * (METADATA_IO_NUM_BLOCKS d * md_block_size d)"
      "buf = map (md_slot_of d) [?N div ?T * ?T..<?N]"
      "io_errors s = 0 \<longrightarrow> (\<forall>i < ?N div ?T * ?T. ssd_md (io_dmc s) i = md_slot_of d i)"
      using 2(2) assms by (simp_all add: stored_def mul md_size_ok_def)
    note w = md_flush_written [OF st, of "md_flush c buf s" c for c, OF refl]
    have "io_only d (io_dmc s1)" using io(1) io_only_trans [OF io(1) md_flush_io(1)] by (simp add: s1_def)
    moreover have "io_script (kernel d) = [] \<longrightarrow> io_errors s1 = 0"
      using io io_only_D(4) [OF io(1)] md_flush_io(2) by (simp add: s1_def)
    moreover have "io_errors s1 = 0 \<longrightarrow> (\<forall>i < ?N. ssd_md (io_dmc s1) i = md_slot_of d i)"
      using w(1) st(5,6) len by (auto simp: s1_def)
    moreover have "io_sectors s1 = md_blocks_sectors d ?N"
    proof (cases "buf = []")
      case True
      then have "md_blocks_sectors d (?N mod ?T) = 0" using len by (simp add: md_blocks_sectors_def)
      with True 2(2) show ?thesis by (simp add: s1_def stored_def md_blocks_sectors_split [OF assms, of ?N])
    next
      case False
      with w(4) 2(2) show ?thesis by (simp add: s1_def stored_def md_blocks_sectors_split [OF assms, of ?N])
    qed
    moreover have "md_store_all abort d =
        (if abort \<and> io_errors s1 > 0 then Some (io_errors s1, io_dmc s1)
         else do { verify (md_blocks_sectors d ?N = io_sectors s1); Some (io_errors s1, io_dmc s1) })"
      using 2(1) by (auto simp: md_store_all_def l s1_def Let_def len)
    ultimately show ?thesis by simp
  qed
qed

section \<open>Loading the table\<close>

text \<open>The block that a slot of the device becomes.\<close>

definition loaded :: "bool \<Rightarrow> md_slot \<Rightarrow> cacheblock \<Rightarrow> cacheblock" where
  "loaded clean slot b = (if clean \<or> snd slot AND ucast DIRTY \<noteq> 0
     then b\<lparr>nr_queued := 0, cache_state := ucast (snd slot), dbn := fst slot\<rparr>
     else b\<lparr>nr_queued := 0, cache_state := INVALID, dbn := 0\<rparr>)"

definition slot_ok :: "bool \<Rightarrow> md_slot \<Rightarrow> bool" where
  "slot_ok clean slot \<longleftrightarrow> clean \<or> snd slot AND ucast DIRTY \<noteq> 0 \<longrightarrow>
     (ucast (snd slot) :: 16 word) AND (VALID OR INVALID) \<noteq> VALID OR INVALID"

lemma load_slot_eq:
  "load_slot clean i slot d = (if slot_ok clean slot then Some (upd_blk i (loaded clean slot) d) else None)"
  by (auto simp: load_slot_def slot_ok_def loaded_def upd_blk_def Let_def bind_verify_if)

definition loaded_upto :: "bool \<Rightarrow> nat \<Rightarrow> cache_c \<Rightarrow> cache_c \<Rightarrow> bool" where
  "loaded_upto clean n d e \<longleftrightarrow>
     (\<forall>i. cache e i = (if i < n then loaded clean (ssd_md d i) (cache d i) else cache d i)) \<and>
     e\<lparr>cache := cache d\<rparr> = d"

lemma loaded_uptoD:
  assumes "loaded_upto clean n d e"
  shows "ssd_md e = ssd_md d" "md_block_size e = md_block_size d" "kernel e = kernel d"
proof -
  have e: "e\<lparr>cache := cache d\<rparr> = d" using assms by (simp add: loaded_upto_def)
  show "ssd_md e = ssd_md d" "md_block_size e = md_block_size d" "kernel e = kernel d"
    by (subst e [symmetric], simp)+
qed

lemma load_step:
  assumes "loaded_upto clean n d e" and "slot_ok clean (ssd_md d n)"
  shows "\<exists>e'. load_slot clean n (ssd_md d n) e = Some e' \<and> loaded_upto clean (Suc n) d e'"
proof -
  have e: "e\<lparr>cache := cache d\<rparr> = d" using assms by (simp add: loaded_upto_def)
  have "(upd_blk n f e)\<lparr>cache := cache d\<rparr> = d" for f
    using e by (simp add: upd_blk_def)
  with assms show ?thesis by (auto simp: load_slot_eq loaded_upto_def less_Suc_eq)
qed

lemma load_steps:
  assumes "loaded_upto clean n d e" and "\<forall>i < n + k. slot_ok clean (ssd_md d i)"
    and slot: "md_sector_slot d sect = n"
  shows "\<exists>e'. load_chunk clean sect k n e = Some e' \<and> loaded_upto clean (n + k) d e'"
  using assms(1,2)
proof (induction k)
  case (Suc k)
  then obtain e1 where 1: "load_chunk clean sect k n e = Some e1" "loaded_upto clean (n + k) d e1" by auto
  have "md_sector_slot e1 sect = n" using slot same_md(5) [OF loaded_uptoD(2) [OF 1(2)]] by simp
  moreover from load_step [OF 1(2)] Suc.prems(2) obtain e2 where
    "load_slot clean (n + k) (ssd_md d (n + k)) e1 = Some e2" "loaded_upto clean (Suc (n + k)) d e2" by auto
  ultimately show ?case using 1 loaded_uptoD(1) [OF 1(2)] by (simp add: load_chunk_def for_each_append)
qed (simp add: load_chunk_def)

text \<open>The loop without read errors.\<close>

lemma load_loop_ok:
  assumes "md_size_ok d" and "io_script (kernel d) = []" and "\<forall>i < N. slot_ok clean (ssd_md d i)"
    and "loaded_upto clean (q * md_io_slots d) d e" and "q * md_io_slots d + left = N"
  shows "\<exists>e'. load_loop clean left (q * md_io_slots d)
      (md_block_size d + q * (METADATA_IO_NUM_BLOCKS d * md_block_size d))
      (q * (METADATA_IO_NUM_BLOCKS d * md_block_size d)) e = Some (Some (md_blocks_sectors d N), e') \<and>
    loaded_upto clean N d e'"
  using assms(4,5)
proof (induction left arbitrary: q e rule: less_induct)
  case (less left)
  let ?T = "md_io_slots d" and ?W = "METADATA_IO_NUM_BLOCKS d * md_block_size d"
  note T = md_size_pos [OF assms(1)] and L = loaded_uptoD [OF less.prems(1)]
  note sm = same_md [OF L(2)]
  have bs: "md_blocks_sectors d (q * ?T + r) = q * ?W + md_blocks_sectors d r" if "r < ?T" for r
    using md_blocks_sectors_split [OF assms(1), of "q * ?T + r"] T(3) that by simp
  show ?case
  proof (cases "left = 0")
    case True
    have "md_blocks_sectors d N = q * ?W" using bs [of 0] T True less.prems(2)
      by (simp add: md_blocks_sectors_def)
    with True less.prems show ?thesis by (simp add: load_loop.simps)
  next
    case False
    let ?k = "min left ?T"
    have io: "sync_error e = 0" "sync_next e = e"
      using L(3) assms(2) by (simp_all add: sync_error_def sync_next_def)
    have slot: "md_sector_slot d (md_block_size d + q * ?W) = q * ?T"
      using io_slot [of d q] assms(1) by (simp add: md_size_ok_def)
    have "\<forall>i < q * ?T + ?k. slot_ok clean (ssd_md d i)" using assms(3) less.prems(2) by auto
    from load_steps [OF less.prems(1) this slot] obtain e1 where
      1: "load_chunk clean (md_block_size d + q * ?W) ?k (q * ?T) e = Some e1"
        "loaded_upto clean (q * ?T + ?k) d e1"
      by blast
    show ?thesis
    proof (cases "left < ?T")
      case True
      then have k: "?k = left" by simp
      have "md_blocks_sectors d N = q * ?W + md_blocks_sectors d left"
        using bs [OF True] less.prems(2) by simp
      with 1 False k io less.prems(2) show ?thesis by (simp add: load_loop.simps [of _ left] load_loop.simps [of _ 0] sm)
    next
      case ge: False
      then have k: "?k = ?T" by simp
      have w: "md_blocks_sectors d ?T = ?W" using T
        by (simp add: md_blocks_sectors_def md_io_slots_def)
      have "left - ?T < left" using T(3) False by simp
      from less.IH [OF this, of "Suc q" e1] 1 k ge less.prems(2) obtain e2 where
        "load_loop clean (left - ?T) (Suc q * ?T) (md_block_size d + Suc q * ?W) (Suc q * ?W) e1 =
          Some (Some (md_blocks_sectors d N), e2)" "loaded_upto clean N d e2"
        by (auto simp: add.commute)
      with 1 False k io w show ?thesis
        by (subst load_loop.simps) (auto simp: sm add.commute add.left_commute)
    qed
  qed
qed

section \<open>The round trip\<close>

definition no_failures :: "cache_c \<Rightarrow> bool" where
  "no_failures d \<longleftrightarrow> alloc_script (kernel d) = [] \<and> io_script (kernel d) = []"

lemma no_failuresD:
  assumes "no_failures d"
  shows "alloc_ok d" "alloc_next d = d" "sync_error d = 0" "sync_next d = d"
  using assms by (simp_all add: no_failures_def alloc_ok_def alloc_next_def sync_error_def sync_next_def)

text \<open>What a load takes from the superblock and the slots.\<close>

definition header_ok :: "flash_superblock \<Rightarrow> bool" where
  "header_ok h \<longleftrightarrow> cache_version h \<noteq> 1 \<and> cache_version h \<le> FLASHCACHE_VERSION \<and>
     valid_sb_state (cache_sb_state h) \<and>
     0 < sb_md_block_size h \<and> sb_md_block_size h \<le> FLASHCACHE_MAX_MD_BLOCK_SIZE"

lemma writeback_load_ok:
  assumes "no_failures d" and h: "header_ok (ssd_sb d)"
    and "clean = (cache_sb_state (ssd_sb d) \<noteq> CACHE_MD_STATE_DIRTY)"
    and "\<forall>i < sb_size (ssd_sb d). slot_ok clean (ssd_md d i)"
  shows "\<exists>e h'. flashcache_writeback_load d = Some (0, e) \<and>
    e\<lparr>cache := cache d, ssd_sb := ssd_sb d\<rparr> = load_header2 (ssd_sb d) (load_header1 (ssd_sb d) d) \<and>
    (\<forall>i < sb_size (ssd_sb d). cache e i = loaded clean (ssd_md d i) zero_cacheblock)"
proof -
  let ?h = "ssd_sb d"
  define d1 where "d1 = load_header2 ?h (load_header1 ?h d)"
  define d2 where "d2 = d1\<lparr>cache := (\<lambda>_. zero_cacheblock)\<rparr>"
  have d1: "kernel d1 = kernel d" "ssd_md d1 = ssd_md d" "csize d1 = sb_size ?h" "ssd_sb d1 = ?h"
    "md_block_size d1 = sb_md_block_size ?h" "cache d1 = cache d"
    by (simp_all add: d1_def load_header2_def load_header1_def Let_def)
  have "md_size_ok d2" using h d1 by (simp add: d2_def md_size_ok_def header_ok_def)
  moreover have "io_script (kernel d2) = []" using assms(1) d1 by (simp add: d2_def no_failures_def)
  moreover have "loaded_upto clean 0 d2 d2" by (simp add: loaded_upto_def)
  ultimately obtain e1 where
    1: "load_loop clean (csize d2) 0 (md_block_size d2) 0 d2 = Some (Some (md_blocks_sectors d2 (csize d2)), e1)"
      "loaded_upto clean (csize d2) d2 e1"
    using load_loop_ok [of d2 "csize d2" clean 0 d2 "csize d2"] assms(4) d1 by (auto simp: d2_def)
  have e1: "e1\<lparr>cache := cache d2\<rparr> = d2" "\<forall>i < csize d2. cache e1 i = loaded clean (ssd_md d i) zero_cacheblock"
    using 1(2) d1 by (simp_all add: loaded_upto_def) (simp_all add: d2_def d1)
  have n: "no_failures d" "no_failures d1" "no_failures d2" "no_failures (load_header1 ?h d)"
    "no_failures e1"
    using assms(1) d1 loaded_uptoD(3) [OF 1(2)]
    by (simp_all add: no_failures_def d2_def load_header1_def Let_def)
  have sel: "csize e1 = csize d2" "md_block_size e1 = md_block_size d2" "kernel e1 = kernel d2"
    by (subst e1(1) [symmetric], simp)+
  have run: "flashcache_writeback_load d =
      (let header = fill_header e1 CACHE_MD_STATE_DIRTY
             (if DEFAULT_MD_BLOCK_SIZE \<noteq> md_block_size e1 then heap_garbage (kernel e1) else ?h)
       in Some (0, e1\<lparr>ssd_sb := header\<rparr>))"
    using h 1(1) no_failuresD [OF n(1)] no_failuresD [OF n(2)] no_failuresD [OF n(3)] no_failuresD [OF n(4)]
      no_failuresD [OF n(5)] assms(3) sel
    unfolding flashcache_writeback_load_def
    by (simp add: header_ok_def Let_def write_header_def same_md [OF sel(2)] flip: d1_def d2_def)
  have "(e1\<lparr>ssd_sb := x\<rparr>)\<lparr>cache := cache d, ssd_sb := ssd_sb d\<rparr> = d1" for x
  proof -
    have "(e1\<lparr>ssd_sb := x\<rparr>)\<lparr>cache := cache d, ssd_sb := ssd_sb d\<rparr> =
        (e1\<lparr>cache := cache d2\<rparr>)\<lparr>cache := cache d, ssd_sb := ssd_sb d\<rparr>" by simp
    also have "\<dots> = d1" unfolding e1(1) by (simp add: d2_def flip: d1(4,6))
    finally show ?thesis .
  qed
  with run e1(2) show ?thesis by (simp add: Let_def d2_def d1 flip: d1_def)
qed

lemma md_store_total:
  assumes "md_size_ok d"
  shows "\<exists>r d'. flashcache_writeback_md_store d = Some (r, d')"
proof -
  have "md_size_ok (alloc_next d)" using assms by (simp add: md_size_ok_def alloc_next_def)
  from md_store_all_ok [OF this] obtain e d1 where "md_store_all False (alloc_next d) = Some (e, d1)" by blast
  then show ?thesis unfolding flashcache_writeback_md_store_def Let_def by (simp split: prod.split)
qed

lemma md_store_ok:
  assumes "md_size_ok d" and "no_failures d"
  shows "\<exists>d'. flashcache_writeback_md_store d = Some (0, d') \<and>
    (\<forall>i < csize d. ssd_md d' i = md_slot_of d i) \<and>
    ssd_sb d' = (fill_header d (if num_dirty_blocks d = 0 then CACHE_MD_STATE_CLEAN else CACHE_MD_STATE_FASTCLEAN)
      zero_flash_superblock)\<lparr>sb_write_only_cache := write_only_cache d\<rparr>"
proof -
  from md_store_all_ok [OF assms(1)] assms(2) obtain d1 where
    1: "md_store_all False d = Some (0, d1)" "io_only d d1" "\<forall>i < csize d. ssd_md d1 i = md_slot_of d i"
    by (fastforce simp: no_failures_def)
  have n: "no_failures d1" using assms(2) io_only_D(3,4) [OF 1(2)] by (simp add: no_failures_def)
  obtain m sc where "d1 = d\<lparr>ssd_md := m, kernel := (kernel d)\<lparr>io_script := sc\<rparr>\<rparr>"
    using 1(2) unfolding io_only_def by blast
  then have f: "fill_header d1 = fill_header d" "num_dirty_blocks d1 = num_dirty_blocks d"
    "write_only_cache d1 = write_only_cache d"
    by (simp_all add: fun_eq_iff fill_header_def num_dirty_blocks_def)
  show ?thesis
    using no_failuresD [OF assms(2)] no_failuresD [OF n] 1(1,3) f
    unfolding flashcache_writeback_md_store_def write_header_def by simp
qed

lemma ucast_state: "ucast (ucast (x :: 16 word) :: 32 word) = x"
  by (rule bit_eqI) (auto simp: bit_simps)

lemma load_header_sel:
  "csize (load_header2 h d) = sb_size h" "assoc (load_header2 h d) = sb_assoc h"
  "block_size (load_header2 h d) = sb_block_size h" "md_block_size (load_header2 h d) = sb_md_block_size h"
  "disk_assoc (load_header2 h d) = disk_assoc d" "write_only_cache (load_header2 h d) = write_only_cache d"
  "cache_version h = FLASHCACHE_VERSION \<Longrightarrow> disk_assoc (load_header1 h d) = sb_disk_assoc h"
  "cache_version h = FLASHCACHE_VERSION \<Longrightarrow> write_only_cache (load_header1 h d) = sb_write_only_cache h"
  by (simp_all add: load_header1_def load_header2_def Let_def FLASHCACHE_VERSION_def)

text \<open>
  A cache that is stored and then loaded into a zeroed structure has its geometry and, block by
  block, its disk blocks and the flags \<open>VALID\<close>, \<open>INVALID\<close> and \<open>DIRTY\<close>.
\<close>

lemma store_load:
  assumes "md_size_ok d" and "no_failures d" and "on_ssd_version d = FLASHCACHE_VERSION"
    and "\<forall>i < csize d. state_of d i AND (VALID OR INVALID) \<noteq> VALID OR INVALID"
    and z: "no_failures z"
  shows "\<exists>d' e. flashcache_writeback_md_store d = Some (0, d') \<and>
    flashcache_writeback_load (z\<lparr>ssd_sb := ssd_sb d', ssd_md := ssd_md d'\<rparr>) = Some (0, e) \<and>
    csize e = csize d \<and> assoc e = assoc d \<and> block_size e = block_size d \<and>
    md_block_size e = md_block_size d \<and> disk_assoc e = disk_assoc d \<and>
    write_only_cache e = write_only_cache d \<and>
    (\<forall>i < csize d. dbn (cache e i) = dbn (cache d i) \<and>
       state_of e i = state_of d i AND (VALID OR INVALID OR DIRTY) \<and> nr_queued (cache e i) = 0)"
proof -
  from md_store_ok [OF assms(1,2)] obtain d' where
    1: "flashcache_writeback_md_store d = Some (0, d')" "\<forall>i < csize d. ssd_md d' i = md_slot_of d i"
      "ssd_sb d' = (fill_header d (if num_dirty_blocks d = 0 then CACHE_MD_STATE_CLEAN else CACHE_MD_STATE_FASTCLEAN)
        zero_flash_superblock)\<lparr>sb_write_only_cache := write_only_cache d\<rparr>" by blast
  let ?z = "z\<lparr>ssd_sb := ssd_sb d', ssd_md := ssd_md d'\<rparr>"
  have h: "sb_size (ssd_sb d') = csize d" "sb_assoc (ssd_sb d') = assoc d" "sb_block_size (ssd_sb d') = block_size d"
    "sb_md_block_size (ssd_sb d') = md_block_size d" "sb_disk_assoc (ssd_sb d') = disk_assoc d"
    "sb_write_only_cache (ssd_sb d') = write_only_cache d" "cache_version (ssd_sb d') = FLASHCACHE_VERSION"
    "cache_sb_state (ssd_sb d') \<in> {CACHE_MD_STATE_CLEAN, CACHE_MD_STATE_FASTCLEAN}"
    using assms(3) by (simp_all add: 1(3) fill_header_def)
  have clean: "cache_sb_state (ssd_sb d') \<noteq> CACHE_MD_STATE_DIRTY"
    using h(8) by (auto simp: CACHE_MD_STATE_CLEAN_def CACHE_MD_STATE_FASTCLEAN_def CACHE_MD_STATE_DIRTY_def)
  have ok: "header_ok (ssd_sb ?z)"
    using h assms(1) by (auto simp: header_ok_def valid_sb_state_def md_size_ok_def FLASHCACHE_VERSION_def)
  have masks: "(x AND (VALID OR INVALID OR DIRTY)) AND (VALID OR INVALID) = x AND (VALID OR INVALID)" for x :: "16 word"
    by (rule bit_eqI) (auto simp: bit_simps)
  have slots: "\<forall>i < sb_size (ssd_sb ?z). slot_ok True (ssd_md ?z i)"
    using assms(4) h(1) 1(2) by (simp add: slot_ok_def md_slot_of_def ucast_state masks)
  have "no_failures ?z" using z by (simp add: no_failures_def)
  from writeback_load_ok [OF this ok _ slots] clean obtain e where
    2: "flashcache_writeback_load ?z = Some (0, e)"
      "e\<lparr>cache := cache ?z, ssd_sb := ssd_sb ?z\<rparr> = load_header2 (ssd_sb ?z) (load_header1 (ssd_sb ?z) ?z)"
      "\<forall>i < csize d. cache e i = loaded True (md_slot_of d i) zero_cacheblock"
    using h(1) 1(2) by auto
  let ?e = "e\<lparr>cache := cache ?z, ssd_sb := ssd_sb ?z\<rparr>"
  have "csize ?e = csize d" "assoc ?e = assoc d" "block_size ?e = block_size d"
    "md_block_size ?e = md_block_size d" "disk_assoc ?e = disk_assoc d" "write_only_cache ?e = write_only_cache d"
    unfolding 2(2) using h by (simp_all add: load_header_sel)
  moreover have "\<forall>i < csize d. dbn (cache e i) = dbn (cache d i) \<and>
       state_of e i = state_of d i AND (VALID OR INVALID OR DIRTY) \<and> nr_queued (cache e i) = 0"
    using 2(3) by (simp add: loaded_def md_slot_of_def ucast_state)
  ultimately show ?thesis using 1(1) 2(1) by auto
qed

end
