(* ===== verification/Ctor.thy ===== *)
theory Ctor
  imports System Persist
begin

text \<open>
  What the constructor establishes: the geometry that the other components rely on, the room the
  cache takes on the flash device, and a driver without work, the start of \<open>driver_reach\<close>.
\<close>

section \<open>The parameters\<close>

lemma power_of_two_shift: "power_of_two n \<Longrightarrow> n = 2 ^ lowest_bit n"
proof (induction n rule: lowest_bit.induct)
  case (1 n)
  show ?case
  proof (cases "odd n")
    case True
    then obtain m where "n = Suc (2 * m)" by (auto elim: oddE)
    moreover have "Suc (2 * m) div 2 = m" by presburger
    ultimately have "n = 1" using 1(2) by (auto simp: power_of_two_def and_nat_unfold split: if_splits)
    then show ?thesis by (simp add: lowest_bit.simps)
  next
    case False
    then obtain m where m: "n = 2 * m" by auto
    with 1(2) have "m \<noteq> 0" by (auto simp: power_of_two_def)
    moreover have "n AND (n - 1) = 2 * (m AND (m - 1))"
    proof -
      have "(2 * m - 1) div 2 = m - 1" using \<open>m \<noteq> 0\<close> by presburger
      then show ?thesis using m \<open>m \<noteq> 0\<close> by (simp add: and_nat_unfold [of "2 * m"])
    qed
    ultimately have "power_of_two m" using 1(2) by (simp add: power_of_two_def)
    with 1(1) m False \<open>m \<noteq> 0\<close> show ?thesis by (subst lowest_bit.simps) auto
  qed
qed

lemmas shift_power [simp] = power_of_two_shift [symmetric]

lemma lowest_bit_default: "lowest_bit 8 = 3" "lowest_bit 512 = 9"
  by (simp_all add: lowest_bit.simps)

text \<open>What the checks of the parameters guarantee.\<close>

definition params_ok :: "cache_c \<Rightarrow> bool" where
  "params_ok d \<longleftrightarrow> block_size d = 2 ^ block_shift d \<and> assoc d = 2 ^ assoc_shift d \<and>
     FLASHCACHE_MIN_ASSOC \<le> assoc d \<and> assoc d \<le> FLASHCACHE_MAX_ASSOC \<and>
     (disk_assoc d \<noteq> 0 \<longrightarrow> disk_assoc d = 2 ^ disk_assoc_shift d \<and>
        FLASHCACHE_MIN_DISK_ASSOC \<le> disk_assoc d \<and> disk_assoc d \<le> FLASHCACHE_MAX_DISK_ASSOC) \<and>
     (write_only_cache d = 0 \<or> write_only_cache d = 1 \<and> mode d = FLASHCACHE_WRITE_BACK) \<and>
     (mode d = FLASHCACHE_WRITE_BACK \<longrightarrow> md_block_size d \<noteq> 0 \<and>
        md_block_size d = 2 ^ lowest_bit (md_block_size d) \<and> md_block_size d \<le> FLASHCACHE_MAX_MD_BLOCK_SIZE)"

definition env where
  "env d = (flow d, mode d, kernel d)"

lemma env_params [simp]:
  "env (block_size_update f d) = env d" "env (block_shift_update f d) = env d"
  "env (csize_update f d) = env d" "env (assoc_update f d) = env d"
  "env (assoc_shift_update f d) = env d" "env (disk_assoc_update f d) = env d"
  "env (disk_assoc_shift_update f d) = env d" "env (write_only_cache_update g d) = env d"
  "env (md_block_size_update f d) = env d"
  by (simp_all add: env_def flow_def)

lemmas step_defs = numeric_arg_def block_size_step_def size_step_def assoc_step_def
  disk_assoc_step_def write_only_step_def md_block_size_step_def Let_def

lemmas sum_splits = sum.splits option.splits if_splits

lemma block_size_step_Inr:
  assumes "block_size_step scan argv d = Inr d'" and "block_size d = 0"
  shows "(block_size d' = 2 ^ block_shift d') \<and>
     assoc d' = assoc d \<and> assoc_shift d' = assoc_shift d \<and> disk_assoc d' = disk_assoc d \<and>
      disk_assoc_shift d' = disk_assoc_shift d \<and> write_only_cache d' = write_only_cache d \<and>
      md_block_size d' = md_block_size d \<and> env d' = env d"
  using assms by (auto simp: step_defs DEFAULT_BLOCK_SIZE_def lowest_bit_default split: sum_splits)

lemma size_step_Inr:
  assumes "size_step scan argv d = Inr d'"
  shows "     block_size d' = block_size d \<and> block_shift d' = block_shift d \<and> assoc d' = assoc d \<and>
      assoc_shift d' = assoc_shift d \<and> disk_assoc d' = disk_assoc d \<and>
      disk_assoc_shift d' = disk_assoc_shift d \<and> write_only_cache d' = write_only_cache d \<and>
      md_block_size d' = md_block_size d \<and> env d' = env d"
  using assms by (auto simp: step_defs split: sum_splits)

lemma assoc_step_Inr:
  assumes "assoc_step scan argv d = Inr d'" and "assoc d = 0"
  shows "(assoc d' = 2 ^ assoc_shift d' \<and> FLASHCACHE_MIN_ASSOC \<le> assoc d' \<and> assoc d' \<le> FLASHCACHE_MAX_ASSOC) \<and>
     block_size d' = block_size d \<and> block_shift d' = block_shift d \<and>
      disk_assoc d' = disk_assoc d \<and> disk_assoc_shift d' = disk_assoc_shift d \<and>
      write_only_cache d' = write_only_cache d \<and> md_block_size d' = md_block_size d \<and>
      env d' = env d"
  using assms by (auto simp: step_defs DEFAULT_CACHE_ASSOC_def FLASHCACHE_MIN_ASSOC_def
      FLASHCACHE_MAX_ASSOC_def lowest_bit_default split: sum_splits)

lemma disk_assoc_step_Inr:
  assumes "disk_assoc_step scan argv d = Inr d'" and "disk_assoc d = 0"
  shows "(disk_assoc d' \<noteq> 0 \<longrightarrow> disk_assoc d' = 2 ^ disk_assoc_shift d' \<and>
      FLASHCACHE_MIN_DISK_ASSOC \<le> disk_assoc d' \<and> disk_assoc d' \<le> FLASHCACHE_MAX_DISK_ASSOC) \<and>
     block_size d' = block_size d \<and> block_shift d' = block_shift d \<and> assoc d' = assoc d \<and>
      assoc_shift d' = assoc_shift d \<and> write_only_cache d' = write_only_cache d \<and>
      md_block_size d' = md_block_size d \<and> env d' = env d"
  using assms by (auto simp: step_defs split: sum_splits)

lemma write_only_step_Inr:
  assumes "write_only_step scan argv d = Inr d'" and "write_only_cache d = 0"
  shows "(write_only_cache d' = 0 \<or> write_only_cache d' = 1 \<and> mode d' = FLASHCACHE_WRITE_BACK) \<and>
     block_size d' = block_size d \<and> block_shift d' = block_shift d \<and> assoc d' = assoc d \<and>
      assoc_shift d' = assoc_shift d \<and> disk_assoc d' = disk_assoc d \<and>
      disk_assoc_shift d' = disk_assoc_shift d \<and> md_block_size d' = md_block_size d \<and>
      env d' = env d"
  using assms by (auto simp: step_defs split: sum_splits)

lemma md_block_size_step_Inr:
  assumes "md_block_size_step dbs scan argv d = Inr d'" and "md_block_size d = 0"
  shows "(mode d' = FLASHCACHE_WRITE_BACK \<longrightarrow> md_block_size d' \<noteq> 0 \<and>
      md_block_size d' = 2 ^ lowest_bit (md_block_size d') \<and> md_block_size d' \<le> FLASHCACHE_MAX_MD_BLOCK_SIZE) \<and>
     block_size d' = block_size d \<and> block_shift d' = block_shift d \<and> assoc d' = assoc d \<and>
      assoc_shift d' = assoc_shift d \<and> disk_assoc d' = disk_assoc d \<and>
      disk_assoc_shift d' = disk_assoc_shift d \<and> write_only_cache d' = write_only_cache d \<and>
      env d' = env d"
  using assms by (auto simp: step_defs DEFAULT_MD_BLOCK_SIZE_def
      FLASHCACHE_MAX_MD_BLOCK_SIZE_def lowest_bit_default split: sum_splits)

lemma numeric_arg_Inl: "numeric_arg scan argv n store ok d = Inl e \<Longrightarrow> e = - EINVAL"
  by (auto simp: numeric_arg_def split: sum_splits)

lemma ctr_params_Inl: "ctr_params dbs scan argv d = Inl e \<Longrightarrow> e = - EINVAL"
  by (auto simp: ctr_params_def block_size_step_def size_step_def assoc_step_def disk_assoc_step_def
      write_only_step_def md_block_size_step_def Let_def split: sum.split_asm if_split_asm dest: numeric_arg_Inl)

lemma ctr_params_Inr:
  assumes "ctr_params dbs scan argv d = Inr d'"
    and "block_size d = 0" "assoc d = 0" "disk_assoc d = 0" "write_only_cache d = 0" "md_block_size d = 0"
  shows "params_ok d' \<and> env d' = env d"
proof -
  from assms(1) obtain d1 d2 d3 d4 d5 where s:
    "block_size_step scan argv d = Inr d1" "size_step scan argv d1 = Inr d2"
    "assoc_step scan argv d2 = Inr d3" "disk_assoc_step scan argv d3 = Inr d4"
    "write_only_step scan argv d4 = Inr d5" "md_block_size_step dbs scan argv d5 = Inr d'"
    by (auto simp: ctr_params_def split: sum.splits)
  note 1 = block_size_step_Inr [OF s(1) assms(2)] and 2 = size_step_Inr [OF s(2)]
  from 1 2 assms(3) have "assoc d2 = 0" by simp
  note 3 = assoc_step_Inr [OF s(3) this]
  from 1 2 3 assms(4) have "disk_assoc d3 = 0" by simp
  note 4 = disk_assoc_step_Inr [OF s(4) this]
  from 1 2 3 4 assms(5) have "write_only_cache d4 = 0" by simp
  note 5 = write_only_step_Inr [OF s(5) this]
  from 1 2 3 4 5 assms(6) have "md_block_size d5 = 0" by simp
  note 6 = md_block_size_step_Inr [OF s(6) this]
  have "mode d' = mode d5" using 6 by (simp add: env_def)
  with 1 2 3 4 5 6 show ?thesis unfolding params_ok_def by metis
qed

section \<open>Creating the table\<close>

lemma md_flush_view [simp]: "view (io_dmc (md_flush cnt buf s)) = view (io_dmc s)"
  "kernel (io_dmc (md_flush cnt buf s)) = kernel (sync_next (io_dmc s))"
  by (simp_all add: md_flush_def Let_def)

lemma md_store_loop_view:
  "md_store_loop abort is buf s = (buf', s') \<Longrightarrow>
     view (io_dmc s') = view (io_dmc s) \<and> ssd_nr_sects (kernel (io_dmc s')) = ssd_nr_sects (kernel (io_dmc s))"
  by (induction "is" arbitrary: buf s) (auto simp: Let_def sync_next_def split: if_splits)

lemma md_store_all_view:
  assumes "md_store_all abort d = Some (e, d')"
  shows "view d' = view d \<and> ssd_nr_sects (kernel d') = ssd_nr_sects (kernel d)"
proof -
  let ?s = "\<lparr>io_sector = md_block_size d, io_sectors = 0, io_errors = 0, io_dmc = d\<rparr>"
  obtain buf s where l: "md_store_loop abort [0..<csize d] [] ?s = (buf, s)" by force
  from assms have "\<exists>cnt. d' = io_dmc s \<or> d' = io_dmc (md_flush cnt buf s)"
    by (auto simp: md_store_all_def l Let_def split: if_splits)
  with md_store_loop_view [OF l] show ?thesis by (auto simp: sync_next_def)
qed

text \<open>The cache fits on the device; \<open>md\<close> sectors hold the metadata.\<close>

definition fits :: "cache_c \<Rightarrow> bool" where
  "fits d \<longleftrightarrow> assoc d dvd csize d \<and>
     (if mode d = FLASHCACHE_WRITE_BACK then md_blocks d * md_block_size d else 0) + csize d * block_size d
       \<le> ssd_nr_sects (kernel d)"

lemma fits_view:
  "view d' = view d \<Longrightarrow> ssd_nr_sects (kernel d') = ssd_nr_sects (kernel d) \<Longrightarrow> fits d' = fits d"
  by (simp add: fits_def view_def shape_def)

lemma fits_fields [simp]:
  "fits (sync_next d) = fits d" "fits (alloc_next d) = fits d" "fits (cache_update f d) = fits d"
  "fits (on_ssd_version_update g d) = fits d" "fits (ssd_sb_update h d) = fits d"
  by (simp_all add: fits_def sync_next_def alloc_next_def)

lemma writethrough_create_fits:
  assumes "flashcache_writethrough_create d = (0, d')" and "mode d \<noteq> FLASHCACHE_WRITE_BACK"
  shows "fits d'"
  using assms by (auto simp: flashcache_writethrough_create_def Let_def fits_def alloc_next_def split: if_splits)

text \<open>What creating a cache keeps of the parameters and the driver.\<close>

definition basis where
  "basis d = (block_size d, block_shift d, assoc d, assoc_shift d, mode d, flow d, ssd_nr_sects (kernel d))"

lemma basis_view:
  "view d' = view d \<Longrightarrow> ssd_nr_sects (kernel d') = ssd_nr_sects (kernel d) \<Longrightarrow> basis d' = basis d"
  by (simp add: basis_def view_def shape_def)

lemma basis_fields [simp]:
  "basis (csize_update f d) = basis d" "basis (md_blocks_update f d) = basis d"
  "basis (cache_update g d) = basis d" "basis (on_ssd_version_update h d) = basis d"
  "basis (ssd_sb_update k d) = basis d" "basis (alloc_next d) = basis d" "basis (sync_next d) = basis d"
  by (simp_all add: basis_def flow_def alloc_next_def sync_next_def)

lemma writethrough_create_basis: "flashcache_writethrough_create d = (r, d') \<Longrightarrow> basis d' = basis d"
  by (auto simp: flashcache_writethrough_create_def Let_def split: if_splits)

lemma size_cache_basis [simp]: "basis (size_cache d) = basis d"
  by (simp add: size_cache_def Let_def)

lemma create_on_ssd_ok:
  assumes "create_on_ssd h d = Some (r, d')"
  shows "basis d' = basis d \<and> (fits d \<longrightarrow> fits d')"
proof -
  from assms obtain e d1 where 1: "md_store_all True d = Some (e, d1)"
    and 2: "d' = d1 \<or> d' = sync_next (d1\<lparr>on_ssd_version := FLASHCACHE_VERSION\<rparr>) \<or>
      (\<exists>h. d' = (sync_next (d1\<lparr>on_ssd_version := FLASHCACHE_VERSION\<rparr>))\<lparr>ssd_sb := h\<rparr>)"
    unfolding create_on_ssd_def write_header_def Let_def
    by (auto split: if_splits elim!: bindE) blast+
  have "basis d1 = basis d" "fits d1 = fits d"
    using md_store_all_view [OF 1] basis_view [of d1 d] fits_view [of d1 d] by simp_all
  with 2 show ?thesis
    by auto
qed

lemma writeback_create_ok:
  assumes "flashcache_writeback_create force d = Some (r, d')" and "mode d = FLASHCACHE_WRITE_BACK"
  shows "basis d' = basis d \<and> (r = 0 \<longrightarrow> fits d')"
proof -
  define d1 where "d1 = sync_next (alloc_next d)"
  define d2 where "d2 = size_cache d1"
  define d3 where "d3 = alloc_next ((alloc_next d2)\<lparr>cache := (\<lambda>_. invalid_cacheblock)\<rparr>)"
  have b: "basis d1 = basis d" "basis d2 = basis d" "basis d3 = basis d" "basis (alloc_next d2) = basis d"
    by (simp_all add: d1_def d2_def d3_def)
  note main = assms(1) [unfolded flashcache_writeback_create_def Let_def, folded d1_def, folded d2_def, folded d3_def]
  show ?thesis
  proof (cases "create_on_ssd (ssd_sb (alloc_next d)) d3 = Some (r, d') \<and>
      \<not> ssd_nr_sects (kernel d2) < md_blocks d2 * md_block_size d2 + csize d2 * block_size d2")
    case True
    moreover have "mode d2 = FLASHCACHE_WRITE_BACK" "assoc d2 dvd csize d2"
      using b(2) assms(2) by (simp_all add: basis_def) (simp add: d2_def size_cache_def Let_def)
    ultimately have "fits d3" by (simp add: d3_def) (simp add: fits_def)
    with True create_on_ssd_ok b(3) show ?thesis by metis
  next
    case False
    let ?full = "ssd_nr_sects (kernel d2) < md_blocks d2 * md_block_size d2 + csize d2 * block_size d2"
    have "d' \<in> {alloc_next d, d1, d2, alloc_next d2, d3} \<and> r = 1"
    proof (cases "\<not> alloc_ok d \<or> sync_error (alloc_next d) \<noteq> 0 \<or>
        \<not> force \<and> valid_sb_state (cache_sb_state (ssd_sb (alloc_next d))) \<or> ?full")
      case True
      with main show ?thesis by (elim disjE) (simp_all split: if_split_asm)
    next
      case ok: False
      with False main show ?thesis by (simp split: if_split_asm)
    qed
    with b show ?thesis by auto
  qed
qed

section \<open>The initialisation\<close>

lemma fold_view: "(\<And>x e. view (f x e) = view e) \<Longrightarrow> view (fold f xs d) = view d"
  by (induction xs arbitrary: d) simp_all

lemma init_views [simp]:
  "view (fold init_set xs d) = view d" "view (flashcache_hash_init d) = view d"
  "view (flashcache_diskclean_destroy d) = view d"
  by (simp_all add: fold_view init_set_def flashcache_hash_init_def flashcache_diskclean_destroy_def)

lemma lru_init_block_view: "lru_init_block st i d = Some d' \<Longrightarrow> view d' = view d"
  by (auto simp: lru_init_block_def dest: reclaim_lru_view)

lemma lru_init_view: "flashcache_reclaim_init_lru_lists d = Some d' \<Longrightarrow> view d' = view d"
  unfolding flashcache_reclaim_init_lru_lists_def
  by (erule for_each_view)
    (auto simp: lru_init_set_def Let_def elim!: bindE dest!: for_each_view intro: lru_init_block_view)

lemma diskclean_init_view: "flashcache_diskclean_init d = (r, d') \<Longrightarrow> view d' = view d"
proof -
  have "view (snd (diskclean_init_loop xs e)) = view e" for xs e
    by (induction xs arbitrary: e) simp_all
  from this [of "[0..<NUM_DISKCLEAN_BLOCKS]" "d\<lparr>diskclean_bufs := []\<rparr>"]
  show "flashcache_diskclean_init d = (r, d') \<Longrightarrow> view d' = view d"
    by (auto simp: flashcache_diskclean_init_def split: prod.splits)
qed

lemma init_seq_io_view: "init_seq_io i d = Some d' \<Longrightarrow> view d' = view d"
  by (auto simp: init_seq_io_def dest: seq_move_view)

lemma init_block_view: "init_block i d = Some d' \<Longrightarrow> view d' = view d"
  unfolding init_block_def Let_def
  by (auto elim!: bindE split: if_splits dest!: hash_insert_view invalid_insert_view)

lemma pfd_cache_add_view [simp]: "view (pfd_cache_add fresh d) = view d"
  by (simp add: pfd_cache_add_def init_pfd_cache_def Let_def split: option.split prod.split)

lemma init_counters_view: "pending_jobs_count d = 0 \<Longrightarrow> view (init_counters d) = view d"
  by (simp add: init_counters_def Let_def view_defs)

lemma idle_flow: "flow d' = flow d \<Longrightarrow> idle d' = idle d"
  by (simp add: flow_def idle_def active_jobs_def)

lemma idle_md_blocks:
  assumes "idle d"
  shows "(\<lambda>i. if i < n then zero_cache_md_block_head else md_blocks_buf d i) = md_blocks_buf d"
proof
  fix i
  have "nr_in_prog (md_blocks_buf d i) = 0" "waiting (md_blocks_buf d i) = []"
    using assms by (simp_all add: idle_def)
  then show "(if i < n then zero_cache_md_block_head else md_blocks_buf d i) = md_blocks_buf d i"
    by (cases "md_blocks_buf d i") (simp add: zero_cache_md_block_head_def waiting_def)
qed

lemma init_tables_view: "init_tables d = Some d' \<Longrightarrow> view d' = view d"
  by (auto simp: init_tables_def elim!: bindE dest!: for_each_view intro: init_block_view init_seq_io_view)

lemma ctr_init_view:
  assumes "ctr_init table fresh d = Some (r, d')" and "idle d"
  shows "view d' = view (d\<lparr>num_sets := csize d div 2 ^ assoc_shift d\<rparr>)"
proof -
  define e where "e = d\<lparr>num_sets := csize d div 2 ^ assoc_shift d\<rparr>"
  define e1 where "e1 = fold init_set [0..<num_sets (alloc_next e)] (alloc_next e)"
  have v1: "view e1 = view e" by (simp add: e1_def)
  note main = assms(1) [unfolded ctr_init_def Let_def, folded e_def, folded e1_def]
  show ?thesis
  proof (cases "alloc_ok e")
    case False
    with main show ?thesis unfolding e_def [symmetric] by auto
  next
    case True
    with main obtain e2 where
      2: "flashcache_reclaim_init_lru_lists (e1\<lparr>hot_list_pct := FLASHCACHE_LRU_HOT_PCT_DEFAULT\<rparr>) = Some e2"
      by (auto elim!: bindE)
    obtain r3 e3 where 3: "flashcache_diskclean_init (flashcache_hash_init e2) = (r3, e3)" by force
    have v3: "view e3 = view e"
      using diskclean_init_view [OF 3] lru_init_view [OF 2] v1 by simp
    have i3: "idle e3" 
      using idle_flow [of e3 d] v3 assms(2) by (simp add: view_def e_def flow_def)
    note m = idle_md_blocks [OF i3]
    define e4 where "e4 = (if mode e3 = FLASHCACHE_WRITE_BACK then alloc_next e3 else e3)"
    define e5 where "e5 = (if mode e4 = FLASHCACHE_WRITE_BACK
      then e4\<lparr>md_blocks_buf := (\<lambda>i. if i < md_blocks e4 - 1 then zero_cache_md_block_head
                               else md_blocks_buf e4 i)\<rparr> else e4)"
    have v4: "view e4 = view e3" by (simp add: e4_def)
    have "idle e4" using idle_flow [of e4 e3] v4 i3 by (simp add: view_def)
    from idle_md_blocks [OF this] have v5: "view e5 = view e4" by (simp add: e5_def)
    have "pending_jobs_count e5 = 0"
      using idle_flow [of e5 e4] v5 \<open>idle e4\<close> by (simp add: view_def idle_def)
    note v6 = init_counters_view [OF this]
    from main True 2 have "d' \<in> {e3, flashcache_diskclean_destroy e4} \<or>
        (\<exists>e7. init_tables (init_counters e5) = Some e7 \<and>
          d' = pfd_cache_add fresh (e7\<lparr>whitelist := [], blacklist := [], num_whitelist_pids := 0, num_blacklist_pids := 0\<rparr>))"
      by (auto simp: 3 e5_def e4_def cong: if_cong split: if_split_asm elim!: bindE)
    then have "view d' = view e" using init_tables_view v3 v4 v5 v6 by fastforce
    then show ?thesis by (simp add: e_def)
  qed
qed

lemma ctr_create_ok:
  assumes "ctr_create p d = Some (r, table, d')"
  shows "basis d' = basis d \<and> (r = 0 \<and> (table \<or> csize d' = 0) \<longrightarrow> fits d')"
proof (cases "mode d = FLASHCACHE_WRITE_BACK")
  case True
  with assms obtain r' where "flashcache_writeback_create (p \<noteq> CACHE_CREATE) d = Some (r', d')"
    "r = (if r' \<noteq> 0 then - EINVAL else 0)"
    by (auto simp: ctr_create_def elim!: bindE)
  with writeback_create_ok [OF this(1) True] show ?thesis by (auto simp: EINVAL_def)
next
  case False
  with assms have c: "flashcache_writethrough_create d = (if table then 0 else fst (flashcache_writethrough_create d), d')"
    by (auto simp: ctr_create_def split: prod.splits)
  have b: "basis d' = basis d" by (rule writethrough_create_basis [OF c])
  moreover have "fits d'" if "table" using writethrough_create_fits [OF _ False] c that by simp
  moreover have "fits d'" if "csize d' = 0"
    using that b False by (simp add: fits_def basis_def)
  ultimately show ?thesis by blast
qed

lemma ctr_init_table: "ctr_init table fresh d = Some (0, d') \<Longrightarrow> table \<or> csize d = 0"
proof -
  have c: "view e' = view e \<Longrightarrow> csize e' = csize e" for e e' :: cache_c by (simp add: view_def shape_def)
  have "csize (fold init_set xs e) = csize e" for xs e by (rule c) simp
  then show "ctr_init table fresh d = Some (0, d') \<Longrightarrow> table \<or> csize d = 0"
    by (auto simp: ctr_init_def Let_def ENOMEM_def alloc_next_def split: if_split_asm)
qed

text \<open>
  The constructor on the zeroed structure, other than for a reload: when it succeeds, the driver has
  no work, its geometry is well formed and the cache fits on the flash device.
\<close>

lemma ctr_ok:
  assumes "flashcache_ctr dbs scan fresh argv (zero_cache_c k) = Some (0, d)"
    and m: "Option.bind (scan (argv ! 3)) mode_arg = Some m"
    and "persistence_arg scan argv m \<noteq> Some CACHE_RELOAD"
  shows "idle d \<and> geometry d \<and> mode d = m \<and>
    (if m = FLASHCACHE_WRITE_BACK then md_blocks d * md_block_size d else 0) + csize d * block_size d
      \<le> ssd_nr_sects k"
proof -
  define z where "z = (zero_cache_c k)\<lparr>disk_devname := strncpy (argv ! 0), dm_vdevname := argv ! 2,
      nr_jobs := 0, remove_in_prog := 0, mode := m\<rparr>"
  have z: "idle z" "block_size z = 0" "assoc z = 0" "disk_assoc z = 0"
    "write_only_cache z = 0" "md_block_size z = 0" "mode z = m" "kernel z = k"
    by (simp_all add: z_def zero_cache_c_def idle_def active_jobs_def zero_cache_md_block_head_def waiting_def)
  from assms(1) have "3 < length argv"
    by (simp add: flashcache_ctr_def EINVAL_def split: if_split_asm)
  with assms(1) have "(case persistence_arg scan argv m of
          None \<Rightarrow> Some (- EINVAL, z)
        | Some persistence \<Rightarrow>
          if m = FLASHCACHE_WRITE_BACK \<and> persistence = CACHE_RELOAD
          then do {
            (r, d) \<leftarrow> flashcache_writeback_load z;
            if r \<noteq> 0 then Some (- EINVAL, d) else ctr_init True fresh d
          }
          else (case ctr_params dbs scan argv z of
              Inl e \<Rightarrow> Some (e, z)
            | Inr d \<Rightarrow> do {
                (r, table, d) \<leftarrow> ctr_create persistence d;
                if r \<noteq> 0 then Some (r, d) else ctr_init table fresh d
              })) = Some (0, d)"
    unfolding flashcache_ctr_def Let_def m z_def by simp
  with assms(3) obtain d1 r2 table d2 p where 1: "ctr_params dbs scan argv z = Inr d1"
    and 2: "ctr_create p d1 = Some (0, table, d2)" and 3: "ctr_init table fresh d2 = Some (0, d)"
    by (auto simp: EINVAL_def split: option.split_asm sum.split_asm if_split_asm elim!: bindE dest: ctr_params_Inl)
  note p1 = ctr_params_Inr [OF 1 z(2-6)] and c = ctr_create_ok [OF 2] and t = ctr_init_table [OF 3]
  from p1 c have "flow d2 = flow z" by (simp add: env_def basis_def)
  then have "idle d2" using idle_flow z(1) by blast
  note v = ctr_init_view [OF 3 this]
  have "idle d" using idle_flow [of d d2] v \<open>idle d2\<close> by (simp add: view_def flow_def)
  moreover have "params_ok d1" "basis d2 = basis d1" "fits d2" "ssd_nr_sects (kernel d1) = ssd_nr_sects k"
    "mode d1 = m"
    using p1 c t z(7,8) by (simp_all add: env_def)
  ultimately show ?thesis using v
    by (auto simp: geometry_def view_def shape_def params_ok_def basis_def fits_def FLASHCACHE_MIN_ASSOC_def)
qed

end
