(* ===== verification/Search.thy ===== *)
theory Search
  imports Lookup
begin

text \<open>
  \<open>flashcache_lookup\<close> under the invariants of a set: the hash and the invalid list, the replacement
  lists, the FIFO pointer and the count of fallow blocks. It answers with the block that holds the
  disk block, else with a free block, else with a clean idle one, and keeps the invariants.
\<close>

definition fallow_blocks :: "cache_c \<Rightarrow> nat \<Rightarrow> nat set" where
  "fallow_blocks d s = {x. x < assoc d \<and> cache_state (blk d s x) AND DIRTY_FALLOW_2 \<noteq> 0}"

definition cset_inv :: "cache_c \<Rightarrow> nat \<Rightarrow> (nat \<Rightarrow> nat list) \<Rightarrow> nat list \<Rightarrow> (bool \<Rightarrow> nat list) \<Rightarrow> bool" where
  "cset_inv d s ch iv q \<longleftrightarrow> geometry d \<and> s < num_sets d \<and> set_hash_inv d s ch iv \<and> unique_dbns d s ch \<and>
     lru_inv d s q \<and> set (q True) \<union> set (q False) = {..<assoc d} \<and>
     dirty_fallow (cache_sets d s) = card (fallow_blocks d s) \<and>
     set_fifo_next (cache_sets d s) div assoc d = s"

lemma cset_invD:
  assumes "cset_inv d s ch iv q"
  shows "geometry d" "s < num_sets d" "set_hash_inv d s ch iv" "unique_dbns d s ch" "lru_inv d s q"
    "set (q True) \<union> set (q False) = {..<assoc d}" "dirty_fallow (cache_sets d s) = card (fallow_blocks d s)"
    "set_fifo_next (cache_sets d s) div assoc d = s"
  using assms by (simp_all add: cset_inv_def)

lemma finite_fallow [simp]: "finite (fallow_blocks d s)"
  by (simp add: fallow_blocks_def)

lemma lru_inv_distinct:
  assumes "lru_inv d s q"
  shows "distinct (q True)" "distinct (q False)" "set (q True) \<inter> set (q False) = {}"
  using lru_listD(6) [OF assms] lru_other_list [OF assms] by (simp_all add: disjoint_iff)

text \<open>The invariant along the operations on the lists.\<close>

lemma cset_inv_lru:
  assumes inv: "cset_inv d s ch iv q" and st: "lru_step s d q d' q'"
    and q: "set (q' True) \<union> set (q' False) = set (q True) \<union> set (q False)"
  shows "cset_inv d' s ch iv q'"
proof -
  note i = cset_invD [OF inv] and f = lru_stepD(1) [OF st]
  note same = lru_frame_same [OF f]
  note b = lru_frame_blk [OF f]
  note t = lru_frame_sets [OF f]
  have "set_lru_only (cache_sets d s) (cache_sets d' s)" using f by (simp add: lru_frame_def)
  note df = set_lru_only_D(5) [OF this]
  have "unique_dbns d' s ch" using i(4) by (simp add: unique_dbns_def same b)
  moreover have "fallow_blocks d' s = fallow_blocks d s" by (simp add: fallow_blocks_def same b)
  ultimately show ?thesis
    using i lru_stepD(2) [OF st] lru_frame_hash [OF f i(3)] lru_frame_geometry [OF f] q
    by (simp add: cset_inv_def same t df)
qed

lemma cset_inv_hash:
  assumes inv: "cset_inv d s ch iv q" and f: "hash_frame s d d'" and h: "set_hash_inv d' s ch iv'"
  shows "cset_inv d' s ch iv' q"
proof -
  note i = cset_invD [OF inv]
  note same = hash_frame_same [OF f]
  have t: "set_heads_only (cache_sets d t) (cache_sets d' t)" for t using f by (simp add: hash_frame_def)
  have sets: "list_head w (cache_sets d' t) = list_head w (cache_sets d t)"
    "list_tail w (cache_sets d' t) = list_tail w (cache_sets d t)"
    "list_blocks w (cache_sets d' t) = list_blocks w (cache_sets d t)"
    "set_fifo_next (cache_sets d' t) = set_fifo_next (cache_sets d t)"
    "dirty_fallow (cache_sets d' t) = dirty_fallow (cache_sets d t)" for w t
    using t [of t] by (cases "cache_sets d t", cases "cache_sets d' t",
        simp add: set_heads_only_def list_head_def list_tail_def list_blocks_def)+
  have "fallow_blocks d' s = fallow_blocks d s" by (simp add: fallow_blocks_def same hash_frame_blk [OF f])
  moreover have "lru_inv d' s q"
    using i(5) by (simp add: lru_inv_def lru_list_def sets same hash_frame_blk [OF f])
  ultimately show ?thesis
    using i h geometry_frame [OF f] unique_dbns_frame [OF f] by (simp add: cset_inv_def same sets)
qed

text \<open>The bits of a fallow block.\<close>

lemma clear_fallow_inv:
  assumes inv: "cset_inv d s ch iv q" and x: "x < assoc d"
  shows "\<exists>d'. flashcache_clear_fallow (s * assoc d + x) d = Some d' \<and> cset_inv d' s ch iv q \<and>
    assoc d' = assoc d"
proof -
  let ?i = "s * assoc d + x" and ?F = "fallow_blocks d s"
  note i = cset_invD [OF inv]
  define st where "st = state_of d ?i AND NOT FALLOW_DOCLEAN"
  define d1 where "d1 = (if state_of d ?i AND DIRTY_FALLOW_2 \<noteq> 0
    then upd_set s (\<lambda>c. c\<lparr>dirty_fallow := dirty_fallow c - 1\<rparr>) d else d)"
  define d' where "d' = set_state ?i st d1"
  have mem: "x \<in> ?F \<longleftrightarrow> state_of d ?i AND DIRTY_FALLOW_2 \<noteq> 0" using x by (simp add: fallow_blocks_def)
  have pos: "dirty_fallow (cache_sets d s) > 0" if "state_of d ?i AND DIRTY_FALLOW_2 \<noteq> 0"
    using that mem i(7) card_gt_0_iff [of ?F] by auto
  have bits: "st AND VALID = state_of d ?i AND VALID" "st AND INVALID = state_of d ?i AND INVALID"
    "st AND DIRTY_FALLOW_2 = 0" "state_of d ?i = INVALID \<Longrightarrow> st = INVALID"
    by (simp_all add: st_def flag_simps)
  have f: "fallow_blocks d' s = ?F - {x}"
    using x bits(3) by (auto simp: fallow_blocks_def d'_def d1_def)
  have blk: "cache d' j = (cache d j)\<lparr>cache_state := if j = ?i then st else cache_state (cache d j)\<rparr>" for j
    by (simp add: d'_def d1_def set_state_def)
  have same: "assoc d' = assoc d" "num_sets d' = num_sets d" "kernel d' = kernel d" "geometry d' = geometry d"
    by (simp_all add: d'_def d1_def geometry_def)
  have sets: "hash_buckets (cache_sets d' s) = hash_buckets (cache_sets d s)"
    "invalid_head (cache_sets d' s) = invalid_head (cache_sets d s)"
    "set_fifo_next (cache_sets d' s) = set_fifo_next (cache_sets d s)"
    "list_head w (cache_sets d' s) = list_head w (cache_sets d s)"
    "list_tail w (cache_sets d' s) = list_tail w (cache_sets d s)"
    "list_blocks w (cache_sets d' s) = list_blocks w (cache_sets d s)" for w
    by (simp_all add: d'_def d1_def list_head_def list_tail_def list_blocks_def)
  have "dirty_fallow (cache_sets d' s) = card (fallow_blocks d' s)"
  proof -
    have "dirty_fallow (cache_sets d' s) = (if x \<in> ?F then card ?F - 1 else card ?F)"
      unfolding mem by (simp add: d'_def d1_def i(7))
    then show ?thesis unfolding f by (simp add: card_Diff_singleton_if)
  qed
  moreover have "set_hash_inv d' s ch iv"
    by (rule set_hash_inv_frame [OF _ _ _ _ _ _ _ i(3)])
      (use bits in \<open>auto simp: same sets blk hashed_def split: if_splits\<close>)
  moreover have "lru_inv d' s q" using i(5) by (simp add: lru_inv_def lru_list_def same sets blk)
  moreover have "unique_dbns d' s ch" using i(4) by (simp add: unique_dbns_def same blk)
  ultimately have "cset_inv d' s ch iv q" using i by (simp add: cset_inv_def same sets)
  moreover have "flashcache_clear_fallow ?i d = (if mode d = FLASHCACHE_WRITE_BACK \<and>
      state_of d ?i AND FALLOW_DOCLEAN \<noteq> 0 then Some d' else Some d)"
    using pos x by (auto simp: flashcache_clear_fallow_def d'_def d1_def st_def Let_def)
  ultimately show ?thesis using inv same(1) by simp
qed

section \<open>Lookup\<close>

lemma accessed_inv:
  assumes inv: "cset_inv d s ch iv q" and x: "x < assoc d"
  shows "\<exists>d' q'. flashcache_lru_accessed (s * assoc d + x) d = Some d' \<and> cset_inv d' s ch iv q' \<and>
    assoc d' = assoc d \<and> (\<forall>i. state_of d' i = state_of d i)"
proof -
  note i = cset_invD [OF inv]
  have m: "x \<in> set (q True) \<union> set (q False)" using i(6) x by simp
  from lru_accessed [OF i(5,1) m] obtain d' where
    d': "flashcache_lru_accessed (s * assoc d + x) d = Some d'" "lru_step s d q d' (access_spec d s x q)" by blast
  with cset_inv_lru [OF inv d'(2)] access_spec_blocks(1) [OF m lru_inv_distinct [OF i(5)]]
    lru_frame_blk(1) [OF lru_stepD(1) [OF d'(2)]] lru_stepD(4) [OF d'(2)]
  show ?thesis by blast
qed

lemma find_valid_spec:
  assumes inv: "cset_inv d s ch iv q"
  shows "\<exists>d' q'. find_valid_dbn k (assoc d * s) d = Some (index_map d s ch k, d') \<and> cset_inv d' s ch iv q' \<and>
    (index_map d s ch k = None \<longrightarrow> d' = d)"
proof -
  note i = cset_invD [OF inv]
  have a: "assoc d * s div assoc d = s" using i(1) by (simp add: geometry_def)
  note l = hash_lookup_set [OF i(3), of k]
  show ?thesis
  proof (cases "index_map d s ch k")
    case None
    with inv show ?thesis by (auto simp: find_valid_dbn_def a l)
  next
    case (Some j)
    from index_map_SomeD [OF i(3) Some] obtain x where x: "j = s * assoc d + x" "x < assoc d" by blast
    let ?acc = "sysctl_reclaim_policy (sysctl d) = FLASHCACHE_LRU \<and> state_of d j AND BLOCK_IO_INPROG = 0"
    from accessed_inv [OF inv x(2)] inv obtain d1 q1 where
      1: "(if ?acc then flashcache_lru_accessed j d else Some d) = Some d1" "cset_inv d1 s ch iv q1" "assoc d1 = assoc d"
      using x(1) by (cases ?acc) auto
    from clear_fallow_inv [OF 1(2)] x 1(3) obtain d2 where
      "flashcache_clear_fallow j d1 = Some d2" "cset_inv d2 s ch iv q1" by auto
    with 1 Some show ?thesis by (auto simp: find_valid_dbn_def a l)
  qed
qed

lemma find_invalid_spec:
  assumes inv: "cset_inv d s ch iv q"
  shows "case iv of
      [] \<Rightarrow> find_invalid_dbn s d = Some (None, d)
    | x # iv' \<Rightarrow> \<exists>d' q'. find_invalid_dbn s d = Some (Some (s * assoc d + x), d') \<and> cset_inv d' s ch iv' q'"
proof (cases iv)
  case Nil
  with invalid_get_set [OF cset_invD(1-3) [OF inv]] show ?thesis by (simp add: find_invalid_dbn_def)
next
  case (Cons x iv')
  let ?i = "s * assoc d + x"
  note i = cset_invD [OF inv]
  have x: "x < assoc d" "state_of d ?i = INVALID" using set_hash_invD(4) [OF i(3)] Cons by auto
  from invalid_get_set [OF i(1-3)] Cons obtain d1 where
    1: "flashcache_invalid_get s d = Some (Some ?i, d1)" "hash_frame s d d1" "set_hash_inv d1 s ch iv'" by auto
  note inv1 = cset_inv_hash [OF inv 1(2,3)]
  have st: "state_of d1 ?i = INVALID" "assoc d1 = assoc d" 
    using x(2) hash_frame_blk(1) [OF 1(2)] hash_frame_same [OF 1(2)] by simp_all
  let ?acc = "sysctl_reclaim_policy (sysctl d1) = FLASHCACHE_LRU"
  from accessed_inv [OF inv1] x(1) st inv1 obtain d2 q2 where
    2: "(if ?acc then flashcache_lru_accessed ?i d1 else Some d1) = Some d2" "cset_inv d2 s ch iv' q2"
      "state_of d2 ?i = INVALID"
    by (cases ?acc) fastforce+
  have "(INVALID :: 16 word) AND FALLOW_DOCLEAN = 0" by (simp add: flag_simps)
  with 1(1) 2 Cons show ?thesis by (auto simp: find_invalid_dbn_def)
qed

lemma find_reclaim_spec:
  assumes inv: "cset_inv d s ch iv q"
  shows "\<exists>found d' q'. find_reclaim_dbn (assoc d * s) d = Some (found, d') \<and> cset_inv d' s ch iv q' \<and>
    (case found of Some i \<Rightarrow> state_of d i = VALID \<and> i div assoc d = s
     | None \<Rightarrow> \<forall>x < assoc d. state_of d (s * assoc d + x) \<noteq> VALID)"
proof (cases "sysctl_reclaim_policy (sysctl d) = FLASHCACHE_FIFO")
  case True
  note i = cset_invD [OF inv]
  from fifo_get_old_block [OF i(1,8)] obtain found d' n where
    f: "flashcache_reclaim_fifo_get_old_block (s * assoc d) d = Some (found, d')"
      "n div assoc d = s" "d' = upd_set s (\<lambda>c. c\<lparr>set_fifo_next := n\<rparr>) d"
      "case found of Some i \<Rightarrow> state_of d i = VALID \<and> i div assoc d = s
       | None \<Rightarrow> \<forall>x < assoc d. state_of d (s * assoc d + x) \<noteq> VALID" by blast
  have same: "cache d' = cache d" "assoc d' = assoc d" "num_sets d' = num_sets d" "kernel d' = kernel d"
    "geometry d' = geometry d" by (simp_all add: f(3) geometry_def)
  have sets: "hash_buckets (cache_sets d' s) = hash_buckets (cache_sets d s)"
    "invalid_head (cache_sets d' s) = invalid_head (cache_sets d s)"
    "dirty_fallow (cache_sets d' s) = dirty_fallow (cache_sets d s)" "set_fifo_next (cache_sets d' s) = n"
    "list_head w (cache_sets d' s) = list_head w (cache_sets d s)"
    "list_tail w (cache_sets d' s) = list_tail w (cache_sets d s)"
    "list_blocks w (cache_sets d' s) = list_blocks w (cache_sets d s)" for w
    by (simp_all add: f(3) list_head_def list_tail_def list_blocks_def)
  have "set_hash_inv d' s ch iv"
    by (rule set_hash_inv_frame [OF _ _ _ _ _ _ _ i(3)]) (simp_all add: same sets)
  then have "cset_inv d' s ch iv q"
    using i f(2) by (simp add: cset_inv_def same sets lru_inv_def lru_list_def unique_dbns_def fallow_blocks_def)
  with f(1,4) True show ?thesis by (auto simp: find_reclaim_dbn_def mult.commute)
next
  case False
  note i = cset_invD [OF inv]
  let ?P = "\<lambda>x. cache_state (blk d s x) = VALID"
  note sound = old_block_spec_sound [OF lru_inv_distinct [OF i(5)], of ?P]
  from lru_get_old_block [OF i(5,1)] obtain d' where
    d': "flashcache_reclaim_lru_get_old_block (s * assoc d) d =
        Some (map_option (\<lambda>x. s * assoc d + x) (fst (old_block_spec ?P q)), d')"
      "lru_step s d q d' (snd (old_block_spec ?P q))" by blast
  have "cset_inv d' s ch iv (snd (old_block_spec ?P q))" by (rule cset_inv_lru [OF inv d'(2) sound(3)])
  moreover have "case map_option (\<lambda>x. s * assoc d + x) (fst (old_block_spec ?P q)) of
      Some i \<Rightarrow> state_of d i = VALID \<and> i div assoc d = s
    | None \<Rightarrow> \<forall>x < assoc d. state_of d (s * assoc d + x) \<noteq> VALID"
  proof (cases "fst (old_block_spec ?P q)")
    case None
    with sound(2) i(6) show ?thesis by (simp add: Ball_def)
  next
    case (Some x)
    with sound(1) [OF Some] i(6) show ?thesis by auto
  qed
  ultimately show ?thesis using d'(1) False by (auto simp: find_reclaim_dbn_def mult.commute)
qed

lemma cset_inv_noroom:
  assumes "cset_inv d s ch iv q"
  shows "cset_inv (bump noroom_update d) s ch iv q"
proof (rule cset_inv_lru [OF assms])
  have "lru_frame s d (bump noroom_update d)"
    by (simp add: lru_frame_def same_but_lru_def bump_def)
  moreover have "lru_inv (bump noroom_update d) s q" "balanced d q (bump noroom_update d) q"
    using cset_invD(5) [OF assms] by (simp_all add: lru_inv_def lru_list_def balanced_def)
  ultimately show "lru_step s d q (bump noroom_update d) q" by (simp add: lru_step_def)
qed simp

lemma lookup_spec:
  assumes inv: "cset_inv d s ch iv q" and s: "s = hash_block d (bi_sector b)"
  shows "\<exists>r d' iv' q'. flashcache_lookup b d = Some (r, d') \<and> cset_inv d' s ch iv' q' \<and>
    (case index_map d s ch (bi_sector b) of
       Some i \<Rightarrow> r = Hit i \<and> iv' = iv
     | None \<Rightarrow>
        (case iv of
           x # xs \<Rightarrow> r = Victim (s * assoc d + x) \<and> iv' = xs
         | [] \<Rightarrow> iv' = [] \<and>
             (case r of Victim i \<Rightarrow> state_of d i = VALID \<and> i div assoc d = s
              | Noroom \<Rightarrow> \<forall>x < assoc d. state_of d (s * assoc d + x) \<noteq> VALID
              | Hit i \<Rightarrow> False)))"
proof -
  from find_valid_spec [OF inv, of "bi_sector b"] obtain d1 q1 where
    1: "find_valid_dbn (bi_sector b) (assoc d * s) d = Some (index_map d s ch (bi_sector b), d1)"
      "cset_inv d1 s ch iv q1" "index_map d s ch (bi_sector b) = None \<longrightarrow> d1 = d" by (elim exE conjE)
  note run = flashcache_lookup_def [of b d, unfolded Let_def, folded s, unfolded 1(1)]
  show ?thesis
  proof (cases "index_map d s ch (bi_sector b)")
    case (Some i)
    then have "flashcache_lookup b d = Some (Hit i, d1)" by (simp add: run)
    with 1(2) Some show ?thesis by auto
  next
    case None
    with 1 have d1: "d1 = d" by simp
    note f = find_invalid_spec [OF inv]
    show ?thesis
    proof (cases iv)
      case (Cons x xs)
      with f obtain d2 q2 where 2: "find_invalid_dbn s d = Some (Some (s * assoc d + x), d2)" "cset_inv d2 s ch xs q2"
        by auto
      then have "flashcache_lookup b d = Some (Victim (s * assoc d + x), d2)" using None by (simp add: run d1)
      with 2(2) Cons None show ?thesis by auto
    next
      case Nil
      from find_reclaim_spec [OF inv] obtain found d2 q2 where
        2: "find_reclaim_dbn (assoc d * s) d = Some (found, d2)" "cset_inv d2 s ch iv q2"
          "case found of Some i \<Rightarrow> state_of d i = VALID \<and> i div assoc d = s
           | None \<Rightarrow> \<forall>x < assoc d. state_of d (s * assoc d + x) \<noteq> VALID" by blast
      have b: "cset_inv (bump noroom_update d2) s ch iv q2"
        by (rule cset_inv_noroom [OF 2(2)])
      show ?thesis
      proof (cases found)
        case None
        have "flashcache_lookup b d = Some (Noroom, bump noroom_update d2)"
          using f Nil None 2(1) \<open>index_map d s ch (bi_sector b) = None\<close> by (simp add: run d1)
        with 2(3) b Nil None \<open>index_map d s ch (bi_sector b) = None\<close> show ?thesis by auto
      next
        case (Some i)
        have "flashcache_lookup b d = Some (Victim i, d2)"
          using f Nil Some 2(1) None by (simp add: run d1)
        with 2(2,3) Nil Some None show ?thesis by auto
      qed
    qed
  qed
qed

end
