(* ===== verification/Ready.thy ===== *)
theory Ready
  imports Ctor Search
begin

text \<open>
  A created cache is ready for use: every block is on the invalid list of its set, the hash chains
  are empty, the replacement lists split each set by the hot percentage and the FIFO pointer of
  each set is in the set. These are the invariants that the components start from.
\<close>

section \<open>The invalid lists\<close>

text \<open>
  While the loop of the constructor runs, the links of the blocks from \<open>n\<close> on are not initialised.
  \<open>nulled n d\<close> is the driver with these links cleared.
\<close>

definition null_links :: "cacheblock \<Rightarrow> cacheblock" where
  "null_links b = b\<lparr>hash_prev := FLASHCACHE_NULL, hash_next := FLASHCACHE_NULL\<rparr>"

definition nulled :: "nat \<Rightarrow> cache_c \<Rightarrow> cache_c" where
  "nulled n d = d\<lparr>cache := (\<lambda>i. if n \<le> i then null_links (cache d i) else cache d i)\<rparr>"

lemma nulled_sel [simp]:
  "assoc (nulled n d) = assoc d" "csize (nulled n d) = csize d" "num_sets (nulled n d) = num_sets d"
  "cache_sets (nulled n d) = cache_sets d" "kernel (nulled n d) = kernel d"
  "geometry (nulled n d) = geometry d"
  "cache (nulled n d) i = (if n \<le> i then null_links (cache d i) else cache d i)"
  by (simp_all add: nulled_def geometry_def)

lemma null_links_sel [simp]:
  "cache_state (null_links b) = cache_state b" "dbn (null_links b) = dbn b"
  "hash_prev (null_links b) = FLASHCACHE_NULL" "hash_next (null_links b) = FLASHCACHE_NULL"
  by (simp_all add: null_links_def)

lemma nulled_upd:
  "i < n \<Longrightarrow> nulled n (upd_blk i f d) = upd_blk i f (nulled n d)"
  "nulled n (upd_set s g d) = upd_set s g (nulled n d)"
  "nulled (Suc n) (upd_blk n null_links d) = nulled n d"
proof -
  show "nulled n (upd_blk i f d) = upd_blk i f (nulled n d)" if "i < n"
  proof -
    have "(\<lambda>j. if n \<le> j then null_links (cache (upd_blk i f d) j) else cache (upd_blk i f d) j) =
        (cache (nulled n d))(i := f (cache (nulled n d) i))"
      using that by (auto simp: upd_blk_def)
    then show ?thesis by (simp add: nulled_def upd_blk_def cong: if_cong)
  qed
  have "(\<lambda>j. if Suc n \<le> j then null_links (cache (upd_blk n null_links d) j) else cache (upd_blk n null_links d) j) =
      cache (nulled n d)" by (rule ext) (auto simp: upd_blk_def not_less_eq_eq dest!: le_antisym)
  then show "nulled (Suc n) (upd_blk n null_links d) = nulled n d"
    by (simp add: nulled_def upd_blk_def cong: if_cong)
qed (simp add: nulled_def upd_set_def cong: if_cong)

lemma invalid_insert_nulled:
  assumes "i < n" and "invalid_head (cache_sets d (i div assoc d)) \<noteq> FLASHCACHE_NULL \<Longrightarrow>
      i div assoc d * assoc d + invalid_head (cache_sets d (i div assoc d)) < n"
  shows "flashcache_invalid_insert i (nulled n d) = map_option (nulled n) (flashcache_invalid_insert i d)"
  using assms by (simp add: flashcache_invalid_insert_def Let_def bind_verify_if nulled_upd)

text \<open>What the loop changes: hash links of blocks and heads of sets.\<close>

definition hash_only :: "cache_c \<Rightarrow> cache_c \<Rightarrow> bool" where
  "hash_only d d' \<longleftrightarrow> same_but_arrays d d' \<and> (\<forall>i. blk_links_only (cache d i) (cache d' i)) \<and>
     (\<forall>t. set_heads_only (cache_sets d t) (cache_sets d' t))"

lemma hash_only_trans: "hash_only a b \<Longrightarrow> hash_only b c \<Longrightarrow> hash_only a c"
  unfolding hash_only_def by (blast intro: same_but_arrays_trans blk_links_only_trans set_heads_only_trans)

text \<open>The invalid list of set \<open>s\<close> after the blocks below \<open>n\<close>.\<close>

definition freed :: "nat \<Rightarrow> nat \<Rightarrow> nat \<Rightarrow> nat list" where
  "freed a n s = rev [0..<min a (n - s * a)]"

definition init_upto :: "nat \<Rightarrow> cache_c \<Rightarrow> cache_c \<Rightarrow> bool" where
  "init_upto n d0 d \<longleftrightarrow> hash_only d0 d \<and>
     (\<forall>s < num_sets d. set_hash_inv (nulled n d) s (\<lambda>_. []) (freed (assoc d) n s))"

lemma freed_Suc:
  assumes "x < a"
  shows "freed a (Suc (s * a + x)) s = x # freed a (s * a + x) s"
    "t \<noteq> s \<Longrightarrow> freed a (Suc (s * a + x)) t = freed a (s * a + x) t"
proof -
  show "freed a (Suc (s * a + x)) s = x # freed a (s * a + x) s"
    using assms by (simp add: freed_def)
  assume "t \<noteq> s"
  then consider "t < s" | "s < t" by linarith
  then show "freed a (Suc (s * a + x)) t = freed a (s * a + x) t"
  proof cases
    case 1
    then have "(Suc t) * a \<le> s * a" by (intro mult_le_mono1) simp
    then show ?thesis by (simp add: freed_def min_def)
  next
    case 2
    then have "(Suc s) * a \<le> t * a" by (intro mult_le_mono1) simp
    then show ?thesis using assms by (simp add: freed_def)
  qed
qed

lemma hash_only_upd:
  "(\<And>b. blk_links_only b (f b)) \<Longrightarrow> hash_only d (upd_blk i f d)"
  "(\<And>c. set_heads_only c (g c)) \<Longrightarrow> hash_only d (upd_set s g d)"
  by (simp_all add: hash_only_def upd_blk_def upd_set_def same_but_arrays_def)

lemma invalid_insert_only:
  assumes "flashcache_invalid_insert i d = Some d'"
  shows "hash_only d d'"
proof -
  define e where "e = upd_blk i (\<lambda>b. b\<lparr>hash_next := invalid_head (cache_sets d (i div assoc d))\<rparr>) d"
  have e: "hash_only d e" unfolding e_def by (rule hash_only_upd) (simp add: blk_links_only_def)
  have f: "hash_only e (upd_blk j (\<lambda>b. b\<lparr>hash_prev := p\<rparr>) e)" for j p
    by (rule hash_only_upd) (simp add: blk_links_only_def)
  have h: "hash_only b (upd_set s (\<lambda>c. c\<lparr>invalid_head := x\<rparr>) b)" for b s x
    by (rule hash_only_upd) (simp add: set_heads_only_def)
  show ?thesis
    using assms hash_only_trans [OF hash_only_trans [OF e f] h] hash_only_trans [OF e h]
    unfolding flashcache_invalid_insert_def Let_def e_def by (auto split: if_splits)
qed

lemma init_block_step:
  assumes u: "init_upto n d0 d" and n: "n < csize d" and g: "geometry d" and st: "state_of d n = INVALID"
  shows "\<exists>d'. init_block n d = Some d' \<and> init_upto (Suc n) d0 d'"
proof -
  let ?a = "assoc d" and ?s = "n div assoc d" and ?x = "n mod assoc d"
  define d1 where "d1 = upd_blk n null_links d"
  have a: "0 < ?a" "csize d = num_sets d * ?a" using g by (simp_all add: geometry_def)
  have ix: "?s * ?a + ?x = n" "?x < ?a" "?s < num_sets d" 
    using a n by (simp_all add: less_mult_imp_div_less)
  have e1: "nulled (Suc n) d1 = nulled n d" by (simp add: d1_def nulled_upd)
  note f = freed_Suc(1) [OF ix(2), of ?s, unfolded ix(1)]
    freed_Suc(2) [OF ix(2), where s = ?s, unfolded ix(1)]
  have inv: "set_hash_inv (nulled (Suc n) d1) s (\<lambda>_. []) (freed ?a n s)" if "s < num_sets d" for s
    using u that by (simp add: init_upto_def e1)
  have fresh: "?x \<notin> set (freed ?a n ?s)" using ix(1) by (simp add: freed_def minus_div_mult_eq_mod)
  have "geometry (nulled (Suc n) d1)" "?s < num_sets (nulled (Suc n) d1)" "?x < assoc (nulled (Suc n) d1)"
    "cache_state (cache (nulled (Suc n) d1) (?s * assoc (nulled (Suc n) d1) + ?x)) = INVALID"
    using g ix st by (simp_all add: e1)
  from invalid_insert_set [OF this(1-3) inv [OF ix(3)] this(4) fresh] obtain D where
    D: "flashcache_invalid_insert n (nulled (Suc n) d1) = Some D" "hash_frame ?s (nulled (Suc n) d1) D"
      "set_hash_inv D ?s (\<lambda>_. []) (?x # freed ?a n ?s)"
    using ix(1) by (auto simp: e1)
  have "?s * ?a + invalid_head (cache_sets d ?s) < Suc n" if "invalid_head (cache_sets d ?s) \<noteq> FLASHCACHE_NULL"
  proof -
    have "linked (nulled n d) ?s (invalid_head (cache_sets d ?s)) (freed ?a n ?s)"
      using set_hash_invD(2) [OF inv [OF ix(3)]] by (simp add: e1)
    from head_in_list [OF this that] show ?thesis by (auto simp: freed_def)
  qed
  then have "flashcache_invalid_insert n (nulled (Suc n) d1) =
      map_option (nulled (Suc n)) (flashcache_invalid_insert n d1)"
    by (intro invalid_insert_nulled) (simp_all add: d1_def)
  with D(1) obtain d' where d': "flashcache_invalid_insert n d1 = Some d'" "D = nulled (Suc n) d'" by auto
  have run: "init_block n d = Some d'"
    using d'(1) st by (simp add: init_block_def Let_def d1_def null_links_def [abs_def] flag_defs)
  have "hash_only d1 d'" by (rule invalid_insert_only [OF d'(1)])
  moreover have "hash_only d d1" by (simp add: hash_only_def d1_def) (simp add: upd_blk_def null_links_def blk_links_only_def)
  moreover have "hash_only d0 d" using u by (simp add: init_upto_def)
  ultimately have ho: "hash_only d0 d'" by (blast intro: hash_only_trans)
  have same: "assoc d' = ?a" "num_sets d' = num_sets d"
    using hash_frame_same [OF D(2)] by (simp_all add: d'(2) e1)
  have "set_hash_inv (nulled (Suc n) d') s (\<lambda>_. []) (freed ?a (Suc n) s)" if "s < num_sets d" for s
    using D(3) hash_frame_other [OF D(2) _ inv [OF that]] f by (cases "s = ?s") (simp_all add: d'(2))
  with ho same run show ?thesis by (simp add: init_upto_def)
qed

lemma set_heads_only_D:
  assumes "set_heads_only c c'"
  shows "list_head w c' = list_head w c" "list_tail w c' = list_tail w c"
    "list_blocks w c' = list_blocks w c" "set_fifo_next c' = set_fifo_next c" "dirty_fallow c' = dirty_fallow c"
  using assms by (cases c, cases c', simp add: set_heads_only_def list_head_def list_tail_def list_blocks_def)+

lemma hash_onlyD:
  assumes "hash_only d d'"
  shows "same_but_arrays d d'" "cache_state (cache d' i) = cache_state (cache d i)"
    "lru_prev (cache d' i) = lru_prev (cache d i)" "lru_next (cache d' i) = lru_next (cache d i)"
    "lru_state (cache d' i) = lru_state (cache d i)" "use_cnt (cache d' i) = use_cnt (cache d i)"
    "list_head w (cache_sets d' t) = list_head w (cache_sets d t)"
    "list_tail w (cache_sets d' t) = list_tail w (cache_sets d t)"
    "list_blocks w (cache_sets d' t) = list_blocks w (cache_sets d t)"
    "set_fifo_next (cache_sets d' t) = set_fifo_next (cache_sets d t)"
    "dirty_fallow (cache_sets d' t) = dirty_fallow (cache_sets d t)"
  using assms unfolding hash_only_def by (simp_all add: blk_links_only_D set_heads_only_D)

lemma init_blocks:
  assumes "init_upto n d0 d" and "geometry d0" and "\<And>i. state_of d0 i = INVALID" and "n \<le> csize d0"
  shows "\<exists>d'. for_each init_block [n..<csize d0] d = Some d' \<and> init_upto (csize d0) d0 d'"
  using assms(1,4)
proof (induction "csize d0 - n" arbitrary: n d)
  case 0
  then show ?case by simp
next
  case (Suc k)
  have ho: "hash_only d0 d" using Suc.prems(1) by (simp add: init_upto_def)
  note same = same_but_arrays_D [OF hash_onlyD(1) [OF ho]]
  have n: "n < csize d" "geometry d" "state_of d n = INVALID"
    using Suc.hyps(2) assms(2,3) hash_onlyD(2) [OF ho] by (simp_all add: same geometry_def)
  from init_block_step [OF Suc.prems(1) n] obtain d1 where
    "init_block n d = Some d1" "init_upto (Suc n) d0 d1" by blast
  with Suc.hyps(1) [of "Suc n" d1] Suc.hyps(2) show ?case by (simp add: upt_conv_Cons)
qed

section \<open>The initialisation\<close>

text \<open>What the invariants depend on.\<close>

definition core where
  "core d = (cache d, cache_sets d, (csize d, assoc d, assoc_shift d, num_sets d, block_size d, block_shift d), kernel d)"

definition set_ready :: "cache_c \<Rightarrow> nat \<Rightarrow> bool" where
  "set_ready d s \<longleftrightarrow> set_hash_inv d s (\<lambda>_. []) (rev [0..<assoc d]) \<and>
     lru_inv d s (init_lists (assoc d * nat FLASHCACHE_LRU_HOT_PCT_DEFAULT div 100) (assoc d)) \<and>
     set_fifo_next (cache_sets d s) = s * assoc d \<and> dirty_fallow (cache_sets d s) = 0 \<and>
     (\<forall>x < assoc d. cache_state (blk d s x) = INVALID)"

lemma ready_cset:
  assumes "set_ready d s" and "geometry d" and "s < num_sets d"
  shows "cset_inv d s (\<lambda>_. []) (rev [0..<assoc d])
    (init_lists (assoc d * nat FLASHCACHE_LRU_HOT_PCT_DEFAULT div 100) (assoc d))"
proof -
  have "fallow_blocks d s = {}"
    using assms(1) by (auto simp: fallow_blocks_def set_ready_def flag_simps)
  moreover have "assoc d * nat FLASHCACHE_LRU_HOT_PCT_DEFAULT div 100 \<le> assoc d"
    by (simp add: FLASHCACHE_LRU_HOT_PCT_DEFAULT_def)
  ultimately show ?thesis
    using assms by (auto simp: cset_inv_def set_ready_def unique_dbns_def init_lists_def geometry_def)
qed

lemma core_ready:
  assumes "core d' = core d"
  shows "set_ready d' s = set_ready d s" "geometry d' = geometry d" "num_sets d' = num_sets d" "csize d' = csize d"
    "kernel d' = kernel d" "cache d' = cache d" "cache_sets d' = cache_sets d" "assoc d' = assoc d"
  using assms
  by (simp_all add: core_def set_ready_def set_hash_inv_def linked_def lru_inv_def lru_list_def
      flashcache_get_hash_bucket_def geometry_def)

lemma core_seq: "\<exists>d'. for_each init_seq_io xs d = Some d' \<and> core d' = core d"
proof (induction xs arbitrary: d)
  case (Cons x xs)
  have "\<exists>d1. init_seq_io x d = Some d1 \<and> core d1 = core d"
    by (simp add: init_seq_io_def seq_io_move_to_lruhead_def upd_seq_def Let_def core_def split: option.split)
  then obtain d1 where "init_seq_io x d = Some d1" "core d1 = core d" by blast
  with Cons.IH [of d1] show ?case by auto
qed simp

lemma core_counters [simp]: "core (init_counters d) = core d"
  by (simp add: init_counters_def Let_def core_def)

lemma core_add: "no_failures d \<Longrightarrow> core (pfd_cache_add fresh d) = core d"
  by (auto simp: pfd_cache_add_def init_pfd_cache_def Let_def core_def alloc_next_def no_failures_def
      split: option.split prod.split)

lemma core_diskclean:
  assumes "no_failures d"
  shows "\<exists>d'. flashcache_diskclean_init d = (0, d') \<and> core d' = core d \<and> mode d' = mode d"
proof -
  have "\<exists>e'. diskclean_init_loop xs e = (True, e') \<and> core e' = core e \<and> mode e' = mode e" if "no_failures e" for xs e
    using that
  proof (induction xs arbitrary: e)
    case (Cons x xs)
    note n = no_failuresD [OF Cons.prems]
    have "no_failures (e\<lparr>diskclean_bufs := x # diskclean_bufs e\<rparr>)"
      using Cons.prems by (simp add: no_failures_def)
    from Cons.IH [OF this] n show ?case by (auto simp: core_def)
  qed simp
  moreover have "no_failures (d\<lparr>diskclean_bufs := []\<rparr>)" using assms by (simp add: no_failures_def)
  ultimately obtain e where "diskclean_init_loop [0..<NUM_DISKCLEAN_BLOCKS] (d\<lparr>diskclean_bufs := []\<rparr>) = (True, e)"
    "core e = core (d\<lparr>diskclean_bufs := []\<rparr>)" "mode e = mode (d\<lparr>diskclean_bufs := []\<rparr>)" by blast
  then show ?thesis by (simp add: flashcache_diskclean_init_def core_def)
qed

lemma hash_only_refl [simp]: "hash_only d d"
  by (simp add: hash_only_def)

lemma hash_init_only: "hash_only d (flashcache_hash_init d)"
proof -
  have "hash_only d (fold (\<lambda>i. upd_set i g) xs d)" if "\<And>c. set_heads_only c (g c)" for g xs
    by (induction xs rule: rev_induct) (auto intro: hash_only_trans hash_only_upd(2) [OF that])
  then show ?thesis
    unfolding flashcache_hash_init_def by (simp add: set_heads_only_def)
qed

lemma nulled_hash_init: "nulled n (flashcache_hash_init d) = flashcache_hash_init (nulled n d)"
proof -
  have "nulled n (fold (\<lambda>i. upd_set i g) xs d) = fold (\<lambda>i. upd_set i g) xs (nulled n d)" for g xs
    by (induction xs rule: rev_induct) (simp_all add: nulled_upd)
  moreover have "assoc_shift (nulled n d) = assoc_shift d" by (simp add: nulled_def)
  ultimately show ?thesis unfolding flashcache_hash_init_def by simp
qed

lemma lru_inv_hash_only:
  assumes "hash_only d d'"
  shows "lru_inv d' s q = lru_inv d s q"
  using same_but_arrays_D [OF hash_onlyD(1) [OF assms]] hash_onlyD [OF assms]
  by (simp add: lru_inv_def lru_list_def)

lemma init_sets:
  defines "i0 \<equiv> \<lambda>d i. zero_cache_set
     \<lparr>set_fifo_next := i * assoc d, set_clean_next := i * assoc d,
      fallow_tstamp := jiffies (kernel d), fallow_next_cleaning := jiffies (kernel d),
      hotlist_lru_tail := FLASHCACHE_NULL, hotlist_lru_head := FLASHCACHE_NULL,
      warmlist_lru_tail := FLASHCACHE_NULL, warmlist_lru_head := FLASHCACHE_NULL\<rparr>"
  shows "same_but_arrays d (fold init_set xs d) \<and> cache (fold init_set xs d) = cache d \<and>
    (\<forall>i \<in> set xs. cache_sets (fold init_set xs d) i = i0 d i)"
proof (induction xs rule: rev_induct)
  case (snoc x xs)
  let ?e = "fold init_set xs d"
  have same: "same_but_arrays d ?e" using snoc by simp
  note s = same_but_arrays_D [OF same]
  have "init_set x ?e = upd_set x (\<lambda>_. i0 d x) ?e" by (simp add: init_set_def i0_def s)
  with snoc show ?case using same_but_arrays_trans [OF same same_but_arrays_upd(2)] by simp
qed simp

lemma freed_all: "s < n \<Longrightarrow> freed a (n * a) s = rev [0..<a]"
proof -
  assume "s < n"
  then have "Suc s * a \<le> n * a" by (intro mult_le_mono1) simp
  then show ?thesis by (simp add: freed_def)
qed

lemma init_upto_ready:
  assumes "init_upto (csize d) d0 d" and g: "geometry d" and s: "s < num_sets d"
  shows "set_hash_inv d s (\<lambda>_. []) (rev [0..<assoc d])"
proof (rule set_hash_inv_frame)
  show "set_hash_inv (nulled (csize d) d) s (\<lambda>_. []) (rev [0..<assoc d])"
  proof -
    have "csize d = num_sets d * assoc d" using g by (simp add: geometry_def)
    then have f: "freed (assoc d) (csize d) s = rev [0..<assoc d]" by (simp only: freed_all [OF s])
    have "set_hash_inv (nulled (csize d) d) s (\<lambda>_. []) (freed (assoc d) (csize d) s)"
      using assms(1) s by (simp add: init_upto_def)
    then show ?thesis by (simp only: f)
  qed
  show "hash_next (blk d s x) = hash_next (blk (nulled (csize d) d) s x) \<and>
      hash_prev (blk d s x) = hash_prev (blk (nulled (csize d) d) s x) \<and>
      dbn (blk d s x) = dbn (blk (nulled (csize d) d) s x)" if "x < assoc (nulled (csize d) d)" for x
    using geometry_index [OF g s, of x] that by simp
  show "hashed (blk d s x)" if "hashed (blk (nulled (csize d) d) s x)" for x
    using that by (simp add: hashed_def split: if_splits)
  show "cache_state (blk d s x) = INVALID" if "cache_state (blk (nulled (csize d) d) s x) = INVALID" for x
    using that by (simp split: if_splits)
qed simp_all

lemma init_tables_ready:
  assumes g: "geometry d" and inv: "\<And>i. state_of d i = INVALID"
    and hash: "\<And>s. s < num_sets d \<Longrightarrow> set_hash_inv (nulled 0 d) s (\<lambda>_. []) []"
    and lru: "\<And>s. s < num_sets d \<Longrightarrow>
      lru_inv d s (init_lists (assoc d * nat FLASHCACHE_LRU_HOT_PCT_DEFAULT div 100) (assoc d))"
    and fifo: "\<And>s. s < num_sets d \<Longrightarrow>
      set_fifo_next (cache_sets d s) = s * assoc d \<and> dirty_fallow (cache_sets d s) = 0"
  shows "\<exists>d'. init_tables d = Some d' \<and> geometry d' \<and> num_sets d' = num_sets d \<and> assoc d' = assoc d \<and>
    kernel d' = kernel d \<and> (\<forall>s < num_sets d'. set_ready d' s)"
proof -
  from core_seq obtain d1 where 1: "for_each init_seq_io [0..<SEQUENTIAL_TRACKER_QUEUE_DEPTH] d = Some d1"
    "core d1 = core d" by blast
  define d2 where "d2 = d1\<lparr>seq_io_tail := Some 0\<rparr>"
  have "core d2 = core d" using 1(2) by (simp add: d2_def core_def)
  note c = core_ready [OF this]
  have n0: "set_hash_inv (nulled 0 d2) s ch iv = set_hash_inv (nulled 0 d) s ch iv" for s ch iv
    by (simp add: set_hash_inv_def linked_def c flashcache_get_hash_bucket_def)
  have "init_upto 0 d2 d2" using hash by (simp add: init_upto_def n0 freed_def c)
  moreover have "geometry d2" "\<And>i. state_of d2 i = INVALID" using g inv by (simp_all add: c)
  ultimately obtain d3 where 3: "for_each init_block [0..<csize d2] d2 = Some d3" "init_upto (csize d2) d2 d3"
    using init_blocks [of 0 d2 d2] by blast
  have ho: "hash_only d2 d3" using 3(2) by (simp add: init_upto_def)
  note s = same_but_arrays_D [OF hash_onlyD(1) [OF ho]]
  have g3: "geometry d3" using g c(2) by (simp add: geometry_def s)
  have "set_ready d3 s" if "s < num_sets d3" for s
  proof -
    have "lru_inv d2 t q = lru_inv d t q" for t q by (simp add: lru_inv_def lru_list_def c)
    then show ?thesis
      using init_upto_ready [OF _ g3 that, of d2] 3(2) lru_inv_hash_only [OF ho] lru [of s] fifo [of s] that
        hash_onlyD(2,10,11) [OF ho] inv
      by (simp add: set_ready_def s c)
  qed
  then show ?thesis using 1 3 g3 core_ready(4) [OF 1(2)]
    by (intro exI [of _ d3]) (simp add: init_tables_def s c flip: d2_def)
qed

lemma lru_empty_init:
  assumes "cache d = (\<lambda>_. invalid_cacheblock)" and "xs = [0..<num_sets d]" and "s < num_sets d"
  shows "lru_empty ((fold init_set xs d)\<lparr>hot_list_pct := p\<rparr>) s"
  using init_sets [of d xs] assms
  by (simp add: lru_empty_def lru_inv_def lru_list_def list_head_def list_tail_def list_blocks_def
      zero_cache_set_def invalid_cacheblock_def zero_cacheblock_def)

text \<open>The constructor from the label \<open>init\<close> on, when no allocation fails.\<close>

definition created :: "cache_c \<Rightarrow> bool" where
  "created d \<longleftrightarrow> 0 < assoc d \<and> assoc d \<le> FLASHCACHE_MAX_ASSOC \<and> assoc d = 2 ^ assoc_shift d \<and>
     block_size d = 2 ^ block_shift d \<and> assoc d dvd csize d \<and> cache d = (\<lambda>_. invalid_cacheblock)"

lemma ctr_init_ready:
  assumes "no_failures d" and c: "created d"
  shows "\<exists>d'. ctr_init True fresh d = Some (0, d') \<and> geometry d' \<and> csize d' = csize d \<and> assoc d' = assoc d \<and>
    (\<forall>s < num_sets d'. set_ready d' s)"
proof -
  define e where "e = d\<lparr>num_sets := csize d div 2 ^ assoc_shift d\<rparr>"
  have e: "cache e = (\<lambda>_. invalid_cacheblock)" "geometry e" "no_failures e"
    using c assms(1) by (auto simp: e_def created_def geometry_def no_failures_def)
  note n = no_failuresD [OF e(3)]
  define e1 where "e1 = (fold init_set [0..<num_sets e] e)\<lparr>hot_list_pct := FLASHCACHE_LRU_HOT_PCT_DEFAULT\<rparr>"
  have i: "same_but_arrays e (fold init_set [0..<num_sets e] e)" "cache (fold init_set [0..<num_sets e] e) = cache e"
    "\<forall>s < num_sets e. set_fifo_next (cache_sets (fold init_set [0..<num_sets e] e) s) = s * assoc e \<and>
       dirty_fallow (cache_sets (fold init_set [0..<num_sets e] e) s) = 0"
    using init_sets [of e "[0..<num_sets e]"] by (simp_all add: zero_cache_set_def)
  note f = same_but_arrays_D [OF i(1)]
  have s1: "cache e1 = (\<lambda>_. invalid_cacheblock)" "geometry e1" "no_failures e1" "num_sets e1 = num_sets e"
    "\<forall>s < num_sets e1. set_fifo_next (cache_sets e1 s) = s * assoc e1 \<and> dirty_fallow (cache_sets e1 s) = 0" "kernel e1 = kernel e"
    "assoc e1 = assoc e"
    using e i(2,3) by (simp_all add: e1_def geometry_def no_failures_def f)
  have "\<forall>s < num_sets e1. lru_empty e1 s" using lru_empty_init [OF e(1) refl] s1(4) by (simp add: e1_def)
  moreover have "hot_list_pct e1 = FLASHCACHE_LRU_HOT_PCT_DEFAULT" by (simp add: e1_def)
  ultimately obtain e2 where 2: "flashcache_reclaim_init_lru_lists e1 = Some e2" "lru_only e1 e2"
    "\<forall>s < num_sets e1. lru_inv e2 s (init_lists (assoc e1 * nat FLASHCACHE_LRU_HOT_PCT_DEFAULT div 100) (assoc e1))"
    using lru_init_lists [OF s1(2)] by (auto simp: FLASHCACHE_LRU_HOT_PCT_DEFAULT_def)
  have sl: "same_but_lru e1 e2" and bl: "\<And>i. blk_lru_only (cache e1 i) (cache e2 i)"
    and tl: "\<And>t. set_lru_only (cache_sets e1 t) (cache_sets e2 t)" using 2(2) by (simp_all add: lru_only_def)
  note l = same_but_lru_D [OF sl]
  have g2: "geometry e2" using s1(2) by (simp add: geometry_def l)
  define e3 where "e3 = flashcache_hash_init e2"
  have ho: "hash_only e2 e3" unfolding e3_def by (rule hash_init_only)
  note h = same_but_arrays_D [OF hash_onlyD(1) [OF ho]]
  have n3: "no_failures e3" using s1(3) by (simp add: no_failures_def h l)
  from core_diskclean [OF this] obtain e4 where
    4: "flashcache_diskclean_init e3 = (0, e4)" "core e4 = core e3" "mode e4 = mode e3" by blast
  define e5 where "e5 = (if mode e4 = FLASHCACHE_WRITE_BACK
      then e4\<lparr>md_blocks_buf := (\<lambda>i. if i < md_blocks e4 - 1 then zero_cache_md_block_head
                               else md_blocks_buf e4 i)\<rparr> else e4)"
  define e6 where "e6 = init_counters e5"
  have c6: "core e6 = core e3" using 4(2) unfolding e6_def core_counters by (simp add: e5_def core_def)
  note c = core_ready [OF c6]
  have n0: "nulled 0 e6 = e6\<lparr>cache := cache (nulled 0 e3)\<rparr>" by (simp add: nulled_def c)
  have "\<exists>d'. init_tables e6 = Some d' \<and> geometry d' \<and> num_sets d' = num_sets e6 \<and>
      assoc d' = assoc e6 \<and> kernel d' = kernel e6 \<and> (\<forall>s < num_sets d'. set_ready d' s)"
  proof (rule init_tables_ready)
    show "geometry e6" using g2 by (simp add: c(2)) (simp add: geometry_def h)
    show "state_of e6 i = INVALID" for i
      using hash_onlyD(2) [OF ho] blk_lru_only_D(1) [OF bl] s1(1) by (simp add: c invalid_cacheblock_def)
    show "set_hash_inv (nulled 0 e6) s (\<lambda>_. []) []" if "s < num_sets e6" for s
    proof -
      have "set_hash_inv (flashcache_hash_init (nulled 0 e2)) s (\<lambda>_. []) []"
        by (rule hash_init_set) (use g2 that c h in \<open>simp_all\<close>)
      then have "set_hash_inv (nulled 0 e3) s (\<lambda>_. []) []" by (simp add: e3_def nulled_hash_init)
      then show ?thesis by (simp add: set_hash_inv_def linked_def c flashcache_get_hash_bucket_def)
    qed
    fix s assume s: "s < num_sets e6"
    have "lru_inv e6 s q = lru_inv e3 s q" for q by (simp add: lru_inv_def lru_list_def c)
    with 2(3) s show "lru_inv e6 s (init_lists (assoc e6 * nat FLASHCACHE_LRU_HOT_PCT_DEFAULT div 100) (assoc e6))"
      by (simp add: lru_inv_hash_only [OF ho] c h l)
    show "set_fifo_next (cache_sets e6 s) = s * assoc e6 \<and> dirty_fallow (cache_sets e6 s) = 0"
      using s1(5) s hash_onlyD(10,11) [OF ho] set_lru_only_D(1,5) [OF tl] by (simp add: c h l)
  qed
  then obtain e7 where 7: "init_tables e6 = Some e7" "geometry e7" "kernel e7 = kernel e6"
    "\<forall>s < num_sets e7. set_ready e7 s" "num_sets e7 = num_sets e6" "assoc e7 = assoc e6" by blast
  define d' where "d' = pfd_cache_add fresh (e7\<lparr>whitelist := [], blacklist := [],
      num_whitelist_pids := 0, num_blacklist_pids := 0\<rparr>)"
  have k: "kernel e6 = kernel e" "kernel e4 = kernel e"
    using c(5) core_ready(5) [OF 4(2)] s1(6) by (simp_all add: h l)
  have "no_failures e4" "no_failures e7" using e(3) 7(3) k by (simp_all add: no_failures_def)
  note n4 = no_failuresD [OF this(1)]
  have "core d' = core e7"
    unfolding d'_def using \<open>no_failures e7\<close> by (subst core_add) (simp_all add: no_failures_def core_def)
  note r = core_ready [OF this]
  have "ctr_init True fresh d = Some (0, d')"
    unfolding ctr_init_def Let_def e_def [symmetric]
    using 2(1) 4(1) 7(1) n n4 by (simp add: e5_def e6_def d'_def flip: e1_def e3_def cong: if_cong)
  moreover have "num_sets e7 = num_sets e" "assoc e7 = assoc e"
    using 7(5,6) s1(4,7) by (simp_all add: c h l)
  then have "csize d' = csize d" "assoc d' = assoc d"
  proof -
    have "csize e = csize d" "assoc e = assoc d" by (simp_all add: e_def)
    moreover have "csize e7 = num_sets e7 * assoc e7" "csize e = num_sets e * assoc e"
      using 7(2) e(2) by (simp_all add: geometry_def)
    ultimately show "csize d' = csize d" "assoc d' = assoc d"
      using \<open>num_sets e7 = num_sets e\<close> \<open>assoc e7 = assoc e\<close> by (simp_all add: r)
  qed
  ultimately show ?thesis using 7(2,4) by (intro exI [of _ d']) (simp add: r)
qed

section \<open>The constructor\<close>

text \<open>The cache fits on the flash device; in write back mode its superblock may be overwritten.\<close>

definition room :: "nat \<Rightarrow> cache_c \<Rightarrow> bool" where
  "room p d \<longleftrightarrow> (if mode d = FLASHCACHE_WRITE_BACK
     then (p \<noteq> CACHE_CREATE \<or> \<not> valid_sb_state (cache_sb_state (ssd_sb d))) \<and>
          md_blocks (size_cache d) * md_block_size d + csize (size_cache d) * block_size d \<le> ssd_nr_sects (kernel d)
     else csize d div block_size d div assoc d * assoc d * block_size d \<le> ssd_nr_sects (kernel d))"

definition planned_size :: "cache_c \<Rightarrow> nat" where
  "planned_size d = (if mode d = FLASHCACHE_WRITE_BACK then csize (size_cache d)
     else csize d div block_size d div assoc d * assoc d)"

lemma size_cache_sel [simp]:
  "md_block_size (size_cache d) = md_block_size d" "block_size (size_cache d) = block_size d"
  "assoc (size_cache d) = assoc d" "assoc_shift (size_cache d) = assoc_shift d"
  "block_shift (size_cache d) = block_shift d" "kernel (size_cache d) = kernel d"
  "assoc d dvd csize (size_cache d)"
  by (simp_all add: size_cache_def Let_def)

lemma writeback_create_ready:
  assumes n: "no_failures d" and p: "params_ok d" and r: "room q d" and m: "mode d = FLASHCACHE_WRITE_BACK"
  shows "\<exists>d'. flashcache_writeback_create (q \<noteq> CACHE_CREATE) d = Some (0, d') \<and> no_failures d' \<and> created d' \<and>
    csize d' = planned_size d \<and> assoc d' = assoc d"
proof -
  let ?s = "size_cache d"
  define e where "e = ?s\<lparr>cache := (\<lambda>_. invalid_cacheblock)\<rparr>"
  have ns: "no_failures ?s" "no_failures e" using n by (simp_all add: no_failures_def e_def)
  have "md_size_ok e" using p m by (simp add: params_ok_def md_size_ok_def e_def)
  from md_store_all_ok [OF this, of True] ns(2) obtain e1 where
    1: "md_store_all True e = Some (0, e1)" "io_only e e1" by (fastforce simp: no_failures_def)
  have n1: "no_failures e1" using io_only_D(3,4) [OF 1(2)] ns(2) by (simp add: no_failures_def)
  obtain mm sc where e1: "e1 = e\<lparr>ssd_md := mm, kernel := (kernel e)\<lparr>io_script := sc\<rparr>\<rparr>"
    using 1(2) unfolding io_only_def by blast
  note s = no_failuresD [OF n] no_failuresD [OF ns(1)] no_failuresD [OF ns(2)] no_failuresD [OF n1]
  have "no_failures (e1\<lparr>on_ssd_version := FLASHCACHE_VERSION\<rparr>)" using n1 by (simp add: no_failures_def)
  note s5 = no_failuresD [OF this]
  have "\<exists>h. create_on_ssd (ssd_sb d) e = Some (0, e1\<lparr>on_ssd_version := FLASHCACHE_VERSION, ssd_sb := h\<rparr>)"
    using 1(1) s s5 unfolding create_on_ssd_def write_header_def Let_def by simp (rule exI, rule refl)
  then obtain h where c: "create_on_ssd (ssd_sb d) e = Some (0, e1\<lparr>on_ssd_version := FLASHCACHE_VERSION, ssd_sb := h\<rparr>)"
    by blast
  have "flashcache_writeback_create (q \<noteq> CACHE_CREATE) d =
      Some (0, e1\<lparr>on_ssd_version := FLASHCACHE_VERSION, ssd_sb := h\<rparr>)"
    using r m c s unfolding flashcache_writeback_create_def Let_def room_def
    by (auto simp flip: e_def)
  moreover have "no_failures (e1\<lparr>on_ssd_version := FLASHCACHE_VERSION, ssd_sb := h\<rparr>)"
    using n1 by (simp add: no_failures_def)
  moreover have "created (e1\<lparr>on_ssd_version := FLASHCACHE_VERSION, ssd_sb := h\<rparr>)"
    using p size_cache_sel(7) [of d] by (simp add: created_def e1 e_def params_ok_def FLASHCACHE_MIN_ASSOC_def)
  ultimately show ?thesis using m by (auto simp: e1 e_def planned_size_def)
qed

lemma ctr_create_ready:
  assumes n: "no_failures d" and p: "params_ok d" and r: "room q d"
  shows "\<exists>d'. ctr_create q d = Some (0, True, d') \<and> no_failures d' \<and> created d' \<and>
    csize d' = planned_size d \<and> assoc d' = assoc d"
proof (cases "mode d = FLASHCACHE_WRITE_BACK")
  case True
  with writeback_create_ready [OF assms] show ?thesis by (auto simp: ctr_create_def)
next
  case False
  let ?e = "d\<lparr>csize := csize d div block_size d div assoc d * assoc d\<rparr>"
  have "no_failures ?e" using n by (simp add: no_failures_def)
  note s = no_failuresD [OF this]
  have "flashcache_writethrough_create d = (0, ?e\<lparr>cache := (\<lambda>_. invalid_cacheblock), md_blocks := 0\<rparr>)"
    using r False s by (simp add: flashcache_writethrough_create_def room_def)
  with False n p show ?thesis
    by (simp add: ctr_create_def created_def params_ok_def no_failures_def FLASHCACHE_MIN_ASSOC_def planned_size_def)
qed

text \<open>The zeroed structure with the arguments that are parsed first.\<close>

definition ctr_start :: "string list \<Rightarrow> cache_mode \<Rightarrow> kernel \<Rightarrow> cache_c" where
  "ctr_start argv m k = (zero_cache_c k)\<lparr>disk_devname := strncpy (argv ! 0), dm_vdevname := argv ! 2,
      nr_jobs := 0, remove_in_prog := 0, mode := m\<rparr>"

lemma ctr_ready:
  assumes argc: "3 < length argv" and m: "Option.bind (scan (argv ! 3)) mode_arg = Some m"
    and p: "persistence_arg scan argv m = Some p" "m = FLASHCACHE_WRITE_BACK \<Longrightarrow> p \<noteq> CACHE_RELOAD"
    and d: "ctr_params dbs scan argv (ctr_start argv m k) = Inr d" and r: "room p d"
    and k: "alloc_script k = []" "io_script k = []"
  shows "\<exists>d'. flashcache_ctr dbs scan fresh argv (zero_cache_c k) = Some (0, d') \<and>
    geometry d' \<and> csize d' = planned_size d \<and> assoc d' = assoc d \<and>
    (\<forall>s < num_sets d'. cset_inv d' s (\<lambda>_. []) (rev [0..<assoc d']) (init_lists (assoc d' div 2) (assoc d')))"
proof -
  have z: "block_size (ctr_start argv m k) = 0" "assoc (ctr_start argv m k) = 0" "disk_assoc (ctr_start argv m k) = 0"
    "write_only_cache (ctr_start argv m k) = 0" "md_block_size (ctr_start argv m k) = 0"
    "kernel (ctr_start argv m k) = k"
    by (simp_all add: ctr_start_def zero_cache_c_def)
  from ctr_params_Inr [OF d z(1-5)] z(6) k have "no_failures d" "params_ok d"
    by (simp_all add: env_def no_failures_def)
  from ctr_create_ready [OF this r] obtain e where
    1: "ctr_create p d = Some (0, True, e)" "no_failures e" "created e" "csize e = planned_size d" "assoc e = assoc d"
    by blast
  from ctr_init_ready [OF this(2,3)] obtain d' where
    2: "ctr_init True fresh e = Some (0, d')" "geometry d' \<and> (\<forall>s < num_sets d'. set_ready d' s)"
      "csize d' = csize e" "assoc d' = assoc e" by blast
  have "flashcache_ctr dbs scan fresh argv (zero_cache_c k) = Some (0, d')"
    unfolding flashcache_ctr_def Let_def
    using argc m p d 1(1) 2(1) by (auto simp: ctr_start_def)
  moreover have "assoc d' * nat FLASHCACHE_LRU_HOT_PCT_DEFAULT div 100 = assoc d' div 2"
    by (simp add: FLASHCACHE_LRU_HOT_PCT_DEFAULT_def)
  ultimately show ?thesis using 1(4,5) 2(2-4) ready_cset [of d'] by auto
qed

end
