(* ===== verification/Demo.thy ===== *)
theory Demo
  imports Zero Reclaim Pending
begin

text \<open>
  A small concrete cache for the theorems that exhibit an instance of a property: two sets of
  four blocks, all invalid, with empty lists, and states derived from it by operations of the
  model.
\<close>

definition demo_kernel :: kernel where
  "demo_kernel = \<lparr>jiffies = 1000, wall_clock = (5, 0), current_pid = 7, current_tgid = 7,
     alloc_script = [], io_script = [], jhash_1word = (\<lambda>x _. x), sort_dbns = sort_key fst,
     heap_garbage = zero_flash_superblock, task_exists = (\<lambda>_. True), disk_nr_sects = 4096,
     ssd_nr_sects = 1024\<rparr>"

definition demo :: cache_c where
  "demo = (zero_cache_c demo_kernel)\<lparr>csize := 8, assoc := 4, assoc_shift := 2, num_sets := 2,
     block_size := 8, block_shift := 3, on_ssd_version := 4, hot_list_pct := 50,
     cache := (\<lambda>_. zero_cacheblock\<lparr>cache_state := INVALID, hash_prev := FLASHCACHE_NULL,
       hash_next := FLASHCACHE_NULL\<rparr>),
     cache_sets := (\<lambda>s. zero_cache_set\<lparr>set_fifo_next := s * 4, hotlist_lru_head := FLASHCACHE_NULL,
       hotlist_lru_tail := FLASHCACHE_NULL, warmlist_lru_head := FLASHCACHE_NULL,
       warmlist_lru_tail := FLASHCACHE_NULL, hash_buckets := (\<lambda>_. FLASHCACHE_NULL),
       invalid_head := FLASHCACHE_NULL\<rparr>)\<rparr>"

lemma demo_geometry [simp]: "geometry demo"
  by (simp add: geometry_def demo_def FLASHCACHE_MAX_ASSOC_def)

lemma demo_sel [simp]:
  "assoc demo = 4" "num_sets demo = 2" "hot_list_pct demo = 50"
  by (simp_all add: demo_def)

lemma demo_cache [simp]: "cache demo i = zero_cacheblock\<lparr>cache_state := INVALID,
    hash_prev := FLASHCACHE_NULL, hash_next := FLASHCACHE_NULL\<rparr>"
  by (simp add: demo_def)

lemma demo_hash: "set_hash_inv demo s (\<lambda>_. []) []"
  by (rule set_hash_invI) (simp_all add: linked_def demo_def)

lemma demo_index: "s < 2 \<Longrightarrow> set_index s demo (\<lambda>_. None)"
  unfolding set_index_def
  by (intro conjI exI [of _ "\<lambda>_. []"] exI [of _ "[]"])
    (simp_all add: demo_hash unique_dbns_def index_map_def fun_eq_iff)

lemma demo_lru: "lru_empty demo s"
  unfolding lru_empty_def lru_inv_def lru_list_def
  by (simp add: list_head_def list_tail_def list_blocks_def demo_def zero_cacheblock_def
      zero_cache_set_def)

text \<open>Block 1 of the first set holds disk block 16 and is ready for the index.\<close>

definition demo_ready :: cache_c where
  "demo_ready = upd_blk 1 (\<lambda>b. b\<lparr>cache_state := VALID, dbn := 16\<rparr>) demo"

lemma demo_ready_index: "set_index 0 demo_ready (\<lambda>_. None)" "index_ready 0 demo_ready 1"
proof -
  have "set_hash_inv demo_ready 0 (\<lambda>_. []) []"
    by (rule set_hash_invI) (simp_all add: linked_def demo_ready_def demo_def)
  moreover have "geometry demo_ready"
    using demo_geometry by (simp add: demo_ready_def geometry_def)
  ultimately show "set_index 0 demo_ready (\<lambda>_. None)"
    unfolding set_index_def
    by (intro conjI exI [of _ "\<lambda>_. []"] exI [of _ "[]"])
      (simp_all add: unique_dbns_def index_map_def fun_eq_iff demo_ready_def)
  show "index_ready 0 demo_ready 1"
    by (simp add: index_ready_def demo_ready_def hashed_def flag_defs)
qed

text \<open>The lists after initialisation: blocks 0 and 1 of each set hot, 2 and 3 warm.\<close>

definition demo_lists :: cache_c where
  "demo_lists = the (flashcache_reclaim_init_lru_lists demo)"

lemma demo_lists_inv:
  "flashcache_reclaim_init_lru_lists demo = Some demo_lists" "geometry demo_lists" "assoc demo_lists = 4"
  "lru_inv demo_lists 0 (init_lists 2 4)" "lru_inv demo_lists 1 (init_lists 2 4)"
  "\<And>i. cache_state (cache demo_lists i) = INVALID" "num_sets demo_lists = 2"
proof -
  from lru_init_lists [of demo] demo_lru obtain d' where
    d': "flashcache_reclaim_init_lru_lists demo = Some d'" "lru_only demo d'"
      "\<forall>s < 2. lru_inv d' s (init_lists 2 4)" by auto
  then have e: "demo_lists = d'" by (simp add: demo_lists_def)
  note same = same_but_lru_D [of demo d']
  have s: "same_but_lru demo d'" "\<And>i. blk_lru_only (cache demo i) (cache d' i)"
    using d'(2) by (simp_all add: lru_only_def)
  show "flashcache_reclaim_init_lru_lists demo = Some demo_lists" using d'(1) e by simp
  show "geometry demo_lists" using demo_geometry same [OF s(1)] unfolding e geometry_def by simp
  show "assoc demo_lists = 4" using same(1) [OF s(1)] unfolding e by simp
  show "lru_inv demo_lists 0 (init_lists 2 4)" "lru_inv demo_lists 1 (init_lists 2 4)"
    using d'(3) unfolding e by simp_all
  show "cache_state (cache demo_lists i) = INVALID" for i
    using blk_lru_only_D(1) [OF s(2)] unfolding e by simp
  show "num_sets demo_lists = 2" using same(3) [OF s(1)] unfolding e by simp
qed

text \<open>The first set after block 1 entered its hash.\<close>

definition demo_hashed :: cache_c where
  "demo_hashed = the (flashcache_hash_insert 1 demo_ready)"

lemma demo_hashed_index:
  "set_index 0 demo_hashed [16 \<mapsto> 1]" "dbn (cache demo_hashed 1) = 16"
  "flashcache_hash_lookup demo_hashed 0 16 = Some (Some 1)"
proof -
  have k: "index_key demo_ready 1 = 16" by (simp add: index_key_def demo_ready_def)
  from set_hash.insert_law [OF demo_ready_index] obtain d' where
    d': "flashcache_hash_insert 1 demo_ready = Some d'" "set_index 0 d' [16 \<mapsto> 1]"
      "index_key d' = index_key demo_ready" using k by auto
  then have e: "demo_hashed = d'" by (simp add: demo_hashed_def)
  show i: "set_index 0 demo_hashed [16 \<mapsto> 1]" using d'(2) e by simp
  show "dbn (cache demo_hashed 1) = 16" using d'(3) k e by (simp add: index_key_def fun_eq_iff)
  show "flashcache_hash_lookup demo_hashed 0 16 = Some (Some 1)"
    using set_hash.lookup_law [OF i] by simp
qed

lemma demo_pending: "pending_inv demo" "pending_of demo i = []"
  by (simp_all add: pending_inv_def pending_of_def demo_def zero_cache_c_def)

end
