(* ===== verification/Run.thy ===== *)
theory Run
  imports Ready Demo
begin

text \<open>
  Two runs of the demo cache, for the theorems on reachable states. In the first a write of one
  sector bypasses the cache and completes. In the second a write of a whole block hits a clean
  block of a write back cache, and the write to the flash device completes, so that the update of
  its metadata is queued.
\<close>

definition demo_bio :: bio where
  "demo_bio = \<lparr>bi_id = 1, bi_sector = 16, bi_size = 512, bi_is_write = True, bi_barrier = False\<rparr>"

definition demo_block_bio :: bio where
  "demo_block_bio = \<lparr>bi_id = 2, bi_sector = 16, bi_size = 4096, bi_is_write = True, bi_barrier = False\<rparr>"

lemma demo_bio_sel [simp]:
  "to_sector demo_bio = 1" "bi_sector demo_bio = 16" "io_end_sector demo_bio = 16"
  "bi_is_write demo_bio" "\<not> bi_barrier demo_bio"
  "to_sector demo_block_bio = 8" "bi_sector demo_block_bio = 16" "io_end_sector demo_block_bio = 23"
  "bi_is_write demo_block_bio" "\<not> bi_barrier demo_block_bio"
  by (simp_all add: demo_bio_def demo_block_bio_def to_sector_def io_end_sector_def)

lemma lookup_null [simp]: "hash_lookup_loop d s k FLASHCACHE_NULL = Some None"
  by (simp add: hash_lookup_loop.simps)

text \<open>Unfolding the operations on the way.\<close>

lemmas demo_run = flashcache_map_def Let_def flashcache_do_block_checks_def block_mask_def
  map_uncacheable_def demo_def zero_cache_c_def zero_sysctls_def demo_kernel_def
  flashcache_inval_blocks_def flashcache_alloc_pending_job_def alloc_ok_def alloc_next_def inject_def
  flashcache_inval_block_set_v3_def flashcache_hash_lookup_def flashcache_start_uncached_io_def
  new_kcached_job_def flashcache_alloc_cache_job_def submit_io_def flashcache_free_pending_job_def
  complete_io_def flashcache_uncached_io_callback_def push_uncached_io_complete_def run_job_def
  queue_of_def pop_queue_def flashcache_uncached_io_complete_def flashcache_bio_endio_def
  finish_job_def flashcache_free_cache_job_def

lemma demo_idle: "idle demo"
  by (simp add: idle_def demo_def zero_cache_c_def active_jobs_def zero_cache_md_block_head_def waiting_def)

section \<open>A write that bypasses the cache\<close>

definition demo1 :: cache_c where "demo1 = snd (the (flashcache_map demo_bio demo))"
definition demo2 :: cache_c where "demo2 = the (complete_io 0 False False demo1)"

definition demo3 :: cache_c where
  "demo3 = the (run_job Uncached_complete (hd (queue_of Uncached_complete demo2))
     (pop_queue Uncached_complete demo2))"

lemma demo_reach1: "driver_reach demo [demo_bio] demo1"
proof -
  have "flashcache_map demo_bio demo = Some (DM_MAPIO_SUBMITTED, demo1)"
    unfolding demo1_def by (simp add: demo_run)
  from driver_reach.step [OF driver_reach.start Map [OF this]] show ?thesis by simp
qed

lemma demo_reach2: "driver_reach demo [demo_bio] demo2"
proof -
  have "complete_io 0 False False demo1 = Some demo2"
    unfolding demo2_def demo1_def by (simp add: demo_run)
  from driver_reach.step [OF demo_reach1 Io_done [OF this]] show ?thesis by simp
qed

lemma demo_reach3: "driver_reach demo [demo_bio] demo3"
proof -
  obtain job where "queue_of Uncached_complete demo2 = [job]"
    "run_job Uncached_complete job (pop_queue Uncached_complete demo2) = Some demo3"
    unfolding demo3_def demo2_def demo1_def by (simp add: demo_run)
  from driver_reach.step [OF demo_reach2 Work [OF this]] show ?thesis by simp
qed

lemma demo_run_sel:
  "nr_jobs demo1 = 1" "completed demo1 = []" "completed demo3 = [(demo_bio, 0)]" "nr_jobs demo3 = 0"
  "pending_jobs_count demo3 = 0" "pfd_waiters demo3 = []"
  unfolding demo3_def demo2_def demo1_def by (simp_all add: demo_run)

section \<open>A write hit in write back mode\<close>

definition demo_wb :: cache_c where
  "demo_wb = (upd_bucket 0 16 1 (upd_blk 1 (\<lambda>b. b\<lparr>cache_state := VALID, dbn := 16\<rparr>) demo))
     \<lparr>md_block_size := 8, md_blocks := 3, sysctl := zero_sysctls\<lparr>sysctl_cache_all := 1\<rparr>\<rparr>"

lemma demo_wb_idle: "idle demo_wb"
  using demo_idle by (simp add: idle_def demo_wb_def active_jobs_def upd_bucket_def upd_blk_def upd_set_def)

definition demo_wb1 :: cache_c where "demo_wb1 = snd (the (flashcache_map demo_block_bio demo_wb))"
definition demo_wb2 :: cache_c where "demo_wb2 = the (complete_io 0 False False demo_wb1)"

lemmas demo_wb_run = demo_run demo_wb_def upd_bucket_def upd_blk_def upd_set_def bump_def set_state_def
  flashcache_uncacheable_def flashcache_find_pid_locked_def pids_def skip_sequential_io_def
  flashcache_write_def flashcache_lookup_def find_valid_dbn_def hash_block_def
  flashcache_get_hash_bucket_def hash_lookup_loop.simps flashcache_clear_fallow_def
  flashcache_write_hit_def block_idle_def is_hit_def found_index_def new_job_or_inject_def
  launch_cache_write_def flashcache_clean_set_def flashcache_diskclean_alloc_def

lemmas demo_consts = FLASHCACHE_NULL_def FLASHCACHE_LRU_def flag_defs NUM_BLOCK_HASH_BUCKETS_def
  zero_cacheblock_def zero_cache_set_def

lemma demo_wb_reach1: "driver_reach demo_wb [demo_block_bio] demo_wb1"
proof -
  have "flashcache_map demo_block_bio demo_wb = Some (DM_MAPIO_SUBMITTED, demo_wb1)"
    unfolding demo_wb1_def
    by (simp add: demo_wb_run demo_consts)
  from driver_reach.step [OF driver_reach.start Map [OF this]] show ?thesis by simp
qed

lemmas demo_wb_md = flashcache_io_callback_def io_callback_error_def inject_error_def
  flashcache_md_write_def INDEX_TO_MD_BLOCK_def MD_SLOTS_PER_BLOCK_def MD_BLOCK_BYTES_def
  zero_cache_md_block_head_def upd_md_def push_md_io_def md_action_def

lemma demo_wb_reach2: "driver_reach demo_wb [demo_block_bio] demo_wb2"
proof -
  have "complete_io 0 False False demo_wb1 = Some demo_wb2"
    unfolding demo_wb2_def demo_wb1_def
    by (simp add: demo_wb_run demo_wb_md demo_consts)
  from driver_reach.step [OF demo_wb_reach1 Io_done [OF this]] show ?thesis by simp
qed

lemma demo_wb_sel: "nr_in_prog (md_blocks_buf demo_wb2 0) = 1" "completed demo_wb2 = []"
  unfolding demo_wb2_def demo_wb1_def
  by (simp_all add: demo_wb_run demo_wb_md demo_consts SIZEOF_FLASH_CACHEBLOCK_def)

section \<open>Creating a write back cache\<close>

definition demo_scan :: "string \<Rightarrow> nat option" where
  "demo_scan s = (if s = ''1'' then Some 1 else if s = ''2'' then Some 2 else None)"

definition demo_argv :: "string list" where
  "demo_argv = [''/dev/sdb'', ''/dev/sdc'', ''cachedev'', ''1'', ''2'']"

definition demo_ctr_kernel :: kernel where
  "demo_ctr_kernel = demo_kernel\<lparr>ssd_nr_sects := 8192\<rparr>"

definition demo_params :: cache_c where
  "demo_params = (ctr_start demo_argv FLASHCACHE_WRITE_BACK demo_ctr_kernel)
     \<lparr>block_size := 8, block_shift := 3, csize := 8192, assoc := 512, assoc_shift := 9, md_block_size := 8\<rparr>"

lemma demo_ctr_facts:
  "3 < length demo_argv"
  "Option.bind (demo_scan (demo_argv ! 3)) mode_arg = Some FLASHCACHE_WRITE_BACK"
  "persistence_arg demo_scan demo_argv FLASHCACHE_WRITE_BACK = Some CACHE_CREATE"
  "CACHE_CREATE \<noteq> CACHE_RELOAD"
  "alloc_script demo_ctr_kernel = []" "io_script demo_ctr_kernel = []"
  by (simp_all add: demo_argv_def demo_scan_def mode_arg_def persistence_arg_def CACHE_RELOAD_def
      CACHE_FORCECREATE_def CACHE_CREATE_def demo_ctr_kernel_def demo_kernel_def)

lemma demo_ctr_params:
  "ctr_params 512 demo_scan demo_argv (ctr_start demo_argv FLASHCACHE_WRITE_BACK demo_ctr_kernel) = Inr demo_params"
  by (simp add: ctr_params_def step_defs demo_argv_def demo_params_def ctr_start_def zero_cache_c_def
      DEFAULT_BLOCK_SIZE_def DEFAULT_CACHE_ASSOC_def DEFAULT_MD_BLOCK_SIZE_def lowest_bit_default
      demo_ctr_kernel_def)

lemma demo_room: "room CACHE_CREATE demo_params"
  by (simp add: room_def demo_params_def ctr_start_def zero_cache_c_def size_cache_def sub64_def
      INDEX_TO_MD_BLOCK_def MD_SLOTS_PER_BLOCK_def MD_BLOCK_BYTES_def SIZEOF_FLASH_CACHEBLOCK_def
      valid_sb_state_def zero_flash_superblock_def CACHE_MD_STATE_DIRTY_def CACHE_MD_STATE_CLEAN_def
      CACHE_MD_STATE_FASTCLEAN_def demo_ctr_kernel_def)

definition demo_meta :: pfd_cache_meta where
  "demo_meta = \<lparr>meta_dbn = 0, meta_status = pfd_empty, hold_count = 0, prepare_lock = 1, ssd_index = 0\<rparr>"

definition demo_created :: cache_c where
  "demo_created = snd (the (flashcache_ctr 512 demo_scan (\<lambda>_. demo_meta) demo_argv (zero_cache_c demo_ctr_kernel)))"

lemma demo_created_run:
  "flashcache_ctr 512 demo_scan (\<lambda>_. demo_meta) demo_argv (zero_cache_c demo_ctr_kernel) = Some (0, demo_created)"
  "s < num_sets demo_created \<Longrightarrow> cset_inv demo_created s (\<lambda>_. []) (rev [0..<assoc demo_created])
     (init_lists (assoc demo_created div 2) (assoc demo_created))"
  "assoc demo_created = 512" "num_sets demo_created = 1"
proof -
  have size: "planned_size demo_params = 512" "assoc demo_params = 512"
    by (simp_all add: planned_size_def demo_params_def ctr_start_def zero_cache_c_def size_cache_def sub64_def
        INDEX_TO_MD_BLOCK_def MD_SLOTS_PER_BLOCK_def MD_BLOCK_BYTES_def SIZEOF_FLASH_CACHEBLOCK_def)
  from ctr_ready [OF demo_ctr_facts(1-3) demo_ctr_facts(4) demo_ctr_params demo_room demo_ctr_facts(5,6), of "\<lambda>_. demo_meta"]
  have "flashcache_ctr 512 demo_scan (\<lambda>_. demo_meta) demo_argv (zero_cache_c demo_ctr_kernel) = Some (0, demo_created) \<and>
      geometry demo_created \<and> csize demo_created = 512 \<and> assoc demo_created = 512 \<and>
      (\<forall>s < num_sets demo_created. cset_inv demo_created s (\<lambda>_. []) (rev [0..<assoc demo_created])
        (init_lists (assoc demo_created div 2) (assoc demo_created)))"
    unfolding size by (auto simp: demo_created_def)
  then show "flashcache_ctr 512 demo_scan (\<lambda>_. demo_meta) demo_argv (zero_cache_c demo_ctr_kernel) = Some (0, demo_created)"
    "s < num_sets demo_created \<Longrightarrow> cset_inv demo_created s (\<lambda>_. []) (rev [0..<assoc demo_created])
       (init_lists (assoc demo_created div 2) (assoc demo_created))"
    "assoc demo_created = 512" "num_sets demo_created = 1"
    by (auto simp: geometry_def)
qed

text \<open>The first pass of the worker over the completed request.\<close>

lemma demo2_works: "do_work demo2 = Some demo3"
  unfolding do_work_def by (simp add: process_jobs.simps demo_run demo1_def demo2_def demo3_def)

end
