(* ===== verification/Mdwrite.thy ===== *)
theory Mdwrite
  imports System
begin

text \<open>
  What a metadata write puts on the flash device. The image of a metadata block gives to every slot
  the disk block in memory and the state of the last update of the batch for it, or the state in
  memory when no job of the batch is for it. One write carries all updates that waited, and the
  failure of such a write in write back mode.
\<close>

section \<open>The image of a metadata block\<close>

definition update_of :: "kcached_job list \<Rightarrow> nat \<Rightarrow> 32 word \<Rightarrow> 32 word" where
  "update_of jobs i st =
     (case filter (\<lambda>j. job_index j = Some i) (rev jobs) of [] \<Rightarrow> st | j # _ \<Rightarrow> md_job_state j)"

lemma update_of_simps [simp]:
  "update_of [] i st = st"
  "update_of (js @ [j]) i st = (if job_index j = Some i then md_job_state j else update_of js i st)"
  by (simp_all add: update_of_def)

definition in_md_block :: "cache_c \<Rightarrow> nat \<Rightarrow> nat \<Rightarrow> bool" where
  "in_md_block d b i \<longleftrightarrow> i < csize d \<and> INDEX_TO_MD_BLOCK d i = b"

lemma in_md_blockD:
  assumes "in_md_block d b i"
  shows "md_first d b + INDEX_TO_MD_BLOCK_OFFSET d i = i" "i < csize d"
    "md_first d b \<le> i" "MD_SLOTS_PER_BLOCK d \<noteq> 0 \<Longrightarrow> i < md_first d b + MD_SLOTS_PER_BLOCK d"
    "i - md_first d b = INDEX_TO_MD_BLOCK_OFFSET d i"
proof -
  show *: "md_first d b + INDEX_TO_MD_BLOCK_OFFSET d i = i" and "i < csize d"
    using assms by (auto simp: in_md_block_def md_first_def INDEX_TO_MD_BLOCK_def INDEX_TO_MD_BLOCK_OFFSET_def)
  then show "md_first d b \<le> i" "i - md_first d b = INDEX_TO_MD_BLOCK_OFFSET d i" by linarith+
  show "i < md_first d b + MD_SLOTS_PER_BLOCK d" if "MD_SLOTS_PER_BLOCK d \<noteq> 0"
    using * that by (simp add: INDEX_TO_MD_BLOCK_OFFSET_def) (metis add_less_mono1 mod_less_divisor neq0_conv nat_add_left_cancel_less)
qed

lemma md_image_length [simp]: "length (md_block_image d b jobs) =
    min (md_first d b + MD_SLOTS_PER_BLOCK d) (csize d) - md_first d b"
proof -
  have "length (fold (mark_md_job d) jobs xs) = length xs" for xs
    by (induction jobs arbitrary: xs) (simp_all add: mark_md_job_def Let_def split: option.split)
  then show ?thesis by (simp add: md_block_image_def)
qed

lemma md_image_nth:
  assumes "MD_SLOTS_PER_BLOCK d \<noteq> 0" and "in_md_block d b i"
    and "\<forall>j \<in> set jobs. \<exists>k. job_index j = Some k \<and> in_md_block d b k"
  shows "md_block_image d b jobs ! (i - md_first d b) =
    (dbn (cache d i), update_of jobs i (snd (md_slot_of d i)))"
  using assms(3)
proof (induction jobs rule: rev_induct)
  case Nil
  show ?case
    using in_md_blockD [OF assms(2)] assms(1) by (simp add: md_block_image_def md_slot_of_def)
next
  case (snoc j js)
  let ?im = "md_block_image d b js"
  from snoc.prems obtain k where k: "job_index j = Some k" "in_md_block d b k" by auto
  note ik = in_md_blockD [OF assms(2)] in_md_blockD [OF k(2)]
  have len: "i - md_first d b < length ?im" using ik(1-4) assms(1) by simp
  have eq: "md_block_image d b (js @ [j]) =
      ?im[k - md_first d b := (fst (?im ! (k - md_first d b)), md_job_state j)]"
    using k(1) ik(10) by (simp add: md_block_image_def mark_md_job_def Let_def)
  have IH: "?im ! (i - md_first d b) = (dbn (cache d i), update_of js i (snd (md_slot_of d i)))"
    using snoc by simp
  show ?case
  proof (cases "k = i")
    case True
    with eq len IH k(1) show ?thesis by simp
  next
    case False
    then have "k - md_first d b \<noteq> i - md_first d b" using ik(3,8) by linarith
    with eq IH k(1) False show ?thesis by simp
  qed
qed

lemma image_frame:
  assumes "cache e = cache d" "csize e = csize d" "md_block_size e = md_block_size d"
    and "job_index job' = job_index job" "job_action job' = job_action job"
  shows "md_block_image e b (job' # js) = md_block_image d b (job # js)"
proof -
  have s: "MD_SLOTS_PER_BLOCK e = MD_SLOTS_PER_BLOCK d"
    using assms(3) by (simp add: MD_SLOTS_PER_BLOCK_def MD_BLOCK_BYTES_def)
  have m: "mark_md_job e = mark_md_job d" and 1: "mark_md_job d job' = mark_md_job d job"
    using assms(4,5) s
    by (simp_all add: fun_eq_iff mark_md_job_def INDEX_TO_MD_BLOCK_OFFSET_def md_job_state_def Let_def
        cong: option.case_cong)
  have "md_slot_of e = md_slot_of d" using assms(1) by (simp add: fun_eq_iff md_slot_of_def)
  then show ?thesis
    unfolding md_block_image_def using s assms(2) by (simp add: m 1 md_first_def)
qed

section \<open>One write for all the updates that wait\<close>

lemma bump_fold_keeps:
  "md_blocks_buf (fold (\<lambda>_. bump f) xs e) = md_blocks_buf e" "io_inflight (fold (\<lambda>_. bump f) xs e) = io_inflight e"
  "md_block_size (fold (\<lambda>_. bump f) xs e) = md_block_size e"
  "ssd_md (fold (\<lambda>_. bump f) xs e) = ssd_md e"
  by (induction xs arbitrary: e) (simp_all add: bump_def)

lemma kickoff_batches:
  assumes i: "job_index job = Some i" and b: "b = INDEX_TO_MD_BLOCK d i"
    and ok: "alloc_ok d" "sysctl_error_inject (sysctl d) AND MD_ALLOC_SECTOR_ERROR = 0"
  shows "\<exists>d'. flashcache_md_write_kickoff job d = Some d' \<and>
    queued_updates (md_blocks_buf d' b) = [] \<and>
    md_io_inprog (md_blocks_buf d' b) = queued_updates (md_blocks_buf d b) \<and>
    (\<exists>r. io_inflight d' = io_inflight d @ [r] \<and> io_write r \<and>
       io_regions r = [(CacheDev, of_nat ((1 + b) * md_block_size d), of_nat (md_block_size d))] \<and>
       io_md r = md_block_image d b (job # queued_updates (md_blocks_buf d b)) \<and>
       io_fn r = Md_write_callback \<and> job_index (io_job r) = Some i) \<and>
    ssd_md d' = ssd_md d \<and> md_block_size d' = md_block_size d"
proof -
  define batch where "batch = queued_updates (md_blocks_buf d b)"
  define job' where "job' = job\<lparr>job_md_block := True\<rparr>"
  define e where "e = upd_md b (\<lambda>h. h\<lparr>md_io_inprog := batch, queued_updates := []\<rparr>) (alloc_next d)"
  have an: "md_blocks_buf (alloc_next d) = md_blocks_buf d" "MD_SLOTS_PER_BLOCK (alloc_next d) = MD_SLOTS_PER_BLOCK d"
    "cache (alloc_next d) = cache d" "csize (alloc_next d) = csize d" "md_block_size (alloc_next d) = md_block_size d"
    by (simp_all add: alloc_next_def MD_SLOTS_PER_BLOCK_def MD_BLOCK_BYTES_def)
  have al: "flashcache_alloc_md_sector job d = (True, job', alloc_next d)"
    using ok by (simp add: flashcache_alloc_md_sector_def inject_def job'_def)
  have e: "cache e = cache d" "csize e = csize d" "md_block_size e = md_block_size d"
    "io_inflight e = io_inflight d" "ssd_md e = ssd_md d"
    by (simp_all add: e_def upd_md_def alloc_next_def)
  have "md_block_image e b (job' # batch) = md_block_image d b (job # batch)"
    by (rule image_frame) (simp_all add: e job'_def)
  moreover have "INDEX_TO_MD_BLOCK (alloc_next d) i = b" by (simp add: INDEX_TO_MD_BLOCK_def an b)
  ultimately have "flashcache_md_write_kickoff job d = Some (submit_io Md_write_callback True
      [(CacheDev, of_nat ((1 + b) * md_block_size d), of_nat (md_block_size d))]
      (md_block_image d b (job # batch)) job'
      (bump md_ssd_writes_update (bump ssd_writes_update (fold (\<lambda>_. bump md_write_batch_update) batch e))))"
    using i by (simp add: flashcache_md_write_kickoff_def al Let_def an e bump_fold_keeps
        flip: batch_def e_def)
  then show ?thesis
    by (simp add: submit_io_def bump_fold_keeps e i job'_def flip: batch_def)
      (simp add: e_def upd_md_def)
qed


text \<open>When the write succeeds the flash device holds these states; the other slots are untouched.\<close>

lemma kickoff_stored:
  assumes i: "job_index job = Some i" "in_md_block d b i" and s: "MD_SLOTS_PER_BLOCK d \<noteq> 0"
    and ok: "alloc_ok d" "sysctl_error_inject (sysctl d) AND MD_ALLOC_SECTOR_ERROR = 0"
    and jobs: "\<forall>j \<in> set (queued_updates (md_blocks_buf d b)). \<exists>k. job_index j = Some k \<and> in_md_block d b k"
  shows "\<exists>d' d''. flashcache_md_write_kickoff job d = Some d' \<and>
    complete_io (length (io_inflight d)) False e2 d' = Some d'' \<and>
    (\<forall>k. ssd_md d'' k = (if in_md_block d b k
       then (dbn (cache d k), update_of (job # queued_updates (md_blocks_buf d b)) k (snd (md_slot_of d k)))
       else ssd_md d k))"
proof -
  let ?jobs = "job # queued_updates (md_blocks_buf d b)" and ?im = "md_block_image d b (job # queued_updates (md_blocks_buf d b))"
  have b: "b = INDEX_TO_MD_BLOCK d i" using i(2) by (simp add: in_md_block_def)
  from kickoff_batches [OF i(1) b ok] obtain d' r where
    1: "flashcache_md_write_kickoff job d = Some d'" and r: "io_inflight d' = io_inflight d @ [r]" "io_md r = ?im"
      "io_fn r = Md_write_callback" "job_index (io_job r) = Some i" and
    m: "ssd_md d' = ssd_md d" "md_block_size d' = md_block_size d" by blast
  let ?e = "d'\<lparr>io_inflight := io_inflight d\<rparr>"
  have f: "md_first d' (INDEX_TO_MD_BLOCK d' i) = md_first d b"
    using m(2) b by (simp add: md_first_def INDEX_TO_MD_BLOCK_def MD_SLOTS_PER_BLOCK_def MD_BLOCK_BYTES_def)
  have f2: "md_first ?e (INDEX_TO_MD_BLOCK ?e i) = md_first d b"
    using f by (simp add: md_first_def INDEX_TO_MD_BLOCK_def MD_SLOTS_PER_BLOCK_def MD_BLOCK_BYTES_def)
  define d'' where "d'' = flashcache_md_write_callback False (io_job r)
      (?e\<lparr>ssd_md := store_md_block (md_first d b) ?im (ssd_md d)\<rparr>)"
  have "complete_io (length (io_inflight d)) False e2 d' = Some d''"
    using r m(1) f2 by (simp add: complete_io_def d''_def)
  moreover have "ssd_md d'' = store_md_block (md_first d b) ?im (ssd_md d)"
    by (simp add: d''_def flashcache_md_write_callback_def push_md_complete_def)
  moreover have "store_md_block (md_first d b) ?im (ssd_md d) k = (if in_md_block d b k
       then (dbn (cache d k), update_of ?jobs k (snd (md_slot_of d k))) else ssd_md d k)" for k
  proof -
    have "md_first d b \<le> k \<and> k < md_first d b + length ?im \<longleftrightarrow> in_md_block d b k"
    proof
      assume *: "md_first d b \<le> k \<and> k < md_first d b + length ?im"
      then have "b * MD_SLOTS_PER_BLOCK d \<le> k" "k < Suc b * MD_SLOTS_PER_BLOCK d" "k < csize d"
        by (auto simp: md_first_def)
      then show "in_md_block d b k"
        by (simp add: in_md_block_def INDEX_TO_MD_BLOCK_def div_nat_eqI mult.commute)
    next
      assume "in_md_block d b k"
      from in_md_blockD [OF this] s show "md_first d b \<le> k \<and> k < md_first d b + length ?im" by simp
    qed
    moreover have "\<forall>j \<in> set ?jobs. \<exists>k. job_index j = Some k \<and> in_md_block d b k" using jobs i by simp
    ultimately show ?thesis using md_image_nth [OF s] by (simp add: store_md_block_def del: md_image_length)
  qed
  ultimately show ?thesis using 1 by auto
qed

section \<open>A failed metadata write in write back mode\<close>

text \<open>
  The request has already been completed with the error, yet the job still carries it, so the error
  path takes it for a request of a write through cache and fails its \<open>VERIFY\<close>.
\<close>

lemma md_error_panics:
  assumes "mode d = FLASHCACHE_WRITE_BACK" and "job_action job = WRITECACHE" and "job_bio job = Some b"
    and "err \<noteq> 0"
  shows "md_done_one err job d = None"
proof (rule ccontr)
  assume "md_done_one err job d \<noteq> None"
  then obtain d' where *: "md_done_one err job d = Some d'" by blast
  have inj: "fst (inject_error WRITECACHE_MD_ERROR err d) \<noteq> 0"
    "mode (snd (inject_error WRITECACHE_MD_ERROR err d)) = mode d"
    using assms(4) by (auto simp: inject_error_def inject_def EIO_def split: if_splits)
  from * obtain i d1 where
    1: "flashcache_bio_endio b (fst (inject_error WRITECACHE_MD_ERROR err d)) (Some (job_start_time job))
         (bump_error ssd_write_errors_update (snd (inject_error WRITECACHE_MD_ERROR err d))) = Some d1" and
    2: "pending_or_idle (job\<lparr>job_error := fst (inject_error WRITECACHE_MD_ERROR err d)\<rparr>) i d1 = Some d'"
    using assms(2,3) inj(1)
    by (auto simp: md_done_one_def md_done_writecache_def Let_def split_beta elim!: bindE)
  have "mode d1 = mode d"
    using eff_mode [OF endio_eff [OF 1]] inj(2) by (simp add: bump_error_def)
  with 2 inj(1) assms(1,3) show False
    by (auto simp: pending_or_idle_def flashcache_do_pending_def dest!: do_pending_error_eff(2))
qed

end
