(* ===== verification/Pids.thy ===== *)
theory Pids
  imports Ioctl
begin

text \<open>
  The invariant of the pid lists: the counter is the length and no pid occurs twice. What the
  operations do to a list under it, and the limit on its length.
\<close>

definition pid_inv :: "pid_list \<Rightarrow> cache_c \<Rightarrow> bool" where
  "pid_inv l d \<longleftrightarrow> num_pids l d = int (length (pids l d)) \<and> distinct (map ctl_pid (pids l d))"

lemma pids_set [simp]:
  "pids l (set_pids l xs n d) = xs" "num_pids l (set_pids l xs n d) = n"
  "l' \<noteq> l \<Longrightarrow> pids l' (set_pids l xs n d) = pids l' d" "l' \<noteq> l \<Longrightarrow> num_pids l' (set_pids l xs n d) = num_pids l' d"
  "sysctl (set_pids l xs n d) = sysctl d" "kernel (set_pids l xs n d) = kernel d"
  by (cases l; cases l'; simp add: pids_def num_pids_def set_pids_def)+

lemma pids_bump [simp]:
  "pids l (bump f d) = pids l d" "num_pids l (bump f d) = num_pids l d" "sysctl (bump f d) = sysctl d"
  "pids l (alloc_next d) = pids l d" "num_pids l (alloc_next d) = num_pids l d"
  "pids l (pid_expire_check_update g d) = pids l d" "num_pids l (pid_expire_check_update g d) = num_pids l d"
  by (simp_all add: pids_def num_pids_def bump_def alloc_next_def split: pid_list.split)

section \<open>Deletion\<close>

lemma filter_other: "\<forall>n \<in> set ns. x \<noteq> ctl_pid n \<Longrightarrow> filter (\<lambda>n. ctl_pid n \<noteq> x) ns = ns"
  by (induction ns) auto

lemma unlink_pid_distinct:
  "distinct (map ctl_pid xs) \<Longrightarrow> unlink_pid p xs =
     (if p \<in> ctl_pid ` set xs then Some (filter (\<lambda>n. ctl_pid n \<noteq> p) xs) else None)"
  by (induction xs) (auto simp: filter_other image_iff)

lemma length_filter_one:
  assumes "distinct (map ctl_pid xs)" and "p \<in> ctl_pid ` set xs"
  shows "length xs = Suc (length (filter (\<lambda>n. ctl_pid n \<noteq> p) xs))"
  using assms by (induction xs) (auto simp: filter_other image_iff)

lemma distinct_filter_pids: "distinct (map ctl_pid xs) \<Longrightarrow> distinct (map ctl_pid (filter P xs))"
  by (induction xs) auto

lemma del_pid_spec:
  assumes "pid_inv l d"
  shows "\<exists>d'. flashcache_del_pid_locked p l d = Some d' \<and> pid_inv l d' \<and>
    pids l d' = filter (\<lambda>n. ctl_pid n \<noteq> p) (pids l d) \<and> (\<forall>l'. l' \<noteq> l \<longrightarrow> pids l' d' = pids l' d) \<and>
    sysctl d' = sysctl d"
proof -
  have n: "num_pids l d = int (length (pids l d))" and dist: "distinct (map ctl_pid (pids l d))"
    using assms by (simp_all add: pid_inv_def)
  have v: "pids l d \<noteq> [] \<longrightarrow> num_pids l d > 0" using n by simp
  show ?thesis
  proof (cases "p \<in> ctl_pid ` set (pids l d)")
    case True
    have "unlink_pid p (rev (pids l d)) = Some (rev (filter (\<lambda>n. ctl_pid n \<noteq> p) (pids l d)))"
      using True dist by (simp add: unlink_pid_distinct rev_map [symmetric] rev_filter)
    then have "flashcache_del_pid_locked p l d =
        Some (set_pids l (filter (\<lambda>n. ctl_pid n \<noteq> p) (pids l d)) (num_pids l d - 1) (bump pid_dels_update d))"
      using v by (simp add: flashcache_del_pid_locked_def bind_verify_if)
    then show ?thesis
      using n length_filter_one [OF dist True] distinct_filter_pids [OF dist] by (simp add: pid_inv_def)
  next
    case False
    have "unlink_pid p (rev (pids l d)) = None"
      using False dist by (simp add: unlink_pid_distinct rev_map [symmetric])
    then have "flashcache_del_pid_locked p l d = Some d"
      using v by (simp add: flashcache_del_pid_locked_def bind_verify_if)
    moreover have "filter (\<lambda>n. ctl_pid n \<noteq> p) (pids l d) = pids l d"
      using False by (auto simp: filter_id_conv)
    ultimately show ?thesis using assms by simp
  qed
qed

section \<open>The limit\<close>

text \<open>\<open>flashcache_drop_pids\<close> ends when \<open>max_pids\<close> is positive, and keeps the oldest pids.\<close>

lemma filter_last:
  assumes "distinct (map ctl_pid xs)" and "xs \<noteq> []"
  shows "filter (\<lambda>n. ctl_pid n \<noteq> ctl_pid (last xs)) xs = butlast xs"
proof -
  from assms(2) obtain ys y where xs: "xs = ys @ [y]" by (metis append_butlast_last_id)
  with assms(1) have "\<forall>n \<in> set ys. ctl_pid y \<noteq> ctl_pid n" by force
  then show ?thesis by (simp add: xs filter_other)
qed

lemma drop_pids_spec:
  assumes "pid_inv l d" and "0 < sysctl_max_pids (sysctl d)"
  shows "\<exists>d'. flashcache_drop_pids l d = Some d' \<and> pid_inv l d' \<and>
    pids l d' = take (nat (sysctl_max_pids (sysctl d) - 1)) (pids l d) \<and>
    (\<forall>l'. l' \<noteq> l \<longrightarrow> pids l' d' = pids l' d) \<and> sysctl d' = sysctl d"
  using assms
proof (induction "length (pids l d)" arbitrary: d rule: less_induct)
  case less
  let ?m = "sysctl_max_pids (sysctl d)"
  have n: "num_pids l d = int (length (pids l d))" and dist: "distinct (map ctl_pid (pids l d))"
    using less.prems by (simp_all add: pid_inv_def)
  show ?case
  proof (cases "num_pids l d \<ge> ?m")
    case False
    then have "length (pids l d) \<le> nat (?m - 1)" using n by linarith
    with False less.prems show ?thesis by (subst flashcache_drop_pids.simps) simp
  next
    case True
    then have ne: "pids l d \<noteq> []" using n less.prems(2) by auto
    from del_pid_spec [OF less.prems(1), of "ctl_pid (last (pids l d))"] obtain d1 where
      1: "flashcache_del_pid_locked (ctl_pid (last (pids l d))) l d = Some d1" "pid_inv l d1"
        "pids l d1 = butlast (pids l d)" "\<forall>l'. l' \<noteq> l \<longrightarrow> pids l' d1 = pids l' d" "sysctl d1 = sysctl d"
      using filter_last [OF dist ne] by auto
    let ?e = "bump pid_drops_update d1"
    have "pid_inv l ?e" using 1(2) by (simp add: pid_inv_def)
    moreover have "length (pids l ?e) < length (pids l d)" using 1(3) ne by simp
    ultimately obtain d' where
      2: "flashcache_drop_pids l ?e = Some d'" "pid_inv l d'" "pids l d' = take (nat (?m - 1)) (pids l ?e)"
        "\<forall>l'. l' \<noteq> l \<longrightarrow> pids l' d' = pids l' ?e" "sysctl d' = sysctl ?e"
      using less.hyps [of ?e] less.prems(2) 1(5) by auto
    have "nat (?m - 1) < length (pids l d)" using True n less.prems(2) by linarith
    then have "take (nat (?m - 1)) (butlast (pids l d)) = take (nat (?m - 1)) (pids l d)"
      by (simp add: take_butlast)
    moreover have "flashcache_drop_pids l d = Some d'"
      using True ne 1(1) 2(1) by (subst flashcache_drop_pids.simps) simp
    ultimately show ?thesis using 1 2 by simp
  qed
qed

text \<open>Without a positive limit the loop runs into its \<open>VERIFY\<close>.\<close>

lemma drop_pids_panics:
  assumes "pid_inv l d" and "sysctl_max_pids (sysctl d) \<le> 0"
  shows "flashcache_drop_pids l d = None"
  using assms
proof (induction "length (pids l d)" arbitrary: d rule: less_induct)
  case less
  have n: "num_pids l d = int (length (pids l d))" and dist: "distinct (map ctl_pid (pids l d))"
    using less.prems by (simp_all add: pid_inv_def)
  show ?case
  proof (cases "pids l d = []")
    case True
    with n less.prems(2) show ?thesis by (subst flashcache_drop_pids.simps) simp
  next
    case ne: False
    from del_pid_spec [OF less.prems(1), of "ctl_pid (last (pids l d))"] obtain d1 where
      1: "flashcache_del_pid_locked (ctl_pid (last (pids l d))) l d = Some d1" "pid_inv l d1"
        "pids l d1 = butlast (pids l d)" "sysctl d1 = sysctl d"
      using filter_last [OF dist ne] by auto
    have "pid_inv l (bump pid_drops_update d1)" using 1(2) by (simp add: pid_inv_def)
    moreover have "length (pids l (bump pid_drops_update d1)) < length (pids l d)" using 1(3) ne by simp
    ultimately have "flashcache_drop_pids l (bump pid_drops_update d1) = None"
      using less.hyps less.prems(2) 1(4) by simp
    with 1(1) ne n less.prems(2) show ?thesis by (subst flashcache_drop_pids.simps) simp
  qed
qed

section \<open>Addition\<close>

lemma add_pid_spec:
  assumes inv: "pid_inv l d" and max: "0 < sysctl_max_pids (sysctl d)" and ok: "alloc_ok d"
    and len: "int (length (pids l d)) \<le> sysctl_max_pids (sysctl d) + 1"
  shows "\<exists>d'. flashcache_add_pid p l d = Some d' \<and> pid_inv l d' \<and> flashcache_find_pid_locked p l d' \<and>
    int (length (pids l d')) \<le> sysctl_max_pids (sysctl d) + 1 \<and> (\<forall>l'. l' \<noteq> l \<longrightarrow> pids l' d' = pids l' d)"
proof -
  let ?m = "sysctl_max_pids (sysctl d)" and ?e = "alloc_next d"
  have e: "pid_inv l ?e" "sysctl ?e = sysctl d" using inv by (simp_all add: pid_inv_def)
  have "\<exists>d1. (if num_pids l ?e > ?m then flashcache_drop_pids l ?e else Some ?e) = Some d1 \<and> pid_inv l d1 \<and>
      int (length (pids l d1)) \<le> ?m \<and> (\<forall>l'. l' \<noteq> l \<longrightarrow> pids l' d1 = pids l' d) \<and> sysctl d1 = sysctl d"
  proof (cases "num_pids l ?e > ?m")
    case True
    from drop_pids_spec [OF e(1)] max e(2) obtain d1 where
      "flashcache_drop_pids l ?e = Some d1" "pid_inv l d1" "pids l d1 = take (nat (?m - 1)) (pids l ?e)"
      "\<forall>l'. l' \<noteq> l \<longrightarrow> pids l' d1 = pids l' ?e" "sysctl d1 = sysctl d" by auto
    with True max show ?thesis by auto
  next
    case False
    with e inv show ?thesis by (auto simp: pid_inv_def)
  qed
  then obtain d1 where 1: "(if num_pids l ?e > ?m then flashcache_drop_pids l ?e else Some ?e) = Some d1"
    "pid_inv l d1" "int (length (pids l d1)) \<le> ?m" "\<forall>l'. l' \<noteq> l \<longrightarrow> pids l' d1 = pids l' d" by blast
  show ?thesis
  proof (cases "flashcache_find_pid_locked p l d1")
    case True
    with 1 ok e(2) show ?thesis by (simp add: flashcache_add_pid_def Let_def)
  next
    case False
    then have "\<forall>n \<in> set (pids l d1). ctl_pid n \<noteq> p"
      by (auto simp: flashcache_find_pid_locked_def list_ex_iff)
    with 1 ok e(2) False show ?thesis
      by (auto simp: flashcache_add_pid_def Let_def pid_inv_def flashcache_find_pid_locked_def)
  qed
qed

end
