(* ===== verification/Invalidate.thy ===== *)
theory Invalidate
  imports Inval Search
begin

text \<open>
  Invalidation takes a block out of the index: the disk block is no longer found and the block is
  at the head of the invalid list of its set.
\<close>

text \<open>The state of a block on no list is free to change.\<close>

lemma set_hash_inv_state:
  assumes inv: "set_hash_inv d s ch iv" and x: "x < assoc d"
    and off: "x \<notin> set (ch (bucket_of d s x))" "x \<notin> set iv"
  shows "set_hash_inv (set_state (s * assoc d + x) st d) s ch iv"
proof -
  let ?d = "set_state (s * assoc d + x) st d"
  have b: "bucket_of ?d s y = bucket_of d s y" for y
    by (simp add: set_state_def flashcache_get_hash_bucket_def upd_blk_def)
  have l: "linked ?d s h xs = linked d s h xs" for h xs
    by (intro linked_frame) (simp_all add: set_state_def upd_blk_def)
  have ne: "y \<noteq> x" if "b < NUM_BLOCK_HASH_BUCKETS" "y \<in> set (ch b)" for y b
    using that off(1) set_hash_invD(3) [OF inv that] by auto
  have iv: "y \<noteq> x" if "y \<in> set iv" for y using that off(2) by auto
  show ?thesis
  proof (rule set_hash_invI)
    show "y < assoc ?d \<and> hashed (blk ?d s y) \<and> bucket_of ?d s y = c"
      if "c < NUM_BLOCK_HASH_BUCKETS" "y \<in> set (ch c)" for c y
      using set_hash_invD(3) [OF inv that] ne [OF that] b [of y] by (simp add: set_state_def)
    show "y < assoc ?d \<and> cache_state (blk ?d s y) = INVALID" if "y \<in> set iv" for y
      using set_hash_invD(4) [OF inv that] iv [OF that] by (simp add: set_state_def)
    show "hnx ?d s y = FLASHCACHE_NULL \<and> hpv ?d s y = FLASHCACHE_NULL"
      if "y < assoc ?d" "y \<notin> set (ch (bucket_of ?d s y))" "y \<notin> set iv" for y
      using set_hash_invD(5) [OF inv, of y] that b [of y]
      by (cases "y = x") (simp_all add: set_state_def upd_blk_def)
  qed (use set_hash_invD(1,2) [OF inv] l in \<open>simp_all add: set_state_def\<close>)
qed

lemma inval_now_spec:
  assumes g: "geometry d" and s: "s < num_sets d" and inv: "set_hash_inv d s ch iv" and u: "unique_dbns d s ch"
    and found: "index_map d s ch k = Some i"
  shows "\<exists>d' ch' x. inval_now i d = Some d' \<and> i = s * assoc d + x \<and> set_hash_inv d' s ch' (x # iv) \<and>
    unique_dbns d' s ch' \<and> index_map d' s ch' = (index_map d s ch)(k := None) \<and> state_of d' i = INVALID \<and>
    geometry d' \<and> num_sets d' = num_sets d"
proof -
  from index_map_SomeD [OF inv found] obtain x where
    i: "i = s * assoc d + x" and x: "x < assoc d" "x \<in> set (ch (bucket_of d s x))" and k: "dbn (blk d s x) = k"
    by blast
  define e where "e = d\<lparr>cached_blocks := cached_blocks d - 1\<rparr>"
  have e: "geometry e" "s < num_sets e" "set_hash_inv e s ch iv" "unique_dbns e s ch" "x < assoc e"
    "x \<in> set (ch (bucket_of e s x))"
    using g s inv u x
    by (simp_all add: e_def geometry_def set_hash_inv_def linked_def unique_dbns_def flashcache_get_hash_bucket_def)
  define ch' where "ch' = ch(bucket_of e s x := remove1 x (ch (bucket_of e s x)))"
  from hash_remove_set [OF e(1-3,5,6)] obtain d1 where
    1: "flashcache_hash_remove (Some i) e = Some d1" "hash_frame s e d1" "set_hash_inv d1 s ch' iv"
    by (auto simp: i e_def ch'_def)
  define d2 where "d2 = set_state i INVALID d1"
  note same = hash_frame_same [OF 1(2)] and blk = hash_frame_blk [OF 1(2)]
  have bk: "flashcache_get_hash_bucket d1 = flashcache_get_hash_bucket e"
    using get_hash_bucket_frame [OF 1(2)] by (simp add: fun_eq_iff)
  have e_sel: "assoc e = assoc d" "cache e = cache d" "kernel e = kernel d" "num_sets e = num_sets d"
    by (simp_all add: e_def)
  have dist: "distinct (ch (bucket_of e s x))"
    using linked_D(1) [OF set_hash_invD(1) [OF e(3) bucket_less]] .
  have off: "x \<notin> set (ch' (bucket_of d1 s x))" "x \<notin> set iv"
    using dist chain_not_invalid [OF e(3) bucket_less e(6)] by (simp_all add: ch'_def bk blk same)
  have "set_hash_inv (set_state (s * assoc d1 + x) INVALID d1) s ch' iv"
    by (rule set_hash_inv_state [OF 1(3) _ off]) (simp add: same e(5))
  then have h2: "set_hash_inv d2 s ch' iv" by (simp add: d2_def i same e_sel)
  have g2: "geometry d2" "s < num_sets d2" "x < assoc d2" "assoc d2 = assoc d"
    using e(1,2,5) geometry_frame [OF 1(2)] by (simp_all add: d2_def set_state_def geometry_def same e_sel)
  have st: "cache_state (blk d2 s x) = INVALID" by (simp add: d2_def set_state_def i same e_sel)
  from invalid_insert_set [OF g2(1-3) h2 st off(2)] obtain d3 where
    3: "flashcache_invalid_insert i d2 = Some d3" "hash_frame s d2 d3" "set_hash_inv d3 s ch' (x # iv)"
    by (auto simp: i g2(4))
  note m = index_map_remove [OF e(3,4,6), folded ch'_def]
  have m1: "index_map d1 s ch' = (index_map e s ch)(k := None)" "unique_dbns d1 s ch'"
    using m k by (simp_all add: index_map_frame [OF 1(2)] unique_dbns_frame [OF 1(2)] e_sel)
  have dbns: "dbn (cache d2 j) = dbn (cache d1 j)" "kernel d2 = kernel d1" "assoc d2 = assoc d1" for j
    by (simp_all add: d2_def set_state_def)
  have "index_map d2 s ch' = index_map d1 s ch'" "unique_dbns d2 s ch' = unique_dbns d1 s ch'"
    by (simp_all add: index_map_def unique_dbns_def fun_eq_iff dbns flashcache_get_hash_bucket_def)
  then have "index_map d3 s ch' = (index_map d s ch)(k := None)" "unique_dbns d3 s ch'"
    using m1 by (simp_all add: index_map_frame [OF 3(2)] unique_dbns_frame [OF 3(2)])
      (simp add: index_map_def e_def flashcache_get_hash_bucket_def fun_eq_iff)
  moreover have "inval_now i d = Some d3"
    using 1(1) 3(1) by (simp add: inval_now_def Let_def d2_def flip: e_def)
  moreover have "state_of d3 i = INVALID"
    using hash_frame_blk(1) [OF 3(2)] st by (simp add: i g2(4))
  moreover have "geometry d3" "num_sets d3 = num_sets d"
    using g2(1) geometry_frame [OF 3(2)] hash_frame_same(3) [OF 3(2)] by (simp_all add: d2_def set_state_def same e_sel)
  ultimately show ?thesis using 3(3) i by blast
qed

lemma set_index_frame:
  assumes "set_index s d m" and "cache d' = cache d" "cache_sets d' = cache_sets d" "kernel d' = kernel d"
    "assoc d' = assoc d" "num_sets d' = num_sets d" "geometry d' = geometry d"
  shows "set_index s d' m"
proof -
  from assms(1) obtain ch iv where "set_hash_inv d s ch iv" "unique_dbns d s ch" "m = index_map d s ch"
    by (auto simp: set_index_def)
  moreover have "flashcache_get_hash_bucket d' = flashcache_get_hash_bucket d"
    by (simp add: fun_eq_iff flashcache_get_hash_bucket_def assms)
  ultimately have "set_hash_inv d' s ch iv" "unique_dbns d' s ch" "m = index_map d' s ch"
    by (simp_all add: set_hash_inv_def linked_def unique_dbns_def index_map_def fun_eq_iff assms)
  with assms show ?thesis by (auto simp: set_index_def)
qed

lemma bump_inval_index: "set_index s d m \<Longrightarrow> set_index s (bump_inval w d) m"
  by (erule set_index_frame) (simp_all add: bump_inval_def bump_def geometry_def)

lemma inval_v3_spec:
  assumes inv: "set_index s d m" and k: "k = bi_sector b AND block_mask d"
    and idle: "\<And>i. m k = Some i \<Longrightarrow> inval_idle i d"
  shows "\<exists>d'. flashcache_inval_block_set_v3 s b d = Some (0, d') \<and> set_index s d' (m(k := None)) \<and>
    (\<forall>i. m k = Some i \<longrightarrow> state_of d' i = INVALID)"
proof -
  have l: "flashcache_hash_lookup d s k = Some (m k)" by (rule set_hash.lookup_law [OF inv])
  show ?thesis
  proof (cases "m k")
    case None
    then have "m(k := None) = m" by (simp add: fun_eq_iff)
    with None l inv show ?thesis by (simp add: flashcache_inval_block_set_v3_def flip: k)
  next
    case (Some i)
    define e where "e = bump_inval (bi_is_write b) d"
    have "set_index s e m" unfolding e_def by (rule bump_inval_index [OF inv])
    then obtain ch iv where e: "geometry e" "s < num_sets e" "set_hash_inv e s ch iv" "unique_dbns e s ch"
      "m = index_map e s ch" by (auto simp: set_index_def)
    from index_map_SomeD [OF e(3)] Some e(5) obtain x where "i = s * assoc e + x" "hashed (blk e s x)" by metis
    then have v: "state_of d i AND VALID \<noteq> 0" by (simp add: hashed_def e_def bump_inval_def bump_def)
    have "index_map e s ch k = Some i" using Some e(5) by simp
    from inval_now_spec [OF e(1-4) this] obtain d' ch' y where
      d': "inval_now i e = Some d'" "set_hash_inv d' s ch' (y # iv)" "unique_dbns d' s ch'"
        "index_map d' s ch' = (index_map e s ch)(k := None)" "state_of d' i = INVALID"
        "geometry d'" "num_sets d' = num_sets e" by blast
    have "inval_idle i e" using idle [OF Some] by (simp add: inval_idle_def e_def bump_inval_def bump_def)
    with d'(1) l v have "flashcache_inval_block_set_v3 s b d = Some (0, d')"
      by (simp add: flashcache_inval_block_set_v3_def Some flip: k e_def)
    moreover have "set_index s d' (m(k := None))"
      using d' e by (auto simp: set_index_def)
    ultimately show ?thesis using d'(5) Some by auto
  qed
qed

end
