(* ===== verification/Prefetch.thy ===== *)
theory Prefetch
  imports Pfd_Stat
begin

text \<open>
  The prefetcher's detector and predictor. The invariant of the statistics of one process and
  device, whatever the sectors it reads, and from it: the loops that list the blocks to prefetch end,
  stay within the array and the disk, and follow the pattern of the runs.
\<close>

section \<open>The invariant of the statistics\<close>

text \<open>
  \<open>run_ok\<close>: the blocks of a run lie on the disk, whose size is \<open>D\<close> sectors. Without a stride there is no
  previous run; with one, the runs do not overlap and the current one is not longer than the previous.
\<close>

definition run_ok :: "int \<Rightarrow> int \<Rightarrow> pfd_seq_stat \<Rightarrow> bool" where
  "run_ok bs D r \<longleftrightarrow> 0 \<le> count r \<and>
     (0 < count r \<longrightarrow> 0 \<le> sint (start r) \<and> sint (start r) + (count r - 1) * bs < D)"

definition stat_inv :: "int \<Rightarrow> int \<Rightarrow> pfd_stat \<Rightarrow> bool" where
  "stat_inv bs D t \<longleftrightarrow> curr_seq_stat t \<noteq> prev_seq_stat t \<and> run_ok bs D (curr_run t) \<and> run_ok bs D (prev_run t) \<and>
     (if count (prev_run t) = 0 then st_stride t = 0 \<and> st_stride_count t = 0
      else 0 < st_stride_count t \<and> 0 < count (curr_run t) \<and> count (curr_run t) \<le> count (prev_run t) \<and>
        st_stride t = sint (start (curr_run t)) - sint (start (prev_run t)) \<and>
        count (prev_run t) * bs \<le> \<bar>st_stride t\<bar>)"

lemma stat_inv_reset: "stat_inv bs D (reset_pfd_stat t)"
  by (simp add: stat_inv_def reset_pfd_stat_def upd_seq_stat_def reset_pfd_seq_stat_def run_ok_def)

text \<open>A request continues a run when it starts where the run ends, also in the unsigned arithmetic of the code.\<close>

lemma run_continues:
  assumes r: "run_ok (2 ^ sh) D r" "0 < count r" and D: "D + 2 ^ sh \<le> 2 ^ 63"
    and k: "0 \<le> sint k" and fit: "is_bio_fit_seq_stat (2 ^ sh) r k"
  shows "sint k = sint (start r) + count r * 2 ^ sh"
proof -
  let ?v = "sint (start r) + count r * 2 ^ sh"
  have v: "0 \<le> ?v" "?v < 2 ^ 63" using r D by (auto simp: run_ok_def algebra_simps)
  have "k = word_of_int (sint (start r)) + word_of_int (count r) * word_of_int (2 ^ sh)"
    using fit by (simp add: is_bio_fit_seq_stat_def)
  then have "k = word_of_int ?v" by (simp only: wi_hom_syms)
  then have "sint k = signed_take_bit 63 ?v" by (simp only: sint_sbintrunc') simp
  also have "\<dots> = ?v" using v by (intro signed_take_bit_int_eq_self) auto
  finally show ?thesis .
qed

lemma stat_step_inv:
  assumes inv: "stat_inv (2 ^ sh) D t" and k: "0 \<le> sint k" "sint k < D" and D: "D + 2 ^ sh \<le> 2 ^ 63"
  shows "stat_inv (2 ^ sh) D (pfd_stat_step (2 ^ sh) sh k t) \<and>
    (let c = curr_run (pfd_stat_step (2 ^ sh) sh k t)
     in 0 < count c \<and> sint k = sint (start c) + (count c - 1) * 2 ^ sh)"
proof -
  let ?c = "curr_run t" and ?p = "prev_run t" and ?d = "sint k - sint (start (curr_run t))"
  have ne: "curr_seq_stat t \<noteq> prev_seq_stat t" "prev_seq_stat t \<noteq> curr_seq_stat t"
    and rc: "run_ok (2 ^ sh) D ?c" and rp: "run_ok (2 ^ sh) D ?p"
    using inv by (auto simp: stat_inv_def)
  have gap: "count ?c * 2 ^ sh \<le> \<bar>?d\<bar>" if "\<not> \<bar>?d\<bar> div 2 ^ sh < count ?c"
  proof -
    have "count ?c * 2 ^ sh \<le> \<bar>?d\<bar> div 2 ^ sh * 2 ^ sh" using that by (intro mult_right_mono) auto
    also have "\<dots> \<le> \<bar>?d\<bar>" by (simp add: minus_mod_eq_div_mult [symmetric])
    finally show ?thesis .
  qed
  note simps = pfd_stat_step_def Let_def stat_inv_def upd_seq_stat_def restart_run_def no_stride_def
    swap_pfd_stat_curr_prev_def reset_pfd_seq_stat_def run_ok_def
  show ?thesis
  proof (cases "count ?c = 0")
    case True
    with inv k ne show ?thesis by (auto simp: simps split: if_splits)
  next
    case False
    then have pos: "0 < count ?c" using rc by (simp add: run_ok_def)
    show ?thesis
    proof (cases "is_bio_fit_seq_stat (2 ^ sh) ?c k")
      case True
      from run_continues [OF rc pos D k(1) True] inv k ne pos False True show ?thesis
        by (auto simp: simps split: if_splits)
    next
      case nofit: False
      show ?thesis
      proof (cases "count ?p = 0")
        case True
        with gap inv k ne pos False nofit rc show ?thesis by (auto simp: simps split: if_splits)
      next
        case prev: False
        with inv k ne pos False nofit rc show ?thesis by (auto simp: simps split: if_splits)
      qed
    qed
  qed
qed

section \<open>The loops\<close>

text \<open>Sequential reads: the following blocks up to the end of the disk.\<close>

lemma prefetch_seq_eq:
  assumes "0 \<le> bs"
  shows "prefetch_seq n k bs D = takeWhile (\<lambda>x. x < D) (map (\<lambda>i. k + (1 + int i) * bs) [0..<n])"
proof (induction n arbitrary: k)
  case (Suc n)
  have "map (\<lambda>i. k + (1 + int i) * bs) [0..<Suc n] =
      (k + bs) # map (\<lambda>i. (k + bs) + (1 + int i) * bs) [0..<n]"
    by (simp add: upt_conv_Cons map_Suc_upt [symmetric] algebra_simps del: upt_Suc)
  then show ?case by (simp add: Let_def Suc.IH)
qed simp

text \<open>
  Strided reads forward: the \<open>m\<close>th block after the start \<open>s\<close> of the current run, when the runs have
  \<open>tot\<close> blocks.
\<close>

definition strided :: "int \<Rightarrow> int \<Rightarrow> int \<Rightarrow> int \<Rightarrow> int \<Rightarrow> int" where
  "strided s tot stride bs m = s + (m div tot) * stride + (m mod tot) * bs"

lemma strided_at: "0 < tot \<Longrightarrow> 0 \<le> j \<Longrightarrow> j < tot \<Longrightarrow> strided s tot stride bs (b * tot + j) = s + b * stride + j * bs"
  by (simp add: strided_def)

lemma prefetch_forward_eq:
  assumes "0 < tot" and "0 \<le> j" "j \<le> tot" and "int (length arr) \<le> mx"
    and "k + bs = s + b * stride + j * bs" and "n = nat (mx - int (length arr))"
  shows "\<exists>xs. prefetch_forward mx tot stride bs D k j arr = Some (int (length (arr @ xs)), arr @ xs) \<and>
    xs = takeWhile (\<lambda>x. x < D) (map (\<lambda>i. strided s tot stride bs (b * tot + j + int i)) [0..<n])"
  using assms(2-6)
proof (induction n arbitrary: arr k j b)
  case 0
  then have full: "int (length arr) = mx" by simp
  show ?case
  proof (cases "j < tot")
    case True
    with full show ?thesis by (subst prefetch_forward.simps) simp
  next
    case False
    with full assms(1) show ?thesis by (subst prefetch_forward.simps, subst prefetch_forward.simps) simp
  qed
next
  case (Suc n)
  have step: "\<exists>xs. prefetch_forward mx tot stride bs D k j arr = Some (int (length (arr @ xs)), arr @ xs) \<and>
      xs = takeWhile (\<lambda>x. x < D) (map (\<lambda>i. strided s tot stride bs (b * tot + j + int i)) [0..<Suc n])"
    if j: "0 \<le> j" "j < tot" and k: "k + bs = s + b * stride + j * bs" for j k b
  proof -
    have more: "int (length arr) < mx" using Suc.prems by simp
    have x: "strided s tot stride bs (b * tot + j) = k + bs" using strided_at [OF assms(1) j] k by simp
    have upt: "map (\<lambda>i. strided s tot stride bs (b * tot + j + int i)) [0..<Suc n] =
        (k + bs) # map (\<lambda>i. strided s tot stride bs (b * tot + (j + 1) + int i)) [0..<n]"
      using x by (simp add: upt_conv_Cons map_Suc_upt [symmetric] algebra_simps del: upt_Suc)
    show ?thesis
    proof (cases "k + bs \<ge> D")
      case True
      with j more show ?thesis by (subst prefetch_forward.simps) (simp add: upt del: upt_Suc)
    next
      case False
      have len: "int (length (arr @ [k + bs])) \<le> mx" "n = nat (mx - int (length (arr @ [k + bs])))"
        using Suc.prems(5) by simp_all
      have "0 \<le> j + 1" "j + 1 \<le> tot" "(k + bs) + bs = s + b * stride + (j + 1) * bs"
        using j k by (simp_all add: algebra_simps)
      from Suc.IH [OF this(1,2) len(1) this(3) len(2)] obtain xs where
        "prefetch_forward mx tot stride bs D (k + bs) (j + 1) (arr @ [k + bs]) =
          Some (int (length ((arr @ [k + bs]) @ xs)), (arr @ [k + bs]) @ xs)"
        "xs = takeWhile (\<lambda>x. x < D) (map (\<lambda>i. strided s tot stride bs (b * tot + (j + 1) + int i)) [0..<n])" by blast
      with j more False show ?thesis by (subst prefetch_forward.simps) (simp add: upt del: upt_Suc)
    qed
  qed
  show ?case
  proof (cases "j < tot")
    case True
    with step Suc.prems show ?thesis by blast
  next
    case False
    then have j: "j = tot" using Suc.prems by simp
    have "prefetch_forward mx tot stride bs D k j arr =
        prefetch_forward mx tot stride bs D (k + (stride - tot * bs)) 0 arr"
      using False by (subst prefetch_forward.simps) simp
    moreover have "k + (stride - tot * bs) + bs = s + (b + 1) * stride + 0 * bs"
      using Suc.prems j by (simp add: algebra_simps)
    ultimately show ?thesis using step [of 0 "k + (stride - tot * bs)" "b + 1"] assms(1) j
      by (simp add: algebra_simps)
  qed
qed

text \<open>Strided reads backward: the loop ends within the array and between the start of the disk and \<open>U\<close>.\<close>

lemma prefetch_backward_ok:
  assumes "0 < tot" and "0 \<le> bs" and "stride \<le> 0" and "0 \<le> j" "j \<le> tot" and "int (length arr) \<le> mx"
    and "k + (j - tmp) * bs - bs \<le> U" and "0 \<le> tmp" "tmp \<le> j" and "n = nat (mx - int (length arr))"
  shows "\<exists>m xs. prefetch_backward mx tot stride bs tmp k j arr = Some (m, arr @ xs) \<and>
    \<bar>m\<bar> \<le> int (length (arr @ xs)) \<and> int (length (arr @ xs)) \<le> mx \<and> (\<forall>x \<in> set xs. 0 \<le> x \<and> x \<le> U)"
  using assms(4-10)
proof (induction n arbitrary: arr k j tmp)
  case 0
  then have full: "int (length arr) = mx" by simp
  show ?case
  proof (cases "j < tot")
    case True
    with full show ?thesis by (subst prefetch_backward.simps) simp
  next
    case False
    with full assms(1) show ?thesis by (subst prefetch_backward.simps, subst prefetch_backward.simps) simp
  qed
next
  case (Suc n)
  have step: "\<exists>m xs. prefetch_backward mx tot stride bs tmp k j arr = Some (m, arr @ xs) \<and>
      \<bar>m\<bar> \<le> int (length (arr @ xs)) \<and> int (length (arr @ xs)) \<le> mx \<and> (\<forall>x \<in> set xs. 0 \<le> x \<and> x \<le> U)"
    if j: "0 \<le> j" "j < tot" and k: "k + (j - tmp) * bs - bs \<le> U" and tmp: "0 \<le> tmp" "tmp \<le> j" for j k tmp
  proof (cases "k - bs < 0")
    case True
    with j Suc.prems show ?thesis by (subst prefetch_backward.simps) auto
  next
    case False
    have "0 \<le> (j - tmp) * bs" using tmp assms(2) by simp
    with k have u: "k - bs \<le> U" by simp
    have "(k - bs) + ((j + 1) - tmp) * bs - bs \<le> U" using k by (simp add: algebra_simps)
    moreover have "0 \<le> j + 1" "j + 1 \<le> tot" "tmp \<le> j + 1" using j tmp by simp_all
    moreover have "int (length (arr @ [k - bs])) \<le> mx" "n = nat (mx - int (length (arr @ [k - bs])))"
      using Suc.prems(7) by simp_all
    ultimately obtain m xs where
      "prefetch_backward mx tot stride bs tmp (k - bs) (j + 1) (arr @ [k - bs]) = Some (m, (arr @ [k - bs]) @ xs)"
      "\<bar>m\<bar> \<le> int (length ((arr @ [k - bs]) @ xs))" "int (length ((arr @ [k - bs]) @ xs)) \<le> mx"
      "\<forall>x \<in> set xs. 0 \<le> x \<and> x \<le> U" using Suc.IH tmp(1) by blast
    with j False u Suc.prems show ?thesis
      by (subst prefetch_backward.simps) (auto intro!: exI [of _ "(k - bs) # xs"])
  qed
  show ?case
  proof (cases "j < tot")
    case True
    with step Suc.prems show ?thesis by blast
  next
    case False
    then have j: "j = tot" using Suc.prems by simp
    have "prefetch_backward mx tot stride bs tmp k j arr =
        prefetch_backward mx tot stride bs 0 (k + stride + tot * bs - tmp * bs) 0 arr"
      using False by (subst prefetch_backward.simps) simp
    moreover have u: "k + stride + tot * bs - tmp * bs + (0 - 0) * bs - bs \<le> U"
      using Suc.prems(4) assms(3) j by (simp add: algebra_simps)
    ultimately show ?thesis using step [OF _ assms(1) u] by simp
  qed
qed

section \<open>What is prefetched\<close>

text \<open>
  From the statistics that \<open>pfd_stat_update\<close> leaves behind, the list of blocks has room in the array of
  the caller and stays on the disk.
\<close>

lemma prefetch_dbns_ok:
  assumes inv: "stat_inv (2 ^ block_shift d) (int (disk_nr_sects (kernel d))) t"
    and k: "0 \<le> sint k" "sint k < int (disk_nr_sects (kernel d))"
    and c: "0 < count (curr_run t)" "sint k = sint (start (curr_run t)) + (count (curr_run t) - 1) * 2 ^ block_shift d"
    and g: "block_size d = 2 ^ block_shift d"
  shows "\<exists>n xs. pfd_stat_get_prefetch_dbns d (stat_info k t) = Some (n, xs) \<and>
    \<bar>n\<bar> \<le> int (length xs) \<and> int (length xs) \<le> PFD_CACHE_MAX_STEP \<and>
    (\<forall>x \<in> set xs. 0 \<le> x \<and> x < int (disk_nr_sects (kernel d)))"
proof -
  define info where "info = stat_info k t"
  define bs D tot seq stride mx where defs: "bs = (2 :: int) ^ block_shift d" "D = int (disk_nr_sects (kernel d))"
    "tot = count (prev_run t)" "seq = count (curr_run t)" "stride = st_stride t" "mx = prefetch_max_step info"
  have i: "last_sect info = k" "seq_count info = seq" "seq_total_count info = tot"
    "stride_distance_sect info = stride" "stride_count info = st_stride_count t"
    by (simp_all add: info_def stat_info_def defs)
  have bs: "0 < bs" "int (block_size d) = bs" using g by (simp_all add: defs)
  have tot: "0 \<le> tot" and seq: "0 < seq" using inv c(1) by (simp_all add: stat_inv_def run_ok_def defs)
  have sc: "0 \<le> st_stride_count t" using inv by (auto simp: stat_inv_def split: if_splits)
  have mx: "0 \<le> mx" "mx \<le> PFD_CACHE_MAX_STEP"
  proof -
    have "0 \<le> min PFD_CACHE_MAX_STEP (st_stride_count t * tot + seq)"
      using sc tot seq by (simp add: PFD_CACHE_MAX_STEP_def)
    moreover have "0 \<le> PFD_CACHE_BLOCK_COUNT div \<bar>stride\<bar> * tot"
      using tot by (simp add: div_int_pos_iff PFD_CACHE_BLOCK_COUNT_def)
    ultimately show "0 \<le> mx" "mx \<le> PFD_CACHE_MAX_STEP"
      by (auto simp: defs(6) prefetch_max_step_def Let_def i)
  qed
  have D: "sint k < D" "0 \<le> D" using k by (simp_all add: defs)
  note run = pfd_stat_get_prefetch_dbns_def [of d info, unfolded Let_def i, folded defs(1,2,6), unfolded bs(2)]
  have "\<exists>n xs. pfd_stat_get_prefetch_dbns d info = Some (n, xs) \<and>
    \<bar>n\<bar> \<le> int (length xs) \<and> int (length xs) \<le> mx \<and> (\<forall>x \<in> set xs. 0 \<le> x \<and> x < D)"
  proof (cases "st_stride_count t * tot + seq < PFD_CACHE_THRESHOLD_STEP")
    case True
    with mx show ?thesis by (simp add: run)
  next
    case more: False
    show ?thesis
    proof (cases "tot = 0")
      case True
      define xs where "xs = prefetch_seq (nat mx) (sint k) bs D"
      have xs: "xs = takeWhile (\<lambda>x. x < D) (map (\<lambda>i. sint k + (1 + int i) * bs) [0..<nat mx])"
        unfolding xs_def using bs by (intro prefetch_seq_eq) simp
      have "length xs \<le> nat mx" unfolding xs by (rule order_trans [OF length_takeWhile_le]) simp
      moreover have "0 \<le> x \<and> x < D" if "x \<in> set xs" for x
        using that k(1) bs unfolding xs by (auto dest!: set_takeWhileD)
      moreover have "pfd_stat_get_prefetch_dbns d info = Some (if int (length xs) < mx then int (length xs) else mx, xs)"
        using more True by (simp add: run xs_def)
      ultimately show ?thesis using mx by auto
    next
      case False
      then have pos: "0 < tot" using tot by simp
      have st: "0 < count (curr_run t)" "seq \<le> tot" "stride = sint (start (curr_run t)) - sint (start (prev_run t))"
        "tot * bs \<le> \<bar>stride\<bar>" "sint (start (prev_run t)) + (tot - 1) * bs < D" "0 \<le> sint (start (prev_run t))"
        using inv False pos by (auto simp: stat_inv_def defs run_ok_def)
      have kk: "sint k = sint (start (curr_run t)) + (seq - 1) * bs" using c(2) by (simp add: defs)
      have tb: "0 < tot * bs" using pos bs by simp
      show ?thesis
      proof (cases "stride > 0")
        case True
        from prefetch_forward_eq [of tot seq "[]" mx "sint k" bs "sint (start (curr_run t))" 0 stride "nat mx" D]
        obtain xs where xs: "prefetch_forward mx tot stride bs D (sint k) seq [] = Some (int (length xs), xs)"
          "xs = takeWhile (\<lambda>x. x < D) (map (\<lambda>i. strided (sint (start (curr_run t))) tot stride bs (seq + int i)) [0..<nat mx])"
          using pos seq st(2) mx kk by (auto simp: algebra_simps)
        have "length xs \<le> nat mx" unfolding xs(2) by (rule order_trans [OF length_takeWhile_le]) simp
        moreover have "0 \<le> strided (sint (start (curr_run t))) tot stride bs (seq + int i)" for i
          using True pos seq bs inv c(1) by (simp add: strided_def stat_inv_def run_ok_def pos_imp_zdiv_nonneg_iff)
        then have "0 \<le> x \<and> x < D" if "x \<in> set xs" for x
          using that unfolding xs(2) by (auto dest!: set_takeWhileD)
        moreover have "pfd_stat_get_prefetch_dbns d info = Some (int (length xs), xs)"
          using more False True xs(1) by (simp add: run)
        ultimately show ?thesis using mx by auto
      next
        case neg: False
        then have str: "stride < 0" "stride \<le> - (tot * bs)" using st(4) tb by auto
        define b where "b = (if tot = seq then (0, sint k + stride + bs, 0) else (seq, sint k + (tot - seq + 1) * bs, seq))"
        obtain tmp k0 j0 where b: "b = (tmp, k0, j0)" by (cases b)
        have "k0 + (j0 - tmp) * bs - bs \<le> D - 1" "0 \<le> j0" "j0 \<le> tot" "0 \<le> tmp" "tmp \<le> j0"
        proof -
          have "0 \<le> (tot - 1) * bs" using pos bs by simp
          then have "sint (start (prev_run t)) < D" using st(5) by linarith
          moreover have "sint k + (tot - seq + 1) * bs - bs = sint (start (curr_run t)) + tot * bs - bs"
            unfolding kk by algebra
          ultimately have "sint k + (tot - seq + 1) * bs - bs \<le> D - 1"
            using st(3) str(2) bs(1) by linarith
          then show "k0 + (j0 - tmp) * bs - bs \<le> D - 1" using b str(1) D by (auto simp: b_def split: if_splits)
          show "0 \<le> j0" "j0 \<le> tot" "0 \<le> tmp" "tmp \<le> j0"
            using b seq st(2) pos by (auto simp: b_def split: if_splits)
        qed
        from prefetch_backward_ok [where arr = "[]" and mx = mx and stride = stride and n = "nat mx",
            OF pos _ _ this(2,3) _ this(1,4,5)] bs str mx
        obtain m xs where xs: "prefetch_backward mx tot stride bs tmp k0 j0 [] = Some (m, xs)"
          "\<bar>m\<bar> \<le> int (length xs)" "int (length xs) \<le> mx" "\<forall>x \<in> set xs. 0 \<le> x \<and> x \<le> D - 1" by auto
        moreover have "pfd_stat_get_prefetch_dbns d info = Some (m, xs)"
          using more False neg str xs(1) b by (auto simp: run b_def split: if_splits)
        ultimately show ?thesis by auto
      qed
    qed
  qed
  with mx(2) show ?thesis unfolding info_def defs(2) by fastforce
qed

end
