(* ===== verification/Cases.thy ===== *)
theory Cases
  imports Run Mdwrite Pids Invalidate Prefetch
begin

text \<open>
  Concrete states for the theorems on single operations: a metadata job, a flash device left behind by a
  crash, two pid lists, and the statistics of a process that reads with a stride.
\<close>

section \<open>A metadata job\<close>

definition demo_job :: kcached_job where
  "demo_job = (the (fst (new_kcached_job (Some demo_block_bio) (Some 1) demo_wb)))\<lparr>job_action := WRITECACHE\<rparr>"

lemma demo_job_sel [simp]:
  "job_index demo_job = Some 1" "job_action demo_job = WRITECACHE" "job_bio demo_job = Some demo_block_bio"
  by (simp_all add: demo_job_def demo_wb_run)

lemma demo_wb_md_sel:
  "in_md_block demo_wb 0 1" "MD_SLOTS_PER_BLOCK demo_wb \<noteq> 0" "alloc_ok demo_wb"
  "sysctl_error_inject (sysctl demo_wb) AND MD_ALLOC_SECTOR_ERROR = 0"
  "queued_updates (md_blocks_buf demo_wb 0) = []"
  "mode demo_wb = FLASHCACHE_WRITE_BACK" "dbn (cache demo_wb 1) = 16"
  by (simp_all add: in_md_block_def INDEX_TO_MD_BLOCK_def MD_SLOTS_PER_BLOCK_def MD_BLOCK_BYTES_def
      SIZEOF_FLASH_CACHEBLOCK_def demo_wb_run zero_cache_md_block_head_def)

section \<open>A cache on the flash device\<close>

text \<open>A cache whose geometry can be stored, and a flash device that was in use when the machine stopped.\<close>

definition demo_store :: cache_c where
  "demo_store = demo_wb\<lparr>on_ssd_version := FLASHCACHE_VERSION\<rparr>"

lemma demo_store_sel:
  "md_size_ok demo_store" "no_failures demo_store" "on_ssd_version demo_store = FLASHCACHE_VERSION"
  "\<forall>i < csize demo_store. state_of demo_store i AND (VALID OR INVALID) \<noteq> VALID OR INVALID"
  "csize demo_store = 8" "dbn (cache demo_store 1) = 16" "no_failures demo"
  by (simp_all add: demo_store_def md_size_ok_def no_failures_def demo_wb_run FLASHCACHE_MAX_MD_BLOCK_SIZE_def
      flag_defs zero_cacheblock_def)

definition demo_crashed :: cache_c where
  "demo_crashed = demo
     \<lparr>ssd_sb := zero_flash_superblock\<lparr>sb_size := 2, sb_assoc := 2, sb_block_size := 8, sb_md_block_size := 8,
        cache_sb_state := CACHE_MD_STATE_DIRTY, cache_version := FLASHCACHE_VERSION\<rparr>,
      ssd_md := (\<lambda>i. if i = 0 then (24, ucast (VALID OR DIRTY)) else (32, ucast VALID))\<rparr>"

lemma demo_crashed_sel:
  "no_failures demo_crashed" "header_ok (ssd_sb demo_crashed)"
  "cache_sb_state (ssd_sb demo_crashed) = CACHE_MD_STATE_DIRTY" "sb_size (ssd_sb demo_crashed) = 2"
  "ssd_md demo_crashed 0 = (24, ucast (VALID OR DIRTY))" "ssd_md demo_crashed 1 = (32, ucast VALID)"
  "\<forall>i < sb_size (ssd_sb demo_crashed). slot_ok False (ssd_md demo_crashed i)"
  by (simp_all add: demo_crashed_def no_failures_def header_ok_def valid_sb_state_def zero_flash_superblock_def
      FLASHCACHE_VERSION_def FLASHCACHE_MAX_MD_BLOCK_SIZE_def demo_run slot_ok_def flag_defs)

section \<open>Pid lists\<close>

definition demo_pids :: "int \<Rightarrow> cache_c" where
  "demo_pids n = set_pids FLASHCACHE_WHITELIST [\<lparr>ctl_pid = 10, ctl_expiry = 0\<rparr>, \<lparr>ctl_pid = 11, ctl_expiry = 0\<rparr>] 2
     (sysctl_update (sysctl_max_pids_update (\<lambda>_. n)) demo)"

lemma demo_pids_sel [simp]:
  "pids FLASHCACHE_WHITELIST (demo_pids n) = [\<lparr>ctl_pid = 10, ctl_expiry = 0\<rparr>, \<lparr>ctl_pid = 11, ctl_expiry = 0\<rparr>]"
  "pid_inv FLASHCACHE_WHITELIST (demo_pids n)" "sysctl_max_pids (sysctl (demo_pids n)) = n" "alloc_ok (demo_pids n)"
  by (simp_all add: demo_pids_def pid_inv_def alloc_ok_def demo_run)

section \<open>A process that reads with a stride\<close>

definition demo_stat :: pfd_stat where
  "demo_stat = pfd_stat_step 8 3 800 (pfd_stat_step 8 3 408 (pfd_stat_step 8 3 400
     (pfd_stat_step 8 3 8 (pfd_stat_step 8 3 0 (reset_pfd_stat zero_pfd_stat)))))"

lemma demo_stat_inv: "stat_inv 8 4096 demo_stat"
proof -
  have step: "stat_inv 8 4096 (pfd_stat_step 8 3 k t)"
    if "stat_inv 8 4096 t" "0 \<le> sint k" "sint k < 4096" for k t
    using stat_step_inv [of 3 4096 t k] that by (simp add: Let_def)
  show ?thesis unfolding demo_stat_def by (intro step stat_inv_reset) simp_all
qed

section \<open>A block in the hash\<close>

lemmas demo_hashed_eval = demo_hashed_def demo_ready_def flashcache_hash_insert_def demo_run upd_bucket_def
  upd_blk_def upd_set_def flashcache_get_hash_bucket_def bind_verify_if demo_consts

lemma demo_hashed_mask: "bi_sector demo_block_bio AND block_mask demo_hashed = 16"
  by (simp add: demo_hashed_eval)

lemma demo_hashed_idle: "inval_idle 1 demo_hashed"
  by (simp add: inval_idle_def demo_hashed_eval)

end
