(* ===== verification/Wt.thy ===== *)
theory Wt
  imports Cache Zero
begin

text \<open>
  The separate write through driver, \<open>flashcache-wt/src/flashcache_wt.c\<close> and its header: a cache
  without metadata on the flash device and without queues on its blocks. A write goes to the disk and then
  to the cache; a request that meets a block with an I/O in progress marks the block \<open>INPROG_INVALID\<close>
  and goes around the cache.

  Every handler is one operation, although the code drops its spin lock inside some of them. The statistics
  of \<open>FLASHCACHE_WT_CHECKSUMS\<close>, which the header leaves undefined, are left out. Indices are natural
  numbers: the code keeps them in \<open>int\<close>, so a cache has fewer than \<open>2 ^ 31\<close> blocks.
\<close>

section \<open>The header\<close>

datatype wt_rw = WT_READCACHE | WT_WRITECACHE | WT_READSOURCE | WT_WRITESOURCE | WT_SOURCEIO_DONE | WT_READCACHE_DONE

definition WT_DEFAULT_CACHE_ASSOC :: nat where "WT_DEFAULT_CACHE_ASSOC = 512"
definition WT_DEFAULT_BLOCK_SIZE :: nat where "WT_DEFAULT_BLOCK_SIZE = 8"

text \<open>The states of a block, in the order that the comparisons of the code rely on.\<close>

definition WT_INVALID :: nat where "WT_INVALID = 0"
definition WT_VALID :: nat where "WT_VALID = 1"
definition WT_INPROG :: nat where "WT_INPROG = 2"
definition WT_CACHEREADINPROG :: nat where "WT_CACHEREADINPROG = 3"
definition WT_INPROG_INVALID :: nat where "WT_INPROG_INVALID = 4"

lemmas wt_states = WT_INVALID_def WT_VALID_def WT_INPROG_def WT_CACHEREADINPROG_def WT_INPROG_INVALID_def

text \<open>A job. The code leaves \<open>rw\<close> of a request that goes around the cache uninitialised.\<close>

record wt_job =
  wj_bio :: bio
  wj_disk :: "sector \<times> nat"
  wj_cache :: "(sector \<times> nat) option"
  wj_index :: "nat option"
  wj_rw :: "wt_rw option"

text \<open>
  A request at a device: the region, the direction, the callback and its context. \<open>wi_done\<close> is the
  device's progress: the sectors of the region that have been transferred.
\<close>

datatype wt_notify = Wt_io_callback | Wt_uncached_io_callback

record wt_io =
  wi_dev :: device
  wi_write :: bool
  wi_sector :: sector
  wi_count :: nat
  wi_fn :: wt_notify
  wi_job :: wt_job
  wi_done :: "nat set"

record wt_cache =
  wt_dbn :: "nat \<Rightarrow> sector"
  wt_state :: "nat \<Rightarrow> nat"
  wt_set_lru_next :: "nat \<Rightarrow> nat"
  wt_write_around_mode :: int
  wt_size :: nat
  wt_assoc :: nat
  wt_block_size :: nat
  wt_block_shift :: nat
  wt_block_mask :: nat
  wt_consecutive_shift :: nat
  wt_nr_jobs :: int
  wt_reads :: u64
  wt_writes :: u64
  wt_cache_hits :: u64
  wt_replace :: u64
  wt_wr_invalidates :: u64
  wt_rd_invalidates :: u64
  wt_cached_blocks :: u64
  wt_cache_wr_replace :: u64
  wt_uncached_reads :: u64
  wt_uncached_writes :: u64
  wt_cache_reads :: u64
  wt_cache_writes :: u64
  wt_disk_reads :: u64
  wt_disk_writes :: u64
  wt_size_hist :: "nat \<Rightarrow> u64"
  wt_complete_jobs :: "wt_job list"
  wt_io_jobs :: "wt_job list"
  wt_inflight :: "wt_io list"
  wt_completed :: "(bio \<times> int) list"
  wt_alloc_script :: "bool list"

definition wt_set_state :: "nat \<Rightarrow> nat \<Rightarrow> wt_cache \<Rightarrow> wt_cache" where
  "wt_set_state i st d = d\<lparr>wt_state := (wt_state d)(i := st)\<rparr>"

definition wt_endio :: "bio \<Rightarrow> int \<Rightarrow> wt_cache \<Rightarrow> wt_cache" where
  "wt_endio b err d = d\<lparr>wt_completed := wt_completed d @ [(b, err)]\<rparr>"

section \<open>Jobs\<close>

text \<open>The outcome of \<open>mempool_alloc\<close> comes from a script; the allocation succeeds when it is empty.\<close>

definition wt_alloc_ok :: "wt_cache \<Rightarrow> bool" where
  "wt_alloc_ok d = hd_or True (wt_alloc_script d)"

definition wt_alloc_next :: "wt_cache \<Rightarrow> wt_cache" where
  "wt_alloc_next d = d\<lparr>wt_alloc_script := tl (wt_alloc_script d)\<rparr>"

text \<open>\<open>index << block_shift\<close> is computed in \<open>int\<close> and then widened.\<close>

definition wt_cache_sector :: "nat \<Rightarrow> wt_cache \<Rightarrow> sector" where
  "wt_cache_sector index d = scast (push_bit (wt_block_shift d) (of_nat index :: 32 word))"

definition wt_new_kcached_job :: "bio \<Rightarrow> nat option \<Rightarrow> wt_cache \<Rightarrow> wt_job option \<times> wt_cache" where
  "wt_new_kcached_job b index d =
     (if wt_alloc_ok d
      then (Some \<lparr>wj_bio = b,
                  wj_disk = (bi_sector b,
                             if index \<noteq> None then wt_block_size d else unat (to_sector b)),
                  wj_cache = map_option (\<lambda>i. (wt_cache_sector i d, wt_block_size d)) index,
                  wj_index = index, wj_rw = None\<rparr>, wt_alloc_next d)
      else (None, wt_alloc_next d))"

definition wt_job_done :: "wt_cache \<Rightarrow> wt_cache" where
  "wt_job_done d = d\<lparr>wt_nr_jobs := wt_nr_jobs d - 1\<rparr>"

definition wt_submit :: "device \<Rightarrow> bool \<Rightarrow> sector \<times> nat \<Rightarrow> wt_notify \<Rightarrow> wt_job \<Rightarrow> wt_cache \<Rightarrow> wt_cache" where
  "wt_submit dev write where fn job d =
     d\<lparr>wt_inflight := wt_inflight d @
         [\<lparr>wi_dev = dev, wi_write = write, wi_sector = fst where, wi_count = snd where, wi_fn = fn,
           wi_job = job, wi_done = {}\<rparr>]\<rparr>"

section \<open>Lookup\<close>

text \<open>The number of sets is 0 when the device holds less than one set; the division then faults.\<close>

definition wt_num_sets :: "wt_cache \<Rightarrow> nat" where
  "wt_num_sets d = drop_bit (wt_consecutive_shift d) (wt_size d)"

definition wt_hash_block :: "wt_cache \<Rightarrow> sector \<Rightarrow> nat option" where
  "wt_hash_block d k = do {
     let v = unat (drop_bit (wt_block_shift d + wt_consecutive_shift d) k);
     verify (wt_num_sets d \<noteq> 0);
     Some (v mod wt_num_sets d)
   }"

definition wt_find_valid_dbn :: "wt_cache \<Rightarrow> sector \<Rightarrow> nat \<Rightarrow> nat option" where
  "wt_find_valid_dbn d k start_index =
     find (\<lambda>i. k = wt_dbn d i \<and>
             (wt_state d i = WT_VALID \<or> wt_state d i = WT_CACHEREADINPROG \<or> wt_state d i = WT_INPROG))
       [start_index..<start_index + wt_assoc d]"

definition wt_find_invalid_dbn :: "wt_cache \<Rightarrow> nat \<Rightarrow> nat option" where
  "wt_find_invalid_dbn d start_index =
     find (\<lambda>i. wt_state d i = WT_INVALID) [start_index..<start_index + wt_assoc d]"

text \<open>The sweep over the set: the block found, and where the sweep stopped.\<close>

primrec wt_reclaim_loop :: "wt_cache \<Rightarrow> nat \<Rightarrow> nat \<Rightarrow> nat \<Rightarrow> nat \<Rightarrow> (nat option \<times> nat) option" where
  "wt_reclaim_loop d start_index end_index 0 i = Some (None, i)"
| "wt_reclaim_loop d start_index end_index (Suc slots) i = do {
     verify (i \<ge> start_index);
     verify (i < end_index);
     if wt_state d i = WT_VALID then Some (Some i, i)
     else wt_reclaim_loop d start_index end_index slots (if i + 1 = end_index then start_index else i + 1)
   }"

definition wt_find_reclaim_dbn :: "nat \<Rightarrow> wt_cache \<Rightarrow> (nat option \<times> wt_cache) option" where
  "wt_find_reclaim_dbn start_index d = do {
     let end_index = start_index + wt_assoc d;
     let set_no = start_index div wt_assoc d;
     (found, i) \<leftarrow> wt_reclaim_loop d start_index end_index (wt_assoc d) (wt_set_lru_next d set_no);
     let i = (if i + 1 = end_index then start_index else i + 1);
     Some (found, d\<lparr>wt_set_lru_next := (wt_set_lru_next d)(set_no := i)\<rparr>)
   }"

text \<open>
  The result is the state of the block found, \<open>INVALID\<close> for a block to claim, or \<open>None\<close> for the
  result \<open>-1\<close>, with the index.
\<close>

definition wt_cache_lookup :: "bio \<Rightarrow> wt_cache \<Rightarrow> (nat option \<times> nat \<times> wt_cache) option" where
  "wt_cache_lookup b d = do {
     let k = bi_sector b;
     set_number \<leftarrow> wt_hash_block d k;
     let start_index = wt_assoc d * set_number;
     case wt_find_valid_dbn d k start_index of
       Some i \<Rightarrow> Some (Some (wt_state d i), i, d)
     | None \<Rightarrow> (case wt_find_invalid_dbn d start_index of
         Some i \<Rightarrow> Some (Some WT_INVALID, i, d)
       | None \<Rightarrow> do {
           (oldest_clean, d) \<leftarrow> wt_find_reclaim_dbn start_index d;
           case oldest_clean of
             Some i \<Rightarrow> Some (Some WT_INVALID, i, d)
           | None \<Rightarrow> Some (None, start_index + wt_assoc d, d)
         })
   }"

section \<open>Requests around the cache\<close>

definition wt_start_uncached_io :: "bio \<Rightarrow> wt_cache \<Rightarrow> wt_cache" where
  "wt_start_uncached_io b d =
     (case wt_new_kcached_job b None d of
        (None, d) \<Rightarrow> wt_endio b (- EIO) d
      | (Some job, d) \<Rightarrow>
          let d = d\<lparr>wt_nr_jobs := wt_nr_jobs d + 1\<rparr>;
              d = (if bi_is_write b then d\<lparr>wt_disk_writes := wt_disk_writes d + 1\<rparr>
                   else d\<lparr>wt_disk_reads := wt_disk_reads d + 1\<rparr>)
          in wt_submit DiskDev (bi_is_write b) (wj_disk job) Wt_uncached_io_callback job d)"

section \<open>Invalidation\<close>

text \<open>
  One block of a set; the state counts the I/Os in progress that are invalidated. (The number of
  invalidations, the result of \<open>cache_invalidate_block_set\<close>, is discarded by its callers.)
\<close>

definition wt_overlaps :: "wt_cache \<Rightarrow> nat \<Rightarrow> sector \<Rightarrow> sector \<Rightarrow> bool" where
  "wt_overlaps d i io_start io_end \<longleftrightarrow>
     (let start_dbn = wt_dbn d i; end_dbn = start_dbn + of_nat (wt_block_size d)
      in (io_start \<ge> start_dbn \<and> io_start < end_dbn) \<or> (io_end \<ge> start_dbn \<and> io_end < end_dbn))"

definition wt_invalidate_one :: "sector \<Rightarrow> sector \<Rightarrow> bool \<Rightarrow> nat \<Rightarrow> nat \<times> wt_cache \<Rightarrow> nat \<times> wt_cache" where
  "wt_invalidate_one io_start io_end rw i s =
     (let (inprog_inval, d) = s
      in if wt_state d i = WT_INVALID \<or> wt_state d i = WT_INPROG_INVALID then (inprog_inval, d)
         else if wt_overlaps d i io_start io_end
         then let d = (if rw then d\<lparr>wt_wr_invalidates := wt_wr_invalidates d + 1\<rparr>
                       else d\<lparr>wt_rd_invalidates := wt_rd_invalidates d + 1\<rparr>)
              in if wt_state d i = WT_VALID
                 then (inprog_inval, wt_set_state i WT_INVALID (d\<lparr>wt_cached_blocks := wt_cached_blocks d - 1\<rparr>))
                 else if wt_state d i \<ge> WT_INPROG
                 then (inprog_inval + 1, wt_set_state i WT_INPROG_INVALID d)
                 else (inprog_inval, d)
         else (inprog_inval, d))"

definition wt_invalidate_block_set :: "nat \<Rightarrow> sector \<Rightarrow> sector \<Rightarrow> bool \<Rightarrow> wt_cache \<Rightarrow> nat \<times> wt_cache" where
  "wt_invalidate_block_set set_no io_start io_end rw d =
     (let start_index = wt_assoc d * set_no
      in fold (wt_invalidate_one io_start io_end rw) [start_index..<start_index + wt_assoc d] (0, d))"

definition wt_io_end :: "bio \<Rightarrow> sector" where
  "wt_io_end b = bi_sector b + (to_sector b - 1)"

definition wt_invalidate_blocks :: "bio \<Rightarrow> wt_cache \<Rightarrow> (nat \<times> wt_cache) option" where
  "wt_invalidate_blocks b d = do {
     let io_start = bi_sector b;
     let io_end = wt_io_end b;
     start_set \<leftarrow> wt_hash_block d io_start;
     end_set \<leftarrow> wt_hash_block d io_end;
     let (inprog_inval_start, d) = wt_invalidate_block_set start_set io_start io_end (bi_is_write b) d;
     let (inprog_inval_end, d) =
       (if start_set \<noteq> end_set then wt_invalidate_block_set end_set io_start io_end (bi_is_write b) d
        else (0, d));
     Some (inprog_inval_start + inprog_inval_end, d)
   }"

section \<open>Reads\<close>

definition wt_read_miss :: "bio \<Rightarrow> nat \<Rightarrow> wt_cache \<Rightarrow> wt_cache" where
  "wt_read_miss b index d =
     (case wt_new_kcached_job b (Some index) d of
        (None, d) \<Rightarrow> wt_endio b (- EIO) (wt_set_state index WT_INVALID d)
      | (Some job, d) \<Rightarrow>
          let job = job\<lparr>wj_rw := Some WT_READSOURCE\<rparr>
          in wt_submit DiskDev False (wj_disk job) Wt_io_callback job
               (d\<lparr>wt_nr_jobs := wt_nr_jobs d + 1, wt_disk_reads := wt_disk_reads d + 1\<rparr>))"

definition wt_read_hit :: "bio \<Rightarrow> nat \<Rightarrow> wt_cache \<Rightarrow> wt_cache option" where
  "wt_read_hit b index d =
     (let d = (wt_set_state index WT_CACHEREADINPROG d)\<lparr>wt_cache_hits := wt_cache_hits d + 1\<rparr>
      in case wt_new_kcached_job b (Some index) d of
           (None, d) \<Rightarrow> Some (wt_endio b (- EIO) (wt_set_state index WT_VALID d))
         | (Some job, d) \<Rightarrow> do {
             where \<leftarrow> wj_cache job;
             let job = job\<lparr>wj_rw := Some WT_READCACHE\<rparr>;
             Some (wt_submit CacheDev False where Wt_io_callback job
               (d\<lparr>wt_nr_jobs := wt_nr_jobs d + 1, wt_cache_reads := wt_cache_reads d + 1\<rparr>))
           })"

text \<open>A block is claimed for a disk block.\<close>

definition wt_claim :: "bio \<Rightarrow> nat \<Rightarrow> wt_cache \<Rightarrow> wt_cache" where
  "wt_claim b index d =
     (wt_set_state index WT_INPROG d)\<lparr>wt_dbn := (wt_dbn d)(index := bi_sector b)\<rparr>"

definition wt_cache_read :: "bio \<Rightarrow> wt_cache \<Rightarrow> wt_cache option" where
  "wt_cache_read b d = do {
     (res, index, d) \<leftarrow> wt_cache_lookup b d;
     if res = Some WT_VALID \<and> wt_dbn d index = bi_sector b then wt_read_hit b index d
     else do {
       (inprog, d) \<leftarrow> wt_invalidate_blocks b d;
       if inprog > 0 then Some (wt_start_uncached_io b d)
       else if res = None \<or> the res \<ge> WT_INPROG then Some (wt_start_uncached_io b d)
       else let d = (if wt_state d index = WT_VALID
                     then d\<lparr>wt_cached_blocks := wt_cached_blocks d - 1, wt_replace := wt_replace d + 1\<rparr>
                     else d)
            in Some (wt_read_miss b index (wt_claim b index d))
     }
   }"

section \<open>Writes\<close>

definition wt_cache_write :: "bio \<Rightarrow> wt_cache \<Rightarrow> wt_cache option" where
  "wt_cache_write b d = do {
     (inprog, d) \<leftarrow> wt_invalidate_blocks b d;
     if inprog > 0 then Some (wt_start_uncached_io b d)
     else do {
       (res, index, d) \<leftarrow> wt_cache_lookup b d;
       verify (res = None \<or> res = Some WT_INVALID);
       if res = None then Some (wt_start_uncached_io b d)
       else let d = (if wt_state d index = WT_VALID
                     then d\<lparr>wt_cached_blocks := wt_cached_blocks d - 1,
                            wt_cache_wr_replace := wt_cache_wr_replace d + 1\<rparr>
                     else d);
                d = wt_claim b index d
            in Some (case wt_new_kcached_job b (Some index) d of
                 (None, d) \<Rightarrow> wt_endio b (- EIO) (wt_set_state index WT_INVALID d)
               | (Some job, d) \<Rightarrow>
                   let job = job\<lparr>wj_rw := Some WT_WRITESOURCE\<rparr>
                   in wt_submit DiskDev True (wj_disk job) Wt_io_callback job
                        (d\<lparr>wt_nr_jobs := wt_nr_jobs d + 1, wt_disk_writes := wt_disk_writes d + 1\<rparr>))
     }
   }"

section \<open>The entry point\<close>

definition wt_DM_MAPIO_SUBMITTED :: int where "wt_DM_MAPIO_SUBMITTED = 0"
definition wt_EOPNOTSUPP :: int where "wt_EOPNOTSUPP = 95"

definition wt_map :: "bio \<Rightarrow> wt_cache \<Rightarrow> (int \<times> wt_cache) option" where
  "wt_map b d = do {
     let sectors = unat (to_sector b);
     let d = (if sectors \<le> 32
              then d\<lparr>wt_size_hist := (wt_size_hist d)(sectors := wt_size_hist d sectors + 1)\<rparr> else d);
     if bi_barrier b then Some (- wt_EOPNOTSUPP, d)
     else do {
       verify (unat (to_sector b) \<le> wt_block_size d);
       let d = (if bi_is_write b then d\<lparr>wt_writes := wt_writes d + 1\<rparr>
                else d\<lparr>wt_reads := wt_reads d + 1\<rparr>);
       d \<leftarrow> (if unat (to_sector b) \<noteq> wt_block_size d \<or> wt_write_around_mode d \<noteq> 0 \<and> bi_is_write b
             then do {
               (_, d) \<leftarrow> wt_invalidate_blocks b d;
               Some (wt_start_uncached_io b d)
             }
             else if bi_is_write b then wt_cache_write b d
             else wt_cache_read b d);
       Some (wt_DM_MAPIO_SUBMITTED, d)
     }
   }"

section \<open>Completions and the worker\<close>

text \<open>\<open>err\<close> is the error of the block layer, 0 for none; the request gets it as it is.\<close>

definition wt_io_callback :: "int \<Rightarrow> wt_job \<Rightarrow> wt_cache \<Rightarrow> wt_cache option" where
  "wt_io_callback err job d = do {
     index \<leftarrow> wj_index job;
     rw \<leftarrow> wj_rw job;
     let st = wt_state d index;
     if rw = WT_READSOURCE \<or> rw = WT_WRITESOURCE
     then do {
       verify (st \<noteq> WT_INPROG \<longrightarrow> st = WT_INPROG_INVALID);
       if err \<noteq> 0 \<or> st \<noteq> WT_INPROG
       then Some (wt_job_done (wt_set_state index WT_INVALID (wt_endio (wj_bio job) err d)))
       else Some (d\<lparr>wt_io_jobs := wt_io_jobs d @ [job\<lparr>wj_rw := Some WT_WRITECACHE\<rparr>]\<rparr>)
     }
     else if rw = WT_READCACHE
     then do {
       verify (st = WT_INPROG_INVALID \<or> st = WT_CACHEREADINPROG);
       if st \<noteq> WT_INPROG_INVALID \<and> err = 0
       then Some (wt_job_done (wt_set_state index WT_VALID (wt_endio (wj_bio job) 0 d)))
       else Some (d\<lparr>wt_complete_jobs := wt_complete_jobs d @ [job\<lparr>wj_rw := Some WT_READCACHE_DONE\<rparr>]\<rparr>)
     }
     else do {
       verify (rw = WT_WRITECACHE);
       let d = wt_endio (wj_bio job) 0 d;
       verify (st = WT_INPROG \<or> st = WT_INPROG_INVALID);
       Some (wt_job_done
         (if err \<noteq> 0 \<or> st = WT_INPROG_INVALID then wt_set_state index WT_INVALID d
          else (wt_set_state index WT_VALID d)\<lparr>wt_cached_blocks := wt_cached_blocks d + 1\<rparr>))
     }
   }"

definition wt_uncached_io_callback :: "int \<Rightarrow> wt_job \<Rightarrow> wt_cache \<Rightarrow> wt_cache option" where
  "wt_uncached_io_callback err job d = do {
     let d = (if bi_is_write (wj_bio job) then d\<lparr>wt_uncached_writes := wt_uncached_writes d + 1\<rparr>
              else d\<lparr>wt_uncached_reads := wt_uncached_reads d + 1\<rparr>);
     (_, d) \<leftarrow> wt_invalidate_blocks (wj_bio job) d;
     Some (wt_job_done (wt_endio (wj_bio job) err d))
   }"

definition wt_do_io :: "wt_job \<Rightarrow> wt_cache \<Rightarrow> wt_cache option" where
  "wt_do_io job d = do {
     verify (wj_rw job = Some WT_WRITECACHE);
     where \<leftarrow> wj_cache job;
     Some (wt_submit CacheDev True where Wt_io_callback job (d\<lparr>wt_cache_writes := wt_cache_writes d + 1\<rparr>))
   }"

definition wt_do_complete :: "wt_job \<Rightarrow> wt_cache \<Rightarrow> wt_cache option" where
  "wt_do_complete job d = do {
     verify (wj_rw job = Some WT_READCACHE_DONE);
     index \<leftarrow> wj_index job;
     Some (wt_start_uncached_io (wj_bio job) (wt_job_done (wt_set_state index WT_INVALID d)))
   }"

text \<open>The worker: the jobs of one list and then those of the other, each taken from the head.\<close>

definition wt_run_complete :: "wt_cache \<Rightarrow> wt_cache option" where
  "wt_run_complete d = wt_do_complete (hd (wt_complete_jobs d)) (d\<lparr>wt_complete_jobs := tl (wt_complete_jobs d)\<rparr>)"

definition wt_run_io :: "wt_cache \<Rightarrow> wt_cache option" where
  "wt_run_io d = wt_do_io (hd (wt_io_jobs d)) (d\<lparr>wt_io_jobs := tl (wt_io_jobs d)\<rparr>)"

partial_function (option) wt_process_complete :: "wt_cache \<Rightarrow> wt_cache option" where
  "wt_process_complete d =
     (if wt_complete_jobs d = [] then Some d else Option.bind (wt_run_complete d) wt_process_complete)"

partial_function (option) wt_process_io :: "wt_cache \<Rightarrow> wt_cache option" where
  "wt_process_io d =
     (if wt_io_jobs d = [] then Some d else Option.bind (wt_run_io d) wt_process_io)"

declare wt_process_complete.simps [code] wt_process_io.simps [code]

definition wt_do_work :: "wt_cache \<Rightarrow> wt_cache option" where
  "wt_do_work d = Option.bind (wt_process_complete d) wt_process_io"

text \<open>The block layer completes request \<open>n\<close>.\<close>

definition wt_complete_io :: "nat \<Rightarrow> int \<Rightarrow> wt_cache \<Rightarrow> wt_cache option" where
  "wt_complete_io n err d = do {
     verify (n < length (wt_inflight d));
     let r = wt_inflight d ! n;
     let d = d\<lparr>wt_inflight := take n (wt_inflight d) @ drop (n + 1) (wt_inflight d)\<rparr>;
     case wi_fn r of
       Wt_io_callback \<Rightarrow> wt_io_callback err (wi_job r) d
     | Wt_uncached_io_callback \<Rightarrow> wt_uncached_io_callback err (wi_job r) d
   }"

end
