(* ===== verification/Wt_Inv.thy ===== *)
theory Wt_Inv
  imports Wt "HOL-Library.Multiset"
begin

text \<open>
  The invariant of the write through driver. Every job owns the block it works on, a block with an I/O in
  progress is owned by exactly one job whose stage fits the state, the counter of jobs is exact, and a disk
  block is in at most one live block, in its own set. It is kept by every operation, and under it no
  \<open>VERIFY\<close> fails. In the same step: each request is in exactly one job or completed.
\<close>

section \<open>The invariant\<close>

definition wt_geometry :: "wt_cache \<Rightarrow> bool" where
  "wt_geometry d \<longleftrightarrow> wt_block_size d = 2 ^ wt_block_shift d \<and> wt_assoc d = 2 ^ wt_consecutive_shift d \<and>
     0 < wt_num_sets d \<and> wt_size d = wt_num_sets d * wt_assoc d"

definition wt_live :: "wt_cache \<Rightarrow> nat \<Rightarrow> bool" where
  "wt_live d i \<longleftrightarrow> wt_state d i = WT_VALID \<or> wt_state d i = WT_CACHEREADINPROG \<or> wt_state d i = WT_INPROG"

definition wt_free :: "nat \<Rightarrow> bool" where
  "wt_free st \<longleftrightarrow> st = WT_INVALID \<or> st = WT_VALID"

fun wt_expects :: "wt_rw \<Rightarrow> nat \<Rightarrow> bool" where
  "wt_expects WT_READCACHE st \<longleftrightarrow> st = WT_CACHEREADINPROG \<or> st = WT_INPROG_INVALID"
| "wt_expects WT_READCACHE_DONE st \<longleftrightarrow> st = WT_CACHEREADINPROG \<or> st = WT_INPROG_INVALID"
| "wt_expects WT_SOURCEIO_DONE st \<longleftrightarrow> False"
| "wt_expects _ st \<longleftrightarrow> st = WT_INPROG \<or> st = WT_INPROG_INVALID"

definition wt_jobs :: "wt_cache \<Rightarrow> wt_job list" where
  "wt_jobs d = map wi_job (wt_inflight d) @ wt_io_jobs d @ wt_complete_jobs d"

definition wt_owners :: "wt_job list \<Rightarrow> nat \<Rightarrow> nat" where
  "wt_owners js i = length (filter (\<lambda>j. wj_index j = Some i) js)"

definition wt_whole :: "wt_cache \<Rightarrow> bio \<Rightarrow> bool" where
  "wt_whole d b \<longleftrightarrow> unat (to_sector b) = wt_block_size d"

definition wt_job_ok :: "wt_cache \<Rightarrow> wt_job \<Rightarrow> bool" where
  "wt_job_ok d j \<longleftrightarrow> (case wj_index j of
       None \<Rightarrow> wj_disk j = (bi_sector (wj_bio j), unat (to_sector (wj_bio j)))
     | Some i \<Rightarrow> i < wt_size d \<and> (\<exists>rw. wj_rw j = Some rw \<and> wt_expects rw (wt_state d i)) \<and>
         wj_disk j = (bi_sector (wj_bio j), wt_block_size d) \<and>
         wj_cache j = Some (wt_cache_sector i d, wt_block_size d) \<and>
         wt_dbn d i = bi_sector (wj_bio j) \<and> wt_whole d (wj_bio j))"

text \<open>A request at a device matches the stage of its job.\<close>

definition wt_io_ok :: "wt_io \<Rightarrow> bool" where
  "wt_io_ok r \<longleftrightarrow> (let j = wi_job r in
     case wi_fn r of
       Wt_uncached_io_callback \<Rightarrow> wj_index j = None \<and> wi_dev r = DiskDev \<and>
         wi_write r = bi_is_write (wj_bio j) \<and> (wi_sector r, wi_count r) = wj_disk j
     | Wt_io_callback \<Rightarrow> wj_index j \<noteq> None \<and>
         ((wj_rw j = Some WT_READSOURCE \<or> wj_rw j = Some WT_WRITESOURCE) \<and> wi_dev r = DiskDev \<and>
            wi_write r = (wj_rw j = Some WT_WRITESOURCE) \<and> (wi_sector r, wi_count r) = wj_disk j \<or>
          (wj_rw j = Some WT_READCACHE \<or> wj_rw j = Some WT_WRITECACHE) \<and> wi_dev r = CacheDev \<and>
            wi_write r = (wj_rw j = Some WT_WRITECACHE) \<and> Some (wi_sector r, wi_count r) = wj_cache j))"

definition wt_hash :: "wt_cache \<Rightarrow> sector \<Rightarrow> nat" where
  "wt_hash d k = unat (drop_bit (wt_block_shift d + wt_consecutive_shift d) k) mod wt_num_sets d"

definition wt_indexed :: "wt_cache \<Rightarrow> bool" where
  "wt_indexed d \<longleftrightarrow>
     (\<forall>i < wt_size d. wt_live d i \<longrightarrow> wt_hash d (wt_dbn d i) = i div wt_assoc d) \<and>
     (\<forall>i < wt_size d. \<forall>j < wt_size d. wt_live d i \<and> wt_live d j \<and> wt_dbn d i = wt_dbn d j \<longrightarrow> i = j)"

definition wt_pointers :: "wt_cache \<Rightarrow> bool" where
  "wt_pointers d \<longleftrightarrow> (\<forall>s < wt_num_sets d. wt_set_lru_next d s div wt_assoc d = s)"

text \<open>\<open>js\<close> are the jobs that an operation holds in its hands.\<close>

definition wt_inv :: "wt_job list \<Rightarrow> wt_cache \<Rightarrow> bool" where
  "wt_inv js d \<longleftrightarrow> wt_geometry d \<and> wt_pointers d \<and> wt_indexed d \<and>
     (\<forall>i < wt_size d. wt_state d i \<le> WT_INPROG_INVALID) \<and>
     (\<forall>i < wt_size d. wt_owners (js @ wt_jobs d) i = (if wt_free (wt_state d i) then 0 else 1)) \<and>
     (\<forall>j \<in> set (js @ wt_jobs d). wt_job_ok d j) \<and>
     (\<forall>r \<in> set (wt_inflight d). wt_io_ok r) \<and>
     (\<forall>j \<in> set (wt_io_jobs d). wj_index j \<noteq> None \<and> wj_rw j = Some WT_WRITECACHE) \<and>
     (\<forall>j \<in> set (wt_complete_jobs d). wj_index j \<noteq> None \<and> wj_rw j = Some WT_READCACHE_DONE) \<and>
     wt_nr_jobs d = int (length (js @ wt_jobs d))"

lemma wt_invD:
  assumes "wt_inv js d"
  shows "wt_geometry d" "wt_pointers d" "wt_indexed d"
    "\<And>i. i < wt_size d \<Longrightarrow> wt_state d i \<le> WT_INPROG_INVALID"
    "\<And>i. i < wt_size d \<Longrightarrow> wt_owners (js @ wt_jobs d) i = (if wt_free (wt_state d i) then 0 else 1)"
    "\<And>j. j \<in> set (js @ wt_jobs d) \<Longrightarrow> wt_job_ok d j"
    "\<And>r. r \<in> set (wt_inflight d) \<Longrightarrow> wt_io_ok r"
    "\<And>j. j \<in> set (wt_io_jobs d) \<Longrightarrow> wj_index j \<noteq> None \<and> wj_rw j = Some WT_WRITECACHE"
    "\<And>j. j \<in> set (wt_complete_jobs d) \<Longrightarrow> wj_index j \<noteq> None \<and> wj_rw j = Some WT_READCACHE_DONE"
    "wt_nr_jobs d = int (length (js @ wt_jobs d))"
  using assms unfolding wt_inv_def by blast+

text \<open>The requests in the driver and those completed.\<close>

definition wt_bios :: "wt_job list \<Rightarrow> wt_cache \<Rightarrow> bio multiset" where
  "wt_bios js d = mset (map wj_bio (js @ wt_jobs d)) + mset (map fst (wt_completed d))"

text \<open>All fields but the statistics and the states of the blocks.\<close>

definition wt_base where
  "wt_base d = (wt_dbn d, wt_set_lru_next d, wt_size d, wt_assoc d, wt_block_size d, wt_block_shift d,
     wt_consecutive_shift d, wt_write_around_mode d, wt_nr_jobs d, wt_complete_jobs d, wt_io_jobs d,
     wt_inflight d, wt_completed d, wt_alloc_script d)"

lemma wt_base_sel:
  assumes "wt_base d' = wt_base d"
  shows "wt_dbn d' = wt_dbn d" "wt_set_lru_next d' = wt_set_lru_next d" "wt_size d' = wt_size d"
    "wt_assoc d' = wt_assoc d" "wt_block_size d' = wt_block_size d" "wt_block_shift d' = wt_block_shift d"
    "wt_consecutive_shift d' = wt_consecutive_shift d" "wt_nr_jobs d' = wt_nr_jobs d"
    "wt_complete_jobs d' = wt_complete_jobs d" "wt_io_jobs d' = wt_io_jobs d" "wt_inflight d' = wt_inflight d"
    "wt_completed d' = wt_completed d" "wt_jobs d' = wt_jobs d" "wt_num_sets d' = wt_num_sets d"
    "wt_hash d' = wt_hash d" "wt_cache_sector i d' = wt_cache_sector i d" "wt_bios js d' = wt_bios js d"
    "wt_write_around_mode d' = wt_write_around_mode d" "wt_whole d' = wt_whole d"
  using assms
  by (simp_all add: wt_base_def wt_jobs_def wt_num_sets_def wt_hash_def fun_eq_iff wt_cache_sector_def wt_bios_def
      wt_whole_def)

lemma wt_base_inv:
  assumes "wt_base d' = wt_base d" and "wt_state d' = wt_state d"
  shows "wt_inv js d' = wt_inv js d"
proof -
  note sel = wt_base_sel [OF assms(1)] assms(2)
  have "wt_job_ok d' = wt_job_ok d" by (auto simp: fun_eq_iff wt_job_ok_def sel split: option.split)
  then show ?thesis
    unfolding wt_inv_def wt_geometry_def wt_pointers_def wt_indexed_def wt_live_def by (simp add: sel)
qed

section \<open>Invalidation\<close>

definition wt_inval_state :: "(nat \<Rightarrow> bool) \<Rightarrow> wt_cache \<Rightarrow> nat \<Rightarrow> nat" where
  "wt_inval_state H d i = (if \<not> H i then wt_state d i
     else if wt_state d i = WT_VALID then WT_INVALID
     else if wt_state d i = WT_INPROG \<or> wt_state d i = WT_CACHEREADINPROG then WT_INPROG_INVALID
     else wt_state d i)"

lemma inval_state_inv:
  assumes inv: "wt_inv js d" and b: "wt_base d' = wt_base d" and s: "wt_state d' = wt_inval_state H d"
  shows "wt_inv js d'"
proof -
  note d = wt_invD [OF inv] and sel = wt_base_sel [OF b]
  have live: "wt_live d i" if "wt_live d' i" for i
    using that by (auto simp: wt_live_def s wt_inval_state_def wt_states split: if_splits)
  have free: "wt_free (wt_state d' i) = wt_free (wt_state d i)" for i
    by (auto simp: wt_free_def s wt_inval_state_def wt_states)
  have ex: "wt_expects rw (wt_state d' i)" if "wt_expects rw (wt_state d i)" for rw i
    using that by (cases rw) (auto simp: s wt_inval_state_def wt_states)
  have job: "wt_job_ok d' j" if "wt_job_ok d j" for j
    using that ex by (auto simp: wt_job_ok_def sel split: option.splits)
  have le: "wt_state d' i \<le> WT_INPROG_INVALID" if "i < wt_size d" for i
    using d(4) [OF that] by (auto simp: s wt_inval_state_def wt_states)
  have "wt_indexed d'" using d(3) live by (simp add: wt_indexed_def sel)
  moreover have "wt_geometry d'" "wt_pointers d'"
    using d(1,2) by (simp_all add: wt_geometry_def wt_pointers_def sel)
  ultimately show ?thesis unfolding wt_inv_def sel
    using d(5-10) free job le by auto
qed

lemma invalidate_fold:
  assumes "distinct xs" and "\<forall>i \<in> set xs. wt_state d i \<le> WT_INPROG_INVALID"
  shows "\<exists>m d'. fold (wt_invalidate_one s e rw) xs (n, d) = (m, d') \<and> wt_base d' = wt_base d \<and>
    wt_state d' = wt_inval_state (\<lambda>i. i \<in> set xs \<and> wt_overlaps d i s e) d \<and> n \<le> m \<and>
    (m = n \<longrightarrow> (\<forall>i \<in> set xs. wt_overlaps d i s e \<longrightarrow> wt_state d i \<noteq> WT_INPROG \<and> wt_state d i \<noteq> WT_CACHEREADINPROG))"
  using assms
proof (induction xs arbitrary: n d)
  case Nil
  then show ?case by (simp add: wt_inval_state_def fun_eq_iff)
next
  case (Cons x xs)
  obtain n1 d1 where 1: "wt_invalidate_one s e rw x (n, d) = (n1, d1)" by fastforce
  have x: "wt_state d x \<le> WT_INPROG_INVALID" using Cons.prems(2) by simp
  have b: "wt_base d1 = wt_base d" and st: "wt_state d1 = wt_inval_state (\<lambda>i. i = x \<and> wt_overlaps d i s e) d"
    and n1: "n \<le> n1" "n1 = n \<Longrightarrow> wt_overlaps d x s e \<Longrightarrow> wt_state d x \<noteq> WT_INPROG \<and> wt_state d x \<noteq> WT_CACHEREADINPROG"
    using 1 x by (auto simp: wt_invalidate_one_def Let_def wt_base_def wt_set_state_def wt_inval_state_def fun_eq_iff
        wt_states split: if_splits)
  have o: "wt_overlaps d1 i s e = wt_overlaps d i s e" for i
    using wt_base_sel [OF b] by (simp add: wt_overlaps_def)
  have same: "wt_state d1 i = wt_state d i" if "i \<in> set xs" for i
    using that Cons.prems(1) by (auto simp: st wt_inval_state_def)
  from Cons.IH [of d1 n1] Cons.prems same obtain m d' where
    2: "fold (wt_invalidate_one s e rw) xs (n1, d1) = (m, d')" "wt_base d' = wt_base d1"
      "wt_state d' = wt_inval_state (\<lambda>i. i \<in> set xs \<and> wt_overlaps d1 i s e) d1" "n1 \<le> m"
      "m = n1 \<longrightarrow> (\<forall>i \<in> set xs. wt_overlaps d1 i s e \<longrightarrow> wt_state d1 i \<noteq> WT_INPROG \<and> wt_state d1 i \<noteq> WT_CACHEREADINPROG)"
    by auto
  have "wt_state d' = wt_inval_state (\<lambda>i. i \<in> set (x # xs) \<and> wt_overlaps d i s e) d"
    using Cons.prems(1) by (auto simp: 2(3) o fun_eq_iff wt_inval_state_def st)
  then show ?case using 1 2 b n1 o same by fastforce
qed

text \<open>The blocks that a request meets.\<close>

definition wt_met :: "bio \<Rightarrow> wt_cache \<Rightarrow> nat \<Rightarrow> bool" where
  "wt_met b d i \<longleftrightarrow> i < wt_size d \<and>
     (i div wt_assoc d = wt_hash d (bi_sector b) \<or> i div wt_assoc d = wt_hash d (wt_io_end b)) \<and>
     wt_overlaps d i (bi_sector b) (wt_io_end b)"

lemma wt_hash_less: "wt_geometry d \<Longrightarrow> wt_hash d k < wt_num_sets d"
  by (simp add: wt_hash_def wt_geometry_def)

lemma set_upt_block:
  assumes "0 < (a :: nat)"
  shows "i \<in> set [a * s..<a * s + a] \<longleftrightarrow> i div a = s"
proof -
  have "i div a = s \<longleftrightarrow> s \<le> i div a \<and> i div a < Suc s" by auto
  also have "\<dots> \<longleftrightarrow> s * a \<le> i \<and> i < Suc s * a"
    by (simp only: less_eq_div_iff_mult_less_eq [OF assms] div_less_iff_less_mult [OF assms])
  finally show ?thesis by (auto simp: mult.commute)
qed

lemma wt_index_less: "wt_geometry d \<Longrightarrow> i div wt_assoc d < wt_num_sets d \<longleftrightarrow> i < wt_size d"
  by (simp add: wt_geometry_def div_less_iff_less_mult)

lemma wt_hash_block_eq: "wt_geometry d \<Longrightarrow> wt_hash_block d k = Some (wt_hash d k)"
  by (simp add: wt_hash_block_def wt_hash_def wt_geometry_def)

lemma invalidate_set:
  assumes g: "wt_geometry d" and st: "\<forall>i < wt_size d. wt_state d i \<le> WT_INPROG_INVALID" and s: "s < wt_num_sets d"
  shows "\<exists>m d'. wt_invalidate_block_set s b e rw d = (m, d') \<and> wt_base d' = wt_base d \<and>
    wt_state d' = wt_inval_state (\<lambda>i. i div wt_assoc d = s \<and> wt_overlaps d i b e) d \<and>
    (m = 0 \<longrightarrow> (\<forall>i. i div wt_assoc d = s \<longrightarrow> wt_overlaps d i b e \<longrightarrow>
       wt_state d i \<noteq> WT_INPROG \<and> wt_state d i \<noteq> WT_CACHEREADINPROG))"
proof -
  let ?xs = "[wt_assoc d * s..<wt_assoc d * s + wt_assoc d]"
  have a: "0 < wt_assoc d" using g by (simp add: wt_geometry_def)
  have xs: "i \<in> set ?xs \<longleftrightarrow> i div wt_assoc d = s" for i by (rule set_upt_block [OF a])
  have "\<forall>i \<in> set ?xs. wt_state d i \<le> WT_INPROG_INVALID"
    using st s wt_index_less [OF g] by (auto simp: xs simp del: set_upt)
  from invalidate_fold [OF distinct_upt this, of b e rw 0] show ?thesis
    unfolding wt_invalidate_block_set_def Let_def Ball_def xs by blast
qed

lemma invalidate_blocks:
  assumes inv: "wt_inv js d"
  shows "\<exists>n d'. wt_invalidate_blocks b d = Some (n, d') \<and> wt_base d' = wt_base d \<and>
    wt_state d' = wt_inval_state (wt_met b d) d \<and> wt_inv js d' \<and>
    (n = 0 \<longrightarrow> (\<forall>i. wt_met b d i \<longrightarrow> wt_state d i \<noteq> WT_INPROG \<and> wt_state d i \<noteq> WT_CACHEREADINPROG))"
proof -
  note g = wt_invD(1) [OF inv] and st = wt_invD(4) [OF inv]
  let ?s = "bi_sector b" and ?e = "wt_io_end b"
  note hs = wt_hash_less [OF g, of ?s] and he = wt_hash_less [OF g, of ?e]
  from invalidate_set [OF g _ hs, of ?s ?e "bi_is_write b"] st obtain n1 d1 where
    1: "wt_invalidate_block_set (wt_hash d ?s) ?s ?e (bi_is_write b) d = (n1, d1)" "wt_base d1 = wt_base d"
      "wt_state d1 = wt_inval_state (\<lambda>i. i div wt_assoc d = wt_hash d ?s \<and> wt_overlaps d i ?s ?e) d"
      "n1 = 0 \<longrightarrow> (\<forall>i. i div wt_assoc d = wt_hash d ?s \<longrightarrow> wt_overlaps d i ?s ?e \<longrightarrow>
         wt_state d i \<noteq> WT_INPROG \<and> wt_state d i \<noteq> WT_CACHEREADINPROG)" by auto
  have inv1: "wt_inv js d1" by (rule inval_state_inv [OF inv 1(2,3)])
  note sel = wt_base_sel [OF 1(2)]
  have o: "wt_overlaps d1 i ?s ?e = wt_overlaps d i ?s ?e" for i by (simp add: wt_overlaps_def sel)
  show ?thesis
  proof (cases "wt_hash d ?s = wt_hash d ?e")
    case True
    have m: "wt_met b d i \<longleftrightarrow> i div wt_assoc d = wt_hash d ?s \<and> wt_overlaps d i ?s ?e" for i
      unfolding wt_met_def using True wt_index_less [OF g, of i] hs by metis
    have "wt_invalidate_blocks b d = Some (n1, d1)"
      using 1(1) True by (simp add: wt_invalidate_blocks_def wt_hash_block_eq [OF g] Let_def)
    moreover have "wt_met b d = (\<lambda>i. i div wt_assoc d = wt_hash d ?s \<and> wt_overlaps d i ?s ?e)"
      by (simp add: fun_eq_iff m)
    ultimately show ?thesis using 1 inv1 by auto
  next
    case False
    from invalidate_set [OF wt_invD(1) [OF inv1], of "wt_hash d ?e" ?s ?e "bi_is_write b"] wt_invD(4) [OF inv1] he
    obtain n2 d2 where
      2: "wt_invalidate_block_set (wt_hash d ?e) ?s ?e (bi_is_write b) d1 = (n2, d2)" "wt_base d2 = wt_base d1"
        "wt_state d2 = wt_inval_state (\<lambda>i. i div wt_assoc d = wt_hash d ?e \<and> wt_overlaps d i ?s ?e) d1"
        "n2 = 0 \<longrightarrow> (\<forall>i. i div wt_assoc d = wt_hash d ?e \<longrightarrow> wt_overlaps d i ?s ?e \<longrightarrow>
           wt_state d1 i \<noteq> WT_INPROG \<and> wt_state d1 i \<noteq> WT_CACHEREADINPROG)"
      by (auto simp: sel o)
    have m: "wt_met b d i \<longleftrightarrow> (i div wt_assoc d = wt_hash d ?s \<or> i div wt_assoc d = wt_hash d ?e) \<and>
        wt_overlaps d i ?s ?e" for i
      unfolding wt_met_def using wt_index_less [OF g, of i] hs he by metis
    have "wt_invalidate_blocks b d = Some (n1 + n2, d2)"
      using 1(1) 2(1) False by (simp add: wt_invalidate_blocks_def wt_hash_block_eq [OF g] Let_def)
    moreover have "wt_state d2 = wt_inval_state (wt_met b d) d"
      using False by (auto simp: 2(3) 1(3) m fun_eq_iff wt_inval_state_def)
    moreover have "wt_inv js d2" by (rule inval_state_inv [OF inv1 2(2,3)])
    moreover have "wt_state d1 i = wt_state d i" if "i div wt_assoc d = wt_hash d ?e" for i
      using that False by (simp add: 1(3) wt_inval_state_def)
    ultimately show ?thesis using 1(2,4) 2(2,4) by (auto simp: m)
  qed
qed

section \<open>Lookup\<close>

lemma reclaim_loop:
  assumes "s \<le> i" "i < e"
  shows "\<exists>found i'. wt_reclaim_loop d s e n i = Some (found, i') \<and> s \<le> i' \<and> i' < e \<and>
    (\<forall>x. found = Some x \<longrightarrow> x = i' \<and> wt_state d x = WT_VALID)"
  using assms
proof (induction n arbitrary: i)
  case (Suc n)
  have "s \<le> (if i + 1 = e then s else i + 1)" "(if i + 1 = e then s else i + 1) < e"
    using Suc.prems by auto
  from Suc.IH [OF this] Suc.prems show ?case by auto
qed simp

lemma find_in: "find P xs = Some x \<Longrightarrow> x \<in> set xs \<and> P x"
  by (auto simp: find_Some_iff)

lemma pointers_inv:
  assumes "wt_inv js d" and "s < wt_num_sets d" and "i div wt_assoc d = s"
  shows "wt_inv js (d\<lparr>wt_set_lru_next := (wt_set_lru_next d)(s := i)\<rparr>)"
proof -
  let ?d = "d\<lparr>wt_set_lru_next := (wt_set_lru_next d)(s := i)\<rparr>"
  have "wt_pointers ?d" using wt_invD(2) [OF assms(1)] assms(2,3) by (simp add: wt_pointers_def wt_num_sets_def)
  moreover have "wt_job_ok ?d = wt_job_ok d"
    by (auto simp: fun_eq_iff wt_job_ok_def wt_cache_sector_def wt_whole_def split: option.split)
  moreover have "wt_jobs ?d = wt_jobs d" "wt_geometry ?d = wt_geometry d" "wt_indexed ?d = wt_indexed d"
    by (simp_all add: wt_jobs_def wt_geometry_def wt_indexed_def wt_num_sets_def wt_live_def wt_hash_def)
  ultimately show ?thesis using assms(1) unfolding wt_inv_def by simp
qed

lemma wt_reclaim_spec:
  assumes inv: "wt_inv js d" and s: "s < wt_num_sets d"
  shows "\<exists>found f. wt_find_reclaim_dbn (wt_assoc d * s) d = Some (found, d\<lparr>wt_set_lru_next := f\<rparr>) \<and>
    wt_inv js (d\<lparr>wt_set_lru_next := f\<rparr>) \<and>
    (\<forall>x. found = Some x \<longrightarrow> x div wt_assoc d = s \<and> wt_state d x = WT_VALID)"
proof -
  let ?a = "wt_assoc d"
  have a: "0 < ?a" using wt_invD(1) [OF inv] by (simp add: wt_geometry_def)
  have xs: "i \<in> set [?a * s..<?a * s + ?a] \<longleftrightarrow> i div ?a = s" for i by (rule set_upt_block [OF a])
  have set_no: "?a * s div ?a = s" using a by simp
  have "wt_set_lru_next d s div ?a = s" using wt_invD(2) [OF inv] s by (simp add: wt_pointers_def)
  then have "?a * s \<le> wt_set_lru_next d s" "wt_set_lru_next d s < ?a * s + ?a"
    using xs [of "wt_set_lru_next d s"] by simp_all
  from reclaim_loop [OF this, of d ?a] obtain found i where
    1: "wt_reclaim_loop d (?a * s) (?a * s + ?a) ?a (wt_set_lru_next d s) = Some (found, i)"
      "?a * s \<le> i" "i < ?a * s + ?a" "\<forall>x. found = Some x \<longrightarrow> x = i \<and> wt_state d x = WT_VALID" by blast
  define nxt where "nxt = (if i + 1 = ?a * s + ?a then ?a * s else i + 1)"
  have "nxt \<in> set [?a * s..<?a * s + ?a]" using 1(2,3) by (auto simp: nxt_def)
  then have "nxt div ?a = s" unfolding xs .
  note inv' = pointers_inv [OF inv s this]
  have "wt_find_reclaim_dbn (?a * s) d = Some (found, d\<lparr>wt_set_lru_next := (wt_set_lru_next d)(s := nxt)\<rparr>)"
    using 1(1) by (simp add: wt_find_reclaim_dbn_def set_no Let_def nxt_def)
  moreover have "i div ?a = s" using 1(2,3) xs [of i] by simp
  ultimately show ?thesis using inv' 1(4) by blast
qed

definition wt_found :: "bio \<Rightarrow> wt_cache \<Rightarrow> nat option \<Rightarrow> nat \<Rightarrow> bool" where
  "wt_found b d res i \<longleftrightarrow> (case res of
       Some st \<Rightarrow> i < wt_size d \<and> i div wt_assoc d = wt_hash d (bi_sector b) \<and>
         (wt_live d i \<and> wt_dbn d i = bi_sector b \<and> st = wt_state d i \<or>
          st = WT_INVALID \<and> wt_free (wt_state d i) \<and> (\<forall>j < wt_size d. wt_live d j \<longrightarrow> wt_dbn d j \<noteq> bi_sector b))
     | None \<Rightarrow> \<forall>j < wt_size d. wt_live d j \<longrightarrow> wt_dbn d j \<noteq> bi_sector b)"

lemma wt_lookup_spec:
  assumes inv: "wt_inv js d"
  shows "\<exists>res i f. wt_cache_lookup b d = Some (res, i, d\<lparr>wt_set_lru_next := f\<rparr>) \<and>
    wt_inv js (d\<lparr>wt_set_lru_next := f\<rparr>) \<and> wt_found b d res i"
proof -
  note g = wt_invD(1) [OF inv]
  let ?k = "bi_sector b" and ?a = "wt_assoc d"
  define s where "s = wt_hash d ?k"
  have s: "s < wt_num_sets d" by (simp add: s_def wt_hash_less [OF g])
  have a: "0 < ?a" using g by (simp add: wt_geometry_def)
  have xs: "i \<in> set [?a * s..<?a * s + ?a] \<longleftrightarrow> i div ?a = s" for i by (rule set_upt_block [OF a])
  have size: "i < wt_size d" if "i div ?a = s" for i using wt_index_less [OF g, of i] s that by simp
  show ?thesis
  proof (cases "wt_find_valid_dbn d ?k (?a * s)")
    case (Some i)
    from find_in [OF this [unfolded wt_find_valid_dbn_def]] have
      "i div ?a = s" "wt_live d i" "wt_dbn d i = ?k" by (auto simp: xs wt_live_def simp del: set_upt)
    moreover have "d\<lparr>wt_set_lru_next := wt_set_lru_next d\<rparr> = d" by simp
    ultimately show ?thesis
      using Some size inv
      by (intro exI [of _ "Some (wt_state d i)"] exI [of _ i] exI [of _ "wt_set_lru_next d"])
        (simp add: wt_cache_lookup_def wt_hash_block_eq [OF g] wt_found_def flip: s_def)
  next
    case None
    then have "\<forall>i. i div ?a = s \<longrightarrow> wt_dbn d i = ?k \<longrightarrow> \<not> wt_live d i"
      by (auto simp: wt_find_valid_dbn_def find_None_iff xs wt_live_def simp del: set_upt)
    then have miss: "\<forall>j < wt_size d. wt_live d j \<longrightarrow> wt_dbn d j \<noteq> ?k"
      using wt_invD(3) [OF inv] unfolding wt_indexed_def s_def by metis
    show ?thesis
    proof (cases "wt_find_invalid_dbn d (?a * s)")
      case (Some i)
      from find_in [OF this [unfolded wt_find_invalid_dbn_def]] have
        "i div ?a = s" "wt_state d i = WT_INVALID" by (auto simp: xs simp del: set_upt)
      moreover have "d\<lparr>wt_set_lru_next := wt_set_lru_next d\<rparr> = d" by simp
      ultimately show ?thesis
        using Some None size inv miss
        by (intro exI [of _ "Some WT_INVALID"] exI [of _ i] exI [of _ "wt_set_lru_next d"])
          (simp add: wt_cache_lookup_def wt_hash_block_eq [OF g] wt_found_def wt_free_def flip: s_def)
    next
      case none: None
      from wt_reclaim_spec [OF inv s] obtain found f where
        rec: "wt_find_reclaim_dbn (?a * s) d = Some (found, d\<lparr>wt_set_lru_next := f\<rparr>)" and
        inv': "wt_inv js (d\<lparr>wt_set_lru_next := f\<rparr>)" and
        1: "\<forall>x. found = Some x \<longrightarrow> x div ?a = s \<and> wt_state d x = WT_VALID" by blast
      show ?thesis
      proof (cases found)
        case None
        then show ?thesis
          using rec none \<open>wt_find_valid_dbn d ?k (?a * s) = None\<close> inv' miss
          by (intro exI [of _ None] exI [of _ "?a * s + ?a"] exI [of _ f])
            (simp add: wt_cache_lookup_def wt_hash_block_eq [OF g] wt_found_def flip: s_def)
      next
        case (Some x)
        with 1 have "x div ?a = s" "wt_state d x = WT_VALID" by auto
        then show ?thesis
          using Some rec none \<open>wt_find_valid_dbn d ?k (?a * s) = None\<close> inv' miss size
          by (intro exI [of _ "Some WT_INVALID"] exI [of _ x] exI [of _ f])
            (simp add: wt_cache_lookup_def wt_hash_block_eq [OF g] wt_found_def wt_free_def flip: s_def)
      qed
    qed
  qed
qed

end
