(* ===== verification/Wt_Steps.thy ===== *)
theory Wt_Steps
  imports Wt_Inv
begin

text \<open>
  The operations of the write through driver keep its invariant, fail no \<open>VERIFY\<close>, and account for every
  request. Requests are expected not to wrap around the end of the sectors.
\<close>

lemma wt_invI:
  assumes "wt_geometry d" "wt_pointers d" "wt_indexed d"
    "\<And>i. i < wt_size d \<Longrightarrow> wt_state d i \<le> WT_INPROG_INVALID"
    "\<And>i. i < wt_size d \<Longrightarrow> wt_owners (js @ wt_jobs d) i = (if wt_free (wt_state d i) then 0 else 1)"
    "\<And>j. j \<in> set (js @ wt_jobs d) \<Longrightarrow> wt_job_ok d j"
    "\<And>r. r \<in> set (wt_inflight d) \<Longrightarrow> wt_io_ok r"
    "\<And>j. j \<in> set (wt_io_jobs d) \<Longrightarrow> wj_index j \<noteq> None \<and> wj_rw j = Some WT_WRITECACHE"
    "\<And>j. j \<in> set (wt_complete_jobs d) \<Longrightarrow> wj_index j \<noteq> None \<and> wj_rw j = Some WT_READCACHE_DONE"
    "wt_nr_jobs d = int (length (js @ wt_jobs d))"
  shows "wt_inv js d"
  using assms unfolding wt_inv_def by blast

section \<open>Moving jobs\<close>

lemma wt_jobs_upd [simp]:
  "wt_jobs (wt_state_update f d) = wt_jobs d" "wt_jobs (wt_nr_jobs_update g d) = wt_jobs d"
  "wt_jobs (wt_dbn_update h d) = wt_jobs d" "wt_jobs (wt_completed_update k d) = wt_jobs d"
  "wt_jobs (wt_alloc_script_update m d) = wt_jobs d"
  by (simp_all add: wt_jobs_def)

lemma owners_mset: "wt_owners js i = size (filter_mset (\<lambda>j. wj_index j = Some i) (mset js))"
  by (simp add: wt_owners_def flip: mset_filter)

lemma job_ok_cong:
  assumes "wt_size e = wt_size d" "wt_state e = wt_state d" "wt_block_size e = wt_block_size d"
    "wt_block_shift e = wt_block_shift d" "wt_dbn e = wt_dbn d"
  shows "wt_job_ok e = wt_job_ok d"
  using assms by (auto simp: fun_eq_iff wt_job_ok_def wt_cache_sector_def wt_whole_def split: option.split)

text \<open>Fields that the invariant does not read.\<close>

lemma inv_jobs:
  assumes inv: "wt_inv js d" and "mset (js' @ wt_jobs e) = mset (js @ wt_jobs d)"
    and "e = d\<lparr>wt_inflight := a, wt_io_jobs := b, wt_complete_jobs := c\<rparr>"
    and "\<And>r. r \<in> set a \<Longrightarrow> wt_io_ok r"
    and "\<And>j. j \<in> set b \<Longrightarrow> wj_index j \<noteq> None \<and> wj_rw j = Some WT_WRITECACHE"
    and "\<And>j. j \<in> set c \<Longrightarrow> wj_index j \<noteq> None \<and> wj_rw j = Some WT_READCACHE_DONE"
  shows "wt_inv js' e"
proof -
  note d = wt_invD [OF inv]
  have ow: "wt_owners (js' @ wt_jobs e) = wt_owners (js @ wt_jobs d)"
    using assms(2) by (simp add: fun_eq_iff owners_mset)
  have st: "set (js' @ wt_jobs e) = set (js @ wt_jobs d)" by (rule mset_eq_setD [OF assms(2)])
  have len: "length (js' @ wt_jobs e) = length (js @ wt_jobs d)" by (rule mset_eq_length [OF assms(2)])
  have eqs: "wt_geometry e = wt_geometry d" "wt_pointers e = wt_pointers d" "wt_indexed e = wt_indexed d"
    by (simp_all add: assms(3) wt_geometry_def wt_pointers_def wt_indexed_def wt_num_sets_def wt_live_def
        wt_hash_def)
  have jo: "wt_job_ok e = wt_job_ok d" by (rule job_ok_cong) (simp_all add: assms(3))
  have fields: "wt_size e = wt_size d" "wt_state e = wt_state d" "wt_inflight e = a" "wt_io_jobs e = b"
    "wt_complete_jobs e = c" "wt_nr_jobs e = wt_nr_jobs d"
    by (simp_all add: assms(3))
  show ?thesis
    unfolding wt_inv_def ow st len eqs jo fields using d(1-6,10) assms(4-6) by blast
qed

lemma jobs_upd:
  "mset (wt_jobs (d\<lparr>wt_inflight := a, wt_io_jobs := b, wt_complete_jobs := c\<rparr>)) =
    mset (map wi_job a) + mset b + mset c"
  by (simp add: wt_jobs_def)

lemma take_inflight:
  assumes inv: "wt_inv [] d" and n: "n < length (wt_inflight d)"
  shows "wt_inv [wi_job (wt_inflight d ! n)] (d\<lparr>wt_inflight := take n (wt_inflight d) @ drop (n + 1) (wt_inflight d)\<rparr>)"
proof -
  let ?l = "wt_inflight d"
  have l: "?l = take n ?l @ ?l ! n # drop (n + 1) ?l" using id_take_nth_drop [OF n] by simp
  have "mset (map wi_job ?l) = mset (map wi_job (take n ?l @ drop (n + 1) ?l)) + {#wi_job (?l ! n)#}"
    by (subst l) simp
  moreover have "set (take n ?l @ drop (n + 1) ?l) \<subseteq> set ?l" by (subst (3) l) auto
  ultimately show ?thesis
    using wt_invD(7-9) [OF inv]
    by (intro inv_jobs [OF inv, where a = "take n ?l @ drop (n + 1) ?l" and b = "wt_io_jobs d" and
        c = "wt_complete_jobs d"]) (auto simp: wt_jobs_def)
qed

lemma take_io:
  assumes inv: "wt_inv [] d" and "wt_io_jobs d = j # rest"
  shows "wt_inv [j] (d\<lparr>wt_io_jobs := rest\<rparr>)"
  using wt_invD(7-9) [OF inv] assms(2)
  by (intro inv_jobs [OF inv, where a = "wt_inflight d" and b = rest and c = "wt_complete_jobs d"])
    (auto simp: wt_jobs_def)

lemma take_complete:
  assumes inv: "wt_inv [] d" and "wt_complete_jobs d = j # rest"
  shows "wt_inv [j] (d\<lparr>wt_complete_jobs := rest\<rparr>)"
  using wt_invD(7-9) [OF inv] assms(2)
  by (intro inv_jobs [OF inv, where a = "wt_inflight d" and b = "wt_io_jobs d" and c = rest])
    (auto simp: wt_jobs_def)

lemma put_inflight:
  assumes inv: "wt_inv (wi_job r # js) d" and "wt_io_ok r"
  shows "wt_inv js (d\<lparr>wt_inflight := wt_inflight d @ [r]\<rparr>)"
  using wt_invD(7-9) [OF inv] assms(2)
  by (intro inv_jobs [OF inv, where a = "wt_inflight d @ [r]" and b = "wt_io_jobs d" and c = "wt_complete_jobs d"])
    (auto simp: wt_jobs_def)

lemma put_io:
  assumes inv: "wt_inv (j # js) d" and "wj_index j \<noteq> None" "wj_rw j = Some WT_WRITECACHE"
  shows "wt_inv js (d\<lparr>wt_io_jobs := wt_io_jobs d @ [j]\<rparr>)"
  using wt_invD(7-9) [OF inv] assms(2,3)
  by (intro inv_jobs [OF inv, where a = "wt_inflight d" and b = "wt_io_jobs d @ [j]" and c = "wt_complete_jobs d"])
    (auto simp: wt_jobs_def)

lemma put_complete:
  assumes inv: "wt_inv (j # js) d" and "wj_index j \<noteq> None" "wj_rw j = Some WT_READCACHE_DONE"
  shows "wt_inv js (d\<lparr>wt_complete_jobs := wt_complete_jobs d @ [j]\<rparr>)"
  using wt_invD(7-9) [OF inv] assms(2,3)
  by (intro inv_jobs [OF inv, where a = "wt_inflight d" and b = "wt_io_jobs d" and c = "wt_complete_jobs d @ [j]"])
    (auto simp: wt_jobs_def)

text \<open>The next stage of a job in hand.\<close>

lemma next_stage:
  assumes inv: "wt_inv (j # js) d" and "wj_index j = Some i" and "wt_expects rw (wt_state d i)"
  shows "wt_inv (j\<lparr>wj_rw := Some rw\<rparr> # js) d"
proof -
  note d = wt_invD [OF inv]
  have "wt_owners ((j\<lparr>wj_rw := Some rw\<rparr> # js) @ xs) = wt_owners ((j # js) @ xs)" for xs
    by (simp add: fun_eq_iff wt_owners_def)
  moreover have "wt_job_ok d (j\<lparr>wj_rw := Some rw\<rparr>)"
    using d(6) [of j] assms(2,3) by (auto simp: wt_job_ok_def)
  ultimately show ?thesis unfolding wt_inv_def using d by auto
qed

section \<open>Starting and ending a job\<close>

lemma owners_other: "wt_owners js i = 0 \<longleftrightarrow> (\<forall>j \<in> set js. wj_index j \<noteq> Some i)"
  by (auto simp: wt_owners_def filter_empty_conv)

text \<open>A free block gets an owner, for the disk block \<open>k\<close>.\<close>

lemma start_job:
  assumes inv: "wt_inv js d" and i: "i < wt_size d" "wt_free (wt_state d i)"
    and st: "\<not> wt_free st" "st \<le> WT_INPROG_INVALID"
    and k: "wt_hash d k = i div wt_assoc d" "\<forall>x < wt_size d. wt_live d x \<and> x \<noteq> i \<longrightarrow> wt_dbn d x \<noteq> k"
    and j: "wj_index j = Some i" "wj_rw j = Some rw" "wt_expects rw st" "wj_disk j = (k, wt_block_size d)"
      "wj_cache j = Some (wt_cache_sector i d, wt_block_size d)" "k = bi_sector (wj_bio j)" "wt_whole d (wj_bio j)"
    and e: "e = d\<lparr>wt_dbn := (wt_dbn d)(i := k), wt_state := (wt_state d)(i := st), wt_nr_jobs := wt_nr_jobs d + 1\<rparr>"
  shows "wt_inv (j # js) e"
proof -
  note d = wt_invD [OF inv]
  have free: "\<forall>x \<in> set (js @ wt_jobs d). wj_index x \<noteq> Some i"
    using d(5) [OF i(1)] i(2) by (simp add: owners_other)
  have jobs: "wt_jobs e = wt_jobs d" by (simp add: e wt_jobs_def)
  have same: "wt_geometry e = wt_geometry d" "wt_pointers e = wt_pointers d" "wt_size e = wt_size d"
    "wt_assoc e = wt_assoc d" "wt_hash e = wt_hash d"
    by (simp_all add: e wt_geometry_def wt_pointers_def wt_num_sets_def wt_hash_def fun_eq_iff)
  have "wt_job_ok e x" if "x \<in> set (js @ wt_jobs d)" for x
    using d(6) [OF that] bspec [OF free that]
    by (auto simp: wt_job_ok_def e wt_cache_sector_def wt_whole_def split: option.splits)
  moreover have "wt_job_ok e j"
    using i(1) j by (simp add: wt_job_ok_def e wt_cache_sector_def wt_whole_def)
  moreover have "wt_indexed e"
  proof -
    have dbn: "wt_dbn e x = (if x = i then k else wt_dbn d x)" for x by (simp add: e)
    have live: "wt_live d x" if "wt_live e x" "x \<noteq> i" for x using that by (simp add: wt_live_def e)
    from d(3) k show ?thesis
      unfolding wt_indexed_def same dbn by (metis live)
  qed
  moreover have "wt_owners ((j # js) @ wt_jobs e) x = (if wt_free (wt_state e x) then 0 else 1)"
    if "x < wt_size d" for x
    using d(5) [OF that] st(1) i(2) by (auto simp: jobs e wt_owners_def j(1))
  moreover have "wt_state e x \<le> WT_INPROG_INVALID" if "x < wt_size d" for x
    using d(4) [OF that] st(2) by (simp add: e)
  moreover have "wt_inflight e = wt_inflight d" "wt_io_jobs e = wt_io_jobs d"
    "wt_complete_jobs e = wt_complete_jobs d" "wt_nr_jobs e = int (length ((j # js) @ wt_jobs d))"
    using d(10) by (simp_all add: e)
  ultimately show ?thesis
    by (intro wt_invI) (use d(1,2,7-9) in \<open>auto simp: jobs same\<close>)
qed

lemma finish_job_inv:
  assumes inv: "wt_inv (j # js) d" and i: "wj_index j = Some i" and st: "st = WT_INVALID \<or> st = WT_VALID \<and> wt_live d i"
  shows "wt_inv js (wt_job_done (wt_set_state i st d))"
proof -
  let ?e = "wt_job_done (wt_set_state i st d)"
  note d = wt_invD [OF inv]
  have il: "i < wt_size d" using d(6) [of j] i by (auto simp: wt_job_ok_def)
  have own: "wt_owners ((j # js) @ wt_jobs d) i = Suc (wt_owners (js @ wt_jobs d) i)"
    using i by (simp add: wt_owners_def)
  with d(5) [OF il] have 0: "wt_owners (js @ wt_jobs d) i = 0" by (simp split: if_splits)
  then have other: "\<forall>x \<in> set (js @ wt_jobs d). wj_index x \<noteq> Some i" by (simp add: owners_other)
  have free: "wt_free st" using st by (auto simp: wt_free_def)
  have jobs: "wt_jobs ?e = wt_jobs d" by (simp add: wt_job_done_def wt_set_state_def wt_jobs_def)
  have same: "wt_geometry ?e = wt_geometry d" "wt_pointers ?e = wt_pointers d" "wt_size ?e = wt_size d"
    "wt_assoc ?e = wt_assoc d" "wt_hash ?e = wt_hash d" "wt_dbn ?e = wt_dbn d"
    by (simp_all add: wt_job_done_def wt_set_state_def wt_geometry_def wt_pointers_def wt_num_sets_def wt_hash_def fun_eq_iff)
  have "wt_job_ok ?e x" if "x \<in> set (js @ wt_jobs d)" for x
    using d(6) [of x] that bspec [OF other that]
    by (auto simp: wt_job_ok_def wt_job_done_def wt_set_state_def wt_cache_sector_def wt_whole_def split: option.splits)
  moreover have "wt_indexed ?e"
  proof -
    have "wt_live d x" if "wt_live ?e x" for x
      using that st by (auto simp: wt_live_def wt_job_done_def wt_set_state_def wt_states split: if_splits)
    then show ?thesis using d(3) by (simp add: wt_indexed_def same)
  qed
  moreover have "wt_owners (js @ wt_jobs ?e) x = (if wt_free (wt_state ?e x) then 0 else 1)"
    if "x < wt_size d" for x
    using d(5) [OF that] 0 free i
    by (cases "x = i") (auto simp: jobs wt_job_done_def wt_set_state_def wt_owners_def)
  moreover have "wt_state ?e x \<le> WT_INPROG_INVALID" if "x < wt_size d" for x
    using d(4) [OF that] st by (auto simp: wt_job_done_def wt_set_state_def wt_states)
  moreover have "wt_inflight ?e = wt_inflight d" "wt_io_jobs ?e = wt_io_jobs d"
    "wt_complete_jobs ?e = wt_complete_jobs d" "wt_nr_jobs ?e = int (length (js @ wt_jobs d))"
    using d(10) by (simp_all add: wt_job_done_def wt_set_state_def)
  ultimately show ?thesis
    by (intro wt_invI) (use d(1,2,7-9) in \<open>auto simp: jobs same\<close>)
qed

lemma finish_uncached:
  assumes inv: "wt_inv (j # js) d" and "wj_index j = None"
  shows "wt_inv js (wt_job_done d)"
proof -
  note d = wt_invD [OF inv]
  have "wt_jobs (wt_job_done d) = wt_jobs d" "wt_geometry (wt_job_done d) = wt_geometry d"
    "wt_pointers (wt_job_done d) = wt_pointers d" "wt_indexed (wt_job_done d) = wt_indexed d"
    by (simp_all add: wt_job_done_def wt_geometry_def wt_pointers_def wt_indexed_def wt_num_sets_def wt_live_def
        wt_hash_def wt_jobs_def)
  moreover have "wt_job_ok (wt_job_done d) = wt_job_ok d" by (rule job_ok_cong) (simp_all add: wt_job_done_def)
  moreover have "wt_owners ((j # js) @ xs) = wt_owners (js @ xs)" for xs
    using assms(2) by (simp add: fun_eq_iff wt_owners_def)
  moreover have "wt_size (wt_job_done d) = wt_size d" "wt_state (wt_job_done d) = wt_state d"
    "wt_inflight (wt_job_done d) = wt_inflight d" "wt_io_jobs (wt_job_done d) = wt_io_jobs d"
    "wt_complete_jobs (wt_job_done d) = wt_complete_jobs d"
    "wt_nr_jobs (wt_job_done d) = int (length (js @ wt_jobs d))"
    using d(10) by (simp_all add: wt_job_done_def)
  ultimately show ?thesis
    by (intro wt_invI) (use d(1-9) in auto)
qed

section \<open>Statistics\<close>

lemma inv_stats [simp]:
  "wt_inv js (wt_reads_update f d) = wt_inv js d" "wt_inv js (wt_writes_update f d) = wt_inv js d"
  "wt_inv js (wt_cache_hits_update f d) = wt_inv js d" "wt_inv js (wt_replace_update f d) = wt_inv js d"
  "wt_inv js (wt_cached_blocks_update f d) = wt_inv js d" "wt_inv js (wt_cache_wr_replace_update f d) = wt_inv js d"
  "wt_inv js (wt_uncached_reads_update f d) = wt_inv js d" "wt_inv js (wt_uncached_writes_update f d) = wt_inv js d"
  "wt_inv js (wt_cache_reads_update f d) = wt_inv js d" "wt_inv js (wt_cache_writes_update f d) = wt_inv js d"
  "wt_inv js (wt_disk_reads_update f d) = wt_inv js d" "wt_inv js (wt_disk_writes_update f d) = wt_inv js d"
  "wt_inv js (wt_size_hist_update h d) = wt_inv js d"
  by (rule wt_base_inv; simp add: wt_base_def)+

lemma bios_stats [simp]:
  "wt_bios js (wt_reads_update f d) = wt_bios js d" "wt_bios js (wt_writes_update f d) = wt_bios js d"
  "wt_bios js (wt_cache_hits_update f d) = wt_bios js d" "wt_bios js (wt_replace_update f d) = wt_bios js d"
  "wt_bios js (wt_cached_blocks_update f d) = wt_bios js d" "wt_bios js (wt_cache_wr_replace_update f d) = wt_bios js d"
  "wt_bios js (wt_uncached_reads_update f d) = wt_bios js d" "wt_bios js (wt_uncached_writes_update f d) = wt_bios js d"
  "wt_bios js (wt_cache_reads_update f d) = wt_bios js d" "wt_bios js (wt_cache_writes_update f d) = wt_bios js d"
  "wt_bios js (wt_disk_reads_update f d) = wt_bios js d" "wt_bios js (wt_disk_writes_update f d) = wt_bios js d"
  "wt_bios js (wt_size_hist_update h d) = wt_bios js d" "wt_bios js (wt_state_update m d) = wt_bios js d"
  "wt_bios js (wt_dbn_update k d) = wt_bios js d" "wt_bios js (wt_nr_jobs_update n d) = wt_bios js d"
  "wt_bios js (wt_set_lru_next_update l d) = wt_bios js d" "wt_bios js (wt_alloc_script_update a d) = wt_bios js d"
  by (simp_all add: wt_bios_def wt_jobs_def)

lemma inv_unread [simp]:
  "wt_inv js (wt_completed_update f d) = wt_inv js d" "wt_inv js (wt_alloc_script_update g d) = wt_inv js d"
proof -
  have "wt_job_ok (wt_completed_update f d) = wt_job_ok d" "wt_job_ok (wt_alloc_script_update g d) = wt_job_ok d"
    by (rule job_ok_cong; simp)+
  then show "wt_inv js (wt_completed_update f d) = wt_inv js d" "wt_inv js (wt_alloc_script_update g d) = wt_inv js d"
    unfolding wt_inv_def wt_geometry_def wt_pointers_def wt_indexed_def wt_num_sets_def wt_live_def wt_hash_def
    by simp_all
qed

lemma inv_endio [simp]: "wt_inv js (wt_endio b e d) = wt_inv js d"
  by (simp add: wt_endio_def)

lemma inv_alloc_next [simp]: "wt_inv js (wt_alloc_next d) = wt_inv js d"
  by (simp add: wt_alloc_next_def)

lemma bios_endio [simp]: "wt_bios js (wt_endio b e d) = add_mset b (wt_bios js d)"
  by (simp add: wt_bios_def wt_endio_def)

section \<open>Requests around the cache\<close>

text \<open>A job in hand whose block is not cached is not counted yet.\<close>

lemma count_job:
  assumes inv: "wt_inv js d" and "wj_index j = None" "wj_disk j = (bi_sector (wj_bio j), unat (to_sector (wj_bio j)))"
    and e: "e = d\<lparr>wt_nr_jobs := wt_nr_jobs d + 1\<rparr>"
  shows "wt_inv (j # js) e"
proof -
  note d = wt_invD [OF inv]
  have jo: "wt_job_ok e = wt_job_ok d" by (rule job_ok_cong) (simp_all add: e)
  have "wt_geometry e = wt_geometry d" "wt_pointers e = wt_pointers d" "wt_indexed e = wt_indexed d"
    by (simp_all add: e wt_geometry_def wt_pointers_def wt_indexed_def wt_num_sets_def wt_live_def wt_hash_def)
  moreover have "wt_owners ((j # js) @ xs) = wt_owners (js @ xs)" for xs
    using assms(2) by (simp add: fun_eq_iff wt_owners_def)
  moreover have "wt_job_ok d j" using assms(2,3) by (simp add: wt_job_ok_def)
  moreover have "wt_size e = wt_size d" "wt_state e = wt_state d" "wt_inflight e = wt_inflight d"
    "wt_io_jobs e = wt_io_jobs d" "wt_complete_jobs e = wt_complete_jobs d" "wt_jobs e = wt_jobs d"
    "wt_nr_jobs e = int (length ((j # js) @ wt_jobs d))"
    using d(10) by (simp_all add: e)
  ultimately show ?thesis
    by (intro wt_invI) (use d(1-9) in \<open>auto simp: jo\<close>)
qed

lemma start_uncached_spec:
  assumes "wt_inv js d"
  shows "wt_inv js (wt_start_uncached_io b d)" "wt_bios js (wt_start_uncached_io b d) = add_mset b (wt_bios js d)"
proof -
  define j where "j = \<lparr>wj_bio = b, wj_disk = (bi_sector b, unat (to_sector b)), wj_cache = None,
      wj_index = None, wj_rw = None\<rparr>"
  define r where "r = \<lparr>wi_dev = DiskDev, wi_write = bi_is_write b, wi_sector = bi_sector b,
      wi_count = unat (to_sector b), wi_fn = Wt_uncached_io_callback, wi_job = j, wi_done = {}\<rparr>"
  define e where "e = (let d = wt_alloc_next d\<lparr>wt_nr_jobs := wt_nr_jobs (wt_alloc_next d) + 1\<rparr>
     in if bi_is_write b then d\<lparr>wt_disk_writes := wt_disk_writes d + 1\<rparr>
        else d\<lparr>wt_disk_reads := wt_disk_reads d + 1\<rparr>)"
  have eq: "wt_start_uncached_io b d = (if wt_alloc_ok d then e\<lparr>wt_inflight := wt_inflight e @ [r]\<rparr>
      else wt_endio b (- EIO) (wt_alloc_next d))"
    by (simp add: wt_start_uncached_io_def wt_new_kcached_job_def wt_submit_def Let_def e_def r_def j_def)
  have "wt_inv (j # js) e"
    using count_job [of js "wt_alloc_next d" j, OF _ _ _ refl] assms by (simp add: e_def Let_def j_def)
  moreover have "wi_job r = j" "wt_io_ok r" by (simp_all add: r_def j_def wt_io_ok_def)
  ultimately show "wt_inv js (wt_start_uncached_io b d)"
    using put_inflight [of r js e] assms by (simp add: eq)
  have "wt_bios js e = wt_bios js d" "wt_bios js (wt_alloc_next d) = wt_bios js d"
    by (simp_all add: e_def Let_def wt_alloc_next_def)
  then show "wt_bios js (wt_start_uncached_io b d) = add_mset b (wt_bios js d)"
    by (simp add: eq) (simp add: wt_bios_def wt_jobs_def r_def j_def)
qed

section \<open>Callbacks\<close>

lemma live_cases: "wt_live d i \<longleftrightarrow> wt_state d i = WT_VALID \<or> wt_state d i = WT_INPROG \<or> wt_state d i = WT_CACHEREADINPROG"
  by (auto simp: wt_live_def)

lemma bios_finish [simp]: "wt_bios js (wt_job_done d) = wt_bios js d" "wt_bios js (wt_set_state i st d) = wt_bios js d"
  by (simp_all add: wt_job_done_def wt_set_state_def)

lemma bios_Cons: "wt_bios (j # js) d = add_mset (wj_bio j) (wt_bios js d)"
  by (simp add: wt_bios_def)

lemma job_done_cached: "wt_job_done (d\<lparr>wt_cached_blocks := x\<rparr>) = (wt_job_done d)\<lparr>wt_cached_blocks := x\<rparr>"
  by (simp add: wt_job_done_def)

lemma end_job:
  assumes "wt_inv (j # js) d" and "wj_index j = Some i" and "st = WT_INVALID \<or> st = WT_VALID \<and> wt_live d i"
  shows "wt_inv js (wt_job_done (wt_set_state i st (wt_endio (wj_bio j) e d)))"
    "wt_bios js (wt_job_done (wt_set_state i st (wt_endio (wj_bio j) e d))) = wt_bios (j # js) d"
  using finish_job_inv [of j js "wt_endio (wj_bio j) e d" i st] assms
  by (simp_all add: bios_Cons) (simp add: wt_live_def wt_endio_def)

lemma io_callback_spec:
  assumes inv: "wt_inv [j] d" and j: "wj_index j = Some i" "wj_rw j = Some rw" "rw \<noteq> WT_READCACHE_DONE"
  shows "\<exists>d'. wt_io_callback err j d = Some d' \<and> wt_inv [] d' \<and> wt_bios [] d' = wt_bios [j] d"
proof -
  have ex: "wt_expects rw (wt_state d i)" using wt_invD(6) [OF inv, of j] j by (auto simp: wt_job_ok_def)
  show ?thesis
  proof (cases "rw = WT_READSOURCE \<or> rw = WT_WRITESOURCE")
    case source: True
    then have st: "wt_state d i = WT_INPROG \<or> wt_state d i = WT_INPROG_INVALID" using ex by auto
    show ?thesis
    proof (cases "err \<noteq> 0 \<or> wt_state d i \<noteq> WT_INPROG")
      case True
      with source st show ?thesis
        using end_job [OF inv j(1), of WT_INVALID err] by (auto simp: wt_io_callback_def j)
    next
      case False
      then have "wt_expects WT_WRITECACHE (wt_state d i)" by simp
      from put_io [OF next_stage [OF inv j(1) this]] j(1)
      have "wt_inv [] (d\<lparr>wt_io_jobs := wt_io_jobs d @ [j\<lparr>wj_rw := Some WT_WRITECACHE\<rparr>]\<rparr>)" by simp
      with False source st show ?thesis
        by (auto simp: wt_io_callback_def j wt_bios_def wt_jobs_def)
    qed
  next
    case nosource: False
    show ?thesis
    proof (cases "rw = WT_READCACHE")
      case hit: True
      then have st: "wt_state d i = WT_CACHEREADINPROG \<or> wt_state d i = WT_INPROG_INVALID" using ex by auto
      show ?thesis
      proof (cases "wt_state d i \<noteq> WT_INPROG_INVALID \<and> err = 0")
        case True
        with st have "wt_live d i" by (auto simp: wt_live_def)
        with True hit st show ?thesis
          using end_job [OF inv j(1), of WT_VALID 0] by (auto simp: wt_io_callback_def j)
      next
        case False
        have "wt_expects WT_READCACHE_DONE (wt_state d i)" using st by auto
        from put_complete [OF next_stage [OF inv j(1) this]] j(1)
        have "wt_inv [] (d\<lparr>wt_complete_jobs := wt_complete_jobs d @ [j\<lparr>wj_rw := Some WT_READCACHE_DONE\<rparr>]\<rparr>)"
          by simp
        with False hit st show ?thesis
          by (auto simp: wt_io_callback_def j wt_bios_def wt_jobs_def)
      qed
    next
      case False
      with nosource ex j(3) have fill: "rw = WT_WRITECACHE" "wt_state d i = WT_INPROG \<or> wt_state d i = WT_INPROG_INVALID"
        by (cases rw; auto)+
      show ?thesis
      proof (cases "err \<noteq> 0 \<or> wt_state d i = WT_INPROG_INVALID")
        case True
        with fill show ?thesis
          using end_job [OF inv j(1), of WT_INVALID 0] by (auto simp: wt_io_callback_def j Let_def)
      next
        case False
        with fill(2) have "wt_live d i" by (auto simp: wt_live_def)
        with False fill show ?thesis
          using end_job [OF inv j(1), of WT_VALID 0]
          by (auto simp: wt_io_callback_def j Let_def job_done_cached)
      qed
    qed
  qed
qed

end
