(* ===== verification/Wt_Ops.thy ===== *)
theory Wt_Ops
  imports Wt_Steps
begin

text \<open>
  The entry points of the write through driver under the invariant: a request, a completion, the jobs of the
  worker, and the two loops of the worker, which end.
\<close>

section \<open>Completions and the worker\<close>

lemma base_bios: "wt_base d' = wt_base d \<Longrightarrow> wt_bios js d' = wt_bios js d"
  by (rule wt_base_sel)

lemma uncached_callback_spec:
  assumes "wt_inv [j] d" and "wj_index j = None"
  shows "\<exists>d'. wt_uncached_io_callback err j d = Some d' \<and> wt_inv [] d' \<and> wt_bios [] d' = wt_bios [j] d"
proof -
  define e where "e = (if bi_is_write (wj_bio j) then d\<lparr>wt_uncached_writes := wt_uncached_writes d + 1\<rparr>
              else d\<lparr>wt_uncached_reads := wt_uncached_reads d + 1\<rparr>)"
  have e: "wt_inv [j] e" "wt_bios [j] e = wt_bios [j] d" using assms(1) by (simp_all add: e_def)
  from invalidate_blocks [OF e(1), of "wj_bio j"] obtain n d1 where
    1: "wt_invalidate_blocks (wj_bio j) e = Some (n, d1)" "wt_base d1 = wt_base e" "wt_inv [j] d1" by blast
  have "wt_inv [j] (wt_endio (wj_bio j) err d1)" using 1(3) by simp
  from finish_uncached [OF this assms(2)] have
    "wt_inv [] (wt_job_done (wt_endio (wj_bio j) err d1))" .
  moreover have "wt_uncached_io_callback err j d = Some (wt_job_done (wt_endio (wj_bio j) err d1))"
    using 1(1) by (simp add: wt_uncached_io_callback_def flip: e_def)
  ultimately show ?thesis using base_bios [OF 1(2)] e(2) by (simp add: bios_Cons)
qed

lemma wt_complete_io_spec:
  assumes inv: "wt_inv [] d" and n: "n < length (wt_inflight d)"
  shows "\<exists>d'. wt_complete_io n err d = Some d' \<and> wt_inv [] d' \<and> wt_bios [] d' = wt_bios [] d"
proof -
  let ?r = "wt_inflight d ! n"
  define e where "e = d\<lparr>wt_inflight := take n (wt_inflight d) @ drop (n + 1) (wt_inflight d)\<rparr>"
  have e: "wt_inv [wi_job ?r] e" unfolding e_def by (rule take_inflight [OF inv n])
  have "mset (wt_inflight d) = add_mset ?r (mset (take n (wt_inflight d) @ drop (n + 1) (wt_inflight d)))"
    by (subst id_take_nth_drop [OF n]) simp
  then have b: "wt_bios [wi_job ?r] e = wt_bios [] d"
    by (simp add: wt_bios_def wt_jobs_def e_def)
  have io: "wt_io_ok ?r" using wt_invD(7) [OF inv] n by simp
  have run: "wt_complete_io n err d = (case wi_fn ?r of
       Wt_io_callback \<Rightarrow> wt_io_callback err (wi_job ?r) e
     | Wt_uncached_io_callback \<Rightarrow> wt_uncached_io_callback err (wi_job ?r) e)"
    using n by (simp add: wt_complete_io_def e_def Let_def split: wt_notify.split)
  show ?thesis
  proof (cases "wi_fn ?r")
    case Wt_io_callback
    with io obtain i rw where "wj_index (wi_job ?r) = Some i" "wj_rw (wi_job ?r) = Some rw" "rw \<noteq> WT_READCACHE_DONE"
      by (auto simp: wt_io_ok_def Let_def)
    from io_callback_spec [OF e this] b Wt_io_callback run show ?thesis by simp
  next
    case Wt_uncached_io_callback
    with io have "wj_index (wi_job ?r) = None" by (simp add: wt_io_ok_def Let_def)
    from uncached_callback_spec [OF e this] b Wt_uncached_io_callback run show ?thesis by simp
  qed
qed

lemma run_io_spec:
  assumes inv: "wt_inv [] d" and ne: "wt_io_jobs d \<noteq> []"
  shows "\<exists>d'. wt_run_io d = Some d' \<and> wt_inv [] d' \<and> wt_bios [] d' = wt_bios [] d \<and>
    wt_io_jobs d' = tl (wt_io_jobs d)"
proof -
  obtain j rest where l: "wt_io_jobs d = j # rest" using ne by (cases "wt_io_jobs d") auto
  from wt_invD(8) [OF inv, of j] l obtain i where j: "wj_index j = Some i" "wj_rw j = Some WT_WRITECACHE" by auto
  define e where "e = d\<lparr>wt_io_jobs := rest\<rparr>"
  have e: "wt_inv [j] e" unfolding e_def by (rule take_io [OF inv l])
  have c: "wj_cache j = Some (wt_cache_sector i d, wt_block_size d)"
    using wt_invD(6) [OF inv, of j] l j(1) by (simp add: wt_jobs_def wt_job_ok_def)
  define r where "r = \<lparr>wi_dev = CacheDev, wi_write = True, wi_sector = wt_cache_sector i d,
      wi_count = wt_block_size d, wi_fn = Wt_io_callback, wi_job = j, wi_done = {}\<rparr>"
  have r: "wi_job r = j" "wt_io_ok r" using j c by (simp_all add: r_def wt_io_ok_def)
  have run: "wt_run_io d = Some (e\<lparr>wt_cache_writes := wt_cache_writes e + 1, wt_inflight := wt_inflight e @ [r]\<rparr>)"
    using l j c by (simp add: wt_run_io_def wt_do_io_def wt_submit_def e_def r_def)
  have "wt_inv [] (e\<lparr>wt_cache_writes := wt_cache_writes e + 1, wt_inflight := wt_inflight e @ [r]\<rparr>)"
    using put_inflight [of r "[]" "e\<lparr>wt_cache_writes := wt_cache_writes e + 1\<rparr>"] e r by simp
  with run show ?thesis by (simp add: l wt_bios_def wt_jobs_def e_def r_def)
qed

lemma uncached_keeps_lists:
  "wt_complete_jobs (wt_start_uncached_io b d) = wt_complete_jobs d"
  "wt_io_jobs (wt_start_uncached_io b d) = wt_io_jobs d"
  by (simp_all add: wt_start_uncached_io_def wt_new_kcached_job_def wt_endio_def wt_alloc_next_def wt_submit_def Let_def)

lemma run_complete_spec:
  assumes inv: "wt_inv [] d" and ne: "wt_complete_jobs d \<noteq> []"
  shows "\<exists>d'. wt_run_complete d = Some d' \<and> wt_inv [] d' \<and> wt_bios [] d' = wt_bios [] d \<and>
    wt_complete_jobs d' = tl (wt_complete_jobs d) \<and> wt_io_jobs d' = wt_io_jobs d"
proof -
  obtain j rest where l: "wt_complete_jobs d = j # rest" using ne by (cases "wt_complete_jobs d") auto
  from wt_invD(9) [OF inv, of j] l obtain i where j: "wj_index j = Some i" "wj_rw j = Some WT_READCACHE_DONE" by auto
  define e where "e = d\<lparr>wt_complete_jobs := rest\<rparr>"
  have e: "wt_inv [j] e" unfolding e_def by (rule take_complete [OF inv l])
  have "wt_inv [] (wt_job_done (wt_set_state i WT_INVALID e))" by (rule finish_job_inv [OF e j(1)]) simp
  note u = start_uncached_spec [OF this, of "wj_bio j"]
  have "wt_run_complete d = Some (wt_start_uncached_io (wj_bio j) (wt_job_done (wt_set_state i WT_INVALID e)))"
    using l j by (simp add: wt_run_complete_def wt_do_complete_def e_def)
  moreover have "add_mset (wj_bio j) (wt_bios [] e) = wt_bios [] d"
    by (simp add: wt_bios_def wt_jobs_def e_def l)
  ultimately show ?thesis using u
    by (simp add: uncached_keeps_lists l) (simp add: wt_job_done_def wt_set_state_def e_def)
qed

text \<open>The loops of the worker end: each turn takes one job and none is added.\<close>

lemma process_complete_spec:
  assumes "wt_inv [] d"
  shows "\<exists>d'. wt_process_complete d = Some d' \<and> wt_inv [] d' \<and> wt_bios [] d' = wt_bios [] d \<and>
    wt_complete_jobs d' = [] \<and> wt_io_jobs d' = wt_io_jobs d"
  using assms
proof (induction "length (wt_complete_jobs d)" arbitrary: d)
  case 0
  then show ?case by (subst wt_process_complete.simps) simp
next
  case (Suc n)
  then have ne: "wt_complete_jobs d \<noteq> []" by auto
  from run_complete_spec [OF Suc.prems ne] obtain d1 where
    1: "wt_run_complete d = Some d1" "wt_inv [] d1" "wt_bios [] d1 = wt_bios [] d"
      "wt_complete_jobs d1 = tl (wt_complete_jobs d)" "wt_io_jobs d1 = wt_io_jobs d" by blast
  with Suc.hyps Suc.hyps(1) [of d1] ne show ?case
    by (subst wt_process_complete.simps) (simp add: Suc.hyps(2) [symmetric])
qed

lemma process_io_spec:
  assumes "wt_inv [] d"
  shows "\<exists>d'. wt_process_io d = Some d' \<and> wt_inv [] d' \<and> wt_bios [] d' = wt_bios [] d \<and> wt_io_jobs d' = []"
  using assms
proof (induction "length (wt_io_jobs d)" arbitrary: d)
  case 0
  then show ?case by (subst wt_process_io.simps) simp
next
  case (Suc n)
  then have ne: "wt_io_jobs d \<noteq> []" by auto
  from run_io_spec [OF Suc.prems ne] obtain d1 where
    1: "wt_run_io d = Some d1" "wt_inv [] d1" "wt_bios [] d1 = wt_bios [] d" "wt_io_jobs d1 = tl (wt_io_jobs d)"
    by blast
  with Suc.hyps Suc.hyps(1) [of d1] ne show ?case
    by (subst wt_process_io.simps) (simp add: Suc.hyps(2) [symmetric])
qed

lemma wt_do_work_spec:
  assumes "wt_inv [] d"
  shows "\<exists>d'. wt_do_work d = Some d' \<and> wt_inv [] d' \<and> wt_bios [] d' = wt_bios [] d \<and> wt_io_jobs d' = []"
proof -
  from process_complete_spec [OF assms] obtain d1 where
    "wt_process_complete d = Some d1" "wt_inv [] d1" "wt_bios [] d1 = wt_bios [] d" by blast
  with process_io_spec [OF this(2)] show ?thesis by (simp add: wt_do_work_def)
qed

end
