(* ===== verification/Wt_Map.thy ===== *)
theory Wt_Map
  imports Wt_Ops
begin

text \<open>
  Requests to the write through driver. The locale \<open>wt_request\<close> states what a property must satisfy to go
  through \<open>flashcache_wt_map\<close>: that invalidation and the sweep pointers keep it, and what starting a request
  around the cache, filling a block and a hit make of it. Its first instance is the invariant with the account
  of the requests.
\<close>

section \<open>Claiming a block\<close>

lemma free_slot:
  assumes inv: "wt_inv js d" and i: "i < wt_size d" "wt_free (wt_state d i)"
    and e: "e = d\<lparr>wt_dbn := (wt_dbn d)(i := k), wt_state := (wt_state d)(i := WT_INVALID)\<rparr>"
  shows "wt_inv js e"
proof -
  note d = wt_invD [OF inv]
  have free: "\<forall>x \<in> set (js @ wt_jobs d). wj_index x \<noteq> Some i"
    using d(5) [OF i(1)] i(2) by (simp add: owners_other)
  have same: "wt_geometry e = wt_geometry d" "wt_pointers e = wt_pointers d" "wt_size e = wt_size d"
    "wt_assoc e = wt_assoc d" "wt_hash e = wt_hash d" "wt_jobs e = wt_jobs d" "wt_inflight e = wt_inflight d"
    "wt_io_jobs e = wt_io_jobs d" "wt_complete_jobs e = wt_complete_jobs d" "wt_nr_jobs e = wt_nr_jobs d"
    by (simp_all add: e wt_geometry_def wt_pointers_def wt_num_sets_def wt_hash_def fun_eq_iff)
  have "wt_job_ok e x" if "x \<in> set (js @ wt_jobs d)" for x
    using d(6) [OF that] bspec [OF free that]
    by (auto simp: wt_job_ok_def e wt_cache_sector_def wt_whole_def split: option.splits)
  moreover have "wt_indexed e"
  proof -
    have "wt_live e x \<Longrightarrow> wt_live d x \<and> x \<noteq> i" "x \<noteq> i \<Longrightarrow> wt_dbn e x = wt_dbn d x" for x
      by (auto simp: wt_live_def e wt_states split: if_splits)
    with d(3) show ?thesis unfolding wt_indexed_def same by metis
  qed
  moreover have "wt_owners (js @ wt_jobs d) x = (if wt_free (wt_state e x) then 0 else 1)"
    if "x < wt_size d" for x
    using d(5) [OF that] d(5) [OF i(1)] i(2) by (cases "x = i") (simp_all add: e wt_free_def)
  moreover have "wt_state e x \<le> WT_INPROG_INVALID" if "x < wt_size d" for x
    using d(4) [OF that] by (simp add: e wt_states)
  ultimately show ?thesis
    by (intro wt_invI) (use d(1,2,7-10) in \<open>auto simp: same\<close>)
qed

text \<open>No live block holds the disk block of the request.\<close>

definition wt_missing :: "bio \<Rightarrow> wt_cache \<Rightarrow> bool" where
  "wt_missing b d \<longleftrightarrow> (\<forall>x < wt_size d. wt_live d x \<longrightarrow> wt_dbn d x \<noteq> bi_sector b)"

text \<open>A claimed block with the request for it at the disk, or nothing when there is no memory for the job.\<close>

definition wt_fill :: "wt_rw \<Rightarrow> bool \<Rightarrow> bio \<Rightarrow> nat \<Rightarrow> wt_cache \<Rightarrow> wt_cache" where
  "wt_fill rw write b i d = (case wt_new_kcached_job b (Some i) (wt_claim b i d) of
       (None, d) \<Rightarrow> wt_endio b (- EIO) (wt_set_state i WT_INVALID d)
     | (Some job, d) \<Rightarrow> wt_submit DiskDev write (wj_disk job) Wt_io_callback (job\<lparr>wj_rw := Some rw\<rparr>)
         (d\<lparr>wt_nr_jobs := wt_nr_jobs d + 1\<rparr>))"

lemma claim_jobs:
  "wt_alloc_ok (wt_claim b i d) = wt_alloc_ok d" "wt_cache_sector x (wt_claim b i d) = wt_cache_sector x d"
  "wt_block_size (wt_claim b i d) = wt_block_size d"
  by (simp_all add: wt_claim_def wt_set_state_def wt_alloc_ok_def wt_cache_sector_def)

lemma fill_spec:
  assumes inv: "wt_inv [] d" and i: "i < wt_size d" "wt_free (wt_state d i)" "i div wt_assoc d = wt_hash d (bi_sector b)"
    and miss: "wt_missing b d" and whole: "wt_whole d b"
    and rw: "rw = WT_READSOURCE \<and> \<not> w \<or> rw = WT_WRITESOURCE \<and> w"
  shows "wt_inv [] (wt_fill rw w b i d)" "wt_bios [] (wt_fill rw w b i d) = add_mset b (wt_bios [] d)"
proof -
  define j where "j = \<lparr>wj_bio = b, wj_disk = (bi_sector b, wt_block_size d),
      wj_cache = Some (wt_cache_sector i d, wt_block_size d), wj_index = Some i, wj_rw = Some rw\<rparr>"
  define r where "r = \<lparr>wi_dev = DiskDev, wi_write = w, wi_sector = bi_sector b, wi_count = wt_block_size d,
      wi_fn = Wt_io_callback, wi_job = j, wi_done = {}\<rparr>"
  define c where "c = wt_alloc_next (wt_claim b i d)"
  define e where "e = c\<lparr>wt_nr_jobs := wt_nr_jobs c + 1\<rparr>"
  have eq: "wt_fill rw w b i d = (if wt_alloc_ok d then e\<lparr>wt_inflight := wt_inflight e @ [r]\<rparr>
      else wt_endio b (- EIO) (wt_set_state i WT_INVALID c))"
    by (simp add: wt_fill_def wt_new_kcached_job_def claim_jobs wt_submit_def c_def e_def r_def j_def)
  have st: "\<not> wt_free WT_INPROG" "WT_INPROG \<le> WT_INPROG_INVALID" by (simp_all add: wt_free_def wt_states)
  have "wt_inv [j] (d\<lparr>wt_dbn := (wt_dbn d)(i := bi_sector b), wt_state := (wt_state d)(i := WT_INPROG),
      wt_nr_jobs := wt_nr_jobs d + 1\<rparr>)"
    by (rule start_job [OF inv i(1,2) st _ _ _ _ _ _ _ _ _ refl, where rw = rw])
      (use i(3) miss whole rw in \<open>auto simp: j_def wt_missing_def\<close>)
  then have "wt_inv [j] (wt_alloc_next (d\<lparr>wt_dbn := (wt_dbn d)(i := bi_sector b),
      wt_state := (wt_state d)(i := WT_INPROG), wt_nr_jobs := wt_nr_jobs d + 1\<rparr>))" by simp
  also have "wt_alloc_next (d\<lparr>wt_dbn := (wt_dbn d)(i := bi_sector b),
      wt_state := (wt_state d)(i := WT_INPROG), wt_nr_jobs := wt_nr_jobs d + 1\<rparr>) = e"
    by (simp add: e_def c_def wt_alloc_next_def wt_claim_def wt_set_state_def)
  finally have e: "wt_inv [j] e" .
  have r: "wi_job r = j" "wt_io_ok r" using rw by (auto simp: r_def j_def wt_io_ok_def)
  have "wt_set_state i WT_INVALID c =
      wt_alloc_next (d\<lparr>wt_dbn := (wt_dbn d)(i := bi_sector b), wt_state := (wt_state d)(i := WT_INVALID)\<rparr>)"
    by (simp add: c_def wt_alloc_next_def wt_claim_def wt_set_state_def)
  then have "wt_inv [] (wt_set_state i WT_INVALID c)"
    using free_slot [OF inv i(1,2) refl] by simp
  then show "wt_inv [] (wt_fill rw w b i d)"
    using put_inflight [of r "[]" e] e r by (simp add: eq)
  have "wt_bios [] e = wt_bios [] d" "wt_bios [] (wt_set_state i WT_INVALID c) = wt_bios [] d"
    by (simp_all add: e_def c_def wt_alloc_next_def wt_claim_def wt_set_state_def)
  then show "wt_bios [] (wt_fill rw w b i d) = add_mset b (wt_bios [] d)"
    by (simp add: eq) (simp add: wt_bios_def wt_jobs_def r_def j_def)
qed

section \<open>Reads\<close>

lemma read_hit_spec:
  assumes inv: "wt_inv [] d" and i: "i < wt_size d" "wt_state d i = WT_VALID" "wt_dbn d i = bi_sector b"
    and whole: "wt_whole d b"
  shows "\<exists>d'. wt_read_hit b i d = Some d' \<and> wt_inv [] d' \<and> wt_bios [] d' = add_mset b (wt_bios [] d)"
proof -
  define j where "j = \<lparr>wj_bio = b, wj_disk = (bi_sector b, wt_block_size d),
      wj_cache = Some (wt_cache_sector i d, wt_block_size d), wj_index = Some i, wj_rw = Some WT_READCACHE\<rparr>"
  define r where "r = \<lparr>wi_dev = CacheDev, wi_write = False, wi_sector = wt_cache_sector i d,
      wi_count = wt_block_size d, wi_fn = Wt_io_callback, wi_job = j, wi_done = {}\<rparr>"
  define c where "c = wt_alloc_next ((wt_set_state i WT_CACHEREADINPROG d)\<lparr>wt_cache_hits := wt_cache_hits d + 1\<rparr>)"
  define e where "e = c\<lparr>wt_nr_jobs := wt_nr_jobs c + 1, wt_cache_reads := wt_cache_reads c + 1\<rparr>"
  have eq: "wt_read_hit b i d = Some (if wt_alloc_ok d then e\<lparr>wt_inflight := wt_inflight e @ [r]\<rparr>
      else wt_endio b (- EIO) (wt_set_state i WT_VALID c))"
    by (simp add: wt_read_hit_def wt_new_kcached_job_def wt_submit_def c_def e_def r_def j_def wt_set_state_def
        wt_alloc_ok_def wt_cache_sector_def Let_def)
  have st: "\<not> wt_free WT_CACHEREADINPROG" "WT_CACHEREADINPROG \<le> WT_INPROG_INVALID" "wt_free (wt_state d i)"
    using i(2) by (simp_all add: wt_free_def wt_states)
  have live: "wt_live d i" using i(2) by (simp add: wt_live_def)
  note idx = wt_invD(3) [OF inv, unfolded wt_indexed_def]
  have "wt_inv [j] (d\<lparr>wt_dbn := (wt_dbn d)(i := bi_sector b), wt_state := (wt_state d)(i := WT_CACHEREADINPROG),
      wt_nr_jobs := wt_nr_jobs d + 1\<rparr>)"
    by (rule start_job [OF inv i(1) st(3,1,2) _ _ _ _ _ _ _ _ _ refl, where rw = WT_READCACHE])
      (use idx live i whole in \<open>auto simp: j_def\<close>)
  also have "(wt_dbn d)(i := bi_sector b) = wt_dbn d" using i(3) by (simp add: fun_eq_iff)
  finally have e0: "wt_inv [j] (d\<lparr>wt_dbn := wt_dbn d, wt_state := (wt_state d)(i := WT_CACHEREADINPROG),
      wt_nr_jobs := wt_nr_jobs d + 1\<rparr>)" .
  have "e = wt_alloc_next (d\<lparr>wt_dbn := wt_dbn d, wt_state := (wt_state d)(i := WT_CACHEREADINPROG),
      wt_nr_jobs := wt_nr_jobs d + 1\<rparr>) \<lparr>wt_cache_hits := wt_cache_hits e\<rparr> \<lparr>wt_cache_reads := wt_cache_reads e\<rparr>"
    by (simp add: e_def c_def wt_alloc_next_def wt_set_state_def)
  then have e: "wt_inv [j] e" using e0 by (metis inv_alloc_next inv_stats(3,9))
  have r: "wi_job r = j" "wt_io_ok r" by (auto simp: r_def j_def wt_io_ok_def)
  have "(wt_state d)(i := WT_VALID) = wt_state d" using i(2) by (simp add: fun_eq_iff)
  then have "wt_set_state i WT_VALID c = wt_alloc_next d\<lparr>wt_cache_hits := wt_cache_hits d + 1\<rparr>"
    by (simp add: c_def wt_alloc_next_def wt_set_state_def)
  then have "wt_inv [] (wt_set_state i WT_VALID c)" using inv by simp
  then have "wt_inv [] (if wt_alloc_ok d then e\<lparr>wt_inflight := wt_inflight e @ [r]\<rparr>
      else wt_endio b (- EIO) (wt_set_state i WT_VALID c))"
    using put_inflight [of r "[]" e] e r by simp
  moreover have "wt_bios [] e = wt_bios [] d" "wt_bios [] (wt_set_state i WT_VALID c) = wt_bios [] d"
    by (simp_all add: e_def c_def wt_alloc_next_def wt_set_state_def)
  then have "wt_bios [] (if wt_alloc_ok d then e\<lparr>wt_inflight := wt_inflight e @ [r]\<rparr>
      else wt_endio b (- EIO) (wt_set_state i WT_VALID c)) = add_mset b (wt_bios [] d)"
    by simp (simp add: wt_bios_def wt_jobs_def r_def j_def)
  ultimately show ?thesis unfolding eq by blast
qed

lemma fill_stats:
  "wt_read_miss b i (wt_claim b i d) =
     (wt_fill WT_READSOURCE False b i d)\<lparr>wt_disk_reads :=
        (if wt_alloc_ok d then wt_disk_reads d + 1 else wt_disk_reads d)\<rparr>"
  by (cases "hd_or True (wt_alloc_script d)")
    (simp_all add: wt_read_miss_def wt_fill_def wt_new_kcached_job_def wt_submit_def wt_alloc_ok_def wt_endio_def
      wt_set_state_def wt_alloc_next_def wt_claim_def)

text \<open>What is free stays free, and what is missing stays missing, when blocks are invalidated.\<close>

lemma inval_free: "wt_state d' = wt_inval_state H d \<Longrightarrow> wt_free (wt_state d' i) = wt_free (wt_state d i)"
  by (auto simp: wt_free_def wt_inval_state_def wt_states)

lemma inval_missing:
  assumes "wt_base d' = wt_base d" "wt_state d' = wt_inval_state H d" and "wt_missing b d"
  shows "wt_missing b d'"
proof -
  have "wt_live d x" if "wt_live d' x" for x
    using that assms(2) by (auto simp: wt_live_def wt_inval_state_def wt_states split: if_splits)
  then show ?thesis using assms(3) by (simp add: wt_missing_def wt_base_sel [OF assms(1)])
qed

text \<open>A request whose blocks do not wrap around the end of the sectors.\<close>

definition wt_fits :: "wt_cache \<Rightarrow> bio \<Rightarrow> bool" where
  "wt_fits d b \<longleftrightarrow> unat (bi_sector b) + wt_block_size d < 2 ^ 64"

lemma own_block_met:
  assumes inv: "wt_inv js d" and fits: "wt_fits d b" and i: "i < wt_size d" "wt_live d i" "wt_dbn d i = bi_sector b"
  shows "wt_met b d i"
proof -
  have bs: "0 < wt_block_size d" "wt_block_size d < 2 ^ 64"
    using wt_invD(1) [OF inv] fits by (simp_all add: wt_geometry_def wt_fits_def)
  then have "unat (of_nat (wt_block_size d) :: sector) = wt_block_size d" by (simp add: unat_of_nat)
  then have "unat (bi_sector b + of_nat (wt_block_size d)) = unat (bi_sector b) + wt_block_size d"
    using fits by (subst unat_plus_if') (simp add: wt_fits_def)
  then have "bi_sector b < bi_sector b + of_nat (wt_block_size d)" using bs(1) by (simp add: word_less_nat_alt)
  moreover have "i div wt_assoc d = wt_hash d (bi_sector b)"
    using wt_invD(3) [OF inv] i by (auto simp: wt_indexed_def)
  ultimately show ?thesis using i by (simp add: wt_met_def wt_overlaps_def)
qed

section \<open>A request, in general\<close>

definition wt_clear :: "bio \<Rightarrow> wt_cache \<Rightarrow> bool" where
  "wt_clear b d \<longleftrightarrow> (\<forall>i < wt_size d. wt_live d i \<longrightarrow> \<not> wt_met b d i)"

lemma wt_met_base: "wt_base d' = wt_base d \<Longrightarrow> wt_met b d' = wt_met b d"
  using wt_base_sel [of d' d] by (simp add: fun_eq_iff wt_met_def wt_overlaps_def)

lemma inval_clear:
  assumes "wt_base d' = wt_base d" and "wt_state d' = wt_inval_state (wt_met b d) d"
  shows "wt_clear b d'"
  unfolding wt_clear_def wt_met_base [OF assms(1)]
  by (auto simp: wt_live_def assms(2) wt_inval_state_def wt_states split: if_splits)

lemma clear_missing:
  assumes "wt_inv js d" and "wt_fits d b" and "wt_clear b d"
  shows "wt_missing b d"
  unfolding wt_missing_def
proof (intro allI impI notI)
  fix x assume x: "x < wt_size d" "wt_live d x" "wt_dbn d x = bi_sector b"
  with own_block_met [OF assms(1,2) x] assms(3) show False by (simp add: wt_clear_def)
qed

definition wt_fill_rw :: "bio \<Rightarrow> wt_rw" where
  "wt_fill_rw b = (if bi_is_write b then WT_WRITESOURCE else WT_READSOURCE)"

locale wt_request =
  fixes b :: bio and Q R :: "wt_cache \<Rightarrow> bool"
  assumes Q_inv: "Q d \<Longrightarrow> wt_inv [] d"
    and Q_inval: "Q d \<Longrightarrow> wt_base d' = wt_base d \<Longrightarrow> wt_state d' = wt_inval_state H d \<Longrightarrow> Q d'"
    and Q_pointer: "Q d \<Longrightarrow> wt_inv [] (d\<lparr>wt_set_lru_next := f\<rparr>) \<Longrightarrow> Q (d\<lparr>wt_set_lru_next := f\<rparr>)"
    and Q_around: "Q d \<Longrightarrow> wt_clear b d \<Longrightarrow> R (wt_start_uncached_io b d)"
    and Q_fill: "Q d \<Longrightarrow> wt_clear b d \<Longrightarrow> wt_missing b d \<Longrightarrow> wt_whole d b \<Longrightarrow> i < wt_size d \<Longrightarrow>
      wt_free (wt_state d i) \<Longrightarrow> i div wt_assoc d = wt_hash d (bi_sector b) \<Longrightarrow>
      R (wt_fill (wt_fill_rw b) (bi_is_write b) b i d)"
    and Q_hit: "Q d \<Longrightarrow> wt_whole d b \<Longrightarrow> i < wt_size d \<Longrightarrow> wt_state d i = WT_VALID \<Longrightarrow>
      wt_dbn d i = bi_sector b \<Longrightarrow> \<not> bi_is_write b \<Longrightarrow> wt_read_hit b i d = Some d' \<Longrightarrow> R d'"
    and R_base: "R d \<Longrightarrow> wt_base d' = wt_base d \<Longrightarrow> wt_state d' = wt_state d \<Longrightarrow> R d'"
begin

lemma Q_base: "Q d \<Longrightarrow> wt_base d' = wt_base d \<Longrightarrow> wt_state d' = wt_state d \<Longrightarrow> Q d'"
  by (rule Q_inval [of d d' "\<lambda>_. False"]) (simp_all add: fun_eq_iff wt_inval_state_def)

lemma read_spec:
  assumes q: "Q d" and whole: "wt_whole d b" and w: "\<not> bi_is_write b"
  shows "\<exists>d'. wt_cache_read b d = Some d' \<and> R d'"
proof -
  from wt_lookup_spec [OF Q_inv [OF q], of b] obtain res i f where
    1: "wt_cache_lookup b d = Some (res, i, d\<lparr>wt_set_lru_next := f\<rparr>)" "wt_inv [] (d\<lparr>wt_set_lru_next := f\<rparr>)"
      "wt_found b d res i" by blast
  define d1 where "d1 = d\<lparr>wt_set_lru_next := f\<rparr>"
  have q1: "Q d1" unfolding d1_def by (rule Q_pointer [OF q 1(2)])
  have d1: "wt_whole d1 b" "wt_state d1 = wt_state d"
    "wt_dbn d1 = wt_dbn d" "wt_size d1 = wt_size d" "wt_assoc d1 = wt_assoc d" "wt_hash d1 = wt_hash d"
    using whole by (simp_all add: d1_def wt_whole_def wt_hash_def fun_eq_iff wt_num_sets_def)
  show ?thesis
  proof (cases "res = Some WT_VALID \<and> wt_dbn d1 i = bi_sector b")
    case True
    then have "i < wt_size d1" "wt_state d1 i = WT_VALID"
      using 1(3) by (auto simp: wt_found_def d1 wt_states)
    with read_hit_spec [OF Q_inv [OF q1] this _ d1(1)] Q_hit [OF q1 d1(1) this _ w] True 1(1)
    show ?thesis by (fastforce simp: wt_cache_read_def simp flip: d1_def)
  next
    case False
    from invalidate_blocks [OF Q_inv [OF q1], of b] obtain n d2 where
      2: "wt_invalidate_blocks b d1 = Some (n, d2)" "wt_base d2 = wt_base d1"
        "wt_state d2 = wt_inval_state (wt_met b d1) d1" by blast
    note sel = wt_base_sel [OF 2(2)] and q2 = Q_inval [OF q1 2(2,3)] and clear = inval_clear [OF 2(2,3)]
    show ?thesis
    proof (cases "n > 0 \<or> res = None \<or> the res \<ge> WT_INPROG")
      case True
      then have "wt_cache_read b d = Some (wt_start_uncached_io b d2)"
        using 1(1) 2(1) False by (simp add: wt_cache_read_def flip: d1_def) blast
      with Q_around [OF q2 clear] show ?thesis by simp
    next
      case claim: False
      with False 1(3) have f: "i < wt_size d" "i div wt_assoc d = wt_hash d (bi_sector b)"
          "wt_free (wt_state d i)" "wt_missing b d1"
        by (auto simp: wt_found_def wt_live_def wt_missing_def d1 wt_states split: option.splits)
      define d3 where "d3 = (if wt_state d2 i = WT_VALID
          then d2\<lparr>wt_cached_blocks := wt_cached_blocks d2 - 1, wt_replace := wt_replace d2 + 1\<rparr> else d2)"
      have d3: "wt_base d3 = wt_base d2" "wt_state d3 = wt_state d2" by (simp_all add: d3_def wt_base_def)
      note sel3 = wt_base_sel [OF d3(1)]
      have "wt_cache_read b d = Some (wt_read_miss b i (wt_claim b i d3))"
        using 1(1) 2(1) False claim by (simp add: wt_cache_read_def d3_def flip: d1_def) blast
      moreover have "wt_missing b d3" "wt_clear b d3"
        using inval_missing [OF 2(2,3) f(4)] clear
        by (simp_all add: wt_missing_def wt_clear_def wt_met_base [OF d3(1)] sel3 wt_live_def d3(2))
      then have "R (wt_fill (wt_fill_rw b) (bi_is_write b) b i d3)"
        using f d1 inval_free [OF 2(3)]
        by (intro Q_fill Q_base [OF q2 d3]) (simp_all add: sel sel3 d3(2))
      from R_base [OF this] w have "R (wt_fill WT_READSOURCE False b i d3\<lparr>wt_disk_reads := x\<rparr>)" for x
        by (simp add: wt_fill_rw_def wt_base_def)
      ultimately show ?thesis unfolding fill_stats by blast
    qed
  qed
qed

lemma write_spec:
  assumes q: "Q d" and whole: "wt_whole d b" and w: "bi_is_write b" and fits: "wt_fits d b"
  shows "\<exists>d'. wt_cache_write b d = Some d' \<and> R d'"
proof -
  from invalidate_blocks [OF Q_inv [OF q], of b] obtain n d1 where
    1: "wt_invalidate_blocks b d = Some (n, d1)" "wt_base d1 = wt_base d"
      "wt_state d1 = wt_inval_state (wt_met b d) d" by blast
  note sel = wt_base_sel [OF 1(2)] and q1 = Q_inval [OF q 1(2,3)] and clear = inval_clear [OF 1(2,3)]
  show ?thesis
  proof (cases "n > 0")
    case True
    then have "wt_cache_write b d = Some (wt_start_uncached_io b d1)" using 1(1) by (simp add: wt_cache_write_def)
    with Q_around [OF q1 clear] show ?thesis by simp
  next
    case False
    have "wt_fits d1 b" using fits by (simp add: wt_fits_def sel)
    from clear_missing [OF Q_inv [OF q1] this clear] have miss: "wt_missing b d1" .
    from wt_lookup_spec [OF Q_inv [OF q1], of b] obtain res i f where
      2: "wt_cache_lookup b d1 = Some (res, i, d1\<lparr>wt_set_lru_next := f\<rparr>)" "wt_inv [] (d1\<lparr>wt_set_lru_next := f\<rparr>)"
        "wt_found b d1 res i" by blast
    define d2 where "d2 = d1\<lparr>wt_set_lru_next := f\<rparr>"
    have q2: "Q d2" unfolding d2_def by (rule Q_pointer [OF q1 2(2)])
    have d2: "wt_whole d2 b" "wt_state d2 = wt_state d1" "wt_size d2 = wt_size d1" "wt_assoc d2 = wt_assoc d1"
      "wt_hash d2 = wt_hash d1" "wt_missing b d2" "wt_clear b d2"
      using whole miss clear
      by (simp_all add: d2_def wt_whole_def wt_hash_def fun_eq_iff wt_num_sets_def wt_missing_def wt_live_def sel
          wt_clear_def wt_met_def wt_overlaps_def)
    have r: "res = None \<or> res = Some WT_INVALID \<and> i < wt_size d1 \<and> wt_free (wt_state d1 i) \<and>
        i div wt_assoc d1 = wt_hash d1 (bi_sector b)"
      using 2(3) miss by (auto simp: wt_found_def wt_missing_def split: option.splits)
    show ?thesis
    proof (cases "res = None")
      case True
      then have "wt_cache_write b d = Some (wt_start_uncached_io b d2)"
        using 1(1) 2(1) False by (simp add: wt_cache_write_def flip: d2_def)
      with Q_around [OF q2 d2(7)] show ?thesis by simp
    next
      case claim: False
      define d3 where "d3 = (if wt_state d2 i = WT_VALID
          then d2\<lparr>wt_cached_blocks := wt_cached_blocks d2 - 1, wt_cache_wr_replace := wt_cache_wr_replace d2 + 1\<rparr>
          else d2)"
      have d3: "wt_base d3 = wt_base d2" "wt_state d3 = wt_state d2" by (simp_all add: d3_def wt_base_def)
      note sel3 = wt_base_sel [OF d3(1)]
      let ?f = "wt_fill WT_WRITESOURCE True b i d3"
      have res: "res = Some WT_INVALID" using claim r by blast
      have "wt_cache_write b d = Some (?f\<lparr>wt_disk_writes :=
          (if wt_alloc_ok d3 then wt_disk_writes d3 + 1 else wt_disk_writes d3)\<rparr>)"
        using 1(1) 2(1) False res
        by (cases "hd_or True (wt_alloc_script d3)")
          (simp_all add: wt_cache_write_def d2_def [symmetric] d3_def [symmetric] wt_fill_def
            wt_new_kcached_job_def wt_submit_def wt_alloc_ok_def wt_endio_def wt_set_state_def wt_alloc_next_def
            wt_claim_def Let_def)
      moreover have "wt_missing b d3" "wt_clear b d3"
        using d2(6,7) by (simp_all add: wt_missing_def wt_clear_def wt_met_base [OF d3(1)] sel3 wt_live_def d3(2))
      then have "R (wt_fill (wt_fill_rw b) (bi_is_write b) b i d3)"
        using r claim d2(1-5) by (intro Q_fill Q_base [OF q2 d3]) (simp_all add: sel3 d3(2))
      from R_base [OF this] w have "R (?f\<lparr>wt_disk_writes := x\<rparr>)" for x
        by (simp add: wt_fill_rw_def wt_base_def)
      ultimately show ?thesis by blast
    qed
  qed
qed

end

section \<open>The entry point\<close>

definition wt_request_ok :: "wt_cache \<Rightarrow> bio \<Rightarrow> bool" where
  "wt_request_ok d b \<longleftrightarrow> unat (to_sector b) \<le> wt_block_size d \<and> wt_fits d b"

text \<open>The statistics that \<open>flashcache_wt_map\<close> counts before it acts.\<close>

definition wt_counted :: "bio \<Rightarrow> wt_cache \<Rightarrow> wt_cache" where
  "wt_counted b d = (if unat (to_sector b) \<le> 32
     then d\<lparr>wt_size_hist := (wt_size_hist d)(unat (to_sector b) := wt_size_hist d (unat (to_sector b)) + 1)\<rparr> else d)"

lemma counted_base: "wt_base (wt_counted b d) = wt_base d" "wt_state (wt_counted b d) = wt_state d"
  by (simp_all add: wt_counted_def wt_base_def)

lemma map_barrier: "bi_barrier b \<Longrightarrow> wt_map b d = Some (- wt_EOPNOTSUPP, wt_counted b d)"
  by (simp add: wt_map_def wt_counted_def Let_def)

context wt_request
begin

lemma map_spec:
  assumes q: "Q d" and ok: "wt_request_ok d b" and nb: "\<not> bi_barrier b"
  shows "\<exists>d'. wt_map b d = Some (wt_DM_MAPIO_SUBMITTED, d') \<and> R d'"
proof -
  define d0 where "d0 = wt_counted b d"
  define d1 where "d1 = (if bi_is_write b then d0\<lparr>wt_writes := wt_writes d0 + 1\<rparr>
      else d0\<lparr>wt_reads := wt_reads d0 + 1\<rparr>)"
  have b1: "wt_base d1 = wt_base d" "wt_state d1 = wt_state d"
    using counted_base [of b d] by (simp_all add: d1_def d0_def wt_base_def)
  note q1 = Q_base [OF q b1] and sel = wt_base_sel [OF b1(1)]
  have same: "wt_block_size d0 = wt_block_size d" "wt_block_size d1 = wt_block_size d"
    using wt_base_sel(5) [OF counted_base(1)] sel(5) by (simp_all add: d0_def)
  have fits: "wt_fits d1 b" using ok by (simp add: wt_request_ok_def wt_fits_def same)
  define around where "around \<longleftrightarrow> unat (to_sector b) \<noteq> wt_block_size d1 \<or> wt_write_around_mode d1 \<noteq> 0 \<and> bi_is_write b"
  have run: "wt_map b d = Option.bind
      (if around then Option.bind (wt_invalidate_blocks b d1) (\<lambda>(_, d). Some (wt_start_uncached_io b d))
       else if bi_is_write b then wt_cache_write b d1 else wt_cache_read b d1)
      (\<lambda>d. Some (wt_DM_MAPIO_SUBMITTED, d))"
    unfolding wt_map_def Let_def wt_counted_def [symmetric] d0_def [symmetric] d1_def [symmetric] around_def [symmetric]
    using ok nb by (simp add: wt_request_ok_def bind_verify_if same cong: if_cong)
  show ?thesis
  proof (cases around)
    case True
    from invalidate_blocks [OF Q_inv [OF q1], of b] obtain n d2 where
      2: "wt_invalidate_blocks b d1 = Some (n, d2)" "wt_base d2 = wt_base d1"
        "wt_state d2 = wt_inval_state (wt_met b d1) d1" by blast
    from Q_around [OF Q_inval [OF q1 2(2,3)] inval_clear [OF 2(2,3)]] 2(1) True show ?thesis by (simp add: run)
  next
    case False
    then have "wt_whole d1 b" by (simp add: around_def wt_whole_def)
    with read_spec [OF q1] write_spec [OF q1 _ _ fits] False show ?thesis by (cases "bi_is_write b") (auto simp: run)
  qed
qed

end

section \<open>The first instance\<close>

text \<open>The invariant, with \<open>B\<close> the requests accepted so far.\<close>

definition wt_account :: "bio multiset \<Rightarrow> wt_cache \<Rightarrow> bool" where
  "wt_account B d \<longleftrightarrow> wt_inv [] d \<and> wt_bios [] d = B"

interpretation account: wt_request b "wt_account B" "wt_account (add_mset b B)" for b B
proof
  show "wt_account B d \<Longrightarrow> wt_inv [] d" for d by (simp add: wt_account_def)
  show "wt_account B d \<Longrightarrow> wt_base d' = wt_base d \<Longrightarrow> wt_state d' = wt_inval_state H d \<Longrightarrow> wt_account B d'" for d d' H
    using inval_state_inv [of "[]" d d' H] base_bios [of d' d] by (simp add: wt_account_def)
  show "wt_account B d \<Longrightarrow> wt_inv [] (d\<lparr>wt_set_lru_next := f\<rparr>) \<Longrightarrow> wt_account B (d\<lparr>wt_set_lru_next := f\<rparr>)" for d f
    by (simp add: wt_account_def)
  show "wt_account B d \<Longrightarrow> wt_clear b d \<Longrightarrow> wt_account (add_mset b B) (wt_start_uncached_io b d)" for d
    using start_uncached_spec [of "[]" d b] by (simp add: wt_account_def)
  show "wt_account B d \<Longrightarrow> wt_clear b d \<Longrightarrow> wt_missing b d \<Longrightarrow> wt_whole d b \<Longrightarrow> i < wt_size d \<Longrightarrow>
      wt_free (wt_state d i) \<Longrightarrow> i div wt_assoc d = wt_hash d (bi_sector b) \<Longrightarrow>
      wt_account (add_mset b B) (wt_fill (wt_fill_rw b) (bi_is_write b) b i d)" for d i
    using fill_spec [of d i b "wt_fill_rw b" "bi_is_write b"] by (simp add: wt_account_def wt_fill_rw_def)
  show "wt_account B d \<Longrightarrow> wt_whole d b \<Longrightarrow> i < wt_size d \<Longrightarrow> wt_state d i = WT_VALID \<Longrightarrow>
      wt_dbn d i = bi_sector b \<Longrightarrow> \<not> bi_is_write b \<Longrightarrow> wt_read_hit b i d = Some d' \<Longrightarrow>
      wt_account (add_mset b B) d'" for d i d'
    using read_hit_spec [of d i b] by (auto simp: wt_account_def)
  show "wt_account (add_mset b B) d \<Longrightarrow> wt_base d' = wt_base d \<Longrightarrow> wt_state d' = wt_state d \<Longrightarrow>
      wt_account (add_mset b B) d'" for d d'
    using wt_base_inv [of d' d] base_bios [of d' d] by (simp add: wt_account_def)
qed

lemma wt_map_spec:
  assumes inv: "wt_inv [] d" and ok: "wt_request_ok d b"
  shows "\<exists>r d'. wt_map b d = Some (r, d') \<and> wt_inv [] d' \<and>
    (if bi_barrier b then r = - wt_EOPNOTSUPP \<and> wt_bios [] d' = wt_bios [] d
     else r = wt_DM_MAPIO_SUBMITTED \<and> wt_bios [] d' = add_mset b (wt_bios [] d))"
proof (cases "bi_barrier b")
  case True
  then show ?thesis
    using inv wt_base_inv [OF counted_base] base_bios [OF counted_base(1)] by (simp add: map_barrier)
next
  case False
  have "wt_account (wt_bios [] d) d" using inv by (simp add: wt_account_def)
  from account.map_spec [OF this ok False] False show ?thesis by (auto simp: wt_account_def)
qed

end
