(* ===== verification/Wt_World.thy ===== *)
theory Wt_World
  imports Wt_Map
begin

text \<open>
  The write through driver between its devices. A request at a device transfers its sectors one by one, in any
  order and interleaved with those of all other requests; it may complete without error when all are transferred,
  and with an error at any time. \<open>P\<close> restricts the requests that the users of the device make.
\<close>

section \<open>Steps\<close>

text \<open>The contents of the disk, of the flash device, and of the pages of each request, by its number.\<close>

record wt_world =
  wt_dmc :: wt_cache
  wt_disk :: "sector \<Rightarrow> nat"
  wt_flash :: "sector \<Rightarrow> nat"
  wt_pages :: "nat \<Rightarrow> nat \<Rightarrow> nat"

definition wt_transfer :: "nat \<Rightarrow> nat \<Rightarrow> wt_world \<Rightarrow> wt_world" where
  "wt_transfer n k w =
     (let d = wt_dmc w; r = wt_inflight d ! n; x = bi_id (wj_bio (wi_job r)); a = wi_sector r + of_nat k;
          w = w\<lparr>wt_dmc := d\<lparr>wt_inflight := (wt_inflight d)[n := r\<lparr>wi_done := insert k (wi_done r)\<rparr>]\<rparr>\<rparr>
      in if wi_write r
         then if wi_dev r = DiskDev then w\<lparr>wt_disk := (wt_disk w)(a := wt_pages w x k)\<rparr>
              else w\<lparr>wt_flash := (wt_flash w)(a := wt_pages w x k)\<rparr>
         else w\<lparr>wt_pages := (wt_pages w)(x := (wt_pages w x)
                  (k := if wi_dev r = DiskDev then wt_disk w a else wt_flash w a))\<rparr>)"

inductive wt_step :: "(wt_cache \<Rightarrow> bio \<Rightarrow> bool) \<Rightarrow> bio list \<Rightarrow> wt_world \<Rightarrow> wt_world \<Rightarrow> bool" for P where
  Request: "P (wt_dmc w) b \<Longrightarrow> wt_map b (wt_dmc w) = Some (r, d') \<Longrightarrow>
    wt_step P (if r = wt_DM_MAPIO_SUBMITTED then [b] else []) w
      (w\<lparr>wt_dmc := d', wt_pages := (wt_pages w)(bi_id b := data)\<rparr>)"
| Transfer: "n < length (wt_inflight (wt_dmc w)) \<Longrightarrow> k < wi_count (wt_inflight (wt_dmc w) ! n) \<Longrightarrow>
    wt_step P [] w (wt_transfer n k w)"
| Complete: "wt_complete_io n err (wt_dmc w) = Some d' \<Longrightarrow>
    err = 0 \<longrightarrow> {..<wi_count (wt_inflight (wt_dmc w) ! n)} \<subseteq> wi_done (wt_inflight (wt_dmc w) ! n) \<Longrightarrow>
    wt_step P [] w (w\<lparr>wt_dmc := d'\<rparr>)"
| Work_complete: "wt_complete_jobs (wt_dmc w) \<noteq> [] \<Longrightarrow> wt_run_complete (wt_dmc w) = Some d' \<Longrightarrow>
    wt_step P [] w (w\<lparr>wt_dmc := d'\<rparr>)"
| Work_io: "wt_io_jobs (wt_dmc w) \<noteq> [] \<Longrightarrow> wt_run_io (wt_dmc w) = Some d' \<Longrightarrow>
    wt_step P [] w (w\<lparr>wt_dmc := d'\<rparr>)"

inductive wt_reach :: "(wt_cache \<Rightarrow> bio \<Rightarrow> bool) \<Rightarrow> wt_world \<Rightarrow> bio list \<Rightarrow> wt_world \<Rightarrow> bool" for P w0 where
  start: "wt_reach P w0 [] w0"
| step: "wt_reach P w0 acc w \<Longrightarrow> wt_step P new w w' \<Longrightarrow> wt_reach P w0 (acc @ new) w'"

text \<open>A cache as the constructor leaves it: no job, every block invalid.\<close>

definition wt_fresh :: "wt_cache \<Rightarrow> bool" where
  "wt_fresh d \<longleftrightarrow> wt_geometry d \<and> wt_pointers d \<and> (\<forall>i < wt_size d. wt_state d i = WT_INVALID) \<and>
     wt_inflight d = [] \<and> wt_io_jobs d = [] \<and> wt_complete_jobs d = [] \<and> wt_completed d = [] \<and> wt_nr_jobs d = 0"

lemma fresh_inv: "wt_fresh d \<Longrightarrow> wt_inv [] d \<and> wt_bios [] d = {#}"
  by (auto simp: wt_fresh_def wt_inv_def wt_jobs_def wt_owners_def wt_free_def wt_indexed_def wt_live_def wt_states
      wt_bios_def)

section \<open>No panic, no lost request\<close>

lemma transfer_dmc:
  "wt_dmc (wt_transfer n k w) = (wt_dmc w)\<lparr>wt_inflight := (wt_inflight (wt_dmc w))
     [n := (wt_inflight (wt_dmc w) ! n)\<lparr>wi_done := insert k (wi_done (wt_inflight (wt_dmc w) ! n))\<rparr>]\<rparr>"
  by (simp add: wt_transfer_def Let_def)

lemma map_update_same: "f x = f (xs ! n) \<Longrightarrow> map f (xs[n := x]) = map f xs"
  by (metis list_update_id map_update)

lemma io_ok_done [simp]: "wt_io_ok (r\<lparr>wi_done := x\<rparr>) = wt_io_ok r"
  by (simp add: wt_io_ok_def Let_def split: wt_notify.split)

lemma transfer_inv:
  assumes inv: "wt_inv [] d" and n: "n < length (wt_inflight d)"
    and e: "e = d\<lparr>wt_inflight := (wt_inflight d)[n := (wt_inflight d ! n)\<lparr>wi_done := x\<rparr>]\<rparr>"
  shows "wt_inv [] e \<and> wt_bios [] e = wt_bios [] d"
proof -
  let ?r = "wt_inflight d ! n"
  have jobs: "map wi_job ((wt_inflight d)[n := ?r\<lparr>wi_done := x\<rparr>]) = map wi_job (wt_inflight d)"
    by (rule map_update_same) simp
  have ok: "wt_io_ok (?r\<lparr>wi_done := x\<rparr>)" using wt_invD(7) [OF inv, of ?r] n by simp
  have "wt_jobs e = wt_jobs d" using jobs by (simp add: e wt_jobs_def)
  moreover have "wt_io_ok r" if "r \<in> set ((wt_inflight d)[n := ?r\<lparr>wi_done := x\<rparr>])" for r
    using that wt_invD(7) [OF inv] ok set_update_subset_insert [of "wt_inflight d" n "?r\<lparr>wi_done := x\<rparr>"] by auto
  ultimately show ?thesis
    using inv_jobs [OF inv, where js' = "[]" and e = e and a = "(wt_inflight d)[n := ?r\<lparr>wi_done := x\<rparr>]" and
        b = "wt_io_jobs d" and c = "wt_complete_jobs d"]
      wt_invD(8,9) [OF inv] by (simp add: e wt_bios_def)
qed

lemma step_account:
  assumes "wt_step P new w w'" and inv: "wt_inv [] (wt_dmc w)"
    and P: "\<And>d b. P d b \<Longrightarrow> wt_request_ok d b"
  shows "wt_inv [] (wt_dmc w') \<and> wt_bios [] (wt_dmc w') = mset new + wt_bios [] (wt_dmc w)"
  using assms(1)
proof cases
  case (Request b r d' data)
  with wt_map_spec [OF inv P [of "wt_dmc w" b]] show ?thesis
    by (auto simp: wt_EOPNOTSUPP_def wt_DM_MAPIO_SUBMITTED_def split: if_splits)
next
  case (Transfer n k)
  with transfer_inv [OF inv Transfer(3) refl] show ?thesis by (simp add: transfer_dmc)
next
  case (Complete n err d')
  then have "n < length (wt_inflight (wt_dmc w))" by (simp add: wt_complete_io_def)
  from wt_complete_io_spec [OF inv this, of err] Complete show ?thesis by auto
next
  case (Work_complete d')
  from run_complete_spec [OF inv Work_complete(3)] Work_complete show ?thesis by auto
next
  case (Work_io d')
  from run_io_spec [OF inv Work_io(3)] Work_io show ?thesis by auto
qed

lemma reach_account:
  assumes "wt_reach P w0 acc w" and "wt_fresh (wt_dmc w0)" and P: "\<And>d b. P d b \<Longrightarrow> wt_request_ok d b"
  shows "wt_inv [] (wt_dmc w) \<and> wt_bios [] (wt_dmc w) = mset acc"
  using assms(1)
proof induction
  case start
  then show ?case using fresh_inv [OF assms(2)] by simp
next
  case (step acc w new w')
  with step_account [OF step(2) _ P] show ?case by (simp add: add.commute)
qed

lemma wt_progress:
  assumes "wt_inv [] d"
  shows "wt_request_ok d b \<Longrightarrow> wt_map b d \<noteq> None"
    "n < length (wt_inflight d) \<Longrightarrow> wt_complete_io n err d \<noteq> None"
    "wt_do_work d \<noteq> None"
  using wt_map_spec [OF assms, of b] wt_complete_io_spec [OF assms, of n err] wt_do_work_spec [OF assms]
  by fastforce+

end
