(* ===== verification/Wt_Coherence.thy ===== *)
theory Wt_Coherence
  imports Wt_World
begin

text \<open>
  The coherence of the write through driver: a valid block of the flash device holds what the disk holds. It
  holds in every state that is reached when no request overlaps a write that is outstanding; without this
  condition it fails (\<open>wt_stale_block\<close> of theory \<open>Wt_Props\<close>).
\<close>

section \<open>The users of the device\<close>

text \<open>The device mapper splits requests at the boundaries of blocks.\<close>

definition wt_blk :: "wt_cache \<Rightarrow> sector \<Rightarrow> nat" where
  "wt_blk d k = unat k div wt_block_size d"

definition wt_within :: "wt_cache \<Rightarrow> bio \<Rightarrow> bool" where
  "wt_within d b \<longleftrightarrow> 0 < unat (to_sector b) \<and>
     unat (bi_sector b) mod wt_block_size d + unat (to_sector b) \<le> wt_block_size d \<and> wt_fits d b"

definition wt_apart :: "bio \<Rightarrow> bio \<Rightarrow> bool" where
  "wt_apart b c \<longleftrightarrow> unat (bi_sector b) + unat (to_sector b) \<le> unat (bi_sector c) \<or>
     unat (bi_sector c) + unat (to_sector c) \<le> unat (bi_sector b)"

definition wt_exclusive :: "wt_cache \<Rightarrow> bio \<Rightarrow> bool" where
  "wt_exclusive d b \<longleftrightarrow> (\<forall>j \<in> set (wt_jobs d). bi_id (wj_bio j) \<noteq> bi_id b \<and>
     (bi_is_write (wj_bio j) \<longrightarrow> wt_apart (wj_bio j) b))"

definition wt_aligned_request :: "wt_cache \<Rightarrow> bio \<Rightarrow> bool" where
  "wt_aligned_request d b \<longleftrightarrow> wt_request_ok d b \<and> wt_within d b"

definition wt_exclusive_request :: "wt_cache \<Rightarrow> bio \<Rightarrow> bool" where
  "wt_exclusive_request d b \<longleftrightarrow> wt_aligned_request d b \<and> wt_exclusive d b"

section \<open>The invariant\<close>

text \<open>The jobs: their requests are within a block and distinct; a live block whose disk block has an outstanding
  write is the block that this write fills.\<close>

definition wt_rw_ok :: "wt_job \<Rightarrow> bool" where
  "wt_rw_ok j \<longleftrightarrow> (wj_rw j = Some WT_WRITESOURCE \<longrightarrow> bi_is_write (wj_bio j)) \<and>
     (wj_rw j = Some WT_READCACHE \<or> wj_rw j = Some WT_READCACHE_DONE \<longrightarrow> \<not> bi_is_write (wj_bio j))"

definition wt_traffic :: "wt_job list \<Rightarrow> wt_cache \<Rightarrow> bool" where
  "wt_traffic js d \<longleftrightarrow> distinct (map (\<lambda>j. bi_id (wj_bio j)) js) \<and>
     (\<forall>j \<in> set js. wt_within d (wj_bio j) \<and> wt_rw_ok j \<and>
        (bi_is_write (wj_bio j) \<longrightarrow> (\<forall>i < wt_size d. wt_live d i \<longrightarrow>
           wt_blk d (wt_dbn d i) = wt_blk d (bi_sector (wj_bio j)) \<longrightarrow> wj_index j = Some i)))"

definition wt_aligned :: "wt_cache \<Rightarrow> bool" where
  "wt_aligned d \<longleftrightarrow> wt_size d * wt_block_size d \<le> 2 ^ 31 \<and>
     (\<forall>i < wt_size d. wt_live d i \<longrightarrow> wt_block_size d dvd unat (wt_dbn d i) \<and>
        unat (wt_dbn d i) + wt_block_size d < 2 ^ 64)"

text \<open>The sectors of a block on the disk and on the flash device.\<close>

definition dsec :: "wt_cache \<Rightarrow> nat \<Rightarrow> nat \<Rightarrow> sector" where
  "dsec d i k = wt_dbn d i + of_nat k"

definition fsec :: "wt_cache \<Rightarrow> nat \<Rightarrow> nat \<Rightarrow> sector" where
  "fsec d i k = wt_cache_sector i d + of_nat k"

definition wt_settled :: "wt_world \<Rightarrow> nat \<Rightarrow> bool" where
  "wt_settled w i \<longleftrightarrow> (let d = wt_dmc w in
     \<forall>k < wt_block_size d. wt_flash w (fsec d i k) = wt_disk w (dsec d i k))"

text \<open>The pages of the request that fills a block, while it is at the disk and after that.\<close>

definition wt_filling :: "wt_world \<Rightarrow> nat \<Rightarrow> bio \<Rightarrow> nat set \<Rightarrow> bool" where
  "wt_filling w i b ks \<longleftrightarrow> (let d = wt_dmc w in
     \<forall>k \<in> ks. k < wt_block_size d \<longrightarrow> wt_pages w (bi_id b) k = wt_disk w (dsec d i k))"

definition wt_filled :: "wt_world \<Rightarrow> nat \<Rightarrow> bio \<Rightarrow> nat set \<Rightarrow> bool" where
  "wt_filled w i b ks \<longleftrightarrow> (let d = wt_dmc w in wt_filling w i b UNIV \<and>
     (\<forall>k \<in> ks. k < wt_block_size d \<longrightarrow> wt_flash w (fsec d i k) = wt_pages w (bi_id b) k))"

definition wt_content :: "wt_world \<Rightarrow> bool" where
  "wt_content w \<longleftrightarrow> (let d = wt_dmc w in
     (\<forall>i < wt_size d. wt_state d i = WT_VALID \<or> wt_state d i = WT_CACHEREADINPROG \<longrightarrow> wt_settled w i) \<and>
     (\<forall>r \<in> set (wt_inflight d). \<forall>i. wj_index (wi_job r) = Some i \<and> wt_state d i = WT_INPROG \<longrightarrow>
        (if wi_dev r = DiskDev then wt_filling w i (wj_bio (wi_job r)) (wi_done r)
         else wt_filled w i (wj_bio (wi_job r)) (wi_done r))) \<and>
     (\<forall>j \<in> set (wt_io_jobs d). \<forall>i. wj_index j = Some i \<and> wt_state d i = WT_INPROG \<longrightarrow>
        wt_filling w i (wj_bio j) UNIV))"

definition wt_coherent :: "wt_job list \<Rightarrow> wt_world \<Rightarrow> bool" where
  "wt_coherent js w \<longleftrightarrow> wt_inv js (wt_dmc w) \<and> wt_traffic (js @ wt_jobs (wt_dmc w)) (wt_dmc w) \<and>
     wt_aligned (wt_dmc w) \<and> wt_content w"

lemma wt_contentD:
  assumes "wt_content w"
  shows "\<And>i. i < wt_size (wt_dmc w) \<Longrightarrow>
      wt_state (wt_dmc w) i = WT_VALID \<or> wt_state (wt_dmc w) i = WT_CACHEREADINPROG \<Longrightarrow> wt_settled w i"
    "\<And>r i. r \<in> set (wt_inflight (wt_dmc w)) \<Longrightarrow> wj_index (wi_job r) = Some i \<Longrightarrow>
      wt_state (wt_dmc w) i = WT_INPROG \<Longrightarrow> wi_dev r = DiskDev \<Longrightarrow>
      wt_filling w i (wj_bio (wi_job r)) (wi_done r)"
    "\<And>r i. r \<in> set (wt_inflight (wt_dmc w)) \<Longrightarrow> wj_index (wi_job r) = Some i \<Longrightarrow>
      wt_state (wt_dmc w) i = WT_INPROG \<Longrightarrow> wi_dev r = CacheDev \<Longrightarrow>
      wt_filled w i (wj_bio (wi_job r)) (wi_done r)"
    "\<And>j i. j \<in> set (wt_io_jobs (wt_dmc w)) \<Longrightarrow> wj_index j = Some i \<Longrightarrow> wt_state (wt_dmc w) i = WT_INPROG \<Longrightarrow>
      wt_filling w i (wj_bio j) UNIV"
  using assms unfolding wt_content_def Let_def by (blast, force, force, blast)

lemma wt_trafficD:
  assumes "wt_traffic js d" and "j \<in> set js"
  shows "wt_within d (wj_bio j)" "wt_rw_ok j"
    "bi_is_write (wj_bio j) \<Longrightarrow> i < wt_size d \<Longrightarrow> wt_live d i \<Longrightarrow>
       wt_blk d (wt_dbn d i) = wt_blk d (bi_sector (wj_bio j)) \<Longrightarrow> wj_index j = Some i"
  using assms unfolding wt_traffic_def by blast+

section \<open>Sectors\<close>

lemma cache_sector_eq:
  assumes g: "wt_geometry d" and s: "wt_size d * wt_block_size d \<le> 2 ^ 31" and i: "i < wt_size d"
  shows "wt_cache_sector i d = of_nat (i * wt_block_size d)"
proof -
  have bs: "wt_block_size d = 2 ^ wt_block_shift d" using g by (simp add: wt_geometry_def)
  have "Suc i * wt_block_size d \<le> wt_size d * wt_block_size d" using i by (intro mult_le_mono1) simp
  moreover have "0 < wt_block_size d" by (simp add: bs)
  ultimately have l: "i * wt_block_size d < 2 ^ 31" using s by (simp del: power_Suc)
  have "push_bit (wt_block_shift d) (of_nat i :: 32 word) = of_nat (i * wt_block_size d)"
    by (simp add: push_bit_eq_mult bs)
  then have "wt_cache_sector i d = scast (of_nat (i * wt_block_size d) :: 32 word)"
    by (simp add: wt_cache_sector_def)
  also have "\<dots> = of_int (signed_take_bit 31 (int (i * wt_block_size d)))"
    by (simp only: scast_eq signed_of_nat len_num0 len_bit0 len_num1) simp
  also have "signed_take_bit 31 (int (i * wt_block_size d)) = int (i * wt_block_size d)"
    by (rule signed_take_bit_int_eq_self) (use l in \<open>simp_all flip: of_nat_mult\<close>)
  finally show ?thesis by simp
qed

lemma fsec_unat:
  assumes "wt_geometry d" and "wt_size d * wt_block_size d \<le> 2 ^ 31" and "i < wt_size d" and "k < wt_block_size d"
  shows "unat (fsec d i k) = i * wt_block_size d + k"
proof -
  have "Suc i * wt_block_size d \<le> wt_size d * wt_block_size d" using assms(3) by (intro mult_le_mono1) simp
  then have "i * wt_block_size d + k < 2 ^ 64" using assms(2,4) by simp
  moreover have "fsec d i k = of_nat (i * wt_block_size d + k)"
    by (simp add: fsec_def cache_sector_eq [OF assms(1-3)])
  ultimately show ?thesis by (simp only: unat_of_nat) simp
qed

lemma fsec_inj:
  assumes "wt_geometry d" and "wt_size d * wt_block_size d \<le> 2 ^ 31"
    and "i < wt_size d" "k < wt_block_size d" and "j < wt_size d" "l < wt_block_size d"
    and "fsec d i k = fsec d j l"
  shows "i = j \<and> k = l"
proof -
  have "i * wt_block_size d + k = j * wt_block_size d + l"
    using fsec_unat [OF assms(1,2,3,4)] fsec_unat [OF assms(1,2,5,6)] assms(7) by simp
  then have "(k + i * wt_block_size d) div wt_block_size d = (l + j * wt_block_size d) div wt_block_size d"
    "(k + i * wt_block_size d) mod wt_block_size d = (l + j * wt_block_size d) mod wt_block_size d"
    by (simp_all add: add.commute)
  then show ?thesis using assms(4,6) by simp
qed

text \<open>All sectors of a request, and of a live block, are in one block.\<close>

lemma unat_add_sector:
  assumes "unat (s :: sector) + k < 2 ^ 64"
  shows "unat (s + of_nat k) = unat s + k"
proof -
  have "unat (of_nat k :: sector) = k" using assms by (simp add: unat_of_nat)
  then show ?thesis using assms by (subst unat_plus_if') simp
qed

lemma request_sector_blk:
  assumes w: "wt_within d b" and k: "k < unat (to_sector b)"
  shows "wt_blk d (bi_sector b + of_nat k) = wt_blk d (bi_sector b)"
    "unat (bi_sector b + of_nat k) = unat (bi_sector b) + k"
proof -
  let ?bs = "wt_block_size d" and ?s = "unat (bi_sector b)"
  have l: "?s mod ?bs + k < ?bs" using w k by (simp add: wt_within_def)
  then have "k < ?bs" by simp
  then show u: "unat (bi_sector b + of_nat k) = ?s + k"
    using w by (intro unat_add_sector) (simp add: wt_within_def wt_fits_def)
  have "(?s + k) div ?bs = ((?s mod ?bs + k) + ?s div ?bs * ?bs) div ?bs" by (simp add: add.commute add.left_commute)
  also have "\<dots> = ?s div ?bs + (?s mod ?bs + k) div ?bs" by (rule div_mult_self1) (use l in simp)
  also have "\<dots> = ?s div ?bs" using l by simp
  finally show "wt_blk d (bi_sector b + of_nat k) = wt_blk d (bi_sector b)" unfolding wt_blk_def u .
qed

lemma live_sector_blk:
  assumes a: "wt_aligned d" and i: "i < wt_size d" "wt_live d i" and k: "k < wt_block_size d"
  shows "wt_blk d (dsec d i k) = wt_blk d (wt_dbn d i)" "unat (dsec d i k) = unat (wt_dbn d i) + k"
proof -
  have al: "wt_block_size d dvd unat (wt_dbn d i)" "unat (wt_dbn d i) + wt_block_size d < 2 ^ 64"
    using a i by (simp_all add: wt_aligned_def)
  show u: "unat (dsec d i k) = unat (wt_dbn d i) + k"
    unfolding dsec_def using al(2) k by (intro unat_add_sector) simp
  show "wt_blk d (dsec d i k) = wt_blk d (wt_dbn d i)"
    using al(1) k by (auto simp: wt_blk_def u elim!: dvdE)
qed

text \<open>A request of a whole block overlaps every request in its block.\<close>

lemma apart_blk:
  assumes b: "wt_within d b" "wt_whole d b" and c: "wt_within d c" and ap: "wt_apart c b"
  shows "wt_blk d (bi_sector b) \<noteq> wt_blk d (bi_sector c)"
proof
  let ?bs = "wt_block_size d"
  assume "wt_blk d (bi_sector b) = wt_blk d (bi_sector c)"
  then have "unat (bi_sector b) div ?bs = unat (bi_sector c) div ?bs" by (simp add: wt_blk_def)
  moreover have "unat (bi_sector b) mod ?bs = 0" using b by (simp add: wt_within_def wt_whole_def)
  ultimately have eq: "unat (bi_sector c) = unat (bi_sector b) + unat (bi_sector c) mod ?bs"
    by (metis add.right_neutral div_mult_mod_eq)
  have "unat (bi_sector c) mod ?bs < ?bs" using b by (simp add: wt_within_def wt_whole_def)
  with eq ap b c show False by (simp add: wt_apart_def wt_within_def wt_whole_def)
qed

text \<open>A request meets every live block of its disk block.\<close>

lemma hash_blk:
  assumes "wt_geometry d" and "wt_blk d k = wt_blk d l"
  shows "wt_hash d k = wt_hash d l"
proof -
  have "unat (drop_bit (wt_block_shift d + wt_consecutive_shift d) k) = wt_blk d k div wt_assoc d" for k :: sector
    using assms(1) unfolding unat_drop_bit_eq
    by (simp add: wt_blk_def wt_geometry_def drop_bit_eq_div power_add div_mult2_eq)
  with assms(2) show ?thesis by (simp add: wt_hash_def)
qed

lemma same_blk_met:
  assumes inv: "wt_inv js d" and al: "wt_aligned d" and w: "wt_within d b" and i: "i < wt_size d" "wt_live d i"
    and blk: "wt_blk d (wt_dbn d i) = wt_blk d (bi_sector b)"
  shows "wt_met b d i"
proof -
  let ?bs = "wt_block_size d" and ?s = "unat (bi_sector b)" and ?k = "unat (wt_dbn d i)"
  have a: "?bs dvd ?k" "?k + ?bs < 2 ^ 64" using al i by (simp_all add: wt_aligned_def)
  have bs: "0 < ?bs" using wt_invD(1) [OF inv] by (simp add: wt_geometry_def)
  have "?k = ?k div ?bs * ?bs" using a(1) by simp
  also have "\<dots> = ?s div ?bs * ?bs" using blk by (simp add: wt_blk_def)
  finally have k: "?k \<le> ?s" "?s < ?k + ?bs"
    using bs div_mult_mod_eq [of ?s ?bs] mod_less_divisor [OF bs, of ?s] by (metis le_add1, linarith)
  have "unat (wt_dbn d i + of_nat ?bs) = ?k + ?bs" using a(2) by (intro unat_add_sector)
  then have "wt_dbn d i \<le> bi_sector b" "bi_sector b < wt_dbn d i + of_nat ?bs"
    using k by (simp_all add: word_le_nat_alt word_less_nat_alt)
  moreover have "i div wt_assoc d = wt_hash d (bi_sector b)"
    using wt_invD(3) [OF inv] i hash_blk [OF wt_invD(1) [OF inv] blk] by (simp add: wt_indexed_def)
  ultimately show ?thesis using i by (simp add: wt_met_def wt_overlaps_def)
qed

lemma clear_blk:
  assumes "wt_inv js d" and "wt_aligned d" and "wt_within d b" and "wt_clear b d" and "i < wt_size d" "wt_live d i"
  shows "wt_blk d (wt_dbn d i) \<noteq> wt_blk d (bi_sector b)"
  using same_blk_met [OF assms(1-3,5,6)] assms(4-6) by (auto simp: wt_clear_def)

end
