(* ===== verification/Wt_Settled.thy ===== *)
theory Wt_Settled
  imports Wt_Coherence
begin

text \<open>
  The steps of the write through driver keep the coherence: first the parts of the invariant that only shrink,
  then requests (an instance of the locale of \<open>Wt_Map\<close>), completions, the worker, and the transfers of the
  devices.
\<close>

section \<open>Parts that shrink\<close>

lemma content_cong:
  assumes "wt_block_size (wt_dmc w') = wt_block_size (wt_dmc w)" "wt_block_shift (wt_dmc w') = wt_block_shift (wt_dmc w)"
    "wt_disk w' = wt_disk w" "wt_flash w' = wt_flash w" "wt_dbn (wt_dmc w') i = wt_dbn (wt_dmc w) i"
  shows "wt_settled w' i = wt_settled w i"
    "wt_pages w' (bi_id b) = wt_pages w (bi_id b) \<Longrightarrow> wt_filling w' i b ks = wt_filling w i b ks"
    "wt_pages w' (bi_id b) = wt_pages w (bi_id b) \<Longrightarrow> wt_filled w' i b ks = wt_filled w i b ks"
  using assms
  by (simp_all add: wt_settled_def wt_filling_def wt_filled_def dsec_def fsec_def wt_cache_sector_def Let_def)

definition wt_io_content :: "wt_world \<Rightarrow> wt_io \<Rightarrow> nat \<Rightarrow> bool" where
  "wt_io_content w r i \<longleftrightarrow> (if wi_dev r = DiskDev then wt_filling w i (wj_bio (wi_job r)) (wi_done r)
     else wt_filled w i (wj_bio (wi_job r)) (wi_done r))"

lemma wt_contentI:
  assumes "\<And>i. i < wt_size (wt_dmc w) \<Longrightarrow>
      wt_state (wt_dmc w) i = WT_VALID \<or> wt_state (wt_dmc w) i = WT_CACHEREADINPROG \<Longrightarrow> wt_settled w i"
    "\<And>r i. r \<in> set (wt_inflight (wt_dmc w)) \<Longrightarrow> wj_index (wi_job r) = Some i \<Longrightarrow>
      wt_state (wt_dmc w) i = WT_INPROG \<Longrightarrow> wt_io_content w r i"
    "\<And>j i. j \<in> set (wt_io_jobs (wt_dmc w)) \<Longrightarrow> wj_index j = Some i \<Longrightarrow> wt_state (wt_dmc w) i = WT_INPROG \<Longrightarrow>
      wt_filling w i (wj_bio j) UNIV"
  shows "wt_content w"
  using assms unfolding wt_content_def Let_def wt_io_content_def by meson

lemma io_contentD:
  assumes "wt_content w" "r \<in> set (wt_inflight (wt_dmc w))" "wj_index (wi_job r) = Some i"
    "wt_state (wt_dmc w) i = WT_INPROG"
  shows "wt_io_content w r i"
  using wt_contentD(2,3) [OF assms(1-4)] by (cases "wi_dev r") (simp_all add: wt_io_content_def)

text \<open>A step that leaves the devices as they are: what is new must be shown, the rest is carried over.\<close>

lemma content_step:
  assumes c: "wt_content w"
    and same: "wt_block_size (wt_dmc w') = wt_block_size (wt_dmc w)" "wt_block_shift (wt_dmc w') = wt_block_shift (wt_dmc w)"
      "wt_disk w' = wt_disk w" "wt_flash w' = wt_flash w"
    and pages: "\<And>j. j \<in> set (wt_jobs (wt_dmc w)) \<Longrightarrow> wt_pages w' (bi_id (wj_bio j)) = wt_pages w (bi_id (wj_bio j))"
    and valid: "\<And>i. i < wt_size (wt_dmc w') \<Longrightarrow>
      wt_state (wt_dmc w') i = WT_VALID \<or> wt_state (wt_dmc w') i = WT_CACHEREADINPROG \<Longrightarrow>
      i < wt_size (wt_dmc w) \<and> wt_dbn (wt_dmc w') i = wt_dbn (wt_dmc w) i \<and>
        (wt_state (wt_dmc w) i = WT_VALID \<or> wt_state (wt_dmc w) i = WT_CACHEREADINPROG) \<or> wt_settled w' i"
    and io: "\<And>r i. r \<in> set (wt_inflight (wt_dmc w')) \<Longrightarrow> wj_index (wi_job r) = Some i \<Longrightarrow>
      wt_state (wt_dmc w') i = WT_INPROG \<Longrightarrow> r \<in> set (wt_inflight (wt_dmc w)) \<and>
        wt_dbn (wt_dmc w') i = wt_dbn (wt_dmc w) i \<and> wt_state (wt_dmc w) i = WT_INPROG \<or> wt_io_content w' r i"
    and job: "\<And>j i. j \<in> set (wt_io_jobs (wt_dmc w')) \<Longrightarrow> wj_index j = Some i \<Longrightarrow>
      wt_state (wt_dmc w') i = WT_INPROG \<Longrightarrow> j \<in> set (wt_io_jobs (wt_dmc w)) \<and>
        wt_dbn (wt_dmc w') i = wt_dbn (wt_dmc w) i \<and> wt_state (wt_dmc w) i = WT_INPROG \<or> wt_filling w' i (wj_bio j) UNIV"
  shows "wt_content w'"
proof (rule wt_contentI)
  note cong = content_cong [OF same]
  show "wt_settled w' i" if "i < wt_size (wt_dmc w')"
    "wt_state (wt_dmc w') i = WT_VALID \<or> wt_state (wt_dmc w') i = WT_CACHEREADINPROG" for i
    using valid [OF that] wt_contentD(1) [OF c] cong(1) by blast
  show "wt_io_content w' r i" if r: "r \<in> set (wt_inflight (wt_dmc w'))" "wj_index (wi_job r) = Some i"
    "wt_state (wt_dmc w') i = WT_INPROG" for r i
    using io [OF r]
  proof
    assume 1: "r \<in> set (wt_inflight (wt_dmc w)) \<and> wt_dbn (wt_dmc w') i = wt_dbn (wt_dmc w) i \<and>
      wt_state (wt_dmc w) i = WT_INPROG"
    then have "wt_pages w' (bi_id (wj_bio (wi_job r))) = wt_pages w (bi_id (wj_bio (wi_job r)))"
      by (intro pages) (auto simp: wt_jobs_def)
    then show ?thesis using io_contentD [OF c _ r(2)] 1 cong by (auto simp: wt_io_content_def)
  qed
  show "wt_filling w' i (wj_bio j) UNIV" if j: "j \<in> set (wt_io_jobs (wt_dmc w'))" "wj_index j = Some i"
    "wt_state (wt_dmc w') i = WT_INPROG" for j i
    using job [OF j]
  proof
    assume 1: "j \<in> set (wt_io_jobs (wt_dmc w)) \<and> wt_dbn (wt_dmc w') i = wt_dbn (wt_dmc w) i \<and>
      wt_state (wt_dmc w) i = WT_INPROG"
    then have "wt_pages w' (bi_id (wj_bio j)) = wt_pages w (bi_id (wj_bio j))"
      by (intro pages) (auto simp: wt_jobs_def)
    then show ?thesis using wt_contentD(4) [OF c _ j(2)] 1 cong by auto
  qed
qed

lemma within_cong: "wt_block_size d' = wt_block_size d \<Longrightarrow> wt_within d' b = wt_within d b"
  by (simp add: wt_within_def wt_fits_def)

lemma blk_cong: "wt_block_size d' = wt_block_size d \<Longrightarrow> wt_blk d' k = wt_blk d k"
  by (simp add: wt_blk_def)

lemma traffic_mset:
  assumes "mset js' = mset js"
  shows "wt_traffic js' d = wt_traffic js d"
proof -
  have "mset (map (\<lambda>j. bi_id (wj_bio j)) js') = mset (map (\<lambda>j. bi_id (wj_bio j)) js)" using assms by simp
  then show ?thesis using mset_eq_imp_distinct_iff mset_eq_setD [OF assms] unfolding wt_traffic_def by blast
qed

text \<open>No new request, and no new live block.\<close>

lemma traffic_step:
  assumes t: "wt_traffic js d" and same: "wt_size d' = wt_size d" "wt_block_size d' = wt_block_size d"
    and live: "\<And>i. i < wt_size d \<Longrightarrow> wt_live d' i \<Longrightarrow> wt_live d i \<and> wt_dbn d' i = wt_dbn d i"
    and ids: "distinct (map (\<lambda>j. bi_id (wj_bio j)) js')"
    and jobs: "\<And>j'. j' \<in> set js' \<Longrightarrow> wt_rw_ok j' \<and> (\<exists>j \<in> set js. wj_bio j' = wj_bio j \<and>
      (wj_index j' = wj_index j \<or> \<not> bi_is_write (wj_bio j)))"
  shows "wt_traffic js' d'"
  unfolding wt_traffic_def
proof (intro conjI ballI impI allI)
  show "distinct (map (\<lambda>j. bi_id (wj_bio j)) js')" by (rule ids)
  fix j' assume j': "j' \<in> set js'"
  then obtain j where j: "j \<in> set js" "wj_bio j' = wj_bio j" "wj_index j' = wj_index j \<or> \<not> bi_is_write (wj_bio j)"
    and "wt_rw_ok j'" using jobs by blast
  then show "wt_rw_ok j'" by simp
  show "wt_within d' (wj_bio j')" using wt_trafficD(1) [OF t j(1)] j(2) within_cong [OF same(2)] by simp
  show "wj_index j' = Some i" if "bi_is_write (wj_bio j')" "i < wt_size d'" "wt_live d' i"
    "wt_blk d' (wt_dbn d' i) = wt_blk d' (bi_sector (wj_bio j'))" for i
    using wt_trafficD(3) [OF t j(1), of i] that live [of i] j(2,3) same(1) blk_cong [OF same(2)] by auto
qed

text \<open>One new request, by the job \<open>n\<close>; a new live block is the one it fills.\<close>

lemma traffic_new:
  assumes t: "wt_traffic (wt_jobs d) d" and same: "wt_size d' = wt_size d" "wt_block_size d' = wt_block_size d"
    and n: "wt_within d (wj_bio n)" "wt_exclusive d (wj_bio n)" "wt_rw_ok n"
    and js: "mset js' = add_mset n (mset (wt_jobs d))"
    and live: "\<And>i. i < wt_size d \<Longrightarrow> wt_live d' i \<Longrightarrow> wt_live d i \<and> wt_dbn d' i = wt_dbn d i \<or>
      wt_dbn d' i = bi_sector (wj_bio n) \<and> wt_whole d (wj_bio n)"
    and own: "\<And>i. bi_is_write (wj_bio n) \<Longrightarrow> i < wt_size d \<Longrightarrow> wt_live d' i \<Longrightarrow>
      wt_blk d (wt_dbn d' i) = wt_blk d (bi_sector (wj_bio n)) \<Longrightarrow> wj_index n = Some i"
  shows "wt_traffic js' d'"
proof -
  have "wt_traffic (n # wt_jobs d) d'"
    unfolding wt_traffic_def
  proof (intro conjI ballI impI allI)
    show "distinct (map (\<lambda>j. bi_id (wj_bio j)) (n # wt_jobs d))"
      using t n(2) by (auto simp: wt_traffic_def wt_exclusive_def)
    fix j assume j: "j \<in> set (n # wt_jobs d)"
    then show "wt_within d' (wj_bio j)" "wt_rw_ok j"
      using n(1,3) wt_trafficD(1,2) [OF t] within_cong [OF same(2)] by auto
    fix i assume i: "bi_is_write (wj_bio j)" "i < wt_size d'" "wt_live d' i"
      "wt_blk d' (wt_dbn d' i) = wt_blk d' (bi_sector (wj_bio j))"
    note i' = i(2) [unfolded same(1)] i(4) [unfolded blk_cong [OF same(2)]]
    show "wj_index j = Some i"
    proof (cases "j = n")
      case True
      with own i(1,3) i' show ?thesis by simp
    next
      case False
      with j have j: "j \<in> set (wt_jobs d)" by simp
      from n(2) j i(1) have "wt_apart (wj_bio j) (wj_bio n)" by (simp add: wt_exclusive_def)
      with apart_blk [OF n(1) _ wt_trafficD(1) [OF t j]] i'(2) live [OF i'(1) i(3)]
      show ?thesis using wt_trafficD(3) [OF t j i(1) i'(1)] by auto
    qed
  qed
  then show ?thesis using traffic_mset [of js' "n # wt_jobs d"] js by simp
qed

lemma inv_index: "wt_inv js d \<Longrightarrow> j \<in> set (js @ wt_jobs d) \<Longrightarrow> wj_index j = Some i \<Longrightarrow> i < wt_size d"
  using wt_invD(6) [of js d j] by (auto simp: wt_job_ok_def)

lemma in_jobs: "r \<in> set (wt_inflight d) \<Longrightarrow> wi_job r \<in> set (wt_jobs d)" "j \<in> set (wt_io_jobs d) \<Longrightarrow> j \<in> set (wt_jobs d)"
  by (auto simp: wt_jobs_def)

lemma coherent_shrink:
  assumes c: "wt_coherent js w" and inv: "wt_inv js' d'" and d': "d' = wt_dmc w'" and d: "d = wt_dmc w"
    and same: "wt_size d' = wt_size d" "wt_block_size d' = wt_block_size d" "wt_block_shift d' = wt_block_shift d"
      "wt_disk w' = wt_disk w" "wt_flash w' = wt_flash w"
    and pages: "\<And>j. j \<in> set (wt_jobs d) \<Longrightarrow> wt_pages w' (bi_id (wj_bio j)) = wt_pages w (bi_id (wj_bio j))"
    and live: "\<And>i. i < wt_size d \<Longrightarrow> wt_live d' i \<Longrightarrow> wt_live d i \<and> wt_dbn d' i = wt_dbn d i \<and>
      (wt_state d' i = WT_INPROG \<longleftrightarrow> wt_state d i = WT_INPROG)"
    and sub: "set (wt_inflight d') \<subseteq> set (wt_inflight d)" "set (wt_io_jobs d') \<subseteq> set (wt_io_jobs d)"
    and ids: "distinct (map (\<lambda>j. bi_id (wj_bio j)) (js' @ wt_jobs d'))"
    and jobs: "\<And>j'. j' \<in> set (js' @ wt_jobs d') \<Longrightarrow> wt_rw_ok j' \<and> (\<exists>j \<in> set (js @ wt_jobs d). wj_bio j' = wj_bio j \<and>
      (wj_index j' = wj_index j \<or> \<not> bi_is_write (wj_bio j)))"
  shows "wt_coherent js' w'"
proof -
  have t: "wt_traffic (js @ wt_jobs d) d" and a: "wt_aligned d" and k: "wt_content w"
    using c by (simp_all add: wt_coherent_def d)
  have "wt_traffic (js' @ wt_jobs d') d'"
    by (rule traffic_step [OF t same(1,2) _ ids jobs]) (use live in blast)
  moreover have "wt_aligned d'" using a live by (simp add: wt_aligned_def same)
  moreover have "wt_content w'"
  proof (rule content_step [OF k])
    have index: "i < wt_size d" if "j \<in> set (wt_jobs d')" "wj_index j = Some i" for j i
      using inv_index [OF inv, of j i] that same(1) by simp
    have inprog: "wt_dbn d' i = wt_dbn d i \<and> wt_state d i = WT_INPROG" if "i < wt_size d" "wt_state d' i = WT_INPROG" for i
      using live [OF that(1)] that(2) by (simp add: wt_live_def)
    show "r \<in> set (wt_inflight (wt_dmc w)) \<and> wt_dbn (wt_dmc w') i = wt_dbn (wt_dmc w) i \<and>
        wt_state (wt_dmc w) i = WT_INPROG \<or> wt_io_content w' r i"
      if "r \<in> set (wt_inflight (wt_dmc w'))" "wj_index (wi_job r) = Some i" "wt_state (wt_dmc w') i = WT_INPROG" for r i
      using that sub(1) index [OF in_jobs(1) that(2)] inprog unfolding d d' by blast
    show "j \<in> set (wt_io_jobs (wt_dmc w)) \<and> wt_dbn (wt_dmc w') i = wt_dbn (wt_dmc w) i \<and>
        wt_state (wt_dmc w) i = WT_INPROG \<or> wt_filling w' i (wj_bio j) UNIV"
      if "j \<in> set (wt_io_jobs (wt_dmc w'))" "wj_index j = Some i" "wt_state (wt_dmc w') i = WT_INPROG" for j i
      using that sub(2) index [OF in_jobs(2) that(2)] inprog unfolding d d' by blast
    show "i < wt_size (wt_dmc w) \<and> wt_dbn (wt_dmc w') i = wt_dbn (wt_dmc w) i \<and>
        (wt_state (wt_dmc w) i = WT_VALID \<or> wt_state (wt_dmc w) i = WT_CACHEREADINPROG) \<or> wt_settled w' i"
      if "i < wt_size (wt_dmc w')" "wt_state (wt_dmc w') i = WT_VALID \<or> wt_state (wt_dmc w') i = WT_CACHEREADINPROG" for i
      using live [of i] that same(1) by (auto simp: wt_live_def wt_states simp flip: d d')
  qed (use same pages in \<open>simp_all flip: d d'\<close>)
  ultimately show ?thesis using inv by (simp add: wt_coherent_def flip: d')
qed

section \<open>Requests\<close>

definition wt_before :: "wt_world \<Rightarrow> (nat \<Rightarrow> nat) \<Rightarrow> bio \<Rightarrow> wt_cache \<Rightarrow> wt_world" where
  "wt_before w data b d = w\<lparr>wt_dmc := d, wt_pages := (wt_pages w)(bi_id b := data)\<rparr>"

definition wt_ready :: "wt_world \<Rightarrow> (nat \<Rightarrow> nat) \<Rightarrow> bio \<Rightarrow> wt_cache \<Rightarrow> bool" where
  "wt_ready w data b d \<longleftrightarrow> wt_coherent [] (wt_before w data b d) \<and> wt_within d b \<and> wt_exclusive d b"

lemma before_sel [simp]:
  "wt_dmc (wt_before w data b d) = d" "wt_disk (wt_before w data b d) = wt_disk w"
  "wt_flash (wt_before w data b d) = wt_flash w" "wt_pages (wt_before w data b d) = (wt_pages w)(bi_id b := data)"
  by (simp_all add: wt_before_def)

lemma coherent_inval:
  assumes c: "wt_coherent js w" and b: "wt_base d' = wt_base (wt_dmc w)" and s: "wt_state d' = wt_inval_state H (wt_dmc w)"
    and w': "wt_dmc w' = d'" "wt_disk w' = wt_disk w" "wt_flash w' = wt_flash w" "wt_pages w' = wt_pages w"
  shows "wt_coherent js w'"
proof -
  note sel = wt_base_sel [OF b]
  have inv: "wt_inv js d'" using c inval_state_inv [OF _ b s] by (simp add: wt_coherent_def)
  have t: "wt_traffic (js @ wt_jobs (wt_dmc w)) (wt_dmc w)" using c by (simp add: wt_coherent_def)
  show ?thesis
  proof (rule coherent_shrink [OF c inv w'(1) [symmetric] refl])
    show "wt_live (wt_dmc w) i \<and> wt_dbn d' i = wt_dbn (wt_dmc w) i \<and>
        (wt_state d' i = WT_INPROG \<longleftrightarrow> wt_state (wt_dmc w) i = WT_INPROG)" if "wt_live d' i" for i
      using that by (auto simp: sel s wt_live_def wt_inval_state_def wt_states split: if_splits)
    show "distinct (map (\<lambda>j. bi_id (wj_bio j)) (js @ wt_jobs d'))" using t by (simp only: wt_traffic_def sel)
  qed (use w' wt_trafficD(2) [OF t] in \<open>auto simp: sel\<close>)
qed

lemma ready_inval:
  assumes r: "wt_ready w data b d" and b: "wt_base d' = wt_base d" and s: "wt_state d' = wt_inval_state H d"
  shows "wt_ready w data b d'"
proof -
  have "wt_coherent [] (wt_before w data b d')"
    using coherent_inval [of "[]" "wt_before w data b d" d' H "wt_before w data b d'"] r b s by (simp add: wt_ready_def)
  then show ?thesis
    using r wt_base_sel [OF b] by (simp add: wt_ready_def wt_within_def wt_fits_def wt_exclusive_def)
qed

lemma ready_pointer:
  assumes r: "wt_ready w data b d" and inv: "wt_inv [] (d\<lparr>wt_set_lru_next := f\<rparr>)"
  shows "wt_ready w data b (d\<lparr>wt_set_lru_next := f\<rparr>)"
proof -
  have c: "wt_coherent [] (wt_before w data b d)" using r by (simp add: wt_ready_def)
  then have t: "wt_traffic (wt_jobs d) d" by (simp add: wt_coherent_def)
  have jobs: "wt_jobs (d\<lparr>wt_set_lru_next := f\<rparr>) = wt_jobs d" by (simp add: wt_jobs_def)
  have "wt_coherent [] (wt_before w data b (d\<lparr>wt_set_lru_next := f\<rparr>))"
    by (rule coherent_shrink [OF c inv, where d = d and w' = "wt_before w data b (d\<lparr>wt_set_lru_next := f\<rparr>)"])
      (use t wt_trafficD(2) [OF t] in \<open>auto simp: jobs wt_live_def wt_traffic_def\<close>)
  then show ?thesis using r by (simp add: wt_ready_def wt_within_def wt_fits_def wt_exclusive_def jobs)
qed

text \<open>The request gets no job.\<close>

lemma coherent_refused:
  assumes r: "wt_ready w data b d" and inv: "wt_inv [] d'"
    and same: "wt_size d' = wt_size d" "wt_block_size d' = wt_block_size d" "wt_block_shift d' = wt_block_shift d"
      "wt_inflight d' = wt_inflight d" "wt_io_jobs d' = wt_io_jobs d" "wt_complete_jobs d' = wt_complete_jobs d"
    and live: "\<And>i. i < wt_size d \<Longrightarrow> wt_live d' i \<Longrightarrow> wt_live d i \<and> wt_dbn d' i = wt_dbn d i \<and>
      (wt_state d' i = WT_INPROG \<longleftrightarrow> wt_state d i = WT_INPROG)"
  shows "wt_coherent [] (wt_before w data b d')"
proof -
  have c: "wt_coherent [] (wt_before w data b d)" using r by (simp add: wt_ready_def)
  then have t: "wt_traffic (wt_jobs d) d" by (simp add: wt_coherent_def)
  have jobs: "wt_jobs d' = wt_jobs d" by (simp add: wt_jobs_def same)
  show ?thesis
    by (rule coherent_shrink [OF c inv, where d = d and w' = "wt_before w data b d'"])
      (use live t wt_trafficD(2) [OF t] in \<open>auto simp: same jobs wt_traffic_def\<close>)
qed

text \<open>The request gets the job \<open>n\<close>, with its I/O \<open>r\<close>.\<close>

lemma coherent_new:
  assumes rd: "wt_ready w data b d" and inv: "wt_inv [] d'"
    and same: "wt_size d' = wt_size d" "wt_block_size d' = wt_block_size d" "wt_block_shift d' = wt_block_shift d"
      "wt_inflight d' = wt_inflight d @ [r]" "wt_io_jobs d' = wt_io_jobs d" "wt_complete_jobs d' = wt_complete_jobs d"
    and n: "wi_job r = n" "wj_bio n = b" "wt_rw_ok n"
    and live: "\<And>i. i < wt_size d \<Longrightarrow> wt_live d' i \<Longrightarrow>
      wt_live d i \<and> wt_dbn d' i = wt_dbn d i \<and> (wt_state d' i = WT_INPROG \<longleftrightarrow> wt_state d i = WT_INPROG) \<or>
      wt_free (wt_state d i) \<and> wt_state d' i = WT_INPROG \<and> wj_index n = Some i \<and> wt_dbn d' i = bi_sector b \<and> wt_whole d b"
    and clear: "bi_is_write b \<Longrightarrow> wt_clear b d"
    and start: "\<And>i. wj_index n = Some i \<Longrightarrow> wt_state d' i = WT_INPROG \<Longrightarrow> wi_dev r = DiskDev \<and> wi_done r = {}"
  shows "wt_coherent [] (wt_before w data b d')"
proof -
  have c: "wt_inv [] d" "wt_traffic (wt_jobs d) d" "wt_aligned d" "wt_content (wt_before w data b d)"
    and b: "wt_within d b" "wt_exclusive d b"
    using rd by (simp_all add: wt_ready_def wt_coherent_def)
  have js: "mset (wt_jobs d') = add_mset n (mset (wt_jobs d))" by (simp add: wt_jobs_def same n(1))
  have "wt_traffic (wt_jobs d') d'"
  proof (rule traffic_new [OF c(2) same(1,2) _ _ n(3) js])
    show "wj_index n = Some i" if "bi_is_write (wj_bio n)" "i < wt_size d" "wt_live d' i"
      "wt_blk d (wt_dbn d' i) = wt_blk d (bi_sector (wj_bio n))" for i
      using live [OF that(2,3)] that clear_blk [OF c(1,3) b(1) clear that(2)] n(2) by auto
  qed (use b live n(2) in auto)
  moreover have "wt_aligned d'"
    unfolding wt_aligned_def same
  proof (intro conjI allI impI)
    show "wt_size d * wt_block_size d \<le> 2 ^ 31" using c(3) by (simp add: wt_aligned_def)
    fix i assume i: "i < wt_size d" "wt_live d' i"
    from live [OF this] c(3) i(1) b(1)
    show "wt_block_size d dvd unat (wt_dbn d' i)" "unat (wt_dbn d' i) + wt_block_size d < 2 ^ 64"
      by (auto simp: wt_aligned_def wt_within_def wt_whole_def wt_fits_def mod_eq_0_iff_dvd)
  qed
  moreover have "wt_content (wt_before w data b d')"
  proof (rule content_step [OF c(4)])
    have old: "wt_dbn d' i = wt_dbn d i \<and> wt_state d i = WT_INPROG"
      if "j \<in> set (wt_jobs d)" "wj_index j = Some i" "wt_state d' i = WT_INPROG" for j i
    proof -
      have "wt_job_ok d j" using wt_invD(6) [OF c(1)] that(1) by simp
      then have "i < wt_size d" "\<not> wt_free (wt_state d i)"
        using that(2) by (auto simp: wt_job_ok_def wt_free_def wt_states elim: wt_expects.elims)
      with live [of i] that(3) show ?thesis by (auto simp: wt_live_def)
    qed
    show "x \<in> set (wt_inflight (wt_dmc (wt_before w data b d))) \<and>
        wt_dbn (wt_dmc (wt_before w data b d')) i = wt_dbn (wt_dmc (wt_before w data b d)) i \<and>
        wt_state (wt_dmc (wt_before w data b d)) i = WT_INPROG \<or> wt_io_content (wt_before w data b d') x i"
      if "x \<in> set (wt_inflight (wt_dmc (wt_before w data b d')))" "wj_index (wi_job x) = Some i"
        "wt_state (wt_dmc (wt_before w data b d')) i = WT_INPROG" for x i
    proof (cases "x = r")
      case True
      with start [of i] n(1) that have "wt_io_content (wt_before w data b d') x i"
        by (simp add: wt_io_content_def wt_filling_def)
      then show ?thesis ..
    next
      case False
      with that same have "x \<in> set (wt_inflight d)" by simp
      with old [OF in_jobs(1) that(2)] that(3) show ?thesis by simp
    qed
    show "j \<in> set (wt_io_jobs (wt_dmc (wt_before w data b d))) \<and>
        wt_dbn (wt_dmc (wt_before w data b d')) i = wt_dbn (wt_dmc (wt_before w data b d)) i \<and>
        wt_state (wt_dmc (wt_before w data b d)) i = WT_INPROG \<or> wt_filling (wt_before w data b d') i (wj_bio j) UNIV"
      if "j \<in> set (wt_io_jobs (wt_dmc (wt_before w data b d')))" "wj_index j = Some i"
        "wt_state (wt_dmc (wt_before w data b d')) i = WT_INPROG" for j i
      using that old [OF in_jobs(2) that(2)] by (simp add: same)
    show "i < wt_size (wt_dmc (wt_before w data b d)) \<and>
        wt_dbn (wt_dmc (wt_before w data b d')) i = wt_dbn (wt_dmc (wt_before w data b d)) i \<and>
        (wt_state (wt_dmc (wt_before w data b d)) i = WT_VALID \<or>
         wt_state (wt_dmc (wt_before w data b d)) i = WT_CACHEREADINPROG) \<or> wt_settled (wt_before w data b d') i"
      if "i < wt_size (wt_dmc (wt_before w data b d'))" "wt_state (wt_dmc (wt_before w data b d')) i = WT_VALID \<or>
        wt_state (wt_dmc (wt_before w data b d')) i = WT_CACHEREADINPROG" for i
      using live [of i] that same(1) by (auto simp: wt_live_def wt_states)
  qed (simp_all add: same)
  ultimately show ?thesis using inv by (simp add: wt_coherent_def)
qed

lemma coherent_around:
  assumes rd: "wt_ready w data b d" and clear: "wt_clear b d"
  shows "wt_coherent [] (wt_before w data b (wt_start_uncached_io b d))"
proof -
  have inv: "wt_inv [] (wt_start_uncached_io b d)"
    by (rule start_uncached_spec) (use rd in \<open>simp add: wt_ready_def wt_coherent_def\<close>)
  show ?thesis
  proof (cases "wt_alloc_ok d")
    case True
    define n where "n = \<lparr>wj_bio = b, wj_disk = (bi_sector b, unat (to_sector b)), wj_cache = None, wj_index = None,
      wj_rw = None\<rparr>"
    show ?thesis
      by (rule coherent_new [OF rd inv, where n = n and r = "\<lparr>wi_dev = DiskDev, wi_write = bi_is_write b,
          wi_sector = bi_sector b, wi_count = unat (to_sector b), wi_fn = Wt_uncached_io_callback, wi_job = n, wi_done = {}\<rparr>"])
        (use True clear in \<open>(cases "bi_is_write b"; simp add: wt_start_uncached_io_def wt_new_kcached_job_def
          wt_submit_def Let_def wt_alloc_next_def n_def wt_rw_ok_def wt_live_def)+\<close>)
  next
    case False
    show ?thesis
      by (rule coherent_refused [OF rd inv])
        (use False in \<open>simp_all add: wt_start_uncached_io_def wt_new_kcached_job_def wt_endio_def wt_alloc_next_def wt_live_def\<close>)
  qed
qed

lemma coherent_fill:
  assumes rd: "wt_ready w data b d" and clear: "wt_clear b d" and miss: "wt_missing b d" and whole: "wt_whole d b"
    and i: "i < wt_size d" "wt_free (wt_state d i)" "i div wt_assoc d = wt_hash d (bi_sector b)"
  shows "wt_coherent [] (wt_before w data b (wt_fill (wt_fill_rw b) (bi_is_write b) b i d))"
proof -
  have inv: "wt_inv [] (wt_fill (wt_fill_rw b) (bi_is_write b) b i d)"
    by (rule fill_spec) (use rd i miss whole in \<open>simp_all add: wt_ready_def wt_coherent_def wt_fill_rw_def\<close>)
  show ?thesis
  proof (cases "wt_alloc_ok d")
    case True
    define n where "n = \<lparr>wj_bio = b, wj_disk = (bi_sector b, wt_block_size d),
      wj_cache = Some (wt_cache_sector i d, wt_block_size d), wj_index = Some i, wj_rw = Some (wt_fill_rw b)\<rparr>"
    show ?thesis
      by (rule coherent_new [OF rd inv, where n = n and r = "\<lparr>wi_dev = DiskDev, wi_write = bi_is_write b,
          wi_sector = bi_sector b, wi_count = wt_block_size d, wi_fn = Wt_io_callback, wi_job = n, wi_done = {}\<rparr>"])
        (use True clear whole i in \<open>auto simp: wt_fill_def wt_new_kcached_job_def wt_submit_def wt_alloc_next_def
          wt_alloc_ok_def wt_cache_sector_def n_def wt_rw_ok_def wt_fill_rw_def wt_live_def wt_claim_def wt_set_state_def split: if_splits\<close>)
  next
    case False
    show ?thesis
      by (rule coherent_refused [OF rd inv])
        (use False in \<open>auto simp: wt_fill_def wt_new_kcached_job_def wt_endio_def wt_alloc_next_def wt_alloc_ok_def
          wt_live_def wt_claim_def wt_set_state_def wt_states split: if_splits\<close>)
  qed
qed

lemma coherent_hit:
  assumes rd: "wt_ready w data b d" and whole: "wt_whole d b" and i: "i < wt_size d" "wt_state d i = WT_VALID"
    "wt_dbn d i = bi_sector b" and read: "\<not> bi_is_write b" and d': "wt_read_hit b i d = Some d'"
  shows "wt_coherent [] (wt_before w data b d')"
proof -
  have inv: "wt_inv [] d'"
    using read_hit_spec [of d i b] rd whole i d' by (simp add: wt_ready_def wt_coherent_def)
  have hit: "wt_read_hit b i d = Some d'" by (rule d')
  show ?thesis
  proof (cases "wt_alloc_ok d")
    case True
    define n where "n = \<lparr>wj_bio = b, wj_disk = (bi_sector b, wt_block_size d),
      wj_cache = Some (wt_cache_sector i d, wt_block_size d), wj_index = Some i, wj_rw = Some WT_READCACHE\<rparr>"
    show ?thesis
      by (rule coherent_new [OF rd inv, where n = n and r = "\<lparr>wi_dev = CacheDev, wi_write = False,
          wi_sector = wt_cache_sector i d, wi_count = wt_block_size d, wi_fn = Wt_io_callback, wi_job = n, wi_done = {}\<rparr>"])
        (use True i read hit in \<open>auto simp: wt_read_hit_def wt_new_kcached_job_def wt_submit_def wt_alloc_next_def
          wt_alloc_ok_def wt_cache_sector_def n_def wt_rw_ok_def wt_live_def wt_set_state_def Let_def wt_states split: if_splits\<close>)
  next
    case False
    show ?thesis
      by (rule coherent_refused [OF rd inv])
        (use False i hit in \<open>auto simp: wt_read_hit_def wt_new_kcached_job_def wt_endio_def wt_alloc_next_def
          wt_alloc_ok_def wt_live_def wt_set_state_def Let_def wt_states split: if_splits\<close>)
  qed
qed

interpretation coherence: wt_request b "wt_ready w data b" "\<lambda>d. wt_coherent [] (wt_before w data b d)" for b w data
proof
  show "wt_ready w data b d \<Longrightarrow> wt_inv [] d" for d by (simp add: wt_ready_def wt_coherent_def)
  show "wt_coherent [] (wt_before w data b d) \<Longrightarrow> wt_base d' = wt_base d \<Longrightarrow> wt_state d' = wt_state d \<Longrightarrow>
      wt_coherent [] (wt_before w data b d')" for d d'
    using coherent_inval [of "[]" "wt_before w data b d" d' "\<lambda>_. False" "wt_before w data b d'"]
    by (simp add: fun_eq_iff wt_inval_state_def)
qed (fact ready_inval ready_pointer coherent_around coherent_fill coherent_hit)+

lemma request_coherent:
  assumes c: "wt_coherent [] w" and x: "wt_exclusive_request (wt_dmc w) b" and m: "wt_map b (wt_dmc w) = Some (r, d')"
  shows "wt_coherent [] (wt_before w data b d')"
proof -
  have b: "wt_request_ok (wt_dmc w) b" "wt_within (wt_dmc w) b" "wt_exclusive (wt_dmc w) b"
    using x by (simp_all add: wt_exclusive_request_def wt_aligned_request_def)
  have t: "wt_traffic (wt_jobs (wt_dmc w)) (wt_dmc w)" and inv: "wt_inv [] (wt_dmc w)"
    using c by (simp_all add: wt_coherent_def)
  have "wt_coherent [] (wt_before w data b (wt_dmc w))"
    by (rule coherent_shrink [OF c inv, where d = "wt_dmc w"])
      (use b(3) t wt_trafficD(2) [OF t] in \<open>auto simp: wt_exclusive_def wt_traffic_def\<close>)
  with b have rd: "wt_ready w data b (wt_dmc w)" by (simp add: wt_ready_def)
  show ?thesis
  proof (cases "bi_barrier b")
    case True
    with m have "d' = wt_counted b (wt_dmc w)" by (simp add: map_barrier)
    moreover have "wt_state (wt_counted b (wt_dmc w)) = wt_inval_state (\<lambda>_. False) (wt_dmc w)"
      by (simp add: counted_base fun_eq_iff wt_inval_state_def)
    ultimately show ?thesis using ready_inval [OF rd counted_base(1)] by (simp add: wt_ready_def)
  next
    case False
    from coherence.map_spec [OF rd b(1) False] m show ?thesis by auto
  qed
qed

end
