(* ===== verification/Wt_Transfer.thy ===== *)
theory Wt_Transfer
  imports Wt_Settled
begin

text \<open>
  The coherence of the write through driver is kept by completions, by the worker and by the transfers of the
  devices; so it holds in every state reached from a fresh cache by requests that do not overlap a write.
\<close>

section \<open>Whose block it is\<close>

lemma short_list: "length xs \<le> 1 \<Longrightarrow> x \<in> set xs \<Longrightarrow> y \<in> set xs \<Longrightarrow> x = y"
  by (cases xs) auto

lemma owner_unique:
  assumes inv: "wt_inv js d" and "j \<in> set (js @ wt_jobs d)" "k \<in> set (js @ wt_jobs d)"
    and "wj_index j = Some i" "wj_index k = Some i"
  shows "j = k"
proof -
  let ?f = "filter (\<lambda>j. wj_index j = Some i) (js @ wt_jobs d)"
  have "length ?f \<le> 1"
    using wt_invD(5) [OF inv inv_index [OF inv assms(2,4)]] by (simp add: wt_owners_def split: if_splits)
  moreover have "j \<in> set ?f" "k \<in> set ?f" using assms(2-5) by simp_all
  ultimately show ?thesis by (metis short_list)
qed

lemma id_unique:
  assumes "wt_traffic js d" and "j \<in> set js" "k \<in> set js" and "bi_id (wj_bio j) = bi_id (wj_bio k)"
  shows "j = k"
  using assms unfolding wt_traffic_def distinct_map inj_on_def by blast

lemma expects_live:
  assumes "wt_inv js d" and "j \<in> set (js @ wt_jobs d)" and "wj_index j = Some i" and "wt_state d i = WT_INPROG"
  shows "wj_rw j = Some WT_READSOURCE \<or> wj_rw j = Some WT_WRITESOURCE \<or> wj_rw j = Some WT_WRITECACHE"
proof -
  obtain rw where "wj_rw j = Some rw" "wt_expects rw WT_INPROG"
    using wt_invD(6) [OF assms(1,2)] assms(3,4) by (auto simp: wt_job_ok_def)
  then show ?thesis by (cases rw) (simp_all add: wt_states)
qed

section \<open>Completions\<close>

text \<open>A job in hand ends.\<close>

lemma coherent_end:
  assumes c: "wt_coherent [j] w" and i: "wj_index j = Some i"
    and st: "st = WT_INVALID \<or> st = WT_VALID \<and> wt_live (wt_dmc w) i \<and> wt_settled w i"
    and w': "wt_dmc w' = wt_job_done (wt_set_state i st (wt_endio (wj_bio j) e (wt_dmc w)))"
      "wt_disk w' = wt_disk w" "wt_flash w' = wt_flash w" "wt_pages w' = wt_pages w"
  shows "wt_coherent [] w'"
proof -
  let ?d = "wt_dmc w" and ?d' = "wt_dmc w'"
  have t: "wt_traffic ([j] @ wt_jobs ?d) ?d" and inv0: "wt_inv [j] ?d" and k: "wt_content w" and a: "wt_aligned ?d"
    using c by (simp_all add: wt_coherent_def)
  have inv: "wt_inv [] ?d'" using end_job(1) [OF inv0 i, of st e] st unfolding w' by blast
  have f: "wt_dbn ?d' = wt_dbn ?d" "wt_state ?d' = (wt_state ?d)(i := st)" "wt_size ?d' = wt_size ?d"
    "wt_inflight ?d' = wt_inflight ?d" "wt_io_jobs ?d' = wt_io_jobs ?d" "wt_jobs ?d' = wt_jobs ?d"
    "wt_block_size ?d' = wt_block_size ?d" "wt_block_shift ?d' = wt_block_shift ?d"
    by (simp_all add: w' wt_job_done_def wt_set_state_def wt_endio_def wt_jobs_def)
  have live: "wt_live ?d x" if "wt_live ?d' x" for x
    using that st by (auto simp: wt_live_def f wt_states split: if_splits)
  have "wt_traffic ([] @ wt_jobs ?d') ?d'"
    by (rule traffic_step [OF t f(3,7)]) (use live t wt_trafficD(2) [OF t] in \<open>auto simp: f wt_traffic_def\<close>)
  moreover have "wt_aligned ?d'" using a live by (simp add: wt_aligned_def f)
  moreover have "wt_content w'"
  proof (rule content_step [OF k f(7,8) w'(2,3)])
    have "wt_settled w' i = wt_settled w i" by (rule content_cong) (simp_all add: f w'(2-4))
    then show "x < wt_size ?d \<and> wt_dbn ?d' x = wt_dbn ?d x \<and>
        (wt_state ?d x = WT_VALID \<or> wt_state ?d x = WT_CACHEREADINPROG) \<or> wt_settled w' x"
      if "x < wt_size ?d'" "wt_state ?d' x = WT_VALID \<or> wt_state ?d' x = WT_CACHEREADINPROG" for x
      using that st by (auto simp: f wt_states split: if_splits)
  qed (use st in \<open>auto simp: f w'(2-4) wt_states split: if_splits\<close>)
  ultimately show ?thesis using inv by (simp add: wt_coherent_def)
qed

text \<open>A job in hand goes to the list of the worker for its next stage.\<close>

lemma coherent_queue:
  assumes c: "wt_coherent [j] w" and i: "wj_index j = Some i" and inv: "wt_inv [] (wt_dmc w')"
    and rw: "rw = WT_WRITECACHE \<and> wt_filling w i (wj_bio j) UNIV \<and> a = wt_io_jobs (wt_dmc w) @ [j\<lparr>wj_rw := Some rw\<rparr>] \<and>
        b = wt_complete_jobs (wt_dmc w) \<or>
      rw = WT_READCACHE_DONE \<and> \<not> bi_is_write (wj_bio j) \<and> a = wt_io_jobs (wt_dmc w) \<and>
        b = wt_complete_jobs (wt_dmc w) @ [j\<lparr>wj_rw := Some rw\<rparr>]"
    and w': "wt_dmc w' = (wt_dmc w)\<lparr>wt_io_jobs := a, wt_complete_jobs := b\<rparr>"
      "wt_disk w' = wt_disk w" "wt_flash w' = wt_flash w" "wt_pages w' = wt_pages w"
  shows "wt_coherent [] w'"
proof -
  let ?d = "wt_dmc w" and ?d' = "wt_dmc w'"
  have t: "wt_traffic ([j] @ wt_jobs ?d) ?d" and k: "wt_content w" and al: "wt_aligned ?d"
    using c by (simp_all add: wt_coherent_def)
  have f: "wt_dbn ?d' = wt_dbn ?d" "wt_state ?d' = wt_state ?d" "wt_size ?d' = wt_size ?d"
    "wt_inflight ?d' = wt_inflight ?d" "wt_block_size ?d' = wt_block_size ?d" "wt_block_shift ?d' = wt_block_shift ?d"
    "wt_io_jobs ?d' = a" "wt_live ?d' = wt_live ?d"
    by (simp_all add: w' wt_live_def fun_eq_iff)
  let ?j = "j\<lparr>wj_rw := Some rw\<rparr>"
  have js: "mset (wt_jobs ?d') = add_mset ?j (mset (wt_jobs ?d))" using rw by (auto simp: wt_jobs_def w')
  have "wt_traffic (?j # wt_jobs ?d) ?d'"
    by (rule traffic_step [OF t f(3,5)])
      (use rw t wt_trafficD(2) [OF t] in \<open>auto simp: f wt_traffic_def wt_rw_ok_def\<close>)
  then have "wt_traffic ([] @ wt_jobs ?d') ?d'" using traffic_mset [of "wt_jobs ?d'" "?j # wt_jobs ?d"] js by simp
  moreover have "wt_aligned ?d'" using al by (simp add: wt_aligned_def f)
  moreover have "wt_content w'"
  proof (rule content_step [OF k f(5,6) w'(2,3)])
    have "wt_filling w' i (wj_bio j) UNIV = wt_filling w i (wj_bio j) UNIV"
      by (rule content_cong) (simp_all add: f w'(2-4))
    then show "x \<in> set (wt_io_jobs ?d) \<and> wt_dbn ?d' y = wt_dbn ?d y \<and> wt_state ?d y = WT_INPROG \<or>
        wt_filling w' y (wj_bio x) UNIV"
      if "x \<in> set (wt_io_jobs ?d')" "wj_index x = Some y" "wt_state ?d' y = WT_INPROG" for x y
      using that rw i by (auto simp: f)
  qed (auto simp: f w'(2-4))
  ultimately show ?thesis using inv by (simp add: wt_coherent_def)
qed

lemma filled_settled: "wt_filled w i b UNIV \<Longrightarrow> wt_settled w i"
  by (simp add: wt_filled_def wt_filling_def wt_settled_def Let_def)

lemma coherent_stats:
  assumes "wt_coherent js w" and "wt_base d = wt_base (wt_dmc w)" "wt_state d = wt_state (wt_dmc w)"
  shows "wt_coherent js (w\<lparr>wt_dmc := d\<rparr>)"
  by (rule coherent_inval [OF assms(1,2), where H = "\<lambda>_. False"])
    (simp_all add: assms(3) fun_eq_iff wt_inval_state_def)

lemma io_callback_coherent:
  assumes c: "wt_coherent [j] w" and j: "wj_index j = Some i" "wj_rw j = Some rw" "rw \<noteq> WT_READCACHE_DONE"
    and hand: "err = 0 \<Longrightarrow> wt_state (wt_dmc w) i = WT_INPROG \<Longrightarrow> rw = WT_READSOURCE \<or> rw = WT_WRITESOURCE \<Longrightarrow>
        wt_filling w i (wj_bio j) UNIV"
      "err = 0 \<Longrightarrow> wt_state (wt_dmc w) i = WT_INPROG \<Longrightarrow> rw = WT_WRITECACHE \<Longrightarrow> wt_filled w i (wj_bio j) UNIV"
    and run: "wt_io_callback err j (wt_dmc w) = Some d'"
  shows "wt_coherent [] (w\<lparr>wt_dmc := d'\<rparr>)"
proof -
  let ?d = "wt_dmc w"
  have inv: "wt_inv [j] ?d" and t: "wt_traffic ([j] @ wt_jobs ?d) ?d" and k: "wt_content w"
    using c by (simp_all add: wt_coherent_def)
  have inv': "wt_inv [] d'" using io_callback_spec [OF inv j, of err] run by simp
  have il: "i < wt_size ?d" using inv_index [OF inv _ j(1)] by simp
  have "wt_expects rw (wt_state ?d i)" using wt_invD(6) [OF inv, of j] j by (auto simp: wt_job_ok_def)
  note end_ = coherent_end [OF c j(1), where w' = "w\<lparr>wt_dmc := wt_job_done (wt_set_state i st (wt_endio (wj_bio j) e ?d))\<rparr>"
      and st = st and e = e for st e, simplified]
  show ?thesis
  proof (cases "rw = WT_READSOURCE \<or> rw = WT_WRITESOURCE")
    case source: True
    show ?thesis
    proof (cases "err \<noteq> 0 \<or> wt_state ?d i \<noteq> WT_INPROG")
      case True
      with run source j end_ [of WT_INVALID err] show ?thesis by (auto simp: wt_io_callback_def Let_def split: if_splits)
    next
      case False
      with source hand(1) have "wt_filling w i (wj_bio j) UNIV" by blast
      moreover from False source run j have
        "d' = ?d\<lparr>wt_io_jobs := wt_io_jobs ?d @ [j\<lparr>wj_rw := Some WT_WRITECACHE\<rparr>], wt_complete_jobs := wt_complete_jobs ?d\<rparr>"
        by (auto simp: wt_io_callback_def Let_def split: if_splits)
      ultimately show ?thesis
        by (intro coherent_queue [OF c j(1), where rw = WT_WRITECACHE and a = "wt_io_jobs d'" and b = "wt_complete_jobs d'"])
          (use inv' in simp_all)
    qed
  next
    case nosource: False
    show ?thesis
    proof (cases "rw = WT_READCACHE")
      case hit: True
      with wt_trafficD(2) [OF t, of j] j have read: "\<not> bi_is_write (wj_bio j)" by (simp add: wt_rw_ok_def)
      show ?thesis
      proof (cases "wt_state ?d i \<noteq> WT_INPROG_INVALID \<and> err = 0")
        case True
        with hit \<open>wt_expects rw (wt_state ?d i)\<close> have st: "wt_state ?d i = WT_CACHEREADINPROG" by auto
        then have "wt_live ?d i" "wt_settled w i" using wt_contentD(1) [OF k il] by (auto simp: wt_live_def)
        with True hit run j st end_ [of WT_VALID 0] show ?thesis
          by (auto simp: wt_io_callback_def Let_def split: if_splits)
      next
        case False
        with hit run j have
          "d' = ?d\<lparr>wt_io_jobs := wt_io_jobs ?d, wt_complete_jobs := wt_complete_jobs ?d @ [j\<lparr>wj_rw := Some WT_READCACHE_DONE\<rparr>]\<rparr>"
          by (auto simp: wt_io_callback_def Let_def split: if_splits)
        then show ?thesis
          by (intro coherent_queue [OF c j(1), where rw = WT_READCACHE_DONE and a = "wt_io_jobs d'" and b = "wt_complete_jobs d'"])
            (use inv' read in simp_all)
      qed
    next
      case False
      with nosource j(3) \<open>wt_expects rw (wt_state ?d i)\<close> have fill: "rw = WT_WRITECACHE"
        "wt_state ?d i = WT_INPROG \<or> wt_state ?d i = WT_INPROG_INVALID" by (cases rw; auto)+
      show ?thesis
      proof (cases "err \<noteq> 0 \<or> wt_state ?d i = WT_INPROG_INVALID")
        case True
        with fill run j end_ [of WT_INVALID 0] show ?thesis
          by (auto simp: wt_io_callback_def Let_def split: if_splits)
      next
        case False
        with fill have st: "wt_state ?d i = WT_INPROG" "err = 0" by auto
        then have "wt_live ?d i" "wt_settled w i"
          using filled_settled [OF hand(2)] fill(1) by (auto simp: wt_live_def)
        with end_ [of WT_VALID 0] have "wt_coherent [] (w\<lparr>wt_dmc := wt_job_done (wt_set_state i WT_VALID (wt_endio (wj_bio j) 0 ?d))\<rparr>)"
          by simp
        from coherent_stats [OF this, of d'] show ?thesis
          using False fill run j
          by (auto simp: wt_io_callback_def Let_def job_done_cached wt_base_def split: if_splits)
      qed
    qed
  qed
qed

lemma uncached_callback_coherent:
  assumes c: "wt_coherent [j] w" and j: "wj_index j = None" and run: "wt_uncached_io_callback err j (wt_dmc w) = Some d'"
  shows "wt_coherent [] (w\<lparr>wt_dmc := d'\<rparr>)"
proof -
  let ?d = "wt_dmc w"
  have inv: "wt_inv [j] ?d" using c by (simp add: wt_coherent_def)
  define e where "e = (if bi_is_write (wj_bio j) then ?d\<lparr>wt_uncached_writes := wt_uncached_writes ?d + 1\<rparr>
              else ?d\<lparr>wt_uncached_reads := wt_uncached_reads ?d + 1\<rparr>)"
  have e: "wt_base e = wt_base ?d" "wt_state e = wt_state ?d" by (simp_all add: e_def wt_base_def)
  have "wt_inv [j] e" using wt_base_inv [OF e] inv by simp
  from invalidate_blocks [OF this, of "wj_bio j"] obtain n d1 where
    1: "wt_invalidate_blocks (wj_bio j) e = Some (n, d1)" "wt_base d1 = wt_base e"
      "wt_state d1 = wt_inval_state (wt_met (wj_bio j) e) e" by blast
  have c1: "wt_coherent [j] (w\<lparr>wt_dmc := d1\<rparr>)"
    by (rule coherent_inval [OF c, of d1 "wt_met (wj_bio j) e"])
      (use 1 e in \<open>auto simp: fun_eq_iff wt_inval_state_def\<close>)
  then have t: "wt_traffic (j # wt_jobs d1) d1" by (simp add: wt_coherent_def)
  have d': "d' = wt_job_done (wt_endio (wj_bio j) err d1)"
    using run 1(1) by (simp add: wt_uncached_io_callback_def flip: e_def)
  have jobs: "wt_jobs d' = wt_jobs d1" by (simp add: d' wt_job_done_def wt_endio_def wt_jobs_def)
  have "wt_inv [] d'"
    using uncached_callback_spec [OF inv j, of err] run by simp
  then show ?thesis
    by (rule coherent_shrink [OF c1, where d = d1 and d' = d' and w' = "w\<lparr>wt_dmc := d'\<rparr>"])
      (use t wt_trafficD(2) [OF t] in \<open>auto simp: jobs wt_traffic_def\<close>,
       simp_all add: d' wt_job_done_def wt_endio_def wt_live_def)
qed

lemma filling_whole: "{..<wt_block_size (wt_dmc w)} \<subseteq> ks \<Longrightarrow> wt_filling w i b ks \<Longrightarrow> wt_filling w i b UNIV"
  by (auto simp: wt_filling_def Let_def)

lemma filled_whole: "{..<wt_block_size (wt_dmc w)} \<subseteq> ks \<Longrightarrow> wt_filled w i b ks \<Longrightarrow> wt_filled w i b UNIV"
  by (auto simp: wt_filled_def Let_def)

lemma complete_io_coherent:
  assumes c: "wt_coherent [] w" and run: "wt_complete_io n err (wt_dmc w) = Some d'"
    and whole: "err = 0 \<Longrightarrow> {..<wi_count (wt_inflight (wt_dmc w) ! n)} \<subseteq> wi_done (wt_inflight (wt_dmc w) ! n)"
  shows "wt_coherent [] (w\<lparr>wt_dmc := d'\<rparr>)"
proof -
  let ?d = "wt_dmc w" and ?r = "wt_inflight (wt_dmc w) ! n"
  have n: "n < length (wt_inflight ?d)" using run by (simp add: wt_complete_io_def)
  have r: "?r \<in> set (wt_inflight ?d)" using n by simp
  define e where "e = ?d\<lparr>wt_inflight := take n (wt_inflight ?d) @ drop (n + 1) (wt_inflight ?d)\<rparr>"
  have inv: "wt_inv [] ?d" and t: "wt_traffic (wt_jobs ?d) ?d" and k: "wt_content w"
    using c by (simp_all add: wt_coherent_def)
  have inve: "wt_inv [wi_job ?r] e" unfolding e_def by (rule take_inflight [OF inv n])
  have js: "mset (wi_job ?r # wt_jobs e) = mset (wt_jobs ?d)"
  proof -
    have "mset (map wi_job (wt_inflight ?d)) =
        mset (map wi_job (take n (wt_inflight ?d) @ ?r # drop (Suc n) (wt_inflight ?d)))"
      using id_take_nth_drop [OF n] by simp
    then show ?thesis by (simp add: wt_jobs_def e_def)
  qed
  have te: "wt_traffic ([wi_job ?r] @ wt_jobs e) ?d" using t traffic_mset [OF js] by simp
  have ce: "wt_coherent [wi_job ?r] (w\<lparr>wt_dmc := e\<rparr>)"
    by (rule coherent_shrink [OF c inve, where d = ?d and w' = "w\<lparr>wt_dmc := e\<rparr>"])
      (use te wt_trafficD(2) [OF te] mset_eq_setD [OF js] in
        \<open>auto simp: wt_traffic_def wt_live_def e_def dest: in_set_takeD in_set_dropD\<close>)
  have io: "wt_io_ok ?r" and job: "wt_job_ok ?d (wi_job ?r)"
    using wt_invD(6,7) [OF inv] r in_jobs(1) [OF r] by auto
  have run': "(case wi_fn ?r of Wt_io_callback \<Rightarrow> wt_io_callback err (wi_job ?r) e
     | Wt_uncached_io_callback \<Rightarrow> wt_uncached_io_callback err (wi_job ?r) e) = Some d'"
    using n run by (simp add: wt_complete_io_def e_def Let_def split: wt_notify.splits)
  show ?thesis
  proof (cases "wi_fn ?r")
    case Wt_io_callback
    with io obtain i rw where j: "wj_index (wi_job ?r) = Some i" "wj_rw (wi_job ?r) = Some rw" "rw \<noteq> WT_READCACHE_DONE"
      and dev: "(wi_dev ?r = DiskDev) = (rw = WT_READSOURCE \<or> rw = WT_WRITESOURCE)"
      and count: "(wi_sector ?r, wi_count ?r) = wj_disk (wi_job ?r) \<or> Some (wi_sector ?r, wi_count ?r) = wj_cache (wi_job ?r)"
      by (auto simp: wt_io_ok_def Let_def)
    have count: "wi_count ?r = wt_block_size ?d" using count job j(1) by (auto simp: wt_job_ok_def)
    have cong: "wt_filling (w\<lparr>wt_dmc := e\<rparr>) i b ks = wt_filling w i b ks"
      "wt_filled (w\<lparr>wt_dmc := e\<rparr>) i b ks = wt_filled w i b ks" for b ks
      by (rule content_cong; simp add: e_def)+
    have hand: "wt_filling w i (wj_bio (wi_job ?r)) UNIV"
      if "err = 0" "wt_state ?d i = WT_INPROG" "rw = WT_READSOURCE \<or> rw = WT_WRITESOURCE"
      using filling_whole [OF _ wt_contentD(2) [OF k r j(1) that(2)]] whole [OF that(1)] dev that(3) count by simp
    have hand2: "wt_filled w i (wj_bio (wi_job ?r)) UNIV"
      if "err = 0" "wt_state ?d i = WT_INPROG" "rw = WT_WRITECACHE"
    proof (rule filled_whole)
      show "{..<wt_block_size ?d} \<subseteq> wi_done ?r" using whole [OF that(1)] count by simp
      show "wt_filled w i (wj_bio (wi_job ?r)) (wi_done ?r)"
        using wt_contentD(3) [OF k r j(1) that(2)] dev that(3) by (cases "wi_dev ?r") simp_all
    qed
    have "wt_state e = wt_state ?d" by (simp add: e_def)
    with io_callback_coherent [OF ce j, of err d'] hand hand2 cong run' Wt_io_callback show ?thesis by simp
  next
    case Wt_uncached_io_callback
    with io have "wj_index (wi_job ?r) = None" by (simp add: wt_io_ok_def Let_def)
    from uncached_callback_coherent [OF ce this, of err d'] run' Wt_uncached_io_callback show ?thesis by simp
  qed
qed

section \<open>The worker\<close>

lemma run_io_coherent:
  assumes c: "wt_coherent [] w" and ne: "wt_io_jobs (wt_dmc w) \<noteq> []" and run: "wt_run_io (wt_dmc w) = Some d'"
  shows "wt_coherent [] (w\<lparr>wt_dmc := d'\<rparr>)"
proof -
  let ?d = "wt_dmc w"
  have inv: "wt_inv [] ?d" and t: "wt_traffic (wt_jobs ?d) ?d" and a: "wt_aligned ?d" and k: "wt_content w"
    using c by (simp_all add: wt_coherent_def)
  obtain j rest where l: "wt_io_jobs ?d = j # rest" using ne by (cases "wt_io_jobs ?d") auto
  from run_io_spec [OF inv ne] run have inv': "wt_inv [] d'" by simp
  from run l obtain r where f: "wt_inflight d' = wt_inflight ?d @ [r]" "wi_job r = j" "wi_dev r = CacheDev" "wi_done r = {}"
    "wt_io_jobs d' = rest" "wt_complete_jobs d' = wt_complete_jobs ?d" "wt_dbn d' = wt_dbn ?d" "wt_state d' = wt_state ?d"
    "wt_size d' = wt_size ?d" "wt_block_size d' = wt_block_size ?d" "wt_block_shift d' = wt_block_shift ?d"
    "wt_live d' = wt_live ?d"
    by (auto simp: wt_run_io_def wt_do_io_def wt_submit_def wt_live_def fun_eq_iff split: bind_splits)
  have js: "mset (wt_jobs d') = mset (wt_jobs ?d)" by (simp add: wt_jobs_def f l)
  have "wt_traffic (wt_jobs ?d) d'"
    by (rule traffic_step [OF t f(9,10)]) (use t wt_trafficD(2) [OF t] in \<open>auto simp: f wt_traffic_def\<close>)
  then have "wt_traffic (wt_jobs d') d'" using traffic_mset [OF js] by simp
  moreover have "wt_aligned d'" using a by (simp add: wt_aligned_def f)
  moreover have "wt_content (w\<lparr>wt_dmc := d'\<rparr>)"
  proof (rule content_step [OF k])
    have "wt_filled (w\<lparr>wt_dmc := d'\<rparr>) i (wj_bio j) {}" if "wj_index j = Some i" "wt_state ?d i = WT_INPROG" for i
    proof -
      have "wt_filling (w\<lparr>wt_dmc := d'\<rparr>) i (wj_bio j) UNIV = wt_filling w i (wj_bio j) UNIV"
        by (rule content_cong) (simp_all add: f)
      with wt_contentD(4) [OF k _ that] l show ?thesis by (simp add: wt_filled_def)
    qed
    then show "x \<in> set (wt_inflight ?d) \<and> wt_dbn (wt_dmc (w\<lparr>wt_dmc := d'\<rparr>)) i = wt_dbn ?d i \<and> wt_state ?d i = WT_INPROG \<or>
        wt_io_content (w\<lparr>wt_dmc := d'\<rparr>) x i"
      if "x \<in> set (wt_inflight (wt_dmc (w\<lparr>wt_dmc := d'\<rparr>)))" "wj_index (wi_job x) = Some i"
        "wt_state (wt_dmc (w\<lparr>wt_dmc := d'\<rparr>)) i = WT_INPROG" for x i
      using that by (auto simp: f wt_io_content_def)
  qed (auto simp: f l)
  ultimately show ?thesis using inv' by (simp add: wt_coherent_def)
qed

lemma around_fields:
  "wt_dbn (wt_start_uncached_io b d) = wt_dbn d" "wt_state (wt_start_uncached_io b d) = wt_state d"
  "wt_size (wt_start_uncached_io b d) = wt_size d" "wt_block_size (wt_start_uncached_io b d) = wt_block_size d"
  "wt_block_shift (wt_start_uncached_io b d) = wt_block_shift d"
  by (simp_all add: wt_start_uncached_io_def wt_new_kcached_job_def wt_alloc_next_def wt_endio_def wt_submit_def Let_def)

lemma around_inflight:
  "\<exists>rs. wt_inflight (wt_start_uncached_io b d) = wt_inflight d @ rs \<and> length rs \<le> 1 \<and>
    (\<forall>r \<in> set rs. wj_bio (wi_job r) = b \<and> wj_index (wi_job r) = None \<and> wj_rw (wi_job r) = None)"
  by (simp add: wt_start_uncached_io_def wt_new_kcached_job_def wt_alloc_next_def wt_endio_def wt_submit_def Let_def)

lemma run_complete_coherent:
  assumes c: "wt_coherent [] w" and ne: "wt_complete_jobs (wt_dmc w) \<noteq> []" and run: "wt_run_complete (wt_dmc w) = Some d'"
  shows "wt_coherent [] (w\<lparr>wt_dmc := d'\<rparr>)"
proof -
  let ?d = "wt_dmc w"
  have inv: "wt_inv [] ?d" and t: "wt_traffic (wt_jobs ?d) ?d" and a: "wt_aligned ?d" and k: "wt_content w"
    using c by (simp_all add: wt_coherent_def)
  obtain j rest where l: "wt_complete_jobs ?d = j # rest" using ne by (cases "wt_complete_jobs ?d") auto
  from run_complete_spec [OF inv ne] run have inv': "wt_inv [] d'" by simp
  from wt_invD(9) [OF inv, of j] l obtain i where j: "wj_index j = Some i" "wj_rw j = Some WT_READCACHE_DONE" by auto
  have "j \<in> set (wt_jobs ?d)" by (simp add: wt_jobs_def l)
  from wt_trafficD(2) [OF t this] j(2) have read: "\<not> bi_is_write (wj_bio j)" by (simp add: wt_rw_ok_def)
  have "d' = wt_start_uncached_io (wj_bio j) (wt_job_done (wt_set_state i WT_INVALID (?d\<lparr>wt_complete_jobs := rest\<rparr>)))"
    using run l j by (simp add: wt_run_complete_def wt_do_complete_def)
  note d' = this
  obtain rs where rs: "wt_inflight d' = wt_inflight ?d @ rs" "length rs \<le> 1"
    "\<forall>r \<in> set rs. wj_bio (wi_job r) = wj_bio j \<and> wj_index (wi_job r) = None \<and> wj_rw (wi_job r) = None"
    using around_inflight [of "wj_bio j" "wt_job_done (wt_set_state i WT_INVALID (?d\<lparr>wt_complete_jobs := rest\<rparr>))"]
    by (auto simp: d' wt_job_done_def wt_set_state_def)
  have f: "wt_io_jobs d' = wt_io_jobs ?d" "wt_complete_jobs d' = rest" "wt_dbn d' = wt_dbn ?d"
    "wt_state d' = (wt_state ?d)(i := WT_INVALID)"
    "wt_size d' = wt_size ?d" "wt_block_size d' = wt_block_size ?d" "wt_block_shift d' = wt_block_shift ?d"
    by (simp_all add: d' around_fields uncached_keeps_lists wt_job_done_def wt_set_state_def)
  have live: "wt_live ?d x" if "wt_live d' x" for x using that by (auto simp: wt_live_def f wt_states split: if_splits)
  have "wt_traffic (wt_jobs d') d'"
  proof (rule traffic_step [OF t f(5,6)])
    have "distinct (map (\<lambda>j. bi_id (wj_bio j)) (wt_jobs ?d))" using t by (simp add: wt_traffic_def)
    moreover have "rs = [] \<or> (\<exists>r. rs = [r])" using rs(2) by (cases rs) auto
    ultimately show "distinct (map (\<lambda>j. bi_id (wj_bio j)) (wt_jobs d'))"
      using rs(3) by (elim disjE exE) (simp_all add: wt_jobs_def rs(1) f(1,2) l, blast?)
    show "wt_rw_ok j' \<and> (\<exists>j \<in> set (wt_jobs ?d). wj_bio j' = wj_bio j \<and> (wj_index j' = wj_index j \<or> \<not> bi_is_write (wj_bio j)))"
      if "j' \<in> set (wt_jobs d')" for j'
    proof (cases "j' \<in> set (wt_jobs ?d)")
      case True
      then show ?thesis using wt_trafficD(2) [OF t] by auto
    next
      case False
      with that rs(3) have "wj_bio j' = wj_bio j \<and> wj_index j' = None \<and> wj_rw j' = None"
        by (auto simp: wt_jobs_def rs(1) f(1,2) l)
      with read \<open>j \<in> set (wt_jobs ?d)\<close> show ?thesis by (auto simp: wt_rw_ok_def)
    qed
  qed (use live f(3) in auto)
  moreover have "wt_aligned d'" using a live by (simp add: wt_aligned_def f(3,5,6))
  moreover have "wt_content (w\<lparr>wt_dmc := d'\<rparr>)"
    by (rule content_step [OF k]) (use rs(3) in \<open>auto simp: rs(1) f wt_states split: if_splits\<close>)
  ultimately show ?thesis using inv' by (simp add: wt_coherent_def)
qed

end
