(* ===== verification/Wt_Devices.thy ===== *)
theory Wt_Devices
  imports Wt_Transfer
begin

text \<open>
  A transfer of one sector keeps the coherence of the write through driver, so it holds in every state that is
  reached from a fresh cache while no request overlaps a write that is outstanding.
\<close>

section \<open>One sector\<close>

lemma filling_mono: "wt_filling w i b ks \<Longrightarrow> ks' \<subseteq> ks \<Longrightarrow> wt_filling w i b ks'"
  by (auto simp: wt_filling_def Let_def)

lemma filled_mono: "wt_filled w i b ks \<Longrightarrow> ks' \<subseteq> ks \<Longrightarrow> wt_filled w i b ks'"
  by (auto simp: wt_filled_def Let_def)

lemma transfer_fields:
  "wt_size (wt_dmc (wt_transfer n k w)) = wt_size (wt_dmc w)"
  "wt_block_size (wt_dmc (wt_transfer n k w)) = wt_block_size (wt_dmc w)"
  "wt_block_shift (wt_dmc (wt_transfer n k w)) = wt_block_shift (wt_dmc w)"
  "wt_dbn (wt_dmc (wt_transfer n k w)) = wt_dbn (wt_dmc w)"
  "wt_state (wt_dmc (wt_transfer n k w)) = wt_state (wt_dmc w)"
  "wt_io_jobs (wt_dmc (wt_transfer n k w)) = wt_io_jobs (wt_dmc w)"
  "wt_complete_jobs (wt_dmc (wt_transfer n k w)) = wt_complete_jobs (wt_dmc w)"
  "wt_live (wt_dmc (wt_transfer n k w)) = wt_live (wt_dmc w)"
  by (simp_all add: transfer_dmc wt_live_def fun_eq_iff)

lemma transfer_jobs: "wt_jobs (wt_dmc (wt_transfer n k w)) = wt_jobs (wt_dmc w)"
  by (simp add: transfer_dmc wt_jobs_def map_update_same)

lemma transfer_inflight:
  assumes "x \<in> set (wt_inflight (wt_dmc (wt_transfer n k w)))" and n: "n < length (wt_inflight (wt_dmc w))"
  obtains y where "y \<in> set (wt_inflight (wt_dmc w))" "wi_job x = wi_job y" "wi_dev x = wi_dev y"
    "wi_done x \<subseteq> insert k (wi_done y)" "wi_job y \<noteq> wi_job (wt_inflight (wt_dmc w) ! n) \<Longrightarrow> wi_done x = wi_done y"
proof -
  let ?r = "wt_inflight (wt_dmc w) ! n"
  have "x \<in> insert (?r\<lparr>wi_done := insert k (wi_done ?r)\<rparr>) (set (wt_inflight (wt_dmc w)))"
    using assms(1) set_update_subset_insert by (fastforce simp: transfer_dmc)
  then show thesis
  proof
    assume "x = ?r\<lparr>wi_done := insert k (wi_done ?r)\<rparr>"
    then show thesis by (intro that [of ?r]) (use n in simp_all)
  next
    assume "x \<in> set (wt_inflight (wt_dmc w))"
    then show thesis by (intro that [of x]) auto
  qed
qed

text \<open>What a transfer must keep: the settled blocks, the progress of the request itself, and that of the others.\<close>

lemma coherent_transfer:
  assumes c: "wt_coherent [] w" and n: "n < length (wt_inflight (wt_dmc w))"
    and r: "r = wt_inflight (wt_dmc w) ! n" and w': "w' = wt_transfer n k w"
    and valid: "\<And>i. i < wt_size (wt_dmc w) \<Longrightarrow>
      wt_state (wt_dmc w) i = WT_VALID \<or> wt_state (wt_dmc w) i = WT_CACHEREADINPROG \<Longrightarrow> wt_settled w i \<Longrightarrow> wt_settled w' i"
    and own: "\<And>i ks. wj_index (wi_job r) = Some i \<Longrightarrow> wt_state (wt_dmc w) i = WT_INPROG \<Longrightarrow>
      (wi_dev r = DiskDev \<longrightarrow> wt_filling w i (wj_bio (wi_job r)) ks \<longrightarrow> wt_filling w' i (wj_bio (wi_job r)) (insert k ks)) \<and>
      (wi_dev r = CacheDev \<longrightarrow> wt_filled w i (wj_bio (wi_job r)) ks \<longrightarrow> wt_filled w' i (wj_bio (wi_job r)) (insert k ks))"
    and other: "\<And>j i ks. j \<in> set (wt_jobs (wt_dmc w)) \<Longrightarrow> j \<noteq> wi_job r \<Longrightarrow> wj_index j = Some i \<Longrightarrow>
      wt_state (wt_dmc w) i = WT_INPROG \<Longrightarrow>
      (wt_filling w i (wj_bio j) ks \<longrightarrow> wt_filling w' i (wj_bio j) ks) \<and>
      (wt_filled w i (wj_bio j) ks \<longrightarrow> wt_filled w' i (wj_bio j) ks)"
  shows "wt_coherent [] w'"
proof -
  let ?d = "wt_dmc w"
  have inv: "wt_inv [] ?d" and t: "wt_traffic (wt_jobs ?d) ?d" and a: "wt_aligned ?d" and k: "wt_content w"
    using c by (simp_all add: wt_coherent_def)
  have rin: "r \<in> set (wt_inflight ?d)" using n by (simp add: r)
  note f = transfer_fields [of n k w, folded w']
  have "wt_inv [] (wt_dmc w')" using transfer_inv [OF inv n refl] by (simp add: w' transfer_dmc)
  moreover have "wt_traffic (wt_jobs (wt_dmc w')) (wt_dmc w')"
    unfolding w' transfer_jobs
    by (rule traffic_step [OF t]) (use t wt_trafficD(2) [OF t] in \<open>auto simp: transfer_fields wt_traffic_def\<close>)
  moreover have "wt_aligned (wt_dmc w')" using a by (simp add: wt_aligned_def f)
  moreover have "wt_content w'"
  proof (rule wt_contentI)
    show "wt_settled w' i" if "i < wt_size (wt_dmc w')"
      "wt_state (wt_dmc w') i = WT_VALID \<or> wt_state (wt_dmc w') i = WT_CACHEREADINPROG" for i
      using valid [OF that [unfolded f] wt_contentD(1) [OF k that [unfolded f]]] .
    show "wt_filling w' i (wj_bio j) UNIV" if j: "j \<in> set (wt_io_jobs (wt_dmc w'))" "wj_index j = Some i"
      "wt_state (wt_dmc w') i = WT_INPROG" for j i
    proof -
      note j = j [unfolded f]
      have "distinct (map (\<lambda>j. bi_id (wj_bio j)) (wt_jobs ?d))" using t by (simp add: wt_traffic_def)
      then have "j \<noteq> wi_job r" using j(1) rin unfolding wt_jobs_def by auto
      with other [OF in_jobs(2) this j(2,3)] wt_contentD(4) [OF k j] j(1) show ?thesis by blast
    qed
    show "wt_io_content w' x i" if x: "x \<in> set (wt_inflight (wt_dmc w'))" "wj_index (wi_job x) = Some i"
      "wt_state (wt_dmc w') i = WT_INPROG" for x i
    proof -
      from transfer_inflight [OF x(1) [unfolded w'] n, folded r] obtain y where
        y: "y \<in> set (wt_inflight ?d)" "wi_job x = wi_job y" "wi_dev x = wi_dev y" "wi_done x \<subseteq> insert k (wi_done y)"
          "wi_job y \<noteq> wi_job r \<Longrightarrow> wi_done x = wi_done y" by metis
      have st: "wt_state ?d i = WT_INPROG" and i: "wj_index (wi_job y) = Some i" using x(2,3) y(2) by (simp_all add: f)
      note old = io_contentD [OF k y(1) i st]
      show ?thesis
      proof (cases "wi_job y = wi_job r")
        case False
        then show ?thesis using old other [OF in_jobs(1) [OF y(1)] False i st] y(2,3) y(5) [OF False]
          by (auto simp: wt_io_content_def)
      next
        case True
        have "wt_io_ok y" "wt_io_ok r" using wt_invD(7) [OF inv] y(1) rin by blast+
        then have "wi_dev y = wi_dev r"
          using True i by (auto simp: wt_io_ok_def Let_def split: wt_notify.splits)
        then show ?thesis
          using old own [of i "wi_done y"] i st y(2-4) True
          by (cases "wi_dev r") (auto simp: wt_io_content_def intro: filling_mono filled_mono)
      qed
    qed
  qed
  ultimately show ?thesis by (simp add: wt_coherent_def)
qed

text \<open>A write to the disk reaches no sector of a live block but those of its own.\<close>

lemma write_elsewhere:
  assumes t: "wt_traffic (wt_jobs d) d" and a: "wt_aligned d" and j: "j \<in> set (wt_jobs d)" "bi_is_write (wj_bio j)"
    and k: "k < unat (to_sector (wj_bio j))" and i: "i < wt_size d" "wt_live d i" "wj_index j \<noteq> Some i"
    and l: "l < wt_block_size d"
  shows "dsec d i l \<noteq> bi_sector (wj_bio j) + of_nat k"
proof
  assume "dsec d i l = bi_sector (wj_bio j) + of_nat k"
  with live_sector_blk(1) [OF a i(1,2) l] request_sector_blk(1) [OF wt_trafficD(1) [OF t j(1)] k]
  have "wt_blk d (wt_dbn d i) = wt_blk d (bi_sector (wj_bio j))" by simp
  from wt_trafficD(3) [OF t j i(1,2) this] i(3) show False by simp
qed

text \<open>The sectors of the request itself.\<close>

lemma own_sectors:
  assumes "wt_traffic (wt_jobs d) d" and "wt_job_ok d j" "j \<in> set (wt_jobs d)" "wj_index j = Some i"
    and "k < wt_block_size d" "l < wt_block_size d"
  shows "dsec d i l = bi_sector (wj_bio j) + of_nat k \<longleftrightarrow> l = k"
proof -
  have b: "wt_within d (wj_bio j)" "unat (to_sector (wj_bio j)) = wt_block_size d" "wt_dbn d i = bi_sector (wj_bio j)"
    using assms wt_trafficD(1) by (auto simp: wt_job_ok_def wt_whole_def)
  with request_sector_blk(2) [OF b(1), of k] request_sector_blk(2) [OF b(1), of l] assms(5,6)
  show ?thesis by (metis add_left_cancel dsec_def)
qed

lemma disk_write_coherent:
  assumes c: "wt_coherent [] w" and n: "n < length (wt_inflight (wt_dmc w))" and k: "k < wi_count (wt_inflight (wt_dmc w) ! n)"
    and wr: "wi_write (wt_inflight (wt_dmc w) ! n)" "wi_dev (wt_inflight (wt_dmc w) ! n) = DiskDev"
  shows "wt_coherent [] (wt_transfer n k w)"
proof -
  let ?d = "wt_dmc w"
  define r where "r = wt_inflight ?d ! n"
  define j where "j = wi_job r"
  define w' where "w' = wt_transfer n k w"
  have inv: "wt_inv [] ?d" and t: "wt_traffic (wt_jobs ?d) ?d" and a: "wt_aligned ?d"
    using c by (simp_all add: wt_coherent_def)
  have r: "r \<in> set (wt_inflight ?d)" using n by (simp add: r_def)
  have j: "j \<in> set (wt_jobs ?d)" using in_jobs(1) [OF r] by (simp add: j_def)
  have ok: "wt_job_ok ?d j" "wt_io_ok r" using wt_invD(6,7) [OF inv] r j by auto
  have 1: "bi_is_write (wj_bio j)" "wi_sector r = bi_sector (wj_bio j)" "wi_count r = unat (to_sector (wj_bio j))"
    "wj_index j \<noteq> None \<Longrightarrow> unat (to_sector (wj_bio j)) = wt_block_size ?d"
    using ok wr wt_trafficD(2) [OF t j]
    by (auto simp: wt_io_ok_def wt_job_ok_def wt_rw_ok_def wt_whole_def Let_def simp flip: j_def r_def
        split: wt_notify.splits option.splits)
  let ?a = "bi_sector (wj_bio j) + of_nat k"
  have kk: "k < unat (to_sector (wj_bio j))" using k 1(3) by (simp add: r_def)
  have w: "wt_disk w' = (wt_disk w)(?a := wt_pages w (bi_id (wj_bio j)) k)" "wt_flash w' = wt_flash w"
    "wt_pages w' = wt_pages w"
    using wr 1(2) by (simp_all add: w'_def wt_transfer_def Let_def r_def j_def)
  have f: "wt_block_size (wt_dmc w') = wt_block_size ?d" "dsec (wt_dmc w') = dsec ?d" "fsec (wt_dmc w') = fsec ?d"
    by (simp_all add: fun_eq_iff w'_def transfer_fields dsec_def fsec_def wt_cache_sector_def)
  have away: "dsec ?d i l \<noteq> ?a" if "i < wt_size ?d" "wt_live ?d i" "wj_index j \<noteq> Some i" "l < wt_block_size ?d" for i l
    by (rule write_elsewhere [OF t a j 1(1) kk that])
  have size: "i < wt_size ?d" if "x \<in> set (wt_jobs ?d)" "wj_index x = Some i" for x i
    using inv_index [OF inv, of x i] that by simp
  have "wt_coherent [] w'"
  proof (rule coherent_transfer [OF c n r_def w'_def])
    fix i assume i: "i < wt_size ?d" "wt_state ?d i = WT_VALID \<or> wt_state ?d i = WT_CACHEREADINPROG" "wt_settled w i"
    have "wj_index j \<noteq> Some i"
    proof
      assume "wj_index j = Some i"
      with ok wr i(2) show False
        by (auto simp: wt_io_ok_def wt_job_ok_def wt_states Let_def simp flip: j_def r_def split: wt_notify.splits)
    qed
    with i away [of i] show "wt_settled w' i" by (auto simp: wt_settled_def Let_def f w wt_live_def)
  next
    fix i ks assume i: "wj_index (wi_job r) = Some i" "wt_state ?d i = WT_INPROG"
    note i = i [folded j_def]
    have "wt_filling w' i (wj_bio j) (insert k ks)" if "wt_filling w i (wj_bio j) ks"
      using that own_sectors [OF t ok(1) j i(1), of k] kk 1(4) i(1)
      by (auto simp: wt_filling_def Let_def f w)
    then show "(wi_dev r = DiskDev \<longrightarrow> wt_filling w i (wj_bio (wi_job r)) ks \<longrightarrow>
        wt_filling w' i (wj_bio (wi_job r)) (insert k ks)) \<and>
      (wi_dev r = CacheDev \<longrightarrow> wt_filled w i (wj_bio (wi_job r)) ks \<longrightarrow> wt_filled w' i (wj_bio (wi_job r)) (insert k ks))"
      using wr(2) by (simp add: j_def r_def)
  next
    fix x i ks assume x: "x \<in> set (wt_jobs ?d)" "x \<noteq> wi_job r" "wj_index x = Some i" "wt_state ?d i = WT_INPROG"
    have "wj_index j \<noteq> Some i" using owner_unique [OF inv, of x j i] x j by (auto simp: j_def)
    with away [OF size [OF x(1,3)]] x(4) have "dsec ?d i l \<noteq> ?a" if "l < wt_block_size ?d" for l
      using that by (simp add: wt_live_def)
    then have "wt_filling w' i b ks = wt_filling w i b ks" "wt_filled w' i b ks = wt_filled w i b ks" for b ks
      by (auto simp: wt_filled_def wt_filling_def Let_def f w)
    then show "(wt_filling w i (wj_bio x) ks \<longrightarrow> wt_filling w' i (wj_bio x) ks) \<and>
        (wt_filled w i (wj_bio x) ks \<longrightarrow> wt_filled w' i (wj_bio x) ks)" by simp
  qed
  then show ?thesis by (simp add: w'_def)
qed

lemma flash_write_coherent:
  assumes c: "wt_coherent [] w" and n: "n < length (wt_inflight (wt_dmc w))" and k: "k < wi_count (wt_inflight (wt_dmc w) ! n)"
    and wr: "wi_write (wt_inflight (wt_dmc w) ! n)" "wi_dev (wt_inflight (wt_dmc w) ! n) = CacheDev"
  shows "wt_coherent [] (wt_transfer n k w)"
proof -
  let ?d = "wt_dmc w"
  define r where "r = wt_inflight ?d ! n"
  define j where "j = wi_job r"
  define w' where "w' = wt_transfer n k w"
  have inv: "wt_inv [] ?d" and t: "wt_traffic (wt_jobs ?d) ?d" and a: "wt_aligned ?d"
    using c by (simp_all add: wt_coherent_def)
  have r: "r \<in> set (wt_inflight ?d)" using n by (simp add: r_def)
  have j: "j \<in> set (wt_jobs ?d)" using in_jobs(1) [OF r] by (simp add: j_def)
  have ok: "wt_job_ok ?d j" "wt_io_ok r" using wt_invD(6,7) [OF inv] r j by auto
  obtain i where i: "wj_index j = Some i" "wj_rw j = Some WT_WRITECACHE" "wi_sector r = wt_cache_sector i ?d"
    "wi_count r = wt_block_size ?d" "i < wt_size ?d" "wt_expects WT_WRITECACHE (wt_state ?d i)"
    using ok wr by (auto simp: wt_io_ok_def wt_job_ok_def Let_def simp flip: j_def r_def split: wt_notify.splits)
  have kk: "k < wt_block_size ?d" using k i(4) by (simp add: r_def)
  have w: "wt_flash w' = (wt_flash w)(fsec ?d i k := wt_pages w (bi_id (wj_bio j)) k)" "wt_disk w' = wt_disk w"
    "wt_pages w' = wt_pages w"
    using wr i(3) by (simp_all add: w'_def wt_transfer_def Let_def r_def j_def fsec_def)
  have f: "wt_block_size (wt_dmc w') = wt_block_size ?d" "dsec (wt_dmc w') = dsec ?d" "fsec (wt_dmc w') = fsec ?d"
    by (simp_all add: fun_eq_iff w'_def transfer_fields dsec_def fsec_def wt_cache_sector_def)
  have inj: "fsec ?d x l = fsec ?d i k \<longleftrightarrow> x = i \<and> l = k" if "x < wt_size ?d" "l < wt_block_size ?d" for x l
    using fsec_inj [OF wt_invD(1) [OF inv] _ that i(5) kk] a by (auto simp: wt_aligned_def)
  have size: "i < wt_size ?d" if "x \<in> set (wt_jobs ?d)" "wj_index x = Some i" for x i
    using inv_index [OF inv, of x i] that by simp
  have filling: "wt_filling w' x b ks = wt_filling w x b ks" for x b ks by (simp add: wt_filling_def Let_def f w)
  have "wt_coherent [] w'"
  proof (rule coherent_transfer [OF c n r_def w'_def])
    fix x assume x: "x < wt_size ?d" "wt_state ?d x = WT_VALID \<or> wt_state ?d x = WT_CACHEREADINPROG" "wt_settled w x"
    have "x \<noteq> i" using x(2) i(6) by (auto simp: wt_states)
    with x inj show "wt_settled w' x" by (simp add: wt_settled_def Let_def f w)
  next
    fix x ks assume "wj_index (wi_job r) = Some x"
    with i(1) have "x = i" by (simp add: j_def)
    with inj [of i] i(5) have "wt_filled w' x (wj_bio j) (insert k ks)" if "wt_filled w x (wj_bio j) ks"
      using that by (auto simp: wt_filled_def filling) (auto simp: Let_def f w)
    then show "(wi_dev r = DiskDev \<longrightarrow> wt_filling w x (wj_bio (wi_job r)) ks \<longrightarrow>
        wt_filling w' x (wj_bio (wi_job r)) (insert k ks)) \<and>
      (wi_dev r = CacheDev \<longrightarrow> wt_filled w x (wj_bio (wi_job r)) ks \<longrightarrow> wt_filled w' x (wj_bio (wi_job r)) (insert k ks))"
      using wr(2) by (simp add: j_def r_def)
  next
    fix x y ks assume x: "x \<in> set (wt_jobs ?d)" "x \<noteq> wi_job r" "wj_index x = Some y" "wt_state ?d y = WT_INPROG"
    have "y \<noteq> i" using owner_unique [OF inv, of x j i] x j i(1) by (auto simp: j_def)
    with inj [OF size [OF x(1,3)]] have "wt_filled w y (wj_bio x) ks \<longrightarrow> wt_filled w' y (wj_bio x) ks"
      by (simp add: wt_filled_def filling) (simp add: Let_def f w)
    then show "(wt_filling w y (wj_bio x) ks \<longrightarrow> wt_filling w' y (wj_bio x) ks) \<and>
        (wt_filled w y (wj_bio x) ks \<longrightarrow> wt_filled w' y (wj_bio x) ks)" by (simp add: filling)
  qed
  then show ?thesis by (simp add: w'_def)
qed

lemma read_coherent:
  assumes c: "wt_coherent [] w" and n: "n < length (wt_inflight (wt_dmc w))" and k: "k < wi_count (wt_inflight (wt_dmc w) ! n)"
    and rd: "\<not> wi_write (wt_inflight (wt_dmc w) ! n)"
  shows "wt_coherent [] (wt_transfer n k w)"
proof -
  let ?d = "wt_dmc w"
  define r where "r = wt_inflight ?d ! n"
  define j where "j = wi_job r"
  define w' where "w' = wt_transfer n k w"
  have inv: "wt_inv [] ?d" and t: "wt_traffic (wt_jobs ?d) ?d" and a: "wt_aligned ?d"
    using c by (simp_all add: wt_coherent_def)
  have r: "r \<in> set (wt_inflight ?d)" using n by (simp add: r_def)
  have j: "j \<in> set (wt_jobs ?d)" using in_jobs(1) [OF r] by (simp add: j_def)
  have ok: "wt_job_ok ?d j" "wt_io_ok r" using wt_invD(6,7) [OF inv] r j by auto
  let ?b = "bi_id (wj_bio j)" and ?a = "wi_sector r + of_nat k"
  have w: "wt_flash w' = wt_flash w" "wt_disk w' = wt_disk w"
    "wt_pages w' = (wt_pages w)(?b := (wt_pages w ?b)(k := if wi_dev r = DiskDev then wt_disk w ?a else wt_flash w ?a))"
    using rd by (simp_all add: w'_def wt_transfer_def Let_def r_def j_def)
  have f: "wt_block_size (wt_dmc w') = wt_block_size ?d" "dsec (wt_dmc w') = dsec ?d" "fsec (wt_dmc w') = fsec ?d"
    by (simp_all add: fun_eq_iff w'_def transfer_fields dsec_def fsec_def wt_cache_sector_def)
  have "wt_coherent [] w'"
  proof (rule coherent_transfer [OF c n r_def w'_def])
    show "wt_settled w i \<Longrightarrow> wt_settled w' i" for i by (simp add: wt_settled_def Let_def f w)
  next
    fix i ks assume i: "wj_index (wi_job r) = Some i" "wt_state ?d i = WT_INPROG"
    note i = i [folded j_def]
    have 1: "wi_dev r = DiskDev" "wi_sector r = bi_sector (wj_bio j)" "wi_count r = wt_block_size ?d"
      using ok rd i expects_live [OF inv _ i(1,2)] j
      by (auto simp: wt_io_ok_def wt_job_ok_def Let_def simp flip: j_def r_def split: wt_notify.splits)
    have "wt_filling w' i (wj_bio j) (insert k ks)" if "wt_filling w i (wj_bio j) ks"
      using that own_sectors [OF t ok(1) j i(1), of k k] k 1 by (auto simp: wt_filling_def Let_def f w simp flip: r_def)
    then show "(wi_dev r = DiskDev \<longrightarrow> wt_filling w i (wj_bio (wi_job r)) ks \<longrightarrow>
        wt_filling w' i (wj_bio (wi_job r)) (insert k ks)) \<and>
      (wi_dev r = CacheDev \<longrightarrow> wt_filled w i (wj_bio (wi_job r)) ks \<longrightarrow> wt_filled w' i (wj_bio (wi_job r)) (insert k ks))"
      using 1(1) by (simp add: j_def)
  next
    fix x i ks assume x: "x \<in> set (wt_jobs ?d)" "x \<noteq> wi_job r"
    have "bi_id (wj_bio x) \<noteq> ?b" using id_unique [OF t x(1) j] x(2) by (auto simp: j_def)
    then show "(wt_filling w i (wj_bio x) ks \<longrightarrow> wt_filling w' i (wj_bio x) ks) \<and>
        (wt_filled w i (wj_bio x) ks \<longrightarrow> wt_filled w' i (wj_bio x) ks)"
      by (simp add: wt_filled_def wt_filling_def Let_def f w)
  qed
  then show ?thesis by (simp add: w'_def)
qed

section \<open>Every reachable state\<close>

lemma step_coherent:
  assumes "wt_step wt_exclusive_request new w w'" and c: "wt_coherent [] w"
  shows "wt_coherent [] w'"
  using assms(1)
proof cases
  case (Request b r d' data)
  with request_coherent [OF c] show ?thesis by (simp add: wt_before_def)
next
  case (Transfer n k)
  then show ?thesis
    using disk_write_coherent [OF c, of n k] flash_write_coherent [OF c, of n k] read_coherent [OF c, of n k]
    by (cases "wi_dev (wt_inflight (wt_dmc w) ! n)") auto
next
  case (Complete n err d')
  with complete_io_coherent [OF c] show ?thesis by simp
next
  case (Work_complete d')
  with run_complete_coherent [OF c] show ?thesis by simp
next
  case (Work_io d')
  with run_io_coherent [OF c] show ?thesis by simp
qed

lemma fresh_coherent:
  assumes "wt_fresh (wt_dmc w)" and "wt_size (wt_dmc w) * wt_block_size (wt_dmc w) \<le> 2 ^ 31"
  shows "wt_coherent [] w"
  using fresh_inv [OF assms(1)] assms
  by (auto simp: wt_coherent_def wt_traffic_def wt_aligned_def wt_content_def wt_fresh_def wt_jobs_def wt_live_def
      wt_states Let_def)

lemma reach_coherent:
  assumes "wt_reach wt_exclusive_request w0 acc w" and "wt_fresh (wt_dmc w0)"
    and "wt_size (wt_dmc w0) * wt_block_size (wt_dmc w0) \<le> 2 ^ 31"
  shows "wt_coherent [] w"
  using assms(1) by induction (use fresh_coherent [OF assms(2,3)] step_coherent in blast)+

end
