(* ===== verification/Wt_Run.thy ===== *)
theory Wt_Run
  imports Wt_Devices
begin

text \<open>
  Running the write through driver: a script of the steps of \<open>Wt_World\<close>, a cache of two blocks, and two runs
  on it: one without overlapping requests, and one in which reads overlap a write.
\<close>

section \<open>Scripts\<close>

datatype wt_action =
    Wt_request bio "nat \<Rightarrow> nat"
  | Wt_transfer nat nat
  | Wt_complete nat int
  | Wt_work_complete
  | Wt_work_io

fun wt_exec :: "(wt_cache \<Rightarrow> bio \<Rightarrow> bool) \<Rightarrow> wt_action \<Rightarrow> wt_world \<Rightarrow> (bio list \<times> wt_world) option" where
  "wt_exec P (Wt_request b data) w = do {
     verify (P (wt_dmc w) b);
     (r, d) \<leftarrow> wt_map b (wt_dmc w);
     Some (if r = wt_DM_MAPIO_SUBMITTED then [b] else [],
       w\<lparr>wt_dmc := d, wt_pages := (wt_pages w)(bi_id b := data)\<rparr>)
   }"
| "wt_exec P (Wt_transfer n k) w = do {
     verify (n < length (wt_inflight (wt_dmc w)));
     verify (k < wi_count (wt_inflight (wt_dmc w) ! n));
     Some ([], wt_transfer n k w)
   }"
| "wt_exec P (Wt_complete n err) w = do {
     verify (err = 0 \<longrightarrow> (\<forall>k \<in> set [0..<wi_count (wt_inflight (wt_dmc w) ! n)].
       k \<in> wi_done (wt_inflight (wt_dmc w) ! n)));
     d \<leftarrow> wt_complete_io n err (wt_dmc w);
     Some ([], w\<lparr>wt_dmc := d\<rparr>)
   }"
| "wt_exec P Wt_work_complete w = do {
     verify (wt_complete_jobs (wt_dmc w) \<noteq> []);
     d \<leftarrow> wt_run_complete (wt_dmc w);
     Some ([], w\<lparr>wt_dmc := d\<rparr>)
   }"
| "wt_exec P Wt_work_io w = do {
     verify (wt_io_jobs (wt_dmc w) \<noteq> []);
     d \<leftarrow> wt_run_io (wt_dmc w);
     Some ([], w\<lparr>wt_dmc := d\<rparr>)
   }"

primrec wt_exec_all :: "(wt_cache \<Rightarrow> bio \<Rightarrow> bool) \<Rightarrow> wt_action list \<Rightarrow> bio list \<Rightarrow> wt_world \<Rightarrow> (bio list \<times> wt_world) option" where
  "wt_exec_all P [] acc w = Some (acc, w)"
| "wt_exec_all P (a # as) acc w = do {
     (new, w) \<leftarrow> wt_exec P a w;
     wt_exec_all P as (acc @ new) w
   }"

lemma exec_step:
  assumes "wt_exec P a w = Some (new, w')"
  shows "wt_step P new w w'"
proof (cases a)
  case (Wt_request b data)
  with assms show ?thesis by (auto intro: wt_step.Request split: bind_splits)
next
  case (Wt_transfer n k)
  with assms show ?thesis by (auto intro: wt_step.Transfer)
next
  case (Wt_complete n err)
  with assms obtain d where d: "wt_complete_io n err (wt_dmc w) = Some d" "new = []" "w' = w\<lparr>wt_dmc := d\<rparr>"
    "err = 0 \<longrightarrow> {..<wi_count (wt_inflight (wt_dmc w) ! n)} \<subseteq> wi_done (wt_inflight (wt_dmc w) ! n)"
    by (auto simp: bind_eq_Some_conv subset_eq)
  from wt_step.Complete [OF d(1,4)] show ?thesis by (simp add: d(2,3))
next
  case Wt_work_complete
  with assms show ?thesis by (auto intro: wt_step.Work_complete simp: bind_eq_Some_conv)
next
  case Wt_work_io
  with assms show ?thesis by (auto intro: wt_step.Work_io simp: bind_eq_Some_conv)
qed

lemma exec_reach:
  "wt_exec_all P as acc w = Some (acc', w') \<Longrightarrow> wt_reach P w0 acc w \<Longrightarrow> wt_reach P w0 acc' w'"
  by (induction "as" arbitrary: acc w) (auto simp: bind_eq_Some_conv intro: wt_reach.step exec_step)

lemma exec_from: "wt_exec_all P as [] w0 = Some (acc, w) \<Longrightarrow> wt_reach P w0 acc w"
  by (rule exec_reach [OF _ wt_reach.start])

section \<open>A cache of two blocks\<close>

definition demo_wt :: wt_cache where
  "demo_wt = \<lparr>wt_dbn = (\<lambda>_. 0), wt_state = (\<lambda>_. WT_INVALID), wt_set_lru_next = (\<lambda>s. s * 2),
     wt_write_around_mode = 0, wt_size = 2, wt_assoc = 2, wt_block_size = 1, wt_block_shift = 0,
     wt_block_mask = 0, wt_consecutive_shift = 1, wt_nr_jobs = 0, wt_reads = 0, wt_writes = 0, wt_cache_hits = 0,
     wt_replace = 0, wt_wr_invalidates = 0, wt_rd_invalidates = 0, wt_cached_blocks = 0, wt_cache_wr_replace = 0,
     wt_uncached_reads = 0, wt_uncached_writes = 0, wt_cache_reads = 0, wt_cache_writes = 0, wt_disk_reads = 0,
     wt_disk_writes = 0, wt_size_hist = (\<lambda>_. 0), wt_complete_jobs = [], wt_io_jobs = [], wt_inflight = [],
     wt_completed = [], wt_alloc_script = []\<rparr>"

definition demo_world :: wt_world where
  "demo_world = \<lparr>wt_dmc = demo_wt, wt_disk = (\<lambda>_. 0), wt_flash = (\<lambda>_. 0), wt_pages = (\<lambda>_ _. 0)\<rparr>"

lemma demo_wt_fresh: "wt_fresh (wt_dmc demo_world)"
  by (simp add: demo_world_def demo_wt_def wt_fresh_def wt_geometry_def wt_pointers_def wt_num_sets_def
      drop_bit_eq_div)

lemma demo_wt_size: "wt_size (wt_dmc demo_world) * wt_block_size (wt_dmc demo_world) \<le> 2 ^ 31"
  by (simp add: demo_world_def demo_wt_def)

section \<open>A run without overlap\<close>

text \<open>With integers, which are binary, instead of natural numbers.\<close>

lemma wt_fits_code [code]: "wt_fits d b \<longleftrightarrow> uint (bi_sector b) + int (wt_block_size d) < 2 ^ 64"
  using of_nat_less_iff [of "unat (bi_sector b) + wt_block_size d" "2 ^ 64", where 'a = int]
  by (simp add: wt_fits_def)

definition demo_wr :: bio where
  "demo_wr = \<lparr>bi_id = 1, bi_sector = 0, bi_size = 512, bi_is_write = True, bi_barrier = False\<rparr>"

definition demo_rd :: "nat \<Rightarrow> bio" where
  "demo_rd n = \<lparr>bi_id = n, bi_sector = 0, bi_size = 512, bi_is_write = False, bi_barrier = False\<rparr>"

definition fill_script :: "wt_action list" where
  "fill_script = [Wt_request demo_wr (\<lambda>_. 7), Wt_transfer 0 0, Wt_complete 0 0, Wt_work_io, Wt_transfer 0 0,
     Wt_complete 0 0, Wt_request (demo_rd 2) (\<lambda>_. 0), Wt_transfer 0 0, Wt_complete 0 0]"

definition wt_view :: "bio list \<times> wt_world \<Rightarrow> bio list \<times> (bio \<times> int) list \<times> nat \<times> nat list \<times> nat list \<times> nat" where
  "wt_view s = (fst s, wt_completed (wt_dmc (snd s)), length (wt_jobs (wt_dmc (snd s))),
     map (wt_state (wt_dmc (snd s))) [0, 1], map (wt_flash (snd s)) [0, 1], wt_disk (snd s) 0)"

lemma fill_run:
  "map_option wt_view (wt_exec_all wt_exclusive_request fill_script [] demo_world) =
     Some ([demo_wr, demo_rd 2], [(demo_wr, 0), (demo_rd 2, 0)], 0, [WT_VALID, WT_INVALID], [7, 0], 7)"
  by code_simp

definition stale_script :: "wt_action list" where
  "stale_script = [Wt_request demo_wr (\<lambda>_. 7), Wt_request (demo_rd 2) (\<lambda>_. 0), Wt_transfer 1 0, Wt_complete 1 0,
     Wt_request (demo_rd 3) (\<lambda>_. 0), Wt_transfer 1 0, Wt_transfer 0 0, Wt_complete 0 0, Wt_complete 0 0, Wt_work_io,
     Wt_transfer 0 0, Wt_complete 0 0]"

lemma stale_run:
  "map_option wt_view (wt_exec_all wt_aligned_request stale_script [] demo_world) =
     Some ([demo_wr, demo_rd 2, demo_rd 3], [(demo_rd 2, 0), (demo_wr, 0), (demo_rd 3, 0)], 0,
       [WT_INVALID, WT_VALID], [0, 0], 7)"
  by code_simp

end
