(* ===== verification/Wt_Ctr.thy ===== *)
theory Wt_Ctr
  imports Wt_Run Ctor
begin

text \<open>
  The constructor and the destructor of the write through driver (\<open>cache_ctr\<close>, \<open>cache_dtr\<close>). The
  kernel is a parameter: \<open>sscanf\<close>, the lookups of the devices, the I/O client and the allocations
  (\<open>sys_vmalloc c n\<close>: the allocation number \<open>c\<close>, of \<open>n\<close> bytes, succeeds). What the
  constructor has acquired is a list, so that what each error path releases can be read off.
\<close>

section \<open>The system\<close>

record wt_system =
  sys_scan_int :: "string \<Rightarrow> int option"
  sys_scan_uint :: "string \<Rightarrow> 32 word option"
  sys_scan_ulong :: "string \<Rightarrow> 64 word option"
  sys_context :: bool
  sys_disk_dev :: bool
  sys_cache_dev :: bool
  sys_io_client :: int
  sys_sectors :: nat
  sys_vmalloc :: "nat \<Rightarrow> nat \<Rightarrow> bool"

datatype wt_resource =
    Wt_context
  | Wt_disk_dev
  | Wt_cache_dev
  | Wt_io_client
  | Wt_cache_table
  | Wt_state_table
  | Wt_lru_table

text \<open>The error labels, from the last to the first.\<close>

definition wt_bad1 :: "wt_resource list \<Rightarrow> wt_resource list" where
  "wt_bad1 held = remove1 Wt_context held"

definition wt_bad2 :: "wt_resource list \<Rightarrow> wt_resource list" where
  "wt_bad2 held = wt_bad1 (remove1 Wt_disk_dev held)"

definition wt_bad3 :: "wt_resource list \<Rightarrow> wt_resource list" where
  "wt_bad3 held = wt_bad2 (remove1 Wt_cache_dev (remove1 Wt_io_client held))"

text \<open>The zeroed context, with no job of another cache in the lists of the module.\<close>

definition wt_zero :: wt_cache where
  "wt_zero = \<lparr>wt_dbn = (\<lambda>_. 0), wt_state = (\<lambda>_. WT_INVALID), wt_set_lru_next = (\<lambda>_. 0),
     wt_write_around_mode = 0, wt_size = 0, wt_assoc = 0, wt_block_size = 0, wt_block_shift = 0,
     wt_block_mask = 0, wt_consecutive_shift = 0, wt_nr_jobs = 0, wt_reads = 0, wt_writes = 0, wt_cache_hits = 0,
     wt_replace = 0, wt_wr_invalidates = 0, wt_rd_invalidates = 0, wt_cached_blocks = 0, wt_cache_wr_replace = 0,
     wt_uncached_reads = 0, wt_uncached_writes = 0, wt_cache_reads = 0, wt_cache_writes = 0, wt_disk_reads = 0,
     wt_disk_writes = 0, wt_size_hist = (\<lambda>_. 0), wt_complete_jobs = [], wt_io_jobs = [], wt_inflight = [],
     wt_completed = [], wt_alloc_script = []\<rparr>"

section \<open>The arguments\<close>

definition wt_mode_arg :: "wt_system \<Rightarrow> string list \<Rightarrow> wt_cache \<Rightarrow> wt_cache option" where
  "wt_mode_arg sys argv d =
     (if length argv \<ge> 3 then map_option (\<lambda>m. d\<lparr>wt_write_around_mode := m\<rparr>) (sys_scan_int sys (argv ! 2))
      else Some (d\<lparr>wt_assoc := WT_DEFAULT_CACHE_ASSOC\<rparr>))"

definition wt_block_size_arg :: "wt_system \<Rightarrow> string list \<Rightarrow> wt_cache \<Rightarrow> wt_cache option" where
  "wt_block_size_arg sys argv d = do {
     n \<leftarrow> (if length argv \<ge> 4
         then do {
           n \<leftarrow> sys_scan_uint sys (argv ! 3);
           verify (power_of_two (unat n));
           Some (unat n)
         }
         else Some WT_DEFAULT_BLOCK_SIZE);
     Some (d\<lparr>wt_block_size := n, wt_block_shift := lowest_bit n, wt_block_mask := n - 1\<rparr>)
   }"

definition wt_size_arg :: "wt_system \<Rightarrow> string list \<Rightarrow> wt_cache \<Rightarrow> wt_cache option" where
  "wt_size_arg sys argv d =
     (if length argv \<ge> 5 then map_option (\<lambda>n. d\<lparr>wt_size := unat n\<rparr>) (sys_scan_ulong sys (argv ! 4))
      else Some (d\<lparr>wt_size := sys_sectors sys\<rparr>))"

definition wt_assoc_arg :: "wt_system \<Rightarrow> string list \<Rightarrow> wt_cache \<Rightarrow> wt_cache option" where
  "wt_assoc_arg sys argv d =
     (if length argv \<ge> 6
      then do {
        n \<leftarrow> sys_scan_uint sys (argv ! 5);
        verify (power_of_two (unat n) \<and> unat n \<le> wt_size d);
        Some (d\<lparr>wt_assoc := unat n\<rparr>)
      }
      else Some (d\<lparr>wt_assoc := WT_DEFAULT_CACHE_ASSOC\<rparr>))"

text \<open>The size in sectors becomes a number of blocks, of whole sets.\<close>

definition wt_capacity :: "wt_system \<Rightarrow> wt_cache \<Rightarrow> wt_cache option" where
  "wt_capacity sys d = do {
     let d = d\<lparr>wt_size := wt_size d div wt_block_size d\<rparr>;
     let d = d\<lparr>wt_size := (wt_size d div wt_assoc d) * wt_assoc d\<rparr>;
     verify (wt_size d * wt_block_size d \<le> sys_sectors sys);
     Some (d\<lparr>wt_consecutive_shift := lowest_bit (wt_assoc d)\<rparr>)
   }"

definition wt_args :: "wt_system \<Rightarrow> string list \<Rightarrow> wt_cache \<Rightarrow> wt_cache option" where
  "wt_args sys argv d = do {
     d \<leftarrow> wt_mode_arg sys argv d;
     d \<leftarrow> wt_block_size_arg sys argv d;
     d \<leftarrow> wt_size_arg sys argv d;
     d \<leftarrow> wt_assoc_arg sys argv d;
     wt_capacity sys d
   }"

section \<open>The constructor and the destructor\<close>

text \<open>The three tables, with 8 bytes for a \<open>cacheblock\<close>; an error path frees those made before.\<close>

definition wt_alloc_tables :: "wt_system \<Rightarrow> wt_cache \<Rightarrow> wt_resource list \<Rightarrow> int \<times> wt_resource list" where
  "wt_alloc_tables sys d held =
     (if \<not> sys_vmalloc sys 0 (wt_size d * 8) then (- ENOMEM, wt_bad3 held)
      else let held = Wt_cache_table # held
           in if \<not> sys_vmalloc sys 1 (wt_size d) then (- ENOMEM, wt_bad3 (remove1 Wt_cache_table held))
              else let held = Wt_state_table # held
                   in if \<not> sys_vmalloc sys 2 (wt_num_sets d * 4)
                      then (- ENOMEM, wt_bad3 (remove1 Wt_state_table (remove1 Wt_cache_table held)))
                      else (0, Wt_lru_table # held))"

definition wt_init_tables :: "wt_cache \<Rightarrow> wt_cache" where
  "wt_init_tables d = d\<lparr>wt_dbn := (\<lambda>_. 0), wt_state := (\<lambda>_. WT_INVALID),
     wt_set_lru_next := (\<lambda>i. i * wt_assoc d), wt_reads := 0, wt_writes := 0, wt_cache_hits := 0, wt_replace := 0,
     wt_wr_invalidates := 0, wt_rd_invalidates := 0, wt_cached_blocks := 0, wt_cache_wr_replace := 0\<rparr>"

text \<open>The result, what is held then, and the cache.\<close>

definition wt_cache_ctr :: "wt_system \<Rightarrow> string list \<Rightarrow> int \<times> wt_resource list \<times> wt_cache option" where
  "wt_cache_ctr sys argv =
     (if length argv < 2 then (- EINVAL, [], None)
      else if \<not> sys_context sys then (ENOMEM, [], None)
      else if \<not> sys_disk_dev sys then (- EINVAL, wt_bad1 [Wt_context], None)
      else if \<not> sys_cache_dev sys then (- EINVAL, wt_bad2 [Wt_context, Wt_disk_dev], None)
      else if sys_io_client sys \<noteq> 0
      then (sys_io_client sys, wt_bad2 [Wt_context, Wt_disk_dev, Wt_cache_dev], None)
      else let held = [Wt_context, Wt_disk_dev, Wt_cache_dev, Wt_io_client]
           in case wt_args sys argv wt_zero of
                None \<Rightarrow> (- EINVAL, wt_bad3 held, None)
              | Some d \<Rightarrow>
                  let (r, held) = wt_alloc_tables sys d held
                  in (r, held, if r = 0 then Some (wt_init_tables d) else None))"

text \<open>The destructor waits until no job is left; \<open>None\<close> is the state in which it waits.\<close>

definition wt_cache_dtr :: "wt_cache \<Rightarrow> wt_resource list \<Rightarrow> wt_resource list option" where
  "wt_cache_dtr d held =
     (if wt_nr_jobs d \<noteq> 0 then None
      else Some (remove1 Wt_context (remove1 Wt_cache_dev (remove1 Wt_disk_dev (remove1 Wt_lru_table
        (remove1 Wt_state_table (remove1 Wt_cache_table (remove1 Wt_io_client held))))))))"

section \<open>What it establishes\<close>

lemma args_Some:
  assumes "wt_args sys argv wt_zero = Some d"
  shows "wt_block_size d = 2 ^ wt_block_shift d" "wt_assoc d = 2 ^ wt_consecutive_shift d"
    "wt_size d = wt_num_sets d * wt_assoc d" "wt_size d * wt_block_size d \<le> sys_sectors sys"
    "wt_inflight d = [] \<and> wt_io_jobs d = [] \<and> wt_complete_jobs d = [] \<and> wt_completed d = [] \<and> wt_nr_jobs d = 0"
proof -
  from assms obtain d1 d2 d3 d4 where s: "wt_mode_arg sys argv wt_zero = Some d1" "wt_block_size_arg sys argv d1 = Some d2"
    "wt_size_arg sys argv d2 = Some d3" "wt_assoc_arg sys argv d3 = Some d4" "wt_capacity sys d4 = Some d"
    by (auto simp: wt_args_def bind_eq_Some_conv)
  have 2: "wt_block_size d2 = 2 ^ wt_block_shift d2"
    using s(2) by (auto simp: wt_block_size_arg_def bind_eq_Some_conv WT_DEFAULT_BLOCK_SIZE_def lowest_bit_default
        split: if_splits)
  have 3: "wt_block_size d3 = wt_block_size d2" "wt_block_shift d3 = wt_block_shift d2"
    using s(3) by (auto simp: wt_size_arg_def split: if_splits)
  have 4: "wt_block_size d4 = wt_block_size d3" "wt_block_shift d4 = wt_block_shift d3"
    "wt_assoc d4 = 2 ^ lowest_bit (wt_assoc d4)"
    using s(4) by (auto simp: wt_assoc_arg_def bind_eq_Some_conv WT_DEFAULT_CACHE_ASSOC_def lowest_bit_default
        split: if_splits)
  show "wt_block_size d = 2 ^ wt_block_shift d" "wt_assoc d = 2 ^ wt_consecutive_shift d"
    "wt_size d * wt_block_size d \<le> sys_sectors sys"
    using s(5) 2 3 4 by (auto simp: wt_capacity_def Let_def)
  have "wt_size d = wt_size d4 div wt_block_size d4 div wt_assoc d * wt_assoc d" "wt_assoc d = wt_assoc d4"
    "wt_consecutive_shift d = lowest_bit (wt_assoc d4)"
    using s(5) by (auto simp: wt_capacity_def Let_def)
  then show "wt_size d = wt_num_sets d * wt_assoc d"
    using 4(3) by (simp add: wt_num_sets_def drop_bit_eq_div)
  show "wt_inflight d = [] \<and> wt_io_jobs d = [] \<and> wt_complete_jobs d = [] \<and> wt_completed d = [] \<and> wt_nr_jobs d = 0"
    using s by (auto simp: wt_capacity_def wt_assoc_arg_def wt_size_arg_def wt_block_size_arg_def wt_mode_arg_def
        wt_zero_def bind_eq_Some_conv Let_def split: if_splits)
qed

lemma ctr_success:
  assumes "wt_cache_ctr sys argv = (r, held, Some d)"
  shows "r = 0" "held = [Wt_lru_table, Wt_state_table, Wt_cache_table, Wt_context, Wt_disk_dev, Wt_cache_dev, Wt_io_client]"
    "\<exists>d0. wt_args sys argv wt_zero = Some d0 \<and> d = wt_init_tables d0 \<and> sys_vmalloc sys 1 (wt_size d0)"
  using assms by (auto simp: wt_cache_ctr_def wt_alloc_tables_def Let_def ENOMEM_def split: if_splits option.splits)

lemma ctr_fresh:
  assumes "wt_cache_ctr sys argv = (r, held, Some d)" and "\<not> sys_vmalloc sys 1 0"
  shows "wt_fresh d"
proof -
  from ctr_success(3) [OF assms(1)] obtain d0 where d: "wt_args sys argv wt_zero = Some d0" "d = wt_init_tables d0"
    "sys_vmalloc sys 1 (wt_size d0)" by blast
  note a = args_Some [OF d(1)]
  have n: "wt_num_sets d = wt_num_sets d0" by (simp add: d(2) wt_init_tables_def wt_num_sets_def)
  have "wt_size d0 \<noteq> 0" using d(3) assms(2) by metis
  then have "0 < wt_num_sets d0" using a(3) by (cases "wt_num_sets d0") simp_all
  then have "wt_geometry d" using a(1-3) by (simp add: wt_geometry_def n) (simp add: d(2) wt_init_tables_def)
  moreover have "wt_pointers d" using a(2) by (simp add: wt_pointers_def d(2) wt_init_tables_def)
  ultimately show ?thesis using a(5) by (simp add: wt_fresh_def d(2) wt_init_tables_def)
qed

text \<open>What the error paths leave behind.\<close>

lemma ctr_failure:
  assumes "wt_cache_ctr sys argv = (r, held, None)"
  shows "r \<noteq> 0"
    "held = (if length argv \<ge> 2 \<and> sys_context sys \<and> sys_disk_dev sys \<and> sys_cache_dev sys \<and> sys_io_client sys \<noteq> 0
       then [Wt_cache_dev] else [])"
  using assms by (auto simp: wt_cache_ctr_def wt_alloc_tables_def wt_bad1_def wt_bad2_def wt_bad3_def EINVAL_def
      ENOMEM_def Let_def split: if_splits option.splits)

lemma ctr_dtr:
  assumes "wt_cache_ctr sys argv = (0, held, Some d)" and "wt_nr_jobs d' = 0"
  shows "wt_cache_dtr d' held = Some []"
  using ctr_success(2) [OF assms(1)] assms(2) by (simp add: wt_cache_dtr_def)

text \<open>
  With the default geometry, a flash device of less than one set would give no set, and every request would divide
  by zero; it is refused only because an allocation of 0 bytes fails.
\<close>

lemma ctr_no_sets:
  assumes "length argv = 2" "sys_context sys" "sys_disk_dev sys" "sys_cache_dev sys" "sys_io_client sys = 0"
    and "sys_sectors sys < 4096" and "\<not> sys_vmalloc sys 0 0"
  shows "wt_cache_ctr sys argv = (- ENOMEM, [], None)"
proof -
  have "sys_sectors sys div 8 div 512 = 0" using assms(6) by (simp flip: div_mult2_eq)
  then show ?thesis
    using assms by (simp add: wt_cache_ctr_def wt_args_def wt_mode_arg_def wt_block_size_arg_def wt_size_arg_def
        wt_assoc_arg_def wt_capacity_def Let_def WT_DEFAULT_BLOCK_SIZE_def WT_DEFAULT_CACHE_ASSOC_def
        wt_alloc_tables_def wt_bad1_def wt_bad2_def wt_bad3_def ENOMEM_def)
qed

end
