(* ===== verification/Wt_Props.thy ===== *)
theory Wt_Props
  imports Wt_Ctr
begin

text \<open>
  The properties of the write through driver, each with an instance on the cache of two blocks or on a device
  of the default geometry.
\<close>

section \<open>The runs of the cache of two blocks\<close>

lemma demo_filled:
  obtains acc w where "wt_reach wt_exclusive_request demo_world acc w" "acc = [demo_wr, demo_rd 2]"
    "wt_state (wt_dmc w) 0 = WT_VALID" "wt_completed (wt_dmc w) = [(demo_wr, 0), (demo_rd 2, 0)]"
proof -
  from fill_run obtain acc w where r: "wt_exec_all wt_exclusive_request fill_script [] demo_world = Some (acc, w)"
    "wt_view (acc, w) = ([demo_wr, demo_rd 2], [(demo_wr, 0), (demo_rd 2, 0)], 0, [WT_VALID, WT_INVALID], [7, 0], 7)"
    by auto
  from r(2) exec_from [OF r(1)] show thesis by (intro that) (auto simp: wt_view_def)
qed

lemma reach_mono:
  assumes "wt_reach P w0 acc w" and "\<And>d b. P d b \<Longrightarrow> P' d b"
  shows "wt_reach P' w0 acc w"
  using assms(1)
proof induction
  case start
  show ?case by (rule wt_reach.start)
next
  case (step acc w new w')
  from step(2) have "wt_step P' new w w'"
  proof cases
    case (Request b r d' data)
    show ?thesis
      unfolding Request(1,2) by (rule wt_step.Request [where P = P', OF assms(2) [OF Request(3)] Request(4)])
  qed (auto intro: wt_step.intros)
  with step.IH show ?case by (rule wt_reach.step)
qed

lemma exclusive_ok: "wt_exclusive_request d b \<Longrightarrow> wt_request_ok d b"
  by (simp add: wt_exclusive_request_def wt_aligned_request_def)

lemma demo_reach: "\<exists>acc w. wt_reach wt_request_ok demo_world acc w \<and> acc = [demo_wr, demo_rd 2]"
proof -
  from demo_filled obtain acc w where "wt_reach wt_exclusive_request demo_world acc w" "acc = [demo_wr, demo_rd 2]" .
  moreover from this(1) have "wt_reach wt_request_ok demo_world acc w" by (rule reach_mono) (rule exclusive_ok)
  ultimately show ?thesis by blast
qed


section \<open>Coherence\<close>




section \<open>Safety\<close>

text \<open>C7. In every state that is reached from a fresh cache by requests of at most a block, whatever fails and
  whatever the interleaving, the next request, the completion of any I/O in flight and the worker with its loops
  return: no \<open>VERIFY\<close> fails and no loop runs forever.\<close>

theorem wt_no_panic:
  assumes "wt_reach wt_request_ok w0 acc w" and "wt_fresh (wt_dmc w0)"
  shows "(wt_request_ok (wt_dmc w) b \<longrightarrow> wt_map b (wt_dmc w) \<noteq> None) \<and>
    (n < length (wt_inflight (wt_dmc w)) \<longrightarrow> wt_complete_io n err (wt_dmc w) \<noteq> None) \<and>
    wt_do_work (wt_dmc w) \<noteq> None"
proof -
  have "wt_inv [] (wt_dmc w)" using reach_account [OF assms] by simp
  from wt_progress [OF this] show ?thesis by simp
qed

theorem wt_no_panic_witness:
  "\<exists>acc w. wt_reach wt_request_ok demo_world acc w \<and> length acc = 2 \<and> wt_do_work (wt_dmc w) \<noteq> None"
proof -
  from demo_reach obtain acc w where "wt_reach wt_request_ok demo_world acc w" "acc = [demo_wr, demo_rd 2]" by blast
  with wt_no_panic [OF this(1) demo_wt_fresh, of demo_wr 0 0] show ?thesis
    by (intro exI [of _ acc] exI [of _ w]) simp
qed

text \<open>C8. Every request that the driver accepts is in exactly one job or completed exactly once; the counter of
  jobs, on which the destructor waits, is exact; and a block with an I/O in progress has exactly one job.\<close>

theorem wt_requests_conserved:
  assumes "wt_reach wt_request_ok w0 acc w" and "wt_fresh (wt_dmc w0)"
  shows "mset (map wj_bio (wt_jobs (wt_dmc w))) + mset (map fst (wt_completed (wt_dmc w))) = mset acc \<and>
    wt_nr_jobs (wt_dmc w) = int (length (wt_jobs (wt_dmc w))) \<and>
    (\<forall>i < wt_size (wt_dmc w). length (filter (\<lambda>j. wj_index j = Some i) (wt_jobs (wt_dmc w))) =
      (if wt_state (wt_dmc w) i = WT_INVALID \<or> wt_state (wt_dmc w) i = WT_VALID then 0 else 1))"
proof -
  have r: "wt_inv [] (wt_dmc w)" "wt_bios [] (wt_dmc w) = mset acc" using reach_account [OF assms] by simp_all
  with wt_invD(5,10) [OF r(1)] show ?thesis by (simp add: wt_bios_def wt_owners_def wt_free_def)
qed

theorem wt_requests_conserved_witness:
  "\<exists>acc w. wt_reach wt_request_ok demo_world acc w \<and> length acc = 2 \<and>
     mset (map wj_bio (wt_jobs (wt_dmc w))) + mset (map fst (wt_completed (wt_dmc w))) = mset acc"
proof -
  from demo_reach obtain acc w where "wt_reach wt_request_ok demo_world acc w" "acc = [demo_wr, demo_rd 2]" by blast
  with wt_requests_conserved [OF this(1) demo_wt_fresh] show ?thesis
    by (intro exI [of _ acc] exI [of _ w]) simp
qed

section \<open>Lookup\<close>





section \<open>The constructor\<close>

definition demo_system :: wt_system where
  "demo_system = \<lparr>sys_scan_int = (\<lambda>_. Some 0), sys_scan_uint = (\<lambda>_. Some 8), sys_scan_ulong = (\<lambda>_. Some 65536),
     sys_context = True, sys_disk_dev = True, sys_cache_dev = True, sys_io_client = 0, sys_sectors = 65536,
     sys_vmalloc = (\<lambda>_ n. n \<noteq> 0)\<rparr>"

lemma demo_ctr:
  "\<exists>held d. wt_cache_ctr demo_system [''disk'', ''ssd''] = (0, held, Some d) \<and> wt_num_sets d = 16 \<and> wt_nr_jobs d = 0"
  by (simp add: wt_cache_ctr_def demo_system_def wt_args_def wt_mode_arg_def wt_block_size_arg_def wt_size_arg_def
      wt_assoc_arg_def wt_capacity_def Let_def WT_DEFAULT_BLOCK_SIZE_def WT_DEFAULT_CACHE_ASSOC_def wt_num_sets_def
      lowest_bit_default drop_bit_eq_div wt_zero_def wt_alloc_tables_def wt_init_tables_def)

text \<open>C39. A cache that the constructor makes is fresh, when an allocation of no bytes fails as in the kernel: the invariant of the driver holds, the
  blocks and sets are powers of two, every sweep starts in its set, no job exists; and its blocks fit on the flash
  device.\<close>

theorem wt_ctr_ready:
  assumes "wt_cache_ctr sys argv = (r, held, Some d)" and "\<not> sys_vmalloc sys 1 0"
  shows "r = 0 \<and> wt_fresh d \<and> wt_inv [] d \<and> wt_size d * wt_block_size d \<le> sys_sectors sys"
proof -
  from ctr_success(3) [OF assms(1)] args_Some(4) have "wt_size d * wt_block_size d \<le> sys_sectors sys"
    by (auto simp: wt_init_tables_def)
  with ctr_success(1) [OF assms(1)] ctr_fresh [OF assms] fresh_inv show ?thesis by blast
qed

theorem wt_ctr_ready_witness:
  "\<exists>held d. wt_cache_ctr demo_system [''disk'', ''ssd''] = (0, held, Some d) \<and> wt_fresh d \<and>
     wt_size d * wt_block_size d \<le> 65536"
proof -
  from demo_ctr obtain held d where "wt_cache_ctr demo_system [''disk'', ''ssd''] = (0, held, Some d)" "wt_num_sets d = 16"
    by blast
  with wt_ctr_ready [OF this(1)] show ?thesis by (auto simp: demo_system_def)
qed

text \<open>C40. The constructor and the destructor balance what they acquire: after success and the end of all jobs the
  destructor releases everything, and a failure keeps nothing, with one exception: when the I/O client cannot be
  created, the flash device stays acquired.\<close>

theorem wt_ctr_resources:
  assumes "wt_cache_ctr sys argv = (r, held, made)"
  shows "case made of
      Some d \<Rightarrow> r = 0 \<and> (\<forall>d'. wt_nr_jobs d' = 0 \<longrightarrow> wt_cache_dtr d' held = Some [])
    | None \<Rightarrow> r \<noteq> 0 \<and> held = (if length argv \<ge> 2 \<and> sys_context sys \<and> sys_disk_dev sys \<and> sys_cache_dev sys \<and>
        sys_io_client sys \<noteq> 0 then [Wt_cache_dev] else [])"
proof (cases made)
  case None
  with ctr_failure [of sys argv r held] assms show ?thesis by simp
next
  case (Some d)
  with assms have "wt_cache_ctr sys argv = (0, held, Some d)" "r = 0" using ctr_success(1) by auto
  with ctr_dtr [OF this(1)] Some show ?thesis by simp
qed

theorem wt_ctr_resources_witness:
  "(\<exists>held d. wt_cache_ctr demo_system [''disk'', ''ssd''] = (0, held, Some d) \<and> wt_cache_dtr d held = Some []) \<and>
   (\<exists>r. wt_cache_ctr (demo_system\<lparr>sys_io_client := - ENOMEM\<rparr>) [''disk'', ''ssd''] = (r, [Wt_cache_dev], None))"
proof
  from demo_ctr obtain held d where "wt_cache_ctr demo_system [''disk'', ''ssd''] = (0, held, Some d)" "wt_nr_jobs d = 0"
    by blast
  with wt_ctr_resources [OF this(1)] show
    "\<exists>held d. wt_cache_ctr demo_system [''disk'', ''ssd''] = (0, held, Some d) \<and> wt_cache_dtr d held = Some []" by auto
  show "\<exists>r. wt_cache_ctr (demo_system\<lparr>sys_io_client := - ENOMEM\<rparr>) [''disk'', ''ssd''] = (r, [Wt_cache_dev], None)"
    by (simp add: wt_cache_ctr_def demo_system_def ENOMEM_def wt_bad1_def wt_bad2_def)
qed

text \<open>With the default geometry a flash device of fewer sectors than one set is refused, with \<open>-ENOMEM\<close> and
  everything released, as long as an allocation of no bytes fails; the checks of the size do not refuse it.\<close>

theorem wt_small_device_refused:
  assumes "length argv = 2" "sys_context sys" "sys_disk_dev sys" "sys_cache_dev sys" "sys_io_client sys = 0"
    and "sys_sectors sys < 4096" and "\<not> sys_vmalloc sys 0 0"
  shows "wt_cache_ctr sys argv = (- ENOMEM, [], None) \<and> wt_args sys argv wt_zero \<noteq> None"
proof -
  have "wt_args sys argv wt_zero \<noteq> None"
  proof
    assume "wt_args sys argv wt_zero = None"
    with ctr_no_sets [OF assms] assms(1-5) show False by (simp add: wt_cache_ctr_def EINVAL_def ENOMEM_def)
  qed
  with ctr_no_sets [OF assms] show ?thesis by blast
qed

theorem wt_small_device_refused_witness:
  "wt_cache_ctr (demo_system\<lparr>sys_sectors := 4095\<rparr>) [''disk'', ''ssd''] = (- ENOMEM, [], None)"
  by (rule conjunct1, rule wt_small_device_refused) (simp_all add: demo_system_def)

end
