(* ===== verification/Write_Frame.thy ===== *)
theory Write_Frame
  imports Frame Target
begin

text \<open>
  The extension of \<open>block_frame\<close> to jobs, queues and requests: an observer that does not look at them either is
  kept by writes, requests around the cache, write backs, metadata updates, completions, the worker and the
  sysctls, that is by every step of the driver but those of the prefetcher.
\<close>

locale driver_frame = block_frame v for v :: "cache_c \<Rightarrow> 'a" +
  assumes jobs [simp]: "v (nr_jobs_update g1 d) = v d" "v (nr_cache_jobs_update g1 d) = v d"
    "v (nr_pending_jobs_update g1 d) = v d" "v (pending_jobs_count_update g1 d) = v d"
    "v (pending_job_hashbuckets_update g2 d) = v d" "v (io_inflight_update g3 d) = v d"
    "v (md_blocks_buf_update g4 d) = v d" "v (completed_update g5 d) = v d"
    "v (q_pending_jobs_update g6 d) = v d" "v (q_io_jobs_update g6 d) = v d"
    "v (q_md_io_jobs_update g6 d) = v d" "v (q_md_complete_jobs_update g6 d) = v d"
    "v (q_uncached_io_complete_jobs_update g6 d) = v d"
    and limits [simp]: "v (remove_in_prog_update g7 d) = v d" "v (max_clean_ios_total_update g8 d) = v d"
    "v (max_clean_ios_set_update g8 d) = v d" "v (dirty_thresh_set_update g8 d) = v d"
begin

section \<open>Jobs, queues and requests\<close>

lemma push_kept [simp]:
  "v (push_pending j d) = v d" "v (push_io j d) = v d" "v (push_uncached_io_complete j d) = v d"
  "v (push_md_io j d) = v d" "v (push_md_complete j d) = v d" "v (submit_io fn w r m j d) = v d"
  "v (flashcache_free_cache_job d) = v d" "v (flashcache_free_pending_job d) = v d"
  "v (finish_job d) = v d" "v (upd_md b h d) = v d" "v (flashcache_diskclean_free b1 b2 d) = v d"
  "v (flashcache_md_write_callback e j d) = v d" "v (bump_inval w d) = v d" "v (pop_queue q d) = v d"
  "v (write_clust_account n d) = v d" "v (io_callback_error e d) = v d"
  by (simp_all add: push_pending_def push_io_def push_uncached_io_complete_def push_md_io_def push_md_complete_def
      submit_io_def flashcache_free_cache_job_def flashcache_free_pending_job_def finish_job_def upd_md_def
      flashcache_diskclean_free_def flashcache_md_write_callback_def bump_inval_def pop_queue_def
      write_clust_account_def io_callback_error_def Let_def split: work_queue.splits)

lemma new_job_kept: "new_kcached_job b i d = (r, d') \<Longrightarrow> v d' = v d"
  by (auto simp: new_kcached_job_def flashcache_alloc_cache_job_def Let_def split: if_splits)

lemma alloc_pending_kept: "flashcache_alloc_pending_job d = (r, d') \<Longrightarrow> v d' = v d"
  by (auto simp: flashcache_alloc_pending_job_def Let_def split: if_splits)

lemma record_latency_kept: "flashcache_record_latency tv d = Some d' \<Longrightarrow> v d' = v d"
  by (auto simp: flashcache_record_latency_def Let_def split: if_splits)

lemma endio_kept: "flashcache_bio_endio b e t d = Some d' \<Longrightarrow> v d' = v d"
  by (auto simp: flashcache_bio_endio_def split: option.splits if_splits elim!: bindE dest!: record_latency_kept)

lemma enq_kept: "flashcache_enq_pending b i act ok d = Some d' \<Longrightarrow> v d' = v d"
  by (auto simp: flashcache_enq_pending_def Let_def)

lemma deq_kept: "flashcache_deq_pending i d = Some (r, d') \<Longrightarrow> v d' = v d"
  by (auto simp: flashcache_deq_pending_def Let_def split: prod.splits)

lemma diskclean_alloc_kept: "flashcache_diskclean_alloc d = (r, d') \<Longrightarrow> v d' = v d"
  by (auto simp: flashcache_diskclean_alloc_def split: list.splits)

lemma free_pending_one_kept: "free_pending_one i e p d = Some d' \<Longrightarrow> v d' = v d"
  by (auto simp: free_pending_one_def Let_def elim!: bindE dest!: endio_kept)

lemma free_pending_kept: "flashcache_free_pending_jobs i e d = Some d' \<Longrightarrow> v d' = v d"
  by (auto simp: flashcache_free_pending_jobs_def elim!: bindE dest!: deq_kept for_each_kept
      intro: free_pending_one_kept)

section \<open>Write backs\<close>

lemma writeback_failed_kept: "writeback_failed i d = Some d' \<Longrightarrow> v d' = v d"
  by (auto simp: writeback_failed_def Let_def elim!: bindE dest!: free_pending_kept)

lemma start_writeback_kept: "start_writeback i d = Some d' \<Longrightarrow> v d' = v d"
  by (auto simp: start_writeback_def Let_def elim!: bindE)

lemma launch_writeback_kept [simp]: "v (launch_writeback fn act job d) = v d"
  by (simp add: launch_writeback_def Let_def)

lemma writeback_kept: "flashcache_dirty_writeback i d = Some d' \<Longrightarrow> v d' = v d"
  by (auto simp: flashcache_dirty_writeback_def Let_def split: prod.splits if_splits option.splits elim!: bindE
      dest!: new_job_kept inject_keptD start_writeback_kept writeback_failed_kept)

lemma writeback_sync_kept: "flashcache_dirty_writeback_sync i d = Some d' \<Longrightarrow> v d' = v d"
  by (auto simp: flashcache_dirty_writeback_sync_def Let_def split: prod.splits if_splits option.splits elim!: bindE
      dest!: new_job_kept start_writeback_kept writeback_failed_kept)

lemma clean_set_kept: "flashcache_clean_set s f d = Some d' \<Longrightarrow> v d' = v d"
  by (auto simp: flashcache_clean_set_def Let_def split: if_splits option.splits prod.splits elim!: bindE
      dest!: diskclean_alloc_kept clean_select_kept merge_writes_kept for_each_kept intro: writeback_kept)

lemma sync_flush_kept: "sync_flush wl s d = Some d' \<Longrightarrow> v d' = v d"
  by (auto simp: sync_flush_def split: if_splits elim!: bindE dest!: merge_writes_kept for_each_kept
      intro: writeback_sync_kept)

lemma sync_loop_kept: "sync_loop n i s wl d = Some (i', s', wl', d') \<Longrightarrow> v d' = v d"
  by (induction n arbitrary: i s wl d)
    (auto split: if_splits elim!: bindE dest!: claim_kept sync_flush_kept)

lemma sync_blocks_kept: "flashcache_sync_blocks d = Some d' \<Longrightarrow> v d' = v d"
  by (auto simp: flashcache_sync_blocks_def Let_def split: if_splits option.splits prod.splits elim!: bindE
      dest!: diskclean_alloc_kept sync_loop_kept sync_flush_kept)

lemma sync_all_kept: "flashcache_sync_all d = Some d' \<Longrightarrow> v d' = v d"
  by (auto simp: flashcache_sync_all_def split: if_splits dest!: sync_blocks_kept)

section \<open>Requests around the cache\<close>

lemma uncached_kept: "flashcache_start_uncached_io b d = Some d' \<Longrightarrow> v d' = v d"
  by (auto simp: flashcache_start_uncached_io_def Let_def split: prod.splits if_splits option.splits
      dest!: new_job_kept endio_kept)

lemma inval_now_kept: "inval_now i d = Some d' \<Longrightarrow> v d' = v d"
  by (auto simp: inval_now_def Let_def elim!: bindE dest!: hash_remove_kept invalid_insert_kept)

lemma inval_later_kept: "inval_later i b d = Some d' \<Longrightarrow> v d' = v d"
  by (auto simp: inval_later_def split: if_splits elim!: bindE dest!: enq_kept claim_kept writeback_kept)

lemma inval_loop_kept: "inval_block_loop is b d = Some (r, d') \<Longrightarrow> v d' = v d"
  by (induction "is" arbitrary: d)
    (auto simp: Let_def split: if_splits elim!: bindE dest!: inval_now_kept inval_later_kept)

lemma inval_set_v3_kept: "flashcache_inval_block_set_v3 s b d = Some (r, d') \<Longrightarrow> v d' = v d"
  by (auto simp: flashcache_inval_block_set_v3_def Let_def split: if_splits option.splits elim!: bindE
      dest!: inval_now_kept inval_later_kept)

lemma inval_blocks_kept: "flashcache_inval_blocks b d = Some (r, d') \<Longrightarrow> v d' = v d"
  by (auto simp: flashcache_inval_blocks_def flashcache_inval_block_set_def Let_def
      split: if_splits prod.splits elim!: bindE
      dest!: alloc_pending_kept inject_keptD inval_loop_kept inval_set_v3_kept)

section \<open>Metadata and completions\<close>

lemma alloc_sector_kept: "flashcache_alloc_md_sector j d = (r, j', d') \<Longrightarrow> v d' = v d"
  by (auto simp: flashcache_alloc_md_sector_def Let_def split: prod.splits if_splits dest!: inject_keptD)

lemma bump_fold_kept [simp]: "v (fold (\<lambda>_. bump h) xs d) = v d"
  by (induction xs arbitrary: d) simp_all

lemma kickoff_kept: "flashcache_md_write_kickoff j d = Some d' \<Longrightarrow> v d' = v d"
  by (auto simp: flashcache_md_write_kickoff_def Let_def split: prod.splits if_splits elim!: bindE
      dest!: alloc_sector_kept)

lemma md_write_kept: "flashcache_md_write j d = Some d' \<Longrightarrow> v d' = v d"
  by (auto simp: flashcache_md_write_def Let_def split: if_splits elim!: bindE)

lemma drop_identity_kept: "drop_identity i d = Some d' \<Longrightarrow> v d' = v d"
  by (auto simp: drop_identity_def Let_def elim!: bindE dest!: hash_remove_kept)

lemma unqueue_one_kept: "unqueue_one i p d = Some d' \<Longrightarrow> v d' = v d"
  by (auto simp: unqueue_one_def)

lemma relaunch_one_kept: "relaunch_one p d = Some d' \<Longrightarrow> v d' = v d"
  by (auto simp: relaunch_one_def elim!: bindE dest!: uncached_kept)

lemma for_each_unqueue_kept: "for_each (unqueue_one i) ps d = Some d' \<Longrightarrow> v d' = v d"
  using for_each_kept unqueue_one_kept by blast

lemma for_each_relaunch_kept: "for_each relaunch_one ps d = Some d' \<Longrightarrow> v d' = v d"
  using for_each_kept relaunch_one_kept by blast

lemma pending_error_kept: "flashcache_do_pending_error j d = Some d' \<Longrightarrow> v d' = v d"
  by (auto simp: flashcache_do_pending_error_def Let_def split: if_splits option.splits elim!: bindE
      dest!: drop_identity_kept invalid_insert_kept deq_kept for_each_unqueue_kept uncached_kept
        for_each_relaunch_kept free_pending_kept)

lemma noerror_one_kept: "noerror_one i p d = Some d' \<Longrightarrow> v d' = v d"
  by (auto simp: noerror_one_def Let_def split: if_splits elim!: bindE
      dest!: inval_blocks_kept endio_kept relaunch_one_kept)

lemma for_each_noerror_kept: "for_each (noerror_one i) ps d = Some d' \<Longrightarrow> v d' = v d"
  using for_each_kept noerror_one_kept by blast

lemma pending_noerror_kept: "flashcache_do_pending_noerror j d = Some d' \<Longrightarrow> v d' = v d"
  by (auto simp: flashcache_do_pending_noerror_def Let_def split: if_splits elim!: bindE
      dest!: clear_fallow_kept writeback_kept drop_identity_kept deq_kept for_each_noerror_kept invalid_insert_kept)

lemma do_pending_kept: "flashcache_do_pending j d = Some d' \<Longrightarrow> v d' = v d"
  by (auto simp: flashcache_do_pending_def split: if_splits dest!: pending_error_kept pending_noerror_kept)

lemma pending_or_idle_kept: "pending_or_idle j i d = Some d' \<Longrightarrow> v d' = v d"
  by (auto simp: pending_or_idle_def split: if_splits dest!: do_pending_kept)

lemma do_io_kept: "flashcache_do_io j d = Some d' \<Longrightarrow> v d' = v d"
  by (auto simp: flashcache_do_io_def)

lemma io_end_kept: "io_callback_end j i b e de d = Some d' \<Longrightarrow> v d' = v d"
  by (auto simp: io_callback_end_def Let_def split: if_splits elim!: bindE dest!: endio_kept)

lemma inject_error_kept: "inject_error flag e d = (r, d') \<Longrightarrow> v d' = v d"
  by (auto simp: inject_error_def Let_def split: prod.splits dest!: inject_keptD)

lemma io_callback_kept: "flashcache_io_callback err j d = Some d' \<Longrightarrow> v d' = v d"
  by (auto simp: flashcache_io_callback_def Let_def split: action.splits if_splits prod.splits elim!: bindE
      dest!: inject_error_kept io_end_kept md_write_kept)

lemma md_done_writecache_kept: "md_done_writecache j i d = Some d' \<Longrightarrow> v d' = v d"
  by (auto simp: md_done_writecache_def Let_def split: prod.splits if_splits elim!: bindE
      dest!: inject_error_kept endio_kept pending_or_idle_kept)

lemma md_done_writedisk_kept: "md_done_writedisk j i d = Some d' \<Longrightarrow> v d' = v d"
  by (auto simp: md_done_writedisk_def Let_def split: prod.splits if_splits elim!: bindE
      dest!: inject_error_kept pending_or_idle_kept clean_set_kept sync_blocks_kept)

lemma md_done_one_kept: "md_done_one e j d = Some d' \<Longrightarrow> v d' = v d"
  by (auto simp: md_done_one_def Let_def split: if_splits elim!: bindE
      dest!: md_done_writecache_kept md_done_writedisk_kept)

lemma for_each_md_done_kept: "for_each (md_done_one e) js d = Some d' \<Longrightarrow> v d' = v d"
  using for_each_kept md_done_one_kept by blast

lemma md_write_done_kept: "flashcache_md_write_done j d = Some d' \<Longrightarrow> v d' = v d"
  by (auto simp: flashcache_md_write_done_def Let_def split: list.splits elim!: bindE
      dest!: for_each_md_done_kept md_done_one_kept kickoff_kept)

lemma kcopyd_failed_kept: "kcopyd_failed re j i d = Some d' \<Longrightarrow> v d' = v d"
  by (auto simp: kcopyd_failed_def Let_def elim!: bindE dest!: do_pending_kept)

lemma kcopyd_kept: "flashcache_kcopyd_callback re we j d = Some d' \<Longrightarrow> v d' = v d"
  by (auto simp: flashcache_kcopyd_callback_def Let_def split: prod.splits if_splits elim!: bindE
      dest!: inject_keptD md_write_kept kcopyd_failed_kept clean_set_kept)

lemma kcopyd_sync_kept: "flashcache_kcopyd_callback_sync re we j d = Some d' \<Longrightarrow> v d' = v d"
  by (auto simp: flashcache_kcopyd_callback_sync_def Let_def split: if_splits elim!: bindE
      dest!: md_write_kept kcopyd_failed_kept sync_blocks_kept)

lemma uncached_complete_kept: "flashcache_uncached_io_complete j d = Some d' \<Longrightarrow> v d' = v d"
  by (auto simp: flashcache_uncached_io_complete_def Let_def split: if_splits elim!: bindE
      dest!: inval_blocks_kept endio_kept)

lemma uncached_callback_kept: "flashcache_uncached_io_callback e j d = Some d' \<Longrightarrow> v d' = v d"
  by (auto simp: flashcache_uncached_io_callback_def)

lemma complete_io_kept: "complete_io n err err2 d = Some d' \<Longrightarrow> v d' = v d"
  by (auto simp: complete_io_def Let_def split: io_notify.splits if_splits elim!: bindE
      dest!: io_callback_kept uncached_callback_kept kcopyd_kept kcopyd_sync_kept)

lemma run_job_kept: "run_job q j d = Some d' \<Longrightarrow> v d' = v d"
  by (auto simp: run_job_def split: work_queue.splits
      dest!: md_write_done_kept do_pending_kept kickoff_kept do_io_kept uncached_complete_kept)

lemma work_kept: "run_job q j (pop_queue q d) = Some d' \<Longrightarrow> v d' = v d"
  using run_job_kept by fastforce

section \<open>Writes\<close>

lemma new_or_inject_kept: "new_job_or_inject flag b i d = (r, d') \<Longrightarrow> v d' = v d"
  by (auto simp: new_job_or_inject_def Let_def split: prod.splits if_splits dest!: new_job_kept inject_keptD)

lemma enqueue_or_fail_kept: "enqueue_or_fail flag b i act d = Some d' \<Longrightarrow> v d' = v d"
  by (auto simp: enqueue_or_fail_def Let_def split: prod.splits if_splits
      dest!: alloc_pending_kept inject_keptD endio_kept enq_kept)

lemma hit_failed_kept: "hit_failed b i d = Some d' \<Longrightarrow> v d' = v d"
  by (auto simp: hit_failed_def elim!: bindE dest!: endio_kept free_pending_kept)

lemma miss_failed_kept: "miss_failed b i d = Some d' \<Longrightarrow> v d' = v d"
  by (auto simp: miss_failed_def Let_def elim!: bindE
      dest!: endio_kept hash_remove_kept free_pending_kept invalid_insert_kept)

lemma claim_identity_kept: "claim_identity r busy b i d = Some d' \<Longrightarrow> v d' = v d"
  by (auto simp: claim_identity_def Let_def split: if_splits elim!: bindE dest!: hash_remove_kept hash_insert_kept)

lemma put_back_kept: "put_back i d = Some d' \<Longrightarrow> v d' = v d"
  by (auto simp: put_back_def split: if_splits dest!: invalid_insert_kept)

lemma launch_write_kept: "launch_cache_write j d = Some d' \<Longrightarrow> v d' = v d"
  by (auto simp: launch_cache_write_def split: if_splits elim!: bindE)

lemma write_miss_kept: "flashcache_write_miss b i d = Some d' \<Longrightarrow> v d' = v d"
  by (auto simp: flashcache_write_miss_def Let_def split: prod.splits if_splits option.splits elim!: bindE
      dest!: inval_blocks_kept put_back_kept endio_kept claim_identity_kept new_or_inject_kept miss_failed_kept
        launch_write_kept clean_set_kept)

lemma write_hit_kept: "flashcache_write_hit b i d = Some d' \<Longrightarrow> v d' = v d"
  by (auto simp: flashcache_write_hit_def Let_def split: prod.splits if_splits option.splits elim!: bindE
      dest!: new_or_inject_kept hit_failed_kept launch_write_kept clean_set_kept enqueue_or_fail_kept)

lemma write_kept: "flashcache_write b d = Some d' \<Longrightarrow> v d' = v d"
  by (auto simp: flashcache_write_def split: if_splits option.splits elim!: bindE
      dest!: lookup_kept write_hit_kept write_miss_kept inval_blocks_kept endio_kept uncached_kept clean_set_kept)

lemma map_uncacheable_kept: "map_uncacheable b d = Some (r, d') \<Longrightarrow> v d' = v d"
  by (auto simp: map_uncacheable_def split: if_splits dest!: uncacheable_kept)

lemma map_write_kept: "flashcache_map b d = Some (r, d') \<Longrightarrow> bi_is_write b \<Longrightarrow> v d' = v d"
  by (auto simp: flashcache_map_def Let_def split: if_splits elim!: bindE
      dest!: expiry_kept map_uncacheable_kept inval_blocks_kept endio_kept uncached_kept write_kept)

section \<open>The administrator\<close>

lemma sync_sysctl_kept: "flashcache_sync_sysctl w d = Some d' \<Longrightarrow> v d' = v d"
  by (auto simp: flashcache_sync_sysctl_def split: if_splits dest!: sync_all_kept)

lemma clean_all_kept: "flashcache_clean_all_sets d = Some d' \<Longrightarrow> v d' = v d"
  unfolding flashcache_clean_all_sets_def using for_each_kept clean_set_kept by blast

lemma hot_pct_kept: "flashcache_lru_hot_pct_sysctl w d = Some d' \<Longrightarrow> v d' = v d"
  by (auto simp: flashcache_lru_hot_pct_sysctl_def split: if_splits dest!: rebalance_kept)

lemma sysctls_kept [simp]:
  "v (flashcache_dirty_thresh_sysctl w d) = v d" "v (flashcache_fallow_clean_speed_sysctl w d) = v d"
  "v (flashcache_zerostats_sysctl w d) = v d" "v (flashcache_io_latency_init w d) = v d"
  by (simp_all add: flashcache_dirty_thresh_sysctl_def flashcache_fallow_clean_speed_sysctl_def
      flashcache_zerostats_sysctl_def flashcache_io_latency_init_def zero_latency_def Let_def)

lemma remove_turn_kept: "sync_for_remove_turn d = Some d' \<Longrightarrow> v d' = v d"
  by (auto simp: sync_for_remove_turn_def Let_def split: if_splits dest!: sync_all_kept)

end

end
