(* ===== verification/Read_Frame.thy ===== *)
theory Read_Frame
  imports Write_Frame
begin

text \<open>
  The observers that do not look at the cache of the prefetcher either: reads, prefetches and their completions
  keep them, except for the access statistics, which only \<open>pfd_stat_update\<close> and \<open>pfd_stat_init\<close> change.
\<close>

locale reader_frame = driver_frame v + prefetch_frame v for v :: "cache_c \<Rightarrow> 'a" +
  assumes waiters [simp]: "v (pfd_waiters_update r1 d) = v d"
begin

lemma finish_bio_kept: "pfd_finish_bio b c i d = (r, d') \<Longrightarrow> v d' = v d"
  by (auto simp: pfd_finish_bio_def split: if_splits)

lemma handle_bio_kept: "pfd_cache_handle_bio b d = (r, d') \<Longrightarrow> v d' = v d"
  by (auto simp: pfd_cache_handle_bio_def Let_def split: option.splits if_splits dest!: finish_bio_kept)

lemma resume_bio_kept: "pfd_cache_resume_bio intr b c i d = Some (r, d') \<Longrightarrow> v d' = v d"
  by (auto simp: pfd_cache_resume_bio_def split: if_splits dest!: finish_bio_kept)

lemma read_hit_kept: "flashcache_read_hit b i d = Some d' \<Longrightarrow> v d' = v d"
  by (auto simp: flashcache_read_hit_def Let_def split: prod.splits if_splits option.splits
      dest!: new_or_inject_kept hit_failed_kept enqueue_or_fail_kept)

lemma read_miss_kept: "flashcache_read_miss b i d = Some d' \<Longrightarrow> v d' = v d"
  by (auto simp: flashcache_read_miss_def Let_def split: prod.splits option.splits
      dest!: new_or_inject_kept miss_failed_kept clean_set_kept)

lemma put_back_found_kept: "put_back_found res d = Some d' \<Longrightarrow> v d' = v d"
  by (auto simp: put_back_found_def split: option.splits dest!: put_back_kept)

lemma read_from_cache_kept: "read_from_cache b info d = Some d' \<Longrightarrow> v d' = v d"
  by (auto simp: read_from_cache_def Let_def split: if_splits elim!: bindE
      dest!: lookup_kept read_hit_kept prefetch_kept inval_blocks_kept endio_kept put_back_found_kept
        uncacheable_kept clean_set_kept uncached_kept claim_identity_kept read_miss_kept)

lemma read_after_kept: "read_after_pfd b info res d = Some d' \<Longrightarrow> v d' = v d"
  by (auto simp: read_after_pfd_def split: handle_result.splits dest!: read_from_cache_kept)

lemma read_kept: "flashcache_read b d = Some d' \<Longrightarrow> \<exists>info d1. pfd_stat_update b d = Some (info, d1) \<and> v d' = v d1"
  by (auto simp: flashcache_read_def Let_def elim!: bindE split: prod.splits dest!: handle_bio_kept read_after_kept)

lemma pfd_done_kept: "complete_pfd_io n err d = Some d' \<Longrightarrow> v d' = v d"
  by (auto simp: complete_pfd_io_def Let_def elim!: bindE)

lemma wake_kept: "resume_reader n intr d = Some d' \<Longrightarrow> v d' = v d"
  by (auto simp: resume_reader_def Let_def split: prod.splits elim!: bindE dest!: resume_bio_kept read_after_kept)

lemma reset_metas_kept: "reset_metas c js d = (ok, d') \<Longrightarrow> v d' = v d"
  by (induction js arbitrary: d) (auto split: if_splits)

lemma reset_caches_kept: "reset_caches cs d = (ok, d') \<Longrightarrow> v d' = v d"
  by (induction cs arbitrary: d)
    (auto simp: Let_def split: if_splits option.splits prod.splits dest!: reset_metas_kept)

lemma pfd_reset_kept: "v (snd (pfd_cache_reset d)) = v d"
  by (auto simp: pfd_cache_reset_def split: prod.splits dest: reset_caches_kept)

text \<open>An accepted request: a read changes the statistics first, everything else leaves them.\<close>

lemma map_kept:
  "flashcache_map b d = Some (r, d') \<Longrightarrow>
    v d' = v d \<or> (\<exists>info d1 d2. v d1 = v d \<and> pfd_stat_update b d1 = Some (info, d2) \<and> v d' = v d2)"
  by (auto simp: flashcache_map_def Let_def split: if_splits elim!: bindE
      dest!: expiry_kept map_uncacheable_kept inval_blocks_kept endio_kept uncached_kept write_kept read_kept;
      metis updates)

end

end
