(* ===== verification/Stat_Queue.thy ===== *)
theory Stat_Queue
  imports Pfd_Stat
begin

text \<open>
  The queue of the statistics as a map of bounded size with the least recently used process leaving first: its
  elements form one doubly linked list, those in use come first, and no process is in use twice. An update
  of the statistics (\<open>pfd_stat_update\<close>) always succeeds and implements an access to the map.
\<close>

section \<open>The list of the elements\<close>

definition elm_nx :: "pfd_stat_queue \<Rightarrow> nat option \<Rightarrow> nat option" where
  "elm_nx q p = elm_next (stat_elms q (the p))"

definition elm_pv :: "pfd_stat_queue \<Rightarrow> nat option \<Rightarrow> nat option" where
  "elm_pv q p = elm_prev (stat_elms q (the p))"

definition linked :: "pfd_stat_queue \<Rightarrow> nat list \<Rightarrow> bool" where
  "linked q ps \<longleftrightarrow> dll None (elm_nx q) (elm_pv q) (stat_head q) (stat_tail q) (map Some ps)"

definition elm_key :: "pfd_stat_queue \<Rightarrow> nat \<Rightarrow> nat option \<times> int" where
  "elm_key q i = (st_tgt (stat (stat_elms q i)), st_pid (stat (stat_elms q i)))"

text \<open>What a step on the statistics of one element keeps.\<close>

lemma upd_stat_linked:
  assumes "\<And>e. elm_next (f e) = elm_next e" and "\<And>e. elm_prev (f e) = elm_prev e"
  shows "linked (upd_elm i f q) ps \<longleftrightarrow> linked q ps"
proof -
  have "elm_nx (upd_elm i f q) = elm_nx q" "elm_pv (upd_elm i f q) = elm_pv q"
    using assms by (auto simp: fun_eq_iff elm_nx_def elm_pv_def upd_elm_def)
  then show ?thesis by (simp add: linked_def upd_elm_def)
qed

lemma to_head:
  assumes "linked q (xs @ i # ys)"
  shows "\<exists>q'. pfd_stat_elm_to_head i q = Some q' \<and> linked q' (i # xs @ ys) \<and>
    (\<forall>k. stat (stat_elms q' k) = stat (stat_elms q k))"
proof (cases "xs = []")
  case True
  with dll_head [OF assms [unfolded linked_def]] have "stat_head q = Some i" by simp
  with True assms show ?thesis by (simp add: pfd_stat_elm_to_head_def)
next
  case False
  let ?nx = "elm_nx q" and ?pv = "elm_pv q" and ?x = "Some i"
  define h where "h = stat_head q"
  have dll: "dll None ?nx ?pv h (stat_tail q) (map Some xs @ ?x # map Some ys)"
    using assms by (simp add: linked_def h_def)
  from False obtain j js where xs: "xs = j # js" by (cases xs) auto
  with dll_head [OF dll] have h: "h = Some j" by simp
  have ij: "i \<noteq> j" using dll_distinct [OF dll] xs by auto
  obtain ks p where ks: "xs = ks @ [p]" using False by (cases xs rule: rev_cases) auto
  have p: "?pv ?x = Some p" using dll_pv [OF dll] ks by simp
  have pi: "p \<noteq> i" using dll_distinct [OF dll] ks by auto
  have pv: "?nx ?x \<noteq> ?x" "?nx ?x \<noteq> Some p"
    using dll_neighbours(2,4) [OF dll] dll_distinct [OF dll] ks by auto
  from dll_unlink [OF dll] p
  have un: "dll None (?nx(?pv ?x := ?nx ?x)) (if ?nx ?x = None then ?pv else ?pv(?nx ?x := ?pv ?x)) (Some j)
      (if ?nx ?x = None then ?pv ?x else stat_tail q) (map Some (xs @ ys))"
    by (simp add: h)
  have "?x \<notin> set (map Some (xs @ ys))" using dll_distinct [OF dll] by auto
  from dll_link_head [OF un this]
  have ln: "dll None (?nx(?pv ?x := ?nx ?x, ?x := Some j))
      ((if ?nx ?x = None then ?pv else ?pv(?nx ?x := ?pv ?x))(?x := None, Some j := ?x)) ?x
      (if ?nx ?x = None then ?pv ?x else stat_tail q) (map Some (i # xs @ ys))"
    by simp
  have tail: "stat_tail q = ?x \<longleftrightarrow> ?nx ?x = None"
  proof (cases ys rule: rev_cases)
    case Nil
    with dll_tail [OF dll] dll_nx [OF dll] show ?thesis by simp
  next
    case (snoc zs z)
    with dll_tail [OF dll] have "stat_tail q = Some z" by (simp add: last_or_def)
    moreover have "?nx ?x \<noteq> None"
      using dll_nx [OF dll] snoc by (cases zs) auto
    ultimately show ?thesis using dll_distinct [OF dll] snoc by auto
  qed
  have head: "stat_head q = Some j" using h h_def by simp
  have prev: "elm_prev (stat_elms q i) = Some p" using p by (simp add: elm_pv_def)
  define N where "N = ?nx(Some p := ?nx ?x, ?x := Some j)"
  define P where "P = (if ?nx ?x = None then ?pv else ?pv(?nx ?x := Some p))(?x := None, Some j := ?x)"
  define T where "T = (if ?nx ?x = None then Some p else stat_tail q)"
  have ln: "dll None N P ?x T (map Some (i # xs @ ys))"
    using ln unfolding N_def P_def T_def p by (simp only: p)
  define q' where "q' = the (pfd_stat_elm_to_head i q)"
  note move = pfd_stat_elm_to_head_def Let_def upd_elm_def head prev
  have run: "pfd_stat_elm_to_head i q = Some q' \<and> (\<forall>k. stat (stat_elms q' k) = stat (stat_elms q k)) \<and>
      stat_head q' = ?x \<and> stat_tail q' = T \<and>
      (\<forall>k. elm_nx q' (Some k) = N (Some k)) \<and> (\<forall>k. elm_pv q' (Some k) = P (Some k))"
  proof (cases "elm_next (stat_elms q i)")
    case None
    with ij pi tail show ?thesis by (simp add: q'_def move N_def P_def T_def elm_nx_def elm_pv_def)
  next
    case (Some n)
    with pv have "n \<noteq> i" "n \<noteq> p" by (simp_all add: elm_nx_def)
    with Some ij pi tail show ?thesis by (simp add: q'_def move N_def P_def T_def elm_nx_def elm_pv_def)
  qed
  have "dll None (elm_nx q') (elm_pv q') ?x T (map Some (i # xs @ ys))"
    by (rule dll_frame [THEN iffD2, OF _ _ ln]) (use run in auto)
  with run have "linked q' (i # xs @ ys)" by (simp add: linked_def)
  with run show ?thesis by blast
qed

section \<open>The map\<close>

text \<open>
  The invariant, with the elements in use and the free ones in the order of the list, and the map that they
  stand for: from device and process to the statistics, the latest first.
\<close>

definition queue_inv :: "pfd_stat_queue \<Rightarrow> nat list \<Rightarrow> nat list \<Rightarrow> bool" where
  "queue_inv q us fs \<longleftrightarrow> linked q (us @ fs) \<and> set (us @ fs) = {..<PFD_STAT_COUNT} \<and>
     (\<forall>i \<in> set us. fst (elm_key q i) \<noteq> None) \<and> (\<forall>i \<in> set fs. fst (elm_key q i) = None) \<and>
     distinct (map (elm_key q) us)"

definition processes :: "pfd_stat_queue \<Rightarrow> nat list \<Rightarrow> ((nat option \<times> int) \<times> pfd_stat) list" where
  "processes q us = map (\<lambda>i. (elm_key q i, stat (stat_elms q i))) us"

text \<open>An access: the entry of the process, or a new one, is changed and moves to the front of at most 64.\<close>

definition stat_access ::
  "'k \<Rightarrow> 'v \<Rightarrow> ('v \<Rightarrow> 'v) \<Rightarrow> ('k \<times> 'v) list \<Rightarrow> ('k \<times> 'v) list" where
  "stat_access k fresh f xs =
     (k, f (case map_of xs k of Some t \<Rightarrow> t | None \<Rightarrow> fresh)) #
     take (PFD_STAT_COUNT - 1) (filter (\<lambda>p. fst p \<noteq> k) xs)"

text \<open>The entry of a process that was not in the queue; \<open>t\<close> is what the element held before.\<close>

definition fresh_stat :: "nat option \<times> int \<Rightarrow> pfd_stat \<Rightarrow> pfd_stat" where
  "fresh_stat k t = (reset_pfd_stat t)\<lparr>st_pid := snd k, st_tgt := fst k\<rparr>"

lemma search_simps:
  "queue_search_loop q dev pid None = Some None"
  "queue_search_loop q dev pid (Some i) =
     (if elm_key q i = (Some dev, pid) then Some (Some i)
      else if fst (elm_key q i) = None then Some None
      else queue_search_loop q dev pid (elm_nx q (Some i)))"
  by (simp_all add: queue_search_loop.simps [of _ _ _ None] queue_search_loop.simps [of _ _ _ "Some i"]
      elm_key_def elm_nx_def)

lemma search_loop:
  assumes "seg (elm_nx q) h (map Some (us @ fs)) None"
    and "\<forall>i \<in> set us. fst (elm_key q i) \<noteq> None" and "\<forall>i \<in> set fs. fst (elm_key q i) = None"
  shows "queue_search_loop q dev pid h = Some (find (\<lambda>i. elm_key q i = (Some dev, pid)) us)"
  using assms
proof (induction us arbitrary: h)
  case Nil
  then show ?case by (cases fs) (auto simp: search_simps)
next
  case (Cons i us)
  then show ?case by (auto simp: search_simps)
qed

lemma queue_search:
  assumes "queue_inv q us fs"
  shows "pfd_stat_queue_search q dev pid = Some (find (\<lambda>i. elm_key q i = (Some dev, pid)) us)"
  using assms search_loop [of q "stat_head q" us fs]
  by (simp add: pfd_stat_queue_search_def queue_inv_def linked_def dll_def)

lemma queue_length:
  assumes "queue_inv q us fs"
  shows "length us + length fs = PFD_STAT_COUNT" and "distinct (us @ fs)"
proof -
  show "distinct (us @ fs)"
    using assms dll_distinct [of None _ _ _ _ "map Some (us @ fs)"]
    by (auto simp: queue_inv_def linked_def distinct_map)
  from distinct_card [OF this] assms show "length us + length fs = PFD_STAT_COUNT"
    by (simp add: queue_inv_def)
qed

section \<open>The empty queue\<close>

lemma reset_fold:
  "stat_elms (fold reset_queue_elm [0..<n] q) i =
     (if i < n then (reset_pfd_stat_elm (stat_elms q i))
        \<lparr>elm_prev := (if i \<noteq> 0 then Some (i - 1) else None),
         elm_next := (if i \<noteq> PFD_STAT_COUNT - 1 then Some (i + 1) else None)\<rparr>
      else stat_elms q i)"
  by (induction n) (auto simp: reset_queue_elm_def upd_elm_def)

lemma seg_upt:
  assumes "\<And>i. i < n \<Longrightarrow> nx (Some i) = (if i + 1 < n then Some (i + 1) else None)" and "m \<le> n"
  shows "seg nx (if m < n then Some m else None) (map Some [m..<n]) None"
  using assms(2)
proof (induction "n - m" arbitrary: m)
  case (Suc l)
  then have "m < n" "l = n - (m + 1)" "m + 1 \<le> n" by auto
  with Suc.hyps(1) [OF this(2,3)] assms(1) [of m] show ?case
    by (simp add: upt_conv_Cons)
qed simp

lemma seg_upt_rev:
  assumes "\<And>i. i < n \<Longrightarrow> pv (Some i) = (if i \<noteq> 0 then Some (i - 1) else None)"
  shows "seg pv (if 0 < n then Some (n - 1) else None) (map Some (rev [0..<n])) None"
  using assms by (induction n) auto

lemma reset_queue_inv: "queue_inv (reset_pfd_stat_queue q) [] [0..<PFD_STAT_COUNT]"
proof -
  let ?q = "reset_pfd_stat_queue q"
  have pos: "0 < PFD_STAT_COUNT" by (simp add: PFD_STAT_COUNT_def)
  have "seg (elm_nx ?q) (if 0 < PFD_STAT_COUNT then Some 0 else None) (map Some [0..<PFD_STAT_COUNT]) None"
    by (rule seg_upt) (auto simp: elm_nx_def reset_pfd_stat_queue_def reset_fold)
  moreover have "seg (elm_pv ?q) (if 0 < PFD_STAT_COUNT then Some (PFD_STAT_COUNT - 1) else None)
      (map Some (rev [0..<PFD_STAT_COUNT])) None"
    by (rule seg_upt_rev) (simp add: elm_pv_def reset_pfd_stat_queue_def reset_fold)
  moreover have "stat_head ?q = Some 0" "stat_tail ?q = Some (PFD_STAT_COUNT - 1)"
    by (simp_all add: reset_pfd_stat_queue_def)
  moreover have "fst (elm_key ?q i) = None" if "i < PFD_STAT_COUNT" for i
    using that by (simp add: elm_key_def reset_pfd_stat_queue_def reset_fold reset_pfd_stat_elm_def
        reset_pfd_stat_def upd_seq_stat_def)
  ultimately show ?thesis
    using pos by (auto simp: queue_inv_def linked_def dll_def rev_map distinct_map)
qed

section \<open>An update is an access\<close>

lemma stat_step_key [simp]:
  "st_tgt (pfd_stat_step bs sh k t) = st_tgt t" "st_pid (pfd_stat_step bs sh k t) = st_pid t"
  by (simp_all add: pfd_stat_step_def Let_def upd_seq_stat_def no_stride_def restart_run_def
      swap_pfd_stat_curr_prev_def)

text \<open>The element of the process moves to the front and its statistics change.\<close>

lemma front_inv:
  assumes inv: "linked q (xs @ i # ys)" "set (xs @ i # ys) = {..<PFD_STAT_COUNT}" "xs @ ys = us @ fs"
    and used: "\<forall>x \<in> set us. fst (elm_key q x) \<noteq> None" "\<forall>x \<in> set fs. fst (elm_key q x) = None"
    and keys: "distinct (map (elm_key q) us)" "elm_key q i \<notin> elm_key q ` set us" "fst (elm_key q i) \<noteq> None"
    and step: "\<And>t. st_tgt (f t) = st_tgt t" "\<And>t. st_pid (f t) = st_pid t"
  shows "\<exists>q'. map_option (upd_elm i (\<lambda>x. x\<lparr>stat := f (stat x)\<rparr>)) (pfd_stat_elm_to_head i q) = Some q' \<and>
    queue_inv q' (i # us) fs \<and> stat (stat_elms q' i) = f (stat (stat_elms q i)) \<and>
    processes q' (i # us) = (elm_key q i, f (stat (stat_elms q i))) # processes q us"
proof -
  from to_head [OF inv(1)] obtain q1 where
    1: "pfd_stat_elm_to_head i q = Some q1" "linked q1 (i # xs @ ys)" "\<And>k. stat (stat_elms q1 k) = stat (stat_elms q k)"
    by blast
  define q' where "q' = upd_elm i (\<lambda>x. x\<lparr>stat := f (stat x)\<rparr>) q1"
  have stats: "stat (stat_elms q' x) = (if x = i then f (stat (stat_elms q i)) else stat (stat_elms q x))" for x
    by (simp add: q'_def upd_elm_def 1(3))
  then have key: "elm_key q' x = elm_key q x" for x
    by (simp add: elm_key_def step)
  have "distinct (i # xs @ ys)"
    using dll_distinct [OF 1(2) [unfolded linked_def]] by (simp only: distinct_map)
  then have i: "i \<notin> set us" by (simp add: inv(3))
  have "linked q' (i # us @ fs)"
    using 1(2) inv(3) by (simp add: q'_def upd_stat_linked)
  moreover have "set (i # us @ fs) = {..<PFD_STAT_COUNT}"
    using inv(2) arg_cong [OF inv(3), of set] by auto
  moreover have "elm_key q' = elm_key q" using key by blast
  ultimately have "queue_inv q' (i # us) fs"
    using used keys by (simp add: queue_inv_def)
  moreover have "processes q' (i # us) = (elm_key q i, f (stat (stat_elms q i))) # processes q us"
    using i by (simp add: processes_def key stats)
  ultimately show ?thesis
    using 1(1) stats by (auto simp: q'_def)
qed

lemma find_key:
  assumes "distinct (map (elm_key q) us)"
  shows "find (\<lambda>i. elm_key q i = k) us = Some i \<longleftrightarrow> i \<in> set us \<and> elm_key q i = k"
    and "find (\<lambda>i. elm_key q i = k) us = None \<longleftrightarrow> k \<notin> elm_key q ` set us"
proof -
  show "find (\<lambda>i. elm_key q i = k) us = Some i \<longleftrightarrow> i \<in> set us \<and> elm_key q i = k"
    using assms by (induction us) auto
  show "find (\<lambda>i. elm_key q i = k) us = None \<longleftrightarrow> k \<notin> elm_key q ` set us"
    by (auto simp: find_None_iff)
qed

lemma processes_other:
  assumes "k \<notin> elm_key q ` set us"
  shows "filter (\<lambda>p. fst p \<noteq> k) (processes q us) = processes q us"
  using assms by (intro filter_True) (auto simp: processes_def)

lemma access_hit:
  assumes "length (us @ i # vs) \<le> PFD_STAT_COUNT" and "distinct (map (elm_key q) (us @ i # vs))"
  shows "stat_access (elm_key q i) t f (processes q (us @ i # vs)) =
    (elm_key q i, f (stat (stat_elms q i))) # processes q (us @ vs)"
proof -
  note out = processes_other [of "elm_key q i" q]
  have "map_of (processes q (us @ i # vs)) (elm_key q i) = Some (stat (stat_elms q i))"
    using assms(2) by (intro map_of_is_SomeI) (auto simp: processes_def comp_def)
  moreover have "filter (\<lambda>p. fst p \<noteq> elm_key q i) (processes q (us @ i # vs)) = processes q (us @ vs)"
    using assms(2) out [of us] out [of vs] by (simp add: processes_def)
  ultimately show ?thesis
    using assms(1) by (simp add: stat_access_def processes_def)
qed

lemma access_miss:
  assumes "k \<notin> elm_key q ` set us"
  shows "stat_access k t f (processes q us) = (k, f t) # processes q (take (PFD_STAT_COUNT - 1) us)"
proof -
  have "map_of (processes q us) k = None"
    using assms by (auto simp: processes_def map_of_eq_None_iff)
  moreover note processes_other [OF assms]
  ultimately show ?thesis by (simp add: stat_access_def processes_def take_map)
qed

definition stat_key :: "cache_c \<Rightarrow> nat option \<times> int" where
  "stat_key d = (Some (tgt d), current_pid (kernel d))"

definition key_stat :: "cache_c \<Rightarrow> sector \<Rightarrow> pfd_stat \<Rightarrow> pfd_stat" where
  "key_stat d k = pfd_stat_step (block_size d) (block_shift d) k"

text \<open>The last two steps of \<open>pfd_stat_update\<close> on the element \<open>e\<close>.\<close>

lemma stat_update_found:
  assumes "find (\<lambda>i. elm_key (main_queue d) i = stat_key d) us = Some e" and "queue_inv (main_queue d) us fs"
    and "map_option (upd_elm e (\<lambda>x. x\<lparr>stat := key_stat d (bi_sector b) (stat x)\<rparr>))
      (pfd_stat_elm_to_head e (main_queue d)) = Some q'"
  shows "pfd_stat_update b d = Some (stat_info (bi_sector b) (stat (stat_elms q' e)), d\<lparr>main_queue := q'\<rparr>)"
  using assms queue_search [OF assms(2), of "tgt d" "current_pid (kernel d)"]
  by (auto simp: pfd_stat_update_def Let_def stat_key_def key_stat_def map_option_case split: option.splits)

lemma stat_update_new:
  assumes "find (\<lambda>i. elm_key (main_queue d) i = stat_key d) us = None" and "queue_inv (main_queue d) us fs"
    and "stat_tail (main_queue d) = Some e"
    and "map_option (upd_elm e (\<lambda>x. x\<lparr>stat := key_stat d (bi_sector b) (stat x)\<rparr>)) (pfd_stat_elm_to_head e
      (upd_elm e (\<lambda>x. x\<lparr>stat := fresh_stat (stat_key d) (stat x)\<rparr>) (main_queue d))) = Some q'"
  shows "pfd_stat_update b d = Some (stat_info (bi_sector b) (stat (stat_elms q' e)), d\<lparr>main_queue := q'\<rparr>)"
  using assms queue_search [OF assms(2), of "tgt d" "current_pid (kernel d)"]
  by (auto simp: pfd_stat_update_def Let_def stat_key_def key_stat_def fresh_stat_def map_option_case
      split: option.splits)

lemma key_stat_key [simp]: "st_tgt (key_stat d k t) = st_tgt t" "st_pid (key_stat d k t) = st_pid t"
  by (simp_all add: key_stat_def)

lemma stat_update:
  assumes inv: "queue_inv (main_queue d) us fs"
  shows "\<exists>t us' fs' q'. queue_inv q' us' fs' \<and>
    processes q' us' =
      stat_access (stat_key d) (fresh_stat (stat_key d) t) (key_stat d (bi_sector b)) (processes (main_queue d) us) \<and>
    pfd_stat_update b d = Some (stat_info (bi_sector b) (snd (hd (processes q' us'))), d\<lparr>main_queue := q'\<rparr>)"
proof (cases "find (\<lambda>i. elm_key (main_queue d) i = stat_key d) us")
  case (Some e)
  let ?q = "main_queue d"
  have dk: "distinct (map (elm_key ?q) us)" using inv by (simp add: queue_inv_def)
  from Some find_key(1) [OF dk] have e: "e \<in> set us" and k: "elm_key ?q e = stat_key d" by auto
  then obtain xs ys where us: "us = xs @ e # ys" by (meson split_list)
  have "linked ?q (xs @ e # (ys @ fs))" "set (xs @ e # (ys @ fs)) = {..<PFD_STAT_COUNT}" "xs @ (ys @ fs) = (xs @ ys) @ fs"
    "\<forall>x \<in> set (xs @ ys). fst (elm_key ?q x) \<noteq> None" "\<forall>x \<in> set fs. fst (elm_key ?q x) = None"
    "distinct (map (elm_key ?q) (xs @ ys))" "elm_key ?q e \<notin> elm_key ?q ` set (xs @ ys)" "fst (elm_key ?q e) \<noteq> None"
    using inv us by (auto simp: queue_inv_def)
  from front_inv [OF this, of "key_stat d (bi_sector b)"] obtain q' where
    1: "map_option (upd_elm e (\<lambda>x. x\<lparr>stat := key_stat d (bi_sector b) (stat x)\<rparr>)) (pfd_stat_elm_to_head e ?q) = Some q'"
      "queue_inv q' (e # xs @ ys) fs" "stat (stat_elms q' e) = key_stat d (bi_sector b) (stat (stat_elms ?q e))"
      "processes q' (e # xs @ ys) = (elm_key ?q e, key_stat d (bi_sector b) (stat (stat_elms ?q e))) # processes ?q (xs @ ys)"
    by auto
  have "stat_access (stat_key d) t (key_stat d (bi_sector b)) (processes ?q us) = processes q' (e # xs @ ys)" for t
    using access_hit [of xs e ys ?q] queue_length(1) [OF inv] dk 1(4) us k by simp
  moreover have "stat (stat_elms q' e) = snd (hd (processes q' (e # xs @ ys)))" by (simp add: processes_def)
  ultimately show ?thesis using stat_update_found [OF Some inv 1(1)] 1(2) by metis
next
  case None
  let ?q = "main_queue d" and ?k = "stat_key d"
  have new: "?k \<notin> elm_key ?q ` set us"
    using None find_key(2) [of ?q us ?k] inv by (simp add: queue_inv_def)
  from queue_length(1) [OF inv] have "us @ fs \<noteq> []" by (auto simp: PFD_STAT_COUNT_def)
  then obtain zs e where ze: "us @ fs = zs @ [e]" by (metis rev_exhaust)
  have link: "linked ?q (zs @ [e])" and dist: "e \<notin> set zs"
    using inv queue_length(2) [OF inv] by (simp_all add: queue_inv_def ze)
  from dll_tail [OF link [unfolded linked_def]] have tail: "stat_tail ?q = Some e"
    by (simp add: last_or_def)
  define r where "r = fresh_stat ?k (stat (stat_elms ?q e))"
  define q1 where "q1 = upd_elm e (\<lambda>x. x\<lparr>stat := fresh_stat ?k (stat x)\<rparr>) ?q"
  define vs where "vs = take (PFD_STAT_COUNT - 1) us"
  define gs where "gs = butlast fs"
  have vg: "zs = vs @ gs"
  proof (cases "fs = []")
    case True
    with queue_length(1) [OF inv] ze show ?thesis
      by (simp add: vs_def gs_def)
  next
    case False
    with queue_length(1) [OF inv] have "vs = us" by (cases fs) (auto simp: vs_def)
    with False ze show ?thesis by (metis butlast_append butlast_snoc gs_def)
  qed
  have key: "elm_key q1 x = (if x = e then ?k else elm_key ?q x)" for x
    by (simp add: q1_def upd_elm_def elm_key_def fresh_stat_def)
  have others: "stat_elms q1 x = stat_elms ?q x" if "x \<noteq> e" for x
    using that by (simp add: q1_def upd_elm_def)
  have sub: "set vs \<subseteq> set us" "set gs \<subseteq> set fs" "e \<notin> set vs" "e \<notin> set gs"
    using dist by (auto simp: vs_def gs_def vg dest: in_set_takeD in_set_butlastD)
  have same: "elm_key q1 ` set vs = elm_key ?q ` set vs" "map (elm_key q1) vs = map (elm_key ?q) vs"
    using sub(3) by (auto simp: key image_iff)
  have "linked q1 (zs @ [e])" using link by (simp add: q1_def upd_stat_linked)
  moreover have "set (zs @ [e]) = {..<PFD_STAT_COUNT}" "zs @ [] = vs @ gs"
    using inv by (simp_all add: queue_inv_def ze vg)
  moreover have "\<forall>x \<in> set vs. fst (elm_key q1 x) \<noteq> None" "\<forall>x \<in> set gs. fst (elm_key q1 x) = None"
    using inv sub by (auto simp: queue_inv_def key stat_key_def)
  moreover have "distinct (map (elm_key q1) vs)"
    using inv unfolding same(2) by (simp add: queue_inv_def vs_def take_map [symmetric])
  moreover have "elm_key q1 e \<notin> elm_key q1 ` set vs"
    using new sub(1) unfolding same(1) by (auto simp: key)
  moreover have "fst (elm_key q1 e) \<noteq> None" by (simp add: key stat_key_def)
  moreover have "stat (stat_elms q1 e) = r" by (simp add: q1_def r_def upd_elm_def)
  moreover have "elm_key q1 e = ?k" by (simp add: key)
  ultimately obtain q' where
    1: "map_option (upd_elm e (\<lambda>x. x\<lparr>stat := key_stat d (bi_sector b) (stat x)\<rparr>)) (pfd_stat_elm_to_head e q1) = Some q'"
      "queue_inv q' (e # vs) gs" "processes q' (e # vs) = (?k, key_stat d (bi_sector b) r) # processes q1 vs"
      "stat (stat_elms q' e) = key_stat d (bi_sector b) r"
    using front_inv [of q1 zs e "[]" vs gs "key_stat d (bi_sector b)"] by auto
  have "processes q1 vs = processes ?q vs"
  proof (unfold processes_def, rule map_cong)
    fix x assume "x \<in> set vs"
    with sub(3) have "x \<noteq> e" by blast
    then show "(elm_key q1 x, stat (stat_elms q1 x)) = (elm_key ?q x, stat (stat_elms ?q x))"
      by (simp add: key others)
  qed simp
  with 1(3) access_miss [OF new] have
    "processes q' (e # vs) = stat_access ?k r (key_stat d (bi_sector b)) (processes ?q us)"
    by (simp add: vs_def)
  moreover have "stat (stat_elms q' e) = snd (hd (processes q' (e # vs)))" by (simp add: processes_def)
  ultimately show ?thesis
    using stat_update_new [OF None inv tail 1(1) [unfolded q1_def]] 1(2) unfolding r_def by metis
qed

end
