(* ===== verification/Read_Ahead.thy ===== *)
theory Read_Ahead
  imports Read_Frame Stat_Queue Run
begin

text \<open>
  The prefetcher in the driver as a whole. The queue of the access statistics keeps its invariant in every
  reachable state, so each read updates it as an access to the map of theory \<open>Stat_Queue\<close>. And what the
  prefetcher has read is never withdrawn by a write: the steps of the driver that are not reads or the
  prefetcher's own leave its cache alone, so a read after a write is served the block as it was before.
\<close>

section \<open>The statistics in reachable states\<close>

interpretation queue: reader_frame main_queue
  by unfold_locales simp_all

definition queue_ok :: "cache_c \<Rightarrow> bool" where
  "queue_ok d \<longleftrightarrow> (\<exists>us fs. queue_inv (main_queue d) us fs)"

lemma stat_update_ok:
  assumes "queue_ok d"
  shows "\<exists>info q. pfd_stat_update b d = Some (info, d\<lparr>main_queue := q\<rparr>) \<and> queue_ok (d\<lparr>main_queue := q\<rparr>)"
proof -
  from assms obtain us fs where "queue_inv (main_queue d) us fs" by (auto simp: queue_ok_def)
  from stat_update [OF this, of b] show ?thesis by (auto simp: queue_ok_def)
qed

lemma stat_init_ok: "queue_ok (pfd_stat_init d)"
  using reset_queue_inv by (auto simp: queue_ok_def pfd_stat_init_def)

lemma queue_ok_cong: "main_queue d' = main_queue d \<Longrightarrow> queue_ok d' = queue_ok d"
  by (simp add: queue_ok_def)

lemma map_queue_ok:
  assumes "flashcache_map b d = Some (r, d')" and "queue_ok d"
  shows "queue_ok d'"
  using queue.map_kept [OF assms(1)]
proof (elim disjE exE conjE)
  fix info d1 d2
  assume 1: "main_queue d1 = main_queue d" "pfd_stat_update b d1 = Some (info, d2)" "main_queue d' = main_queue d2"
  from assms(2) have "queue_ok d1" by (simp add: queue_ok_cong [OF 1(1)])
  from stat_update_ok [OF this, of b] 1(2) have "queue_ok d2" by auto
  then show ?thesis by (simp add: queue_ok_cong [OF 1(3)])
qed (use assms(2) queue_ok_cong in blast)

lemma reset_queue_ok: "queue_ok (prefetchd_reset d)"
  using queue.pfd_reset_kept [of "pfd_stat_init d"] stat_init_ok [of d]
  by (simp add: prefetchd_reset_def queue_ok_def)

lemma step_queue_ok:
  assumes "driver_step new d d'" and "queue_ok d"
  shows "queue_ok d'"
proof -
  have "queue_ok d' \<or> main_queue d' = main_queue d"
    using assms
    by (cases rule: driver_step.cases)
      (auto intro: map_queue_ok reset_queue_ok dest: queue.work_kept queue.complete_io_kept queue.pfd_done_kept
        queue.wake_kept queue.message_kept queue.sync_sysctl_kept queue.clean_all_kept queue.hot_pct_kept
        queue.remove_turn_kept)
  with assms(2) queue_ok_cong show ?thesis by blast
qed

lemma reach_queue_ok: "driver_reach d0 acc d \<Longrightarrow> queue_ok d0 \<Longrightarrow> queue_ok d"
  by (induction rule: driver_reach.induct) (auto intro: step_queue_ok)

section \<open>The cache of the prefetcher under writes\<close>

text \<open>What decides how a read is served, and the requests that the prefetcher has at the devices.\<close>

definition read_ahead :: "cache_c \<Rightarrow> pfd_cache_set \<times> pfd_request list \<times> nat \<times> nat" where
  "read_ahead d = (main_cache_set d, pfd_inflight d, tgt d, block_shift d)"

interpretation ahead: driver_frame read_ahead
  by unfold_locales (simp_all add: read_ahead_def)

text \<open>The steps of the driver without reads, completions of prefetches, and the reset.\<close>

inductive write_step :: "bio list \<Rightarrow> cache_c \<Rightarrow> cache_c \<Rightarrow> bool" where
  Write: "flashcache_map b d = Some (r, d') \<Longrightarrow> bi_is_write b \<Longrightarrow>
    write_step (if r = DM_MAPIO_SUBMITTED then [b] else []) d d'"
| Run: "queue_of q d = job # rest \<Longrightarrow> run_job q job (pop_queue q d) = Some d' \<Longrightarrow> write_step [] d d'"
| Done: "complete_io n err err2 d = Some d' \<Longrightarrow> write_step [] d d'"
| Sync_all: "flashcache_sync_sysctl wr d = Some d' \<Longrightarrow> write_step [] d d'"
| Clean_sets: "flashcache_clean_all_sets d = Some d' \<Longrightarrow> write_step [] d d'"
| Set_tunable: "write_step [] d (sysctl_update f d)"
| Kernel: "write_step [] d (kernel_update h d)"

inductive write_reach :: "cache_c \<Rightarrow> bio list \<Rightarrow> cache_c \<Rightarrow> bool" for d0 where
  none: "write_reach d0 [] d0"
| next_step: "write_reach d0 acc d \<Longrightarrow> write_step new d d' \<Longrightarrow> write_reach d0 (acc @ new) d'"

lemma write_step_driver: "write_step new d d' \<Longrightarrow> driver_step new d d'"
  by (cases rule: write_step.cases) (auto intro: driver_step.intros)

lemma write_reach_driver: "write_reach d0 acc d \<Longrightarrow> driver_reach d0 acc d"
  by (induction rule: write_reach.induct) (auto intro: driver_reach.intros write_step_driver)

lemma write_step_ahead: "write_step new d d' \<Longrightarrow> read_ahead d' = read_ahead d"
  by (cases rule: write_step.cases)
    (auto dest: ahead.map_write_kept ahead.work_kept ahead.complete_io_kept ahead.sync_sysctl_kept
      ahead.clean_all_kept)

lemma write_reach_ahead: "write_reach d0 acc d \<Longrightarrow> read_ahead d = read_ahead d0"
  by (induction rule: write_reach.induct) (auto dest: write_step_ahead)

text \<open>The prefetcher holds a block.\<close>

definition prefetched :: "cache_c \<Rightarrow> sector \<Rightarrow> bool" where
  "prefetched d k \<longleftrightarrow>
     (case find_cache_in_cache_set d of
        None \<Rightarrow> False
      | Some c \<Rightarrow> let m = get_meta d c (dbn_to_cache_index d k)
                  in caches (main_cache_set d) c \<noteq> None \<and> meta_status m = pfd_valid \<and> meta_dbn m = k)"

lemma prefetched_cong: "read_ahead d' = read_ahead d \<Longrightarrow> prefetched d' k = prefetched d k"
  by (simp add: prefetched_def read_ahead_def find_cache_in_cache_set_def get_meta_def dbn_to_cache_index_def
      cong: option.case_cong)

text \<open>A read of such a block is answered at once, by nothing but the prefetcher's copy.\<close>

lemma prefetched_served:
  assumes "prefetched d (bi_sector b)"
  shows "\<exists>d'. pfd_cache_handle_bio b d = (Served, d') \<and> completed d' = completed d @ [(b, 0)] \<and>
    active_jobs d' = active_jobs d \<and> pfd_inflight d' = pfd_inflight d"
proof -
  from assms obtain c where c: "find_cache_in_cache_set d = Some c" "caches (main_cache_set d) c \<noteq> None"
    and m: "meta_status (get_meta d c (dbn_to_cache_index d (bi_sector b))) = pfd_valid"
      "meta_dbn (get_meta d c (dbn_to_cache_index d (bi_sector b))) = bi_sector b"
    by (auto simp: prefetched_def Let_def split: option.splits)
  have 1: "get_meta (upd_meta c i f d) c i = f (get_meta d c i)" for f i
    using c(2) by (auto simp: get_meta_def upd_meta_def)
  have 2: "completed (upd_meta c i f e) = completed e" "active_jobs (upd_meta c i f e) = active_jobs e"
    "pfd_inflight (upd_meta c i f e) = pfd_inflight e" for f i e
    by (simp_all add: upd_meta_def active_jobs_def)
  have 3: "active_jobs (completed_update f e) = active_jobs e" for f e
    by (simp add: active_jobs_def)
  show ?thesis
    using c(1) m by (simp add: pfd_cache_handle_bio_def Let_def pfd_finish_bio_def 1 2 3)
qed

lemma stale_read:
  assumes "write_reach d acc d'" and "prefetched d (bi_sector b)" and "queue_ok d"
  shows "\<exists>e. flashcache_read b d' = Some e \<and> completed e = completed d' @ [(b, 0)] \<and>
    active_jobs e = active_jobs d' \<and> pfd_inflight e = pfd_inflight d"
proof -
  from reach_queue_ok [OF write_reach_driver [OF assms(1)] assms(3)] stat_update_ok obtain info q where
    1: "pfd_stat_update b d' = Some (info, d'\<lparr>main_queue := q\<rparr>)" by blast
  have ra: "read_ahead (d'\<lparr>main_queue := q\<rparr>) = read_ahead d"
    using write_reach_ahead [OF assms(1)] by (simp add: read_ahead_def)
  with assms(2) have "prefetched (d'\<lparr>main_queue := q\<rparr>) (bi_sector b)"
    by (simp add: prefetched_cong [OF ra])
  from prefetched_served [OF this] obtain e where
    2: "pfd_cache_handle_bio b (d'\<lparr>main_queue := q\<rparr>) = (Served, e)"
      "completed e = completed (d'\<lparr>main_queue := q\<rparr>) @ [(b, 0)]"
      "active_jobs e = active_jobs (d'\<lparr>main_queue := q\<rparr>)" "pfd_inflight e = pfd_inflight (d'\<lparr>main_queue := q\<rparr>)"
    by blast
  have "flashcache_read b d' = Some e" by (simp add: flashcache_read_def 1 2(1) read_after_pfd_def)
  moreover have "active_jobs (d'\<lparr>main_queue := q\<rparr>) = active_jobs d'" by (simp add: active_jobs_def)
  moreover have "pfd_inflight (d'\<lparr>main_queue := q\<rparr>) = pfd_inflight d" using ra by (simp add: read_ahead_def)
  ultimately show ?thesis using 2(2-4) by simp
qed

section \<open>A run\<close>

text \<open>The demo cache with block 16 prefetched, and a write of the whole block around the cache.\<close>

definition demo_ahead :: cache_c where
  "demo_ahead = demo\<lparr>main_cache_set :=
       \<lparr>pfd_count = 1, status_arr = (\<lambda>i. if i = 0 then set_valid else set_empty),
        dmc_arr = (\<lambda>i. if i = 0 then Some (tgt demo) else None),
        caches = (\<lambda>i. if i = 0 then Some \<lparr>pfd_dmc = tgt demo,
          metas = (\<lambda>i. if i = 2 then demo_meta\<lparr>meta_dbn := 16, meta_status := pfd_valid\<rparr> else demo_meta)\<rparr>
          else None)\<rparr>,
     main_queue := reset_pfd_stat_queue (main_queue demo)\<rparr>"

definition demo_ahead1 :: cache_c where "demo_ahead1 = snd (the (flashcache_map demo_block_bio demo_ahead))"
definition demo_ahead2 :: cache_c where "demo_ahead2 = the (complete_io 0 False False demo_ahead1)"

definition demo_ahead3 :: cache_c where
  "demo_ahead3 = the (run_job Uncached_complete (hd (queue_of Uncached_complete demo_ahead2))
     (pop_queue Uncached_complete demo_ahead2))"

definition demo_read_bio :: bio where
  "demo_read_bio = \<lparr>bi_id = 3, bi_sector = 16, bi_size = 4096, bi_is_write = False, bi_barrier = False\<rparr>"

lemmas ahead_run = demo_run demo_ahead_def flashcache_uncacheable_def flashcache_find_pid_locked_def pids_def
  skip_sequential_io_def

lemma demo_ahead_ok: "queue_ok demo_ahead" "prefetched demo_ahead 16"
proof -
  show "queue_ok demo_ahead"
    using reset_queue_inv by (auto simp: queue_ok_def demo_ahead_def)
  show "prefetched demo_ahead 16"
    by (simp add: prefetched_def demo_ahead_def demo_def zero_cache_c_def find_cache_in_cache_set_def
        PFD_CACHE_COUNT_PER_SET_def upt_rec get_meta_def dbn_to_cache_index_def PFD_CACHE_BLOCKS_def)
qed

lemma demo_ahead_reach: "write_reach demo_ahead [demo_block_bio] demo_ahead3"
proof -
  have "flashcache_map demo_block_bio demo_ahead = Some (DM_MAPIO_SUBMITTED, demo_ahead1)"
    unfolding demo_ahead1_def by (simp add: ahead_run)
  from next_step [OF none Write [OF this]]
  have 1: "write_reach demo_ahead [demo_block_bio] demo_ahead1" by simp
  have "complete_io 0 False False demo_ahead1 = Some demo_ahead2"
    unfolding demo_ahead2_def demo_ahead1_def by (simp add: ahead_run)
  from next_step [OF 1 Done [OF this]] have 2: "write_reach demo_ahead [demo_block_bio] demo_ahead2" by simp
  obtain job where "queue_of Uncached_complete demo_ahead2 = [job]"
    "run_job Uncached_complete job (pop_queue Uncached_complete demo_ahead2) = Some demo_ahead3"
    unfolding demo_ahead3_def demo_ahead2_def demo_ahead1_def by (simp add: ahead_run)
  from next_step [OF 2 Run [OF this]] show ?thesis by simp
qed

lemma demo_ahead_sel: "completed demo_ahead3 = [(demo_block_bio, 0)]" "active_jobs demo_ahead3 = []"
  unfolding demo_ahead3_def demo_ahead2_def demo_ahead1_def by (simp_all add: ahead_run active_jobs_def)

end
