(* ===== verification/Kcopy.thy ===== *)
theory Kcopy
  imports Complete
begin

text \<open>
  The driver's own copy of dirty blocks to the disk (\<open>flashcache_kcopy.c\<close>, and the queues
  \<open>_cleaning_read_complete_jobs\<close> and \<open>_cleaning_write_complete_jobs\<close> of \<open>flashcache_subr.c\<close>): the blocks of a
  contiguous chain are read from flash one by one and written to the disk in one request. It is compiled but
  \<open>flashcache_clean_set\<close> does not call it, because of "some subtle bugs in this code where we leak copy jobs".
  Copy jobs are numbered; \<open>kc_jobs\<close> is the memory that holds them. A page that is freed twice, or a null page, is a panic.
\<close>

record copy_job =
  cj_nr_writes :: nat
  cj_reads_completed :: nat
  cj_write_kickoff :: bool
  cj_error :: int
  cj_page_base :: "nat \<Rightarrow> nat option"
  cj_job_base :: "nat \<Rightarrow> kcached_job option"
  cj_cache :: "nat \<Rightarrow> region"
  cj_disk :: region

record kcopy_io =
  ki_job :: nat
  ki_write :: bool
  ki_region :: region
  ki_pages :: "nat option list"

text \<open>
  The driver, the copy jobs, the free ones, the pages in use, the kernel's choice of a page, the requests at the
  devices and the two queues.
\<close>

record kcopy =
  kc_dmc :: cache_c
  kc_jobs :: "nat \<Rightarrow> copy_job"
  kcopy_jobs_head :: "nat list"
  kc_pages :: "nat list"
  kc_page_alloc :: "nat list \<Rightarrow> nat"
  kc_io :: "kcopy_io list"
  cleaning_read_complete_jobs :: "nat list"
  cleaning_write_complete_jobs :: "nat list"

abbreviation on_dmc :: "(cache_c \<Rightarrow> cache_c) \<Rightarrow> kcopy \<Rightarrow> kcopy" where
  "on_dmc f k \<equiv> k\<lparr>kc_dmc := f (kc_dmc k)\<rparr>"

definition lift_dmc :: "(cache_c \<Rightarrow> cache_c option) \<Rightarrow> kcopy \<Rightarrow> kcopy option" where
  "lift_dmc f k = map_option (\<lambda>d. k\<lparr>kc_dmc := d\<rparr>) (f (kc_dmc k))"

definition upd_copy_job :: "nat \<Rightarrow> (copy_job \<Rightarrow> copy_job) \<Rightarrow> kcopy \<Rightarrow> kcopy" where
  "upd_copy_job j f k = k\<lparr>kc_jobs := (kc_jobs k)(j := f (kc_jobs k j))\<rparr>"

section \<open>Pages and copy jobs\<close>

definition kc_alloc_page :: "kcopy \<Rightarrow> nat option \<times> kcopy" where
  "kc_alloc_page k =
     (let ok = alloc_ok (kc_dmc k); k = on_dmc alloc_next k; p = kc_page_alloc k (kc_pages k)
      in if ok then (Some p, k\<lparr>kc_pages := p # kc_pages k\<rparr>) else (None, k))"

definition kc_free_page :: "nat option \<Rightarrow> kcopy \<Rightarrow> kcopy option" where
  "kc_free_page page k = do {
     p \<leftarrow> page;
     verify (p \<in> set (kc_pages k));
     Some (k\<lparr>kc_pages := remove1 p (kc_pages k)\<rparr>)
   }"

text \<open>As built, the preallocation of the copy jobs is switched off.\<close>

definition flashcache_kcopy_init :: "kcopy \<Rightarrow> int \<times> kcopy" where
  "flashcache_kcopy_init k = (0, k\<lparr>kcopy_jobs_head := []\<rparr>)"

text \<open>The jobs that are released at the end: those in the pool.\<close>

definition flashcache_kcopy_destroy :: "kcopy \<Rightarrow> nat list" where
  "flashcache_kcopy_destroy k = kcopy_jobs_head k"

definition alloc_flashcache_copy_job :: "kcopy \<Rightarrow> nat option \<times> kcopy" where
  "alloc_flashcache_copy_job k =
     (case kcopy_jobs_head k of
        [] \<Rightarrow> (None, k)
      | j # js \<Rightarrow> (Some j, on_dmc (\<lambda>d. d\<lparr>nr_cache_jobs := nr_cache_jobs d + 1\<rparr>) (k\<lparr>kcopy_jobs_head := js\<rparr>)))"

definition job_pages :: "nat \<Rightarrow> nat \<Rightarrow> kcopy \<Rightarrow> nat option list" where
  "job_pages j n k = map (cj_page_base (kc_jobs k j)) [0..<n]"

definition free_flashcache_copy_job :: "nat \<Rightarrow> kcopy \<Rightarrow> kcopy option" where
  "free_flashcache_copy_job j k = do {
     k \<leftarrow> for_each kc_free_page (job_pages j (cj_nr_writes (kc_jobs k j)) k) k;
     Some (on_dmc (\<lambda>d. d\<lparr>nr_cache_jobs := nr_cache_jobs d - 1\<rparr>) (k\<lparr>kcopy_jobs_head := j # kcopy_jobs_head k\<rparr>))
   }"

text \<open>The cached jobs that the failed job made, as the code frees them: \<open>job_base[i]\<close> each time.\<close>

definition drop_cached_job :: "cache_c \<Rightarrow> cache_c" where
  "drop_cached_job d = (flashcache_free_cache_job d)\<lparr>nr_jobs := nr_jobs d - 1\<rparr>"

text \<open>The loop over the blocks of the chain, from block \<open>i\<close> on; \<open>False\<close> is the jump to \<open>nomem\<close>.\<close>

primrec fill_copy_job :: "nat \<Rightarrow> nat \<Rightarrow> dbn_index_pair list \<Rightarrow> kcopy \<Rightarrow> (bool \<times> kcopy) option" where
  "fill_copy_job j i [] k = Some (True, k)"
| "fill_copy_job j i (w # ws) k =
     (case kc_alloc_page k of
        (None, k) \<Rightarrow> do {
          let k = upd_copy_job j (\<lambda>c. c\<lparr>cj_page_base := (cj_page_base c)(i := None)\<rparr>) k;
          k \<leftarrow> for_each kc_free_page (job_pages j i k) k;
          Some (False, k)
        }
      | (Some p, k) \<Rightarrow>
          let k = upd_copy_job j (\<lambda>c. c\<lparr>cj_page_base := (cj_page_base c)(i := Some p)\<rparr>) k;
              (job, d) = new_kcached_job None (Some (snd w)) (kc_dmc k);
              k = upd_copy_job j (\<lambda>c. c\<lparr>cj_job_base := (cj_job_base c)(i := job)\<rparr>) (k\<lparr>kc_dmc := d\<rparr>);
              k = on_dmc (\<lambda>d. d\<lparr>nr_jobs := nr_jobs d + 1\<rparr>) k
          in if job = None
             then do {
               k \<leftarrow> for_each kc_free_page (job_pages j (i + 1) k) k;
               Some (False, on_dmc (drop_cached_job ^^ i) k)
             }
             else fill_copy_job j (i + 1) ws k)"

definition set_copy_regions :: "dbn_index_pair list \<Rightarrow> cache_c \<Rightarrow> copy_job \<Rightarrow> copy_job" where
  "set_copy_regions ws d c = c\<lparr>
     cj_cache := (\<lambda>i. if i < length ws
        then (CacheDev, INDEX_TO_CACHE_ADDR d (snd (ws ! i)), of_nat (block_size d)) else cj_cache c i),
     cj_disk := (DiskDev, fst (ws ! 0), of_nat (block_size d * length ws))\<rparr>"

definition new_flashcache_copy_job :: "dbn_index_pair list \<Rightarrow> kcopy \<Rightarrow> (nat option \<times> kcopy) option" where
  "new_flashcache_copy_job ws k =
     (case alloc_flashcache_copy_job k of
        (None, k) \<Rightarrow> Some (None, k)
      | (Some j, k) \<Rightarrow> do {
          let k = upd_copy_job j (\<lambda>c. c\<lparr>cj_nr_writes := length ws, cj_reads_completed := 0,
                    cj_write_kickoff := False, cj_error := 0\<rparr>) k;
          (ok, k) \<leftarrow> fill_copy_job j 0 ws k;
          if ok then Some (Some j, upd_copy_job j (set_copy_regions ws (kc_dmc k)) k)
          else do {
            k \<leftarrow> free_flashcache_copy_job j k;
            Some (None, k)
          }
        })"

section \<open>Completions\<close>

definition CACHE_ADDR_TO_INDEX :: "cache_c \<Rightarrow> sector \<Rightarrow> nat" where
  "CACHE_ADDR_TO_INDEX d a = unat (drop_bit (block_shift d) (a - of_nat (md_blocks d * md_block_size d)))"

definition submit_kcopy :: "nat \<Rightarrow> bool \<Rightarrow> region \<Rightarrow> nat option list \<Rightarrow> kcopy \<Rightarrow> kcopy" where
  "submit_kcopy j write r pages k =
     k\<lparr>kc_io := kc_io k @ [\<lparr>ki_job = j, ki_write = write, ki_region = r, ki_pages = pages\<rparr>]\<rparr>"

definition job_block :: "nat \<Rightarrow> nat \<Rightarrow> kcopy \<Rightarrow> nat" where
  "job_block j i k = CACHE_ADDR_TO_INDEX (kc_dmc k) (fst (snd (cj_cache (kc_jobs k j) i)))"

definition set_job_action :: "nat \<Rightarrow> nat \<Rightarrow> (kcached_job \<Rightarrow> kcached_job) \<Rightarrow> kcopy \<Rightarrow> kcopy" where
  "set_job_action j i f =
     upd_copy_job j (\<lambda>c. c\<lparr>cj_job_base := (cj_job_base c)(i := map_option f (cj_job_base c i))\<rparr>)"

definition copy_error_one :: "nat \<Rightarrow> nat \<Rightarrow> nat \<Rightarrow> kcopy \<Rightarrow> kcopy option" where
  "copy_error_one j cset i k = do {
     let index = job_block j i k;
     let k = set_job_action j i (\<lambda>x. x\<lparr>job_action := WRITEDISK, job_error := - EIO\<rparr>) k;
     job \<leftarrow> cj_job_base (kc_jobs k j) i;
     let d = kc_dmc k;
     verify (state_of d index AND (DISKWRITEINPROG OR VALID OR DIRTY) \<noteq> 0);
     verify (set_clean_inprog (cache_sets d cset) > 0);
     let d = upd_set cset (\<lambda>c. c\<lparr>set_clean_inprog := set_clean_inprog c - 1\<rparr>) d;
     verify (clean_inprog d > 0);
     let d = d\<lparr>clean_inprog := clean_inprog d - 1\<rparr>;
     d \<leftarrow> flashcache_do_pending job d;
     Some (k\<lparr>kc_dmc := d\<rparr>)
   }"

definition flashcache_handle_read_write_error :: "nat \<Rightarrow> kcopy \<Rightarrow> kcopy option" where
  "flashcache_handle_read_write_error j k = do {
     let cset = job_block j 0 k div assoc (kc_dmc k);
     k \<leftarrow> for_each (copy_error_one j cset) [0..<cj_nr_writes (kc_jobs k j)] k;
     k \<leftarrow> free_flashcache_copy_job j k;
     k \<leftarrow> lift_dmc (flashcache_clean_set cset 0) k;
     Some (on_dmc (bump cleanings_update) k)
   }"

definition copy_done_one :: "nat \<Rightarrow> nat \<Rightarrow> kcopy \<Rightarrow> kcopy option" where
  "copy_done_one j i k = do {
     let index = job_block j i k;
     let k = set_job_action j i (\<lambda>x. x\<lparr>job_action := WRITEDISK\<rparr>) k;
     job \<leftarrow> cj_job_base (kc_jobs k j) i;
     verify (state_of (kc_dmc k) index AND (DISKWRITEINPROG OR VALID OR DIRTY) \<noteq> 0);
     lift_dmc (flashcache_md_write job) k
   }"

definition flashcache_clean_md_write_kickoff :: "nat \<Rightarrow> kcopy \<Rightarrow> kcopy option" where
  "flashcache_clean_md_write_kickoff j k =
     (if cj_error (kc_jobs k j) \<noteq> 0 then flashcache_handle_read_write_error j k
      else do {
        k \<leftarrow> for_each (copy_done_one j) [0..<cj_nr_writes (kc_jobs k j)] k;
        free_flashcache_copy_job j k
      })"

definition push_cleaning_read_complete :: "nat \<Rightarrow> kcopy \<Rightarrow> kcopy" where
  "push_cleaning_read_complete j k =
     k\<lparr>cleaning_read_complete_jobs := cleaning_read_complete_jobs k @ [j]\<rparr>"

definition push_cleaning_write_complete :: "nat \<Rightarrow> kcopy \<Rightarrow> kcopy" where
  "push_cleaning_write_complete j k =
     k\<lparr>cleaning_write_complete_jobs := cleaning_write_complete_jobs k @ [j]\<rparr>"

definition flashcache_copy_data_write_callback :: "int \<Rightarrow> nat \<Rightarrow> kcopy \<Rightarrow> kcopy" where
  "flashcache_copy_data_write_callback error j k =
     (let k = (if error \<noteq> 0 then on_dmc (bump_error disk_write_errors_update) k else k)
      in push_cleaning_write_complete j (upd_copy_job j (\<lambda>c. c\<lparr>cj_error := error\<rparr>) k))"

definition flashcache_clean_write_kickoff :: "nat \<Rightarrow> kcopy \<Rightarrow> kcopy option" where
  "flashcache_clean_write_kickoff j k =
     (if cj_error (kc_jobs k j) \<noteq> 0 then flashcache_handle_read_write_error j k
      else Some (submit_kcopy j True (cj_disk (kc_jobs k j)) (job_pages j (cj_nr_writes (kc_jobs k j)) k) k))"

definition flashcache_copy_data_read_callback :: "int \<Rightarrow> nat \<Rightarrow> kcopy \<Rightarrow> kcopy option" where
  "flashcache_copy_data_read_callback error j k = do {
     let c = kc_jobs k j;
     verify (cj_reads_completed c < cj_nr_writes c);
     let c = c\<lparr>cj_reads_completed := cj_reads_completed c + 1\<rparr>;
     let do_write = (cj_reads_completed c = cj_nr_writes c \<and> \<not> cj_write_kickoff c);
     let c = (if do_write then c\<lparr>cj_write_kickoff := True\<rparr> else c);
     let c = (if error \<noteq> 0 then c\<lparr>cj_error := error\<rparr> else c);
     let k = (if error \<noteq> 0 then on_dmc (bump_error ssd_read_errors_update) k else k);
     let k = upd_copy_job j (\<lambda>_. c) k;
     Some (if do_write then push_cleaning_read_complete j k else k)
   }"

section \<open>Starting a copy\<close>

primrec flashcache_verify_chain :: "sector \<Rightarrow> dbn_index_pair list \<Rightarrow> bool" where
  "flashcache_verify_chain bs [] = True"
| "flashcache_verify_chain bs (w # ws) =
     ((case ws of [] \<Rightarrow> True | v # _ \<Rightarrow> fst w + bs = fst v) \<and> flashcache_verify_chain bs ws)"

primrec flashcache_verify_sorted :: "dbn_index_pair list \<Rightarrow> bool" where
  "flashcache_verify_sorted [] = True"
| "flashcache_verify_sorted (w # ws) =
     ((case ws of [] \<Rightarrow> True | v # _ \<Rightarrow> fst w < fst v) \<and> flashcache_verify_sorted ws)"

definition copy_failed_one :: "nat \<Rightarrow> cache_c \<Rightarrow> cache_c option" where
  "copy_failed_one index d = do {
     d \<leftarrow> flashcache_free_pending_jobs index (- EIO) d;
     Some (set_state index (state_of d index AND NOT BLOCK_IO_INPROG) d)
   }"

text \<open>One turn of the loop that starts the reads.\<close>

definition copy_read_one :: "nat \<Rightarrow> nat \<Rightarrow> dbn_index_pair list \<Rightarrow> nat \<Rightarrow> kcopy \<Rightarrow> kcopy option" where
  "copy_read_one j cset ws i k = do {
     let index = snd (ws ! i);
     let d = kc_dmc k;
     verify (state_of d index AND BLOCK_IO_INPROG = DISKWRITEINPROG);
     verify (state_of d index AND DIRTY \<noteq> 0);
     let d = upd_set cset (\<lambda>c. c\<lparr>set_clean_inprog := inc16 (set_clean_inprog c)\<rparr>) d;
     let d = d\<lparr>clean_inprog := clean_inprog d + 1\<rparr>;
     let d = bump disk_writes_update (bump ssd_reads_update d);
     Some (submit_kcopy j False (cj_cache (kc_jobs k j) i) [cj_page_base (kc_jobs k j) i] (k\<lparr>kc_dmc := d\<rparr>))
   }"

definition flashcache_copy_data_one_chain :: "nat \<Rightarrow> dbn_index_pair list \<Rightarrow> kcopy \<Rightarrow> (int \<times> kcopy) option" where
  "flashcache_copy_data_one_chain cset ws k = do {
     verify (flashcache_verify_chain (of_nat (block_size (kc_dmc k))) ws);
     (job, k) \<leftarrow> new_flashcache_copy_job ws k;
     (job, k) \<leftarrow> (if remove_in_prog (kc_dmc k) = FAST_REMOVE
        then (case job of
                None \<Rightarrow> Some (None, k)
              | Some j \<Rightarrow> do {
                  k \<leftarrow> free_flashcache_copy_job j (on_dmc (drop_cached_job ^^ length ws) k);
                  Some (None, k)
                })
        else Some (job, k));
     case job of
       None \<Rightarrow> do {
         k \<leftarrow> lift_dmc (for_each (\<lambda>w. copy_failed_one (snd w)) ws)
               (on_dmc (bump_error memory_alloc_errors_update) k);
         Some (1, k)
       }
     | Some j \<Rightarrow> do {
         k \<leftarrow> for_each (copy_read_one j cset ws) [0..<length ws] k;
         Some (0, k)
       }
   }"

text \<open>The length of the contiguous chain at the head of a list, and the chains of a list.\<close>

fun chain_length :: "sector \<Rightarrow> dbn_index_pair list \<Rightarrow> nat" where
  "chain_length bs [] = 0"
| "chain_length bs [w] = 1"
| "chain_length bs (w # v # ws) = (if fst v = fst w + bs then 1 + chain_length bs (v # ws) else 1)"

lemma chain_length_pos: "ws \<noteq> [] \<Longrightarrow> 0 < chain_length bs ws"
  by (cases "(bs, ws)" rule: chain_length.cases) auto

function copy_chains :: "sector \<Rightarrow> dbn_index_pair list \<Rightarrow> dbn_index_pair list list" where
  "copy_chains bs ws =
     (if ws = [] then []
      else let n = chain_length bs ws in take n ws # copy_chains bs (drop n ws))"
  by auto
termination by (relation "measure (\<lambda>(bs, ws). length ws)") (simp_all add: chain_length_pos)

declare copy_chains.simps [simp del]

definition flashcache_copy_data :: "nat \<Rightarrow> dbn_index_pair list \<Rightarrow> kcopy \<Rightarrow> kcopy option" where
  "flashcache_copy_data cset ws k = do {
     verify (flashcache_verify_sorted ws);
     for_each (\<lambda>chain k. map_option snd (flashcache_copy_data_one_chain cset chain k))
       (copy_chains (of_nat (block_size (kc_dmc k))) ws) k
   }"

section \<open>The worker's part\<close>

partial_function (option) process_read_complete :: "kcopy \<Rightarrow> kcopy option" where
  "process_read_complete k =
     (case cleaning_read_complete_jobs k of
        [] \<Rightarrow> Some k
      | j # js \<Rightarrow> Option.bind (flashcache_clean_write_kickoff j (k\<lparr>cleaning_read_complete_jobs := js\<rparr>))
                    process_read_complete)"

partial_function (option) process_write_complete :: "kcopy \<Rightarrow> kcopy option" where
  "process_write_complete k =
     (case cleaning_write_complete_jobs k of
        [] \<Rightarrow> Some k
      | j # js \<Rightarrow> Option.bind (flashcache_clean_md_write_kickoff j (k\<lparr>cleaning_write_complete_jobs := js\<rparr>))
                    process_write_complete)"

declare process_read_complete.simps [code] process_write_complete.simps [code]

definition do_clean_work :: "kcopy \<Rightarrow> kcopy option" where
  "do_clean_work k = Option.bind (process_read_complete k) process_write_complete"

end
