(* ===== verification/Kcopy_Spec.thy ===== *)
theory Kcopy_Spec
  imports Kcopy Demo
begin

text \<open>
  What the driver's own copy promises: the chains are the maximal contiguous runs of the list, the write starts
  once all reads are done and never before; and why it is switched off: each failed allocation of a copy job
  frees a page twice.
\<close>

section \<open>Chains\<close>

lemma chain_take: "flashcache_verify_chain bs (take (chain_length bs ws) ws)"
proof (induction bs ws rule: chain_length.induct)
  case (3 bs w v ws)
  then show ?case by (cases "chain_length bs (v # ws)") auto
qed auto

lemma chain_stops:
  assumes "drop (chain_length bs ws) ws = v # vs"
  shows "fst (last (take (chain_length bs ws) ws)) + bs \<noteq> fst v"
  using assms
proof (induction bs ws rule: chain_length.induct)
  case (3 bs w u ws)
  then show ?case
    using chain_length_pos [of "u # ws" bs] by (auto split: if_splits simp: take_Cons')
qed auto

definition contiguous_split :: "sector \<Rightarrow> dbn_index_pair list \<Rightarrow> dbn_index_pair list list \<Rightarrow> bool" where
  "contiguous_split bs ws cs \<longleftrightarrow> concat cs = ws \<and> (\<forall>c \<in> set cs. c \<noteq> [] \<and> flashcache_verify_chain bs c) \<and>
     (\<forall>as c1 c2 ds. cs = as @ c1 # c2 # ds \<longrightarrow> fst (last c1) + bs \<noteq> fst (hd c2))"

lemma copy_chains_step:
  "ws \<noteq> [] \<Longrightarrow> copy_chains bs ws = take (chain_length bs ws) ws # copy_chains bs (drop (chain_length bs ws) ws)"
  by (simp add: copy_chains.simps [of bs ws] Let_def)

lemma copy_chains_split: "contiguous_split bs ws (copy_chains bs ws)"
proof (induction bs ws rule: copy_chains.induct)
  case (1 bs ws)
  show ?case
  proof (cases "ws = []")
    case True
    then show ?thesis by (simp add: copy_chains.simps contiguous_split_def)
  next
    case False
    let ?n = "chain_length bs ws"
    define cs where "cs = copy_chains bs (drop ?n ws)"
    have split: "copy_chains bs ws = take ?n ws # cs"
      using False by (simp add: copy_chains_step cs_def)
    have ih: "contiguous_split bs (drop ?n ws) cs" using 1 False by (simp add: cs_def)
    have first: "take ?n ws \<noteq> []" using False chain_length_pos [OF False, of bs] by simp
    have "fst (last c1) + bs \<noteq> fst (hd c2)" if eq: "take ?n ws # cs = as @ c1 # c2 # ds" for as c1 c2 ds
    proof (cases as)
      case Nil
      with eq have c: "c1 = take ?n ws" "cs = c2 # ds" by auto
      with ih have "c2 \<noteq> []" "drop ?n ws = c2 @ concat ds" by (auto simp: contiguous_split_def)
      then have "drop ?n ws = hd c2 # (tl c2 @ concat ds)" by simp
      from chain_stops [OF this] c show ?thesis by simp
    next
      case (Cons a as')
      with eq have "cs = as' @ c1 # c2 # ds" by simp
      with ih show ?thesis unfolding contiguous_split_def by blast
    qed
    with ih first chain_take [of bs ws] show ?thesis
      unfolding split contiguous_split_def by auto
  qed
qed

text \<open>There is only one such split.\<close>

lemma chain_length_eq:
  assumes "c \<noteq> []" and "flashcache_verify_chain bs c" and "rest = [] \<or> fst (last c) + bs \<noteq> fst (hd rest)"
  shows "chain_length bs (c @ rest) = length c"
  using assms
proof (induction c)
  case (Cons w c)
  show ?case
  proof (cases c)
    case Nil
    with Cons.prems(3) show ?thesis by (cases rest) auto
  next
    case (Cons v c')
    with Cons.IH Cons.prems show ?thesis by auto
  qed
qed simp

lemma split_ConsD:
  assumes "contiguous_split bs ws (c # cs)"
  shows "ws = c @ concat cs" and "c \<noteq> []" and "flashcache_verify_chain bs c"
    and "contiguous_split bs (concat cs) cs" and "concat cs = [] \<or> fst (last c) + bs \<noteq> fst (hd (concat cs))"
proof -
  from assms have all: "\<forall>x \<in> set (c # cs). x \<noteq> [] \<and> flashcache_verify_chain bs x"
    and max: "c # cs = as @ c1 # c2 # ds \<Longrightarrow> fst (last c1) + bs \<noteq> fst (hd c2)" for as c1 c2 ds
    unfolding contiguous_split_def by blast+
  show "ws = c @ concat cs" using assms by (simp add: contiguous_split_def)
  show "c \<noteq> []" "flashcache_verify_chain bs c" using all by simp_all
  have "fst (last c1) + bs \<noteq> fst (hd c2)" if "cs = as @ c1 # c2 # ds" for as c1 c2 ds
    using max [of "c # as" c1 c2 ds] that by simp
  with all show "contiguous_split bs (concat cs) cs" by (simp add: contiguous_split_def)
  show "concat cs = [] \<or> fst (last c) + bs \<noteq> fst (hd (concat cs))"
  proof (cases cs)
    case (Cons c2 ds)
    with all max [of "[]" c c2 ds] show ?thesis by simp
  qed simp
qed

lemma split_unique: "contiguous_split bs ws cs \<Longrightarrow> cs = copy_chains bs ws"
proof (induction cs arbitrary: ws)
  case Nil
  then have "ws = []" by (simp add: contiguous_split_def)
  then show ?case by (simp add: copy_chains.simps [of bs "[]"])
next
  case (Cons c cs)
  note d = split_ConsD [OF Cons.prems]
  have n: "chain_length bs ws = length c" using chain_length_eq [OF d(2,3,5)] d(1) by simp
  have "ws \<noteq> []" using d(1,2) by simp
  from copy_chains_step [OF this, of bs] Cons.IH [OF d(4)] n d(1) show ?case by simp
qed

section \<open>Reads\<close>

definition read_callbacks :: "int list \<Rightarrow> nat \<Rightarrow> kcopy \<Rightarrow> kcopy option" where
  "read_callbacks errors j k = for_each (\<lambda>e. flashcache_copy_data_read_callback e j) errors k"

definition last_error :: "int \<Rightarrow> int list \<Rightarrow> int" where
  "last_error e errors = fold (\<lambda>x e. if x \<noteq> 0 then x else e) errors e"

lemma reads_then_write:
  assumes "c = kc_jobs k j" and "cj_reads_completed c + length errors \<le> cj_nr_writes c"
    and "cj_write_kickoff c \<longleftrightarrow> cj_reads_completed c = cj_nr_writes c"
  shows "\<exists>k'. read_callbacks errors j k = Some k' \<and>
    cj_reads_completed (kc_jobs k' j) = cj_reads_completed c + length errors \<and>
    cj_error (kc_jobs k' j) = last_error (cj_error c) errors \<and> cj_nr_writes (kc_jobs k' j) = cj_nr_writes c \<and>
    cleaning_read_complete_jobs k' = cleaning_read_complete_jobs k @
      (if errors \<noteq> [] \<and> cj_reads_completed c + length errors = cj_nr_writes c then [j] else []) \<and>
    cleaning_write_complete_jobs k' = cleaning_write_complete_jobs k \<and> kc_io k' = kc_io k \<and> kc_pages k' = kc_pages k"
  using assms
proof (induction errors arbitrary: k c)
  case Nil
  then show ?case by (simp add: read_callbacks_def last_error_def)
next
  case (Cons e errors)
  define k1 where "k1 = the (flashcache_copy_data_read_callback e j k)"
  define c1 where "c1 = kc_jobs k1 j"
  have less: "cj_reads_completed c < cj_nr_writes c" using Cons.prems(2) by simp
  have run: "flashcache_copy_data_read_callback e j k = Some k1"
    using less by (simp add: k1_def flashcache_copy_data_read_callback_def Let_def Cons.prems(1))
  have k1: "cj_reads_completed c1 = cj_reads_completed c + 1" "cj_nr_writes c1 = cj_nr_writes c"
    "cj_write_kickoff c1 \<longleftrightarrow> cj_reads_completed c1 = cj_nr_writes c1"
    "cj_error c1 = (if e \<noteq> 0 then e else cj_error c)"
    "cleaning_read_complete_jobs k1 = cleaning_read_complete_jobs k @
      (if cj_reads_completed c + 1 = cj_nr_writes c then [j] else [])"
    "cleaning_write_complete_jobs k1 = cleaning_write_complete_jobs k" "kc_io k1 = kc_io k" "kc_pages k1 = kc_pages k"
    using less Cons.prems(1,3)
    by (auto simp: c1_def k1_def flashcache_copy_data_read_callback_def Let_def upd_copy_job_def
        push_cleaning_read_complete_def)
  have "cj_reads_completed c1 + length errors \<le> cj_nr_writes c1" using Cons.prems(2) k1(1,2) by simp
  from Cons.IH [OF c1_def this k1(3)] obtain k' where
    2: "read_callbacks errors j k1 = Some k'"
      "cj_reads_completed (kc_jobs k' j) = cj_reads_completed c1 + length errors"
      "cj_error (kc_jobs k' j) = last_error (cj_error c1) errors" "cj_nr_writes (kc_jobs k' j) = cj_nr_writes c1"
      "cleaning_read_complete_jobs k' = cleaning_read_complete_jobs k1 @
        (if errors \<noteq> [] \<and> cj_reads_completed c1 + length errors = cj_nr_writes c1 then [j] else [])"
      "cleaning_write_complete_jobs k' = cleaning_write_complete_jobs k1" "kc_io k' = kc_io k1" "kc_pages k' = kc_pages k1"
    by blast
  have "read_callbacks (e # errors) j k = Some k'" using run 2(1) by (simp add: read_callbacks_def)
  moreover have "cj_reads_completed c + 1 = cj_nr_writes c \<Longrightarrow> errors = []"
    using Cons.prems(2) by (cases errors) auto
  ultimately show ?case
    using 2 k1 by (auto simp: last_error_def)
qed

lemma read_overrun:
  assumes "cj_reads_completed (kc_jobs k j) = cj_nr_writes (kc_jobs k j)"
  shows "flashcache_copy_data_read_callback e j k = None"
  using assms by (simp add: flashcache_copy_data_read_callback_def Let_def)

lemma reads_all:
  assumes "cj_reads_completed (kc_jobs k j) = 0" and "\<not> cj_write_kickoff (kc_jobs k j)"
    and "cj_error (kc_jobs k j) = 0" and "0 < cj_nr_writes (kc_jobs k j)"
  shows "if length errors \<le> cj_nr_writes (kc_jobs k j)
    then \<exists>k'. read_callbacks errors j k = Some k' \<and> cj_error (kc_jobs k' j) = last_error 0 errors \<and>
      cleaning_read_complete_jobs k' = cleaning_read_complete_jobs k @
        (if length errors = cj_nr_writes (kc_jobs k j) then [j] else []) \<and> kc_io k' = kc_io k
    else read_callbacks errors j k = None"
proof (cases "length errors \<le> cj_nr_writes (kc_jobs k j)")
  case True
  with reads_then_write [OF refl, of k j errors] assms show ?thesis by auto
next
  case False
  let ?n = "cj_nr_writes (kc_jobs k j)"
  from False obtain e es where es: "errors = take ?n errors @ e # es"
    by (metis Cons_nth_drop_Suc append_take_drop_id not_le)
  from reads_then_write [OF refl, of k j "take ?n errors"] assms False obtain k' where
    "read_callbacks (take ?n errors) j k = Some k'" "cj_reads_completed (kc_jobs k' j) = ?n"
    "cj_nr_writes (kc_jobs k' j) = ?n"
    by auto
  then have "read_callbacks (take ?n errors @ e # es) j k = None"
    by (simp add: read_callbacks_def for_each_append read_overrun)
  with es False show ?thesis by simp
qed

section \<open>Failed allocations\<close>

lemma free_page_some:
  "kc_free_page page k = Some k' \<longleftrightarrow>
     (\<exists>p. page = Some p \<and> p \<in> set (kc_pages k) \<and> k' = k\<lparr>kc_pages := remove1 p (kc_pages k)\<rparr>)"
  by (cases page) (auto simp: kc_free_page_def verify_def)

lemma free_pages_gone:
  assumes "for_each kc_free_page ps k = Some k'" and "distinct (kc_pages k)"
  shows "distinct (kc_pages k') \<and> set (kc_pages k') \<subseteq> set (kc_pages k) \<and>
    (\<forall>p. Some p \<in> set ps \<longrightarrow> p \<notin> set (kc_pages k')) \<and> kc_jobs k' = kc_jobs k"
  using assms
proof (induction ps arbitrary: k)
  case (Cons p ps)
  then obtain q k1 where 1: "p = Some q" "k1 = k\<lparr>kc_pages := remove1 q (kc_pages k)\<rparr>"
    "for_each kc_free_page ps k1 = Some k'"
    by (auto simp: bind_eq_Some_conv free_page_some)
  with Cons.IH [OF 1(3)] Cons.prems(2) show ?case by auto
qed simp

text \<open>What holds between the turns of the loop: the pages of the blocks before \<open>i\<close> are in use.\<close>

definition filling :: "nat \<Rightarrow> nat \<Rightarrow> kcopy \<Rightarrow> bool" where
  "filling j i k \<longleftrightarrow> distinct (kc_pages k) \<and> (\<forall>xs. kc_page_alloc k xs \<notin> set xs) \<and>
     (\<forall>x < i. cj_page_base (kc_jobs k j) x \<noteq> None)"

lemma fill_failed:
  assumes "fill_copy_job j i ws k = Some (False, k')" and "filling j i k"
  shows "(\<exists>x < i + length ws. case cj_page_base (kc_jobs k' j) x of None \<Rightarrow> True | Some p \<Rightarrow> p \<notin> set (kc_pages k')) \<and>
    cj_nr_writes (kc_jobs k' j) = cj_nr_writes (kc_jobs k j) \<and> distinct (kc_pages k')"
  using assms
proof (induction ws arbitrary: i k)
  case (Cons w ws)
  obtain page k1 where page: "kc_alloc_page k = (page, k1)" by force
  note fill = Cons.prems(2) [unfolded filling_def]
  show ?case
  proof (cases page)
    case None
    define k2 where "k2 = upd_copy_job j (\<lambda>c. c\<lparr>cj_page_base := (cj_page_base c)(i := None)\<rparr>) k1"
    from page None fill have "distinct (kc_pages k2)" "kc_jobs k1 = kc_jobs k"
      by (auto simp: kc_alloc_page_def Let_def k2_def upd_copy_job_def split: if_splits)
    moreover from Cons.prems(1) page None have "for_each kc_free_page (job_pages j i k2) k2 = Some k'"
      by (auto simp: k2_def Let_def bind_eq_Some_conv)
    ultimately show ?thesis
      using free_pages_gone [of "job_pages j i k2" k2 k'] by (auto simp: k2_def upd_copy_job_def)
  next
    case (Some p)
    define k2 where "k2 = upd_copy_job j (\<lambda>c. c\<lparr>cj_page_base := (cj_page_base c)(i := Some p)\<rparr>) k1"
    obtain job d where job: "new_kcached_job None (Some (snd w)) (kc_dmc k2) = (job, d)" by force
    define k3 where "k3 = on_dmc (\<lambda>d. d\<lparr>nr_jobs := nr_jobs d + 1\<rparr>)
      (upd_copy_job j (\<lambda>c. c\<lparr>cj_job_base := (cj_job_base c)(i := job)\<rparr>) (k2\<lparr>kc_dmc := d\<rparr>))"
    from page Some have "kc_jobs k1 = kc_jobs k" "kc_page_alloc k1 = kc_page_alloc k"
      "kc_pages k1 = kc_page_alloc k (kc_pages k) # kc_pages k"
      by (auto simp: kc_alloc_page_def Let_def split: if_splits)
    with fill have k3: "filling j (i + 1) k3" "cj_page_base (kc_jobs k3 j) i = Some p"
      "cj_nr_writes (kc_jobs k3 j) = cj_nr_writes (kc_jobs k j)"
      by (auto simp: filling_def k2_def k3_def upd_copy_job_def less_Suc_eq)
    show ?thesis
    proof (cases job)
      case None
      with Cons.prems(1) page Some job obtain k4 where
        4: "for_each kc_free_page (job_pages j (i + 1) k3) k3 = Some k4" "k' = on_dmc (drop_cached_job ^^ i) k4"
        by (auto simp: k2_def [symmetric] k3_def Let_def bind_eq_Some_conv)
      have "Some p \<in> set (job_pages j (i + 1) k3)" using k3(2) by (force simp: job_pages_def)
      with free_pages_gone [OF 4(1)] k3 4(2) show ?thesis by (auto simp: filling_def intro!: exI [of _ i])
    next
      case (Some x)
      with Cons.prems(1) page \<open>page = Some p\<close> job have "fill_copy_job j (i + 1) ws k3 = Some (False, k')"
        by (simp add: k2_def [symmetric] k3_def Let_def)
      from Cons.IH [OF this k3(1)] k3(3) show ?thesis by simp
    qed
  qed
qed simp

lemma free_pages_none:
  assumes "page \<in> set ps" and "case page of None \<Rightarrow> True | Some p \<Rightarrow> p \<notin> set (kc_pages k)" and "distinct (kc_pages k)"
  shows "for_each kc_free_page ps k = None"
  using assms
proof (induction ps arbitrary: k)
  case (Cons q ps)
  show ?case
  proof (cases "kc_free_page q k")
    case (Some k1)
    then obtain x where x: "q = Some x" "x \<in> set (kc_pages k)" "k1 = k\<lparr>kc_pages := remove1 x (kc_pages k)\<rparr>"
      by (auto simp: free_page_some)
    with Cons.prems have "page \<in> set ps" by (auto split: option.splits)
    moreover have "case page of None \<Rightarrow> True | Some p \<Rightarrow> p \<notin> set (kc_pages k1)"
      using Cons.prems(2) x(3) by (auto split: option.splits dest: notin_set_remove1)
    moreover have "distinct (kc_pages k1)" using Cons.prems(3) x(3) by simp
    ultimately show ?thesis using Cons.IH Some by simp
  qed simp
qed simp

lemma new_copy_job_fails:
  assumes "kcopy_jobs_head k = j # js" and "distinct (kc_pages k)" and "\<And>xs. kc_page_alloc k xs \<notin> set xs"
    and "new_flashcache_copy_job ws k = Some (None, k')"
  shows False
proof -
  define k1 where "k1 = upd_copy_job j (\<lambda>c. c\<lparr>cj_nr_writes := length ws, cj_reads_completed := 0,
    cj_write_kickoff := False, cj_error := 0\<rparr>) (snd (alloc_flashcache_copy_job k))"
  have "filling j 0 k1"
    using assms(1-3) by (simp add: filling_def k1_def upd_copy_job_def alloc_flashcache_copy_job_def)
  moreover have n: "cj_nr_writes (kc_jobs k1 j) = length ws" by (simp add: k1_def upd_copy_job_def)
  moreover from assms(1,4) obtain k2 where
    2: "fill_copy_job j 0 ws k1 = Some (False, k2)" "free_flashcache_copy_job j k2 = Some k'"
    by (auto simp: new_flashcache_copy_job_def alloc_flashcache_copy_job_def k1_def Let_def bind_eq_Some_conv
        split: if_splits)
  ultimately obtain x where x: "x < length ws"
    "case cj_page_base (kc_jobs k2 j) x of None \<Rightarrow> True | Some p \<Rightarrow> p \<notin> set (kc_pages k2)"
    "cj_nr_writes (kc_jobs k2 j) = length ws" "distinct (kc_pages k2)"
    using fill_failed [OF 2(1)] by auto
  from x(1,3) have "cj_page_base (kc_jobs k2 j) x \<in> set (job_pages j (cj_nr_writes (kc_jobs k2 j)) k2)"
    by (auto simp: job_pages_def)
  from free_pages_none [OF this x(2,4)] 2(2) show False by (simp add: free_flashcache_copy_job_def)
qed

lemma fill_first_fails:
  assumes "\<not> alloc_ok (kc_dmc k)" and "ws \<noteq> []"
  shows "\<exists>k'. fill_copy_job j 0 ws k = Some (False, k')"
  using assms by (cases ws) (simp_all add: kc_alloc_page_def Let_def job_pages_def)

lemma new_copy_job_none:
  assumes "kcopy_jobs_head k = j # js" and "distinct (kc_pages k)" and "\<And>xs. kc_page_alloc k xs \<notin> set xs"
    and "ws \<noteq> []" and "\<not> alloc_ok (kc_dmc k)"
  shows "new_flashcache_copy_job ws k = None"
proof (rule ccontr)
  assume "new_flashcache_copy_job ws k \<noteq> None"
  then obtain r k' where run: "new_flashcache_copy_job ws k = Some (r, k')" by auto
  define k1 where "k1 = upd_copy_job j (\<lambda>c. c\<lparr>cj_nr_writes := length ws, cj_reads_completed := 0,
    cj_write_kickoff := False, cj_error := 0\<rparr>) (snd (alloc_flashcache_copy_job k))"
  have "\<not> alloc_ok (kc_dmc k1)"
    using assms(1,5) by (simp add: k1_def upd_copy_job_def alloc_flashcache_copy_job_def alloc_ok_def)
  from fill_first_fails [OF this assms(4)] obtain k2 where "fill_copy_job j 0 ws k1 = Some (False, k2)" by blast
  with run assms(1) have "r = None"
    by (auto simp: new_flashcache_copy_job_def alloc_flashcache_copy_job_def k1_def Let_def bind_eq_Some_conv)
  with new_copy_job_fails [OF assms(1-3)] run show False by blast
qed

section \<open>A pool of one copy job\<close>

definition zero_copy_job :: copy_job where
  "zero_copy_job = \<lparr>cj_nr_writes = 0, cj_reads_completed = 0, cj_write_kickoff = False, cj_error = 0,
     cj_page_base = (\<lambda>_. None), cj_job_base = (\<lambda>_. None), cj_cache = (\<lambda>_. (CacheDev, 0, 0)), cj_disk = (DiskDev, 0, 0)\<rparr>"

text \<open>The allocator takes a page number above all that are in use; \<open>script\<close> is the outcome of the allocations.\<close>

definition demo_kcopy :: "bool list \<Rightarrow> kcopy" where
  "demo_kcopy script = \<lparr>kc_dmc = kernel_update (\<lambda>k. k\<lparr>alloc_script := script\<rparr>) demo, kc_jobs = (\<lambda>_. zero_copy_job),
     kcopy_jobs_head = [0], kc_pages = [], kc_page_alloc = (\<lambda>xs. sum_list xs + 1), kc_io = [],
     cleaning_read_complete_jobs = [], cleaning_write_complete_jobs = []\<rparr>"

lemma demo_fresh: "sum_list xs + 1 \<notin> set (xs :: nat list)"
  using member_le_sum_list [of "sum_list xs + 1" xs] by auto

lemma demo_kcopy_sel:
  "kcopy_jobs_head (demo_kcopy s) = [0]" "distinct (kc_pages (demo_kcopy s))"
  "kc_page_alloc (demo_kcopy s) xs \<notin> set xs" "\<not> alloc_ok (kc_dmc (demo_kcopy (False # s)))"
  using demo_fresh [of xs] by (simp_all add: demo_kcopy_def alloc_ok_def)

section \<open>The properties\<close>

text \<open>The loop of \<open>flashcache_copy_data\<close> cuts the sorted list of dirty blocks into its maximal contiguous
  runs: the chains concatenate to the list, each passes the check of \<open>flashcache_verify_chain\<close>, no chain continues
  the one before it, and it is the only division of the list with these properties.\<close>

theorem kcopy_chains_maximal:
  "copy_chains bs ws = cs \<longleftrightarrow> concat cs = ws \<and> (\<forall>c \<in> set cs. c \<noteq> [] \<and> flashcache_verify_chain bs c) \<and>
     (\<forall>as c1 c2 ds. cs = as @ c1 # c2 # ds \<longrightarrow> fst (last c1) + bs \<noteq> fst (hd c2))"
  unfolding contiguous_split_def [symmetric] using copy_chains_split split_unique by metis

theorem kcopy_chains_maximal_witness:
  "concat (copy_chains 8 [(0, 3), (8, 1), (24, 2)]) = [(0, 3), (8, 1), (24, 2)] \<and>
    copy_chains 8 [(0, 3), (8, 1), (24, 2)] = [[(0, 3), (8, 1)], [(24, 2)]]"
proof -
  have "copy_chains 8 [(0, 3), (8, 1), (24, 2)] = [[(0, 3), (8, 1)], [(24, 2)]]"
    by (simp add: copy_chains.simps)
  with kcopy_chains_maximal [of 8 "[(0, 3), (8, 1), (24, 2)]"] show ?thesis by blast
qed

text \<open>C27. The write of a copy starts when all its reads are done, exactly once, and the error it sees is the last
  error of a read: whatever the order and the results of the reads, the job is queued for the write by the
  completion that makes the count full and by no other, and one completion more fails a \<open>VERIFY\<close>.\<close>

theorem kcopy_reads_then_write:
  assumes "cj_reads_completed (kc_jobs k j) = 0" and "\<not> cj_write_kickoff (kc_jobs k j)"
    and "cj_error (kc_jobs k j) = 0" and "0 < cj_nr_writes (kc_jobs k j)"
  shows "if length errors \<le> cj_nr_writes (kc_jobs k j)
    then \<exists>k'. read_callbacks errors j k = Some k' \<and> cj_error (kc_jobs k' j) = last_error 0 errors \<and>
      cleaning_read_complete_jobs k' = cleaning_read_complete_jobs k @
        (if length errors = cj_nr_writes (kc_jobs k j) then [j] else []) \<and> kc_io k' = kc_io k
    else read_callbacks errors j k = None"
  by (rule reads_all [OF assms])

theorem kcopy_reads_then_write_witness:
  "\<exists>k'. read_callbacks [0, - 5, 0] 0 (upd_copy_job 0 (\<lambda>c. c\<lparr>cj_nr_writes := 3\<rparr>) (demo_kcopy [])) = Some k' \<and>
    cj_error (kc_jobs k' 0) = - 5 \<and> cleaning_read_complete_jobs k' = [0]"
  using kcopy_reads_then_write [of "upd_copy_job 0 (\<lambda>c. c\<lparr>cj_nr_writes := 3\<rparr>) (demo_kcopy [])" 0 "[0, - 5, 0]"]
  by (auto simp: upd_copy_job_def demo_kcopy_def zero_copy_job_def last_error_def)

text \<open>A copy job that cannot be filled brings the machine down: after a failed allocation of a page or of a cached
  job the pages of the earlier blocks are freed, and \<open>free_flashcache_copy_job\<close> frees them, or the null page, once
  more. So \<open>new_flashcache_copy_job\<close> never returns a failure while the pool has a job.\<close>

theorem kcopy_alloc_failure_panics:
  assumes "kcopy_jobs_head k = j # js" and "distinct (kc_pages k)" and "\<And>xs. kc_page_alloc k xs \<notin> set xs"
  shows "new_flashcache_copy_job ws k \<noteq> Some (None, k') \<and>
    (ws \<noteq> [] \<and> \<not> alloc_ok (kc_dmc k) \<longrightarrow> new_flashcache_copy_job ws k = None)"
  using new_copy_job_fails [OF assms] new_copy_job_none [OF assms] by blast

theorem kcopy_alloc_failure_panics_witness: "new_flashcache_copy_job [(16, 1)] (demo_kcopy [False]) = None"
  using kcopy_alloc_failure_panics [OF demo_kcopy_sel(1-3)] demo_kcopy_sel(4) by simp

end
