(* ===== verification/Procfs.thy ===== *)
theory Procfs
  imports System
begin

text \<open>
  The files of a cache below \<open>/proc\<close> (\<open>flashcache_procfs.c\<close>): the tables of sysctls of the two kinds of caches and
  the field behind each name, a write to a sysctl, and what the constructor registers and the destructor removes.
  The kernel's part, directories, files and sysctl tables, is a parameter; \<open>kzalloc\<close> of the short names, whose
  result the code does not check, is taken to succeed. A string that does not fit its buffer is a panic.
\<close>

section \<open>The tables of sysctls\<close>

datatype proc_handler =
  Proc_dointvec | Io_latency_init | Sync_sysctl | Dirty_thresh_sysctl | Zerostats_sysctl | Fallow_clean_speed_sysctl |
  Lru_hot_pct_sysctl

definition FLASHCACHE_NUM_WRITEBACK_SYSCTLS :: nat where "FLASHCACHE_NUM_WRITEBACK_SYSCTLS = 22"
definition FLASHCACHE_NUM_WRITETHROUGH_SYSCTLS :: nat where "FLASHCACHE_NUM_WRITETHROUGH_SYSCTLS = 11"

definition flashcache_writeback_sysctl :: "(string \<times> proc_handler) list" where
  "flashcache_writeback_sysctl =
     [(''io_latency_hist'', Io_latency_init), (''do_sync'', Sync_sysctl), (''stop_sync'', Proc_dointvec),
      (''dirty_thresh_pct'', Dirty_thresh_sysctl), (''max_clean_ios_total'', Proc_dointvec),
      (''max_clean_ios_set'', Proc_dointvec), (''do_pid_expiry'', Proc_dointvec), (''max_pids'', Proc_dointvec),
      (''pid_expiry_secs'', Proc_dointvec), (''reclaim_policy'', Proc_dointvec), (''zero_stats'', Zerostats_sysctl),
      (''fast_remove'', Proc_dointvec), (''cache_all'', Proc_dointvec),
      (''fallow_clean_speed'', Fallow_clean_speed_sysctl), (''fallow_delay'', Proc_dointvec),
      (''skip_seq_thresh_kb'', Proc_dointvec), (''clean_on_read_miss'', Proc_dointvec),
      (''clean_on_write_miss'', Proc_dointvec), (''lru_promote_thresh'', Proc_dointvec),
      (''lru_hot_pct'', Lru_hot_pct_sysctl), (''new_style_write_merge'', Proc_dointvec)]"

definition flashcache_writethrough_sysctl :: "(string \<times> proc_handler) list" where
  "flashcache_writethrough_sysctl =
     [(''io_latency_hist'', Io_latency_init), (''do_pid_expiry'', Proc_dointvec), (''max_pids'', Proc_dointvec),
      (''pid_expiry_secs'', Proc_dointvec), (''reclaim_policy'', Proc_dointvec), (''zero_stats'', Zerostats_sysctl),
      (''cache_all'', Proc_dointvec), (''skip_seq_thresh_kb'', Proc_dointvec),
      (''lru_promote_thresh'', Proc_dointvec), (''lru_hot_pct'', Lru_hot_pct_sysctl)]"

text \<open>A pointer to an \<open>int\<close> of the driver: how it is read and how it is written.\<close>

type_synonym sysctl_data = "(cache_c \<Rightarrow> int) \<times> (int \<Rightarrow> cache_c \<Rightarrow> cache_c)"

abbreviation tunable :: "(sysctls \<Rightarrow> int) \<Rightarrow> ((int \<Rightarrow> int) \<Rightarrow> sysctls \<Rightarrow> sysctls) \<Rightarrow> sysctl_data" where
  "tunable get upd \<equiv> (\<lambda>d. get (sysctl d), \<lambda>v. sysctl_update (upd (\<lambda>_. v)))"

definition sysctl_fields :: "(string \<times> sysctl_data) list" where
  "sysctl_fields =
     [(''io_latency_hist'', tunable sysctl_io_latency_hist sysctl_io_latency_hist_update),
      (''do_sync'', tunable sysctl_do_sync sysctl_do_sync_update),
      (''stop_sync'', tunable sysctl_stop_sync sysctl_stop_sync_update),
      (''dirty_thresh_pct'', tunable sysctl_dirty_thresh sysctl_dirty_thresh_update),
      (''max_clean_ios_total'', (max_clean_ios_total, \<lambda>v. max_clean_ios_total_update (\<lambda>_. v))),
      (''max_clean_ios_set'', (max_clean_ios_set, \<lambda>v. max_clean_ios_set_update (\<lambda>_. v))),
      (''do_pid_expiry'', tunable sysctl_pid_do_expiry sysctl_pid_do_expiry_update),
      (''max_pids'', tunable sysctl_max_pids sysctl_max_pids_update),
      (''pid_expiry_secs'', tunable sysctl_pid_expiry_secs sysctl_pid_expiry_secs_update),
      (''reclaim_policy'', tunable sysctl_reclaim_policy sysctl_reclaim_policy_update),
      (''zero_stats'', tunable sysctl_zerostats sysctl_zerostats_update),
      (''error_inject'', (\<lambda>d. sint (sysctl_error_inject (sysctl d)),
         \<lambda>v. sysctl_update (sysctl_error_inject_update (\<lambda>_. word_of_int v)))),
      (''fast_remove'', tunable sysctl_fast_remove sysctl_fast_remove_update),
      (''cache_all'', tunable sysctl_cache_all sysctl_cache_all_update),
      (''fallow_clean_speed'', tunable sysctl_fallow_clean_speed sysctl_fallow_clean_speed_update),
      (''fallow_delay'', tunable sysctl_fallow_delay sysctl_fallow_delay_update),
      (''skip_seq_thresh_kb'', tunable sysctl_skip_seq_thresh_kb sysctl_skip_seq_thresh_kb_update),
      (''clean_on_read_miss'', tunable sysctl_clean_on_read_miss sysctl_clean_on_read_miss_update),
      (''clean_on_write_miss'', tunable sysctl_clean_on_write_miss sysctl_clean_on_write_miss_update),
      (''lru_promote_thresh'', tunable sysctl_lru_promote_thresh sysctl_lru_promote_thresh_update),
      (''lru_hot_pct'', tunable sysctl_lru_hot_pct sysctl_lru_hot_pct_update),
      (''new_style_write_merge'', tunable sysctl_new_style_write_merge sysctl_new_style_write_merge_update)]"

text \<open>An unknown name is a panic.\<close>

definition flashcache_find_sysctl_data :: "string \<Rightarrow> sysctl_data option" where
  "flashcache_find_sysctl_data name = map_of sysctl_fields name"

definition sysctl_table :: "cache_mode \<Rightarrow> (string \<times> proc_handler) list" where
  "sysctl_table m = (if m = FLASHCACHE_WRITE_BACK then flashcache_writeback_sysctl else flashcache_writethrough_sysctl)"

text \<open>The handler of a sysctl; \<open>proc_dointvec\<close>, which each calls first, has stored the value.\<close>

fun run_handler :: "proc_handler \<Rightarrow> bool \<Rightarrow> cache_c \<Rightarrow> cache_c option" where
  "run_handler Proc_dointvec wr d = Some d"
| "run_handler Io_latency_init wr d = Some (flashcache_io_latency_init wr d)"
| "run_handler Sync_sysctl wr d = flashcache_sync_sysctl wr d"
| "run_handler Dirty_thresh_sysctl wr d = Some (flashcache_dirty_thresh_sysctl wr d)"
| "run_handler Zerostats_sysctl wr d = Some (flashcache_zerostats_sysctl wr d)"
| "run_handler Fallow_clean_speed_sysctl wr d = Some (flashcache_fallow_clean_speed_sysctl wr d)"
| "run_handler Lru_hot_pct_sysctl wr d = flashcache_lru_hot_pct_sysctl wr d"

text \<open>A write of \<open>v\<close> to the sysctl \<open>name\<close> of a cache.\<close>

definition sysctl_write :: "string \<Rightarrow> int \<Rightarrow> cache_c \<Rightarrow> cache_c option" where
  "sysctl_write name v d = do {
     h \<leftarrow> map_of (sysctl_table (mode d)) name;
     (get, put) \<leftarrow> flashcache_find_sysctl_data name;
     run_handler h True (put v d)
   }"

section \<open>Names\<close>

definition FLASHCACHE_PROC_ROOTDIR_NAME :: string where "FLASHCACHE_PROC_ROOTDIR_NAME = ''flashcache''"

text \<open>\<open>strrchr\<close>: the rest of the string from the last occurrence on; \<open>strcat\<close> into a buffer of \<open>n\<close> bytes.\<close>

primrec strrchr :: "string \<Rightarrow> char \<Rightarrow> string option" where
  "strrchr [] c = None"
| "strrchr (x # xs) c = (case strrchr xs c of Some t \<Rightarrow> Some t | None \<Rightarrow> if x = c then Some (x # xs) else None)"

definition strcat :: "nat \<Rightarrow> string \<Rightarrow> string \<Rightarrow> string option" where
  "strcat n s t = (if length s + length t < n then Some (s @ t) else None)"

definition flashcache_cons_sysctl_devname :: "string \<Rightarrow> string \<Rightarrow> string option" where
  "flashcache_cons_sysctl_devname cdev ddev = do {
     let n = length cdev + length ddev + 2;
     s \<leftarrow> strrchr cdev (CHR ''/'');
     p \<leftarrow> strcat n [] (tl s);
     p \<leftarrow> strcat n p ''+'';
     s \<leftarrow> strrchr ddev (CHR ''/'');
     strcat n p (tl s)
   }"

definition base_name :: "string \<Rightarrow> string" where
  "base_name s = (case strrchr s (CHR ''/'') of Some t \<Rightarrow> tl t | None \<Rightarrow> s)"

definition flashcache_cons_procfs_cachename :: "string \<Rightarrow> string \<Rightarrow> string \<Rightarrow> string option" where
  "flashcache_cons_procfs_cachename cdev ddev leaf = do {
     let n = length cdev + length ddev + 4 + length FLASHCACHE_PROC_ROOTDIR_NAME + length leaf;
     p \<leftarrow> strcat n [] FLASHCACHE_PROC_ROOTDIR_NAME;
     p \<leftarrow> strcat n p ''/'';
     p \<leftarrow> strcat n p (base_name cdev);
     p \<leftarrow> strcat n p ''+'';
     p \<leftarrow> strcat n p (base_name ddev);
     if leaf \<noteq> []
     then do {
       p \<leftarrow> strcat n p ''/'';
       strcat n p leaf
     }
     else Some p
   }"

section \<open>Registration\<close>

datatype proc_ops = Stats_operations | Errors_operations | Iosize_hist_operations | Pidlists_operations | Version_operations

text \<open>A directory, or a file with its operations and its private data (the target of the cache).\<close>

datatype proc_entry = Proc_dir | Proc_file proc_ops "nat option"

text \<open>What the code calls in the kernel, over the kernel's own state.\<close>

record 'p proc_api =
  proc_mkdir :: "string \<Rightarrow> 'p \<Rightarrow> bool \<times> 'p"
  proc_create_data :: "string \<Rightarrow> proc_entry \<Rightarrow> 'p \<Rightarrow> 'p"
  remove_proc_entry :: "string \<Rightarrow> 'p \<Rightarrow> 'p"
  kmemdup :: "'p \<Rightarrow> bool \<times> 'p"
  register_sysctl_table :: "string \<Rightarrow> (string \<times> sysctl_data) list \<Rightarrow> 'p \<Rightarrow> nat option \<times> 'p"
  unregister_sysctl_table :: "nat \<Rightarrow> 'p \<Rightarrow> 'p"

text \<open>The \<open>data\<close> fields of a copy of the table.\<close>

primrec sysctl_vars :: "(string \<times> proc_handler) list \<Rightarrow> (string \<times> sysctl_data) list option" where
  "sysctl_vars [] = Some []"
| "sysctl_vars (v # vs) = do {
     x \<leftarrow> flashcache_find_sysctl_data (fst v);
     xs \<leftarrow> sysctl_vars vs;
     Some ((fst v, x) # xs)
   }"

text \<open>The result is \<open>sysctl_handle\<close>, which is null when nothing was registered.\<close>

definition flashcache_writeback_sysctl_register :: "'p proc_api \<Rightarrow> string \<Rightarrow> string \<Rightarrow> 'p \<Rightarrow> (nat option \<times> 'p) option" where
  "flashcache_writeback_sysctl_register api cdev ddev p =
     (let (t, p) = kmemdup api p
      in if \<not> t then Some (None, p)
         else do {
           vars \<leftarrow> sysctl_vars flashcache_writeback_sysctl;
           name \<leftarrow> flashcache_cons_sysctl_devname cdev ddev;
           Some (register_sysctl_table api name vars p)
         })"

definition flashcache_writethrough_sysctl_register :: "'p proc_api \<Rightarrow> string \<Rightarrow> string \<Rightarrow> 'p \<Rightarrow> (nat option \<times> 'p) option" where
  "flashcache_writethrough_sysctl_register api cdev ddev p =
     (let (t, p) = kmemdup api p
      in if \<not> t then Some (None, p)
         else do {
           vars \<leftarrow> sysctl_vars flashcache_writethrough_sysctl;
           name \<leftarrow> flashcache_cons_sysctl_devname cdev ddev;
           Some (register_sysctl_table api name vars p)
         })"

definition flashcache_writeback_sysctl_unregister :: "'p proc_api \<Rightarrow> nat option \<Rightarrow> 'p \<Rightarrow> 'p" where
  "flashcache_writeback_sysctl_unregister api handle p =
     (case handle of None \<Rightarrow> p | Some h \<Rightarrow> unregister_sysctl_table api h p)"

definition flashcache_writethrough_sysctl_unregister :: "'p proc_api \<Rightarrow> nat option \<Rightarrow> 'p \<Rightarrow> 'p" where
  "flashcache_writethrough_sysctl_unregister api handle p =
     (case handle of None \<Rightarrow> p | Some h \<Rightarrow> unregister_sysctl_table api h p)"

text \<open>One of the four files of a cache.\<close>

definition create_file :: "'p proc_api \<Rightarrow> string \<Rightarrow> cache_c \<Rightarrow> string \<Rightarrow> proc_ops \<Rightarrow> 'p \<Rightarrow> 'p option" where
  "create_file api cdev d leaf ops p = do {
     s \<leftarrow> flashcache_cons_procfs_cachename cdev (disk_devname d) leaf;
     Some (proc_create_data api s (Proc_file ops (Some (tgt d))) p)
   }"

definition remove_file :: "'p proc_api \<Rightarrow> string \<Rightarrow> cache_c \<Rightarrow> string \<Rightarrow> 'p \<Rightarrow> 'p option" where
  "remove_file api cdev d leaf p = do {
     s \<leftarrow> flashcache_cons_procfs_cachename cdev (disk_devname d) leaf;
     Some (remove_proc_entry api s p)
   }"

definition flashcache_ctr_procfs :: "'p proc_api \<Rightarrow> string \<Rightarrow> cache_c \<Rightarrow> 'p \<Rightarrow> (nat option \<times> 'p) option" where
  "flashcache_ctr_procfs api cdev d p = do {
     s \<leftarrow> flashcache_cons_procfs_cachename cdev (disk_devname d) '''';
     let (entry, p) = proc_mkdir api s p;
     if \<not> entry then Some (None, p)
     else do {
       p \<leftarrow> create_file api cdev d ''flashcache_stats'' Stats_operations p;
       p \<leftarrow> create_file api cdev d ''flashcache_errors'' Errors_operations p;
       p \<leftarrow> create_file api cdev d ''flashcache_iosize_hist'' Iosize_hist_operations p;
       p \<leftarrow> create_file api cdev d ''flashcache_pidlists'' Pidlists_operations p;
       if mode d = FLASHCACHE_WRITE_BACK then flashcache_writeback_sysctl_register api cdev (disk_devname d) p
       else flashcache_writethrough_sysctl_register api cdev (disk_devname d) p
     }
   }"

definition flashcache_dtr_procfs :: "'p proc_api \<Rightarrow> string \<Rightarrow> cache_c \<Rightarrow> nat option \<Rightarrow> 'p \<Rightarrow> 'p option" where
  "flashcache_dtr_procfs api cdev d handle p = do {
     p \<leftarrow> remove_file api cdev d ''flashcache_stats'' p;
     p \<leftarrow> remove_file api cdev d ''flashcache_errors'' p;
     p \<leftarrow> remove_file api cdev d ''flashcache_iosize_hist'' p;
     p \<leftarrow> remove_file api cdev d ''flashcache_pidlists'' p;
     p \<leftarrow> remove_file api cdev d '''' p;
     Some (if mode d = FLASHCACHE_WRITE_BACK then flashcache_writeback_sysctl_unregister api handle p
           else flashcache_writethrough_sysctl_unregister api handle p)
   }"

definition flashcache_module_procfs_init :: "'p proc_api \<Rightarrow> 'p \<Rightarrow> 'p" where
  "flashcache_module_procfs_init api p =
     (let (entry, p) = proc_mkdir api ''flashcache'' p
      in if entry then proc_create_data api ''flashcache/flashcache_version'' (Proc_file Version_operations None) p else p)"

definition flashcache_module_procfs_release :: "'p proc_api \<Rightarrow> 'p \<Rightarrow> 'p" where
  "flashcache_module_procfs_release api p =
     remove_proc_entry api ''flashcache'' (remove_proc_entry api ''flashcache/flashcache_version'' p)"

end
