(* ===== verification/Procfs_Spec.thy ===== *)
theory Procfs_Spec
  imports Procfs Demo
begin

text \<open>
  What the files of a cache promise: each name of the tables reaches a field of its own, a write to a sysctl is a
  step of the driver, the names fit their buffers, and the destructor removes what the constructor registered. Two
  caches whose devices have the same last components share their directory: removing the one takes away the files
  of the other.
\<close>

section \<open>Fields\<close>

lemma fields_distinct: "distinct (map fst sysctl_fields)"
  by (simp add: sysctl_fields_def)

lemma tables_distinct: "distinct (map fst (sysctl_table m))"
  by (simp add: sysctl_table_def flashcache_writeback_sysctl_def flashcache_writethrough_sysctl_def)

lemma tables_known: "n \<in> set (map fst (sysctl_table m)) \<Longrightarrow> n \<in> set (map fst sysctl_fields) - {''error_inject''}"
proof -
  have "set (map fst (sysctl_table m)) \<subseteq> set (map fst sysctl_fields) - {''error_inject''}"
    by (simp add: sysctl_table_def flashcache_writeback_sysctl_def flashcache_writethrough_sysctl_def sysctl_fields_def)
  then show "n \<in> set (map fst (sysctl_table m)) \<Longrightarrow> n \<in> set (map fst sysctl_fields) - {''error_inject''}" by blast
qed

definition separate :: "sysctl_data \<Rightarrow> sysctl_data \<Rightarrow> bool" where
  "separate a b \<longleftrightarrow> (\<forall>v d. fst a (snd b v d) = fst a d \<and> fst b (snd a v d) = fst b d)"

lemma fields_separate: "sorted_wrt separate (map snd sysctl_fields)"
  by (simp add: sysctl_fields_def separate_def)

text \<open>What a pointer of the table can do: it stores the value, and that is a step of the driver.\<close>

lemma fields_store: "list_all (\<lambda>(n, x). (n = ''error_inject'' \<or> (\<forall>v d. fst x (snd x v d) = v)) \<and>
    (\<forall>v d. driver_step [] d (snd x v d)) \<and> (\<forall>v d. mode (snd x v d) = mode d)) sysctl_fields"
  by (simp add: sysctl_fields_def driver_step.Tunable driver_step.Clean_total driver_step.Clean_set)

lemma find_field:
  assumes "n \<in> set (map fst (sysctl_table m))"
  obtains x where "flashcache_find_sysctl_data n = Some x" and "(n, x) \<in> set sysctl_fields"
    and "\<And>v d. fst x (snd x v d) = v" and "\<And>v d. driver_step [] d (snd x v d)"
proof -
  from tables_known [OF assms] obtain x where x: "(n, x) \<in> set sysctl_fields" "n \<noteq> ''error_inject''" by auto
  with fields_distinct have "flashcache_find_sysctl_data n = Some x" by (simp add: flashcache_find_sysctl_data_def)
  with x fields_store that show ?thesis by (auto simp: list_all_iff)
qed

lemma fields_apart:
  assumes "(n, x) \<in> set sysctl_fields" and "(k, y) \<in> set sysctl_fields" and "n \<noteq> k"
  shows "fst y (snd x v d) = fst y d"
proof -
  from assms(1,2) obtain i j where ij: "i < length sysctl_fields" "sysctl_fields ! i = (n, x)"
    "j < length sysctl_fields" "sysctl_fields ! j = (k, y)" by (auto simp: in_set_conv_nth)
  with assms(3) have "i < j \<or> j < i" by (metis nat_neq_iff old.prod.inject)
  with ij fields_separate have "separate x y \<or> separate y x"
    by (fastforce simp: sorted_wrt_iff_nth_less)
  then show ?thesis by (auto simp: separate_def)
qed

text \<open>All the names of a table can be registered.\<close>

lemma vars_Some: "\<forall>v \<in> set vs. flashcache_find_sysctl_data (fst v) \<noteq> None \<Longrightarrow> sysctl_vars vs \<noteq> None"
  by (induction vs) auto

lemma tables_registered: "sysctl_vars (sysctl_table m) \<noteq> None"
proof (rule vars_Some, rule ballI)
  fix v assume "v \<in> set (sysctl_table m)"
  then have "fst v \<in> set (map fst (sysctl_table m))" by simp
  then show "flashcache_find_sysctl_data (fst v) \<noteq> None" by (rule find_field) simp
qed

section \<open>Writes\<close>

lemma handler_step: "run_handler h True d = Some d' \<Longrightarrow> d' = d \<or> driver_step [] d d'"
  by (cases h) (auto intro: driver_step.intros)

lemma step_reach: "driver_step [] d d' \<Longrightarrow> driver_reach d [] d'"
  using driver_reach.step [OF driver_reach.start] by fastforce

lemma write_reach_step:
  assumes "sysctl_write name v d = Some d'"
  shows "driver_reach d [] d'"
proof -
  from assms obtain h get put where 1: "map_of (sysctl_table (mode d)) name = Some h"
    "flashcache_find_sysctl_data name = Some (get, put)" "run_handler h True (put v d) = Some d'"
    by (auto simp: sysctl_write_def bind_eq_Some_conv)
  from 1(2) have "(name, (get, put)) \<in> set sysctl_fields"
    by (auto simp: flashcache_find_sysctl_data_def dest: map_of_SomeD)
  with fields_store have "driver_step [] d (put v d)" by (auto simp: list_all_iff)
  from step_reach [OF this] have put: "driver_reach d [] (put v d)" .
  from handler_step [OF 1(3)] show ?thesis
    using put reach_Nil_trans [OF put step_reach] by blast
qed

lemma write_plain:
  assumes "(name, Proc_dointvec) \<in> set (sysctl_table (mode d))" and "(other, h) \<in> set (sysctl_table (mode d))"
  shows "\<exists>get put get' put' d'. flashcache_find_sysctl_data name = Some (get, put) \<and>
    flashcache_find_sysctl_data other = Some (get', put') \<and> sysctl_write name v d = Some d' \<and>
    get d' = v \<and> (other \<noteq> name \<longrightarrow> get' d' = get' d)"
proof -
  have "name \<in> set (map fst (sysctl_table (mode d)))" using assms(1) by force
  from find_field [OF this] obtain get put where
    1: "flashcache_find_sysctl_data name = Some (get, put)" "(name, (get, put)) \<in> set sysctl_fields"
      "\<And>v d. get (put v d) = v" by (metis prod.collapse)
  have "other \<in> set (map fst (sysctl_table (mode d)))" using assms(2) by force
  from find_field [OF this] obtain get' put' where
    2: "flashcache_find_sysctl_data other = Some (get', put')" "(other, (get', put')) \<in> set sysctl_fields"
    by (metis prod.collapse)
  have "map_of (sysctl_table (mode d)) name = Some Proc_dointvec"
    using assms(1) tables_distinct by (simp add: map_of_eq_Some_iff)
  then have "sysctl_write name v d = Some (put v d)" by (simp add: sysctl_write_def 1(1))
  with 1 2 fields_apart [OF 1(2) 2(2)] show ?thesis by auto
qed

section \<open>Names\<close>

lemma strrchr_Some: "strrchr s c = Some t \<Longrightarrow> \<exists>u. s = u @ t \<and> t \<noteq> [] \<and> c \<notin> set (tl t)"
proof (induction s arbitrary: t)
  case (Cons x s)
  show ?case
  proof (cases "strrchr s c")
    case None
    moreover have "c \<notin> set s" using None by (induction s) (auto split: option.splits if_splits)
    ultimately show ?thesis using Cons.prems by (auto split: if_splits)
  next
    case (Some u)
    with Cons.IH [OF Some] Cons.prems show ?thesis by (metis append_Cons option.case(2) option.inject strrchr.simps(2))
  qed
qed simp

lemma strrchr_None: "strrchr s c = None \<longleftrightarrow> c \<notin> set s"
  by (induction s) (auto split: option.splits)

lemma base_name_length: "length (base_name s) \<le> length s"
  by (auto simp: base_name_def split: option.splits dest!: strrchr_Some)

text \<open>The path of a cache, and of a file in it.\<close>

definition cache_path :: "string \<Rightarrow> string \<Rightarrow> string" where
  "cache_path cdev ddev = ''flashcache/'' @ base_name cdev @ ''+'' @ base_name ddev"

lemma cachename:
  "flashcache_cons_procfs_cachename cdev ddev leaf =
     Some (cache_path cdev ddev @ (if leaf = [] then [] else CHR ''/'' # leaf))"
  using base_name_length [of cdev] base_name_length [of ddev]
  by (simp add: flashcache_cons_procfs_cachename_def strcat_def FLASHCACHE_PROC_ROOTDIR_NAME_def cache_path_def)

lemma strrchr_base: "CHR ''/'' \<in> set s \<Longrightarrow> \<exists>t. strrchr s (CHR ''/'') = Some t \<and> tl t = base_name s"
  by (cases "strrchr s (CHR ''/'')") (simp_all add: base_name_def strrchr_None)

lemma sysctl_devname:
  "flashcache_cons_sysctl_devname cdev ddev =
     (if CHR ''/'' \<in> set cdev \<and> CHR ''/'' \<in> set ddev then Some (base_name cdev @ ''+'' @ base_name ddev) else None)"
proof (cases "CHR ''/'' \<in> set cdev \<and> CHR ''/'' \<in> set ddev")
  case True
  then obtain s t where "strrchr cdev (CHR ''/'') = Some s" "tl s = base_name cdev"
    "strrchr ddev (CHR ''/'') = Some t" "tl t = base_name ddev" using strrchr_base by meson
  with True base_name_length [of cdev] base_name_length [of ddev] show ?thesis
    by (simp add: flashcache_cons_sysctl_devname_def strcat_def del: length_tl)
next
  case False
  then consider "strrchr cdev (CHR ''/'') = None" | "strrchr ddev (CHR ''/'') = None"
    by (auto simp: strrchr_None)
  then show ?thesis
    using False by cases (auto simp: flashcache_cons_sysctl_devname_def Let_def bind_eq_None_conv)
qed

section \<open>Registration and removal\<close>

text \<open>
  What the documentation of \<open>/proc\<close> promises, for the entries by path and the registered tables by handle: a
  directory is made only where nothing is; a file appears, or nothing does; what is removed, with nothing below it,
  is gone; tables come and go by their handle and touch no file.
\<close>

definition proc_laws ::
  "'p proc_api \<Rightarrow> ('p \<Rightarrow> string \<Rightarrow> proc_entry option) \<Rightarrow> ('p \<Rightarrow> nat \<Rightarrow> string option) \<Rightarrow> bool" where
  "proc_laws api entries tables \<longleftrightarrow>
     (\<forall>s p. tables (snd (proc_mkdir api s p)) = tables p \<and>
        (if fst (proc_mkdir api s p)
         then entries p s = None \<and> entries (snd (proc_mkdir api s p)) = (entries p)(s \<mapsto> Proc_dir)
         else entries (snd (proc_mkdir api s p)) = entries p)) \<and>
     (\<forall>s e p. tables (proc_create_data api s e p) = tables p \<and>
        (entries (proc_create_data api s e p) = (entries p)(s \<mapsto> e) \<or> entries (proc_create_data api s e p) = entries p)) \<and>
     (\<forall>s p. tables (remove_proc_entry api s p) = tables p \<and>
        ((\<forall>t. entries p (s @ ''/'' @ t) = None) \<longrightarrow> entries (remove_proc_entry api s p) = (entries p)(s := None))) \<and>
     (\<forall>p. entries (snd (kmemdup api p)) = entries p \<and> tables (snd (kmemdup api p)) = tables p) \<and>
     (\<forall>s vs p. entries (snd (register_sysctl_table api s vs p)) = entries p \<and>
        (case fst (register_sysctl_table api s vs p) of
           None \<Rightarrow> tables (snd (register_sysctl_table api s vs p)) = tables p
         | Some h \<Rightarrow> tables p h = None \<and> tables (snd (register_sysctl_table api s vs p)) = (tables p)(h \<mapsto> s))) \<and>
     (\<forall>h p. entries (unregister_sysctl_table api h p) = entries p \<and>
        tables (unregister_sysctl_table api h p) = (tables p)(h := None))"

lemma proc_lawsD:
  assumes "proc_laws api entries tables"
  shows "tables (snd (proc_mkdir api s p)) = tables p"
    and "fst (proc_mkdir api s p) \<Longrightarrow> entries p s = None \<and> entries (snd (proc_mkdir api s p)) = (entries p)(s \<mapsto> Proc_dir)"
    and "\<not> fst (proc_mkdir api s p) \<Longrightarrow> entries (snd (proc_mkdir api s p)) = entries p"
    and "tables (proc_create_data api s e p) = tables p"
    and "entries (proc_create_data api s e p) = (entries p)(s \<mapsto> e) \<or> entries (proc_create_data api s e p) = entries p"
    and "tables (remove_proc_entry api s p) = tables p"
    and "(\<And>t. entries p (s @ ''/'' @ t) = None) \<Longrightarrow> entries (remove_proc_entry api s p) = (entries p)(s := None)"
    and "entries (snd (kmemdup api p)) = entries p" and "tables (snd (kmemdup api p)) = tables p"
    and "entries (snd (register_sysctl_table api n vs p)) = entries p"
    and "fst (register_sysctl_table api n vs p) = None \<Longrightarrow> tables (snd (register_sysctl_table api n vs p)) = tables p"
    and "fst (register_sysctl_table api n vs p) = Some h \<Longrightarrow>
      tables p h = None \<and> tables (snd (register_sysctl_table api n vs p)) = (tables p)(h \<mapsto> n)"
    and "entries (unregister_sysctl_table api h p) = entries p"
    and "tables (unregister_sysctl_table api h p) = (tables p)(h := None)"
proof -
  show "tables (snd (proc_mkdir api s p)) = tables p"
    "fst (proc_mkdir api s p) \<Longrightarrow> entries p s = None \<and> entries (snd (proc_mkdir api s p)) = (entries p)(s \<mapsto> Proc_dir)"
    "\<not> fst (proc_mkdir api s p) \<Longrightarrow> entries (snd (proc_mkdir api s p)) = entries p"
    using assms unfolding proc_laws_def by metis+
  show "tables (proc_create_data api s e p) = tables p"
    "entries (proc_create_data api s e p) = (entries p)(s \<mapsto> e) \<or> entries (proc_create_data api s e p) = entries p"
    "tables (remove_proc_entry api s p) = tables p"
    "(\<And>t. entries p (s @ ''/'' @ t) = None) \<Longrightarrow> entries (remove_proc_entry api s p) = (entries p)(s := None)"
    "entries (snd (kmemdup api p)) = entries p" "tables (snd (kmemdup api p)) = tables p"
    "entries (snd (register_sysctl_table api n vs p)) = entries p"
    "entries (unregister_sysctl_table api h p) = entries p"
    "tables (unregister_sysctl_table api h p) = (tables p)(h := None)"
    using assms unfolding proc_laws_def by blast+
  have r: "case fst (register_sysctl_table api n vs p) of
      None \<Rightarrow> tables (snd (register_sysctl_table api n vs p)) = tables p
    | Some h \<Rightarrow> tables p h = None \<and> tables (snd (register_sysctl_table api n vs p)) = (tables p)(h \<mapsto> n)"
    using assms unfolding proc_laws_def by blast
  show "fst (register_sysctl_table api n vs p) = None \<Longrightarrow> tables (snd (register_sysctl_table api n vs p)) = tables p"
    "fst (register_sysctl_table api n vs p) = Some h \<Longrightarrow>
      tables p h = None \<and> tables (snd (register_sysctl_table api n vs p)) = (tables p)(h \<mapsto> n)"
    using r by simp_all
qed

text \<open>The paths of a cache, and the map without them.\<close>

definition leaves :: "string list" where
  "leaves = [''flashcache_stats'', ''flashcache_errors'', ''flashcache_iosize_hist'', ''flashcache_pidlists'']"

definition own_paths :: "string \<Rightarrow> string set" where
  "own_paths s = insert s ((\<lambda>l. s @ CHR ''/'' # l) ` set leaves)"

definition same_outside :: "string set \<Rightarrow> (string \<Rightarrow> proc_entry option) \<Rightarrow> (string \<Rightarrow> proc_entry option) \<Rightarrow> bool" where
  "same_outside A m m' \<longleftrightarrow> (\<forall>x. x \<notin> A \<longrightarrow> m' x = m x)"

lemma below_leaf:
  assumes "l \<in> set leaves"
  shows "s @ CHR ''/'' # l @ CHR ''/'' # t \<notin> own_paths s"
proof
  assume "s @ CHR ''/'' # l @ CHR ''/'' # t \<in> own_paths s"
  then obtain l' where "l' \<in> set leaves" "l' = l @ CHR ''/'' # t" by (auto simp: own_paths_def)
  then show False by (auto simp: leaves_def append_eq_Cons_conv)
qed

lemma create_step:
  assumes laws: "proc_laws api entries tables" and l: "l \<in> set leaves"
    and same: "same_outside (own_paths (cache_path cdev (disk_devname d))) m (entries p)"
  shows "\<exists>q. create_file api cdev d l ops p = Some q \<and> tables q = tables p \<and>
    same_outside (own_paths (cache_path cdev (disk_devname d))) m (entries q)"
proof -
  let ?s = "cache_path cdev (disk_devname d) @ CHR ''/'' # l"
  have "l \<noteq> []" using l by (auto simp: leaves_def)
  then have "create_file api cdev d l ops p = Some (proc_create_data api ?s (Proc_file ops (Some (tgt d))) p)"
    by (simp add: create_file_def cachename)
  moreover have "?s \<in> own_paths (cache_path cdev (disk_devname d))" using l by (simp add: own_paths_def)
  ultimately show ?thesis
    using proc_lawsD(4,5) [OF laws, of ?s "Proc_file ops (Some (tgt d))" p] same by (auto simp: same_outside_def)
qed

lemma remove_step:
  assumes laws: "proc_laws api entries tables" and l: "l \<in> set leaves"
    and same: "same_outside (own_paths (cache_path cdev (disk_devname d))) m (entries p)"
    and clear: "\<And>t. m (cache_path cdev (disk_devname d) @ ''/'' @ t) = None"
  shows "\<exists>q. remove_file api cdev d l p = Some q \<and> tables q = tables p \<and>
    entries q = (entries p)(cache_path cdev (disk_devname d) @ CHR ''/'' # l := None) \<and>
    same_outside (own_paths (cache_path cdev (disk_devname d))) m (entries q)"
proof -
  let ?d = "cache_path cdev (disk_devname d)"
  let ?s = "?d @ CHR ''/'' # l"
  have "l \<noteq> []" using l by (auto simp: leaves_def)
  then have run: "remove_file api cdev d l p = Some (remove_proc_entry api ?s p)"
    by (simp add: remove_file_def cachename)
  have "entries p (?s @ ''/'' @ t) = None" for t
    using same below_leaf [OF l, of ?d t] clear [of "l @ ''/'' @ t"] by (simp add: same_outside_def)
  from proc_lawsD(7) [OF laws this]
  have e: "entries (remove_proc_entry api ?s p) = (entries p)(?s := None)" .
  moreover have "?s \<in> own_paths ?d" using l by (simp add: own_paths_def)
  ultimately show ?thesis
    using run proc_lawsD(6) [OF laws, of ?s p] same by (auto simp: same_outside_def)
qed

lemma unregister_eff:
  assumes "proc_laws api entries tables"
  shows "entries (flashcache_writeback_sysctl_unregister api h p) = entries p"
    and "entries (flashcache_writethrough_sysctl_unregister api h p) = entries p"
    and "tables (flashcache_writeback_sysctl_unregister api h p) = (case h of None \<Rightarrow> tables p | Some n \<Rightarrow> (tables p)(n := None))"
    and "tables (flashcache_writethrough_sysctl_unregister api h p) = (case h of None \<Rightarrow> tables p | Some n \<Rightarrow> (tables p)(n := None))"
  using proc_lawsD(13,14) [OF assms]
  by (cases h; simp add: flashcache_writeback_sysctl_unregister_def flashcache_writethrough_sysctl_unregister_def)+

text \<open>The destructor leaves none of the paths of the cache, whoever made them.\<close>

lemma dtr_effect:
  assumes laws: "proc_laws api entries tables"
    and same: "same_outside (own_paths (cache_path cdev (disk_devname d))) m (entries p)"
    and clear: "\<And>t. m (cache_path cdev (disk_devname d) @ ''/'' @ t) = None"
  shows "\<exists>q. flashcache_dtr_procfs api cdev d h p = Some q \<and>
    entries q = (\<lambda>x. if x \<in> own_paths (cache_path cdev (disk_devname d)) then None else m x) \<and>
    tables q = (case h of None \<Rightarrow> tables p | Some n \<Rightarrow> (tables p)(n := None))"
proof -
  let ?d = "cache_path cdev (disk_devname d)"
  let ?l = "\<lambda>i. ?d @ CHR ''/'' # leaves ! i"
  have in_leaves: "leaves ! 0 \<in> set leaves" "leaves ! 1 \<in> set leaves" "leaves ! 2 \<in> set leaves" "leaves ! 3 \<in> set leaves"
    by (simp_all add: leaves_def)
  from remove_step [OF laws in_leaves(1) same clear] obtain p1 where
    1: "remove_file api cdev d (leaves ! 0) p = Some p1" "tables p1 = tables p" "entries p1 = (entries p)(?l 0 := None)"
      "same_outside (own_paths ?d) m (entries p1)" by blast
  from remove_step [OF laws in_leaves(2) 1(4) clear] obtain p2 where
    2: "remove_file api cdev d (leaves ! 1) p1 = Some p2" "tables p2 = tables p1" "entries p2 = (entries p1)(?l 1 := None)"
      "same_outside (own_paths ?d) m (entries p2)" by blast
  from remove_step [OF laws in_leaves(3) 2(4) clear] obtain p3 where
    3: "remove_file api cdev d (leaves ! 2) p2 = Some p3" "tables p3 = tables p2" "entries p3 = (entries p2)(?l 2 := None)"
      "same_outside (own_paths ?d) m (entries p3)" by blast
  from remove_step [OF laws in_leaves(4) 3(4) clear] obtain p4 where
    4: "remove_file api cdev d (leaves ! 3) p3 = Some p4" "tables p4 = tables p3" "entries p4 = (entries p3)(?l 3 := None)"
      "same_outside (own_paths ?d) m (entries p4)" by blast
  have own: "own_paths ?d = {?d, ?l 0, ?l 1, ?l 2, ?l 3}" by (simp add: own_paths_def leaves_def)
  have gone: "x \<in> own_paths ?d \<Longrightarrow> x \<noteq> ?d \<Longrightarrow> entries p4 x = None" for x
    unfolding own using 2(3) 3(3) 4(3) 1(3) by auto
  have "entries p4 (?d @ ''/'' @ t) = None" for t
    using gone [of "?d @ ''/'' @ t"] 4(4) clear [of t] by (cases "?d @ ''/'' @ t \<in> own_paths ?d") (auto simp: same_outside_def)
  from proc_lawsD(7) [OF laws this] have 5: "entries (remove_proc_entry api ?d p4) = (entries p4)(?d := None)" .
  have run: "flashcache_dtr_procfs api cdev d h p = Some (if mode d = FLASHCACHE_WRITE_BACK
      then flashcache_writeback_sysctl_unregister api h (remove_proc_entry api ?d p4)
      else flashcache_writethrough_sysctl_unregister api h (remove_proc_entry api ?d p4))"
    using 1(1) 2(1) 3(1) 4(1) by (simp add: flashcache_dtr_procfs_def leaves_def) (simp add: remove_file_def cachename)
  have "(entries p4)(?d := None) = (\<lambda>x. if x \<in> own_paths ?d then None else m x)"
    using gone 4(4) by (auto simp: same_outside_def own_paths_def)
  then show ?thesis
    using run 5 unregister_eff [OF laws] proc_lawsD(6) [OF laws, of ?d p4] 1(2) 2(2) 3(2) 4(2) by (cases h) simp_all
qed

lemma register_eff:
  assumes laws: "proc_laws api entries tables"
    and "flashcache_writeback_sysctl_register api cdev ddev p = Some (h, q) \<or>
      flashcache_writethrough_sysctl_register api cdev ddev p = Some (h, q)"
  shows "entries q = entries p \<and>
    (case h of None \<Rightarrow> tables q = tables p | Some n \<Rightarrow> tables p n = None \<and> (\<exists>s. tables q = (tables p)(n \<mapsto> s)))"
proof -
  let ?k = "snd (kmemdup api p)"
  from assms(2) have "h = None \<and> q = ?k \<or> (\<exists>n vs. register_sysctl_table api n vs ?k = (h, q))"
    by (auto simp: flashcache_writeback_sysctl_register_def flashcache_writethrough_sysctl_register_def Let_def
        bind_eq_Some_conv split: prod.splits if_splits)
  then show ?thesis
  proof (elim disjE exE conjE)
    assume "h = None" "q = ?k"
    then show ?thesis using proc_lawsD(8,9) [OF laws, of p] by simp
  next
    fix n vs assume r: "register_sysctl_table api n vs ?k = (h, q)"
    show ?thesis
      using proc_lawsD(8,9) [OF laws, of p] proc_lawsD(10-12) [OF laws, of n vs ?k] r by (cases h) auto
  qed
qed

lemma ctr_effect:
  assumes laws: "proc_laws api entries tables" and run: "flashcache_ctr_procfs api cdev d p = Some (h, q)"
  shows "same_outside (own_paths (cache_path cdev (disk_devname d))) (entries p) (entries q) \<and>
    (case h of None \<Rightarrow> tables q = tables p | Some n \<Rightarrow> tables p n = None \<and> (\<exists>s. tables q = (tables p)(n \<mapsto> s))) \<and>
    (entries p (cache_path cdev (disk_devname d)) \<noteq> None \<longrightarrow> h = None \<and> entries q = entries p)"
proof -
  let ?d = "cache_path cdev (disk_devname d)"
  let ?m = "proc_mkdir api ?d p"
  show ?thesis
  proof (cases "fst ?m")
    case False
    then have "h = None" "q = snd ?m"
      using run by (auto simp: flashcache_ctr_procfs_def cachename split: prod.splits)
    then show ?thesis using proc_lawsD(1,3) [OF laws, of ?d p] False by (simp add: same_outside_def)
  next
    case True
    let ?s = "\<lambda>p'. same_outside (own_paths ?d) (entries p) (entries p')"
    from True proc_lawsD(1,2) [OF laws, of ?d p] have 0: "?s (snd ?m)" "tables (snd ?m) = tables p" "entries p ?d = None"
      by (auto simp: same_outside_def own_paths_def)
    from create_step [OF laws _ 0(1), of "leaves ! 0"] obtain p1 where
      1: "create_file api cdev d (leaves ! 0) Stats_operations (snd ?m) = Some p1" "tables p1 = tables (snd ?m)" "?s p1"
      by (auto simp: leaves_def)
    from create_step [OF laws _ 1(3), of "leaves ! 1"] obtain p2 where
      2: "create_file api cdev d (leaves ! 1) Errors_operations p1 = Some p2" "tables p2 = tables p1" "?s p2"
      by (auto simp: leaves_def)
    from create_step [OF laws _ 2(3), of "leaves ! 2"] obtain p3 where
      3: "create_file api cdev d (leaves ! 2) Iosize_hist_operations p2 = Some p3" "tables p3 = tables p2" "?s p3"
      by (auto simp: leaves_def)
    from create_step [OF laws _ 3(3), of "leaves ! 3"] obtain p4 where
      4: "create_file api cdev d (leaves ! 3) Pidlists_operations p3 = Some p4" "tables p4 = tables p3" "?s p4"
      by (auto simp: leaves_def)
    have "flashcache_writeback_sysctl_register api cdev (disk_devname d) p4 = Some (h, q) \<or>
        flashcache_writethrough_sysctl_register api cdev (disk_devname d) p4 = Some (h, q)"
      using run True 1(1) 2(1) 3(1) 4(1)
      by (auto simp: flashcache_ctr_procfs_def cachename leaves_def split: prod.splits if_splits)
    from register_eff [OF laws this] show ?thesis
      using 4(2,3) 3(2) 2(2) 1(2) 0(2,3) by (cases h) simp_all
  qed
qed

section \<open>A kernel with these laws\<close>

text \<open>Entries, tables and the next handle.\<close>

type_synonym demo_proc = "(string \<Rightarrow> proc_entry option) \<times> (nat \<Rightarrow> string option) \<times> nat"

definition demo_api :: "demo_proc proc_api" where
  "demo_api = \<lparr>proc_mkdir = (\<lambda>s (m, t, n). if m s = None then (True, m(s \<mapsto> Proc_dir), t, n) else (False, m, t, n)),
     proc_create_data = (\<lambda>s e (m, t, n). (m(s \<mapsto> e), t, n)), remove_proc_entry = (\<lambda>s (m, t, n). (m(s := None), t, n)),
     kmemdup = (\<lambda>p. (True, p)),
     register_sysctl_table = (\<lambda>s vs (m, t, n). if t n = None then (Some n, m, t(n \<mapsto> s), n + 1) else (None, m, t, n)),
     unregister_sysctl_table = (\<lambda>h (m, t, n). (m, t(h := None), n))\<rparr>"

lemma demo_api_laws: "proc_laws demo_api fst (fst \<circ> snd)"
  by (auto simp: proc_laws_def demo_api_def)

definition demo_proc_start :: demo_proc where
  "demo_proc_start = (\<lambda>_. None, \<lambda>_. None, 0)"

definition demo_disk_a :: cache_c where "demo_disk_a = demo\<lparr>disk_devname := ''/dev/a/disk'', tgt := 1\<rparr>"
definition demo_disk_b :: cache_c where "demo_disk_b = demo\<lparr>disk_devname := ''/dev/b/disk'', tgt := 2\<rparr>"

lemma demo_paths:
  "base_name ''/dev/a/disk'' = ''disk''" "base_name ''/dev/b/disk'' = ''disk''" "base_name ''/dev/ssd'' = ''ssd''"
  by (simp_all add: base_name_def)

lemma demo_registered:
  "\<exists>h q. flashcache_ctr_procfs demo_api ''/dev/ssd'' demo_disk_a demo_proc_start = Some (h, q) \<and>
    fst q ''flashcache/ssd+disk'' = Some Proc_dir"
proof -
  obtain vs ws where v: "sysctl_vars flashcache_writeback_sysctl = Some vs" "sysctl_vars flashcache_writethrough_sysctl = Some ws"
    using tables_registered [of FLASHCACHE_WRITE_BACK] tables_registered [of FLASHCACHE_WRITE_THROUGH]
    by (auto simp: sysctl_table_def)
  show ?thesis
    by (simp add: flashcache_ctr_procfs_def cachename cache_path_def create_file_def demo_api_def demo_proc_start_def
        flashcache_writeback_sysctl_register_def flashcache_writethrough_sysctl_register_def v sysctl_devname
        demo_disk_a_def demo_paths)
qed

section \<open>The properties\<close>

text \<open>C32. A write to any sysctl of a cache, through its table and the handler of the name, is a sequence of steps of
  the driver, so every property of the reachable states survives it. A write to one without a handler of its own
  stores the value in the field of that name and leaves every other sysctl of the table as it was.\<close>

theorem sysctl_write_refines:
  assumes "(name, h) \<in> set (sysctl_table (mode d))"
  shows "(\<forall>d'. sysctl_write name v d = Some d' \<longrightarrow> driver_reach d [] d') \<and>
    (h = Proc_dointvec \<longrightarrow> (\<forall>(other, g) \<in> set (sysctl_table (mode d)). \<exists>get put get' put' d'.
       flashcache_find_sysctl_data name = Some (get, put) \<and> flashcache_find_sysctl_data other = Some (get', put') \<and>
       sysctl_write name v d = Some d' \<and> get d' = v \<and> (other \<noteq> name \<longrightarrow> get' d' = get' d)))"
proof (intro conjI allI impI)
  fix d' assume "sysctl_write name v d = Some d'"
  then show "driver_reach d [] d'" by (rule write_reach_step)
next
  assume "h = Proc_dointvec"
  with assms have "(name, Proc_dointvec) \<in> set (sysctl_table (mode d))" by simp
  from write_plain [OF this] show "\<forall>(other, g) \<in> set (sysctl_table (mode d)). \<exists>get put get' put' d'.
       flashcache_find_sysctl_data name = Some (get, put) \<and> flashcache_find_sysctl_data other = Some (get', put') \<and>
       sysctl_write name v d = Some d' \<and> get d' = v \<and> (other \<noteq> name \<longrightarrow> get' d' = get' d)"
    by blast
qed

theorem sysctl_write_refines_witness:
  "\<exists>d'. sysctl_write ''max_pids'' 7 demo = Some d' \<and> sysctl_max_pids (sysctl d') = 7 \<and> driver_reach demo [] d'"
proof -
  have "(''max_pids'', Proc_dointvec) \<in> set (sysctl_table (mode demo))"
    by (simp add: sysctl_table_def flashcache_writeback_sysctl_def flashcache_writethrough_sysctl_def)
  with sysctl_write_refines [OF this, of 7]
  have r: "\<forall>d'. sysctl_write ''max_pids'' 7 demo = Some d' \<longrightarrow> driver_reach demo [] d'"
    and "\<exists>get put get' put' d'. flashcache_find_sysctl_data ''max_pids'' = Some (get, put) \<and>
       flashcache_find_sysctl_data ''max_pids'' = Some (get', put') \<and>
       sysctl_write ''max_pids'' 7 demo = Some d' \<and> get d' = 7 \<and> (''max_pids'' \<noteq> ''max_pids'' \<longrightarrow> get' d' = get' demo)"
    by fast+
  then obtain get put d' where "flashcache_find_sysctl_data ''max_pids'' = Some (get, put)"
    "sysctl_write ''max_pids'' 7 demo = Some d'" "get d' = 7" by blast
  with r show ?thesis by (auto simp: flashcache_find_sysctl_data_def sysctl_fields_def)
qed

text \<open>C33. What the constructor puts below \<open>/proc\<close> is gone after the destructor: whatever fails on the way, a
  directory, a file, the copy or the registration of the table, the entries and the sysctl tables are those from
  before, provided nothing was at the path of the cache.\<close>

theorem procfs_roundtrip:
  assumes "proc_laws api entries tables" and "flashcache_ctr_procfs api cdev d p = Some (h, q)"
    and "entries p (cache_path cdev (disk_devname d)) = None"
    and "\<And>t. entries p (cache_path cdev (disk_devname d) @ ''/'' @ t) = None"
  shows "\<exists>r. flashcache_dtr_procfs api cdev d h q = Some r \<and> entries r = entries p \<and> tables r = tables p"
proof -
  let ?d = "cache_path cdev (disk_devname d)"
  from ctr_effect [OF assms(1,2)] have c: "same_outside (own_paths ?d) (entries p) (entries q)"
    "case h of None \<Rightarrow> tables q = tables p | Some n \<Rightarrow> tables p n = None \<and> (\<exists>s. tables q = (tables p)(n \<mapsto> s))" by simp_all
  have "entries p x = None" if "x \<in> own_paths ?d" for x using that assms(3) assms(4) by (auto simp: own_paths_def)
  then have "(\<lambda>x. if x \<in> own_paths ?d then None else entries p x) = entries p" by auto
  moreover have "(case h of None \<Rightarrow> tables q | Some n \<Rightarrow> (tables q)(n := None)) = tables p"
    using c(2) by (cases h) auto
  ultimately show ?thesis using dtr_effect [OF assms(1) c(1) assms(4), of h] by simp
qed

theorem procfs_roundtrip_witness:
  "\<exists>h q r. flashcache_ctr_procfs demo_api ''/dev/ssd'' demo_disk_a demo_proc_start = Some (h, q) \<and>
    flashcache_dtr_procfs demo_api ''/dev/ssd'' demo_disk_a h q = Some r \<and> fst r = (\<lambda>_. None) \<and> fst (snd r) = (\<lambda>_. None)"
  using demo_registered procfs_roundtrip [OF demo_api_laws, of "''/dev/ssd''" demo_disk_a demo_proc_start]
  by (fastforce simp: demo_proc_start_def)

text \<open>C34. Two caches whose devices have the same last components use the same path. The constructor of the second
  registers nothing, neither its files nor its sysctls, and its destructor removes the files of the first, which
  is still there.\<close>

theorem procfs_clash:
  assumes "proc_laws api entries tables" and "flashcache_ctr_procfs api cdev d p = Some (h, q)"
    and "entries q (cache_path cdev (disk_devname d)) \<noteq> None"
    and "\<And>t. entries p (cache_path cdev (disk_devname d) @ ''/'' @ t) = None"
    and "base_name cdev' = base_name cdev" and "base_name (disk_devname d') = base_name (disk_devname d)"
    and "flashcache_ctr_procfs api cdev' d' q = Some (h', q')"
  shows "h' = None \<and> entries q' = entries q \<and> tables q' = tables q \<and>
    (\<exists>r. flashcache_dtr_procfs api cdev' d' h' q' = Some r \<and> tables r = tables q \<and>
      entries r (cache_path cdev (disk_devname d)) = None \<and>
      (\<forall>t. entries r (cache_path cdev (disk_devname d) @ ''/'' @ t) = None))"
proof -
  let ?d = "cache_path cdev (disk_devname d)"
  have path: "cache_path cdev' (disk_devname d') = ?d" by (simp add: cache_path_def assms(5,6))
  note c = ctr_effect [OF assms(1,7), unfolded path]
  from c assms(3) have h: "h' = None" by blast
  from c assms(3) have 2: "h' = None" "entries q' = entries q" "tables q' = tables q" by (simp_all add: h)
  from ctr_effect [OF assms(1,2)] have "same_outside (own_paths ?d) (entries p) (entries q')" by (simp add: 2)
  from dtr_effect [OF assms(1), of cdev' d' "entries p" q' h', unfolded path, OF this assms(4)] obtain r where
    "flashcache_dtr_procfs api cdev' d' h' q' = Some r" "tables r = tables q"
    "entries r = (\<lambda>x. if x \<in> own_paths ?d then None else entries p x)" by (auto simp: h 2)
  then show ?thesis using 2 assms(4) by (simp add: own_paths_def)
qed

theorem procfs_clash_witness:
  "\<exists>h q r. flashcache_ctr_procfs demo_api ''/dev/ssd'' demo_disk_a demo_proc_start = Some (h, q) \<and>
    fst q ''flashcache/ssd+disk'' = Some Proc_dir \<and>
    flashcache_dtr_procfs demo_api ''/dev/ssd'' demo_disk_b None q = Some r \<and> fst r ''flashcache/ssd+disk'' = None"
proof -
  from demo_registered obtain h q where
    1: "flashcache_ctr_procfs demo_api ''/dev/ssd'' demo_disk_a demo_proc_start = Some (h, q)"
      "fst q ''flashcache/ssd+disk'' = Some Proc_dir" by blast
  have path: "cache_path ''/dev/ssd'' (disk_devname demo_disk_a) = ''flashcache/ssd+disk''"
    "cache_path ''/dev/ssd'' (disk_devname demo_disk_b) = ''flashcache/ssd+disk''"
    by (simp_all add: cache_path_def demo_disk_a_def demo_disk_b_def demo_paths)
  have 2: "flashcache_ctr_procfs demo_api ''/dev/ssd'' demo_disk_b q = Some (None, q)"
    using 1(2) by (cases q) (simp add: flashcache_ctr_procfs_def cachename path, simp add: demo_api_def)
  have "base_name (disk_devname demo_disk_b) = base_name (disk_devname demo_disk_a)"
    by (simp add: demo_disk_a_def demo_disk_b_def demo_paths)
  moreover have "fst demo_proc_start x = None" for x by (simp add: demo_proc_start_def)
  ultimately show ?thesis using procfs_clash [OF demo_api_laws 1(1) _ _ refl _ 2, unfolded path] 1 by fastforce
qed

text \<open>The names fit the buffers they are built in. The path in \<open>/proc\<close> is made for any name of the devices; the
  name of the sysctl directory takes what follows the last slash without looking whether there is one, so for a
  device that was given without a path (as \<open>8:16\<close>) the constructor reads through a null pointer.\<close>

theorem procfs_names:
  "flashcache_cons_procfs_cachename cdev ddev leaf =
     Some (''flashcache/'' @ base_name cdev @ ''+'' @ base_name ddev @ (if leaf = [] then [] else CHR ''/'' # leaf)) \<and>
   flashcache_cons_sysctl_devname cdev ddev =
     (if CHR ''/'' \<in> set cdev \<and> CHR ''/'' \<in> set ddev then Some (base_name cdev @ ''+'' @ base_name ddev) else None)"
  by (simp add: cachename cache_path_def sysctl_devname)

theorem procfs_names_witness: "flashcache_cons_sysctl_devname ''/dev/ssd'' ''8:16'' = None"
  using procfs_names [of "''/dev/ssd''" "''8:16''" "[]"] by simp

end
