(* ===== verification/Status.thy ===== *)
theory Status
  imports Target "HOL-Library.Char_ord"
begin

text \<open>
  What the driver prints: the files below \<open>/proc/flashcache\<close> (\<open>flashcache_procfs.c\<close>), the answers to
  \<open>dmsetup status\<close> and \<open>dmsetup table\<close>, and the statistics logged by the destructor (\<open>flashcache_conf.c\<close>). The
  format strings are those of the code; \<open>printf\<close> knows the conversions that they use. \<open>cdev\<close> is the name of the
  flash device.
\<close>

section \<open>Formatted output\<close>

fun show_nat :: "nat \<Rightarrow> string" where
  "show_nat n = (if n < 10 then [char_of (48 + n)] else show_nat (n div 10) @ [char_of (48 + n mod 10)])"

declare show_nat.simps [simp del]

definition show_int :: "int \<Rightarrow> string" where
  "show_int i = (if i < 0 then CHR ''-'' # show_nat (nat (- i)) else show_nat (nat i))"

text \<open>The arguments: an unsigned 64 bit word, an \<open>int\<close>, an \<open>unsigned int\<close>, a string.\<close>

datatype arg = Arg_lu u64 | Arg_d int | Arg_u nat | Arg_s string

primrec show_arg :: "arg \<Rightarrow> string" where
  "show_arg (Arg_lu w) = show_nat (unat w)"
| "show_arg (Arg_d i) = show_int i"
| "show_arg (Arg_u n) = show_nat n"
| "show_arg (Arg_s s) = s"

text \<open>A conversion is a percent sign, length modifiers \<open>l\<close> and one letter.\<close>

function printf :: "string \<Rightarrow> arg list \<Rightarrow> string" where
  "printf [] args = []"
| "printf (c # f) args =
     (if c \<noteq> CHR ''%'' then c # printf f args
      else case args of [] \<Rightarrow> [] | a # args \<Rightarrow> show_arg a @ printf (drop 1 (dropWhile (\<lambda>c. c = CHR ''l'') f)) args)"
  by pat_completeness auto
termination
proof (relation "measure (length \<circ> fst)")
  fix c :: char and f :: string and a :: arg and args as
  show "((drop 1 (dropWhile (\<lambda>c. c = CHR ''l'') f), as), c # f, args) \<in> measure (length \<circ> fst)"
    using length_dropWhile_le [of "\<lambda>c. c = CHR ''l''" f] by simp
qed simp_all

definition nl :: string where "nl = [CHR 0x0A]"
definition tab :: string where "tab = [CHR 0x09]"

text \<open>The percentages: \<open>unsigned long\<close> arithmetic, stored in an \<open>int\<close>.\<close>

definition hit_pct :: "u64 \<Rightarrow> u64 \<Rightarrow> int" where
  "hit_pct hits n = (if n > 0 then sint (ucast (hits * 100 div n) :: 32 word) else 0)"

definition block_pct :: "int \<Rightarrow> cache_c \<Rightarrow> int" where
  "block_pct n d = (if csize d > 0
     then sint (ucast ((word_of_int n :: u64) * 100 div of_nat (csize d)) :: 32 word) else 0)"

section \<open>The files in \<open>/proc\<close>\<close>

definition flashcache_stats_show :: "cache_c \<Rightarrow> string" where
  "flashcache_stats_show d =
     (let s = flashcache_stats d; wb = mode d = FLASHCACHE_WRITE_BACK; wt = mode d = FLASHCACHE_WRITE_THROUGH
      in printf (''reads=%lu writes=%lu '' @ nl) [Arg_lu (reads s), Arg_lu (writes s)] @
         printf ''read_hits=%lu read_hit_percent=%d '' [Arg_lu (read_hits s), Arg_d (hit_pct (read_hits s) (reads s))] @
         (if wb \<or> wt
          then printf ''write_hits=%lu write_hit_percent=%d '' [Arg_lu (write_hits s), Arg_d (hit_pct (write_hits s) (writes s))]
          else []) @
         (if wb
          then printf ''dirty_write_hits=%lu dirty_write_hit_percent=%d ''
                 [Arg_lu (dirty_write_hits s), Arg_d (hit_pct (dirty_write_hits s) (writes s))]
          else []) @
         (if wb \<or> wt
          then printf ''replacement=%lu write_replacement=%lu '' [Arg_lu (replace s), Arg_lu (wr_replace s)] @
               printf ''write_invalidates=%lu read_invalidates=%lu '' [Arg_lu (wr_invalidates s), Arg_lu (rd_invalidates s)]
          else printf ''replacement=%lu '' [Arg_lu (replace s)] @
               printf ''read_invalidates=%lu '' [Arg_lu (rd_invalidates s)]) @
         printf ''pending_enqueues=%lu pending_inval=%lu '' [Arg_lu (enqueues s), Arg_lu (pending_inval s)] @
         (if wb
          then printf ''metadata_dirties=%lu metadata_cleans=%lu '' [Arg_lu (md_write_dirty s), Arg_lu (md_write_clean s)] @
               printf ''metadata_batch=%lu metadata_ssd_writes=%lu '' [Arg_lu (md_write_batch s), Arg_lu (md_ssd_writes s)] @
               printf ''cleanings=%lu fallow_cleanings=%lu '' [Arg_lu (cleanings s), Arg_lu (fallow_cleanings s)]
          else []) @
         printf ''no_room=%lu '' [Arg_lu (noroom s)] @
         (if wb then printf ''front_merge=%lu back_merge=%lu '' [Arg_lu (front_merge s), Arg_lu (back_merge s)] else []) @
         printf ''disk_reads=%lu disk_writes=%lu ssd_reads=%lu ssd_writes=%lu ''
           [Arg_lu (disk_reads s), Arg_lu (disk_writes s), Arg_lu (ssd_reads s), Arg_lu (ssd_writes s)] @
         printf ''uncached_reads=%lu uncached_writes=%lu uncached_IO_requeue=%lu ''
           [Arg_lu (uncached_reads s), Arg_lu (uncached_writes s), Arg_lu (uncached_io_requeue s)] @
         printf ''uncached_sequential_reads=%lu uncached_sequential_writes=%lu ''
           [Arg_lu (uncached_sequential_reads s), Arg_lu (uncached_sequential_writes s)] @
         printf (''pid_adds=%lu pid_dels=%lu pid_drops=%lu pid_expiry=%lu'' @ nl)
           [Arg_lu (pid_adds s), Arg_lu (pid_dels s), Arg_lu (pid_drops s), Arg_lu (expiry s)])"

definition flashcache_errors_show :: "cache_c \<Rightarrow> string" where
  "flashcache_errors_show d =
     (let e = flashcache_errors d
      in printf ''disk_read_errors=%d disk_write_errors=%d '' [Arg_d (disk_read_errors e), Arg_d (disk_write_errors e)] @
         printf ''ssd_read_errors=%d ssd_write_errors=%d '' [Arg_d (ssd_read_errors e), Arg_d (ssd_write_errors e)] @
         printf (''memory_alloc_errors=%d'' @ nl) [Arg_d (memory_alloc_errors e)])"

definition flashcache_iosize_hist_show :: "cache_c \<Rightarrow> string" where
  "flashcache_iosize_hist_show d =
     concat (map (\<lambda>i. printf ''%d:%llu '' [Arg_d (int i * 512), Arg_lu (size_hist d i)]) [1..<33]) @ nl"

definition pid_line :: "flashcache_cachectl_pid \<Rightarrow> string" where
  "pid_line n = printf ''%u '' [Arg_u (nat (ctl_pid n mod 2 ^ 32))]"

definition flashcache_pidlists_show :: "cache_c \<Rightarrow> string" where
  "flashcache_pidlists_show d =
     ''Blacklist: '' @ concat (map pid_line (blacklist d)) @ nl @
     ''Whitelist: '' @ concat (map pid_line (whitelist d)) @ nl"

section \<open>Device mapper status\<close>

text \<open>
  \<open>DMEMIT\<close>: append to the \<open>maxlen\<close> bytes of the result what fits, with room for the final null. The
  device mapper passes a buffer of at least one byte.
\<close>

definition dmemit :: "nat \<Rightarrow> string \<Rightarrow> string \<Rightarrow> string" where
  "dmemit maxlen text result =
     (if length result \<ge> maxlen then result else result @ take (maxlen - length result - 1) text)"

definition status_mode_lines :: "cache_c \<Rightarrow> string list" where
  "status_mode_lines d =
     (let s = flashcache_stats d
      in if mode d = FLASHCACHE_WRITE_BACK
         then [printf (tab @ ''read hits(%lu), read hit percent(%d)'' @ nl @
                 tab @ ''write hits(%lu) write hit percent(%d)'' @ nl @
                 tab @ ''dirty write hits(%lu) dirty write hit percent(%d)'' @ nl @
                 tab @ ''replacement(%lu), write replacement(%lu)'' @ nl @
                 tab @ ''write invalidates(%lu), read invalidates(%lu)'' @ nl)
               [Arg_lu (read_hits s), Arg_d (hit_pct (read_hits s) (reads s)), Arg_lu (write_hits s), Arg_d (hit_pct (write_hits s) (writes s)),
                Arg_lu (dirty_write_hits s), Arg_d (hit_pct (dirty_write_hits s) (writes s)), Arg_lu (replace s), Arg_lu (wr_replace s),
                Arg_lu (wr_invalidates s), Arg_lu (rd_invalidates s)],
               printf (tab @ ''pending enqueues(%lu), pending inval(%lu)'' @ nl @
                 tab @ ''metadata dirties(%lu), metadata cleans(%lu)'' @ nl @
                 tab @ ''metadata batch(%lu) metadata ssd writes(%lu)'' @ nl @
                 tab @ ''cleanings(%lu) fallow cleanings(%lu)'' @ nl @
                 tab @ ''no room(%lu) front merge(%lu) back merge(%lu)'' @ nl @
                 tab @ ''force_clean_block(%lu)'' @ nl)
               [Arg_lu (enqueues s), Arg_lu (pending_inval s), Arg_lu (md_write_dirty s), Arg_lu (md_write_clean s), Arg_lu (md_write_batch s),
                Arg_lu (md_ssd_writes s), Arg_lu (cleanings s), Arg_lu (fallow_cleanings s), Arg_lu (noroom s), Arg_lu (front_merge s),
                Arg_lu (back_merge s), Arg_lu (force_clean_block s)]]
         else if mode d = FLASHCACHE_WRITE_THROUGH
         then [printf (tab @ ''read hits(%lu), read hit percent(%d)'' @ nl @
                 tab @ ''write hits(%lu) write hit percent(%d)'' @ nl @
                 tab @ ''replacement(%lu), write replacement(%lu)'' @ nl @
                 tab @ ''write invalidates(%lu), read invalidates(%lu)'' @ nl)
               [Arg_lu (read_hits s), Arg_d (hit_pct (read_hits s) (reads s)), Arg_lu (write_hits s), Arg_d (hit_pct (write_hits s) (writes s)),
                Arg_lu (replace s), Arg_lu (wr_replace s), Arg_lu (wr_invalidates s), Arg_lu (rd_invalidates s)],
               printf (tab @ ''pending enqueues(%lu), pending inval(%lu)'' @ nl @ tab @ ''no room(%lu)'' @ nl)
               [Arg_lu (enqueues s), Arg_lu (pending_inval s), Arg_lu (noroom s)]]
         else [printf (tab @ ''read hits(%lu), read hit percent(%d)'' @ nl @
                 tab @ ''replacement(%lu), write replacement(%lu)'' @ nl @
                 tab @ ''invalidates(%lu)'' @ nl)
               [Arg_lu (read_hits s), Arg_d (hit_pct (read_hits s) (reads s)), Arg_lu (replace s), Arg_lu (wr_replace s), Arg_lu (rd_invalidates s)],
               printf (tab @ ''pending enqueues(%lu), pending inval(%lu)'' @ nl @ tab @ ''no room(%lu)'' @ nl)
               [Arg_lu (enqueues s), Arg_lu (pending_inval s), Arg_lu (noroom s)]])"

definition status_all_modes :: "cache_c \<Rightarrow> string" where
  "status_all_modes d =
     (let s = flashcache_stats d; e = flashcache_errors d
      in printf (tab @ ''disk reads(%lu), disk writes(%lu) ssd reads(%lu) ssd writes(%lu)'' @ nl @
           tab @ ''uncached reads(%lu), uncached writes(%lu), uncached IO requeue(%lu)'' @ nl @
           tab @ ''disk read errors(%d), disk write errors(%d) ssd read errors(%d) ssd write errors(%d)'' @ nl @
           tab @ ''uncached sequential reads(%lu), uncached sequential writes(%lu)'' @ nl @
           tab @ ''pid_adds(%lu), pid_dels(%lu), pid_drops(%lu) pid_expiry(%lu)'' @ nl @
           tab @ ''lru hot blocks(%d), lru warm blocks(%d)'' @ nl @
           tab @ ''lru promotions(%lu), lru demotions(%lu)'')
         [Arg_lu (disk_reads s), Arg_lu (disk_writes s), Arg_lu (ssd_reads s), Arg_lu (ssd_writes s), Arg_lu (uncached_reads s),
          Arg_lu (uncached_writes s), Arg_lu (uncached_io_requeue s), Arg_d (disk_read_errors e), Arg_d (disk_write_errors e),
          Arg_d (ssd_read_errors e), Arg_d (ssd_write_errors e), Arg_lu (uncached_sequential_reads s),
          Arg_lu (uncached_sequential_writes s), Arg_lu (pid_adds s), Arg_lu (pid_dels s), Arg_lu (pid_drops s), Arg_lu (expiry s),
          Arg_d (lru_hot_blocks d), Arg_d (lru_warm_blocks d), Arg_lu (lru_promotions s), Arg_lu (lru_demotions s)])"

definition status_latency_lines :: "cache_c \<Rightarrow> string list" where
  "status_latency_lines d =
     (if sysctl_io_latency_hist (sysctl d) \<noteq> 0
      then (nl @ ''IO Latency Histogram: '' @ nl) #
           map (\<lambda>i. printf (''< %d'' @ tab @ ''usecs : %lu'' @ nl)
                  [Arg_d (int i * IO_LATENCY_GRAN_USECS), Arg_lu (latency_hist d (i - 1))]) [1..<nat IO_LATENCY_BUCKETS + 1] @
           [printf (''> 10'' @ tab @ ''msecs : %lu'') [Arg_lu (latency_hist_10ms d)]]
      else [])"

definition status_info_texts :: "cache_c \<Rightarrow> string list" where
  "status_info_texts d =
     printf (''stats: '' @ nl @ tab @ ''reads(%lu), writes(%lu)'' @ nl)
       [Arg_lu (reads (flashcache_stats d)), Arg_lu (writes (flashcache_stats d))] #
     status_mode_lines d @ [status_all_modes d] @ status_latency_lines d"

definition flashcache_status_info :: "cache_c \<Rightarrow> nat \<Rightarrow> string" where
  "flashcache_status_info d maxlen = fold (dmemit maxlen) (status_info_texts d) []"

definition size_hist_texts :: "cache_c \<Rightarrow> string list" where
  "size_hist_texts d =
     map (\<lambda>i. printf ''%d:%llu '' [Arg_d (int i * 512), Arg_lu (size_hist d i)]) (filter (\<lambda>i. size_hist d i > 0) [1..<33])"

definition status_table_texts :: "string \<Rightarrow> cache_c \<Rightarrow> string list" where
  "status_table_texts cdev d =
     (let wb = (mode d = FLASHCACHE_WRITE_BACK);
          cache_mode = (if wb then (if write_only_cache d \<noteq> 0 then ''WRITE_CACHE'' else ''WRITE_BACK'')
            else if mode d = FLASHCACHE_WRITE_THROUGH then ''WRITE_THROUGH'' else ''WRITE_AROUND'')
      in [''conf:'' @ nl,
          printf (tab @ ''ssd dev (%s), disk dev (%s) cache mode(%s)'' @ nl) [Arg_s cdev, Arg_s (disk_devname d), Arg_s cache_mode],
          (if wb
           then printf (tab @ ''capacity(%luM), associativity(%u), data block size(%uK) metadata block size(%ub)'' @ nl)
                  [Arg_lu (drop_bit 11 (of_nat (csize d * block_size d))), Arg_u (assoc d), Arg_u (block_size d div 2),
                   Arg_u (md_block_size d * 512)]
           else printf (tab @ ''capacity(%luM), associativity(%u), data block size(%uK)'' @ nl)
                  [Arg_lu (drop_bit 11 (of_nat (csize d * block_size d))), Arg_u (assoc d), Arg_u (block_size d div 2)]),
          printf (tab @ ''disk assoc(%uK)'' @ nl) [Arg_u (disk_assoc d div 2)],
          printf (tab @ ''skip sequential thresh(%uK)'' @ nl) [Arg_u (nat (sysctl_skip_seq_thresh_kb (sysctl d) mod 2 ^ 32))],
          printf (tab @ ''total blocks(%lu), cached blocks(%d), cache percent(%d)'' @ nl)
            [Arg_lu (of_nat (csize d)), Arg_d (cached_blocks d), Arg_d (block_pct (cached_blocks d) d)]] @
         (if wb then [printf (tab @ ''dirty blocks(%d), dirty percent(%d)'' @ nl) [Arg_d (nr_dirty d), Arg_d (block_pct (nr_dirty d) d)]]
          else []) @
         [printf (tab @ ''nr_queued(%d)'' @ nl) [Arg_d (pending_jobs_count d)], ''Size Hist: ''] @ size_hist_texts d)"

definition flashcache_status_table :: "string \<Rightarrow> cache_c \<Rightarrow> nat \<Rightarrow> string" where
  "flashcache_status_table cdev d maxlen = fold (dmemit maxlen) (status_table_texts cdev d) []"

text \<open>\<open>STATUSTYPE_INFO\<close> (0), \<open>STATUSTYPE_TABLE\<close> (1) or any other value.\<close>

datatype status_type = STATUSTYPE_INFO | STATUSTYPE_TABLE | STATUSTYPE_OTHER

definition flashcache_status :: "string \<Rightarrow> status_type \<Rightarrow> cache_c \<Rightarrow> nat \<Rightarrow> string" where
  "flashcache_status cdev t d maxlen =
     (case t of STATUSTYPE_INFO \<Rightarrow> flashcache_status_info d maxlen
      | STATUSTYPE_TABLE \<Rightarrow> flashcache_status_table cdev d maxlen
      | STATUSTYPE_OTHER \<Rightarrow> [])"

section \<open>The statistics of the destructor\<close>

text \<open>The messages, in order, without the prefix of \<open>DMINFO\<close>.\<close>

definition dtr_mode_messages :: "cache_c \<Rightarrow> string list" where
  "dtr_mode_messages d =
     (let s = flashcache_stats d
      in if mode d = FLASHCACHE_WRITE_BACK
         then [printf (tab @ ''read hits(%lu), read hit percent(%d)'' @ nl @
                 tab @ ''write hits(%lu) write hit percent(%d)'' @ nl @
                 tab @ ''dirty write hits(%lu) dirty write hit percent(%d)'' @ nl @
                 tab @ ''replacement(%lu), write replacement(%lu)'' @ nl @
                 tab @ ''write invalidates(%lu), read invalidates(%lu)'' @ nl)
               [Arg_lu (read_hits s), Arg_d (hit_pct (read_hits s) (reads s)), Arg_lu (write_hits s), Arg_d (hit_pct (write_hits s) (writes s)),
                Arg_lu (dirty_write_hits s), Arg_d (hit_pct (dirty_write_hits s) (writes s)), Arg_lu (replace s), Arg_lu (wr_replace s),
                Arg_lu (wr_invalidates s), Arg_lu (rd_invalidates s)],
               printf (tab @ ''pending enqueues(%lu), pending inval(%lu)'' @ nl @
                 tab @ ''metadata dirties(%lu), metadata cleans(%lu)'' @ nl @
                 tab @ ''metadata batch(%lu) metadata ssd writes(%lu)'' @ nl @
                 tab @ ''cleanings(%lu) fallow cleanings(%lu)'' @ nl @
                 tab @ ''no room(%lu) front merge(%lu) back merge(%lu)'' @ nl)
               [Arg_lu (enqueues s), Arg_lu (pending_inval s), Arg_lu (md_write_dirty s), Arg_lu (md_write_clean s), Arg_lu (md_write_batch s),
                Arg_lu (md_ssd_writes s), Arg_lu (cleanings s), Arg_lu (fallow_cleanings s), Arg_lu (noroom s), Arg_lu (front_merge s),
                Arg_lu (back_merge s)]]
         else if mode d = FLASHCACHE_WRITE_THROUGH
         then [printf (tab @ ''read hits(%lu), read hit percent(%d)'' @ nl @
                 tab @ ''write hits(%lu) write hit percent(%d)'' @ nl @
                 tab @ ''replacement(%lu)'' @ nl @
                 tab @ ''write invalidates(%lu), read invalidates(%lu)'' @ nl)
               [Arg_lu (read_hits s), Arg_d (hit_pct (read_hits s) (reads s)), Arg_lu (write_hits s), Arg_d (hit_pct (write_hits s) (writes s)),
                Arg_lu (replace s), Arg_lu (wr_invalidates s), Arg_lu (rd_invalidates s)],
               printf (tab @ ''pending enqueues(%lu), pending inval(%lu)'' @ nl @ tab @ ''no room(%lu)'' @ nl)
               [Arg_lu (enqueues s), Arg_lu (pending_inval s), Arg_lu (noroom s)]]
         else [printf (tab @ ''read hits(%lu), read hit percent(%d)'' @ nl @
                 tab @ ''replacement(%lu)'' @ nl @
                 tab @ ''invalidates(%lu)'' @ nl)
               [Arg_lu (read_hits s), Arg_d (hit_pct (read_hits s) (reads s)), Arg_lu (replace s), Arg_lu (rd_invalidates s)],
               printf (tab @ ''pending enqueues(%lu), pending inval(%lu)'' @ nl @ tab @ ''no room(%lu)'' @ nl)
               [Arg_lu (enqueues s), Arg_lu (pending_inval s), Arg_lu (noroom s)]])"

definition flashcache_dtr_stats_print :: "string \<Rightarrow> cache_c \<Rightarrow> string list" where
  "flashcache_dtr_stats_print cdev d =
     (let s = flashcache_stats d; e = flashcache_errors d;
          cache_mode = (if mode d = FLASHCACHE_WRITE_BACK then ''WRITE_BACK''
            else if mode d = FLASHCACHE_WRITE_THROUGH then ''WRITE_THROUGH'' else ''WRITE_AROUND'')
      in printf (''stats: '' @ nl @ tab @ ''reads(%lu), writes(%lu)'') [Arg_lu (reads s), Arg_lu (writes s)] #
         dtr_mode_messages d @
         [printf (tab @ ''disk reads(%lu), disk writes(%lu) ssd reads(%lu) ssd writes(%lu)'' @ nl @
            tab @ ''uncached reads(%lu), uncached writes(%lu), uncached IO requeue(%lu)'' @ nl @
            tab @ ''disk read errors(%d), disk write errors(%d) ssd read errors(%d) ssd write errors(%d)'' @ nl @
            tab @ ''uncached sequential reads(%lu), uncached sequential writes(%lu)'' @ nl @
            tab @ ''pid_adds(%lu), pid_dels(%lu), pid_drops(%lu) pid_expiry(%lu)'')
          [Arg_lu (disk_reads s), Arg_lu (disk_writes s), Arg_lu (ssd_reads s), Arg_lu (ssd_writes s), Arg_lu (uncached_reads s),
           Arg_lu (uncached_writes s), Arg_lu (uncached_io_requeue s), Arg_d (disk_read_errors e), Arg_d (disk_write_errors e),
           Arg_d (ssd_read_errors e), Arg_d (ssd_write_errors e), Arg_lu (uncached_sequential_reads s),
           Arg_lu (uncached_sequential_writes s), Arg_lu (pid_adds s), Arg_lu (pid_dels s), Arg_lu (pid_drops s), Arg_lu (expiry s)],
          printf (''conf:'' @ nl @
            tab @ ''virt dev (%s), ssd dev (%s), disk dev (%s) cache mode(%s)'' @ nl @
            tab @ ''capacity(%luM), associativity(%u), data block size(%uK) metadata block size(%ub)'' @ nl @
            tab @ ''skip sequential thresh(%uK)'' @ nl @
            tab @ ''total blocks(%lu), cached blocks(%d), cache percent(%d)'' @ nl @
            tab @ ''dirty blocks(%d), dirty percent(%d)'' @ nl)
          [Arg_s (dm_vdevname d), Arg_s cdev, Arg_s (disk_devname d), Arg_s cache_mode,
           Arg_lu (drop_bit 11 (of_nat (csize d * block_size d))), Arg_u (assoc d), Arg_u (block_size d div 2),
           Arg_u (md_block_size d * 512), Arg_u (nat (sysctl_skip_seq_thresh_kb (sysctl d) mod 2 ^ 32)), Arg_lu (of_nat (csize d)),
           Arg_d (cached_blocks d), Arg_d (block_pct (cached_blocks d) d), Arg_d (nr_dirty d), Arg_d (block_pct (nr_dirty d) d)],
          printf (tab @ ''nr_queued(%d)'' @ nl) [Arg_d (pending_jobs_count d)],
          ''Size Hist: ''] @ size_hist_texts d)"

end
