(* ===== verification/Status_Spec.thy ===== *)
theory Status_Spec
  imports Status Demo
begin

text \<open>
  What is printed can be read: a text of \<open>flashcache_stats\<close> that is taken apart at white space and equals signs, as
  \<open>utils/flashstat\<close> does, gives every statistic under its own name with its value; and the texts for the device
  mapper are the full texts, cut to the buffer.
\<close>

section \<open>Numbers\<close>

primrec read_nat :: "nat \<Rightarrow> string \<Rightarrow> nat" where
  "read_nat n [] = n"
| "read_nat n (c # s) = read_nat (10 * n + (of_char c - 48)) s"

definition read_int :: "string \<Rightarrow> int" where
  "read_int s = (if s \<noteq> [] \<and> hd s = CHR ''-'' then - int (read_nat 0 (tl s)) else int (read_nat 0 s))"

lemma read_nat_append: "read_nat n (s @ t) = read_nat (read_nat n s) t"
  by (induction s arbitrary: n) simp_all

lemma digit_value: "n < 10 \<Longrightarrow> of_char (char_of (48 + n :: nat) :: char) = 48 + n"
  by simp

lemma read_show_nat: "read_nat 0 (show_nat n) = n"
proof (induction n rule: show_nat.induct)
  case (1 n)
  show ?case
  proof (cases "n < 10")
    case True
    then show ?thesis using digit_value [of n] by (simp add: show_nat.simps [of n])
  next
    case False
    then show ?thesis using 1 digit_value [of "n mod 10"] by (simp add: show_nat.simps [of n] read_nat_append)
  qed
qed

definition digits :: "char set" where "digits = char_of ` {48..<58 :: nat}"

lemma show_nat_digits: "set (show_nat n) \<subseteq> digits \<and> show_nat n \<noteq> []"
proof (induction n rule: show_nat.induct)
  case (1 n)
  have "char_of (48 + n mod 10) \<in> digits" by (auto simp: digits_def)
  moreover have "n < 10 \<Longrightarrow> char_of (48 + n) \<in> digits" by (auto simp: digits_def)
  ultimately show ?case using 1 by (auto simp: show_nat.simps [of n])
qed

lemma digits_range: "c \<in> digits \<Longrightarrow> 48 \<le> (of_char c :: nat) \<and> (of_char c :: nat) < 58"
  by (auto simp: digits_def)

lemma digits_plain: "CHR ''-'' \<notin> digits" "CHR '' '' \<notin> digits" "CHR ''='' \<notin> digits" "CHR 0x0A \<notin> digits"
  using digits_range [of "CHR ''-''"] digits_range [of "CHR '' ''"] digits_range [of "CHR ''=''"] digits_range [of "CHR 0x0A"]
  by auto

lemma show_int_chars: "set (show_int i) \<subseteq> insert (CHR ''-'') digits \<and> show_int i \<noteq> []"
  using show_nat_digits [of "nat i"] show_nat_digits [of "nat (- i)"] by (auto simp: show_int_def)

lemma read_show_int: "read_int (show_int i) = i"
proof (cases "i < 0")
  case True
  then show ?thesis by (simp add: show_int_def read_int_def read_show_nat)
next
  case False
  obtain c t where c: "show_nat (nat i) = c # t" "c \<in> digits"
    using show_nat_digits [of "nat i"] by (cases "show_nat (nat i)") auto
  then have "c \<noteq> CHR ''-''" using digits_plain(1) by blast
  with False c(1) read_show_nat [of "nat i"] show ?thesis by (simp add: show_int_def read_int_def)
qed

section \<open>Taking a text apart\<close>

definition blank :: "char \<Rightarrow> bool" where
  "blank c \<longleftrightarrow> c = CHR '' '' \<or> c = CHR 0x09 \<or> c = CHR 0x0A"

text \<open>The words of a text: \<open>split\<close> at white space.\<close>

primrec word_list :: "string \<Rightarrow> string \<Rightarrow> string list" where
  "word_list w [] = (if w = [] then [] else [w])"
| "word_list w (c # s) = (if blank c then (if w = [] then [] else [w]) @ word_list [] s else word_list (w @ [c]) s)"

definition key_value :: "string \<Rightarrow> string \<times> string" where
  "key_value w = (takeWhile (\<lambda>c. c \<noteq> CHR ''='') w, drop 1 (dropWhile (\<lambda>c. c \<noteq> CHR ''='') w))"

definition parse_stats :: "string \<Rightarrow> (string \<times> int) list" where
  "parse_stats s = map (apsnd read_int \<circ> key_value) (word_list [] s)"

text \<open>A field as it is printed, and the text of a list of fields.\<close>

definition field :: "string \<times> int \<Rightarrow> string" where
  "field f = fst f @ ''='' @ show_int (snd f)"

lemma word_list_word: "\<forall>c \<in> set v. \<not> blank c \<Longrightarrow> word_list w (v @ s) = word_list (w @ v) s"
  by (induction v arbitrary: w) simp_all

definition plain_key :: "string \<Rightarrow> bool" where
  "plain_key k \<longleftrightarrow> (\<forall>c \<in> set k. \<not> blank c \<and> c \<noteq> CHR ''='')"

lemma word_list_field:
  assumes "plain_key (fst f)" and "blank c"
  shows "word_list [] (field f @ c # s) = field f # word_list [] s"
proof -
  have "\<not> blank x" if "x \<in> set (show_int i)" for x i
    using that show_int_chars [of i] digits_plain digits_range [of x] by (fastforce simp: blank_def)
  then have "\<forall>x \<in> set (field f). \<not> blank x"
    using assms(1) by (auto simp: field_def plain_key_def blank_def)
  from word_list_word [OF this, of "[]"] assms(2) show ?thesis by (simp add: field_def)
qed

lemma key_value_field: "plain_key (fst f) \<Longrightarrow> apsnd read_int (key_value (field f)) = f"
  by (cases f) (simp add: key_value_def field_def plain_key_def read_show_int takeWhile_append2 dropWhile_append2)

text \<open>Fields with blanks after each are read back.\<close>

primrec text_of :: "(string \<times> int \<times> string) list \<Rightarrow> string" where
  "text_of [] = []"
| "text_of (f # fs) = field (fst f, fst (snd f)) @ snd (snd f) @ text_of fs"

lemma word_list_blanks: "\<forall>c \<in> set b. blank c \<Longrightarrow> word_list [] (b @ s) = word_list [] s"
  by (induction b) simp_all

definition printable :: "string \<times> int \<times> string \<Rightarrow> bool" where
  "printable f \<longleftrightarrow> plain_key (fst f) \<and> snd (snd f) \<noteq> [] \<and> (\<forall>c \<in> set (snd (snd f)). blank c)"

lemma parse_text:
  assumes "list_all printable fs"
  shows "parse_stats (text_of fs) = map (\<lambda>(k, v, b). (k, v)) fs"
  using assms
proof (induction fs)
  case (Cons f fs)
  obtain k v c b where f: "f = (k, v, c # b)" using Cons.prems by (cases f; cases "snd (snd f)") (auto simp: printable_def)
  from f Cons.prems have p: "plain_key k" "blank c" "\<forall>x \<in> set b. blank x" by (auto simp: printable_def)
  from f p word_list_field [of "(k, v)" c "b @ text_of fs"] key_value_field [of "(k, v)"] Cons
  show ?case by (simp add: parse_stats_def word_list_blanks)
qed (simp add: parse_stats_def)

section \<open>The file of the statistics\<close>

text \<open>The statistics of a mode, by the names of the file.\<close>

definition stat_fields :: "cache_c \<Rightarrow> (string \<times> int) list" where
  "stat_fields d =
     (let s = flashcache_stats d; wb = mode d = FLASHCACHE_WRITE_BACK; wt = mode d = FLASHCACHE_WRITE_THROUGH
      in [(''reads'', uint (reads s)), (''writes'', uint (writes s)), (''read_hits'', uint (read_hits s)),
          (''read_hit_percent'', hit_pct (read_hits s) (reads s))] @
         (if wb \<or> wt then [(''write_hits'', uint (write_hits s)), (''write_hit_percent'', hit_pct (write_hits s) (writes s))]
          else []) @
         (if wb then [(''dirty_write_hits'', uint (dirty_write_hits s)),
            (''dirty_write_hit_percent'', hit_pct (dirty_write_hits s) (writes s))] else []) @
         [(''replacement'', uint (replace s))] @
         (if wb \<or> wt then [(''write_replacement'', uint (wr_replace s)), (''write_invalidates'', uint (wr_invalidates s))]
          else []) @
         [(''read_invalidates'', uint (rd_invalidates s)), (''pending_enqueues'', uint (enqueues s)),
          (''pending_inval'', uint (pending_inval s))] @
         (if wb then [(''metadata_dirties'', uint (md_write_dirty s)), (''metadata_cleans'', uint (md_write_clean s)),
            (''metadata_batch'', uint (md_write_batch s)), (''metadata_ssd_writes'', uint (md_ssd_writes s)),
            (''cleanings'', uint (cleanings s)), (''fallow_cleanings'', uint (fallow_cleanings s))] else []) @
         [(''no_room'', uint (noroom s))] @
         (if wb then [(''front_merge'', uint (front_merge s)), (''back_merge'', uint (back_merge s))] else []) @
         [(''disk_reads'', uint (disk_reads s)), (''disk_writes'', uint (disk_writes s)), (''ssd_reads'', uint (ssd_reads s)),
          (''ssd_writes'', uint (ssd_writes s)), (''uncached_reads'', uint (uncached_reads s)),
          (''uncached_writes'', uint (uncached_writes s)), (''uncached_IO_requeue'', uint (uncached_io_requeue s)),
          (''uncached_sequential_reads'', uint (uncached_sequential_reads s)),
          (''uncached_sequential_writes'', uint (uncached_sequential_writes s)), (''pid_adds'', uint (pid_adds s)),
          (''pid_dels'', uint (pid_dels s)), (''pid_drops'', uint (pid_drops s)), (''pid_expiry'', uint (expiry s))])"

text \<open>The blanks between them.\<close>

fun blank_after :: "(string \<times> int) list \<Rightarrow> (string \<times> int \<times> string) list" where
  "blank_after [] = []"
| "blank_after [f] = [(fst f, snd f, nl)]"
| "blank_after (f # g # fs) = (fst f, snd f, '' '') # blank_after (g # fs)"

fun with_blanks :: "(string \<times> int) list \<Rightarrow> (string \<times> int \<times> string) list" where
  "with_blanks (f # g # fs) = (fst f, snd f, '' '') # (fst g, snd g, '' '' @ nl) # blank_after fs"
| "with_blanks fs = blank_after fs"

lemma with_blanks_fields: "map (\<lambda>(k, v, b). (k, v)) (with_blanks fs) = fs"
proof -
  have "map (\<lambda>(k, v, b). (k, v)) (blank_after gs) = gs" for gs by (induction gs rule: blank_after.induct) simp_all
  then show ?thesis by (cases fs rule: with_blanks.cases) simp_all
qed

lemma with_blanks_printable:
  assumes "list_all (\<lambda>f. plain_key (fst f)) fs"
  shows "list_all printable (with_blanks fs)"
proof -
  have "list_all printable (blank_after gs)" if "list_all (\<lambda>f. plain_key (fst f)) gs" for gs
    using that by (induction gs rule: blank_after.induct) (simp_all add: printable_def nl_def blank_def)
  with assms show ?thesis by (cases fs rule: with_blanks.cases) (simp_all add: printable_def nl_def blank_def)
qed

lemma show_uint: "show_int (uint (w :: u64)) = show_nat (unat w)"
  by (simp add: show_int_def)

lemmas printed = printf.simps show_arg.simps show_uint field_def nl_def

lemma stats_text: "flashcache_stats_show d = text_of (with_blanks (stat_fields d))"
proof (cases "mode d")
  case FLASHCACHE_WRITE_BACK
  then show ?thesis by (simp add: flashcache_stats_show_def stat_fields_def Let_def printed)
next
  case FLASHCACHE_WRITE_THROUGH
  then show ?thesis by (simp add: flashcache_stats_show_def stat_fields_def Let_def printed)
next
  case FLASHCACHE_WRITE_AROUND
  then show ?thesis by (simp add: flashcache_stats_show_def stat_fields_def Let_def printed)
qed

lemma plain_keys: "list_all (\<lambda>f. plain_key (fst f)) (stat_fields d)"
  by (cases "mode d") (simp_all add: stat_fields_def Let_def plain_key_def blank_def)

lemma distinct_keys: "distinct (map fst (stat_fields d))"
  by (cases "mode d") (simp_all add: stat_fields_def Let_def)

section \<open>Bounded texts\<close>

lemma dmemit_prefix:
  assumes "0 < maxlen"
  shows "fold (dmemit maxlen) texts (take (maxlen - 1) s) = take (maxlen - 1) (s @ concat texts)"
proof (induction texts arbitrary: s)
  case (Cons t texts)
  have "dmemit maxlen t (take (maxlen - 1) s) = take (maxlen - 1) (s @ t)"
    using assms by (auto simp: dmemit_def min_def)
  with Cons.IH [of "s @ t"] show ?case by simp
qed simp

lemma status_texts:
  assumes "0 < maxlen"
  shows "flashcache_status cdev STATUSTYPE_INFO d maxlen = take (maxlen - 1) (concat (status_info_texts d))"
    and "flashcache_status cdev STATUSTYPE_TABLE d maxlen = take (maxlen - 1) (concat (status_table_texts cdev d))"
  using dmemit_prefix [OF assms, of _ "[]"]
  by (simp_all add: flashcache_status_def flashcache_status_info_def flashcache_status_table_def)

section \<open>The properties\<close>

text \<open>C35. The text of \<open>flashcache_stats\<close> is parseable, in every mode and for all values of the counters: taken apart
  at white space and equals signs, as \<open>utils/flashstat\<close> does, it gives the list of the statistics of the mode with
  their values, no name twice.\<close>

theorem stats_parse_roundtrip:
  "parse_stats (flashcache_stats_show d) = stat_fields d \<and> distinct (map fst (stat_fields d))"
  using parse_text [OF with_blanks_printable [OF plain_keys]] with_blanks_fields distinct_keys
  by (simp add: stats_text)

theorem stats_parse_roundtrip_witness:
  "map_of (parse_stats (flashcache_stats_show demo)) ''pid_drops'' = Some (uint (pid_drops (flashcache_stats demo)))"
  using stats_parse_roundtrip [of demo] by (cases "mode demo") (simp_all add: stat_fields_def Let_def)

text \<open>A status text never overruns the buffer of the device mapper, with its final null included, and it is the full
  text cut to the length of the buffer.\<close>

theorem status_bounded:
  assumes "0 < maxlen"
  shows "length (flashcache_status cdev t d maxlen) < maxlen \<and>
    (\<exists>rest. concat (case t of STATUSTYPE_INFO \<Rightarrow> status_info_texts d | STATUSTYPE_TABLE \<Rightarrow> status_table_texts cdev d
       | STATUSTYPE_OTHER \<Rightarrow> []) = flashcache_status cdev t d maxlen @ rest \<and>
     (length (flashcache_status cdev t d maxlen) < maxlen - 1 \<longrightarrow> rest = []))"
proof (cases t)
  case STATUSTYPE_INFO
  then show ?thesis using status_texts(1) [OF assms, of cdev d] assms
    by (auto intro!: exI [of _ "drop (maxlen - 1) (concat (status_info_texts d))"])
next
  case STATUSTYPE_TABLE
  then show ?thesis using status_texts(2) [OF assms, of cdev d] assms
    by (auto intro!: exI [of _ "drop (maxlen - 1) (concat (status_table_texts cdev d))"])
next
  case STATUSTYPE_OTHER
  then show ?thesis using assms by (simp add: flashcache_status_def)
qed

theorem status_bounded_witness: "length (flashcache_status ''/dev/ssd'' STATUSTYPE_TABLE demo 16) < 16"
proof -
  have "0 < (16 :: nat)" by simp
  from status_bounded [OF this, of "''/dev/ssd''" STATUSTYPE_TABLE demo] show ?thesis by blast
qed

end
