(* ===== verification/Module.thy ===== *)
theory Module
  imports System
begin

text \<open>
  The module (\<open>flashcache_conf.c\<close>, with the parts of \<open>pfd_cache.c\<close> and \<open>prefetchd_reset.c\<close> it calls): what it acquires
  when it is loaded and releases when it is removed, on a kernel of 3.9 or later; the removal of a cache with its
  wait for the I/O in progress, and the notifier of a reboot. The outcome of each acquisition is a parameter; what
  is held is a list. Releasing what is not held, an unregistered target or the error pointer of a client, is a panic.
\<close>

section \<open>Resources\<close>

datatype module_resource =
  Job_cache | Job_pool | Pending_job_cache | Pending_job_pool | Io_client | Kcp_client | Target_type | Proc_version |
  Control | Reboot_notifier | Hdd_client | Ssd_client | Reset_file

text \<open>The result of each acquisition, 0 or an error.\<close>

type_synonym outcomes = "module_resource \<Rightarrow> int"

definition release :: "module_resource \<Rightarrow> module_resource list \<Rightarrow> module_resource list option" where
  "release x held = do {
     verify (x \<in> set held);
     Some (remove1 x held)
   }"

definition flashcache_jobs_init :: "outcomes \<Rightarrow> int \<times> module_resource list" where
  "flashcache_jobs_init k =
     (if k Job_cache \<noteq> 0 then (- ENOMEM, [])
      else let held = [Job_cache]
      in if k Job_pool \<noteq> 0 then (- ENOMEM, remove1 Job_cache held)
      else let held = Job_pool # held
      in if k Pending_job_cache \<noteq> 0 then (- ENOMEM, remove1 Job_cache (remove1 Job_pool held))
      else let held = Pending_job_cache # held
      in if k Pending_job_pool \<noteq> 0
         then (- ENOMEM, remove1 Job_cache (remove1 Job_pool (remove1 Pending_job_cache held)))
      else (0, Pending_job_pool # held))"

definition flashcache_jobs_exit :: "cache_c \<Rightarrow> module_resource list \<Rightarrow> module_resource list option" where
  "flashcache_jobs_exit d held = do {
     verify (q_pending_jobs d = []);
     verify (q_io_jobs d = []);
     verify (q_md_io_jobs d = []);
     verify (q_md_complete_jobs d = []);
     held \<leftarrow> release Job_pool held;
     held \<leftarrow> release Job_cache held;
     held \<leftarrow> release Pending_job_pool held;
     release Pending_job_cache held
   }"

text \<open>\<open>pfd_cache_init\<close> as to its clients; its tables are in theory \<open>Pfd_Cache\<close>.\<close>

definition pfd_clients_init :: "outcomes \<Rightarrow> module_resource list \<Rightarrow> int \<times> module_resource list" where
  "pfd_clients_init k held =
     (if k Hdd_client \<noteq> 0 then (- 1, held)
      else let held = Hdd_client # held
      in if k Ssd_client \<noteq> 0 then (- 1, remove1 Hdd_client held)
      else (0, Ssd_client # held))"

definition pfd_clients_exit :: "module_resource list \<Rightarrow> module_resource list option" where
  "pfd_clients_exit held = Option.bind (release Hdd_client held) (release Ssd_client)"

definition prefetchd_reset_init :: "outcomes \<Rightarrow> module_resource list \<Rightarrow> int \<times> module_resource list" where
  "prefetchd_reset_init k held = (if k Reset_file \<noteq> 0 then (- 1, held) else (0, Reset_file # held))"

definition prefetchd_reset_exit :: "module_resource list \<Rightarrow> module_resource list" where
  "prefetchd_reset_exit held = remove1 Reset_file held"

text \<open>
  Loading. The test of the I/O client returns \<open>r\<close>, which is 0 then; the result of registering the target is only
  logged; the pointer to the control structure is not checked.
\<close>

definition flashcache_init :: "outcomes \<Rightarrow> (int \<times> module_resource list) option" where
  "flashcache_init k =
     (let (r, held) = flashcache_jobs_init k
      in if r \<noteq> 0 then Some (r, held)
      else if k Io_client \<noteq> 0 then Some (r, held)
      else let held = Io_client # held
      in if k Kcp_client \<noteq> 0 then Some (k Kcp_client, remove1 Io_client held)
      else let held = Kcp_client # held;
               held = (if k Target_type < 0 then held else Target_type # held);
               held = (if k Proc_version = 0 then Proc_version # held else held)
      in do {
        verify (k Control = 0);
        let held = Reboot_notifier # Control # held;
        let (r, held) = pfd_clients_init k held;
        if r \<noteq> 0 then Some (r, held) else Some (prefetchd_reset_init k held)
      })"

definition flashcache_exit :: "cache_c \<Rightarrow> module_resource list \<Rightarrow> module_resource list option" where
  "flashcache_exit d held = do {
     held \<leftarrow> release Target_type held;
     held \<leftarrow> release Kcp_client held;
     held \<leftarrow> release Io_client held;
     held \<leftarrow> release Reboot_notifier held;
     held \<leftarrow> flashcache_jobs_exit d held;
     let held = remove1 Proc_version held;
     held \<leftarrow> release Control held;
     held \<leftarrow> pfd_clients_exit held;
     Some (prefetchd_reset_exit held)
   }"

section \<open>Removing a cache\<close>

text \<open>
  \<open>wait\<close> is the time until no job is left, in which the worker, the disks and the rest of the system run; \<open>None\<close>
  when that time does not end.
\<close>

partial_function (option) flashcache_sync_for_remove ::
  "(cache_c \<Rightarrow> cache_c option) \<Rightarrow> cache_c \<Rightarrow> cache_c option" where
  "flashcache_sync_for_remove wait d =
     Option.bind (sync_for_remove_turn d) (\<lambda>d. Option.bind (wait d) (\<lambda>d.
       let d = d\<lparr>delayed_clean := False\<rparr>
       in if sync_for_remove_again d then flashcache_sync_for_remove wait d else Some d))"

declare flashcache_sync_for_remove.simps [code]

definition flashcache_dtr :: "(cache_c \<Rightarrow> cache_c option) \<Rightarrow> cache_c \<Rightarrow> cache_c option" where
  "flashcache_dtr wait d = do {
     d \<leftarrow> (if mode d = FLASHCACHE_WRITE_BACK then flashcache_sync_for_remove wait d else Some d);
     flashcache_dtr_end d
   }"

text \<open>The list of all caches, by their targets.\<close>

primrec unlink_cache :: "nat \<Rightarrow> nat list \<Rightarrow> nat list" where
  "unlink_cache t [] = []"
| "unlink_cache t (x # xs) = (if x = t then xs else x # unlink_cache t xs)"

text \<open>The notifier: the caches of the list in order, and the devices that are put (two for each write back cache).\<close>

primrec flashcache_notify_reboot ::
  "(cache_c \<Rightarrow> cache_c option) \<Rightarrow> cache_c list \<Rightarrow> (cache_c list \<times> nat list) option" where
  "flashcache_notify_reboot wait [] = Some ([], [])"
| "flashcache_notify_reboot wait (d # ds) =
     (if mode d = FLASHCACHE_WRITE_BACK
      then do {
        d \<leftarrow> flashcache_sync_for_remove wait d;
        (r, d) \<leftarrow> flashcache_writeback_md_store d;
        (ds, put) \<leftarrow> flashcache_notify_reboot wait ds;
        Some (d # ds, tgt d # tgt d # put)
      }
      else do {
        (ds, put) \<leftarrow> flashcache_notify_reboot wait ds;
        Some (d # ds, put)
      })"

end
