(* ===== verification/Wt_Status.thy ===== *)
theory Wt_Status
  imports Wt_Ctr Status_Spec Module
begin

text \<open>
  What the write through driver prints (\<open>flashcache_wt_status_info\<close>, \<open>flashcache_wt_status_table\<close>, the statistics
  of \<open>cache_dtr\<close>) and the loading and unloading of its module (\<open>flashcache_wt.c\<close>). Without
  \<open>FLASHCACHE_WT_CHECKSUMS\<close>. The names of the devices are arguments.
\<close>

section \<open>Status\<close>

definition wt_hit_pct :: "wt_cache \<Rightarrow> int" where
  "wt_hit_pct d = (if wt_reads d > 0 then sint (ucast (wt_cache_hits d * 100 div wt_reads d) :: 32 word) else 0)"

definition wt_cache_pct :: "wt_cache \<Rightarrow> int" where
  "wt_cache_pct d = (if wt_size d > 0
     then sint (ucast (wt_cached_blocks d * 100 div of_nat (wt_size d)) :: 32 word) else 0)"

definition wt_status_info_texts :: "wt_cache \<Rightarrow> string list" where
  "wt_status_info_texts d =
     [printf (''stats: '' @ nl @ tab @ ''reads(%lu), writes(%lu)'' @ nl) [Arg_lu (wt_reads d), Arg_lu (wt_writes d)],
      (if wt_write_around_mode d = 0
       then printf (tab @ ''cache hits(%lu), cache hit percent (%d)'' @ nl @
              tab @ ''replacement(%lu), write replacement(%lu)'' @ nl @
              tab @ ''read invalidates(%lu), write invalidates(%lu)'' @ nl @
              tab @ ''uncached reads(%lu), uncached writes(%lu)'' @ nl @
              tab @ ''disk reads(%lu), disk writes(%lu)'' @ nl @
              tab @ ''cache reads(%lu), cache writes(%lu)'' @ nl)
            [Arg_lu (wt_cache_hits d), Arg_d (wt_hit_pct d), Arg_lu (wt_replace d), Arg_lu (wt_cache_wr_replace d),
             Arg_lu (wt_rd_invalidates d), Arg_lu (wt_wr_invalidates d), Arg_lu (wt_uncached_reads d), Arg_lu (wt_uncached_writes d),
             Arg_lu (wt_disk_reads d), Arg_lu (wt_disk_writes d), Arg_lu (wt_cache_reads d), Arg_lu (wt_cache_writes d)]
       else printf (tab @ ''cache hits(%lu), cache hit percent (%d)'' @ nl @
              tab @ ''replacement(%lu), read invalidates(%lu) write invalidates(%lu)'' @ nl @
              tab @ ''uncached reads(%lu), uncached writes(%lu)'' @ nl @
              tab @ ''disk reads(%lu), disk writes(%lu)'' @ nl @
              tab @ ''cache reads(%lu), cache writes(%lu)'' @ nl)
            [Arg_lu (wt_cache_hits d), Arg_d (wt_hit_pct d), Arg_lu (wt_replace d), Arg_lu (wt_rd_invalidates d),
             Arg_lu (wt_wr_invalidates d), Arg_lu (wt_uncached_reads d), Arg_lu (wt_uncached_writes d), Arg_lu (wt_disk_reads d),
             Arg_lu (wt_disk_writes d), Arg_lu (wt_cache_reads d), Arg_lu (wt_cache_writes d)])]"

definition flashcache_wt_status_info :: "wt_cache \<Rightarrow> nat \<Rightarrow> string" where
  "flashcache_wt_status_info d maxlen = fold (dmemit maxlen) (wt_status_info_texts d) []"

definition wt_size_hist_texts :: "wt_cache \<Rightarrow> string list" where
  "wt_size_hist_texts d =
     map (\<lambda>i. printf ''%d:%llu '' [Arg_d (int i * 512), Arg_lu (wt_size_hist d i)]) (filter (\<lambda>i. wt_size_hist d i > 0) [1..<33])"

definition wt_status_table_texts :: "string \<Rightarrow> string \<Rightarrow> wt_cache \<Rightarrow> string list" where
  "wt_status_table_texts cdev ddev d =
     [printf (''conf:'' @ nl @
        tab @ ''ssd dev (%s), disk dev (%s) mode (%s)'' @ nl @
        tab @ ''capacity(%luM), associativity(%u), block size(%uK)'' @ nl @
        tab @ ''total blocks(%lu), cached blocks(%lu), cache percent(%d)'' @ nl)
      [Arg_s cdev, Arg_s ddev, Arg_s (if wt_write_around_mode d \<noteq> 0 then ''WRITE_AROUND'' else ''WRITETHROUGH''),
       Arg_lu (drop_bit 11 (of_nat (wt_size d * wt_block_size d))), Arg_u (wt_assoc d), Arg_u (wt_block_size d div 2),
       Arg_lu (of_nat (wt_size d)), Arg_lu (wt_cached_blocks d), Arg_d (wt_cache_pct d)], '' Size Hist: ''] @
     wt_size_hist_texts d"

definition flashcache_wt_status_table :: "string \<Rightarrow> string \<Rightarrow> wt_cache \<Rightarrow> nat \<Rightarrow> string" where
  "flashcache_wt_status_table cdev ddev d maxlen = fold (dmemit maxlen) (wt_status_table_texts cdev ddev d) []"

definition cache_status :: "string \<Rightarrow> string \<Rightarrow> status_type \<Rightarrow> wt_cache \<Rightarrow> nat \<Rightarrow> string" where
  "cache_status cdev ddev t d maxlen =
     (case t of STATUSTYPE_INFO \<Rightarrow> flashcache_wt_status_info d maxlen
      | STATUSTYPE_TABLE \<Rightarrow> flashcache_wt_status_table cdev ddev d maxlen
      | STATUSTYPE_OTHER \<Rightarrow> [])"

text \<open>The messages of the destructor, for a cache that had reads or writes.\<close>

definition wt_dtr_messages :: "wt_cache \<Rightarrow> string list" where
  "wt_dtr_messages d =
     (if wt_reads d + wt_writes d > 0
      then [printf (''stats: '' @ nl @ tab @ ''reads(%lu), writes(%lu)'' @ nl) [Arg_lu (wt_reads d), Arg_lu (wt_writes d)],
            printf (tab @ ''cache hits(%lu), cache hit percent (%d)'' @ nl @
              tab @ ''replacement(%lu), write replacement(%lu)'' @ nl @
              tab @ ''read invalidates(%lu), write invalidates(%lu)'' @ nl)
            [Arg_lu (wt_cache_hits d), Arg_d (wt_hit_pct d), Arg_lu (wt_replace d), Arg_lu (wt_cache_wr_replace d),
             Arg_lu (wt_rd_invalidates d), Arg_lu (wt_wr_invalidates d)],
            printf (''conf:'' @ nl @
              tab @ ''capacity(%luM), associativity(%u), block size(%uK)'' @ nl @
              tab @ ''total blocks(%lu), cached blocks(%lu), cache percent(%d)'' @ nl)
            [Arg_lu (drop_bit 11 (of_nat (wt_size d * wt_block_size d))), Arg_u (wt_assoc d), Arg_u (wt_block_size d div 2),
             Arg_lu (of_nat (wt_size d)), Arg_lu (wt_cached_blocks d), Arg_d (wt_cache_pct d)]]
      else [])"

lemma wt_status_cut:
  assumes "0 < maxlen"
  shows "cache_status cdev ddev STATUSTYPE_INFO d maxlen = take (maxlen - 1) (concat (wt_status_info_texts d))"
    and "cache_status cdev ddev STATUSTYPE_TABLE d maxlen = take (maxlen - 1) (concat (wt_status_table_texts cdev ddev d))"
  using dmemit_prefix [OF assms, of _ "[]"]
  by (simp_all add: cache_status_def flashcache_wt_status_info_def flashcache_wt_status_table_def)

section \<open>The module\<close>

datatype wt_module_resource = Wt_job_cache | Wt_job_pool | Wt_workqueue | Wt_target_type | Wt_version_file

definition wt_release :: "wt_module_resource \<Rightarrow> wt_module_resource list \<Rightarrow> wt_module_resource list option" where
  "wt_release x held = do {
     verify (x \<in> set held);
     Some (remove1 x held)
   }"

definition wt_jobs_init :: "(wt_module_resource \<Rightarrow> int) \<Rightarrow> int \<times> wt_module_resource list" where
  "wt_jobs_init k =
     (if k Wt_job_cache \<noteq> 0 then (- ENOMEM, [])
      else if k Wt_job_pool \<noteq> 0 then (- ENOMEM, remove1 Wt_job_cache [Wt_job_cache])
      else (0, [Wt_job_pool, Wt_job_cache]))"

definition wt_jobs_exit :: "wt_cache \<Rightarrow> wt_module_resource list \<Rightarrow> wt_module_resource list option" where
  "wt_jobs_exit d held = do {
     verify (wt_complete_jobs d = []);
     verify (wt_io_jobs d = []);
     held \<leftarrow> wt_release Wt_job_pool held;
     wt_release Wt_job_cache held
   }"

definition flashcache_wt_init :: "(wt_module_resource \<Rightarrow> int) \<Rightarrow> int \<times> wt_module_resource list" where
  "flashcache_wt_init k =
     (let (r, held) = wt_jobs_init k
      in if r \<noteq> 0 then (r, held)
      else if k Wt_workqueue \<noteq> 0 then (- ENOMEM, held)
      else let held = Wt_workqueue # held;
               r = k Wt_target_type;
               held = (if r < 0 then held else Wt_target_type # held);
               held = (if k Wt_version_file = 0 then Wt_version_file # held else held)
      in (r, held))"

definition flashcache_wt_exit :: "wt_cache \<Rightarrow> wt_module_resource list \<Rightarrow> wt_module_resource list option" where
  "flashcache_wt_exit d held = do {
     held \<leftarrow> wt_release Wt_target_type held;
     held \<leftarrow> wt_jobs_exit d held;
     held \<leftarrow> wt_release Wt_workqueue held;
     Some (remove1 Wt_version_file held)
   }"

text \<open>A loaded module is unloaded completely; a failed load leaves what it acquired before the failure.\<close>

lemma wt_module:
  assumes "flashcache_wt_init k = (r, held)" and "wt_complete_jobs d = []" and "wt_io_jobs d = []"
  shows "if r = 0 then flashcache_wt_exit d held = Some []
    else k Wt_job_cache = 0 \<and> k Wt_job_pool = 0 \<longrightarrow> {Wt_job_pool, Wt_job_cache} \<subseteq> set held"
  using assms by (auto simp: flashcache_wt_init_def wt_jobs_init_def flashcache_wt_exit_def wt_jobs_exit_def
      wt_release_def Let_def ENOMEM_def split: if_splits)

end
