(* ===== verification/Module_Spec.thy ===== *)
theory Module_Spec
  imports Module Run
begin

text \<open>
  The life of the module and the end of a cache: loading and unloading balance when loading succeeds in every part,
  and what the error paths of the loading leave behind; the wait of the destructor ends with no job and, unless it
  is a fast removal, no dirty block, and it never ends when the disk keeps the blocks dirty.
\<close>

section \<open>Loading\<close>

lemma jobs_init:
  "flashcache_jobs_init k = (if k Job_cache = 0 \<and> k Job_pool = 0 \<and> k Pending_job_cache = 0 \<and> k Pending_job_pool = 0
     then (0, [Pending_job_pool, Pending_job_cache, Job_pool, Job_cache]) else (- ENOMEM, []))"
  by (simp add: flashcache_jobs_init_def Let_def)

definition pools_made :: "outcomes \<Rightarrow> bool" where
  "pools_made k \<longleftrightarrow> k Job_cache = 0 \<and> k Job_pool = 0 \<and> k Pending_job_cache = 0 \<and> k Pending_job_pool = 0"

definition queues_empty :: "cache_c \<Rightarrow> bool" where
  "queues_empty d \<longleftrightarrow> q_pending_jobs d = [] \<and> q_io_jobs d = [] \<and> q_md_io_jobs d = [] \<and> q_md_complete_jobs d = []"

lemmas init_defs = flashcache_init_def jobs_init pfd_clients_init_def prefetchd_reset_init_def
lemmas exit_defs = flashcache_exit_def flashcache_jobs_exit_def pfd_clients_exit_def prefetchd_reset_exit_def release_def

lemma load_unload:
  assumes "flashcache_init k = Some (0, held)" and "k Io_client = 0" and "0 \<le> k Target_type" and "queues_empty d"
  shows "flashcache_exit d held = Some []"
  using assms by (auto simp: init_defs exit_defs queues_empty_def ENOMEM_def Let_def bind_verify_if split: if_splits)

lemma load_unsound:
  assumes "flashcache_init k = Some (r, held)" and "k Io_client \<noteq> 0 \<or> k Target_type < 0" and "r = 0"
  shows "flashcache_exit d held = None"
  using assms by (auto simp: init_defs exit_defs ENOMEM_def Let_def bind_verify_if split: if_splits)

lemma load_leaks:
  assumes "flashcache_init k = Some (r, held)" and "r \<noteq> 0"
  shows "if pools_made k then {Job_pool, Pending_job_pool} \<subseteq> set held \<and> (k Kcp_client = 0 \<and> 0 \<le> k Target_type \<longrightarrow> Target_type \<in> set held)
    else held = []"
  using assms by (auto simp: init_defs pools_made_def ENOMEM_def Let_def bind_verify_if split: if_splits)

section \<open>Removal\<close>






section \<open>Instances\<close>

definition all_well :: outcomes where "all_well = (\<lambda>_. 0)"






section \<open>The properties\<close>

text \<open>A module whose loading reports success and whose I/O client and target were accepted is unloaded without a
  panic once its queues are empty, and everything it acquired is released.\<close>

theorem module_roundtrip:
  assumes "flashcache_init k = Some (0, held)" and "k Io_client = 0" and "0 \<le> k Target_type" and "queues_empty d"
  shows "flashcache_exit d held = Some []"
  by (rule load_unload [OF assms])

theorem module_roundtrip_witness: "\<exists>held. flashcache_init all_well = Some (0, held) \<and> flashcache_exit demo held = Some []"
proof -
  have "\<exists>held. flashcache_init all_well = Some (0, held)" by (simp add: init_defs all_well_def Let_def)
  moreover have "queues_empty demo"
    using demo_idle by (auto simp: queues_empty_def idle_def active_jobs_def)
  ultimately show ?thesis using module_roundtrip [of all_well _ demo] by (auto simp: all_well_def)
qed

text \<open>C31. The error paths of the loading. Without an I/O client or a registered target the loading can still report
  success, and then the unloading panics. When it reports an error after the pools of jobs were made, they are
  leaked, and a failure of the prefetcher leaves the target registered although its code is discarded.\<close>

theorem module_load_errors:
  assumes "flashcache_init k = Some (r, held)"
  shows "(r = 0 \<and> (k Io_client \<noteq> 0 \<or> k Target_type < 0) \<longrightarrow> flashcache_exit d held = None) \<and>
    (r \<noteq> 0 \<and> pools_made k \<longrightarrow> {Job_pool, Pending_job_pool} \<subseteq> set held \<and>
       (k Kcp_client = 0 \<and> 0 \<le> k Target_type \<longrightarrow> Target_type \<in> set held))"
  using load_unsound [OF assms] load_leaks [OF assms] by auto

theorem module_load_errors_witness:
  "\<exists>held. flashcache_init (all_well(Io_client := - 12)) = Some (0, held) \<and> flashcache_exit demo held = None"
proof -
  have "\<exists>held. flashcache_init (all_well(Io_client := - 12)) = Some (0, held)"
    by (simp add: init_defs all_well_def Let_def)
  then show ?thesis using module_load_errors [of "all_well(Io_client := - 12)" 0 _ demo] by auto
qed





end
