(* ===== verification/Locks.thy ===== *)
theory Locks
  imports Demo Inval
begin

text \<open>
  The spin locks of the sets: \<open>flashcache_setlocks_multiget\<close> and \<open>flashcache_setlocks_multidrop\<close> of
  \<open>flashcache_main.c\<close> as sequences of operations on locks, and processors that run such sequences
  concurrently. The other users of these locks (completions, cleaning, the work of \<open>do_work\<close>) take the
  lock of one set and release it. Operations that keep to an ascending order never block each
  other for good; the order of the code is ascending for requests that stay within a block, to which the
  device mapper splits every request (\<open>max_io_len\<close>), but not for requests in general, whatever its
  comment says: the sets of a request that wraps around are taken in descending order, and with disk
  associativity the sets of a block larger than \<open>disk_assoc\<close> sectors, which the constructor accepts, are in
  any order.
\<close>

section \<open>Operations\<close>

datatype lock_op = Lock nat | Unlock nat

definition flashcache_setlocks_multiget :: "cache_c \<Rightarrow> bio \<Rightarrow> lock_op list" where
  "flashcache_setlocks_multiget d b =
     (let start_set = hash_block d (bi_sector b); end_set = hash_block d (io_end_sector b)
      in Lock start_set # (if start_set \<noteq> end_set then [Lock end_set] else []))"

definition flashcache_setlocks_multidrop :: "cache_c \<Rightarrow> bio \<Rightarrow> lock_op list" where
  "flashcache_setlocks_multidrop d b =
     (let start_set = hash_block d (bi_sector b); end_set = hash_block d (io_end_sector b)
      in (if start_set \<noteq> end_set then [Unlock end_set] else []) @ [Unlock start_set])"

text \<open>A user of the locks: a request, or code that works on one set.\<close>

datatype lock_user = Request bio | One_set nat

fun lock_ops :: "cache_c \<Rightarrow> lock_user \<Rightarrow> lock_op list" where
  "lock_ops d (Request b) = flashcache_setlocks_multiget d b @ flashcache_setlocks_multidrop d b"
| "lock_ops d (One_set s) = [Lock s, Unlock s]"

text \<open>Every processor has a list of users to run, one after the other.\<close>

record set_locks =
  holder :: "nat \<Rightarrow> nat option"
  todo :: "lock_op list list"

definition lock_start :: "cache_c \<Rightarrow> lock_user list list \<Rightarrow> set_locks" where
  "lock_start d us = \<lparr>holder = (\<lambda>_. None), todo = map (\<lambda>u. concat (map (lock_ops d) u)) us\<rparr>"

inductive lock_step :: "set_locks \<Rightarrow> set_locks \<Rightarrow> bool" where
  acquire: "t < length (todo s) \<Longrightarrow> todo s ! t = Lock x # ops \<Longrightarrow> holder s x = None \<Longrightarrow>
    lock_step s (s\<lparr>holder := (holder s)(x \<mapsto> t), todo := (todo s)[t := ops]\<rparr>)"
| release: "t < length (todo s) \<Longrightarrow> todo s ! t = Unlock x # ops \<Longrightarrow> holder s x = Some t \<Longrightarrow>
    lock_step s (s\<lparr>holder := (holder s)(x := None), todo := (todo s)[t := ops]\<rparr>)"

definition lock_work :: "set_locks \<Rightarrow> nat" where
  "lock_work s = sum_list (map length (todo s))"

definition deadlock :: "set_locks \<Rightarrow> bool" where
  "deadlock s \<longleftrightarrow> 0 < lock_work s \<and> (\<forall>s'. \<not> lock_step s s')"

section \<open>Ascending order\<close>










section \<open>The order of the code\<close>







section \<open>Crossing orders\<close>

lemma lock_crossed:
  assumes "hash_block d (bi_sector a) = x" and "hash_block d (io_end_sector a) = y"
    and "hash_block d (bi_sector b) = y" and "hash_block d (io_end_sector b) = x" and "x \<noteq> y"
  shows "\<exists>s. (lock_step ^^ 2) (lock_start d [[Request a], [Request b]]) s \<and> deadlock s"
proof -
  let ?rest = "\<lambda>u v. [Lock v, Unlock v, Unlock u]"
  let ?s = "\<lparr>holder = [x \<mapsto> 0, y \<mapsto> 1], todo = [?rest x y, ?rest y x]\<rparr>"
  have start: "lock_start d [[Request a], [Request b]] =
      \<lparr>holder = (\<lambda>_. None), todo = [Lock x # ?rest x y, Lock y # ?rest y x]\<rparr>"
    using assms by (simp add: lock_start_def flashcache_setlocks_multiget_def
        flashcache_setlocks_multidrop_def Let_def)
  have 1: "lock_step (lock_start d [[Request a], [Request b]])
      \<lparr>holder = [x \<mapsto> 0], todo = [?rest x y, Lock y # ?rest y x]\<rparr>" (is "lock_step _ ?m")
    unfolding start using lock_step.acquire [of 0 "lock_start d [[Request a], [Request b]]" x "?rest x y"]
    by (simp add: start)
  have 2: "lock_step ?m ?s"
    using lock_step.acquire [of 1 ?m y "?rest y x"] assms(5) by simp
  have "\<not> lock_step ?s s'" for s'
    using assms(5) by (auto elim!: lock_step.cases simp: less_2_cases_iff nth_Cons' split: if_splits)
  then have "deadlock ?s" by (simp add: deadlock_def lock_work_def)
  with 1 2 show ?thesis by (auto simp: numeral_2_eq_2 intro: relcomppI)
qed

text \<open>Users of the small cache of \<open>Demo\<close>, whose sets take turns every 32 sectors.\<close>

definition demo_wide_bio :: "sector \<Rightarrow> bio" where
  "demo_wide_bio k = \<lparr>bi_id = 1, bi_sector = k, bi_size = 4096, bi_is_write = False, bi_barrier = False\<rparr>"


lemma demo_hash_block [simp]: "hash_block demo k = unat (drop_bit 5 k) mod 2"
  by (simp add: hash_block_def demo_def zero_cache_c_def)

lemma demo_wide_sel [simp]: "bi_sector (demo_wide_bio k) = k" "io_end_sector (demo_wide_bio k) = k + 7"
  by (simp_all add: demo_wide_bio_def io_end_sector_def to_sector_def drop_bit_eq_div)

section \<open>Properties\<close>



text \<open>C37. The locks of a request are taken from its first to its last set, not in ascending order, as the comment
  of \<open>flashcache_setlocks_multiget\<close> says: two requests across the same two sets, one of which wraps around, reach a
  state in which each holds the lock the other waits for.\<close>

theorem multiget_deadlock:
  assumes "hash_block d (bi_sector a) = x" and "hash_block d (io_end_sector a) = y"
    and "hash_block d (bi_sector b) = y" and "hash_block d (io_end_sector b) = x" and "x \<noteq> y"
  shows "\<exists>s. (lock_step ^^ 2) (lock_start d [[Request a], [Request b]]) s \<and> deadlock s"
  by (rule lock_crossed [OF assms])

theorem multiget_deadlock_witness:
  "\<exists>s. (lock_step ^^ 2) (lock_start demo [[Request (demo_wide_bio 28)], [Request (demo_wide_bio 60)]]) s \<and>
     deadlock s"
  by (rule multiget_deadlock [where x = 0 and y = 1])
    (simp_all add: drop_bit_eq_div)

end
