(* ===== verification/Spec2Isabelle.thy ===== *)
theory Spec2Isabelle
  imports Cases Wt_Props Read_Ahead Kcopy_Spec Procfs_Spec Wt_Status Module_Spec Locks
begin

text \<open>
  Flashcache with the prefetcher: a device mapper target that caches the blocks of a disk on a solid state device
  (SSD), and the older write through driver beside it. The code under \<open>src/src\<close> is the driver of the first, with
  three modes (write back, write through, write around); \<open>src/flashcache-wt/src\<close> is the second.

  How the program works. \<open>flashcache_map\<close> receives a request (a bio). A request of one whole aligned block goes
  through \<open>flashcache_read\<close> or \<open>flashcache_write\<close>, which look the block up in the set that \<open>hash_block\<close> gives
  (\<open>flashcache_lookup\<close>: hash chain, invalid list, replacement policy); any other request bypasses the cache after
  \<open>flashcache_inval_blocks\<close> has invalidated what it overlaps. A block has at most one I/O in progress; requests
  that meet a busy block are queued on it (\<open>flashcache_enq_pending\<close>). Completions run in callbacks, which hand
  what may sleep to the worker (\<open>do_work\<close>) over five queues. In write back mode each change of a block between
  clean and dirty is written to the block table on the SSD (\<open>flashcache_md_write\<close>), one write per metadata
  block at a time, further updates waiting to be batched. \<open>flashcache_clean_set\<close> and \<open>flashcache_sync_blocks\<close>
  write dirty blocks back. Reads first consult the prefetcher (\<open>pfd_stat.c\<close>, \<open>pfd_cache.c\<close>), which predicts
  strides per process and keeps what it read ahead in memory.

  Modelling. A structure of the code is a \<open>record\<close> with its fields, an enumeration a \<open>datatype\<close>; the state of the
  driver is one record \<open>cache_c\<close> (\<open>struct cache_c\<close>, the module's globals, the requests at the devices, the log of
  completed bios, and superblock and block table on the SSD). Each C function is a definition of the same name;
  one that can fail a \<open>VERIFY\<close>, or that contains a loop whose end is not evident, returns an option, with
  \<open>None\<close> for the panic or the loop that does not return. Sectors and statistics are 64 bit words, flags 16 bit
  words, indices natural numbers, truncated where a field of 16 bits stores them. A handler is one step: locks
  have no effect of their own (theory \<open>Locks\<close> shows apart when they can deadlock), and where the code drops a lock
  inside a handler nothing is interleaved. What the kernel decides is a parameter: the clock, the outcome of
  allocations and synchronous I/O (scripts in the record \<open>kernel\<close>), \<open>jhash_1word\<close>, \<open>sort\<close>, \<open>sscanf\<close>, the
  completion of asynchronous I/O (a step with its result).

  Theories, in the order of the code.
  \<^item> \<open>Prelude\<close>: panics, loops over lists, widths, flags. \<open>Links\<close>: doubly linked lists threaded through arrays
    (locale and refinement to lists), shared by hash chains, replacement lists, detectors and statistics.
  \<^item> \<open>Cache\<close>: constants and structures of \<open>flashcache.h\<close>, \<open>pfd_stat.h\<close>, \<open>pfd_cache.h\<close>. \<open>Zero\<close>: zeroed structures.
  \<^item> \<open>Hash\<close>: invalid lists, set hash and placement (\<open>flashcache_subr.c\<close>), with the locale of an index and its
    refinement to a map. \<open>Reclaim\<close>: the policies of \<open>flashcache_reclaim.c\<close> and their abstract lists. \<open>Pending\<close>: jobs,
    queues, merging of writes (\<open>flashcache_subr.c\<close>).
  \<^item> \<open>Lookup\<close>, \<open>Clean\<close>, \<open>Inval\<close>, \<open>Metadata\<close>, \<open>Complete\<close>, \<open>Requests\<close>: \<open>flashcache_main.c\<close>. \<open>Kcopy\<close>:
    \<open>flashcache_kcopy.c\<close>, compiled but not called. \<open>Locks\<close>: the order in which requests take the
    locks of sets. \<open>Ioctl\<close>: \<open>flashcache_ioctl.c\<close>.
  \<^item> \<open>Pfd_Stat\<close>, \<open>Pfd_Cache\<close>: \<open>pfd_stat.c\<close>, \<open>pfd_cache.c\<close>, \<open>prefetchd_reset.c\<close>.
  \<^item> \<open>Conf\<close>, \<open>Target\<close>, \<open>Module\<close>: \<open>flashcache_conf.c\<close>: creating, storing and loading the block table; constructor,
    destructor and the handlers of the sysctls; loading and unloading the module, removal, reboot. \<open>Procfs\<close>:
    tables of sysctls and registration in \<open>flashcache_procfs.c\<close>. \<open>Status\<close>: all texts the driver prints.
  \<^item> \<open>Wt\<close>, \<open>Wt_Ctr\<close>, \<open>Wt_Status\<close>: \<open>flashcache_wt.c\<close>.

  What the lemmas show.
  \<^item> Single structures: \<open>Search\<close> (the lookup under the invariants of a set), \<open>Invalidate\<close>, \<open>Pids\<close>, \<open>Prefetch\<close>
    (the invariant of the statistics, the loops of the prediction end and stay in bounds), \<open>Stat_Queue\<close> (the
    queue of statistics as a map that evicts the least recently used), \<open>Mdwrite\<close> (what a metadata write stores),
    \<open>Persist\<close> (storing and loading the block table), \<open>Ctor\<close>, \<open>Ready\<close> (what the constructor establishes),
    \<open>Kcopy_Spec\<close>, \<open>Procfs_Spec\<close>, \<open>Status_Spec\<close>, \<open>Module_Spec\<close>.
  \<^item> The driver as a transition system: \<open>System\<close> defines the steps \<open>driver_step\<close> (requests, jobs, completions,
    messages, sysctls, removal, changes of the kernel) and the reachable states. \<open>Ledger\<close>, \<open>Flow\<close>, \<open>Serial\<close> account
    for jobs, requests and metadata writes handler by handler. What an operation leaves alone is proved once
    in the locales of \<open>Frame\<close>, \<open>Write_Frame\<close> and \<open>Read_Frame\<close>, interpreted in \<open>View\<close> and \<open>Read_Ahead\<close>, where the
    statistics stay well formed in every reachable state and writes are seen not to withdraw prefetched blocks.
  \<^item> The write through driver: \<open>Wt_Inv\<close>, \<open>Wt_Steps\<close>, \<open>Wt_Ops\<close> (the invariant, no panic, no request lost);
    \<open>Wt_World\<close>, \<open>Wt_Coherence\<close>, \<open>Wt_Map\<close>, \<open>Wt_Transfer\<close>, \<open>Wt_Settled\<close>, \<open>Wt_Devices\<close> (coherence with the disk, with
    sectors transferred in any order; for caches of at most \<open>2 ^ 31\<close> sectors, where the address arithmetic of
    the code does not wrap); \<open>Wt_Props\<close> (the properties).
  \<^item> Instances: \<open>Demo\<close>, \<open>Cases\<close>, \<open>Run\<close>, \<open>Wt_Run\<close> hold the concrete states and runs of the witnesses.

  Loops. No fuel is used: loops are structural recursion, \<open>function\<close> with a measure, or \<open>partial_function (option)\<close>;
  of the latter, the searches in sets, the worker loops of the write through driver, storing and loading,
  predictions and the queue of statistics are proved to return; the removal of a cache is proved not to.

  Not modelled. The ioctl entry point (it passes the commands of \<open>flashcache_message\<close>); opening the two devices and
  the release of memory on the error paths of the constructor; the content of the prefetch buffers (theory
  \<open>Pfd_Cache\<close> keeps which block they hold); checksums (\<open>FLASHCACHE_DO_CHECKSUMS\<close> is off in the header); branches
  for kernels before 3.9; the old prefetcher (\<open>prefetchd_stat.c\<close>, \<open>prefetchd_cache.c\<close>), which the makefile does not
  build; the user tools and boot scripts.
\<close>

text \<open>C15. A block that is ready and whose disk block is not in the hash of its set is found there
  after \<open>flashcache_hash_insert\<close>, and no other lookup changes.\<close>

theorem hash_insert_found:
  assumes "set_index s d m" and "index_ready s d i"
    and "flashcache_hash_lookup d s (dbn (cache d i)) = Some None"
  shows "\<exists>d'. flashcache_hash_insert i d = Some d' \<and>
    flashcache_hash_lookup d' s (dbn (cache d i)) = Some (Some i) \<and>
    (\<forall>k. k \<noteq> dbn (cache d i) \<longrightarrow> flashcache_hash_lookup d' s k = flashcache_hash_lookup d s k)"
  using set_hash.lookup_inserted [OF assms(1,2)] assms(3) by (simp add: index_key_def)

theorem hash_insert_found_witness:
  "\<exists>d'. flashcache_hash_insert 1 demo_ready = Some d' \<and>
    flashcache_hash_lookup d' 0 (dbn (cache demo_ready 1)) = Some (Some 1) \<and>
    (\<forall>k. k \<noteq> dbn (cache demo_ready 1) \<longrightarrow>
       flashcache_hash_lookup d' 0 k = flashcache_hash_lookup demo_ready 0 k)"
  by (rule hash_insert_found [OF demo_ready_index])
    (rule set_hash.lookup_law [OF demo_ready_index(1), unfolded])



text \<open>A block that the lookup finds is no longer found after \<open>flashcache_hash_remove\<close>, which succeeds; no
  other lookup changes.\<close>

theorem hash_remove_lost:
  assumes "set_index s d m" and "flashcache_hash_lookup d s (dbn (cache d i)) = Some (Some i)"
  shows "\<exists>d'. flashcache_hash_remove (Some i) d = Some d' \<and>
    flashcache_hash_lookup d' s (dbn (cache d i)) = Some None \<and>
    (\<forall>k. k \<noteq> dbn (cache d i) \<longrightarrow> flashcache_hash_lookup d' s k = flashcache_hash_lookup d s k)"
  using set_hash.lookup_removed [OF assms(1)] assms(2) by (simp add: index_key_def)

theorem hash_remove_lost_witness:
  "\<exists>d'. flashcache_hash_remove (Some 1) demo_hashed = Some d' \<and>
    flashcache_hash_lookup d' 0 16 = Some None"
  using hash_remove_lost [OF demo_hashed_index(1), of 1] demo_hashed_index(2,3) by auto

text \<open>The invalid list of a set is a stack: \<open>flashcache_invalid_get\<close> returns the block inserted last and
  restores the list; the hash chains stay as they are.\<close>

theorem invalid_list_lifo:
  assumes "geometry d" and "s < num_sets d" and "x < assoc d" and "set_hash_inv d s ch iv"
    and "state_of d (s * assoc d + x) = INVALID" and "x \<notin> set iv"
  shows "\<exists>d1 d2. flashcache_invalid_insert (s * assoc d + x) d = Some d1 \<and>
    set_hash_inv d1 s ch (x # iv) \<and>
    flashcache_invalid_get s d1 = Some (Some (s * assoc d + x), d2) \<and> set_hash_inv d2 s ch iv"
proof -
  from invalid_insert_set [OF assms(1-4) assms(5,6)] obtain d1 where
    1: "flashcache_invalid_insert (s * assoc d + x) d = Some d1" "hash_frame s d d1"
      "set_hash_inv d1 s ch (x # iv)" by blast
  have "geometry d1" "s < num_sets d1" "assoc d1 = assoc d"
    using assms(1,2) 1(2) by (simp_all add: geometry_frame hash_frame_same)
  with invalid_get_set [OF this(1,2) 1(3)] 1 show ?thesis by auto
qed

theorem invalid_list_lifo_witness:
  "\<exists>d1 d2. flashcache_invalid_insert 6 demo = Some d1 \<and> flashcache_invalid_get 1 d1 = Some (Some 6, d2) \<and>
    set_hash_inv d2 1 (\<lambda>_. []) []"
  using invalid_list_lifo [OF demo_geometry _ _ demo_hash, of 1 2]
  by (auto simp: zero_cacheblock_def)



text \<open>C23. A new \<open>lru_hot_pct\<close> moves, in every set, the difference of the two quotas from one list to the
  other and leaves the lists well formed.\<close>

theorem lru_rebalance_refines:
  assumes "geometry d" and "\<forall>s < num_sets d. lru_inv d s (q s)" and "0 \<le> pct" "pct \<le> 100"
    and "new = assoc d * nat pct div 100" and "old = assoc d * nat (hot_list_pct d) div 100"
  shows "\<exists>d'. flashcache_lru_hot_pct_sysctl True (sysctl_update (sysctl_lru_hot_pct_update (\<lambda>_. pct)) d) =
      Some (d'\<lparr>hot_list_pct := pct\<rparr>) \<and>
    (\<forall>s < num_sets d. lru_inv d' s
       (rebalanced (old < new) (if old < new then new - old else old - new) (q s)))"
proof -
  let ?d = "sysctl_update (sysctl_lru_hot_pct_update (\<lambda>_. pct)) d"
  have "geometry ?d" using assms(1) by (simp add: geometry_def)
  moreover have "\<forall>s < num_sets ?d. lru_inv ?d s (q s)"
    using assms(2) by (simp add: lru_inv_def lru_list_def)
  ultimately show ?thesis
    using lru_rebalance [of ?d q pct] assms(3-6) by (auto simp: flashcache_lru_hot_pct_sysctl_def)
qed

theorem lru_rebalance_refines_witness:
  "\<exists>d'. flashcache_lru_hot_pct_sysctl True (sysctl_update (sysctl_lru_hot_pct_update (\<lambda>_. 75)) demo_lists) =
      Some d' \<and> hot_list_pct d' = 75"
proof -
  have "\<forall>s < num_sets demo_lists. lru_inv demo_lists s (init_lists 2 4)"
    using demo_lists_inv(4,5,7) by (auto simp: less_2_cases_iff)
  from lru_rebalance_refines [OF demo_lists_inv(2) this, of 75, OF _ _ refl refl] show ?thesis by auto
qed

text \<open>The FIFO policy returns a clean idle block of the set, or none exactly when there is none, and its
  pointer stays in the set.\<close>

theorem fifo_victim:
  assumes "geometry d" and "set_fifo_next (cache_sets d s) div assoc d = s"
  shows "\<exists>found d'. flashcache_reclaim_fifo_get_old_block (s * assoc d) d = Some (found, d') \<and>
    set_fifo_next (cache_sets d' s) div assoc d = s \<and>
    (case found of Some i \<Rightarrow> state_of d i = VALID \<and> i div assoc d = s
     | None \<Rightarrow> \<forall>x < assoc d. state_of d (s * assoc d + x) \<noteq> VALID)"
  using fifo_get_old_block [OF assms] by blast

theorem fifo_victim_witness:
  "\<exists>d'. flashcache_reclaim_fifo_get_old_block 4 demo = Some (None, d')"
proof -
  have "set_fifo_next (cache_sets demo 1) div assoc demo = 1" by (simp add: demo_def)
  from fifo_victim [OF demo_geometry this] show ?thesis
    by (auto simp: flag_defs split: option.splits)
qed

text \<open>C25. The requests queued on a block leave \<open>flashcache_deq_pending\<close> in the order of their arrival, those
  of the other blocks stay queued, and the counter is kept.\<close>

theorem pending_fifo:
  assumes "pending_inv d"
  shows "\<exists>d1 d2. flashcache_enq_pending b i act True d = Some d1 \<and>
    flashcache_deq_pending i d1 =
      Some (pending_of d i @ [\<lparr>pj_bio = b, pj_action = act, pj_index = i\<rparr>], d2) \<and>
    pending_inv d2 \<and> pending_of d2 i = [] \<and> (\<forall>k. k \<noteq> i \<longrightarrow> pending_of d2 k = pending_of d k)"
proof -
  from enq_pending [OF assms] obtain d1 where
    1: "flashcache_enq_pending b i act True d = Some d1" "pending_inv d1"
      "pending_of d1 i = pending_of d i @ [\<lparr>pj_bio = b, pj_action = act, pj_index = i\<rparr>]"
      "\<forall>k. k \<noteq> i \<longrightarrow> pending_of d1 k = pending_of d k" by blast
  with deq_pending [OF 1(2), of i] show ?thesis by fastforce
qed

theorem pending_fifo_witness:
  "\<exists>d1 d2. flashcache_enq_pending demo_block_bio 3 READCACHE True demo = Some d1 \<and>
    flashcache_deq_pending 3 d1 = Some ([\<lparr>pj_bio = demo_block_bio, pj_action = READCACHE, pj_index = 3\<rparr>], d2)"
  using pending_fifo [OF demo_pending(1), of demo_block_bio 3 READCACHE] demo_pending(2) by auto

text \<open>\<open>hash_block\<close> maps every sector to a set of the cache.\<close>

theorem placement_in_range: "geometry d \<Longrightarrow> 0 < num_sets d \<Longrightarrow> hash_block d k < num_sets d"
  by (rule hash_block_less)

theorem placement_in_range_witness: "hash_block demo 77 < 2"
  using placement_in_range [OF demo_geometry, of 77] by simp


section \<open>The driver as a whole\<close>

text \<open>C1. Whatever the interleaving of requests, worker jobs, disk completions (failed ones included), messages
  and sysctls, every request the driver has accepted is completed or is outstanding in exactly one place: in a
  job, in the queue of a block, behind a metadata write, or asleep on a prefetch. No request is lost and none is
  completed twice.\<close>

theorem requests_conserved:
  assumes "idle d0" and "driver_reach d0 acc d"
  shows "mset acc = outstanding d + mset (map fst (completed d))"
  by (rule accepted_requests [OF assms(2,1)])

theorem requests_conserved_witness:
  "mset [demo_bio] = outstanding demo1 + mset (map fst (completed demo1))"
  by (rule requests_conserved [OF demo_idle demo_reach1])

text \<open>C2. In every reachable state where \<open>nr_jobs\<close>, for which the destructor waits, and the pending counter are zero and
  no reader sleeps on a prefetch, no job exists, no request is queued or waits for a metadata write,
  and every accepted request has been completed.\<close>

theorem drained_when_counters_zero:
  assumes "idle d0" and "driver_reach d0 acc d"
    and "nr_jobs d = 0" and "pending_jobs_count d = 0" and "pfd_waiters d = []"
  shows "active_jobs d = [] \<and> (\<forall>b < PENDING_JOB_HASH_SIZE. pending_job_hashbuckets d b = []) \<and>
    (\<forall>b. waiting (md_blocks_buf d b) = []) \<and> mset (map fst (completed d)) = mset acc"
  by (rule drained [OF assms])

theorem drained_when_counters_zero_witness:
  "mset (map fst (completed demo3)) = mset [demo_bio]"
  using drained_when_counters_zero [OF demo_idle demo_reach3] by (simp add: demo_run_sel)

text \<open>C3. The reference counters are exact in every reachable state: \<open>nr_jobs\<close> and \<open>nr_cache_jobs\<close> are the number
  of jobs on the queues, at the disks and behind metadata writes; \<open>nr_pending_jobs\<close> and \<open>pending_jobs_count\<close>
  are the number of requests queued on blocks.\<close>

theorem job_counters_exact:
  assumes "idle d0" and "driver_reach d0 acc d"
  shows "nr_jobs d = int (length (active_jobs d) + nr_waiting d) \<and> nr_cache_jobs d = nr_jobs d \<and>
    pending_jobs_count d = int (\<Sum>b < PENDING_JOB_HASH_SIZE. length (pending_job_hashbuckets d b)) \<and>
    nr_pending_jobs d = pending_jobs_count d"
  by (rule counters [OF assms])

theorem job_counters_exact_witness:
  "nr_jobs demo1 = int (length (active_jobs demo1) + nr_waiting demo1)"
  using job_counters_exact [OF demo_idle demo_reach1] by blast

text \<open>C4. Metadata writes are serialised in every reachable state: for each metadata block at most one write is
  queued or at the flash device, \<open>nr_in_prog\<close> is their number, and updates wait at the block only while there
  is one, each at the block that holds its slot. So no two writes of a metadata block can overtake each other.\<close>

theorem metadata_writes_serialised:
  assumes "idle d0" and "driver_reach d0 acc d"
  shows "length (filter (\<lambda>j. md_block_of d j = b) (md_pipeline d)) = nr_in_prog (md_blocks_buf d b) \<and>
    nr_in_prog (md_blocks_buf d b) \<le> 1 \<and>
    (waiting (md_blocks_buf d b) \<noteq> [] \<longrightarrow> nr_in_prog (md_blocks_buf d b) = 1) \<and>
    (\<forall>j \<in> set (waiting (md_blocks_buf d b)). md_block_of d j = b)"
  by (rule md_serial [OF assms])

theorem metadata_writes_serialised_witness:
  "length (filter (\<lambda>j. md_block_of demo_wb2 j = 0) (md_pipeline demo_wb2)) = 1"
  using metadata_writes_serialised [OF demo_wb_idle demo_wb_reach2, of 0] demo_wb_sel(1) by simp

text \<open>One pass of the worker over its five queues is a sequence of steps of the driver, so every
  property of reachable states holds before, between and after the jobs it runs.\<close>

theorem worker_runs_steps:
  assumes "do_work d = Some d'"
  shows "driver_reach d [] d'"
  by (rule do_work_reach [OF assms])

theorem worker_runs_steps_witness: "\<exists>d'. do_work demo2 = Some d' \<and> driver_reach demo2 [] d'"
  using demo2_works worker_runs_steps [OF demo2_works] by blast

text \<open>The geometry, the mode and the metadata layout that the constructor chose never change while the
  driver runs.\<close>

theorem geometry_constant:
  assumes "idle d0" and "driver_reach d0 acc d"
  shows "csize d = csize d0 \<and> assoc d = assoc d0 \<and> num_sets d = num_sets d0 \<and> block_size d = block_size d0 \<and>
    mode d = mode d0 \<and> md_blocks d = md_blocks d0 \<and> md_block_size d = md_block_size d0 \<and>
    on_ssd_version d = on_ssd_version d0"
  using reach_shape [OF assms(2,1)] by (simp add: shape_def)

theorem geometry_constant_witness: "assoc demo_wb2 = assoc demo_wb"
  using geometry_constant [OF demo_wb_idle demo_wb_reach2] by blast

section \<open>Lookup\<close>

text \<open>C9. Under the invariants of the set, \<open>flashcache_lookup\<close> returns the block that the hash holds for the
  sector; else the head of the invalid list; else a clean idle block of the set, or no room only when the set has
  none. It never fails a \<open>VERIFY\<close> and keeps the invariants: hash chains, invalid list, replacement lists, FIFO
  pointer and the count of fallow blocks.\<close>

theorem lookup_correct:
  assumes "cset_inv d s ch iv q" and "s = hash_block d (bi_sector b)"
  shows "\<exists>r d' iv' q'. flashcache_lookup b d = Some (r, d') \<and> cset_inv d' s ch iv' q' \<and>
    (case index_map d s ch (bi_sector b) of
       Some i \<Rightarrow> r = Hit i \<and> iv' = iv
     | None \<Rightarrow>
        (case iv of
           x # xs \<Rightarrow> r = Victim (s * assoc d + x) \<and> iv' = xs
         | [] \<Rightarrow> iv' = [] \<and>
             (case r of Victim i \<Rightarrow> state_of d i = VALID \<and> i div assoc d = s
              | Noroom \<Rightarrow> \<forall>x < assoc d. state_of d (s * assoc d + x) \<noteq> VALID
              | Hit i \<Rightarrow> False)))"
  by (rule lookup_spec [OF assms])

theorem lookup_correct_witness:
  "\<exists>i d'. flashcache_lookup demo_block_bio demo_created = Some (Victim i, d')"
proof -
  let ?s = "hash_block demo_created (bi_sector demo_block_bio)"
  have inv: "cset_inv demo_created s (\<lambda>_. []) (rev [0..<512]) (init_lists 256 512)" if "s < num_sets demo_created" for s
    using demo_created_run(2) [OF that] by (simp add: demo_created_run(3))
  have "geometry demo_created" "0 < num_sets demo_created"
    using cset_invD(1) [OF inv [of 0]] by (simp_all add: demo_created_run(4))
  from hash_block_less [OF this] have s: "?s < num_sets demo_created" .
  have "rev [0..<512] = 511 # rev [0..<511]" by (simp add: upt_Suc [of 0 511, simplified])
  with lookup_correct [OF inv [OF s] refl] show ?thesis
    by (simp add: index_map_def) blast
qed


section \<open>Metadata\<close>

text \<open>C14. A metadata write that succeeds leaves on the flash device, for every slot of its metadata block, the
  disk block in memory and the state of the last of the batched updates for the slot (\<open>VALID\<close> and \<open>DIRTY\<close> after a
  write to the cache, \<open>VALID\<close> after a clean), or the state in memory when no update is for it. All updates that
  waited are part of the one write, and no slot of another metadata block changes.\<close>

theorem md_updates_stored:
  assumes "job_index job = Some i" and "in_md_block d b i" and "MD_SLOTS_PER_BLOCK d \<noteq> 0"
    and "alloc_ok d" and "sysctl_error_inject (sysctl d) AND MD_ALLOC_SECTOR_ERROR = 0"
    and "\<forall>j \<in> set (queued_updates (md_blocks_buf d b)). \<exists>k. job_index j = Some k \<and> in_md_block d b k"
  shows "\<exists>d' d''. flashcache_md_write_kickoff job d = Some d' \<and>
    complete_io (length (io_inflight d)) False e2 d' = Some d'' \<and>
    (\<forall>k. ssd_md d'' k = (if in_md_block d b k
       then (dbn (cache d k), update_of (job # queued_updates (md_blocks_buf d b)) k (snd (md_slot_of d k)))
       else ssd_md d k))"
  by (rule kickoff_stored [OF assms])

theorem md_updates_stored_witness:
  "\<exists>d' d''. flashcache_md_write_kickoff demo_job demo_wb = Some d' \<and>
    complete_io (length (io_inflight demo_wb)) False False d' = Some d'' \<and>
    ssd_md d'' 1 = (16, ucast (VALID OR DIRTY))"
proof -
  have "update_of [demo_job] 1 st = ucast (VALID OR DIRTY)" for st
    by (simp add: update_of_def md_job_state_def)
  with md_updates_stored [OF demo_job_sel(1) demo_wb_md_sel(1-4), of False] demo_wb_md_sel
  show ?thesis by simp (metis (no_types, lifting))
qed

text \<open>C26. A metadata write for a cached write that fails in write back mode brings the driver down: the completion
  handler has ended the request but leaves it in the job, and the error path takes it for a request of a write
  through cache, whose \<open>VERIFY\<close> on the mode fails.\<close>

theorem md_write_error_panics:
  assumes "mode d = FLASHCACHE_WRITE_BACK" and "job_action job = WRITECACHE" and "job_bio job = Some b"
    and "err \<noteq> 0"
  shows "md_done_one err job d = None"
  by (rule md_error_panics [OF assms])

theorem md_write_error_panics_witness: "md_done_one (- EIO) demo_job demo_wb = None"
  by (rule md_write_error_panics [OF demo_wb_md_sel(6) demo_job_sel(2,3)]) (simp add: EIO_def)

section \<open>Creation, storing and loading\<close>

text \<open>C12. A cache that is stored and then loaded into another kernel's zeroed structure has its geometry again
  and, block by block, its disk blocks and the flags \<open>VALID\<close>, \<open>INVALID\<close> and \<open>DIRTY\<close>: no dirty block is lost by
  removing a cache without cleaning it.\<close>

theorem store_load_roundtrip:
  assumes "md_size_ok d" and "no_failures d" and "on_ssd_version d = FLASHCACHE_VERSION"
    and "\<forall>i < csize d. state_of d i AND (VALID OR INVALID) \<noteq> VALID OR INVALID"
    and "no_failures z"
  shows "\<exists>d' e. flashcache_writeback_md_store d = Some (0, d') \<and>
    flashcache_writeback_load (z\<lparr>ssd_sb := ssd_sb d', ssd_md := ssd_md d'\<rparr>) = Some (0, e) \<and>
    csize e = csize d \<and> assoc e = assoc d \<and> block_size e = block_size d \<and>
    md_block_size e = md_block_size d \<and> disk_assoc e = disk_assoc d \<and>
    write_only_cache e = write_only_cache d \<and>
    (\<forall>i < csize d. dbn (cache e i) = dbn (cache d i) \<and>
       state_of e i = state_of d i AND (VALID OR INVALID OR DIRTY) \<and> nr_queued (cache e i) = 0)"
  by (rule store_load [OF assms])

theorem store_load_roundtrip_witness:
  "\<exists>d' e. flashcache_writeback_md_store demo_store = Some (0, d') \<and>
    flashcache_writeback_load (demo\<lparr>ssd_sb := ssd_sb d', ssd_md := ssd_md d'\<rparr>) = Some (0, e) \<and>
    dbn (cache e 1) = 16"
  using store_load_roundtrip [OF demo_store_sel(1-4,7)] demo_store_sel(5,6) by auto

text \<open>C13. After a crash the superblock still says \<open>DIRTY\<close>, and the load keeps exactly the blocks whose slot has
  the flag \<open>DIRTY\<close>: every other block comes back \<open>INVALID\<close>, because its slot may be older than its data.\<close>

theorem unclean_load_keeps_dirty:
  assumes "no_failures d" and "header_ok (ssd_sb d)" and "cache_sb_state (ssd_sb d) = CACHE_MD_STATE_DIRTY"
    and "\<forall>i < sb_size (ssd_sb d). slot_ok False (ssd_md d i)"
  shows "\<exists>e. flashcache_writeback_load d = Some (0, e) \<and>
    (\<forall>i < sb_size (ssd_sb d).
       if snd (ssd_md d i) AND ucast DIRTY \<noteq> 0
       then dbn (cache e i) = fst (ssd_md d i) \<and> state_of e i = ucast (snd (ssd_md d i))
       else state_of e i = INVALID)"
proof -
  from writeback_load_ok [OF assms(1,2), of False] assms(3,4) obtain e where
    "flashcache_writeback_load d = Some (0, e)"
    "\<forall>i < sb_size (ssd_sb d). cache e i = loaded False (ssd_md d i) zero_cacheblock" by auto
  then show ?thesis by (auto simp: loaded_def)
qed

theorem unclean_load_keeps_dirty_witness:
  "\<exists>e. flashcache_writeback_load demo_crashed = Some (0, e) \<and> dbn (cache e 0) = 24 \<and> state_of e 1 = INVALID"
proof -
  from unclean_load_keeps_dirty [OF demo_crashed_sel(1-3,7)] obtain e where
    1: "flashcache_writeback_load demo_crashed = Some (0, e)" and
    2: "\<forall>i < 2. if snd (ssd_md demo_crashed i) AND ucast DIRTY \<noteq> 0
       then dbn (cache e i) = fst (ssd_md demo_crashed i) \<and> state_of e i = ucast (snd (ssd_md demo_crashed i))
       else state_of e i = INVALID"
    unfolding demo_crashed_sel(4) by blast
  have "dbn (cache e 0) = 24" using 2 [rule_format, of 0] by (simp add: demo_crashed_sel flag_defs)
  moreover have "state_of e 1 = INVALID" using 2 [rule_format, of 1] by (simp add: demo_crashed_sel demo_crashed_sel(6) [simplified] flag_defs)
  ultimately show ?thesis using 1 by blast
qed

text \<open>C36. Storing the metadata ends and never fails a \<open>VERIFY\<close>, whatever the outcome of the writes and of the
  allocation of its buffer: the index of the slot never leaves the buffer.\<close>

theorem md_store_terminates:
  assumes "md_size_ok d"
  shows "\<exists>r d'. flashcache_writeback_md_store d = Some (r, d')"
  by (rule md_store_total [OF assms])

theorem md_store_terminates_witness: "\<exists>r d'. flashcache_writeback_md_store demo_store = Some (r, d')"
  by (rule md_store_terminates [OF demo_store_sel(1)])

text \<open>C11. When the constructor succeeds on a new cache, the cache is quiet, its geometry satisfies the relations
  that the address arithmetic relies on, and its metadata and blocks fit on the flash device.\<close>

theorem created_fits:
  assumes "flashcache_ctr dbs scan fresh argv (zero_cache_c k) = Some (0, d)"
    and "Option.bind (scan (argv ! 3)) mode_arg = Some m"
    and "persistence_arg scan argv m \<noteq> Some CACHE_RELOAD"
  shows "idle d \<and> geometry d \<and> mode d = m \<and>
    (if m = FLASHCACHE_WRITE_BACK then md_blocks d * md_block_size d else 0) + csize d * block_size d
      \<le> ssd_nr_sects k"
  by (rule ctr_ok [OF assms])

theorem created_fits_witness: "idle demo_created \<and> geometry demo_created"
  using created_fits [OF demo_created_run(1) demo_ctr_facts(2)] demo_ctr_facts(3,4) by simp

text \<open>C10. The constructor establishes the invariants of every set: with arguments that pass its checks, enough
  room on the flash device and no failure of the kernel, it succeeds with the planned size, every block is on the
  invalid list of its set, every hash chain is empty, and the two lists of the replacement policy split the set
  in halves.\<close>

theorem created_sets_ready:
  assumes "3 < length argv" and "Option.bind (scan (argv ! 3)) mode_arg = Some m"
    and "persistence_arg scan argv m = Some p" and "m = FLASHCACHE_WRITE_BACK \<Longrightarrow> p \<noteq> CACHE_RELOAD"
    and "ctr_params dbs scan argv (ctr_start argv m k) = Inr d" and "room p d"
    and "alloc_script k = []" and "io_script k = []"
  shows "\<exists>d'. flashcache_ctr dbs scan fresh argv (zero_cache_c k) = Some (0, d') \<and>
    geometry d' \<and> csize d' = planned_size d \<and> assoc d' = assoc d \<and>
    (\<forall>s < num_sets d'. cset_inv d' s (\<lambda>_. []) (rev [0..<assoc d']) (init_lists (assoc d' div 2) (assoc d')))"
  by (rule ctr_ready [OF assms])

theorem created_sets_ready_witness:
  "\<exists>d'. flashcache_ctr 512 demo_scan (\<lambda>_. demo_meta) demo_argv (zero_cache_c demo_ctr_kernel) = Some (0, d') \<and>
    assoc d' = assoc demo_params"
  using created_sets_ready [OF demo_ctr_facts(1-3) demo_ctr_facts(4) demo_ctr_params demo_room
      demo_ctr_facts(5,6)] by blast

section \<open>Prefetching\<close>

text \<open>C19. The statistics of a process keep their invariant at every read, whatever the sectors: both runs lie on
  the disk, a stride exists only with a previous run and does not make the runs overlap, and the current run ends
  with the block just read.\<close>

theorem stat_invariant:
  assumes "stat_inv (2 ^ sh) D t" and "0 \<le> sint k" and "sint k < D" and "D + 2 ^ sh \<le> 2 ^ 63"
  shows "stat_inv (2 ^ sh) D (pfd_stat_step (2 ^ sh) sh k t) \<and>
    (let c = curr_run (pfd_stat_step (2 ^ sh) sh k t)
     in 0 < pfd_seq_stat.count c \<and> sint k = sint (start c) + (pfd_seq_stat.count c - 1) * 2 ^ sh)"
  by (rule stat_step_inv [OF assms])

theorem stat_invariant_witness: "stat_inv 8 4096 (pfd_stat_step 8 3 808 demo_stat)"
  using stat_invariant [of 3 4096 demo_stat 808] demo_stat_inv by (simp add: Let_def)

text \<open>C16. After any read of a process the prediction ends, never overruns the array of \<open>PFD_CACHE_MAX_STEP\<close>
  entries, reports no more blocks than it stored, and lists only sectors of the disk.\<close>

theorem prediction_bounds:
  assumes "stat_inv (2 ^ block_shift d) (int (disk_nr_sects (kernel d))) t"
    and "block_size d = 2 ^ block_shift d"
    and "0 \<le> sint k" and "sint k < int (disk_nr_sects (kernel d))"
    and "int (disk_nr_sects (kernel d)) + 2 ^ block_shift d \<le> 2 ^ 63"
  shows "\<exists>n xs. pfd_stat_get_prefetch_dbns d
      (stat_info k (pfd_stat_step (block_size d) (block_shift d) k t)) = Some (n, xs) \<and>
    \<bar>n\<bar> \<le> int (length xs) \<and> int (length xs) \<le> PFD_CACHE_MAX_STEP \<and>
    (\<forall>x \<in> set xs. 0 \<le> x \<and> x < int (disk_nr_sects (kernel d)))"
  using prefetch_dbns_ok [OF _ assms(3,4) _ _ assms(2)] stat_step_inv [OF assms(1,3-5)] assms(2)
  by (simp add: Let_def)

theorem prediction_bounds_witness:
  "\<exists>n xs. pfd_stat_get_prefetch_dbns demo (stat_info 808 (pfd_stat_step 8 3 808 demo_stat)) = Some (n, xs) \<and>
    int (length xs) \<le> PFD_CACHE_MAX_STEP"
  using prediction_bounds [of demo demo_stat 808] demo_stat_inv by (auto simp: demo_run)

text \<open>C20. The loop for forward strides computes the arithmetic pattern: block \<open>m\<close> of the pattern is block
  \<open>m mod tot\<close> of run \<open>m div tot\<close>, and the loop lists the blocks after the last read, up to the free entries
  of the array or the end of the disk, in one pass that ends.\<close>

theorem prediction_pattern:
  assumes "0 < tot" and "0 \<le> j" and "j \<le> tot" and "int (length arr) \<le> mx"
    and "k + bs = s + b * stride + j * bs"
  shows "\<exists>xs. prefetch_forward mx tot stride bs D k j arr = Some (int (length (arr @ xs)), arr @ xs) \<and>
    xs = takeWhile (\<lambda>x. x < D)
      (map (\<lambda>i. strided s tot stride bs (b * tot + j + int i)) [0..<nat (mx - int (length arr))])"
  by (rule prefetch_forward_eq [OF assms refl])

theorem prediction_pattern_witness:
  "prefetch_forward 4 2 100 8 1000 8 2 [] = Some (4, [100, 108, 200, 208])"
  using prediction_pattern [of 2 2 "[]" 4 8 8 0 0 100 1000] by (simp add: strided_def upt_rec)

text \<open>C18. In every state that the driver reaches after \<open>pfd_stat_init\<close>, \<open>pfd_stat_update\<close> ends and implements an
  access to a map from device and process to statistics: the entry of the reading process, or a fresh one, is
  advanced by the read and comes first, the others keep their entries and order, the least recently used one
  leaves when there would be more than 64, and the result is the entry's.\<close>

theorem stats_refine_map:
  assumes "driver_reach d0 acc d" and "main_queue d0 = reset_pfd_stat_queue q0"
  shows "\<exists>us fs t us' fs' q'. queue_inv (main_queue d) us fs \<and> queue_inv q' us' fs' \<and>
    processes q' us' =
      stat_access (stat_key d) (fresh_stat (stat_key d) t) (key_stat d (bi_sector b)) (processes (main_queue d) us) \<and>
    pfd_stat_update b d = Some (stat_info (bi_sector b) (snd (hd (processes q' us'))), d\<lparr>main_queue := q'\<rparr>)"
proof -
  have "queue_ok d0" using reset_queue_inv [of q0] assms(2) by (auto simp: queue_ok_def)
  from reach_queue_ok [OF assms(1) this] obtain us fs where "queue_inv (main_queue d) us fs"
    by (auto simp: queue_ok_def)
  with stat_update [OF this, of b] show ?thesis by blast
qed

theorem stats_refine_map_witness: "\<exists>info d'. pfd_stat_update demo_read_bio demo_ahead3 = Some (info, d')"
  using stats_refine_map [OF write_reach_driver [OF demo_ahead_reach], of "main_queue demo" demo_read_bio]
  by (auto simp: demo_ahead_def)

text \<open>C17. Writes do not withdraw what the prefetcher has read. When it holds a block and any writes, also of this
  block, are accepted, written and completed, a read of the block is answered at once and without error from the
  copy made before the writes: no I/O is started and no prefetch has refreshed the copy.\<close>

theorem prefetched_stale_read:
  assumes "write_reach d acc d'" and "prefetched d (bi_sector b)" and "queue_ok d"
  shows "\<exists>e. flashcache_read b d' = Some e \<and> completed e = completed d' @ [(b, 0)] \<and>
    active_jobs e = active_jobs d' \<and> pfd_inflight e = pfd_inflight d"
  by (rule stale_read [OF assms])

theorem prefetched_stale_read_witness:
  "\<exists>e. flashcache_read demo_read_bio demo_ahead3 = Some e \<and>
    completed e = [(demo_block_bio, 0), (demo_read_bio, 0)] \<and> active_jobs e = []"
  using prefetched_stale_read [OF demo_ahead_reach, of demo_read_bio] demo_ahead_ok demo_ahead_sel
  by (auto simp: demo_read_bio_def)

section \<open>Invalidation\<close>

text \<open>C24. Invalidating the blocks of a request takes an idle block out of the index: its disk block is no longer
  found, its state is \<open>INVALID\<close>, and the lookup of any other disk block is unchanged.\<close>

theorem invalidated_lost:
  assumes "set_index s d m" and "k = bi_sector b AND block_mask d" and "\<And>i. m k = Some i \<Longrightarrow> inval_idle i d"
  shows "\<exists>d'. flashcache_inval_block_set_v3 s b d = Some (0, d') \<and> set_index s d' (m(k := None)) \<and>
    (\<forall>i. m k = Some i \<longrightarrow> state_of d' i = INVALID)"
  by (rule inval_v3_spec [OF assms])

theorem invalidated_lost_witness:
  "\<exists>d'. flashcache_inval_block_set_v3 0 demo_block_bio demo_hashed = Some (0, d') \<and> state_of d' 1 = INVALID"
proof -
  have "bi_sector demo_block_bio AND block_mask demo_hashed = 16" by (rule demo_hashed_mask)
  with invalidated_lost [OF demo_hashed_index(1) refl, of demo_block_bio] demo_hashed_idle show ?thesis by auto
qed

section \<open>Pid lists and sysctls\<close>

text \<open>Deleting a pid removes exactly it, keeps the counter equal to the length, and leaves the other list
  alone.\<close>

theorem del_pid_removes:
  assumes "pid_inv l d"
  shows "\<exists>d'. flashcache_del_pid_locked p l d = Some d' \<and> pid_inv l d' \<and>
    pids l d' = filter (\<lambda>n. ctl_pid n \<noteq> p) (pids l d) \<and> (\<forall>l'. l' \<noteq> l \<longrightarrow> pids l' d' = pids l' d)"
  using del_pid_spec [OF assms] by blast

theorem del_pid_removes_witness:
  "\<exists>d'. flashcache_del_pid_locked 11 FLASHCACHE_WHITELIST (demo_pids 3) = Some d' \<and>
    map ctl_pid (pids FLASHCACHE_WHITELIST d') = [10]"
  using del_pid_removes [OF demo_pids_sel(2), of 11 3] by auto

text \<open>A pid that is added is found afterwards, no pid occurs twice, and the list never has more than
  \<open>max_pids + 1\<close> entries (the comment of the code promises \<open>max_pids\<close>).\<close>

theorem add_pid_bounded:
  assumes "pid_inv l d" and "0 < sysctl_max_pids (sysctl d)" and "alloc_ok d"
    and "int (length (pids l d)) \<le> sysctl_max_pids (sysctl d) + 1"
  shows "\<exists>d'. flashcache_add_pid p l d = Some d' \<and> pid_inv l d' \<and> flashcache_find_pid_locked p l d' \<and>
    int (length (pids l d')) \<le> sysctl_max_pids (sysctl d) + 1 \<and> (\<forall>l'. l' \<noteq> l \<longrightarrow> pids l' d' = pids l' d)"
  by (rule add_pid_spec [OF assms])

theorem add_pid_bounded_witness:
  "\<exists>d'. flashcache_add_pid 12 FLASHCACHE_WHITELIST (demo_pids 2) = Some d' \<and>
    flashcache_find_pid_locked 12 FLASHCACHE_WHITELIST d'"
  using add_pid_bounded [OF demo_pids_sel(2), of 2 12] by auto

text \<open>Dropping pids ends when the limit is positive; it keeps the \<open>max_pids - 1\<close> oldest pids.\<close>

theorem drop_pids_terminates:
  assumes "pid_inv l d" and "0 < sysctl_max_pids (sysctl d)"
  shows "\<exists>d'. flashcache_drop_pids l d = Some d' \<and> pid_inv l d' \<and>
    pids l d' = take (nat (sysctl_max_pids (sysctl d) - 1)) (pids l d)"
  using drop_pids_spec [OF assms] by blast

theorem drop_pids_terminates_witness:
  "\<exists>d'. flashcache_drop_pids FLASHCACHE_WHITELIST (demo_pids 2) = Some d' \<and>
    map ctl_pid (pids FLASHCACHE_WHITELIST d') = [10]"
  using drop_pids_terminates [OF demo_pids_sel(2), of 2] by auto

text \<open>The sysctl for the limit has no lower bound; with a limit that is not positive the same loop empties the
  list and then fails its \<open>VERIFY\<close>.\<close>

theorem drop_pids_nonpositive_panics:
  assumes "pid_inv l d" and "sysctl_max_pids (sysctl d) \<le> 0"
  shows "flashcache_drop_pids l d = None"
  by (rule drop_pids_panics [OF assms])

theorem drop_pids_nonpositive_panics_witness: "flashcache_drop_pids FLASHCACHE_WHITELIST (demo_pids 0) = None"
  by (rule drop_pids_nonpositive_panics) simp_all

text \<open>Whatever is written to them, \<open>dirty_thresh_pct\<close> ends between 10 and 95 with the threshold of the sets
  to match, and \<open>fallow_clean_speed\<close> ends between 1 and 100.\<close>

theorem sysctls_clamped:
  "DIRTY_THRESH_MIN \<le> sysctl_dirty_thresh (sysctl (flashcache_dirty_thresh_sysctl True d)) \<and>
   sysctl_dirty_thresh (sysctl (flashcache_dirty_thresh_sysctl True d)) \<le> DIRTY_THRESH_MAX \<and>
   dirty_thresh_set (flashcache_dirty_thresh_sysctl True d) =
     int (assoc d) * sysctl_dirty_thresh (sysctl (flashcache_dirty_thresh_sysctl True d)) div 100 \<and>
   FALLOW_SPEED_MIN \<le> sysctl_fallow_clean_speed (sysctl (flashcache_fallow_clean_speed_sysctl True d)) \<and>
   sysctl_fallow_clean_speed (sysctl (flashcache_fallow_clean_speed_sysctl True d)) \<le> FALLOW_SPEED_MAX"
  by (simp add: flashcache_dirty_thresh_sysctl_def flashcache_fallow_clean_speed_sysctl_def Let_def
      DIRTY_THRESH_MIN_def DIRTY_THRESH_MAX_def FALLOW_SPEED_MIN_def FALLOW_SPEED_MAX_def)

end
